(* ===== verification/Vmm_Prelude.thy ===== *)
theory Vmm_Prelude
  imports Main "HOL-Library.Word" "HOL-Library.Signed_Division" "HOL-Library.While_Combinator"
begin

unbundle bit_operations_syntax

text \<open>
  What every component of the development shares: names for the C integer types, faults as
  values with a total-correctness calculus, bounds-checked arrays, and two interfaces stated as
  locales.  A C function that may divide by zero, index an array out of range, fail an
  \<^verbatim>\<open>assert\<close>, loop for ever or reach \<^verbatim>\<open>ZF_LOGF\<close> returns a value of type
  \<open>'a res\<close>; \<open>ok m P\<close> says that \<open>m\<close> returns without a fault and that its result
  satisfies \<open>P\<close>.  The simplifier computes with \<open>ok\<close> backwards through a function body,
  as a weakest precondition does.

  A signed C integer is a word too: \<open>i32\<close> and \<open>i64\<close> are read with \<open>sint\<close> where C
  reads them as signed, and converted with \<open>scast\<close> where C sign-extends them.
\<close>

section \<open>Machine integers\<close>

type_synonym u8 = "8 word"
type_synonym u16 = "16 word"
type_synonym u32 = "32 word"
type_synonym u64 = "64 word"
type_synonym i32 = "32 word"
type_synonym i64 = "64 word"

text \<open>The truth value of a C condition on an integer, and the integer of a C comparison.\<close>

abbreviation nz :: "'a::len word \<Rightarrow> bool" where
  "nz x \<equiv> x \<noteq> 0"

definition c_bool :: "bool \<Rightarrow> 'a::len word" where
  "c_bool b = (if b then 1 else 0)"

text \<open>C's division of signed integers, which truncates towards zero.\<close>

definition c_sdiv :: "'a::len word \<Rightarrow> 'a word \<Rightarrow> 'a word" where
  "c_sdiv a b = word_of_int (sint a sdiv sint b)"

definition c_smod :: "'a::len word \<Rightarrow> 'a word \<Rightarrow> 'a word" where
  "c_smod a b = word_of_int (sint a smod sint b)"

section \<open>Faults as values\<close>

datatype fault = DivByZero | OutOfBounds | AssertFail | LogFatal | NoReturn | NullDeref | ErrReturn int

type_synonym 'a res = "fault + 'a"

definition rbind :: "'a res \<Rightarrow> ('a \<Rightarrow> 'b res) \<Rightarrow> 'b res" where
  "rbind m k = (case m of Inl e \<Rightarrow> Inl e | Inr x \<Rightarrow> k x)"

definition ok :: "'a res \<Rightarrow> ('a \<Rightarrow> bool) \<Rightarrow> bool" where
  "ok m P = (case m of Inl e \<Rightarrow> False | Inr x \<Rightarrow> P x)"

definition rassert :: "bool \<Rightarrow> unit res" where
  "rassert b = (if b then Inr () else Inl AssertFail)"

definition aget :: "'a list \<Rightarrow> nat \<Rightarrow> 'a res" where
  "aget xs i = (if i < length xs then Inr (xs ! i) else Inl OutOfBounds)"

definition aset :: "'a list \<Rightarrow> nat \<Rightarrow> 'a \<Rightarrow> 'a list res" where
  "aset xs i v = (if i < length xs then Inr (xs[i := v]) else Inl OutOfBounds)"

definition deref :: "'a option \<Rightarrow> 'a res" where
  "deref p = (case p of None \<Rightarrow> Inl NullDeref | Some a \<Rightarrow> Inr a)"

definition udiv :: "'a::len word \<Rightarrow> 'a word \<Rightarrow> 'a word res" where
  "udiv a b = (if b = 0 then Inl DivByZero else Inr (a div b))"

definition umod :: "'a::len word \<Rightarrow> 'a word \<Rightarrow> 'a word res" where
  "umod a b = (if b = 0 then Inl DivByZero else Inr (a mod b))"

text \<open>A loop \<^verbatim>\<open>while (b) c\<close>; that it never ends is a value as well.\<close>

definition rwhile :: "('a \<Rightarrow> bool) \<Rightarrow> ('a \<Rightarrow> 'a) \<Rightarrow> 'a \<Rightarrow> 'a res" where
  "rwhile b c s = (case while_option b c s of None \<Rightarrow> Inl NoReturn | Some t \<Rightarrow> Inr t)"

named_theorems wp \<open>weakest-precondition equations for the fault-returning operations\<close>
named_theorems frame \<open>what a device does not touch\<close>

lemma rbind_Inl [simp]: "rbind (Inl e) k = Inl e"
  by (simp add: rbind_def)

lemma rbind_Inr [simp]: "rbind (Inr x) k = k x"
  by (simp add: rbind_def)

lemma rbind_if [simp]: "rbind (if b then m else n) k = (if b then rbind m k else rbind n k)"
  by simp

lemma rbind_cong [fundef_cong]:
  "m = n \<Longrightarrow> (\<And>x. n = Inr x \<Longrightarrow> k x = l x) \<Longrightarrow> rbind m k = rbind n l"
  by (cases n) simp_all

lemma rbind_eq_Inr: "rbind m k = Inr y \<longleftrightarrow> (\<exists>x. m = Inr x \<and> k x = Inr y)"
  by (cases m) auto

lemma ok_Inl [simp]: "ok (Inl e) P = False"
  by (simp add: ok_def)

lemma ok_Inr [simp]: "ok (Inr x) P = P x"
  by (simp add: ok_def)

lemma ok_rbind [simp]: "ok (rbind m k) P = ok m (\<lambda>x. ok (k x) P)"
  by (cases m) simp_all

lemma ok_if [simp]: "ok (if b then m else n) P = (if b then ok m P else ok n P)"
  by simp

lemma ok_case_prod [simp]: "ok (case p of (x, y) \<Rightarrow> f x y) P = (case p of (x, y) \<Rightarrow> ok (f x y) P)"
  by (cases p) simp

lemma ok_mono: "ok m P \<Longrightarrow> (\<And>x. P x \<Longrightarrow> Q x) \<Longrightarrow> ok m Q"
  by (cases m) auto

lemma ok_conj: "ok m (\<lambda>x. P x \<and> Q x) \<longleftrightarrow> ok m P \<and> ok m Q"
  by (cases m) auto

lemma ok_iff_ex: "ok m P \<longleftrightarrow> (\<exists>x. m = Inr x \<and> P x)"
  by (cases m) auto

lemma okE: "ok m P \<Longrightarrow> (\<And>x. m = Inr x \<Longrightarrow> P x \<Longrightarrow> thesis) \<Longrightarrow> thesis"
  by (auto simp: ok_iff_ex)

text \<open>What holds of the result, if there is one: \<open>part\<close> is the partial-correctness companion of \<open>ok\<close>.\<close>

definition part :: "'a res \<Rightarrow> ('a \<Rightarrow> bool) \<Rightarrow> bool" where
  "part m P = (case m of Inl e \<Rightarrow> True | Inr x \<Rightarrow> P x)"

lemma part_Inl [simp]: "part (Inl e) P"
  by (simp add: part_def)

lemma part_Inr [simp]: "part (Inr x) P = P x"
  by (simp add: part_def)

lemma part_rbind [simp]: "part (rbind m k) P = part m (\<lambda>x. part (k x) P)"
  by (cases m) simp_all

lemma part_if [simp]: "part (if b then m else n) P = (if b then part m P else part n P)"
  by simp

lemma part_all: "(\<And>x. P x) \<Longrightarrow> part m P"
  by (cases m) auto

lemma part_array [simp]:
  "part (aget xs i) P = (i < length xs \<longrightarrow> P (xs ! i))"
  "part (aset xs i v) Q = (i < length xs \<longrightarrow> Q (xs[i := v]))"
  by (simp_all add: aget_def aset_def)

lemma part_mono: "part m P \<Longrightarrow> (\<And>x. P x \<Longrightarrow> Q x) \<Longrightarrow> part m Q"
  by (cases m) auto

lemma part_ok: "part m P \<Longrightarrow> ok m Q \<Longrightarrow> ok m (\<lambda>x. P x \<and> Q x)"
  by (cases m) auto

lemma ok_rassert [simp, wp]: "ok (rassert b) P = (b \<and> P ())"
  by (simp add: rassert_def)

lemma ok_aget [simp, wp]: "ok (aget xs i) P = (i < length xs \<and> P (xs ! i))"
  by (simp add: aget_def)

lemma ok_aset [simp, wp]: "ok (aset xs i v) P = (i < length xs \<and> P (xs[i := v]))"
  by (simp add: aset_def)

lemma ok_deref [simp, wp]: "ok (deref p) P = (\<exists>a. p = Some a \<and> P a)"
  by (cases p) (simp_all add: deref_def)

lemma ok_udiv [simp, wp]: "ok (udiv a b) P = (b \<noteq> 0 \<and> P (a div b))"
  by (simp add: udiv_def)

lemma ok_umod [simp, wp]: "ok (umod a b) P = (b \<noteq> 0 \<and> P (a mod b))"
  by (simp add: umod_def)

lemma rwhile_unfold: "rwhile b c s = (if b s then rwhile b c (c s) else Inr s)"
  unfolding rwhile_def by (subst while_option_unfold) simp

lemma ok_rwhile:
  assumes "\<And>s. P s \<Longrightarrow> b s \<Longrightarrow> P (c s) \<and> f (c s) < (f s :: nat)" "P s"
  shows "ok (rwhile b c s) (\<lambda>t. P t \<and> \<not> b t)"
proof -
  obtain t where t: "while_option b c s = Some t"
    using measure_while_option_Some [of P b c f s] assms by auto
  moreover have "P t" using while_option_rule [where P = P, OF _ t assms(2)] assms(1) by blast
  ultimately show ?thesis using while_option_stop [OF t] by (simp add: rwhile_def)
qed

lemma rwhile_first:
  assumes "ok (rwhile b c s) Q"
  shows "ok (rwhile b c s) (\<lambda>t. Q t \<and> (\<exists>k. t = (c ^^ k) s \<and> \<not> b t \<and> (\<forall>j < k. b ((c ^^ j) s))))"
proof -
  obtain t where t: "while_option b c s = Some t" "Q t"
    using assms by (auto simp: rwhile_def split: option.splits)
  define k where "k = (LEAST k. \<not> b ((c ^^ k) s))"
  have "t = (c ^^ k) s" using t(1) by (auto simp: while_option_def k_def split: if_splits)
  moreover have "\<forall>j < k. b ((c ^^ j) s)" using not_less_Least unfolding k_def by blast
  ultimately show ?thesis using t while_option_stop [OF t(1)] by (auto simp: rwhile_def)
qed

lemma rwhile_diverges:
  assumes "P s" "\<And>s. P s \<Longrightarrow> b s \<and> P (c s)"
  shows "rwhile b c s = Inl NoReturn"
proof -
  have "while_option b c s = None"
  proof (rule ccontr)
    assume "while_option b c s \<noteq> None"
    then obtain t where t: "while_option b c s = Some t" by blast
    then have "P t" using while_option_rule [where P = P, OF _ t assms(1)] assms(2) by blast
    then show False using assms(2) while_option_stop [OF t] by blast
  qed
  then show ?thesis by (simp add: rwhile_def)
qed

section \<open>Lemmas on words\<close>

lemma c_bool_simps [simp]: "c_bool True = 1" "c_bool False = 0"
  by (simp_all add: c_bool_def)

lemma unat_and_le: "unat (x AND m) \<le> unat (m :: 'a::len word)"
  by (metis word_and_le1 word_le_nat_alt)

lemma unat_and_lt: "unat (m :: 'a::len word) < n \<Longrightarrow> unat (x AND m) < n"
  using unat_and_le [of x m] by simp

lemma unat_div_less: "b \<noteq> 0 \<Longrightarrow> unat (a mod b) < unat (b :: 'a::len word)"
  by (simp add: unat_mod unat_gt_0)

lemma take_bit_eq_self_iff_unat: "take_bit n (x :: 'a::len word) = x \<longleftrightarrow> unat x < 2 ^ n"
  by (metis take_bit_nat_eq_self_iff unsigned_take_bit_eq word_unat_eq_iff)

lemma unat_or_less: "unat (a :: 'a::len word) < 2 ^ n \<Longrightarrow> unat b < 2 ^ n \<Longrightarrow> unat (a OR b) < 2 ^ n"
  by (simp add: take_bit_eq_self_iff_unat [symmetric])

lemma unat_ucast_le: "unat (ucast (x :: 'a::len word) :: 'b::len word) \<le> unat x"
  by (simp add: unsigned_ucast_eq)

lemma unat_push_bit: "unat (push_bit n (x :: 'a::len word)) = unat x * 2 ^ n mod 2 ^ LENGTH('a)"
  by (simp only: unsigned_push_bit_eq push_bit_eq_mult [where 'a = nat] take_bit_eq_mod)

lemma unat_push_bit_less: "unat (x :: 'a::len word) < 2 ^ m \<Longrightarrow> unat (push_bit n x) < 2 ^ (m + n)"
proof -
  assume "unat x < 2 ^ m"
  then have "unat x * 2 ^ n < 2 ^ (m + n)" by (simp add: power_add)
  then show ?thesis unfolding unat_push_bit by (meson le_less_trans mod_less_eq_dividend)
qed

lemma unat_drop_bit: "unat (drop_bit n (x :: 'a::len word)) = unat x div 2 ^ n"
  by (simp only: unsigned_drop_bit_eq drop_bit_eq_div [where 'a = nat] take_bit_eq_mod) simp

lemma unat_ucast_less: "unat (x :: 'a::len word) < n \<Longrightarrow> unat (ucast x :: 'b::len word) < n"
  by (rule le_less_trans [OF unat_ucast_le])

lemma uint_less_iff_unat: "uint x < int n \<longleftrightarrow> unat x < n"
  by (metis of_nat_less_iff of_nat_unat)

lemma unat_less_of_ne: "x \<noteq> y \<Longrightarrow> unat x \<le> unat y \<Longrightarrow> unat x < unat (y :: 'a::len word)"
  by (metis le_neq_implies_less word_unat_eq_iff)

lemma unat_and_ff: "unat ((x :: 'a::len word) AND 0xff) < 256"
proof -
  have "x AND 0xff = take_bit 8 x" by (simp add: take_bit_eq_mask mask_numeral)
  moreover have "unat (take_bit 8 x) < 2 ^ 8"
    unfolding unsigned_take_bit_eq by (rule take_bit_nat_less_exp)
  ultimately show ?thesis by (simp del: take_bit_numeral_numeral)
qed

lemma unat_byte: "unat (ucast (x :: u8) :: i32) < 256"
  by (rule unat_ucast_less, rule less_le_trans [OF unsigned_less]) simp

lemma unat_high_byte: "unat (ucast (drop_bit 8 (x :: u16)) :: i32) < 256"
  using unsigned_less [of x, where 'a = nat] by (intro unat_ucast_less) (simp add: unat_drop_bit)

lemma unat_u64: "unat (x :: u64) < 2 ^ 64"
  using unsigned_less [of x, where 'a = nat] by simp

lemma unat_plus_64: "unat a + unat b < 2 ^ 64 \<Longrightarrow> unat (a + b :: u64) = unat a + unat b"
  by (simp add: unat_word_ariths)

lemma unat_dec: "x \<noteq> 0 \<Longrightarrow> unat (x - 1 :: 'a::len word) = unat x - 1"
  by (metis One_nat_def Suc_leI unat_1 unat_gt_0 unat_sub word_le_nat_alt)

lemma and_ff: "(x :: 'a::len word) AND 0xff = take_bit 8 x"
  by (simp add: take_bit_eq_mask mask_numeral)

lemma unat_ucast_32_64: "unat (ucast (x :: u32) :: u64) = unat x"
  using unsigned_less [of x, where 'a = nat] by (simp add: unsigned_ucast_eq take_bit_nat_eq_self)

text \<open>A word whose sign bit is clear reads the same signed and unsigned.\<close>

lemma sint_small:
  assumes "unat (x :: 'a::len word) < 2 ^ (LENGTH('a) - 1)"
  shows "sint x = int (unat x)"
proof -
  have "uint x < 2 ^ (LENGTH('a) - 1)"
    using assms uint_less_iff_unat [of x "2 ^ (LENGTH('a) - 1)"] by simp
  then have "signed_take_bit (LENGTH('a) - 1) (uint x) = uint x"
    by (intro signed_take_bit_int_eq_self) (auto intro: order_trans [OF _ uint_ge_0])
  then show ?thesis by (simp add: sint_uint)
qed

lemma unat_scast_64:
  assumes "unat (x :: i32) < 2 ^ 31"
  shows "unat (scast x :: u64) = unat x"
proof -
  have "uint (scast x :: u64) = take_bit 64 (sint x)"
    by (simp add: uint_sint [of "scast x :: u64"] sint_up_scast is_up)
  also have "\<dots> = take_bit 64 (uint x)" using assms by (simp add: sint_small)
  also have "\<dots> = uint x"
    using uint_lt2p [of x] by (intro take_bit_int_eq_self) auto
  finally show ?thesis by (metis nat_uint_eq)
qed

lemma unat_signed_drop_bit:
  assumes "unat (x :: i32) < 2 ^ 31"
  shows "unat (signed_drop_bit n x) = unat x div 2 ^ n"
proof -
  have "sint (signed_drop_bit n x) = uint x div 2 ^ n"
    using assms by (simp add: sint_signed_drop_bit_eq drop_bit_eq_div sint_small)
  moreover have "0 \<le> uint x div 2 ^ n \<and> uint x div 2 ^ n < 2 ^ 32"
    using uint_lt2p [of x] uint_ge_0 [of x]
    by (auto simp: pos_imp_zdiv_nonneg_iff
          intro: le_less_trans [OF zdiv_mono2 [of _ 1 "2 ^ n"], of "uint x", simplified])
  ultimately have "uint (signed_drop_bit n x) = uint x div 2 ^ n"
    by (simp add: uint_sint [of "signed_drop_bit n x"] take_bit_int_eq_self)
  then have "int (unat (signed_drop_bit n x)) = int (unat x div 2 ^ n)"
    by (simp add: zdiv_int)
  then show ?thesis by (simp only: of_nat_eq_iff)
qed

lemma sint_counter:
  assumes "unat (x :: i32) \<le> 16"
  shows "numeral n \<le> sint x \<longleftrightarrow> numeral n \<le> unat x" "sint x \<le> numeral n \<longleftrightarrow> unat x \<le> numeral n"
    "sint x \<le> 0 \<longleftrightarrow> x = 0"
proof -
  have "sint x = int (unat x)" using assms by (intro sint_small) simp
  then show "numeral n \<le> sint x \<longleftrightarrow> numeral n \<le> unat x" "sint x \<le> numeral n \<longleftrightarrow> unat x \<le> numeral n"
    by (metis of_nat_le_iff of_nat_numeral)+
  show "sint x \<le> 0 \<longleftrightarrow> x = 0" using \<open>sint x = _\<close> by (metis le_zero_eq of_nat_le_0_iff unat_eq_zero)
qed

lemma sint_neg_iff: "sint (x :: 'a::len word) < 0 \<longleftrightarrow> 2 ^ (LENGTH('a) - 1) \<le> unat x"
proof
  show "2 ^ (LENGTH('a) - 1) \<le> unat x" if "sint x < 0"
  proof (rule ccontr)
    assume "\<not> 2 ^ (LENGTH('a) - 1) \<le> unat x"
    then have "sint x = int (unat x)" by (intro sint_small) simp
    then show False using that by simp
  qed
  assume le: "2 ^ (LENGTH('a) - 1) \<le> unat x"
  have "unat x < 2 ^ (LENGTH('a) - 1) * 2"
    using unsigned_less [of x, where 'a = nat] by (metis len_gt_0 power_minus_mult)
  with le have "unat x div 2 ^ (LENGTH('a) - 1) = 1"
    by (simp add: div_nat_eqI)
  then have "unat (drop_bit (LENGTH('a) - 1) x) = 1" by (simp only: unat_drop_bit)
  then have "drop_bit (LENGTH('a) - 1) x = 1" by (metis unat_1 word_unat_eq_iff)
  then have "bit x (LENGTH('a) - 1)" by (simp add: bit_iff_odd_drop_bit)
  then show "sint x < 0" by (simp add: bit_last_iff)
qed

lemma unat_plus_mod:
  fixes d p :: "'a::len word"
  defines "N \<equiv> 2 ^ LENGTH('a)"
  shows "unat (d + p) = (if unat d + unat p < N then unat d + unat p else unat d + unat p - N)"
proof -
  have "unat d < N" "unat p < N" unfolding N_def by (rule unsigned_less)+
  then show ?thesis by (simp add: unat_word_ariths N_def [symmetric] le_mod_geq not_less)
qed

lemma step_wraps:
  fixes d p :: "'a::len word"
  assumes "sint d < 0"
  shows "unat (d + p) = unat d + unat p \<or> unat (d + p) < unat p"
proof -
  define N where "N = (2 :: nat) ^ LENGTH('a)"
  have "unat d < N" unfolding N_def by (rule unsigned_less)
  then show ?thesis unfolding unat_plus_mod N_def [symmetric] by (auto simp: not_less)
qed

lemma ucast_down:
  "(ucast (a + b :: u64) :: u32) = ucast a + ucast b" "(ucast (a - b :: u64) :: u32) = ucast a - ucast b"
proof -
  show p: "(ucast (a + b :: u64) :: u32) = ucast a + ucast b" for a b
  proof -
    have "(unat a + unat b) mod 2 ^ 64 mod 2 ^ 32 = (unat a mod 2 ^ 32 + unat b mod 2 ^ 32) mod (2 ^ 32 :: nat)"
      by (simp add: mod_mod_cancel mod_add_eq)
    then show ?thesis
      by (simp add: word_unat_eq_iff unsigned_ucast_eq take_bit_eq_mod unat_word_ariths)
  qed
  have "ucast a = (ucast (a - b) :: u32) + ucast b" unfolding p [symmetric] by simp
  then show "(ucast (a - b :: u64) :: u32) = ucast a - ucast b" by simp
qed

section \<open>Devices that never fault\<close>

text \<open>
  The contract every emulated device meets: a step function over its operations, an invariant,
  and the promise that an admissible operation from a good state returns without a fault in a
  good state.  A guest drives a device by an arbitrary sequence of operations; the lemmas lift
  the contract to such sequences.
\<close>

primrec run_ops :: "('o \<Rightarrow> 's \<Rightarrow> 's res) \<Rightarrow> 'o list \<Rightarrow> 's \<Rightarrow> 's res" where
  "run_ops step [] s = Inr s"
| "run_ops step (op # ops) s = rbind (step op s) (run_ops step ops)"

lemma run_ops_snoc: "run_ops step (xs @ [x]) s = rbind (run_ops step xs s) (step x)"
proof (induction xs arbitrary: s)
  case Nil
  show ?case by (cases "step x s") simp_all
next
  case (Cons y ys)
  then show ?case by (cases "step y s") simp_all
qed

lemma ok_run_ops:
  "(\<And>x s. P s \<Longrightarrow> x \<in> set xs \<Longrightarrow> ok (f x s) P) \<Longrightarrow> P s \<Longrightarrow> ok (run_ops f xs s) P"
proof (induction xs arbitrary: s)
  case Nil
  then show ?case by simp
next
  case (Cons x xs)
  have x: "ok (f x s) P" using Cons.prems by simp
  have "ok (run_ops f xs t) P" if "P t" for t using Cons that by simp
  then show ?case using ok_mono [OF x] by simp
qed

locale safe_device =
  fixes step :: "'o \<Rightarrow> 's \<Rightarrow> 's res"
    and inv :: "'s \<Rightarrow> bool"
    and admissible :: "'o \<Rightarrow> bool"
  assumes step_ok: "inv s \<Longrightarrow> admissible op \<Longrightarrow> ok (step op s) inv"
begin

lemma run_ok: "inv s \<Longrightarrow> list_all admissible ops \<Longrightarrow> ok (run_ops step ops s) inv"
proof (induction ops arbitrary: s)
  case Nil
  then show ?case by simp
next
  case (Cons op ops)
  have "ok (step op s) inv" using Cons.prems by (simp add: step_ok)
  then show ?case using Cons by (auto simp: ok_iff_ex)
qed

lemma run_append_ok:
  "inv s \<Longrightarrow> list_all admissible xs \<Longrightarrow> list_all admissible ys \<Longrightarrow>
   ok (run_ops step xs s) (\<lambda>t. inv t \<and> ok (run_ops step ys t) inv)"
  using run_ok by (blast intro: ok_mono)

end

section \<open>Bounded queues in rings\<close>

text \<open>The \<open>n\<close> elements of a ring of length \<open>length d\<close> that start at index \<open>t\<close>, oldest first.\<close>

definition ring_contents :: "'a list \<Rightarrow> nat \<Rightarrow> nat \<Rightarrow> 'a list" where
  "ring_contents d t n = map (\<lambda>k. d ! ((t + k) mod length d)) [0..<n]"

lemma length_ring_contents [simp]: "length (ring_contents d t n) = n"
  by (simp add: ring_contents_def)

lemma ring_contents_0 [simp]: "ring_contents d t 0 = []"
  by (simp add: ring_contents_def)

lemma ring_index_inj:
  "k < N \<Longrightarrow> l < N \<Longrightarrow> (t + k) mod N = (t + l) mod N \<Longrightarrow> k = (l :: nat)"
proof (induction k l rule: linorder_wlog)
  case (le k l)
  then have "N dvd l - k" using mod_eq_dvd_iff_nat [of "t + k" "t + l" N] by simp
  then show ?case using le by (auto dest: dvd_imp_le)
qed auto

lemma ring_contents_push:
  assumes "n < length d"
  shows "ring_contents (d[(t + n) mod length d := c]) t (Suc n) = ring_contents d t n @ [c]"
proof -
  have "\<forall>k \<in> {0..<n}. (t + n) mod length d \<noteq> (t + k) mod length d"
    using ring_index_inj [of _ "length d" n t] assms by (metis atLeastLessThan_iff less_trans nat_less_le)
  moreover have "(t + n) mod length d < length d" using assms by (intro mod_less_divisor) linarith
  ultimately show ?thesis by (simp add: ring_contents_def)
qed

lemma ring_contents_pop:
  assumes "0 < n" "t < length d"
  shows "ring_contents d t n = d ! t # ring_contents d ((t + 1) mod length d) (n - 1)"
proof -
  have "[0..<n] = 0 # map Suc [0..<n - 1]"
    using assms by (cases n) (simp_all add: upt_conv_Cons map_Suc_upt del: upt_Suc)
  then show ?thesis using assms by (simp add: ring_contents_def mod_add_left_eq o_def)
qed

text \<open>
  The contract of a bounded first-in first-out queue: an element put into a queue with room
  comes last, the first one is got first.  The lemmas follow a whole sequence of elements.
\<close>

primrec put_all :: "('e \<Rightarrow> 's \<Rightarrow> 's res) \<Rightarrow> 'e list \<Rightarrow> 's \<Rightarrow> 's res" where
  "put_all put [] s = Inr s"
| "put_all put (x # xs) s = rbind (put x s) (put_all put xs)"

primrec get_all :: "('s \<Rightarrow> ('e \<times> 's) res) \<Rightarrow> nat \<Rightarrow> 's \<Rightarrow> ('e list \<times> 's) res" where
  "get_all get 0 s = Inr ([], s)"
| "get_all get (Suc n) s =
     rbind (get s) (\<lambda>(x, s). rbind (get_all get n s) (\<lambda>(xs, s). Inr (x # xs, s)))"

locale bounded_fifo =
  fixes put :: "'e \<Rightarrow> 's \<Rightarrow> 's res"
    and get :: "'s \<Rightarrow> ('e \<times> 's) res"
    and contents :: "'s \<Rightarrow> 'e list"
    and wf :: "'s \<Rightarrow> bool"
    and cap :: nat
  assumes put_ok: "wf s \<Longrightarrow> length (contents s) < cap \<Longrightarrow>
      ok (put x s) (\<lambda>t. wf t \<and> contents t = contents s @ [x])"
    and get_ok: "wf s \<Longrightarrow> contents s = x # xs \<Longrightarrow>
      ok (get s) (\<lambda>(y, t). y = x \<and> wf t \<and> contents t = xs)"
begin

lemma put_all_ok:
  "wf s \<Longrightarrow> length (contents s) + length xs \<le> cap \<Longrightarrow>
   ok (put_all put xs s) (\<lambda>t. wf t \<and> contents t = contents s @ xs)"
proof (induction xs arbitrary: s)
  case Nil
  then show ?case by simp
next
  case (Cons x xs)
  have "ok (put x s) (\<lambda>t. wf t \<and> contents t = contents s @ [x])"
    using Cons.prems by (intro put_ok) simp_all
  then show ?case
    using Cons.prems by (auto elim!: ok_mono intro!: ok_mono [OF Cons.IH])
qed

lemma get_all_ok:
  "wf s \<Longrightarrow> n \<le> length (contents s) \<Longrightarrow>
   ok (get_all get n s) (\<lambda>(ys, t). ys = take n (contents s) \<and> wf t \<and> contents t = drop n (contents s))"
proof (induction n arbitrary: s)
  case 0
  then show ?case by simp
next
  case (Suc n)
  then obtain x xs where x: "contents s = x # xs" by (cases "contents s") auto
  show ?case
    using Suc.prems x by (auto intro!: ok_mono [OF get_ok [OF _ x]] ok_mono [OF Suc.IH])
qed

lemma put_get_all:
  assumes "wf s" "contents s = []" "length xs \<le> cap"
  shows "ok (put_all put xs s) (\<lambda>t. ok (get_all get (length xs) t) (\<lambda>(ys, u). ys = xs \<and> contents u = []))"
  using put_all_ok [of s xs] assms
  by (auto elim!: ok_mono intro!: ok_mono [OF get_all_ok])

end

end
