(* ===== verification/Vmm_World.thy ===== *)
theory Vmm_World
  imports Vmm_Prelude
begin

text \<open>
  What lies around the emulated devices of the x86 VMM component.  The code outside the
  repository that the devices call is a parameter: a record \<open>env\<close> of functions (the time stamp
  counter, the fixed-point multiplication of the utility library, the timer service, the
  real-time clock service).  A call that may answer differently each time takes the number of
  earlier calls as its argument.  What the devices do to the outside (IRQ lines of the guest's
  interrupt controller, timers of the timer service, characters put on the console) is a list of
  effects in the \<open>world\<close>, in program order.
\<close>

section \<open>Parameters: code outside the repository\<close>

text \<open>
  The struct \<^verbatim>\<open>rtc_time_date_t\<close> belongs to the platform library; the repository uses
  these six members.  Their integer types are not visible, so the conversion that an assignment
  to a member makes is a parameter as well (\<open>tm_field\<close>, \<open>tm_year_field\<close>), and so is
  the subtraction of an \<^verbatim>\<open>int32_t\<close> from the year at their common type
  (\<open>tm_year_sub\<close>).
\<close>

record rtc_time_date =
  tm_second :: int
  tm_minute :: int
  tm_hour :: int
  tm_day :: int
  tm_month :: int
  tm_year :: int

record env =
  rdtsc_pure :: "nat \<Rightarrow> u64"
  muldivu64 :: "u64 \<Rightarrow> u64 \<Rightarrow> u64 \<Rightarrow> u64"
  ROUND_DOWN :: "u64 \<Rightarrow> u64 \<Rightarrow> u64"
  NS_IN_S :: u64
  NS_IN_MS :: u64
  init_timer_tsc_frequency :: u64
  init_timer_time :: "nat \<Rightarrow> u64"
  system_rtc_time_date :: "nat \<Rightarrow> rtc_time_date"
  tm_field :: "int \<Rightarrow> int"
  tm_year_field :: "int \<Rightarrow> int"
  tm_year_sub :: "int \<Rightarrow> int \<Rightarrow> int"

text \<open>
  The documented behaviour the theorems rely on: \<^verbatim>\<open>muldivu64\<close> multiplies without
  losing bits and divides; \<^verbatim>\<open>ROUND_DOWN\<close> gives the greatest multiple that is not
  above its argument; the two constants count nanoseconds.
\<close>

definition muldivu64_exact :: "env \<Rightarrow> bool" where
  "muldivu64_exact E \<longleftrightarrow>
     (\<forall>a b c. c \<noteq> 0 \<longrightarrow> unat a * unat b div unat c < 2 ^ 64 \<longrightarrow>
        unat (muldivu64 E a b c) = unat a * unat b div unat c)"

definition ROUND_DOWN_exact :: "env \<Rightarrow> bool" where
  "ROUND_DOWN_exact E \<longleftrightarrow> (\<forall>n b. b \<noteq> 0 \<longrightarrow> ROUND_DOWN E n b = n div b * b)"

definition time_units :: "env \<Rightarrow> bool" where
  "time_units E \<longleftrightarrow> NS_IN_S E = 1000000000 \<and> NS_IN_MS E = 1000000"

text \<open>The members of \<^verbatim>\<open>rtc_time_date_t\<close> are wide enough for dates and times.\<close>

definition tm_exact :: "env \<Rightarrow> bool" where
  "tm_exact E \<longleftrightarrow>
     (\<forall>x. 0 \<le> x \<longrightarrow> x \<le> 255 \<longrightarrow> tm_field E x = x) \<and>
     (\<forall>x. 0 \<le> x \<longrightarrow> x \<le> 20000 \<longrightarrow> tm_year_field E x = x) \<and>
     (\<forall>x y. 0 \<le> y \<longrightarrow> y \<le> x \<longrightarrow> x \<le> 20000 \<longrightarrow> tm_year_sub E x y = x - y)"

text \<open>A concrete environment, for witnesses: the clock runs at 1 GHz and reads \<open>1000 * n\<close>.\<close>

definition sample_env :: env where
  "sample_env =
     \<lparr>rdtsc_pure = (\<lambda>n. of_nat (1000 * n)),
      muldivu64 = (\<lambda>a b c. of_nat (unat a * unat b div unat c)),
      ROUND_DOWN = (\<lambda>n b. n div b * b),
      NS_IN_S = 1000000000, NS_IN_MS = 1000000,
      init_timer_tsc_frequency = 1000000000,
      init_timer_time = (\<lambda>n. of_nat (1000 * n)),
      system_rtc_time_date = (\<lambda>n. \<lparr>tm_second = 30, tm_minute = 59, tm_hour = 13, tm_day = 28,
                                   tm_month = 2, tm_year = 2024\<rparr>),
      tm_field = (\<lambda>x. x), tm_year_field = (\<lambda>x. x), tm_year_sub = (\<lambda>x y. x - y)\<rparr>"

section \<open>The world\<close>

datatype effect =
    SetIrq nat int            \<comment> \<open>\<^verbatim>\<open>vm_set_irq_level(irq, level)\<close>\<close>
  | OneshotAbs nat u64        \<comment> \<open>\<^verbatim>\<open>init_timer_oneshot_absolute(timer, ns)\<close>\<close>
  | OneshotRel nat u64        \<comment> \<open>\<^verbatim>\<open>init_timer_oneshot_relative(timer, ns)\<close>\<close>
  | TimerStop nat             \<comment> \<open>\<^verbatim>\<open>init_timer_stop(timer)\<close>\<close>
  | GuestPutchar u8           \<comment> \<open>\<^verbatim>\<open>guest_putchar_putchar(c)\<close>\<close>
  | InjectIrq nat             \<comment> \<open>\<^verbatim>\<open>vm_inject_irq(irq)\<close>\<close>
  | DeviceNotify u64          \<comment> \<open>a call of the notification function of a device\<close>

record world =
  tsc_reads :: nat
  timer_reads :: nat
  rtc_reads :: nat
  out :: "effect list"

definition emit :: "effect \<Rightarrow> world \<Rightarrow> world" where
  "emit e w = w\<lparr>out := out w @ [e]\<rparr>"

definition boot_world :: world where
  "boot_world = \<lparr>tsc_reads = 0, timer_reads = 0, rtc_reads = 0, out = []\<rparr>"

text \<open>
  Each of \<^verbatim>\<open>i8254.c\<close>, \<^verbatim>\<open>serial.c\<close> and \<^verbatim>\<open>hpet.c\<close> has its
  own copy of this function and of the static \<^verbatim>\<open>tsc_frequency\<close> it reads (\<open>f\<close>).
\<close>

definition current_time_ns :: "env \<Rightarrow> u64 \<Rightarrow> world \<Rightarrow> u64 \<times> world" where
  "current_time_ns E f w =
     (muldivu64 E (rdtsc_pure E (tsc_reads w)) (NS_IN_S E) f,
      w\<lparr>tsc_reads := Suc (tsc_reads w)\<rparr>)"

definition timer_time :: "env \<Rightarrow> world \<Rightarrow> u64 \<times> world" where
  "timer_time E w = (init_timer_time E (timer_reads w), w\<lparr>timer_reads := Suc (timer_reads w)\<rparr>)"

definition rtc_time :: "env \<Rightarrow> world \<Rightarrow> rtc_time_date \<times> world" where
  "rtc_time E w = (system_rtc_time_date E (rtc_reads w), w\<lparr>rtc_reads := Suc (rtc_reads w)\<rparr>)"

section \<open>Identifiers\<close>

definition TIMER_PIT :: nat where "TIMER_PIT = 0"
definition TIMER_PERIODIC_TIMER :: nat where "TIMER_PERIODIC_TIMER = 1"
definition TIMER_COALESCED_TIMER :: nat where "TIMER_COALESCED_TIMER = 2"
definition TIMER_SECOND_TIMER :: nat where "TIMER_SECOND_TIMER = 3"
definition TIMER_SECOND_TIMER2 :: nat where "TIMER_SECOND_TIMER2 = 4"
definition TIMER_FIFO_TIMEOUT :: nat where "TIMER_FIFO_TIMEOUT = 5"
definition TIMER_TRANSMIT_TIMER :: nat where "TIMER_TRANSMIT_TIMER = 6"
definition TIMER_MODEM_STATUS_TIMER :: nat where "TIMER_MODEM_STATUS_TIMER = 7"
definition TIMER_MORE_CHARS :: nat where "TIMER_MORE_CHARS = 8"
definition TIMER_HPET0 :: nat where "TIMER_HPET0 = 9"
definition TIMER_HPET1 :: nat where "TIMER_HPET1 = 10"
definition TIMER_HPET2 :: nat where "TIMER_HPET2 = 11"

definition TIMER_IRQ :: nat where "TIMER_IRQ = 0"
definition TTYS0_IRQ :: nat where "TTYS0_IRQ = 4"
definition VIRTIO_NET_IRQ :: nat where "VIRTIO_NET_IRQ = 6"
definition VIRTIO_BLK_IRQ :: nat where "VIRTIO_BLK_IRQ = 7"
definition RTC_IRQ :: nat where "RTC_IRQ = 8"
definition VIRTIO_CON_IRQ :: nat where "VIRTIO_CON_IRQ = 9"
definition VIRTIO_SCK_IRQ :: nat where "VIRTIO_SCK_IRQ = 10"

lemmas timer_ids =
  TIMER_PIT_def TIMER_PERIODIC_TIMER_def TIMER_COALESCED_TIMER_def TIMER_SECOND_TIMER_def
  TIMER_SECOND_TIMER2_def TIMER_FIFO_TIMEOUT_def TIMER_TRANSMIT_TIMER_def
  TIMER_MODEM_STATUS_TIMER_def TIMER_MORE_CHARS_def TIMER_HPET0_def TIMER_HPET1_def
  TIMER_HPET2_def

lemmas irq_numbers =
  TIMER_IRQ_def TTYS0_IRQ_def VIRTIO_NET_IRQ_def VIRTIO_BLK_IRQ_def RTC_IRQ_def
  VIRTIO_CON_IRQ_def VIRTIO_SCK_IRQ_def

text \<open>The result of an I/O port handler, and \<^verbatim>\<open>BIT(n)\<close> tested on a completion mask.\<close>

datatype ioport_fault_result = IO_FAULT_HANDLED | IO_FAULT_UNHANDLED | IO_FAULT_ERROR

section \<open>What an observer sees\<close>

text \<open>The level of an IRQ line is what the last effect on it set; lines start low.\<close>

fun irq_after :: "nat \<Rightarrow> effect \<Rightarrow> int \<Rightarrow> int" where
  "irq_after n (SetIrq m k) l = (if m = n then k else l)"
| "irq_after n _ l = l"

definition irq_level :: "nat \<Rightarrow> effect list \<Rightarrow> int" where
  "irq_level n es = foldl (\<lambda>l e. irq_after n e l) 0 es"

lemma irq_level_append [simp]:
  "irq_level n (es @ es') = foldl (\<lambda>l e. irq_after n e l) (irq_level n es) es'"
  by (simp add: irq_level_def)

lemma irq_level_Nil [simp]: "irq_level n [] = 0"
  by (simp add: irq_level_def)

lemma out_emit [simp]: "out (emit e w) = out w @ [e]"
  by (simp add: emit_def)

lemma emit_reads [simp]:
  "tsc_reads (emit e w) = tsc_reads w" "timer_reads (emit e w) = timer_reads w"
  "rtc_reads (emit e w) = rtc_reads w"
  by (simp_all add: emit_def)

lemma current_time_ns_out [simp]: "out (snd (current_time_ns E f w)) = out w"
  by (simp add: current_time_ns_def)

lemma muldivu64_exactD:
  "muldivu64_exact E \<Longrightarrow> c \<noteq> 0 \<Longrightarrow> unat a * unat b div unat c < 2 ^ 64 \<Longrightarrow>
   unat (muldivu64 E a b c) = unat a * unat b div unat c"
  by (simp add: muldivu64_exact_def)

lemma sample_env_exact:
  "muldivu64_exact sample_env" "ROUND_DOWN_exact sample_env" "time_units sample_env"
  "tm_exact sample_env"
  by (simp_all add: muldivu64_exact_def ROUND_DOWN_exact_def time_units_def sample_env_def
        tm_exact_def
        unat_of_nat)

section \<open>Lines a device leaves alone\<close>

definition keeps :: "nat \<Rightarrow> int \<Rightarrow> world \<Rightarrow> bool" where
  "keeps n L w \<longleftrightarrow> irq_level n (out w) = L"

lemma keeps_emit [simp]:
  "m \<noteq> n \<Longrightarrow> keeps n L (emit (SetIrq m k) w) = keeps n L w"
  "keeps n L (emit (OneshotAbs i t) w) = keeps n L w"
  "keeps n L (emit (OneshotRel i t) w) = keeps n L w"
  "keeps n L (emit (TimerStop i) w) = keeps n L w"
  "keeps n L (emit (GuestPutchar c) w) = keeps n L w"
  "keeps n L (emit (InjectIrq i) w) = keeps n L w"
  "keeps n L (emit (DeviceNotify d) w) = keeps n L w"
  by (simp_all add: keeps_def)

lemma keeps_clocks [simp]:
  "keeps n L (snd (current_time_ns E f w)) = keeps n L w"
  "keeps n L (snd (timer_time E w)) = keeps n L w"
  "keeps n L (snd (rtc_time E w)) = keeps n L w"
  by (simp_all add: keeps_def current_time_ns_def timer_time_def rtc_time_def)

end
