(* ===== verification/I8254.thy ===== *)
theory I8254
  imports Vmm_World
begin

text \<open>
  The 8254 programmable interval timer of \<^verbatim>\<open>components/Init/src/i8254.c\<close>.  The three
  channels are a list, as the C array is; a channel function takes the channel and the world and
  returns both.  \<open>f\<close> is the static \<^verbatim>\<open>tsc_frequency\<close>.  Division by the reload
  value and the channel index of a control word can fault in C, so the functions that do them
  return \<open>'a res\<close>.

  First the model, then the invariant and that no guest access faults, then what the reads and
  writes mean, then that the IRQ timer is armed for the next edge of the output.
\<close>

section \<open>State\<close>

definition PIT_FREQ :: u64 where "PIT_FREQ = 1193182"

definition RW_STATE_LSB :: u8 where "RW_STATE_LSB = 1"
definition RW_STATE_MSB :: u8 where "RW_STATE_MSB = 2"
definition RW_STATE_WORD0 :: u8 where "RW_STATE_WORD0 = 3"
definition RW_STATE_WORD1 :: u8 where "RW_STATE_WORD1 = 4"

lemmas RW_STATE_defs [simp] =
  RW_STATE_LSB_def RW_STATE_MSB_def RW_STATE_WORD0_def RW_STATE_WORD1_def

record PITChannelInfo =
  info_gate :: i32
  info_mode :: i32
  info_initial_count :: i32
  info_out :: i32

record PITChannelState =
  ch_count :: i32
  latched_count :: u16
  count_latched :: u8
  status_latched :: u8
  ch_status :: u8
  read_state :: u8
  write_state :: u8
  write_latch :: u8
  rw_mode :: u8
  ch_mode :: u8
  ch_bcd :: u8
  ch_gate :: u8
  count_load_time :: i64
  next_transition_time :: i64
  irq_timer :: i32
  irq_disabled :: u32

type_synonym PITCommonState = "PITChannelState list"

definition zero_channel :: PITChannelState where
  "zero_channel =
     \<lparr>ch_count = 0, latched_count = 0, count_latched = 0, status_latched = 0, ch_status = 0,
      read_state = 0, write_state = 0, write_latch = 0, rw_mode = 0, ch_mode = 0, ch_bcd = 0,
      ch_gate = 0, count_load_time = 0, next_transition_time = 0, irq_timer = 0,
      irq_disabled = 0\<rparr>"

definition pit_bss :: PITCommonState where
  "pit_bss = [zero_channel, zero_channel, zero_channel]"

section \<open>Counter, output and next transition\<close>

text \<open>The \<^verbatim>\<open>int\<close> reload value as C converts it to \<^verbatim>\<open>uint64_t\<close>.\<close>

abbreviation cnt64 :: "PITChannelState \<Rightarrow> u64" where
  "cnt64 s \<equiv> scast (ch_count s)"

definition pit_ticks :: "env \<Rightarrow> PITChannelState \<Rightarrow> u64 \<Rightarrow> u64" where
  "pit_ticks E s t = muldivu64 E (t - count_load_time s) PIT_FREQ (NS_IN_S E)"

definition pit_get_count :: "env \<Rightarrow> u64 \<Rightarrow> PITChannelState \<Rightarrow> world \<Rightarrow> (i32 \<times> world) res" where
  "pit_get_count E f s w =
     (let (now, w) = current_time_ns E f w;
          d = pit_ticks E s now
      in if ch_mode s = 0 \<or> ch_mode s = 1 \<or> ch_mode s = 4 \<or> ch_mode s = 5
         then Inr (ucast ((cnt64 s - d) AND 0xffff), w)
         else if ch_mode s = 3
         then rbind (umod (2 * d) (cnt64 s)) (\<lambda>r. Inr (ucast (cnt64 s - r), w))
         else rbind (umod d (cnt64 s)) (\<lambda>r. Inr (ucast (cnt64 s - r), w)))"

definition pit_get_out :: "env \<Rightarrow> PITChannelState \<Rightarrow> i64 \<Rightarrow> i32 res" where
  "pit_get_out E s current_time =
     (let d = pit_ticks E s current_time
      in if ch_mode s = 1 then Inr (c_bool (d < cnt64 s))
         else if ch_mode s = 2
         then rbind (umod d (cnt64 s)) (\<lambda>r. Inr (c_bool (r = 0 \<and> d \<noteq> 0)))
         else if ch_mode s = 3
         then rbind (umod d (cnt64 s))
                (\<lambda>r. Inr (c_bool (r < scast (signed_drop_bit 1 (ch_count s + 1)))))
         else if ch_mode s = 4 \<or> ch_mode s = 5 then Inr (c_bool (d = cnt64 s))
         else Inr (c_bool (cnt64 s \<le> d)))"

text \<open>
  The switch of \<^verbatim>\<open>pit_get_next_transition_time\<close>: the tick of the next transition, or
  \<open>None\<close> where the C code returns \<^verbatim>\<open>-1\<close>.  \<^verbatim>\<open>ROUND_DOWN\<close> by zero
  divides by zero.
\<close>

definition next_transition_tick :: "env \<Rightarrow> PITChannelState \<Rightarrow> u64 \<Rightarrow> u64 option res" where
  "next_transition_tick E s d =
     (if ch_mode s = 2
      then if cnt64 s = 0 then Inl DivByZero
           else let base = ROUND_DOWN E d (cnt64 s)
                in if d - base = 0 \<and> d \<noteq> 0 then Inr (Some (base + cnt64 s))
                   else Inr (Some (base + cnt64 s + 1))
      else if ch_mode s = 3
      then if cnt64 s = 0 then Inl DivByZero
           else let base = ROUND_DOWN E d (cnt64 s);
                    period2 = scast (signed_drop_bit 1 (ch_count s + 1))
                in if d - base < period2 then Inr (Some (base + period2))
                   else Inr (Some (base + cnt64 s))
      else if ch_mode s = 4 \<or> ch_mode s = 5
      then if d < cnt64 s then Inr (Some (cnt64 s))
           else if d = cnt64 s then Inr (Some (scast (ch_count s + 1)))
           else Inr None
      else if d < cnt64 s then Inr (Some (cnt64 s)) else Inr None)"

definition pit_get_next_transition_time ::
    "env \<Rightarrow> PITChannelState \<Rightarrow> i64 \<Rightarrow> i64 res" where
  "pit_get_next_transition_time E s current_time =
     rbind (next_transition_tick E s (pit_ticks E s current_time)) (\<lambda>tick.
       case tick of
         None \<Rightarrow> Inr (-1)
       | Some n \<Rightarrow>
           let next_time = count_load_time s + muldivu64 E n (NS_IN_S E) PIT_FREQ
           in if next_time \<le> current_time then Inr (current_time + 1) else Inr next_time)"

definition pit_get_channel_info_common ::
    "env \<Rightarrow> u64 \<Rightarrow> PITChannelState \<Rightarrow> world \<Rightarrow> (PITChannelInfo \<times> world) res" where
  "pit_get_channel_info_common E f sc w =
     (let (now, w) = current_time_ns E f w
      in rbind (pit_get_out E sc now) (\<lambda>q.
           Inr (\<lparr>info_gate = ucast (ch_gate sc), info_mode = ucast (ch_mode sc),
                 info_initial_count = ch_count sc, info_out = q\<rparr>, w)))"

section \<open>IRQ timer\<close>

definition pit_irq_timer_update ::
    "env \<Rightarrow> PITChannelState \<Rightarrow> i64 \<Rightarrow> world \<Rightarrow> (PITChannelState \<times> world) res" where
  "pit_irq_timer_update E s current_time w =
     (if irq_timer s = 0 \<or> nz (irq_disabled s) then Inr (s, w)
      else rbind (pit_get_next_transition_time E s current_time) (\<lambda>expire_time.
           rbind (pit_get_out E s current_time) (\<lambda>level.
             let w = emit (SetIrq TIMER_IRQ (sint level)) w;
                 s = s\<lparr>next_transition_time := expire_time\<rparr>
             in if expire_time \<noteq> -1 then Inr (s, emit (OneshotAbs TIMER_PIT expire_time) w)
                else Inr (s, emit (TimerStop TIMER_PIT) w))))"

definition pit_irq_timer ::
    "env \<Rightarrow> PITChannelState \<Rightarrow> world \<Rightarrow> (PITChannelState \<times> world) res" where
  "pit_irq_timer E s w = pit_irq_timer_update E s (next_transition_time s) w"

section \<open>Loading, latching and port accesses\<close>

definition pit_load_count ::
    "env \<Rightarrow> u64 \<Rightarrow> PITChannelState \<Rightarrow> i32 \<Rightarrow> world \<Rightarrow> (PITChannelState \<times> world) res" where
  "pit_load_count E f s val w =
     (let val = (if val = 0 then 0x10000 else val);
          (now, w) = current_time_ns E f w;
          s = s\<lparr>count_load_time := now, ch_count := val\<rparr>
      in pit_irq_timer_update E s (count_load_time s) w)"

definition pit_latch_count ::
    "env \<Rightarrow> u64 \<Rightarrow> PITChannelState \<Rightarrow> world \<Rightarrow> (PITChannelState \<times> world) res" where
  "pit_latch_count E f s w =
     (if count_latched s = 0
      then rbind (pit_get_count E f s w) (\<lambda>(c, w).
             Inr (s\<lparr>latched_count := ucast c, count_latched := rw_mode s\<rparr>, w))
      else Inr (s, w))"

text \<open>The body of the read-back loop for one selected channel.\<close>

definition pit_read_back ::
    "env \<Rightarrow> u64 \<Rightarrow> u64 \<Rightarrow> PITChannelState \<Rightarrow> world \<Rightarrow> (PITChannelState \<times> world) res" where
  "pit_read_back E f val s w =
     rbind (if val AND 0x20 = 0 then pit_latch_count E f s w else Inr (s, w)) (\<lambda>(s, w).
       if val AND 0x10 = 0 \<and> status_latched s = 0
       then let (now, w) = current_time_ns E f w
            in rbind (pit_get_out E s now) (\<lambda>q.
                 Inr (s\<lparr>ch_status :=
                          ucast (push_bit 7 q OR push_bit 4 (ucast (rw_mode s)) OR
                                 push_bit 1 (ucast (ch_mode s)) OR ucast (ch_bcd s)),
                        status_latched := 1\<rparr>, w))
       else Inr (s, w))"

definition pit_read_back_loop ::
    "env \<Rightarrow> u64 \<Rightarrow> u64 \<Rightarrow> nat \<Rightarrow> PITCommonState \<Rightarrow> world \<Rightarrow> (PITCommonState \<times> world) res" where
  "pit_read_back_loop E f val channel pit w =
     (if nz (val AND push_bit channel 2)
      then rbind (aget pit channel) (\<lambda>s.
           rbind (pit_read_back E f val s w) (\<lambda>(s, w).
           rbind (aset pit channel s) (\<lambda>pit. Inr (pit, w))))
      else Inr (pit, w))"

definition pit_ioport_write ::
    "env \<Rightarrow> u64 \<Rightarrow> PITCommonState \<Rightarrow> u64 \<Rightarrow> u64 \<Rightarrow> world \<Rightarrow> (PITCommonState \<times> world) res" where
  "pit_ioport_write E f pit addr val w =
     (let addr = addr AND 3
      in if addr = 3
         then let channel = ucast (drop_bit 6 val) :: i32
              in if channel = 3
                 then rbind (pit_read_back_loop E f val 0 pit w) (\<lambda>(pit, w).
                      rbind (pit_read_back_loop E f val 1 pit w) (\<lambda>(pit, w).
                      pit_read_back_loop E f val 2 pit w))
                 else rbind (aget pit (unat channel)) (\<lambda>s.
                      let access = ucast (drop_bit 4 val AND 3) :: i32
                      in rbind
                           (if access = 0 then pit_latch_count E f s w
                            else Inr (s\<lparr>rw_mode := ucast access, read_state := ucast access,
                                        write_state := ucast access,
                                        ch_mode := ucast (drop_bit 1 val AND 7),
                                        ch_bcd := ucast (val AND 1)\<rparr>, w))
                           (\<lambda>(s, w). rbind (aset pit (unat channel) s) (\<lambda>pit. Inr (pit, w))))
         else rbind (aget pit (unat addr)) (\<lambda>s.
              rbind
                (if write_state s = RW_STATE_MSB
                 then pit_load_count E f s (ucast (push_bit 8 val)) w
                 else if write_state s = RW_STATE_WORD0
                 then Inr (s\<lparr>write_latch := ucast val, write_state := RW_STATE_WORD1\<rparr>, w)
                 else if write_state s = RW_STATE_WORD1
                 then rbind (pit_load_count E f s
                               (ucast (ucast (write_latch s) OR push_bit 8 val)) w) (\<lambda>(s, w).
                      Inr (s\<lparr>write_state := RW_STATE_WORD0\<rparr>, w))
                 else pit_load_count E f s (ucast val) w)
                (\<lambda>(s, w). rbind (aset pit (unat addr) s) (\<lambda>pit. Inr (pit, w)))))"

text \<open>A read of a channel's data port: the byte and the channel afterwards.\<close>

definition pit_channel_read ::
    "env \<Rightarrow> u64 \<Rightarrow> PITChannelState \<Rightarrow> world \<Rightarrow> (i32 \<times> PITChannelState \<times> world) res" where
  "pit_channel_read E f s w =
     (if nz (status_latched s) then Inr (ucast (ch_status s), s\<lparr>status_latched := 0\<rparr>, w)
      else if nz (count_latched s)
      then if count_latched s = RW_STATE_MSB
           then Inr (ucast (drop_bit 8 (latched_count s)), s\<lparr>count_latched := 0\<rparr>, w)
           else if count_latched s = RW_STATE_WORD0
           then Inr (ucast (latched_count s AND 0xff), s\<lparr>count_latched := RW_STATE_MSB\<rparr>, w)
           else Inr (ucast (latched_count s AND 0xff), s\<lparr>count_latched := 0\<rparr>, w)
      else rbind (pit_get_count E f s w) (\<lambda>(c, w).
           if read_state s = RW_STATE_MSB then Inr (signed_drop_bit 8 c AND 0xff, s, w)
           else if read_state s = RW_STATE_WORD0
           then Inr (c AND 0xff, s\<lparr>read_state := RW_STATE_WORD1\<rparr>, w)
           else if read_state s = RW_STATE_WORD1
           then Inr (signed_drop_bit 8 c AND 0xff, s\<lparr>read_state := RW_STATE_WORD0\<rparr>, w)
           else Inr (c AND 0xff, s, w)))"

definition pit_ioport_read ::
    "env \<Rightarrow> u64 \<Rightarrow> PITCommonState \<Rightarrow> u64 \<Rightarrow> world \<Rightarrow> (u64 \<times> PITCommonState \<times> world) res" where
  "pit_ioport_read E f pit addr w =
     (let addr = addr AND 3
      in if addr = 3 then Inr (0, pit, w)
         else rbind (aget pit (unat addr)) (\<lambda>s.
              rbind (pit_channel_read E f s w) (\<lambda>(ret, s, w).
              rbind (aset pit (unat addr) s) (\<lambda>pit. Inr (scast ret, pit, w)))))"

section \<open>Reset, IRQ control and the VMM's entry points\<close>

definition pit_reset_channel ::
    "env \<Rightarrow> u64 \<Rightarrow> nat \<Rightarrow> PITCommonState \<Rightarrow> world \<Rightarrow> (PITCommonState \<times> world) res" where
  "pit_reset_channel E f i pit w =
     rbind (aget pit i) (\<lambda>s.
       let (now, w) = current_time_ns E f w;
           s = s\<lparr>ch_mode := 3, ch_gate := c_bool (i \<noteq> 2), count_load_time := now,
                 ch_count := 0x10000\<rparr>
       in rbind
            (if i = 0 \<and> irq_disabled s = 0
             then rbind (pit_get_next_transition_time E s (count_load_time s)) (\<lambda>t.
                    Inr (s\<lparr>next_transition_time := t\<rparr>))
             else Inr s)
            (\<lambda>s. rbind (aset pit i s) (\<lambda>pit. Inr (pit, w))))"

definition pit_reset_common ::
    "env \<Rightarrow> u64 \<Rightarrow> PITCommonState \<Rightarrow> world \<Rightarrow> (PITCommonState \<times> world) res" where
  "pit_reset_common E f pit w =
     rbind (pit_reset_channel E f 0 pit w) (\<lambda>(pit, w).
     rbind (pit_reset_channel E f 1 pit w) (\<lambda>(pit, w).
     pit_reset_channel E f 2 pit w))"

definition pit_reset ::
    "env \<Rightarrow> u64 \<Rightarrow> PITCommonState \<Rightarrow> world \<Rightarrow> (PITCommonState \<times> world) res" where
  "pit_reset E f pit w =
     rbind (pit_reset_common E f pit w) (\<lambda>(pit, w).
     rbind (aget pit 0) (\<lambda>s.
       if irq_disabled s = 0
       then Inr (pit, emit (OneshotAbs TIMER_PIT (next_transition_time s)) w)
       else Inr (pit, w)))"

definition pit_irq_control ::
    "env \<Rightarrow> u64 \<Rightarrow> PITCommonState \<Rightarrow> bool \<Rightarrow> world \<Rightarrow> (PITCommonState \<times> world) res" where
  "pit_irq_control E f pit enable w =
     rbind (aget pit 0) (\<lambda>s.
     rbind
       (if enable
        then let (now, w) = current_time_ns E f w
             in pit_irq_timer_update E (s\<lparr>irq_disabled := 0\<rparr>) now w
        else Inr (s\<lparr>irq_disabled := 1\<rparr>, emit (TimerStop TIMER_PIT) w))
       (\<lambda>(s, w). rbind (aset pit 0 s) (\<lambda>pit. Inr (pit, w))))"

definition pit_post_load :: "PITCommonState \<Rightarrow> world \<Rightarrow> world res" where
  "pit_post_load pit w =
     rbind (aget pit 0) (\<lambda>sc.
       if next_transition_time sc \<noteq> -1
       then Inr (emit (OneshotAbs TIMER_PIT (next_transition_time sc)) w)
       else Inr (emit (TimerStop TIMER_PIT) w))"

definition pit_timer_interrupt ::
    "env \<Rightarrow> PITCommonState \<Rightarrow> world \<Rightarrow> (PITCommonState \<times> world) res" where
  "pit_timer_interrupt E pit w =
     rbind (aget pit 0) (\<lambda>s.
     rbind (pit_irq_timer E s w) (\<lambda>(s, w).
     rbind (aset pit 0 s) (\<lambda>pit. Inr (pit, w))))"

text \<open>Returns the new value of \<^verbatim>\<open>tsc_frequency\<close> as well.\<close>

definition pit_pre_init ::
    "env \<Rightarrow> PITCommonState \<Rightarrow> world \<Rightarrow> (u64 \<times> PITCommonState \<times> world) res" where
  "pit_pre_init E pit w =
     (let f = init_timer_tsc_frequency E
      in rbind (aget pit 0) (\<lambda>s.
         rbind (aset pit 0 (s\<lparr>irq_timer := 1\<rparr>)) (\<lambda>pit.
         rbind (pit_irq_control E f pit True w) (\<lambda>(pit, w).
         rbind (pit_reset E f pit w) (\<lambda>(pit, w). Inr (f, pit, w))))))"

definition i8254_port_in ::
    "env \<Rightarrow> u64 \<Rightarrow> u32 \<Rightarrow> u32 \<Rightarrow> PITCommonState \<Rightarrow> world \<Rightarrow>
     (ioport_fault_result \<times> u32 option \<times> PITCommonState \<times> world) res" where
  "i8254_port_in E f port_no sz pit w =
     (if sz \<noteq> 1 then Inr (IO_FAULT_ERROR, None, pit, w)
      else rbind (pit_ioport_read E f pit (ucast port_no) w) (\<lambda>(r, pit, w).
           Inr (IO_FAULT_HANDLED, Some (ucast r), pit, w)))"

definition i8254_port_out ::
    "env \<Rightarrow> u64 \<Rightarrow> u32 \<Rightarrow> u32 \<Rightarrow> u32 \<Rightarrow> PITCommonState \<Rightarrow> world \<Rightarrow>
     (ioport_fault_result \<times> PITCommonState \<times> world) res" where
  "i8254_port_out E f port_no sz value pit w =
     (if sz \<noteq> 1 then Inr (IO_FAULT_ERROR, pit, w)
      else rbind (pit_ioport_write E f pit (ucast port_no) (ucast value) w) (\<lambda>(pit, w).
           Inr (IO_FAULT_HANDLED, pit, w)))"

section \<open>Invariant: no guest access faults\<close>

text \<open>
  The reload value of a channel is between 1 and 65536 once the channel has been reset, so no
  division faults; the other fields stay within the values the switches of the code name.  Only
  channel 0 has an IRQ timer.
\<close>

definition ch_inv :: "PITChannelState \<Rightarrow> bool" where
  "ch_inv s \<longleftrightarrow>
     0 < unat (ch_count s) \<and> unat (ch_count s) \<le> 0x10000 \<and>
     unat (rw_mode s) \<le> 3 \<and> unat (read_state s) \<le> 4 \<and> unat (write_state s) \<le> 4 \<and>
     unat (count_latched s) \<le> 3 \<and> unat (ch_mode s) \<le> 7 \<and> unat (ch_bcd s) \<le> 1"

definition pit_inv :: "PITCommonState \<Rightarrow> bool" where
  "pit_inv pit \<longleftrightarrow> length pit = 3 \<and> list_all ch_inv pit \<and>
     irq_timer (pit ! 0) = 1 \<and> irq_timer (pit ! 1) = 0 \<and> irq_timer (pit ! 2) = 0"

lemma unat_cnt64: "ch_inv s \<Longrightarrow> unat (cnt64 s) = unat (ch_count s)"
  by (simp add: ch_inv_def unat_scast_64)

lemma cnt64_nz: "ch_inv s \<Longrightarrow> cnt64 s \<noteq> 0"
  using unat_cnt64 [of s] by (auto simp: ch_inv_def)

lemma ok_pit_get_count: "cnt64 s \<noteq> 0 \<Longrightarrow> ok (pit_get_count E f s w) (\<lambda>(c, w'). out w' = out w)"
  by (simp add: pit_get_count_def current_time_ns_def Let_def)

lemma ok_pit_get_out: "cnt64 s \<noteq> 0 \<Longrightarrow> ok (pit_get_out E s t) (\<lambda>q. q = 0 \<or> q = 1)"
  by (simp add: pit_get_out_def c_bool_def Let_def)

lemma ok_next_transition_tick: "cnt64 s \<noteq> 0 \<Longrightarrow> ok (next_transition_tick E s d) (\<lambda>_. True)"
  by (simp add: next_transition_tick_def Let_def)

lemma ok_pit_get_next_transition_time:
  "cnt64 s \<noteq> 0 \<Longrightarrow> ok (pit_get_next_transition_time E s t) (\<lambda>_. True)"
  unfolding pit_get_next_transition_time_def
  by (auto intro!: ok_mono [OF ok_next_transition_tick] split: option.splits simp: Let_def)

lemma ok_pit_irq_timer_update:
  "ch_inv s \<Longrightarrow> ok (pit_irq_timer_update E s t w) (\<lambda>(s', w'). ch_inv s' \<and> irq_timer s' = irq_timer s \<and> write_state s' = write_state s)"
  unfolding pit_irq_timer_update_def
  by (auto intro!: ok_mono [OF ok_pit_get_next_transition_time] ok_mono [OF ok_pit_get_out]
       simp: cnt64_nz Let_def) (simp_all add: ch_inv_def)

lemma ok_pit_load_count:
  assumes "ch_inv s" "unat v \<le> 0xffff"
  shows "ok (pit_load_count E f s v w) (\<lambda>(s', w'). ch_inv s' \<and> irq_timer s' = irq_timer s)"
proof -
  have i: "ch_inv (s\<lparr>count_load_time := t, ch_count := if v = 0 then 0x10000 else v\<rparr>)" for t
    using assms by (auto simp: ch_inv_def unat_gt_0)
  show ?thesis
    unfolding pit_load_count_def Let_def case_prod_beta
    by (rule ok_mono [OF ok_pit_irq_timer_update [OF i]]) auto
qed

lemma ok_pit_latch_count:
  "ch_inv s \<Longrightarrow> ok (pit_latch_count E f s w)
     (\<lambda>(s', w'). ch_inv s' \<and> irq_timer s' = irq_timer s \<and> out w' = out w)"
  unfolding pit_latch_count_def
  by (auto intro!: ok_mono [OF ok_pit_get_count] simp: cnt64_nz) (auto simp: ch_inv_def)

lemma ok_pit_read_back:
  assumes "ch_inv s"
  shows "ok (pit_read_back E f v s w)
     (\<lambda>(s', w'). ch_inv s' \<and> irq_timer s' = irq_timer s \<and> out w' = out w)"
proof -
  have st: "ch_inv (s\<lparr>ch_status := x, status_latched := y\<rparr>) = ch_inv s" for s x y
    by (simp add: ch_inv_def)
  show ?thesis
    unfolding pit_read_back_def Let_def case_prod_beta
    using assms
    by (auto intro!: ok_mono [OF ok_pit_latch_count] ok_mono [OF ok_pit_get_out] simp: cnt64_nz st split: prod.splits)
qed

lemma pit_inv_update:
  "pit_inv pit \<Longrightarrow> i < 3 \<Longrightarrow> ch_inv s \<Longrightarrow> irq_timer s = irq_timer (pit ! i) \<Longrightarrow> pit_inv (pit[i := s])"
  by (auto simp: pit_inv_def list_all_length nth_list_update numeral_eq_Suc less_Suc_eq)

lemma pit_inv_nth: "pit_inv pit \<Longrightarrow> i < 3 \<Longrightarrow> ch_inv (pit ! i)"
  by (auto simp: pit_inv_def list_all_length)

lemma pit_inv_length: "pit_inv pit \<Longrightarrow> length pit = 3"
  by (simp add: pit_inv_def)

lemma ok_pit_read_back_loop:
  "pit_inv pit \<Longrightarrow> i < 3 \<Longrightarrow> ok (pit_read_back_loop E f v i pit w) (\<lambda>(pit', w'). pit_inv pit' \<and> out w' = out w)"
  unfolding pit_read_back_loop_def
  by (auto intro!: ok_mono [OF ok_pit_read_back] pit_inv_update simp: pit_inv_length pit_inv_nth)

lemma byte_bounds:
  fixes v :: u64
  assumes "unat v < 256"
  shows "unat (ucast (drop_bit 6 v) :: i32) < 4"
    and "unat (ucast v :: i32) \<le> 0xffff" and "unat (ucast (push_bit 8 v) :: i32) \<le> 0xffff"
    and "unat (ucast (ucast (l :: u8) OR push_bit 8 v) :: i32) \<le> 0xffff"
proof -
  have "unat (drop_bit 6 v) < 4" using assms by (simp add: unat_drop_bit)
  then show "unat (ucast (drop_bit 6 v) :: i32) < 4" by (rule unat_ucast_less)
  show "unat (ucast v :: i32) \<le> 0xffff" using unat_ucast_less [OF assms, where 'b = 32] by simp
  have p: "unat (push_bit 8 v) < 2 ^ 16" using unat_push_bit_less [of v 8 8] assms by simp
  show "unat (ucast (push_bit 8 v) :: i32) \<le> 0xffff"
    using unat_ucast_less [OF p, where 'b = 32] by simp
  have "unat (ucast l :: u64) < 2 ^ 16"
    by (rule unat_ucast_less) (rule less_trans [OF unsigned_less], simp)
  then have "unat (ucast l OR push_bit 8 v) < 2 ^ 16" using p by (rule unat_or_less)
  from unat_ucast_less [OF this, where 'b = 32]
  show "unat (ucast (ucast l OR push_bit 8 v) :: i32) \<le> 0xffff" by simp
qed

lemma unat_and_3_cases: "(x :: u64) AND 3 \<noteq> 3 \<Longrightarrow> unat (x AND 3) < 3"
  using unat_less_of_ne [of "x AND 3" 3] unat_and_le [of x 3] by simp

lemma ok_pit_access_change:
  "ch_inv s \<Longrightarrow>
   ch_inv (s\<lparr>rw_mode := ucast (ucast (drop_bit 4 (v :: u64) AND 3) :: i32), 
             read_state := ucast (ucast (drop_bit 4 v AND 3) :: i32),
             write_state := ucast (ucast (drop_bit 4 v AND 3) :: i32), 
             ch_mode := ucast (drop_bit 1 v AND 7), ch_bcd := ucast (v AND 1)\<rparr>)"
proof -
  assume i: "ch_inv s"
  have "unat (ucast (ucast (drop_bit 4 v AND 3) :: i32) :: u8) < 4"
    by (intro unat_ucast_less unat_and_lt) simp
  moreover have "unat (ucast (drop_bit 1 v AND 7) :: u8) < 8" "unat (ucast (v AND 1) :: u8) < 2"
    by (intro unat_ucast_less unat_and_lt, simp)+
  ultimately show ?thesis using i by (simp add: ch_inv_def del: and_one_eq)
qed


lemma ch_inv_write_state [simp]:
  "ch_inv s \<Longrightarrow> ch_inv (s\<lparr>write_state := 3\<rparr>)"
  "ch_inv s \<Longrightarrow> ch_inv (s\<lparr>write_latch := l, write_state := 4\<rparr>)"
  by (simp_all add: ch_inv_def)

lemma ok_pit_ioport_write:
  assumes inv: "pit_inv pit" and v: "unat val < 256"
  shows "ok (pit_ioport_write E f pit addr val w) (\<lambda>(pit', w'). pit_inv pit')"
proof -
  have ch: "unat (ucast (drop_bit 6 val) :: i32) < 3" if "ucast (drop_bit 6 val) \<noteq> (3 :: i32)"
    using unat_less_of_ne [OF that] byte_bounds(1) [OF v] by simp
  have data: "ok (pit_load_count E f s x w) (\<lambda>(s, w). pit_inv (pit[i := s]))"
    if "unat x \<le> 0xffff" "i < 3" "s = pit ! i" for s x i
    using that inv by (auto intro!: ok_mono [OF ok_pit_load_count] pit_inv_update simp: pit_inv_nth)
  show ?thesis
  proof (cases "addr AND 3 = 3")
    case True
    then show ?thesis
      using inv ch
      by (auto simp: pit_ioport_write_def Let_def pit_inv_length pit_inv_nth
          intro!: ok_mono [OF ok_pit_read_back_loop] ok_mono [OF ok_pit_latch_count]
            pit_inv_update ok_pit_access_change simp del: One_nat_def)
  next
    case False
    then show ?thesis
      using inv unat_and_3_cases [OF False] byte_bounds [OF v]
      by (auto simp: pit_ioport_write_def Let_def pit_inv_length pit_inv_nth
          intro!: ok_mono [OF ok_pit_load_count] pit_inv_update)
  qed
qed

lemma ch_inv_read_fields [simp]:
  "ch_inv s \<Longrightarrow> ch_inv (s\<lparr>status_latched := x\<rparr>)"
  "ch_inv s \<Longrightarrow> ch_inv (s\<lparr>count_latched := 0\<rparr>)"
  "ch_inv s \<Longrightarrow> ch_inv (s\<lparr>count_latched := 2\<rparr>)"
  "ch_inv s \<Longrightarrow> ch_inv (s\<lparr>read_state := 3\<rparr>)"
  "ch_inv s \<Longrightarrow> ch_inv (s\<lparr>read_state := 4\<rparr>)"
  by (simp_all add: ch_inv_def)

lemma ok_pit_channel_read:
  "ch_inv s \<Longrightarrow> ok (pit_channel_read E f s w)
     (\<lambda>(r, s', w'). ch_inv s' \<and> irq_timer s' = irq_timer s \<and> unat r < 256)"
  unfolding pit_channel_read_def
  by (auto intro!: ok_mono [OF ok_pit_get_count] simp: cnt64_nz unat_and_ff unat_byte
      unat_high_byte intro: unat_ucast_less)

lemma ok_pit_ioport_read:
  assumes inv: "pit_inv pit"
  shows "ok (pit_ioport_read E f pit addr w) (\<lambda>(r, pit', w'). pit_inv pit' \<and> unat r < 256)"
proof (cases "addr AND 3 = 3")
  case True
  then show ?thesis using inv by (simp add: pit_ioport_read_def)
next
  case False
  then show ?thesis
    using inv unat_and_3_cases [OF False]
    by (auto simp: pit_ioport_read_def Let_def pit_inv_length pit_inv_nth unat_scast_64
        intro!: ok_mono [OF ok_pit_channel_read] pit_inv_update)
qed

lemma ch_inv_irq_fields [simp]:
  "ch_inv (s\<lparr>next_transition_time := t\<rparr>) = ch_inv s"
  "ch_inv (s\<lparr>irq_disabled := d\<rparr>) = ch_inv s"
  "ch_inv (s\<lparr>irq_timer := q\<rparr>) = ch_inv s"
  by (simp_all add: ch_inv_def)

lemma ok_pit_irq_control:
  "pit_inv pit \<Longrightarrow> ok (pit_irq_control E f pit en w) (\<lambda>(pit', w'). pit_inv pit')"
  unfolding pit_irq_control_def Let_def case_prod_beta
  by (auto intro!: ok_mono [OF ok_pit_irq_timer_update] pit_inv_update
      simp: pit_inv_length pit_inv_nth)

lemma ok_pit_timer_interrupt:
  "pit_inv pit \<Longrightarrow> ok (pit_timer_interrupt E pit w) (\<lambda>(pit', w'). pit_inv pit')"
  unfolding pit_timer_interrupt_def pit_irq_timer_def
  by (auto intro!: ok_mono [OF ok_pit_irq_timer_update] pit_inv_update
      simp: pit_inv_length pit_inv_nth)

text \<open>What a channel satisfies before its first reset: its reload value is still 0.\<close>

definition ch_regs :: "PITChannelState \<Rightarrow> bool" where
  "ch_regs s \<longleftrightarrow> unat (rw_mode s) \<le> 3 \<and> unat (read_state s) \<le> 4 \<and> unat (write_state s) \<le> 4 \<and>
     unat (count_latched s) \<le> 3 \<and> unat (ch_bcd s) \<le> 1"

lemma ok_pit_irq_timer_update_mode0:
  "ch_mode s = 0 \<Longrightarrow> ok (pit_irq_timer_update E s t w)
     (\<lambda>(s', w'). ch_regs s' = ch_regs s \<and> irq_timer s' = irq_timer s \<and> irq_disabled s' = irq_disabled s)"
proof -
  assume m: "ch_mode s = 0"
  have o: "ok (pit_get_next_transition_time E s t) (\<lambda>_. True)" "ok (pit_get_out E s t) (\<lambda>_. True)"
    using m by (auto simp: pit_get_next_transition_time_def next_transition_tick_def
        pit_get_out_def Let_def)
  show ?thesis
    unfolding pit_irq_timer_update_def
    by (auto intro!: ok_mono [OF o(1)] ok_mono [OF o(2)] simp: Let_def ch_regs_def)
qed

lemma ok_pit_reset_channel:
  assumes "length pit = 3" "i < 3" "ch_regs (pit ! i)"
  shows "ok (pit_reset_channel E f i pit w) (\<lambda>(pit', w').
     \<exists>s. pit' = pit[i := s] \<and> ch_inv s \<and> irq_timer s = irq_timer (pit ! i))"
proof -
  have "ch_inv (s\<lparr>ch_mode := 3, ch_gate := g, count_load_time := t, ch_count := 0x10000\<rparr>)"
    if "ch_regs s" for s g t
    using that by (simp add: ch_inv_def ch_regs_def)
  then show ?thesis
    unfolding pit_reset_channel_def Let_def case_prod_beta
    using assms by (fastforce intro!: ok_mono [OF ok_pit_get_next_transition_time])
qed

lemma ok_pit_reset_common:
  assumes "length pit = 3" "list_all ch_regs pit" "map irq_timer pit = [1, 0, 0]"
  shows "ok (pit_reset_common E f pit w) (\<lambda>(pit', w'). pit_inv pit')"
proof -
  obtain a b c where p: "pit = [a, b, c]"
    using assms(1) by (auto simp: numeral_eq_Suc length_Suc_conv)
  then have r: "ch_regs a" "ch_regs b" "ch_regs c" using assms(2) by simp_all
  show ?thesis
    unfolding pit_reset_common_def p ok_rbind case_prod_beta
    using r assms(3) p
    by (auto intro!: ok_mono [OF ok_pit_reset_channel] simp: pit_inv_def numeral_2_eq_2)
qed

lemma pit_pre_init_ok:
  "ok (pit_pre_init E pit_bss w) (\<lambda>(f, pit, w'). f = init_timer_tsc_frequency E \<and> pit_inv pit)"
  unfolding pit_pre_init_def pit_reset_def pit_irq_control_def
  by (auto simp: pit_bss_def Let_def split_beta zero_channel_def ch_regs_def pit_inv_def
     intro!: ok_mono [OF ok_pit_irq_timer_update_mode0] ok_mono [OF ok_pit_reset_common])

section \<open>Output edges and the IRQ timer\<close>

lemma pit_ticks_unat:
  assumes "muldivu64_exact E" "time_units E" "count_load_time s \<le> t"
  shows "unat (pit_ticks E s t) = (unat t - unat (count_load_time s)) * 1193182 div 1000000000"
proof -
  have d: "unat (t - count_load_time s) = unat t - unat (count_load_time s)"
    using assms(3) by (rule unat_sub)
  have "(unat t - unat (count_load_time s)) * 1193182 div 1000000000 < 2 ^ 64"
    using unat_u64 [of t] by simp
  then show ?thesis
    using muldivu64_exactD [OF assms(1), of 1000000000 "t - count_load_time s" PIT_FREQ] assms(2) d
    by (simp add: pit_ticks_def time_units_def PIT_FREQ_def)
qed

text \<open>The output as a function of the ticks since the reload value was loaded.\<close>

definition out_tick :: "PITChannelState \<Rightarrow> u64 \<Rightarrow> i32 res" where
  "out_tick s d =
     (if ch_mode s = 1 then Inr (c_bool (d < cnt64 s))
      else if ch_mode s = 2
      then rbind (umod d (cnt64 s)) (\<lambda>r. Inr (c_bool (r = 0 \<and> d \<noteq> 0)))
      else if ch_mode s = 3
      then rbind (umod d (cnt64 s))
             (\<lambda>r. Inr (c_bool (r < scast (signed_drop_bit 1 (ch_count s + 1)))))
      else if ch_mode s = 4 \<or> ch_mode s = 5 then Inr (c_bool (d = cnt64 s))
      else Inr (c_bool (cnt64 s \<le> d)))"

lemma pit_get_out_tick: "pit_get_out E s t = out_tick s (pit_ticks E s t)"
  by (simp add: pit_get_out_def out_tick_def Let_def)

lemma ch_count_values:
  assumes "ch_inv s"
  defines "c \<equiv> unat (ch_count s)"
  shows "unat (cnt64 s) = c" "0 < c" "c \<le> 65536"
    "unat (scast (ch_count s + 1) :: u64) = c + 1"
    "unat (scast (signed_drop_bit 1 (ch_count s + 1)) :: u64) = (c + 1) div 2"
proof -
  show c: "unat (cnt64 s) = c" "0 < c" "c \<le> 65536"
    using assms by (simp_all add: unat_cnt64 ch_inv_def)
  have p: "unat (ch_count s + 1) = c + 1"
    using c(3) by (simp add: c_def unat_word_ariths)
  then show "unat (scast (ch_count s + 1) :: u64) = c + 1"
    using c(3) by (simp add: unat_scast_64)
  show "unat (scast (signed_drop_bit 1 (ch_count s + 1)) :: u64) = (c + 1) div 2"
    using p c(3) by (simp add: unat_scast_64 unat_signed_drop_bit del: One_nat_def)
qed

lemma tick_nat:
  assumes "ch_inv s"
  defines "c \<equiv> unat (ch_count s)"
  shows "out_tick s d =
     (if ch_mode s = 1 then Inr (c_bool (unat d < c))
      else if ch_mode s = 2 then Inr (c_bool (unat d mod c = 0 \<and> unat d \<noteq> 0))
      else if ch_mode s = 3 then Inr (c_bool (unat d mod c < (c + 1) div 2))
      else if ch_mode s = 4 \<or> ch_mode s = 5 then Inr (c_bool (unat d = c))
      else Inr (c_bool (c \<le> unat d)))"
proof -
  note v = ch_count_values [OF assms(1), folded c_def]
  have nz: "cnt64 s \<noteq> 0" using assms(1) by (rule cnt64_nz)
  have m: "unat (d mod cnt64 s) = unat d mod c" by (simp add: unat_mod v(1))
  have z: "d mod cnt64 s = 0 \<longleftrightarrow> unat d mod c = 0" "d = 0 \<longleftrightarrow> unat d = 0"
    using m by (metis unat_eq_zero)+
  have e: "d = cnt64 s \<longleftrightarrow> unat d = c" using v(1) by (metis word_unat_eq_iff)
  show ?thesis
    using nz by (simp add: out_tick_def umod_def word_less_nat_alt word_le_nat_alt m v z e
        del: unat_eq_zero One_nat_def)
qed

lemma half_period_const:
  assumes "(d::nat) \<le> d'" "0 < c" and
    "d mod c < h \<and> d' < d div c * c + h \<or> h \<le> d mod c \<and> d' < d div c * c + c" and "h \<le> c"
  shows "(d mod c < h) = (d' mod c < h)"
proof -
  have dd: "d = d div c * c + d mod c" by simp
  then have le: "d div c * c \<le> d'" using assms(1) by linarith
  moreover have "d mod c < c" using assms(2) by simp
  ultimately have "d' div c = d div c"
    using assms le by (intro div_nat_eqI) (auto simp: algebra_simps)
  then have "d' mod c = d' - d div c * c"  by (metis minus_div_mult_eq_mod)
  then show ?thesis using assms dd le by linarith
qed

text \<open>
  Outside mode 2 the output does not change between a tick and the next transition tick.
\<close>

lemma next_transition_tick_const:
  assumes E: "ROUND_DOWN_exact E" and s: "ch_inv s" and m: "ch_mode s \<noteq> 2"
    and d: "unat d < 2 ^ 63"
  shows "ok (next_transition_tick E s d) (\<lambda>r. case r of
     None \<Rightarrow> (\<forall>d'. d \<le> d' \<longrightarrow> out_tick s d' = out_tick s d)
   | Some n \<Rightarrow> unat d < unat n \<and> unat n \<le> unat d + 65537 \<and>
       (\<forall>d'. d \<le> d' \<and> d' < n \<longrightarrow> out_tick s d' = out_tick s d))"
proof -
  define c where "c = unat (ch_count s)"
  note v = ch_count_values [OF s, folded c_def] and t = tick_nat [OF s, folded c_def]
  have nz: "cnt64 s \<noteq> 0" using s by (rule cnt64_nz)
  define b where "b = ROUND_DOWN E d (cnt64 s)"
  have b0: "b = d div cnt64 s * cnt64 s" using E nz by (simp add: b_def ROUND_DOWN_exact_def)
  have "unat d div c * c < 2 ^ 64"
    by (rule le_less_trans [OF div_times_less_eq_dividend unat_u64])
  then have b: "unat b = unat d div c * c"
    using v(1) unat_div [of d "cnt64 s"] by (simp only: b0 unat_word_ariths) simp
  have "b \<le> d" by (simp add: word_le_nat_alt b)
  then have db: "unat (d - b) = unat d mod c"
    by (simp add: unat_sub b minus_div_mult_eq_mod)
  show ?thesis
  proof (cases "ch_mode s = 3")
    case True
    have bx: "unat (b + x) = unat d div c * c + unat x" if "unat x \<le> 65536" for x
    proof -
      have "unat b + unat x \<le> unat d + 65536"
        unfolding b by (intro add_mono div_times_less_eq_dividend that)
      also have "\<dots> < 2 ^ 64" using d by simp
      finally have "unat b + unat x < 2 ^ 64" .
      then show ?thesis by (simp add: unat_plus_64 b)
    qed
    define h where "h = (c + 1) div 2"
    have h: "h \<le> c" "0 < c" using v(2) by (simp_all add: h_def)
    define p where "p = (scast (signed_drop_bit 1 (ch_count s + 1)) :: u64)"
    have p: "unat p = h" by (simp only: p_def v(5) h_def)
    have out: "out_tick s x = Inr (c_bool (unat x mod c < h))" for x
      using True by (simp add: t h_def del: One_nat_def)
    define n where "n = (if unat d mod c < h then b + p else b + cnt64 s)"
    have step: "next_transition_tick E s d = Inr (Some n)"
      using True nz
      by (simp add: next_transition_tick_def b_def [symmetric] p_def [symmetric] n_def
          word_less_nat_alt db p Let_def del: One_nat_def)
    have n: "unat n = unat d div c * c + (if unat d mod c < h then h else c)"
      using h v(3) by (simp add: n_def bx p v(1))
    have dd: "unat d = unat d div c * c + unat d mod c" by simp
    have mc: "unat d mod c < c" using v(2) by simp
    have "unat d < unat n \<and> unat n \<le> unat d + 65537"
      unfolding n by (split if_split, intro conjI impI; use dd mc h v(3) in linarith)
    moreover have "out_tick s d' = out_tick s d" if "d \<le> d'" "d' < n" for d'
      using half_period_const [of "unat d" "unat d'" c h] that h n
      by (auto simp: out word_less_nat_alt word_le_nat_alt split: if_splits)
    ultimately show ?thesis by (simp add: step)
  next
    case False
    then show ?thesis
      using m v(3) by (auto simp: next_transition_tick_def t word_less_nat_alt word_le_nat_alt v(1,4) word_unat_eq_iff)
  qed
qed

text \<open>Ticks and nanoseconds: before the time of tick \<open>n\<close>, fewer than \<open>n\<close> ticks have passed.\<close>

lemma ns_tick:
  assumes E: "muldivu64_exact E" "time_units E" and n: "unat n < 2 ^ 50"
  shows "unat (muldivu64 E n (NS_IN_S E) PIT_FREQ) = unat n * 1000000000 div 1193182"
proof -
  have "unat n * 1000000000 div 1193182 < 2 ^ 64" using n by simp
  then show ?thesis
    using muldivu64_exactD [OF E(1), of PIT_FREQ n 1000000000] E(2)
    by (simp add: time_units_def PIT_FREQ_def)
qed

lemma before_tick: "a < n * k div f \<Longrightarrow> 0 < k \<Longrightarrow> a * f div k < (n :: nat)"
proof -
  assume a: "a < n * k div f" and k: "0 < k"
  have "(a + 1) * f \<le> n * k div f * f" using a by (intro mult_le_mono1) simp
  also have "\<dots> \<le> n * k" by (rule div_times_less_eq_dividend)
  finally have "(a + 1) * f \<le> n * k" .
  moreover have "0 < f" using a by (cases f) auto
  ultimately have "a * f < n * k" by (simp add: algebra_simps)
  then show ?thesis using k by (simp add: div_less_iff_less_mult)
qed

lemma tick_below:
  assumes "muldivu64_exact E" "time_units E" "count_load_time s \<le> t'"
    and "unat t' < unat (count_load_time s) + unat n * 1000000000 div 1193182"
  shows "pit_ticks E s t' < n"
proof -
  have "unat t' - unat (count_load_time s) < unat n * 1000000000 div 1193182"
    using assms(3,4) by (simp add: word_le_nat_alt less_diff_conv2)
  from before_tick [OF this] show ?thesis
    using pit_ticks_unat [OF assms(1-3)] by (simp only: word_less_nat_alt)
qed

lemma tick_mono:
  assumes "muldivu64_exact E" "time_units E" "count_load_time s \<le> t" "t \<le> t'"
  shows "pit_ticks E s t \<le> pit_ticks E s t'"
  using assms pit_ticks_unat [OF assms(1,2), of s t] pit_ticks_unat [OF assms(1,2), of s t']
  by (simp add: word_le_nat_alt div_le_mono)

lemma tick_bound:
  assumes "muldivu64_exact E" "time_units E" "count_load_time s \<le> t" "unat t < 2 ^ 59"
  shows "unat (pit_ticks E s t) + 65537 < 2 ^ 50"
proof -
  have "unat (pit_ticks E s t) \<le> 2 ^ 59 * 1193182 div 1000000000"
    unfolding pit_ticks_unat [OF assms(1-3)] using assms(4) by (intro div_le_mono) simp
  then show ?thesis by simp
qed

lemma tick_time:
  assumes "muldivu64_exact E" "time_units E" "count_load_time s \<le> t" "unat t < 2 ^ 59"
    and "unat n \<le> unat (pit_ticks E s t) + 65537"
  shows "unat (count_load_time s + muldivu64 E n (NS_IN_S E) PIT_FREQ) =
    unat (count_load_time s) + unat n * 1000000000 div 1193182"
proof -
  have n: "unat n < 2 ^ 50" using assms(5) tick_bound [OF assms(1-4)] by simp
  then have "unat (count_load_time s) + unat n * 1000000000 div 1193182 < 2 ^ 64"
    using assms(3,4) by (simp add: word_le_nat_alt)
  then show ?thesis using ns_tick [OF assms(1,2) n] by (simp add: unat_plus_64)
qed

lemma no_missed_edge:
  assumes E: "muldivu64_exact E" "ROUND_DOWN_exact E" "time_units E"
    and s: "ch_inv s" "ch_mode s \<noteq> 2"
    and t: "count_load_time s \<le> t" "unat t < 2 ^ 59"
  shows "ok (pit_get_next_transition_time E s t) (\<lambda>x. t < x \<and>
           (\<forall>t'. t \<le> t' \<and> t' < x \<longrightarrow> pit_get_out E s t' = pit_get_out E s t))"
proof -
  have mono: "pit_ticks E s t \<le> pit_ticks E s t'" if "t \<le> t'" for t'
    by (rule tick_mono [OF E(1,3) t(1) that])
  have d63: "unat (pit_ticks E s t) < 2 ^ 63" using tick_bound [OF E(1,3) t] by simp
  have t1: "unat (t + 1) = unat t + 1" using t(2) by (simp add: unat_plus_64)
  have max: "t < -1" using t(2) by (simp add: word_less_nat_alt unsigned_minus_1_eq_mask mask_numeral)
  show ?thesis
    unfolding pit_get_next_transition_time_def pit_get_out_tick ok_rbind
  proof (rule ok_mono [OF next_transition_tick_const [OF E(2) s d63]], goal_cases)
    case (1 r)
    show ?case
    proof (cases r)
      case None
      have "out_tick s (pit_ticks E s t') = out_tick s (pit_ticks E s t)" if "t \<le> t'" for t'
        using 1 mono [OF that] unfolding None option.case by blast
      then show ?thesis unfolding None option.case ok_Inr using max by blast
    next
      case (Some n)
      then have n: "unat n \<le> unat (pit_ticks E s t) + 65537"
        and const: "\<And>d'. pit_ticks E s t \<le> d' \<Longrightarrow> d' < n \<Longrightarrow> out_tick s d' = out_tick s (pit_ticks E s t)"
        using 1 unfolding Some option.case by blast+
      define x where "x = count_load_time s + muldivu64 E n (NS_IN_S E) PIT_FREQ"
      have early: "out_tick s (pit_ticks E s t') = out_tick s (pit_ticks E s t)"
        if "t \<le> t'" "t' < x" for t'
        using that(2) t(1) that(1)
        by (intro const mono tick_below [OF E(1,3)])
          (simp_all only: word_less_nat_alt x_def tick_time [OF E(1,3) t n] order_trans)
      have next1: "t' = t" if "t \<le> t'" "t' < t + 1" for t'
        using that t1 by (simp add: word_le_nat_alt word_less_nat_alt word_unat_eq_iff)
      have "t < t + 1" using t1 by (simp add: word_less_nat_alt)
      then show ?thesis
        unfolding Some option.case Let_def x_def [symmetric] ok_if ok_Inr
        using early next1 by (metis not_le)
    qed
  qed
qed

lemma pit_get_out_next_transition_time [simp]:
  "pit_get_out E (s\<lparr>next_transition_time := x\<rparr>) t = pit_get_out E s t"
  by (simp add: pit_get_out_def pit_ticks_def Let_def cong: if_cong)


definition sample_channel :: PITChannelState where
  "sample_channel = zero_channel\<lparr>ch_mode := 3, ch_count := 4, rw_mode := 3, irq_timer := 1\<rparr>"

definition sample_pit :: PITCommonState where
  "sample_pit = [sample_channel, sample_channel\<lparr>irq_timer := 0\<rparr>, sample_channel\<lparr>irq_timer := 0\<rparr>]"

lemma sample_channel_inv: "ch_inv sample_channel"
  by (simp add: sample_channel_def zero_channel_def ch_inv_def)


section \<open>Reading and writing a channel\<close>

text \<open>The two bytes of a 16-bit latch.\<close>

lemma word16_bytes:
  "unat (ucast ((c :: u16) AND 0xff) :: i32) + 256 * unat (ucast (drop_bit 8 c) :: i32) = unat c"
proof -
  have a: "c AND 0xff = take_bit 8 c" by (simp add: take_bit_eq_mask mask_numeral)
  have u: "unat (ucast x :: i32) = unat x" for x :: u16
    using unsigned_less [of x, where 'a = nat] by (simp add: unsigned_ucast_eq take_bit_nat_eq_self)
  show ?thesis
    unfolding a u unat_drop_bit unsigned_take_bit_eq take_bit_eq_mod [where 'a = nat]
    by (simp del: take_bit_numeral_numeral)
qed

text \<open>
  Latching a channel in word access mode freezes its counter: whenever and in whatever world
  the guest then reads the data port twice, the low and the high byte it gets are those of the
  counter at the moment of the latch command, and the channel then counts as before.
\<close>

theorem pit_latch_freezes:
  assumes s: "ch_inv s" "rw_mode s = RW_STATE_WORD0" "count_latched s = 0" "status_latched s = 0"
  shows "ok (pit_get_count E f s w) (\<lambda>(c, _).
         ok (pit_latch_count E f s w) (\<lambda>(s1, _).
         \<forall>w1. ok (pit_channel_read E f s1 w1) (\<lambda>(lo, s2, _).
         \<forall>w2. ok (pit_channel_read E f s2 w2) (\<lambda>(hi, s3, _).
           unat lo + 256 * unat hi = unat c mod 65536 \<and> unat lo < 256 \<and>
           s3 = s\<lparr>latched_count := ucast c\<rparr>))))"
proof -
  obtain c w' where c: "pit_get_count E f s w = Inr (c, w')"
    using ok_pit_get_count [of s E f w] s by (auto simp: cnt64_nz ok_iff_ex)
  have b: "unat (ucast c :: u16) = unat c mod 65536"
    by (simp add: unsigned_ucast_eq take_bit_eq_mod)
  show ?thesis
    unfolding c using s word16_bytes [of "ucast c"] 
    by (simp add: pit_latch_count_def pit_channel_read_def c b unat_ucast_less [OF unat_and_ff])
qed


lemma pit_control_word:
  assumes "length pit = 3" "c < 3" "m < 8"
  shows "pit_ioport_write E f pit 0x43 (of_nat (64 * c + 0x30 + 2 * m)) w =
    Inr (pit[c := (pit ! c)\<lparr>rw_mode := 3, read_state := 3, write_state := 3, ch_mode := of_nat m,
       ch_bcd := 0\<rparr>], w)"
proof -
  have "c = 0 \<or> c = 1 \<or> c = 2" "m = 0 \<or> m = 1 \<or> m = 2 \<or> m = 3 \<or> m = 4 \<or> m = 5 \<or> m = 6 \<or> m = 7"
    using assms(2,3) by arith+
  then show ?thesis
    using assms(1) by (elim disjE; simp add: pit_ioport_write_def aget_def aset_def)
qed

lemma pit_write_latch:
  assumes "length pit = 3" "c < 3" "write_state (pit ! c) = 3"
  shows "pit_ioport_write E f pit (of_nat (0x40 + c)) lo w =
    Inr (pit[c := (pit ! c)\<lparr>write_latch := ucast lo, write_state := 4\<rparr>], w)"
proof -
  have "c = 0 \<or> c = 1 \<or> c = 2"  using assms(2) by arith
  then show ?thesis
    using assms(1,3) by (elim disjE; simp add: pit_ioport_write_def aget_def aset_def)
qed

lemma pit_write_load:
  assumes "length pit = 3" "c < 3" "write_state (pit ! c) = 4"
  shows "pit_ioport_write E f pit (of_nat (0x40 + c)) hi w =
    rbind (pit_load_count E f (pit ! c) (ucast (ucast (write_latch (pit ! c)) OR push_bit 8 hi)) w)
      (\<lambda>(s, w). Inr (pit[c := s\<lparr>write_state := 3\<rparr>], w))"
proof -
  have "c = 0 \<or> c = 1 \<or> c = 2"  using assms(2) by arith
  then show ?thesis
    using assms(1,3) by (elim disjE; cases "pit_load_count E f (pit ! c) (ucast (ucast (write_latch (pit ! c)) OR push_bit 8 hi)) w";
     simp add: pit_ioport_write_def aget_def aset_def split_beta)
qed

lemma ok_pit_load_count_val:
  assumes "ch_inv s" "unat v \<le> 0xffff"
  shows "ok (pit_load_count E f s v w) (\<lambda>(s', w'). ch_mode s' = ch_mode s \<and>
    ch_count s' = (if v = 0 then 0x10000 else v))"
proof -
  have i: "ch_inv (s\<lparr>count_load_time := t, ch_count := if v = 0 then 0x10000 else v\<rparr>)" for t
    using assms by (auto simp: ch_inv_def unat_gt_0)
  have "ok (pit_irq_timer_update E s t w) (\<lambda>(s', w'). ch_mode s' = ch_mode s \<and> ch_count s' = ch_count s)"
    if "ch_inv s" for s t w
    unfolding pit_irq_timer_update_def using that
    by (auto intro!: ok_mono [OF ok_pit_get_next_transition_time] ok_mono [OF ok_pit_get_out]
       simp: cnt64_nz Let_def)
  from this [OF i] show ?thesis
    unfolding pit_load_count_def Let_def case_prod_beta by (rule ok_mono) auto
qed

lemma word_load_value:
  assumes "unat (lo :: u64) < 256" "unat (hi :: u64) < 256"
  shows "unat (ucast (ucast (ucast lo :: u8) OR push_bit 8 hi :: u64) :: i32) = unat lo + 256 * unat hi"
proof -
  have lo: "ucast (ucast lo :: u8) = take_bit 8 lo"
    by (rule bit_word_eqI) (auto simp: bit_simps)
  have "take_bit 8 lo AND push_bit 8 hi = 0" by (rule bit_word_eqI) (auto simp: bit_simps)
  then have "take_bit 8 lo OR push_bit 8 hi = take_bit 8 lo + push_bit 8 hi"
    by (rule disjunctive_add_eq_or [symmetric])
  moreover have "take_bit 8 lo = lo"
    unfolding take_bit_eq_self_iff_unat using assms(1) by simp
  moreover have "unat (push_bit 8 hi) = 256 * unat hi"
    using assms(2) by (simp add: unat_push_bit)
  ultimately have "unat (ucast (ucast lo :: u8) OR push_bit 8 hi :: u64) = unat lo + 256 * unat hi"
    using assms unfolding lo by (simp add: unat_plus_64)
  then show ?thesis using assms by (simp add: unsigned_ucast_eq take_bit_nat_eq_self)
qed

text \<open>
  C7. The control word for word access on channel \<open>c\<close> in mode \<open>m\<close> and then the two bytes of the
  reload value on the channel's data port set the mode and load the 16-bit value, with 0 standing
  for 65536, and touch no other channel.
\<close>

theorem pit_load_word:
  assumes "pit_inv pit" "c < 3" "m < 8" "unat lo < 256" "unat hi < 256"
  shows "ok (pit_ioport_write E f pit 0x43 (of_nat (64 * c + 0x30 + 2 * m)) w) (\<lambda>(pit, w).
         ok (pit_ioport_write E f pit (of_nat (0x40 + c)) lo w) (\<lambda>(pit, w).
         ok (pit_ioport_write E f pit (of_nat (0x40 + c)) hi w) (\<lambda>(pit', w).
           ch_mode (pit' ! c) = of_nat m \<and> (\<forall>i < 3. i \<noteq> c \<longrightarrow> pit' ! i = pit ! i) \<and>
           unat (ch_count (pit' ! c)) = (if lo = 0 \<and> hi = 0 then 65536 else unat lo + 256 * unat hi))))"
proof -
  define s where "s = (pit ! c)\<lparr>rw_mode := 3, read_state := 3, write_state := 3, ch_mode := of_nat m,
       ch_bcd := 0\<rparr>"
  define v where "v = (ucast (ucast (ucast lo :: u8) OR push_bit 8 hi :: u64) :: i32)"
  have v: "unat v = unat lo + 256 * unat hi" unfolding v_def by (rule word_load_value [OF assms(4,5)])
  then have v0: "v = 0 \<longleftrightarrow> lo = 0 \<and> hi = 0" by (metis add_is_0 mult_is_0 unat_0 unat_eq_zero zero_neq_numeral)
  have "ch_inv (s\<lparr>write_latch := ucast lo, write_state := 4\<rparr>)"
    using assms pit_inv_nth [OF assms(1,2)] by (simp add: s_def ch_inv_def unat_of_nat)
  moreover have "unat v \<le> 0xffff" unfolding v using assms by simp
  ultimately have "ok (pit_load_count E f (s\<lparr>write_latch := ucast lo, write_state := 4\<rparr>) v w) (\<lambda>(s', w').
     ch_mode s' = of_nat m \<and> ch_count s' = (if v = 0 then 0x10000 else v))"
    by (intro ok_mono [OF ok_pit_load_count_val]) (auto simp: s_def)
  then obtain t w' where t: "pit_load_count E f (s\<lparr>write_latch := ucast lo, write_state := 4\<rparr>) v w = Inr (t, w')"
    "ch_mode t = of_nat m" "ch_count t = (if v = 0 then 0x10000 else v)" by (auto simp: ok_iff_ex)
  have len: "length pit = 3" using assms(1) by (rule pit_inv_length)
  have w1: "pit_ioport_write E f pit 0x43 (of_nat (64 * c + 0x30 + 2 * m)) w = Inr (pit[c := s], w)"
    unfolding s_def by (rule pit_control_word [OF len assms(2,3)])
  have w2: "pit_ioport_write E f (pit[c := s]) (of_nat (0x40 + c)) lo w =
      Inr (pit[c := s\<lparr>write_latch := ucast lo, write_state := 4\<rparr>], w)"
    using pit_write_latch [of "pit[c := s]" c] len assms(2) by (simp add: s_def)
  have w3: "pit_ioport_write E f (pit[c := s\<lparr>write_latch := ucast lo, write_state := 4\<rparr>])
      (of_nat (0x40 + c)) hi w = Inr (pit[c := t\<lparr>write_state := 3\<rparr>], w')"
    using pit_write_load [of "pit[c := s\<lparr>write_latch := ucast lo, write_state := 4\<rparr>]" c] len assms(2)
    by (simp add: v_def [symmetric] t)
  show ?thesis
    unfolding w1 w2 w3 ok_Inr case_prod_conv using len assms(2) t by (simp add: v v0)
qed

theorem pit_load_word_witness:
  "ok (pit_ioport_write sample_env 1 sample_pit 0x43 0xb6 boot_world) (\<lambda>(pit, w).
   ok (pit_ioport_write sample_env 1 pit 0x42 0x34 w) (\<lambda>(pit, w).
   ok (pit_ioport_write sample_env 1 pit 0x42 0x12 w) (\<lambda>(pit', w).
     ch_mode (pit' ! 2) = 3 \<and> unat (ch_count (pit' ! 2)) = 0x1234)))"
proof -
  have "pit_inv sample_pit"
    by (simp add: pit_inv_def sample_pit_def ch_inv_def zero_channel_def sample_channel_def)
  from pit_load_word [OF this, of 2 3 "0x34" "0x12" sample_env 1 boot_world] show ?thesis
    by (simp add: ok_iff_ex split_beta) blast
qed

theorem pit_latch_freezes_witness:
  "ok (pit_get_count sample_env 1000000000 sample_channel boot_world) (\<lambda>(c, _).
   ok (pit_latch_count sample_env 1000000000 sample_channel boot_world) (\<lambda>(s1, _).
   ok (pit_channel_read sample_env 1000000000 s1 boot_world) (\<lambda>(lo, s2, _).
   ok (pit_channel_read sample_env 1000000000 s2 boot_world) (\<lambda>(hi, s3, _).
     unat lo + 256 * unat hi = unat c mod 65536))))"
proof -
  have "rw_mode sample_channel = RW_STATE_WORD0" "count_latched sample_channel = 0"
    "status_latched sample_channel = 0" by (simp_all add: sample_channel_def zero_channel_def)
  from pit_latch_freezes [OF sample_channel_inv this, of sample_env 1000000000 boot_world]
  show ?thesis by (fastforce simp: ok_iff_ex)
qed

section \<open>Sequences of guest operations\<close>

datatype pit_op =
    PitIn u32 u32          \<comment> \<open>port, size\<close>
  | PitOut u32 u32 u32     \<comment> \<open>port, size, value\<close>
  | PitTimerInterrupt
  | PitIrqControl bool

fun pit_step :: "env \<Rightarrow> u64 \<Rightarrow> pit_op \<Rightarrow> PITCommonState \<times> world \<Rightarrow> (PITCommonState \<times> world) res" where
  "pit_step E f (PitIn p n) (pit, w) = rbind (i8254_port_in E f p n pit w) (\<lambda>(_, _, pit, w). Inr (pit, w))"
| "pit_step E f (PitOut p n v) (pit, w) = rbind (i8254_port_out E f p n v pit w) (\<lambda>(_, pit, w). Inr (pit, w))"
| "pit_step E f PitTimerInterrupt (pit, w) = pit_timer_interrupt E pit w"
| "pit_step E f (PitIrqControl en) (pit, w) = pit_irq_control E f pit en w"

fun pit_admissible :: "pit_op \<Rightarrow> bool" where
  "pit_admissible (PitOut p n v) = (n = 1 \<longrightarrow> unat v < 256)"
| "pit_admissible _ = True"

lemma pit_step_ok: 
  "pit_inv (fst s) \<Longrightarrow> pit_admissible op \<Longrightarrow> ok (pit_step E f op s) (\<lambda>t. pit_inv (fst t))"
  by (cases s; cases op)
    (auto simp: i8254_port_in_def i8254_port_out_def unat_ucast_less split_beta
      intro!: ok_mono [OF ok_pit_ioport_read] ok_mono [OF ok_pit_ioport_write] 
       ok_mono [OF ok_pit_irq_control] ok_mono [OF ok_pit_timer_interrupt])

interpretation pit_dev: safe_device "pit_step E f" "\<lambda>s. pit_inv (fst s)" pit_admissible
  by unfold_locales (rule pit_step_ok)

text \<open>
  However the guest drives the PIT after it has been set up (any sequence of byte-wide or
  malformed port accesses), however timer interrupts and the HPET's enabling and disabling of the
  PIT interleave, and whatever the clock reads: no access divides by zero or leaves the channel
  array, and the invariant of the three channels holds throughout.
\<close>

theorem pit_guest_safe:
  assumes "list_all pit_admissible ops"
  shows "ok (pit_pre_init E pit_bss w) (\<lambda>(f, pit, w').
           ok (run_ops (pit_step E f) ops (pit, w')) (\<lambda>t. pit_inv (fst t)))"
  by (rule ok_mono [OF pit_pre_init_ok]) (auto intro: pit_dev.run_ok assms)

theorem pit_guest_safe_witness:
  "ok (pit_pre_init sample_env pit_bss boot_world) (\<lambda>(f, pit, w').
     ok (run_ops (pit_step sample_env f) [PitOut 0x43 1 0x34, PitOut 0x40 1 0, PitOut 0x40 1 0,
       PitIn 0x40 1, PitIn 0x40 2, PitTimerInterrupt] (pit, w')) (\<lambda>t. pit_inv (fst t)))"
  by (rule pit_guest_safe) simp

end
