(* ===== verification/Serial.thy ===== *)
theory Serial
  imports Vmm_World
begin

text \<open>
  The 16550A UART of \<^verbatim>\<open>components/Init/src/serial.c\<close>: the two hardware FIFOs, the
  register file, transmission through the console's \<^verbatim>\<open>putchar\<close> and reception from the
  shared input ring.  \<open>f\<close> is the static \<^verbatim>\<open>tsc_frequency\<close>.  An index out of a FIFO
  or of the shared ring, and a failed \<^verbatim>\<open>assert\<close>, are faults.
\<close>

section \<open>Registers and state\<close>

abbreviation (input) UART_LCR_DLAB :: u8 where "UART_LCR_DLAB \<equiv> 0x80"

abbreviation (input) UART_IER_MSI :: u8 where "UART_IER_MSI \<equiv> 0x08"
abbreviation (input) UART_IER_RLSI :: u8 where "UART_IER_RLSI \<equiv> 0x04"
abbreviation (input) UART_IER_THRI :: u8 where "UART_IER_THRI \<equiv> 0x02"
abbreviation (input) UART_IER_RDI :: u8 where "UART_IER_RDI \<equiv> 0x01"

abbreviation (input) UART_IIR_NO_INT :: u8 where "UART_IIR_NO_INT \<equiv> 0x01"
abbreviation (input) UART_IIR_ID :: u8 where "UART_IIR_ID \<equiv> 0x06"
abbreviation (input) UART_IIR_MSI :: u8 where "UART_IIR_MSI \<equiv> 0x00"
abbreviation (input) UART_IIR_THRI :: u8 where "UART_IIR_THRI \<equiv> 0x02"
abbreviation (input) UART_IIR_RDI :: u8 where "UART_IIR_RDI \<equiv> 0x04"
abbreviation (input) UART_IIR_RLSI :: u8 where "UART_IIR_RLSI \<equiv> 0x06"
abbreviation (input) UART_IIR_CTI :: u8 where "UART_IIR_CTI \<equiv> 0x0C"
abbreviation (input) UART_IIR_FE :: u8 where "UART_IIR_FE \<equiv> 0xC0"

abbreviation (input) UART_MCR_LOOP :: u8 where "UART_MCR_LOOP \<equiv> 0x10"
abbreviation (input) UART_MCR_OUT2 :: u8 where "UART_MCR_OUT2 \<equiv> 0x08"

abbreviation (input) UART_MSR_DCD :: u8 where "UART_MSR_DCD \<equiv> 0x80"
abbreviation (input) UART_MSR_RI :: u8 where "UART_MSR_RI \<equiv> 0x40"
abbreviation (input) UART_MSR_DSR :: u8 where "UART_MSR_DSR \<equiv> 0x20"
abbreviation (input) UART_MSR_CTS :: u8 where "UART_MSR_CTS \<equiv> 0x10"
abbreviation (input) UART_MSR_TERI :: u8 where "UART_MSR_TERI \<equiv> 0x04"
abbreviation (input) UART_MSR_ANY_DELTA :: u8 where "UART_MSR_ANY_DELTA \<equiv> 0x0F"

abbreviation (input) UART_LSR_TEMT :: u8 where "UART_LSR_TEMT \<equiv> 0x40"
abbreviation (input) UART_LSR_THRE :: u8 where "UART_LSR_THRE \<equiv> 0x20"
abbreviation (input) UART_LSR_BI :: u8 where "UART_LSR_BI \<equiv> 0x10"
abbreviation (input) UART_LSR_OE :: u8 where "UART_LSR_OE \<equiv> 0x02"
abbreviation (input) UART_LSR_DR :: u8 where "UART_LSR_DR \<equiv> 0x01"
abbreviation (input) UART_LSR_INT_ANY :: u8 where "UART_LSR_INT_ANY \<equiv> 0x1E"

abbreviation (input) UART_FCR_XFR :: u32 where "UART_FCR_XFR \<equiv> 0x04"
abbreviation (input) UART_FCR_RFR :: u32 where "UART_FCR_RFR \<equiv> 0x02"
abbreviation (input) UART_FCR_FE :: "'a::len word" where "UART_FCR_FE \<equiv> 0x01"

abbreviation (input) UART_FIFO_LENGTH :: u8 where "UART_FIFO_LENGTH \<equiv> 16"
abbreviation (input) MAX_XMIT_RETRY :: i32 where "MAX_XMIT_RETRY \<equiv> 4"

datatype fifo_id = XMIT_FIFO | RECV_FIFO

record SerialFIFO =
  f_data :: "u8 list"
  f_count :: u8
  f_itl :: u8
  f_tail :: u8
  f_head :: u8

record SerialState =
  divider :: u16
  rbr :: u8
  thr :: u8
  tsr :: u8
  ier :: u8
  iir :: u8
  lcr :: u8
  mcr :: u8
  lsr :: u8
  msr :: u8
  scr :: u8
  fcr :: u8
  fcr_vmstate :: u8
  thr_ipending :: i32
  last_break_enable :: i32
  it_shift :: i32
  baudbase :: i32
  tsr_retry :: i32
  last_xmit_ts :: u64
  recv_fifo :: SerialFIFO
  xmit_fifo :: SerialFIFO
  timeout_ipending :: i32
  char_transmit_time :: u64
  poll_msl :: i32
  serial_level :: i32
  chars_sent :: i32

definition zero_fifo :: SerialFIFO where
  "zero_fifo = \<lparr>f_data = replicate 16 0, f_count = 0, f_itl = 0, f_tail = 0, f_head = 0\<rparr>"

definition serial_bss :: SerialState where
  "serial_bss =
     \<lparr>divider = 0, rbr = 0, thr = 0, tsr = 0, ier = 0, iir = 0, lcr = 0, mcr = 0, lsr = 0, msr = 0,
      scr = 0, fcr = 0, fcr_vmstate = 0, thr_ipending = 0, last_break_enable = 0, it_shift = 0,
      baudbase = 0, tsr_retry = 0, last_xmit_ts = 0, recv_fifo = zero_fifo, xmit_fifo = zero_fifo,
      timeout_ipending = 0, char_transmit_time = 0, poll_msl = 0, serial_level = 0,
      chars_sent = 0\<rparr>"

text \<open>The console's input ring, in memory shared with the console component.\<close>

record getchar_buffer =
  gb_head :: u32
  gb_tail :: u32
  gb_buf :: "u8 list"

section \<open>FIFOs\<close>

definition the_fifo :: "fifo_id \<Rightarrow> SerialState \<Rightarrow> SerialFIFO" where
  "the_fifo i s = (case i of RECV_FIFO \<Rightarrow> recv_fifo s | XMIT_FIFO \<Rightarrow> xmit_fifo s)"

definition set_fifo :: "fifo_id \<Rightarrow> SerialFIFO \<Rightarrow> SerialState \<Rightarrow> SerialState" where
  "set_fifo i q s =
     (case i of RECV_FIFO \<Rightarrow> s\<lparr>recv_fifo := q\<rparr> | XMIT_FIFO \<Rightarrow> s\<lparr>xmit_fifo := q\<rparr>)"

definition fifo_clear :: "fifo_id \<Rightarrow> SerialState \<Rightarrow> SerialState" where
  "fifo_clear i s =
     set_fifo i ((the_fifo i s)\<lparr>f_data := replicate 16 0, f_count := 0, f_head := 0, f_tail := 0\<rparr>) s"

definition fifo_put :: "fifo_id \<Rightarrow> u8 \<Rightarrow> SerialState \<Rightarrow> SerialState res" where
  "fifo_put i chr s =
     (let q = the_fifo i s
      in rbind
           (if i = XMIT_FIFO \<or> f_count q < UART_FIFO_LENGTH
            then rbind (aset (f_data q) (unat (f_head q)) chr) (\<lambda>d.
                   let h = f_head q + 1
                   in Inr (q\<lparr>f_data := d, f_head := (if h = UART_FIFO_LENGTH then 0 else h)\<rparr>))
            else Inr q)
           (\<lambda>q. if f_count q < UART_FIFO_LENGTH
                then Inr (set_fifo i (q\<lparr>f_count := f_count q + 1\<rparr>) s)
                else if i = RECV_FIFO
                then Inr ((set_fifo i q s)\<lparr>lsr := lsr s OR UART_LSR_OE\<rparr>)
                else Inr (set_fifo i q s)))"

definition fifo_get :: "fifo_id \<Rightarrow> SerialState \<Rightarrow> (u8 \<times> SerialState) res" where
  "fifo_get i s =
     (let q = the_fifo i s
      in if f_count q = 0 then Inr (0, s)
         else rbind (aget (f_data q) (unat (f_tail q))) (\<lambda>c.
              let t = f_tail q + 1
              in Inr (c, set_fifo i
                     (q\<lparr>f_tail := (if t = UART_FIFO_LENGTH then 0 else t),
                        f_count := f_count q - 1\<rparr>) s)))"

section \<open>Interrupts, line parameters, modem status\<close>

text \<open>The interrupt identification the code computes: the pending source of highest priority.\<close>

definition serial_tmp_iir :: "SerialState \<Rightarrow> u8" where
  "serial_tmp_iir s =
     (if nz (ier s AND UART_IER_RLSI) \<and> nz (lsr s AND UART_LSR_INT_ANY) then UART_IIR_RLSI
      else if nz (ier s AND UART_IER_RDI) \<and> nz (timeout_ipending s) then UART_IIR_CTI
      else if nz (ier s AND UART_IER_RDI) \<and> nz (lsr s AND UART_LSR_DR) \<and>
              (fcr s AND UART_FCR_FE = 0 \<or> f_itl (recv_fifo s) \<le> f_count (recv_fifo s))
           then UART_IIR_RDI
      else if nz (ier s AND UART_IER_THRI) \<and> nz (thr_ipending s) then UART_IIR_THRI
      else if nz (ier s AND UART_IER_MSI) \<and> nz (msr s AND UART_MSR_ANY_DELTA)
           then UART_IIR_MSI
      else UART_IIR_NO_INT)"

definition serial_update_irq :: "SerialState \<Rightarrow> world \<Rightarrow> SerialState \<times> world" where
  "serial_update_irq s w =
     (let tmp_iir = serial_tmp_iir s
      in (s\<lparr>iir := tmp_iir OR (iir s AND 0xF0)\<rparr>,
          if tmp_iir \<noteq> UART_IIR_NO_INT then emit (SetIrq TTYS0_IRQ 1) w
          else emit (SetIrq TTYS0_IRQ 0) w))"

text \<open>The parity letter is computed and not used; the divisions are C's, which truncate.\<close>

definition serial_update_parameters :: "SerialState \<Rightarrow> SerialState res" where
  "serial_update_parameters s =
     (if divider s = 0 then Inr s
      else let frame_size = 1 :: i32;
               frame_size = (if nz (lcr s AND 0x08) then frame_size + 1 else frame_size);
               stop_bits = (if nz (lcr s AND 0x04) then 2 else 1) :: i32;
               data_bits = ucast (lcr s AND 0x03) + 5 :: i32;
               frame_size = frame_size + (data_bits + stop_bits);
               speed = c_sdiv (baudbase s) (ucast (divider s)) :: i32
           in rbind (rassert (0 < sint speed)) (\<lambda>_.
                Inr (s\<lparr>char_transmit_time :=
                        c_sdiv (1000000000 :: i64) (scast speed) * scast frame_size\<rparr>)))"

definition serial_update_msl :: "SerialState \<Rightarrow> world \<Rightarrow> SerialState \<times> world" where
  "serial_update_msl s w =
     (let omsr = msr s;
          s = s\<lparr>msr := msr s OR UART_MSR_CTS\<rparr>;
          s = s\<lparr>msr := msr s OR UART_MSR_DCD\<rparr>
      in if msr s \<noteq> omsr
         then let s = s\<lparr>msr := msr s OR (drop_bit 4 (msr s) XOR drop_bit 4 omsr)\<rparr>;
                  s = (if nz (msr s AND UART_MSR_TERI) \<and> omsr AND UART_MSR_RI = 0
                       then s\<lparr>msr := msr s AND NOT UART_MSR_TERI\<rparr> else s)
              in serial_update_irq s w
         else (s, w))"

section \<open>Receiving and transmitting\<close>

text \<open>All callers of \<^verbatim>\<open>serial_receive1\<close> pass one byte.\<close>

definition serial_receive1 ::
    "env \<Rightarrow> u64 \<Rightarrow> u8 \<Rightarrow> SerialState \<Rightarrow> world \<Rightarrow> (SerialState \<times> world) res" where
  "serial_receive1 E f c s w =
     (if nz (fcr s AND UART_FCR_FE)
      then rbind (fifo_put RECV_FIFO c s) (\<lambda>s.
             let s = s\<lparr>lsr := lsr s OR UART_LSR_DR\<rparr>;
                 (now, w) = current_time_ns E f w;
                 w = emit (OneshotAbs TIMER_FIFO_TIMEOUT (now + char_transmit_time s * 4)) w
             in Inr (serial_update_irq s w))
      else let s = (if nz (lsr s AND UART_LSR_DR) then s\<lparr>lsr := lsr s OR UART_LSR_OE\<rparr> else s);
               s = s\<lparr>rbr := c, lsr := lsr s OR UART_LSR_DR\<rparr>
           in Inr (serial_update_irq s w))"

text \<open>The end of \<^verbatim>\<open>serial_xmit\<close>, after the character has been disposed of.\<close>

definition serial_xmit_end :: "env \<Rightarrow> u64 \<Rightarrow> SerialState \<Rightarrow> world \<Rightarrow> SerialState \<times> world" where
  "serial_xmit_end E f s w =
     (let (now, w) = current_time_ns E f w;
          s = s\<lparr>last_xmit_ts := now\<rparr>;
          w = (if lsr s AND UART_LSR_THRE = 0
               then emit (OneshotAbs TIMER_TRANSMIT_TIMER (last_xmit_ts s + char_transmit_time s)) w
               else w)
      in if nz (lsr s AND UART_LSR_THRE)
         then serial_update_irq (s\<lparr>lsr := lsr s OR UART_LSR_TEMT, thr_ipending := 1\<rparr>) w
         else (s, w))"

text \<open>\<^verbatim>\<open>serial_xmit\<close> first fetches the next character, unless it retries, and then sends it.\<close>

definition serial_xmit_fetch :: "SerialState \<Rightarrow> SerialState res" where
  "serial_xmit_fetch s =
     (if sint (tsr_retry s) \<le> 0
      then if nz (fcr s AND UART_FCR_FE)
           then rbind (fifo_get XMIT_FIFO s) (\<lambda>(c, s).
                  let s = s\<lparr>tsr := c\<rparr>
                  in Inr (if f_count (xmit_fifo s) = 0
                          then s\<lparr>lsr := lsr s OR UART_LSR_THRE\<rparr> else s))
           else Inr (s\<lparr>tsr := thr s, lsr := lsr s OR UART_LSR_THRE\<rparr>)
      else Inr s)"

definition serial_xmit_send ::
    "env \<Rightarrow> u64 \<Rightarrow> u64 \<Rightarrow> SerialState \<Rightarrow> world \<Rightarrow> (SerialState \<times> world) res" where
  "serial_xmit_send E f new_xmit_ts s w =
     (if nz (mcr s AND UART_MCR_LOOP)
      then rbind (serial_receive1 E f (tsr s) s w) (\<lambda>(s, w). Inr (serial_xmit_end E f s w))
      else if 16 \<le> sint (chars_sent s)
      then if sint (tsr_retry s) \<le> sint MAX_XMIT_RETRY
           then Inr (s\<lparr>tsr_retry := tsr_retry s + 1\<rparr>,
                     emit (OneshotAbs TIMER_TRANSMIT_TIMER
                            (new_xmit_ts + char_transmit_time s)) w)
           else Inr (serial_xmit_end E f
                      (if sint (poll_msl s) < 0 then s\<lparr>tsr_retry := -1\<rparr> else s) w)
      else Inr (serial_xmit_end E f
                 (s\<lparr>chars_sent := chars_sent s + 1, tsr_retry := 0\<rparr>)
                 (emit (GuestPutchar (tsr s)) w)))"

definition serial_xmit ::
    "env \<Rightarrow> u64 \<Rightarrow> SerialState \<Rightarrow> world \<Rightarrow> (SerialState \<times> world) res" where
  "serial_xmit E f s w =
     (let (new_xmit_ts, w) = current_time_ns E f w
      in rbind (serial_xmit_fetch s) (\<lambda>s. serial_xmit_send E f new_xmit_ts s w))"

definition fifo_timeout_int :: "SerialState \<Rightarrow> world \<Rightarrow> SerialState \<times> world" where
  "fifo_timeout_int s w =
     (if nz (f_count (recv_fifo s)) then serial_update_irq (s\<lparr>timeout_ipending := 1\<rparr>) w
      else (s, w))"

text \<open>The \<^verbatim>\<open>int\<close> result is only tested for being nonzero by the callers.\<close>

definition serial_can_receive :: "SerialState \<Rightarrow> i32" where
  "serial_can_receive s =
     (if nz (fcr s AND UART_FCR_FE)
      then if f_count (recv_fifo s) < UART_FIFO_LENGTH
           then if f_count (recv_fifo s) \<le> f_itl (recv_fifo s)
                then ucast (f_itl (recv_fifo s)) - ucast (f_count (recv_fifo s)) else 1
           else 0
      else c_bool (lsr s AND UART_LSR_DR = 0))"

section \<open>Port accesses\<close>

definition serial_write_fcr :: "u32 \<Rightarrow> SerialState \<Rightarrow> world \<Rightarrow> SerialState \<times> world" where
  "serial_write_fcr val s w =
     (let val = val AND 0xFF
      in if ucast (fcr s) = val then (s, w)
         else let val = (if nz ((val XOR ucast (fcr s)) AND UART_FCR_FE)
                         then val OR (UART_FCR_XFR OR UART_FCR_RFR) else val);
                  (s, w) = (if nz (val AND UART_FCR_RFR)
                            then (fifo_clear RECV_FIFO (s\<lparr>timeout_ipending := 0\<rparr>),
                                  emit (TimerStop TIMER_FIFO_TIMEOUT) w)
                            else (s, w));
                  s = (if nz (val AND UART_FCR_XFR) then fifo_clear XMIT_FIFO s else s);
                  s = (if nz (val AND UART_FCR_FE)
                       then let itl = (if val AND 0xC0 = 0x00 then 1 else if val AND 0xC0 = 0x40 then 4
                                       else if val AND 0xC0 = 0x80 then 8 else 14)
                            in s\<lparr>iir := iir s OR UART_IIR_FE,
                                 recv_fifo := (recv_fifo s)\<lparr>f_itl := itl\<rparr>\<rparr>
                       else s\<lparr>iir := iir s AND NOT UART_IIR_FE\<rparr>)
              in serial_update_irq (s\<lparr>fcr := ucast (val AND 0xC9)\<rparr>) w)"

text \<open>The cases of the switches of \<^verbatim>\<open>serial_ioport_write\<close> and \<^verbatim>\<open>serial_ioport_read\<close>.\<close>

definition serial_write_data ::
    "env \<Rightarrow> u64 \<Rightarrow> u32 \<Rightarrow> SerialState \<Rightarrow> world \<Rightarrow> (SerialState \<times> world) res" where
  "serial_write_data E f val s w =
     (if nz (lcr s AND UART_LCR_DLAB)
      then rbind (serial_update_parameters
                   (s\<lparr>divider := ucast (ucast (divider s AND 0xff00) OR val)\<rparr>))
             (\<lambda>s. Inr (s, w))
      else let s = s\<lparr>thr := ucast val\<rparr>
           in rbind (if nz (fcr s AND UART_FCR_FE)
                     then rbind (fifo_put XMIT_FIFO (thr s) s) (\<lambda>s.
                            let s = s\<lparr>thr_ipending := 0\<rparr>;
                                s = s\<lparr>lsr := lsr s AND NOT UART_LSR_TEMT\<rparr>;
                                s = s\<lparr>lsr := lsr s AND NOT UART_LSR_THRE\<rparr>
                            in Inr (serial_update_irq s w))
                     else let s = s\<lparr>thr_ipending := 0\<rparr>;
                              s = s\<lparr>lsr := lsr s AND NOT UART_LSR_THRE\<rparr>
                          in Inr (serial_update_irq s w))
                (\<lambda>(s, w). serial_xmit E f s w))"

definition serial_write_ier :: "u32 \<Rightarrow> SerialState \<Rightarrow> world \<Rightarrow> (SerialState \<times> world) res" where
  "serial_write_ier val s w =
     (if nz (lcr s AND UART_LCR_DLAB)
      then rbind (serial_update_parameters
                   (s\<lparr>divider := ucast (ucast (divider s AND 0x00ff) OR push_bit 8 val)\<rparr>))
             (\<lambda>s. Inr (s, w))
      else let s = s\<lparr>ier := ucast (val AND 0x0f)\<rparr>;
               (s, w) =
                 (if 0 \<le> sint (poll_msl s)
                  then if nz (ier s AND UART_IER_MSI)
                       then serial_update_msl (s\<lparr>poll_msl := 1\<rparr>) w
                       else (s\<lparr>poll_msl := 0\<rparr>, w)
                  else (s, w))
           in Inr (if nz (lsr s AND UART_LSR_THRE)
                   then serial_update_irq (s\<lparr>thr_ipending := 1\<rparr>) w else (s, w)))"

definition serial_write_lcr :: "u32 \<Rightarrow> SerialState \<Rightarrow> SerialState res" where
  "serial_write_lcr val s =
     rbind (serial_update_parameters (s\<lparr>lcr := ucast val\<rparr>)) (\<lambda>s.
       let break_enable = ucast (drop_bit 6 val AND 1)
       in Inr (if break_enable \<noteq> last_break_enable s
               then s\<lparr>last_break_enable := break_enable\<rparr> else s))"

definition serial_ioport_write ::
    "env \<Rightarrow> u64 \<Rightarrow> u32 \<Rightarrow> u32 \<Rightarrow> SerialState \<Rightarrow> world \<Rightarrow> (SerialState \<times> world) res" where
  "serial_ioport_write E f addr val s w =
     (let addr = addr AND 7
      in if addr = 1 then serial_write_ier val s w
         else if addr = 2 then Inr (serial_write_fcr val s w)
         else if addr = 3 then rbind (serial_write_lcr val s) (\<lambda>s. Inr (s, w))
         else if addr = 4 then Inr (s\<lparr>mcr := ucast (val AND 0x1f)\<rparr>, w)
         else if addr = 5 \<or> addr = 6 then Inr (s, w)
         else if addr = 7 then Inr (s\<lparr>scr := ucast val\<rparr>, w)
         else serial_write_data E f val s w)"

definition serial_read_data ::
    "env \<Rightarrow> u64 \<Rightarrow> SerialState \<Rightarrow> world \<Rightarrow> (u32 \<times> SerialState \<times> world) res" where
  "serial_read_data E f s w =
     (if nz (lcr s AND UART_LCR_DLAB) then Inr (ucast (divider s AND 0xff), s, w)
      else if nz (fcr s AND UART_FCR_FE)
      then rbind (fifo_get RECV_FIFO s) (\<lambda>(c, s).
             let (s, w) =
                   (if f_count (recv_fifo s) = 0
                    then (s\<lparr>lsr := lsr s AND NOT (UART_LSR_DR OR UART_LSR_BI)\<rparr>, w)
                    else let (now, w) = current_time_ns E f w
                         in (s, emit (OneshotAbs TIMER_FIFO_TIMEOUT
                                        (now + char_transmit_time s * 4)) w))
             in Inr (ucast c, serial_update_irq (s\<lparr>timeout_ipending := 0\<rparr>) w))
      else Inr (ucast (rbr s),
                serial_update_irq (s\<lparr>lsr := lsr s AND NOT (UART_LSR_DR OR UART_LSR_BI)\<rparr>) w))"

definition serial_read_iir :: "SerialState \<Rightarrow> world \<Rightarrow> u32 \<times> SerialState \<times> world" where
  "serial_read_iir s w =
     (let ret = ucast (iir s)
      in if iir s AND UART_IIR_ID = UART_IIR_THRI
         then (ret, serial_update_irq (s\<lparr>thr_ipending := 0\<rparr>) w)
         else (ret, s, w))"

definition serial_read_lsr :: "SerialState \<Rightarrow> world \<Rightarrow> u32 \<times> SerialState \<times> world" where
  "serial_read_lsr s w =
     (let ret = ucast (lsr s)
      in if nz (lsr s AND (UART_LSR_BI OR UART_LSR_OE))
         then (ret, serial_update_irq
                      (s\<lparr>lsr := lsr s AND NOT (UART_LSR_BI OR UART_LSR_OE)\<rparr>) w)
         else (ret, s, w))"

definition serial_read_msr :: "SerialState \<Rightarrow> world \<Rightarrow> u32 \<times> SerialState \<times> world" where
  "serial_read_msr s w =
     (if nz (mcr s AND UART_MCR_LOOP)
      then (push_bit 4 (ucast (mcr s AND 0x0c)) OR push_bit 3 (ucast (mcr s AND 0x02)) OR
            push_bit 5 (ucast (mcr s AND 0x01)), s, w)
      else let (s, w) = (if 0 \<le> sint (poll_msl s) then serial_update_msl s w else (s, w));
               ret = ucast (msr s)
           in if nz (msr s AND UART_MSR_ANY_DELTA)
              then (ret, serial_update_irq (s\<lparr>msr := msr s AND 0xF0\<rparr>) w)
              else (ret, s, w))"

definition serial_ioport_read ::
    "env \<Rightarrow> u64 \<Rightarrow> u32 \<Rightarrow> SerialState \<Rightarrow> world \<Rightarrow> (u32 \<times> SerialState \<times> world) res" where
  "serial_ioport_read E f addr s w =
     (let addr = addr AND 7
      in if addr = 1
         then if nz (lcr s AND UART_LCR_DLAB)
              then Inr (ucast (drop_bit 8 (divider s) AND 0xff), s, w)
              else Inr (ucast (ier s), s, w)
         else if addr = 2 then Inr (serial_read_iir s w)
         else if addr = 3 then Inr (ucast (lcr s), s, w)
         else if addr = 4 then Inr (ucast (mcr s), s, w)
         else if addr = 5 then Inr (serial_read_lsr s w)
         else if addr = 6 then Inr (serial_read_msr s w)
         else if addr = 7 then Inr (ucast (scr s), s, w)
         else serial_read_data E f s w)"

section \<open>The input ring and the reception loop\<close>

text \<open>
  \<^verbatim>\<open>sizeof(buffer->buf)\<close> is 4088 bytes.  \<open>None\<close> is the return value 0.  The
  ring is shared with the console component; its writes during a loop are not interleaved.
\<close>

definition serial_buffer_dequeue :: "getchar_buffer \<Rightarrow> (u8 option \<times> getchar_buffer) res" where
  "serial_buffer_dequeue b =
     (if gb_head b \<noteq> gb_tail b
      then rbind (aget (gb_buf b) (unat (gb_head b))) (\<lambda>c.
           rbind (umod (gb_head b + 1) 4088) (\<lambda>h. Inr (Some c, b\<lparr>gb_head := h\<rparr>)))
      else Inr (None, b))"

text \<open>How many more bytes the loop below can take: its variant.\<close>

definition receive_room :: "SerialState \<Rightarrow> nat" where
  "receive_room s =
     (if nz (fcr s AND UART_FCR_FE) then 16 - unat (f_count (recv_fifo s))
      else if lsr s AND UART_LSR_DR = 0 then 1 else 0)"

lemma serial_update_irq_fields [simp]:
  "lsr (fst (serial_update_irq s w)) = lsr s" "fcr (fst (serial_update_irq s w)) = fcr s"
  "lcr (fst (serial_update_irq s w)) = lcr s" "mcr (fst (serial_update_irq s w)) = mcr s"
  "recv_fifo (fst (serial_update_irq s w)) = recv_fifo s"
  "xmit_fifo (fst (serial_update_irq s w)) = xmit_fifo s"
  "tsr (fst (serial_update_irq s w)) = tsr s" "thr (fst (serial_update_irq s w)) = thr s"
  "tsr_retry (fst (serial_update_irq s w)) = tsr_retry s"
  "chars_sent (fst (serial_update_irq s w)) = chars_sent s"
  "poll_msl (fst (serial_update_irq s w)) = poll_msl s"
  "baudbase (fst (serial_update_irq s w)) = baudbase s"
  "divider (fst (serial_update_irq s w)) = divider s"
  "rbr (fst (serial_update_irq s w)) = rbr s"
  by (simp_all add: serial_update_irq_def Let_def)

lemma serial_receive1_room:
  assumes "serial_receive1 E f c s w = Inr (s', w')" "serial_can_receive s \<noteq> 0"
  shows "receive_room s' < receive_room s"
proof (cases "fcr s AND UART_FCR_FE = 0")
  case True
  then show ?thesis
    using assms by (auto simp: serial_receive1_def serial_can_receive_def receive_room_def Let_def
        prod_eq_iff word_ao_dist c_bool_def split: if_splits)
next
  case False
  then have c: "f_count (recv_fifo s) < 16"
    using assms(2) by (auto simp: serial_can_receive_def split: if_splits)
  then have "unat (f_count (recv_fifo s) + 1) = unat (f_count (recv_fifo s)) + 1"
    by (simp add: unat_word_ariths word_less_nat_alt)
  then show ?thesis
    using assms c False
    by (auto simp: serial_receive1_def receive_room_def Let_def split_beta fifo_put_def the_fifo_def
        set_fifo_def prod_eq_iff aset_def word_less_nat_alt split: if_splits)
qed

text \<open>
  The \<^verbatim>\<open>while\<close> loop of \<^verbatim>\<open>serial_timer_interrupt\<close> and of
  \<^verbatim>\<open>serial_character_interrupt\<close>.  It ends whatever the ring holds, because every
  received byte uses up room.
\<close>

function serial_receive_loop ::
    "env \<Rightarrow> u64 \<Rightarrow> getchar_buffer \<Rightarrow> SerialState \<Rightarrow> world \<Rightarrow>
     (getchar_buffer \<times> SerialState \<times> world) res" where
  "serial_receive_loop E f b s w =
     (if nz (serial_can_receive s)
      then rbind (serial_buffer_dequeue b) (\<lambda>(q, b).
             case q of
               None \<Rightarrow> Inr (b, s, w)
             | Some c \<Rightarrow> rbind (serial_receive1 E f c s w) (\<lambda>(s, w). serial_receive_loop E f b s w))
      else Inr (b, s, w))"
  by pat_completeness auto

termination serial_receive_loop
  by (relation "measure (\<lambda>(E, f, b, s, w). receive_room s)") (auto intro: serial_receive1_room)

declare serial_receive_loop.simps [simp del]

definition serial_character_interrupt ::
    "env \<Rightarrow> u64 \<Rightarrow> getchar_buffer \<Rightarrow> SerialState \<Rightarrow> world \<Rightarrow>
     (getchar_buffer \<times> SerialState \<times> world) res" where
  "serial_character_interrupt E f b s w =
     rbind (serial_receive_loop E f b s w) (\<lambda>(b, s, w).
       if serial_can_receive s = 0
       then Inr (b, s, emit (OneshotRel TIMER_MORE_CHARS (3 * NS_IN_MS E)) w)
       else Inr (b, s, w))"

definition serial_timer_interrupt ::
    "env \<Rightarrow> u64 \<Rightarrow> u32 \<Rightarrow> getchar_buffer \<Rightarrow> SerialState \<Rightarrow> world \<Rightarrow>
     (getchar_buffer \<times> SerialState \<times> world) res" where
  "serial_timer_interrupt E f completed b s w =
     (let (s, w) = (if bit completed TIMER_FIFO_TIMEOUT then fifo_timeout_int s w else (s, w))
      in rbind (if bit completed TIMER_TRANSMIT_TIMER then serial_xmit E f (s\<lparr>chars_sent := 0\<rparr>) w
                else Inr (s, w)) (\<lambda>(s, w).
           let (s, w) =
                 (if bit completed TIMER_MODEM_STATUS_TIMER then serial_update_msl s w else (s, w))
           in if bit completed TIMER_MORE_CHARS
              then rbind (serial_receive_loop E f b s w) (\<lambda>(b, s, w).
                     if serial_can_receive s = 0
                     then Inr (b, s, emit (OneshotRel TIMER_MORE_CHARS (3 * NS_IN_MS E)) w)
                     else Inr (b, s, w))
              else Inr (b, s, w)))"

section \<open>Reset and the VMM's entry points\<close>

definition serial_reset :: "env \<Rightarrow> u64 \<Rightarrow> SerialState \<Rightarrow> world \<Rightarrow> SerialState \<times> world" where
  "serial_reset E f s w =
     (let s = s\<lparr>rbr := 0, ier := 0, iir := UART_IIR_NO_INT, lcr := 0,
                lsr := UART_LSR_TEMT OR UART_LSR_THRE,
                msr := UART_MSR_DCD OR UART_MSR_DSR OR UART_MSR_CTS, divider := 0x0C,
                mcr := UART_MCR_OUT2, scr := 0, tsr_retry := 0,
                char_transmit_time := c_sdiv (1000000000 :: i64) 9600 * 10, poll_msl := 0\<rparr>;
          s = fifo_clear XMIT_FIFO (fifo_clear RECV_FIFO s);
          (now, w) = current_time_ns E f w
      in (s\<lparr>last_xmit_ts := now, thr_ipending := 0, last_break_enable := 0, serial_level := 0\<rparr>, w))"

definition serial_init_core :: "env \<Rightarrow> u64 \<Rightarrow> SerialState \<Rightarrow> world \<Rightarrow> SerialState \<times> world" where
  "serial_init_core E f s w = serial_reset E f s w"

text \<open>Returns the new value of \<^verbatim>\<open>tsc_frequency\<close> as well.\<close>

definition serial_pre_init ::
    "env \<Rightarrow> SerialState \<Rightarrow> world \<Rightarrow> u64 \<times> SerialState \<times> world" where
  "serial_pre_init E s w =
     (let s = s\<lparr>serial_level := 0\<rparr>;
          f = init_timer_tsc_frequency E;
          s = s\<lparr>baudbase := 115200\<rparr>;
          (s, w) = serial_init_core E f s w
      in (f, serial_update_msl s w))"

definition serial_port_in ::
    "env \<Rightarrow> u64 \<Rightarrow> u32 \<Rightarrow> u32 \<Rightarrow> SerialState \<Rightarrow> world \<Rightarrow>
     (ioport_fault_result \<times> u32 option \<times> SerialState \<times> world) res" where
  "serial_port_in E f port_no sz s w =
     (if sz \<noteq> 1 then Inr (IO_FAULT_ERROR, None, s, w)
      else rbind (serial_ioport_read E f port_no s w) (\<lambda>(r, s, w).
           Inr (IO_FAULT_HANDLED, Some r, s, w)))"

definition serial_port_out ::
    "env \<Rightarrow> u64 \<Rightarrow> u32 \<Rightarrow> u32 \<Rightarrow> u32 \<Rightarrow> SerialState \<Rightarrow> world \<Rightarrow>
     (ioport_fault_result \<times> SerialState \<times> world) res" where
  "serial_port_out E f port_no sz value s w =
     (if sz \<noteq> 1 then Inr (IO_FAULT_ERROR, s, w)
      else rbind (serial_ioport_write E f port_no value s w) (\<lambda>(s, w).
           Inr (IO_FAULT_HANDLED, s, w)))"

section \<open>Invariant: no guest access faults\<close>

definition fifo_ok :: "SerialFIFO \<Rightarrow> bool" where
  "fifo_ok q \<longleftrightarrow> length (f_data q) = 16 \<and> unat (f_count q) \<le> 16 \<and> unat (f_head q) < 16 \<and>
     unat (f_tail q) < 16"

definition serial_inv :: "SerialState \<Rightarrow> bool" where
  "serial_inv s \<longleftrightarrow> fifo_ok (recv_fifo s) \<and> fifo_ok (xmit_fifo s) \<and> baudbase s = 115200 \<and>
     unat (tsr_retry s) \<le> 5 \<and> unat (chars_sent s) \<le> 16 \<and> (poll_msl s = 0 \<or> poll_msl s = 1)"

definition iir_line :: "u8 \<Rightarrow> world \<Rightarrow> bool" where
  "iir_line v w \<longleftrightarrow> irq_level TTYS0_IRQ (out w) = (if v AND 1 = 0 then 1 else 0)"

abbreviation line_ok :: "SerialState \<Rightarrow> world \<Rightarrow> bool" where
  "line_ok s w \<equiv> iir_line (iir s) w"

definition ring_ok :: "getchar_buffer \<Rightarrow> bool" where
  "ring_ok b \<longleftrightarrow> length (gb_buf b) = 4088 \<and> unat (gb_head b) < 4088"

lemma serial_inv_update_irq [simp]: "serial_inv (fst (serial_update_irq s w)) = serial_inv s"
  by (simp add: serial_inv_def)

lemma serial_tmp_iir_values:
  "serial_tmp_iir s \<in> {UART_IIR_RLSI, UART_IIR_CTI, UART_IIR_RDI, UART_IIR_THRI, UART_IIR_MSI, UART_IIR_NO_INT}"
  by (simp add: serial_tmp_iir_def)

lemma line_ok_update_irq [simp]: "line_ok (fst (serial_update_irq s w)) (snd (serial_update_irq s w))"
proof -
  have "(a OR (x AND 0xF0)) AND 1 = a AND (1 :: u8)" for a x
    by (rule bit_word_eqI) (auto simp: bit_simps numeral_eq_Suc)
  moreover have "serial_tmp_iir s AND 1 = 0 \<longleftrightarrow> serial_tmp_iir s \<noteq> UART_IIR_NO_INT"
    using serial_tmp_iir_values [of s] by auto
  ultimately show ?thesis
    by (simp add: serial_update_irq_def iir_line_def Let_def del: and_one_eq)
qed

lemma iir_line_other [simp]:
  "iir_line v (w\<lparr>tsc_reads := n\<rparr>) = iir_line v w"
  "iir_line v (emit (OneshotAbs i t) w) = iir_line v w"
  "iir_line v (emit (OneshotRel i t) w) = iir_line v w"
  "iir_line v (emit (TimerStop i) w) = iir_line v w"
  "iir_line v (emit (GuestPutchar c) w) = iir_line v w"
  "iir_line v (snd (current_time_ns E f w)) = iir_line v w"
  by (simp_all add: iir_line_def)

lemma serial_update_msl_inv [simp]: "serial_inv (fst (serial_update_msl s w)) = serial_inv s"
  by (simp add: serial_update_msl_def Let_def) (simp add: serial_inv_def)

lemma serial_update_msl_line [simp]: 
  "line_ok s w \<Longrightarrow> line_ok (fst (serial_update_msl s w)) (snd (serial_update_msl s w))"
  by (simp add: serial_update_msl_def Let_def)

text \<open>The operations on the FIFO alone.\<close>

definition ring_next :: "u8 \<Rightarrow> u8" where
  "ring_next h = (let h = h + 1 in if h = 16 then 0 else h)"

definition fifo_push :: "u8 \<Rightarrow> SerialFIFO \<Rightarrow> SerialFIFO" where
  "fifo_push c q = q\<lparr>f_data := (f_data q)[unat (f_head q) := c], f_head := ring_next (f_head q),
      f_count := (if f_count q < 16 then f_count q + 1 else f_count q)\<rparr>"

definition fifo_pop :: "SerialFIFO \<Rightarrow> SerialFIFO" where
  "fifo_pop q = q\<lparr>f_tail := ring_next (f_tail q), f_count := f_count q - 1\<rparr>"

lemma unat_ring_next: "unat h < 16 \<Longrightarrow> unat (ring_next h) = (unat h + 1) mod 16"
proof -
  assume h: "unat h < 16"
  then have u: "unat (h + 1) = unat h + 1" by (simp add: unat_word_ariths)
  moreover have "unat (16 :: u8) = 16" by simp
  ultimately have "h + 1 = 16 \<longleftrightarrow> unat h + 1 = 16" by (metis word_unat_eq_iff)
  then show ?thesis using u h by (auto simp: ring_next_def Let_def)
qed

lemma fifo_ok_push: "fifo_ok q \<Longrightarrow> fifo_ok (fifo_push c q)"
  by (simp add: fifo_ok_def fifo_push_def unat_ring_next word_less_nat_alt unat_word_ariths)

lemma fifo_ok_pop: "fifo_ok q \<Longrightarrow> f_count q \<noteq> 0 \<Longrightarrow> fifo_ok (fifo_pop q)"
  by (auto simp: fifo_ok_def fifo_pop_def unat_ring_next unat_dec)

lemma set_fifo_other [simp]:
  "iir (set_fifo i q s) = iir s" "fcr (set_fifo i q s) = fcr s" "lsr (set_fifo i q s) = lsr s"
  "lcr (set_fifo i q s) = lcr s" "mcr (set_fifo i q s) = mcr s" "tsr_retry (set_fifo i q s) = tsr_retry s"
  "chars_sent (set_fifo i q s) = chars_sent s" "poll_msl (set_fifo i q s) = poll_msl s"
  "baudbase (set_fifo i q s) = baudbase s" "tsr (set_fifo i q s) = tsr s"
  by (cases i; simp add: set_fifo_def)+

lemma set_fifo_the [simp]: "set_fifo i (the_fifo i s) s = s"
  by (cases i) (simp_all add: set_fifo_def the_fifo_def)

lemma the_fifo_set: "the_fifo j (set_fifo i q s) = (if j = i then q else the_fifo j s)"
  by (cases i; cases j) (simp_all add: set_fifo_def the_fifo_def)

lemma serial_inv_fifos: "serial_inv s \<Longrightarrow> fifo_ok (the_fifo i s)"
  by (cases i) (simp_all add: serial_inv_def the_fifo_def)

lemma serial_inv_set_fifo: "serial_inv s \<Longrightarrow> fifo_ok q \<Longrightarrow> serial_inv (set_fifo i q s)"
  by (cases i) (simp_all add: serial_inv_def set_fifo_def)

lemma fifo_put_eq:
  assumes "fifo_ok (the_fifo i s)"
  shows "fifo_put i c s =
    (if i = RECV_FIFO \<and> \<not> f_count (the_fifo i s) < 16 then Inr (s\<lparr>lsr := lsr s OR UART_LSR_OE\<rparr>)
     else Inr (set_fifo i (fifo_push c (the_fifo i s)) s))"
  using assms
  by (cases i) (auto simp: fifo_put_def fifo_ok_def aset_def Let_def fifo_push_def ring_next_def)

lemma fifo_get_eq:
  assumes "fifo_ok (the_fifo i s)"
  shows "fifo_get i s =
    (let q = the_fifo i s
     in if f_count q = 0 then Inr (0, s)
        else Inr (f_data q ! unat (f_tail q), set_fifo i (fifo_pop q) s))"
  using assms by (auto simp: fifo_get_def fifo_ok_def aget_def Let_def fifo_pop_def ring_next_def)

lemma ok_fifo_put:
  assumes "serial_inv s"
  shows "ok (fifo_put i c s) (\<lambda>s'. serial_inv s' \<and> iir s' = iir s)"
proof -
  have "serial_inv (s\<lparr>lsr := x\<rparr>)" for x using assms by (simp add: serial_inv_def)
  then show ?thesis
    using assms serial_inv_fifos [OF assms, of i]
    by (simp add: fifo_put_eq serial_inv_set_fifo fifo_ok_push)
qed

lemma ok_fifo_get:
  assumes "serial_inv s"
  shows "ok (fifo_get i s) (\<lambda>(c, s'). serial_inv s' \<and> iir s' = iir s)"
  using assms serial_inv_fifos [OF assms, of i]
  by (simp add: fifo_get_eq Let_def serial_inv_set_fifo fifo_ok_pop)

lemma speed_value:
  assumes "d \<noteq> 0"
  shows "sint (c_sdiv (115200 :: i32) (ucast (d :: u16))) = int (115200 div unat d)"
proof -
  have "unat d < 65536" using unsigned_less [of d, where 'a = nat] by simp
  then have d: "sint (ucast d :: i32) = int (unat d)"
    using sint_small [of "ucast d :: i32"] by (simp add: unsigned_ucast_eq take_bit_nat_eq_self)
  have "115200 sdiv int (unat d) = int (115200 div unat d)"
    using assms by (simp add: signed_divide_int_def zdiv_int unat_gt_0)
  moreover have "sint (word_of_int (int (115200 div unat d)) :: i32) = int (115200 div unat d)"
  proof -
    have "115200 div unat d \<le> 115200" by (rule div_le_dividend)
    then have "unat (word_of_nat (115200 div unat d) :: i32) = 115200 div unat d"
      by (simp only: unat_of_nat) (rule mod_less, rule le_less_trans, assumption, simp)
    moreover have "115200 div unat d < 2 ^ 31"
      by (rule le_less_trans [OF div_le_dividend]) simp
    ultimately show ?thesis
      using sint_small [of "word_of_nat (115200 div unat d) :: i32"] by simp
  qed
  ultimately show ?thesis by (simp add: c_sdiv_def d)
qed

lemma speed_pos: "d \<noteq> 0 \<Longrightarrow> 0 < sint (c_sdiv (115200 :: i32) (ucast (d :: u16)))"
proof -
  assume d: "d \<noteq> 0"
  have "unat d \<le> 115200" using unsigned_less [of d, where 'a = nat] by simp
  then have "0 < 115200 div unat d" using d by (simp add: div_greater_zero_iff unat_gt_0)
  then show ?thesis by (simp add: speed_value [OF d] del: div_greater_zero_iff)
qed

lemma ok_serial_update_parameters:
  "serial_inv s \<Longrightarrow> ok (serial_update_parameters s) (\<lambda>s'. serial_inv s' \<and> iir s' = iir s)"
  unfolding serial_update_parameters_def Let_def
  using speed_pos [of "divider s"] by (auto simp: serial_inv_def)

lemma serial_inv_simps [simp]:
  "serial_inv (s\<lparr>lsr := a\<rparr>) = serial_inv s" "serial_inv (s\<lparr>iir := a\<rparr>) = serial_inv s"
  "serial_inv (s\<lparr>rbr := a\<rparr>) = serial_inv s" "serial_inv (s\<lparr>thr := a\<rparr>) = serial_inv s"
  "serial_inv (s\<lparr>tsr := a\<rparr>) = serial_inv s" "serial_inv (s\<lparr>ier := a\<rparr>) = serial_inv s"
  "serial_inv (s\<lparr>lcr := a\<rparr>) = serial_inv s" "serial_inv (s\<lparr>mcr := a\<rparr>) = serial_inv s"
  "serial_inv (s\<lparr>msr := a\<rparr>) = serial_inv s" "serial_inv (s\<lparr>scr := a\<rparr>) = serial_inv s"
  "serial_inv (s\<lparr>fcr := a\<rparr>) = serial_inv s" "serial_inv (s\<lparr>divider := b\<rparr>) = serial_inv s"
  "serial_inv (s\<lparr>thr_ipending := c\<rparr>) = serial_inv s"
  "serial_inv (s\<lparr>timeout_ipending := c\<rparr>) = serial_inv s"
  "serial_inv (s\<lparr>last_break_enable := c\<rparr>) = serial_inv s"
  "serial_inv (s\<lparr>serial_level := c\<rparr>) = serial_inv s"
  "serial_inv (s\<lparr>last_xmit_ts := d\<rparr>) = serial_inv s"
  "serial_inv (s\<lparr>char_transmit_time := d\<rparr>) = serial_inv s"
  by (simp_all add: serial_inv_def)

definition sgood :: "SerialState \<times> world \<Rightarrow> bool" where
  "sgood p \<longleftrightarrow> serial_inv (fst p) \<and> line_ok (fst p) (snd p)"

lemma sgood_pair [simp]: "sgood (s, w) = (serial_inv s \<and> line_ok s w)"
  by (simp add: sgood_def)

lemma sgood_update_irq [simp]: "sgood (serial_update_irq s w) = serial_inv s"
  by (simp add: sgood_def)

lemma sgood_update_msl [simp]: "serial_inv s \<Longrightarrow> line_ok s w \<Longrightarrow> sgood (serial_update_msl s w)"
  by (simp add: sgood_def)

lemma sgoodD: "sgood p \<Longrightarrow> serial_inv (fst p)" "sgood p \<Longrightarrow> line_ok (fst p) (snd p)"
  by (simp_all add: sgood_def)

lemma ok_serial_receive1:
  "serial_inv s \<Longrightarrow> line_ok s w \<Longrightarrow>
   ok (serial_receive1 E f c s w) sgood"
  unfolding serial_receive1_def Let_def case_prod_beta
  by (auto intro!: ok_mono [OF ok_fifo_put])

lemma sgood_serial_xmit_end:
  "serial_inv s \<Longrightarrow> line_ok s w \<Longrightarrow> sgood (serial_xmit_end E f s w)"
  by (simp add: sgood_def serial_xmit_end_def Let_def split_beta)

lemma serial_inv_bump:
  "serial_inv s \<Longrightarrow> \<not> 16 \<le> sint (chars_sent s) \<Longrightarrow>
     serial_inv (s\<lparr>chars_sent := chars_sent s + 1, tsr_retry := 0\<rparr>)"
  "serial_inv s \<Longrightarrow> sint (tsr_retry s) \<le> 4 \<Longrightarrow> serial_inv (s\<lparr>tsr_retry := tsr_retry s + 1\<rparr>)"
  "serial_inv s \<Longrightarrow> serial_inv (s\<lparr>chars_sent := 0\<rparr>)"
  by (auto simp: serial_inv_def sint_counter unat_word_ariths)

lemma serial_inv_poll_msl: "serial_inv s \<Longrightarrow> 0 \<le> sint (poll_msl s)"
  by (auto simp: serial_inv_def)

lemma ok_serial_xmit_fetch:
  "serial_inv s \<Longrightarrow> ok (serial_xmit_fetch s) (\<lambda>s'. serial_inv s' \<and> iir s' = iir s)"
  unfolding serial_xmit_fetch_def Let_def by (auto intro!: ok_mono [OF ok_fifo_get])

lemma ok_serial_xmit_send:
  "serial_inv s \<Longrightarrow> line_ok s w \<Longrightarrow>
   ok (serial_xmit_send E f t s w) sgood"
  unfolding serial_xmit_send_def using serial_inv_poll_msl [of s]
  by (auto intro!: ok_mono [OF ok_serial_receive1] sgood_serial_xmit_end serial_inv_bump)

lemma ok_serial_xmit:
  "serial_inv s \<Longrightarrow> line_ok s w \<Longrightarrow>
   ok (serial_xmit E f s w) sgood"
  unfolding serial_xmit_def Let_def case_prod_beta
  by (auto intro!: ok_mono [OF ok_serial_xmit_fetch] ok_mono [OF ok_serial_xmit_send])


lemma serial_inv_clear [simp]: "serial_inv s \<Longrightarrow> serial_inv (fifo_clear i s)"
  unfolding fifo_clear_def by (rule serial_inv_set_fifo) (simp_all add: fifo_ok_def serial_inv_fifos)

lemma iir_fifo_clear [simp]: "iir (fifo_clear i s) = iir s"
  by (simp add: fifo_clear_def)

lemma serial_inv_itl [simp]:
  "serial_inv s \<Longrightarrow> serial_inv (s\<lparr>iir := a, recv_fifo := (recv_fifo s)\<lparr>f_itl := n\<rparr>\<rparr>)"
  by (simp add: serial_inv_def fifo_ok_def)

lemma sgood_write_fcr: "serial_inv s \<Longrightarrow> line_ok s w \<Longrightarrow> sgood (serial_write_fcr v s w)"
  by (simp add: serial_write_fcr_def Let_def split_beta)

lemma serial_inv_poll [simp]:
  "serial_inv s \<Longrightarrow> serial_inv (s\<lparr>ier := a, poll_msl := 0\<rparr>)"
  "serial_inv s \<Longrightarrow> serial_inv (s\<lparr>ier := a, poll_msl := 1\<rparr>)"
  by (simp_all add: serial_inv_def)

lemma ok_serial_write_data:
  "serial_inv s \<Longrightarrow> line_ok s w \<Longrightarrow> ok (serial_write_data E f v s w) sgood"
  unfolding serial_write_data_def Let_def case_prod_beta
  by (auto intro!: ok_mono [OF ok_serial_update_parameters] ok_mono [OF ok_fifo_put] ok_serial_xmit)

lemma ok_serial_write_ier:
  "serial_inv s \<Longrightarrow> line_ok s w \<Longrightarrow> ok (serial_write_ier v s w) sgood"
  unfolding serial_write_ier_def Let_def case_prod_beta
  by (auto intro!: ok_mono [OF ok_serial_update_parameters])

lemma ok_serial_write_lcr:
  "serial_inv s \<Longrightarrow> ok (serial_write_lcr v s) (\<lambda>s'. serial_inv s' \<and> iir s' = iir s)"
  unfolding serial_write_lcr_def Let_def
  by (rule ok_rbind [THEN iffD2]) (auto intro!: ok_mono [OF ok_serial_update_parameters])

lemma ok_serial_ioport_write:
  "serial_inv s \<Longrightarrow> line_ok s w \<Longrightarrow> ok (serial_ioport_write E f addr v s w) sgood"
  unfolding serial_ioport_write_def Let_def
  by (auto intro!: ok_mono [OF ok_serial_write_lcr] ok_serial_write_data ok_serial_write_ier
      simp: sgood_write_fcr)

lemma sgood_reads:
  assumes "serial_inv s" "line_ok s w"
  shows "sgood (snd (serial_read_iir s w))" "sgood (snd (serial_read_lsr s w))"
    "sgood (snd (serial_read_msr s w))"
  using assms
  by (simp_all add: serial_read_iir_def serial_read_lsr_def serial_read_msr_def Let_def split_beta)

lemma ok_serial_read_data:
  "serial_inv s \<Longrightarrow> line_ok s w \<Longrightarrow> ok (serial_read_data E f s w) (\<lambda>x. sgood (snd x))"
  unfolding serial_read_data_def Let_def case_prod_beta
  by (auto intro!: ok_mono [OF ok_fifo_get])

lemma ok_serial_ioport_read:
  "serial_inv s \<Longrightarrow> line_ok s w \<Longrightarrow> ok (serial_ioport_read E f addr s w) (\<lambda>x. sgood (snd x))"
  unfolding serial_ioport_read_def Let_def
  by (simp add: sgood_reads ok_serial_read_data)

lemma ok_serial_buffer_dequeue:
  "ring_ok b \<Longrightarrow> ok (serial_buffer_dequeue b) (\<lambda>(q, b'). ring_ok b')"
  by (auto simp: serial_buffer_dequeue_def ring_ok_def unat_mod)

definition sdev_inv :: "getchar_buffer \<times> SerialState \<times> world \<Rightarrow> bool" where
  "sdev_inv p \<longleftrightarrow> ring_ok (fst p) \<and> sgood (snd p)"

lemma sdev_inv_simp [simp]: "sdev_inv (b, p) = (ring_ok b \<and> sgood p)"
  by (simp add: sdev_inv_def)

lemma ok_serial_receive_loop:
  "ring_ok b \<Longrightarrow> serial_inv s \<Longrightarrow> line_ok s w \<Longrightarrow> ok (serial_receive_loop E f b s w) sdev_inv"
proof (induction E f b s w rule: serial_receive_loop.induct)
  case (1 E f b s w)
  show ?case
  proof (cases "serial_can_receive s = 0")
    case True
    then show ?thesis using 1 by (subst serial_receive_loop.simps) simp
  next
    case False
    obtain q b' where b': "serial_buffer_dequeue b = Inr (q, b')" "ring_ok b'"
      using ok_serial_buffer_dequeue [OF 1(2)] by (auto simp: ok_iff_ex)
    show ?thesis
    proof (cases q)
      case None
      then show ?thesis using 1 b' False by (subst serial_receive_loop.simps) simp
    next
      case (Some c)
      obtain t w' where t: "serial_receive1 E f c s w = Inr (t, w')" "sgood (t, w')"
        using ok_serial_receive1 [OF 1(3,4), of E f c] by (auto simp: ok_iff_ex)
      have "ok (serial_receive_loop E f b' t w') sdev_inv"
        using 1(1) [OF False b'(1) refl Some t(1) refl] b'(2) t(2) by simp
      then show ?thesis using b' Some t False by (subst serial_receive_loop.simps) simp
    qed
  qed
qed

lemma sgoodE: "sgood p \<Longrightarrow> serial_inv (fst p) \<and> line_ok (fst p) (snd p)"
  by (simp add: sgood_def)

lemma sdev_invE: "sdev_inv p \<Longrightarrow> ring_ok (fst p) \<and> serial_inv (fst (snd p)) \<and> line_ok (fst (snd p)) (snd (snd p))"
  by (simp add: sdev_inv_def sgood_def)

lemma ok_serial_character_interrupt:
  "ring_ok b \<Longrightarrow> serial_inv s \<Longrightarrow> line_ok s w \<Longrightarrow> ok (serial_character_interrupt E f b s w) sdev_inv"
  unfolding serial_character_interrupt_def
  by (simp, rule ok_mono [OF ok_serial_receive_loop]) auto

lemma sgood_fifo_timeout_int [simp]:
  "serial_inv s \<Longrightarrow> line_ok s w \<Longrightarrow> sgood (fifo_timeout_int s w)"
  by (simp add: fifo_timeout_int_def)

lemma serial_timer_interrupt_rule:
  assumes "serial_inv s" "line_ok s w" "P s"
    and timeout: "\<And>s w. P s \<Longrightarrow> P (fst (fifo_timeout_int s w))"
    and xmit: "\<And>s w. serial_inv s \<Longrightarrow> line_ok s w \<Longrightarrow> P s \<Longrightarrow> ok (serial_xmit E f (s\<lparr>chars_sent := 0\<rparr>) w) (\<lambda>p. P (fst p))"
    and msl: "\<And>s w. P s \<Longrightarrow> P (fst (serial_update_msl s w))"
    and recv: "\<And>s w. serial_inv s \<Longrightarrow> line_ok s w \<Longrightarrow> P s \<Longrightarrow> ok (serial_character_interrupt E f b s w) Q"
    and stay: "\<And>s w. serial_inv s \<Longrightarrow> line_ok s w \<Longrightarrow> P s \<Longrightarrow> Q (b, s, w)"
  shows "ok (serial_timer_interrupt E f completed b s w) Q"
proof -
  define p where "p = (if bit completed TIMER_FIFO_TIMEOUT then fifo_timeout_int s w else (s, w))"
  have p: "serial_inv (fst p)" "line_ok (fst p) (snd p)" "P (fst p)"
    using assms(1-3) timeout sgood_fifo_timeout_int [OF assms(1,2)] by (simp_all add: p_def sgood_def)
  have "ok (serial_xmit E f ((fst p)\<lparr>chars_sent := 0\<rparr>) (snd p)) sgood"
    using p(1,2) ok_serial_xmit [of "(fst p)\<lparr>chars_sent := 0\<rparr>" "snd p"] by (simp add: serial_inv_bump sgood_def)
  then have "ok (if bit completed TIMER_TRANSMIT_TIMER
            then serial_xmit E f ((fst p)\<lparr>chars_sent := 0\<rparr>) (snd p) else Inr p) (\<lambda>p. sgood p \<and> P (fst p))"
    using p xmit [OF p] by (cases p) (auto simp: ok_iff_ex sgood_def)
  then obtain q where q: "(if bit completed TIMER_TRANSMIT_TIMER
            then serial_xmit E f ((fst p)\<lparr>chars_sent := 0\<rparr>) (snd p) else Inr p) = Inr q" "sgood q" "P (fst q)"
    by (auto simp: ok_iff_ex)
  define r where "r = (if bit completed TIMER_MODEM_STATUS_TIMER
    then serial_update_msl (fst q) (snd q) else q)"
  have r: "serial_inv (fst r)" "line_ok (fst r) (snd r)" "P (fst r)"
    using q(2,3) msl by (simp_all add: r_def sgood_def)
  have "serial_timer_interrupt E f completed b s w =
      (if bit completed TIMER_MORE_CHARS then serial_character_interrupt E f b (fst r) (snd r)
       else Inr (b, r))"
    using q(1)
    by (cases "bit completed TIMER_TRANSMIT_TIMER"; cases "bit completed TIMER_MODEM_STATUS_TIMER")
      (simp_all add: serial_timer_interrupt_def serial_character_interrupt_def Let_def split_beta
        p_def [symmetric] r_def)
  then show ?thesis using recv [OF r] stay [OF r] by simp
qed

lemma ok_serial_timer_interrupt:
  assumes "ring_ok b" "serial_inv s" "line_ok s w"
  shows "ok (serial_timer_interrupt E f completed b s w) sdev_inv"
  by (rule serial_timer_interrupt_rule [OF assms(2,3), where P = "\<lambda>_. True"])
    (use assms in \<open>auto intro: ok_serial_character_interrupt ok_mono [OF ok_serial_xmit] serial_inv_bump(3)\<close>)

datatype serial_op =
    SerialIn u32 u32
  | SerialOut u32 u32 u32
  | SerialTimer u32
  | SerialChar
  | ConsoleWrite getchar_buffer

fun serial_step :: "env \<Rightarrow> u64 \<Rightarrow> serial_op \<Rightarrow> getchar_buffer \<times> SerialState \<times> world \<Rightarrow>
    (getchar_buffer \<times> SerialState \<times> world) res" where
  "serial_step E f (SerialIn p n) (b, s, w) =
     rbind (serial_port_in E f p n s w) (\<lambda>(_, _, s, w). Inr (b, s, w))"
| "serial_step E f (SerialOut p n v) (b, s, w) =
     rbind (serial_port_out E f p n v s w) (\<lambda>(_, s, w). Inr (b, s, w))"
| "serial_step E f (SerialTimer c) (b, s, w) = serial_timer_interrupt E f c b s w"
| "serial_step E f SerialChar (b, s, w) = serial_character_interrupt E f b s w"
| "serial_step E f (ConsoleWrite b') (b, s, w) = Inr (b', s, w)"

fun serial_admissible :: "serial_op \<Rightarrow> bool" where
  "serial_admissible (ConsoleWrite b) = ring_ok b"
| "serial_admissible _ = True"

lemma serial_step_ok:
  "sdev_inv p \<Longrightarrow> serial_admissible op \<Longrightarrow> ok (serial_step E f op p) sdev_inv"
  by (cases p; cases op)
    (auto simp: serial_port_in_def serial_port_out_def split_beta
      intro!: ok_mono [OF ok_serial_ioport_read] ok_mono [OF ok_serial_ioport_write]
        ok_serial_timer_interrupt ok_serial_character_interrupt)

interpretation serial_dev: safe_device "serial_step E f" sdev_inv serial_admissible
  by unfold_locales (rule serial_step_ok)

lemma serial_reset_good:
  assumes "baudbase s = 115200" "unat (chars_sent s) \<le> 16" "irq_level TTYS0_IRQ (out w) = 0"
  shows "sgood (serial_reset E f s w)"
  using assms
  by (simp add: serial_reset_def Let_def split_beta sgood_def serial_inv_def fifo_clear_def
      set_fifo_def the_fifo_def fifo_ok_def iir_line_def)

lemma serial_pre_init_good:
  "irq_level TTYS0_IRQ (out w) = 0 \<Longrightarrow> sgood (snd (serial_pre_init E serial_bss w))"
  using serial_reset_good [of "serial_bss\<lparr>serial_level := 0, baudbase := 115200\<rparr>" w E
      "init_timer_tsc_frequency E"]
  by (simp add: serial_pre_init_def serial_init_core_def Let_def split_beta serial_bss_def sgoodD
      del: sgood_pair)

section \<open>The FIFOs are queues\<close>

definition fifo_contents :: "SerialFIFO \<Rightarrow> u8 list" where
  "fifo_contents q = ring_contents (f_data q) (unat (f_tail q)) (unat (f_count q))"

definition fifo_wf :: "SerialFIFO \<Rightarrow> bool" where
  "fifo_wf q \<longleftrightarrow> fifo_ok q \<and> unat (f_head q) = (unat (f_tail q) + unat (f_count q)) mod 16"

lemma length_fifo_contents [simp]: "length (fifo_contents q) = unat (f_count q)"
  by (simp add: fifo_contents_def)

lemma fifo_contents_Nil: "fifo_contents q = [] \<longleftrightarrow> f_count q = 0"
  by (metis length_0_conv length_fifo_contents unat_eq_zero)

lemma fifo_contents_empty: "f_count q = 0 \<Longrightarrow> fifo_contents q = []" "fifo_contents q = [] \<Longrightarrow> f_count q = 0"
  by (simp_all add: fifo_contents_Nil)

lemma fifo_contents_push:
  assumes "fifo_wf q" "unat (f_count q) < 16"
  shows "fifo_wf (fifo_push c q)" "fifo_contents (fifo_push c q) = fifo_contents q @ [c]"
proof -
  have n: "unat (f_count q + 1) = Suc (unat (f_count q))"
    using assms(2) by (simp add: unat_word_ariths)
  have lt: "f_count q < 16" using assms(2) by (simp add: word_less_nat_alt)
  have l: "length (f_data q) = 16" "unat (f_head q) < 16" using assms(1) by (auto simp: fifo_wf_def fifo_ok_def)
  have h: "unat (f_head q) = (unat (f_tail q) + unat (f_count q)) mod length (f_data q)"
    using assms(1) l by (simp add: fifo_wf_def)
  show "fifo_wf (fifo_push c q)"
    using assms fifo_ok_push [of q c] lt n l
    by (simp add: fifo_wf_def fifo_push_def unat_ring_next mod_Suc_eq)
  show "fifo_contents (fifo_push c q) = fifo_contents q @ [c]"
    using ring_contents_push [of "unat (f_count q)" "f_data q" "unat (f_tail q)" c] lt n l assms(2)
    by (simp add: fifo_contents_def fifo_push_def h)
qed

lemma fifo_contents_pop:
  assumes "fifo_wf q" "f_count q \<noteq> 0"
  shows "fifo_wf (fifo_pop q)"
    "fifo_contents q = f_data q ! unat (f_tail q) # fifo_contents (fifo_pop q)"
proof -
  have l: "length (f_data q) = 16" "unat (f_tail q) < 16" using assms(1) by (auto simp: fifo_wf_def fifo_ok_def)
  have n: "0 < unat (f_count q)" using assms(2) by (simp add: unat_gt_0)
  have "((unat (f_tail q) + 1) mod 16 + (unat (f_count q) - 1)) mod 16 =
        (unat (f_tail q) + unat (f_count q)) mod 16"
    using n mod_add_left_eq [of "unat (f_tail q) + 1" 16 "unat (f_count q) - 1"] by simp
  then show "fifo_wf (fifo_pop q)"
    using assms fifo_ok_pop [of q] l
    by (simp add: fifo_wf_def fifo_pop_def unat_ring_next unat_dec)
  show "fifo_contents q = f_data q ! unat (f_tail q) # fifo_contents (fifo_pop q)"
    using ring_contents_pop [of "unat (f_count q)" "unat (f_tail q)" "f_data q"] l n assms(2)
    by (simp add: fifo_contents_def fifo_pop_def unat_ring_next unat_dec)
qed

lemma fifo_wf_ok: "fifo_wf q \<Longrightarrow> fifo_ok q"
  by (simp add: fifo_wf_def)

lemma fifo_put_contents:
  assumes "fifo_wf (the_fifo i s)" "length (fifo_contents (the_fifo i s)) < 16"
  shows "ok (fifo_put i c s) (\<lambda>t. t = set_fifo i (fifo_push c (the_fifo i s)) s \<and> fifo_wf (the_fifo i t) \<and>
           fifo_contents (the_fifo i t) = fifo_contents (the_fifo i s) @ [c])"
  using assms fifo_contents_push [OF assms(1), of c]
  by (simp add: fifo_put_eq fifo_wf_ok word_less_nat_alt the_fifo_set)

lemma fifo_get_contents:
  assumes "fifo_wf (the_fifo i s)" "fifo_contents (the_fifo i s) = x # xs"
  shows "ok (fifo_get i s) (\<lambda>(y, t). y = x \<and> fifo_wf (the_fifo i t) \<and> fifo_contents (the_fifo i t) = xs)"
proof -
  have "f_count (the_fifo i s) \<noteq> 0" using assms(2) fifo_contents_Nil [of "the_fifo i s"] by auto
  then show ?thesis
    using assms fifo_contents_pop [OF assms(1)]
    by (simp add: fifo_get_eq fifo_wf_ok Let_def the_fifo_set)
qed

interpretation serial_fifo: bounded_fifo "fifo_put i" "fifo_get i"
  "\<lambda>s. fifo_contents (the_fifo i s)" "\<lambda>s. fifo_wf (the_fifo i s)" 16 for i
  by unfold_locales (auto intro: fifo_get_contents ok_mono [OF fifo_put_contents])

text \<open>
  Each FIFO is a first-in first-out queue of sixteen bytes: bytes put into an empty FIFO come
  out complete and in order.
\<close>

theorem serial_fifo_in_order:
  assumes "fifo_wf (the_fifo i s)" "f_count (the_fifo i s) = 0" "length cs \<le> 16"
  shows "ok (put_all (fifo_put i) cs s) (\<lambda>t.
           ok (get_all (fifo_get i) (length cs) t) (\<lambda>(ds, u). ds = cs \<and> f_count (the_fifo i u) = 0))"
  using serial_fifo.put_get_all [of i s cs] assms by (simp add: fifo_contents_Nil)

text \<open>A receive overrun keeps the FIFO and sets the overrun bit.\<close>

lemma serial_receive_overrun:
  assumes "fifo_ok (recv_fifo s)" "f_count (recv_fifo s) = 16"
  shows "fifo_put RECV_FIFO c s = Inr (s\<lparr>lsr := lsr s OR UART_LSR_OE\<rparr>)"
  using assms by (simp add: fifo_put_eq the_fifo_def)

text \<open>A transmit overrun is not first-in first-out: the byte that overflows comes out first.\<close>

lemma serial_transmit_overrun:
  assumes "fifo_wf (xmit_fifo s)" "f_count (xmit_fifo s) = 16"
  shows "ok (fifo_put XMIT_FIFO c s) (\<lambda>t. ok (fifo_get XMIT_FIFO t) (\<lambda>(d, u). d = c))"
proof -
  have "f_tail (xmit_fifo s) = f_head (xmit_fifo s)"
    using assms by (simp add: fifo_wf_def fifo_ok_def word_unat_eq_iff)
  then show ?thesis using assms
    by (auto simp: fifo_put_def fifo_get_def the_fifo_def set_fifo_def fifo_wf_def fifo_ok_def Let_def)
qed



section \<open>Transmission\<close>

definition sent :: "effect list \<Rightarrow> u8 list" where
  "sent es = concat (map (\<lambda>e. case e of GuestPutchar c \<Rightarrow> [c] | _ \<Rightarrow> []) es)"

definition xmit_pending :: "SerialState \<Rightarrow> u8 list" where
  "xmit_pending s = (if 0 < sint (tsr_retry s) then [tsr s] else []) @ fifo_contents (xmit_fifo s)"

definition xmit_wf :: "SerialState \<Rightarrow> bool" where
  "xmit_wf s \<longleftrightarrow> serial_inv s \<and> fifo_wf (xmit_fifo s) \<and> nz (fcr s AND 1) \<and> mcr s AND 0x10 = 0 \<and> lcr s AND 0x80 = 0 \<and>
     (nz (lsr s AND 0x20) \<longrightarrow> f_count (xmit_fifo s) = 0)"

definition xmit_armed :: "SerialState \<Rightarrow> world \<Rightarrow> bool" where
  "xmit_armed s w \<longleftrightarrow> xmit_pending s = [] \<or> (\<exists>t. last (out w) = OneshotAbs TIMER_TRANSMIT_TIMER t)"

lemma sent_append [simp]: "sent (es @ es') = sent es @ sent es'"
  by (simp add: sent_def)

lemma sent_simps [simp]: "sent [] = []" "sent [GuestPutchar c] = [c]" "sent [OneshotAbs i t] = []"
  "sent [SetIrq n k] = []" "sent [TimerStop i] = []"
  by (simp_all add: sent_def)

lemma serial_update_irq_more [simp]:
  "sent (out (snd (serial_update_irq s w))) = sent (out w)"
  "xmit_pending (fst (serial_update_irq s w)) = xmit_pending s"
  "xmit_wf (fst (serial_update_irq s w)) = xmit_wf s"
  by (simp_all add: xmit_pending_def xmit_wf_def) (simp add: serial_update_irq_def Let_def)

lemma thre_bits:
  "nz ((x OR 0x20) AND (0x20 :: u8))" "(x OR 0x40) AND (0x20 :: u8) = x AND 0x20"
  "(x AND NOT 0x20) AND (0x20 :: u8) = 0" 
proof -
  show "(x OR 0x40) AND (0x20 :: u8) = x AND 0x20" by (simp add: word_ao_dist)
  show "(x AND NOT 0x20) AND (0x20 :: u8) = 0" by (simp add: and.assoc)
  have "(x OR 0x20) AND (0x20 :: u8) = 0x20" by (simp add: word_ao_absorbs)
  then show "nz ((x OR 0x20) AND (0x20 :: u8))" by simp
qed

definition xmit_step :: "SerialState \<Rightarrow> world \<Rightarrow> SerialState \<Rightarrow> world \<Rightarrow> u8 list \<Rightarrow> u8 list \<Rightarrow> bool" where
  "xmit_step s w s' w' cs ds \<longleftrightarrow>
     xmit_wf s' \<and> sent (out w') = sent (out w) @ cs \<and> xmit_pending s' = ds \<and> xmit_armed s' w'"

lemma serial_xmit_end_transmit:
  assumes "xmit_wf s" "0 < sint (tsr_retry s) \<Longrightarrow> lsr s AND 0x20 = 0"
  shows "xmit_step s w (fst (serial_xmit_end E f s w)) (snd (serial_xmit_end E f s w)) [] (xmit_pending s)"
proof (cases "lsr s AND 0x20 = 0")
  case True
  then show ?thesis
    using assms by (simp add: xmit_step_def serial_xmit_end_def Let_def split_beta xmit_armed_def)
     (simp add: xmit_wf_def xmit_pending_def)
next
  case False
  then have "xmit_pending s = []"
    using assms by (auto simp: xmit_wf_def xmit_pending_def fifo_contents_empty)
  then show ?thesis
    using False assms
    by (simp add: xmit_step_def serial_xmit_end_def Let_def split_beta xmit_armed_def)
     (auto simp: xmit_wf_def xmit_pending_def thre_bits fifo_contents_empty)
qed

lemma serial_xmit_fetch_transmit:
  assumes "xmit_wf s" "xmit_pending s = c # cs"
  shows "ok (serial_xmit_fetch s) (\<lambda>t. xmit_wf t \<and> tsr t = c \<and> fifo_contents (xmit_fifo t) = cs \<and>
    tsr_retry t = tsr_retry s \<and> chars_sent t = chars_sent s \<and> poll_msl t = poll_msl s \<and> 
    (0 < sint (tsr_retry s) \<longrightarrow> t = s) \<and> (nz (lsr t AND 0x20) \<longrightarrow> cs = []))"
proof (cases "0 < sint (tsr_retry s)")
  case True
  then show ?thesis using assms by (auto simp: serial_xmit_fetch_def xmit_pending_def xmit_wf_def fifo_contents_empty)
next
  case False
  then have r: "sint (tsr_retry s) \<le> 0" by simp
  have q: "fifo_wf (the_fifo XMIT_FIFO s)" "fifo_contents (xmit_fifo s) = c # cs"
    using assms False by (simp_all add: the_fifo_def xmit_wf_def xmit_pending_def)
  then have nz: "f_count (xmit_fifo s) \<noteq> 0" using fifo_contents_Nil [of "xmit_fifo s"] by auto
  have pop: "fifo_wf (fifo_pop (xmit_fifo s))" "fifo_contents (fifo_pop (xmit_fifo s)) = cs"
    "f_data (xmit_fifo s) ! unat (f_tail (xmit_fifo s)) = c"
    using fifo_contents_pop [of "xmit_fifo s"] q nz by (simp_all add: the_fifo_def)
  have z: "lsr s AND 0x20 = 0" using assms(1) nz by (auto simp: xmit_wf_def)
  have i: "serial_inv (s\<lparr>xmit_fifo := fifo_pop (xmit_fifo s)\<rparr>)"
    using assms(1) pop(1) by (simp add: xmit_wf_def serial_inv_def fifo_wf_ok)
  show ?thesis
    using assms(1) r False q nz pop z i
    by (simp add: serial_xmit_fetch_def fifo_get_eq fifo_wf_ok Let_def the_fifo_def set_fifo_def thre_bits xmit_wf_def)
     (metis fifo_contents_empty(1))
qed

lemma serial_xmit_send_transmit:
  assumes "xmit_wf t" "16 \<le> sint (chars_sent t) \<Longrightarrow> 0 < sint (tsr_retry t) \<Longrightarrow> lsr t AND 0x20 = 0"
    and "fifo_contents (xmit_fifo t) = cs"
  shows "ok (serial_xmit_send E f n t w) (\<lambda>(s', w').
    if sint (chars_sent t) < 16 then xmit_step t w s' w' [tsr t] cs
    else xmit_step t w s' w' [] (tsr t # cs))"
proof -
  have inv: "serial_inv t" using assms(1) by (simp add: xmit_wf_def)
  have m: "mcr t AND 0x10 = 0" using assms(1) by (simp add: xmit_wf_def)
  have retry: "unat (tsr_retry t) \<le> 5" using inv by (simp add: serial_inv_def)
  consider (send) "sint (chars_sent t) < 16"
    | (retry) "16 \<le> sint (chars_sent t)" "sint (tsr_retry t) \<le> 4"
    | (keep) "16 \<le> sint (chars_sent t)" "4 < sint (tsr_retry t)" by linarith
  then show ?thesis
  proof cases
    case send
    let ?u = "t\<lparr>chars_sent := chars_sent t + 1, tsr_retry := 0\<rparr>"
    have "xmit_wf ?u" using assms(1) serial_inv_bump(1) [OF inv] send by (simp add: xmit_wf_def)
    moreover have "xmit_pending ?u = cs" using assms(3) by (simp add: xmit_pending_def)
    ultimately show ?thesis
      using serial_xmit_end_transmit [of ?u "emit (GuestPutchar (tsr t)) w" E f] send m
      by (simp add: serial_xmit_send_def xmit_step_def split_beta)
  next
    case retry
    let ?u = "t\<lparr>tsr_retry := tsr_retry t + 1\<rparr>"
    have "xmit_wf ?u" using assms(1) serial_inv_bump(2) [OF inv] retry by (simp add: xmit_wf_def)
    moreover have "0 < sint (tsr_retry t + 1)"
      using sint_small [of "tsr_retry t + 1"] \<open>unat (tsr_retry t) \<le> 5\<close>
      by (simp add: unat_word_ariths del: of_nat_Suc)
    ultimately show ?thesis
      using retry m assms(3)
      by (simp add: serial_xmit_send_def xmit_step_def xmit_pending_def xmit_armed_def)
  next
    case keep
    have "xmit_pending t = tsr t # cs" using keep assms(3) by (simp add: xmit_pending_def)
    then show ?thesis
      using keep m serial_inv_poll_msl [OF inv] serial_xmit_end_transmit [OF assms(1), of w E f] assms(2)
      by (simp add: serial_xmit_send_def split_beta)
  qed
qed

lemma serial_xmit_transmit:
  assumes "xmit_wf s" "xmit_pending s = c # cs"
    and "16 \<le> sint (chars_sent s) \<Longrightarrow> 0 < sint (tsr_retry s) \<Longrightarrow> lsr s AND 0x20 = 0"
  shows "ok (serial_xmit E f s w) (\<lambda>(s', w').
    if sint (chars_sent s) < 16 then xmit_step s w s' w' [c] cs else xmit_step s w s' w' [] (c # cs))"
  unfolding serial_xmit_def Let_def case_prod_beta ok_rbind
proof (rule ok_mono [OF serial_xmit_fetch_transmit [OF assms(1,2)]], goal_cases)
  case (1 t)
  then have t: "xmit_wf t" "fifo_contents (xmit_fifo t) = cs"
    and retry: "16 \<le> sint (chars_sent t) \<Longrightarrow> 0 < sint (tsr_retry t) \<Longrightarrow> lsr t AND 0x20 = 0" using assms(3) by auto
  show ?case
    by (rule ok_mono [OF serial_xmit_send_transmit [OF t(1) retry t(2)]])
      (use 1 in \<open>auto simp: xmit_step_def\<close>)
qed


text \<open>
  Transmission, the guest's side: writing a byte to the data port in FIFO mode, with room in
  the FIFO, neither loses nor reorders a byte.  The bytes on the console followed by those still
  pending are those from before and the new one, and if any is pending the transmit timer has
  just been armed.
\<close>

theorem serial_transmit_write:
  assumes "xmit_wf s" "unat (f_count (xmit_fifo s)) < 16"
  shows "ok (serial_write_data E f c s w) (\<lambda>(s', w').
     xmit_wf s' \<and> sent (out w') @ xmit_pending s' = sent (out w) @ xmit_pending s @ [ucast c] \<and>
     xmit_armed s' w')"
proof -
  let ?c = "ucast c :: u8"
  have q: "fifo_wf (xmit_fifo s)" and inv: "serial_inv s" and ok: "fifo_ok (the_fifo XMIT_FIFO s)"
    and m: "nz (fcr s AND 1)" "lcr s AND 0x80 = 0" "mcr s AND 0x10 = 0"
    using assms(1) by (simp_all add: xmit_wf_def serial_inv_fifos)
  note push = fifo_contents_push [OF q assms(2), of ?c]
  define t where "t = s\<lparr>thr := ?c, xmit_fifo := fifo_push ?c (xmit_fifo s), thr_ipending := 0,
      lsr := lsr s AND NOT 0x40 AND NOT 0x20\<rparr>"
  have "serial_inv t" using inv push(1) by (simp add: t_def serial_inv_def fifo_wf_ok)
  then have t: "xmit_wf t" "lsr t AND 0x20 = 0" "xmit_pending t = xmit_pending s @ [?c]"
    using push m by (simp_all add: t_def xmit_wf_def xmit_pending_def and.assoc)
  have put: "fifo_put XMIT_FIFO ?c (s\<lparr>thr := ?c\<rparr>) =
      Inr (s\<lparr>thr := ?c, xmit_fifo := fifo_push ?c (xmit_fifo s)\<rparr>)"
    using ok by (simp add: fifo_put_eq the_fifo_def set_fifo_def)
  let ?p = "serial_update_irq t w"
  have eq: "serial_write_data E f c s w = serial_xmit E f (fst ?p) (snd ?p)"
    using m by (simp add: serial_write_data_def put Let_def t_def split_beta and.assoc)
  obtain d ds where d: "xmit_pending t = d # ds" using t(3) by (metis neq_Nil_conv snoc_eq_iff_butlast)
  then have "ok (serial_xmit E f (fst ?p) (snd ?p)) (\<lambda>(s', w').
    if sint (chars_sent t) < 16 then xmit_step (fst ?p) (snd ?p) s' w' [d] ds
    else xmit_step (fst ?p) (snd ?p) s' w' [] (d # ds))"
    using serial_xmit_transmit [of "fst ?p" d ds E f "snd ?p"] t by simp
  then show ?thesis
    unfolding eq by (rule ok_mono) (use d t(3) in \<open>auto simp: xmit_step_def split: if_splits\<close>)
qed

text \<open>
  Transmission, the timer's side: each transmit timer interrupt with bytes pending puts
  exactly the oldest one on the console, and arms the timer again when more are pending.
\<close>

theorem serial_transmit_timer:
  assumes "xmit_wf s" "xmit_pending s = c # cs"
  shows "ok (serial_timer_interrupt E f (2 ^ TIMER_TRANSMIT_TIMER) b s w) (\<lambda>(b', s', w').
     b' = b \<and> xmit_wf s' \<and> sent (out w') = sent (out w) @ [c] \<and> xmit_pending s' = cs \<and> xmit_armed s' w')"
proof -
  have "xmit_wf (s\<lparr>chars_sent := 0\<rparr>)" "xmit_pending (s\<lparr>chars_sent := 0\<rparr>) = c # cs"
    using assms by (auto simp: xmit_wf_def xmit_pending_def serial_inv_bump)
  from serial_xmit_transmit [OF this] show ?thesis
    by (auto simp: serial_timer_interrupt_def timer_ids xmit_step_def elim!: ok_mono)
qed

lemma serial_spurious_nul:
  assumes "xmit_wf s" "xmit_pending s = []"
  shows "ok (serial_timer_interrupt E f (2 ^ TIMER_TRANSMIT_TIMER) b s w) (\<lambda>(b', s', w').
     sent (out w') = sent (out w) @ [0])"
proof -
  have r: "sint (tsr_retry s) \<le> 0" and e: "f_count (xmit_fifo s) = 0"
    and m: "nz (fcr s AND 1)" "mcr s AND 0x10 = 0"
    using assms by (auto simp: xmit_pending_def xmit_wf_def fifo_contents_Nil split: if_splits)
  have get: "fifo_get XMIT_FIFO (s\<lparr>chars_sent := 0\<rparr>) = Inr (0, s\<lparr>chars_sent := 0\<rparr>)"
    using e by (simp add: fifo_get_def the_fifo_def)
  show ?thesis
    using r e m
    by (simp add: serial_timer_interrupt_def timer_ids serial_xmit_def serial_xmit_fetch_def get
        serial_xmit_send_def Let_def split_beta serial_xmit_end_def)
qed

section \<open>Reception\<close>

definition gb_pending :: "getchar_buffer \<Rightarrow> u8 list" where
  "gb_pending b = ring_contents (gb_buf b) (unat (gb_head b))
     ((unat (gb_tail b) + 4088 - unat (gb_head b)) mod 4088)"

lemma serial_buffer_dequeue_pending:
  assumes "ring_ok b" "unat (gb_tail b) < 4088"
  shows "ok (serial_buffer_dequeue b) (\<lambda>(q, b'). ring_ok b' \<and> gb_tail b' = gb_tail b \<and> gb_buf b' = gb_buf b \<and>
     gb_pending b = (case q of None \<Rightarrow> [] | Some c \<Rightarrow> c # gb_pending b') \<and>
     (q = None \<longrightarrow> b' = b))"
proof (cases "gb_head b = gb_tail b")
  case True
  then show ?thesis using assms by (simp add: serial_buffer_dequeue_def gb_pending_def)
next
  case False
  let ?h = "unat (gb_head b)" and ?t = "unat (gb_tail b)"
  have b: "length (gb_buf b) = 4088" "?h < 4088" using assms(1) by (simp_all add: ring_ok_def)
  have ne: "?h \<noteq> ?t" using False by (simp add: word_unat_eq_iff)
  have pos: "0 < (?t + 4088 - ?h) mod 4088"
  proof (cases "?h < ?t")
    case True
    then have e: "?t + 4088 - ?h = (?t - ?h) + 4088" by simp
    have "(?t + 4088 - ?h) mod 4088 = ?t - ?h"
      unfolding e mod_add_self2 using assms(2) by (intro mod_less) simp
    then show ?thesis using True by simp
  next
    case False
    then show ?thesis using ne b(2) by simp
  qed
  have h: "unat (gb_head b + 1) = ?h + 1" using b(2) by (simp add: unat_word_ariths)
  then have h2: "unat ((gb_head b + 1) mod 4088) = (?h + 1) mod 4088" by (simp add: unat_mod)
  have n: "(?t + 4088 - ?h) mod 4088 - 1 = (?t + 4088 - (?h + 1) mod 4088) mod 4088"
    using b(2) ne pos assms(2) 
    by (auto simp: mod_if not_less split: if_splits)
  show ?thesis
    using False b pos ring_contents_pop [OF pos, of ?h "gb_buf b"] 
    by (simp add: serial_buffer_dequeue_def gb_pending_def h2 [simplified] n [simplified] ring_ok_def)
qed

lemma serial_receive1_queue:
  assumes "serial_inv s" "fifo_wf (recv_fifo s)" "nz (fcr s AND 1)" "unat (f_count (recv_fifo s)) < 16"
  shows "ok (serial_receive1 E f c s w) (\<lambda>(s', w'). fifo_wf (recv_fifo s') \<and>
     fifo_contents (recv_fifo s') = fifo_contents (recv_fifo s) @ [c] \<and> fcr s' = fcr s \<and>
     lcr s' = lcr s \<and> mcr s' = mcr s \<and> lsr s' = lsr s OR 1)"
proof -
  have "f_count (recv_fifo s) < 16" using assms(4) by (simp add: word_less_nat_alt)
  then show ?thesis
    using assms fifo_contents_push [OF assms(2,4), of c]
    by (simp add: serial_receive1_def fifo_put_eq the_fifo_def fifo_wf_ok set_fifo_def Let_def split_beta)
qed

lemma can_receive_room: "nz (fcr s AND 1) \<Longrightarrow> serial_can_receive s \<noteq> 0 \<Longrightarrow> unat (f_count (recv_fifo s)) < 16"
  by (auto simp: serial_can_receive_def word_less_nat_alt split: if_splits)

text \<open>The receiver is in FIFO mode, and the data-ready bit tells whether a byte waits in the FIFO.\<close>

definition data_ready_exact :: "SerialState \<Rightarrow> bool" where
  "data_ready_exact s \<longleftrightarrow> (nz (lsr s AND UART_LSR_DR) \<longleftrightarrow> fifo_contents (recv_fifo s) \<noteq> [])"

definition loop_frame :: "getchar_buffer \<Rightarrow> SerialState \<Rightarrow> getchar_buffer \<Rightarrow> SerialState \<Rightarrow> bool" where
  "loop_frame b s b' s' \<longleftrightarrow> ring_ok b' \<and> gb_tail b' = gb_tail b \<and> gb_buf b' = gb_buf b \<and> fifo_wf (recv_fifo s') \<and>
     fcr s' = fcr s \<and> lcr s' = lcr s \<and> mcr s' = mcr s \<and> lsr s' AND UART_LSR_OE = lsr s AND UART_LSR_OE \<and>
     (data_ready_exact s \<longrightarrow> data_ready_exact s')"

lemma loop_frame_trans: "loop_frame b s b' s' \<Longrightarrow> loop_frame b' s' b'' s'' \<Longrightarrow> loop_frame b s b'' s''"
  by (simp add: loop_frame_def)

lemma serial_receive_loop_queue:
  assumes "ring_ok b" "unat (gb_tail b) < 4088" "serial_inv s" "line_ok s w"
    "fifo_wf (recv_fifo s)" "nz (fcr s AND 1)"
  shows "ok (serial_receive_loop E f b s w) (\<lambda>(b', s', w').
    fifo_contents (recv_fifo s') @ gb_pending b' = fifo_contents (recv_fifo s) @ gb_pending b \<and>
    (gb_pending b' = [] \<or> serial_can_receive s' = 0) \<and> loop_frame b s b' s')"
  using assms
proof (induction E f b s w rule: serial_receive_loop.induct)
  case (1 E f b s w)
  have here: "loop_frame b s b s" using 1(2,6) by (simp add: loop_frame_def)
  show ?case
  proof (cases "serial_can_receive s = 0")
    case True
    then show ?thesis using here by (subst serial_receive_loop.simps) simp
  next
    case False
    obtain q b' where b': "serial_buffer_dequeue b = Inr (q, b')" "ring_ok b'" "gb_tail b' = gb_tail b" "gb_buf b' = gb_buf b"
      "gb_pending b = (case q of None \<Rightarrow> [] | Some c \<Rightarrow> c # gb_pending b')" "q = None \<longrightarrow> b' = b"
      using serial_buffer_dequeue_pending [OF 1(2,3)] by (auto simp: ok_iff_ex)
    show ?thesis
    proof (cases q)
      case None
      then show ?thesis using b' False here by (subst serial_receive_loop.simps) simp
    next
      case (Some c)
      have "ok (serial_receive1 E f c s w) (\<lambda>p. sgood p \<and> fifo_wf (recv_fifo (fst p)) \<and>
         fifo_contents (recv_fifo (fst p)) = fifo_contents (recv_fifo s) @ [c] \<and>
         fcr (fst p) = fcr s \<and> lcr (fst p) = lcr s \<and> mcr (fst p) = mcr s \<and> lsr (fst p) = lsr s OR 1)"
        using serial_receive1_queue [OF 1(4,6,7) can_receive_room [OF 1(7) False], of E f c w]
          ok_serial_receive1 [OF 1(4,5), of E f c]
        by (auto simp: ok_iff_ex)
      then obtain t w' where t: "serial_receive1 E f c s w = Inr (t, w')" "sgood (t, w')"
        "fifo_wf (recv_fifo t)" "fifo_contents (recv_fifo t) = fifo_contents (recv_fifo s) @ [c]"
        "fcr t = fcr s" "lcr t = lcr s" "mcr t = mcr s" "lsr t = lsr s OR 1"
        by (auto simp: ok_iff_ex)
      have frame: "loop_frame b s b' t"
        using b' t by (simp add: loop_frame_def data_ready_exact_def word_ao_dist)
      have "ok (serial_receive_loop E f b' t w') (\<lambda>(b'', s', w').
        fifo_contents (recv_fifo s') @ gb_pending b'' = fifo_contents (recv_fifo t) @ gb_pending b' \<and>
        (gb_pending b'' = [] \<or> serial_can_receive s' = 0) \<and> loop_frame b' t b'' s')"
        using 1(1) [OF False b'(1) refl Some t(1) refl] b' t 1(3,7) by simp
      then show ?thesis
        using False b' Some t loop_frame_trans [OF frame]
        by (subst serial_receive_loop.simps) (auto elim!: ok_mono)
    qed
  qed
qed

text \<open>
  Reception: in FIFO mode the loop that moves input from the ring shared with the console
  into the receive FIFO terminates without a fault, loses and reorders nothing, never overruns
  the FIFO, and stops only when the ring is empty or the UART can take no more; in the latter
  case it arranges to be called again.
\<close>

theorem serial_reception:
  assumes "ring_ok b" "unat (gb_tail b) < 4088" "serial_inv s" "line_ok s w"
    "fifo_wf (recv_fifo s)" "nz (fcr s AND UART_FCR_FE)"
  shows "ok (serial_character_interrupt E f b s w) (\<lambda>(b', s', w').
    fifo_contents (recv_fifo s') @ gb_pending b' = fifo_contents (recv_fifo s) @ gb_pending b \<and>
    lsr s' AND UART_LSR_OE = lsr s AND UART_LSR_OE \<and>
    (gb_pending b' = [] \<or> last (out w') = OneshotRel TIMER_MORE_CHARS (3 * NS_IN_MS E)))"
  unfolding serial_character_interrupt_def ok_rbind
  by (rule ok_mono [OF serial_receive_loop_queue [OF assms]]) (auto simp: loop_frame_def)

definition sample_serial :: SerialState where
  "sample_serial = serial_bss\<lparr>fcr := 1, baudbase := 115200, recv_fifo := zero_fifo\<lparr>f_itl := 4\<rparr>\<rparr>"

definition sample_ring :: getchar_buffer where
  "sample_ring = \<lparr>gb_head = 4087, gb_tail = 1, gb_buf = replicate 4088 65\<rparr>"

lemma sample_serial_ok:
  "serial_inv sample_serial" "fifo_wf (recv_fifo sample_serial)" "fifo_wf (xmit_fifo sample_serial)"
  "xmit_wf sample_serial" "nz (fcr sample_serial AND UART_FCR_FE)"
  by (simp_all add: sample_serial_def serial_bss_def zero_fifo_def serial_inv_def fifo_ok_def
      fifo_wf_def xmit_wf_def)

lemma sample_ring_ok: "ring_ok sample_ring" "unat (gb_tail sample_ring) < 4088"
  by (simp_all add: sample_ring_def ring_ok_def)

definition sample_world :: world where
  "sample_world = boot_world\<lparr>out := [SetIrq TTYS0_IRQ 1]\<rparr>"

lemma sample_line: "line_ok sample_serial sample_world"
  by (simp add: iir_line_def sample_serial_def serial_bss_def sample_world_def boot_world_def irq_level_def)

theorem serial_reception_witness:
  "ok (serial_character_interrupt sample_env 1 sample_ring sample_serial sample_world) (\<lambda>(b', s', w').
     fifo_contents (recv_fifo s') @ gb_pending b' = [65, 65])"
proof -
  have "fifo_contents (recv_fifo sample_serial) @ gb_pending sample_ring = [65, 65]"
    by (simp add: fifo_contents_def sample_serial_def serial_bss_def zero_fifo_def gb_pending_def
        sample_ring_def ring_contents_def upt_rec)
  then show ?thesis
    using serial_reception [OF sample_ring_ok sample_serial_ok(1) sample_line sample_serial_ok(2,5),
        of sample_env 1]
    by (auto elim!: ok_mono)
qed

text \<open>
  C8. However the guest drives the UART after it has been set up (any port accesses, with timer
  interrupts, character interrupts and writes of the console to the shared ring in between): no
  FIFO or ring index is out of range, the assertion on the line speed holds, every reception loop
  ends, and the level of the guest's IRQ line is high exactly when the interrupt identification
  register says that an interrupt is pending.
\<close>

theorem serial_guest_safe:
  assumes "list_all serial_admissible ops" "ring_ok b" "irq_level TTYS0_IRQ (out w) = 0"
  shows "let (f, s, w') = serial_pre_init E serial_bss w
         in ok (run_ops (serial_step E f) ops (b, s, w')) (\<lambda>(b', s', w').
              ring_ok b' \<and> serial_inv s' \<and>
              irq_level TTYS0_IRQ (out w') = (if iir s' AND UART_IIR_NO_INT = 0 then 1 else 0))"
proof -
  have "sdev_inv (b, snd (serial_pre_init E serial_bss w))"
    using assms serial_pre_init_good by simp
  from serial_dev.run_ok [OF this assms(1), of E "fst (serial_pre_init E serial_bss w)"]
  show ?thesis
    by (auto simp: split_beta Let_def sdev_inv_def sgood_def iir_line_def elim!: ok_mono)
qed

theorem serial_guest_safe_witness:
  "let (f, s, w') = serial_pre_init sample_env serial_bss boot_world
   in ok (run_ops (serial_step sample_env f) [SerialOut 0x3fb 1 0x80, SerialOut 0x3f8 1 0xff,
        SerialOut 0x3f9 1 0xff, SerialOut 0x3fb 1 3, SerialOut 0x3fa 1 1, SerialOut 0x3f9 1 7,
        SerialChar, SerialOut 0x3f8 1 65, SerialIn 0x3f8 1, SerialTimer 0xffff] (sample_ring, s, w'))
      (\<lambda>(b', s', w'). ring_ok b' \<and> serial_inv s' \<and>
        irq_level TTYS0_IRQ (out w') = (if iir s' AND UART_IIR_NO_INT = 0 then 1 else 0))"
  by (rule serial_guest_safe) (simp_all add: sample_ring_ok boot_world_def)

theorem serial_transmit_write_witness:
  "ok (serial_write_data sample_env 1 0x41 sample_serial sample_world) (\<lambda>(s', w').
     xmit_wf s' \<and> sent (out w') @ xmit_pending s' = [0x41] \<and> xmit_armed s' w')"
proof -
  have "sent (out sample_world) @ xmit_pending sample_serial = []"
    by (simp add: sample_world_def xmit_pending_def sample_serial_def serial_bss_def zero_fifo_def
        fifo_contents_def)
  moreover have "unat (f_count (xmit_fifo sample_serial)) < 16"
    by (simp add: sample_serial_def serial_bss_def zero_fifo_def)
  ultimately show ?thesis
    using serial_transmit_write [OF sample_serial_ok(4), of sample_env 1 "0x41" sample_world] by simp
qed

text \<open>
  A flush of the transmit FIFO does not cancel the transmit timer that its contents had
  armed, and when that timer expires the code sends a byte of the empty FIFO: a NUL that the guest
  never wrote reaches the console.
\<close>

theorem serial_flush_sends_nul:
  assumes "xmit_wf s" "fcr s = UART_FCR_FE" "sint (tsr_retry s) \<le> 0"
  shows "let (s1, w1) = serial_write_fcr 0x05 s w
         in (\<forall>n. TimerStop n \<in> set (out w1) \<longrightarrow> TimerStop n \<in> set (out w)) \<and>
            ok (serial_timer_interrupt E f (2 ^ TIMER_TRANSMIT_TIMER) b s1 w1) (\<lambda>(b', s2, w2).
              sent (out w2) = sent (out w) @ [0])"
proof -
  let ?p = "serial_write_fcr 0x05 s w"
  have "fcr s AND 1 \<noteq> 0" using assms(2) by simp
  then have eq: "?p = serial_update_irq ((fifo_clear XMIT_FIFO s)\<lparr>iir := iir (fifo_clear XMIT_FIFO s) OR 0xC0,
      recv_fifo := (recv_fifo (fifo_clear XMIT_FIFO s))\<lparr>f_itl := 1\<rparr>, fcr := 1\<rparr>) w"
    using assms(2) by (simp add: serial_write_fcr_def Let_def)
  have "xmit_wf (fst ?p)" "xmit_pending (fst ?p) = []" "sent (out (snd ?p)) = sent (out w)"
    using assms by (simp_all add: eq) 
     (simp_all add: xmit_wf_def fifo_clear_def set_fifo_def the_fifo_def fifo_wf_def fifo_ok_def xmit_pending_def serial_inv_def
       fifo_contents_def)
  then have "ok (serial_timer_interrupt E f (2 ^ TIMER_TRANSMIT_TIMER) b (fst ?p) (snd ?p))
     (\<lambda>(b', s2, w2). sent (out w2) = sent (out w) @ [0])"
    using serial_spurious_nul [of "fst ?p" E f b "snd ?p"] by simp
  moreover have "TimerStop n \<in> set (out (snd ?p)) \<Longrightarrow> TimerStop n \<in> set (out w)" for n
    by (simp add: eq serial_update_irq_def Let_def split: if_splits)
  ultimately show ?thesis by (simp add: split_beta Let_def)
qed

lemma and_ff00: "(x :: u16) AND 0xff00 = push_bit 8 (drop_bit 8 x)"
proof -
  have m: "(0xff00 :: u16) = push_bit 8 (mask 8)" by (simp add: mask_numeral)
  show ?thesis unfolding m by (rule bit_word_eqI) (auto simp: bit_simps)
qed

lemma bit_byte: "unat (v :: u32) < 256 \<Longrightarrow> bit v n \<Longrightarrow> n < 8"
proof -
  assume "unat v < 256" "bit v n"
  then have "take_bit 8 v = v" unfolding take_bit_eq_self_iff_unat by simp
  with \<open>bit v n\<close> have "bit (take_bit 8 v) n" by metis
  then show "n < 8" by (simp only: bit_take_bit_iff)
qed

lemma divider_bytes:
  fixes lo hi :: u32 and d :: u16
  assumes "unat lo < 256" "unat hi < 256"
  defines "e \<equiv> ucast (ucast (ucast (ucast (d AND 0xff00) OR lo) AND (0x00ff :: u16)) OR push_bit 8 hi) :: u16"
  shows "ucast (e AND 0xff) = lo" "ucast (drop_bit 8 e AND 0xff) = hi"
proof -
  show "ucast (e AND 0xff) = lo"
    unfolding e_def and_ff and_ff00
    by (rule bit_word_eqI) (auto simp: bit_simps dest: bit_byte [OF assms(1)])
  show "ucast (drop_bit 8 e AND 0xff) = hi"
    unfolding e_def and_ff and_ff00
    by (rule bit_word_eqI) (auto simp: bit_simps dest: bit_byte [OF assms(2)])
qed

lemma serial_update_parameters_fields:
  assumes "serial_inv s"
  shows "ok (serial_update_parameters s) (\<lambda>t. serial_inv t \<and> lcr t = lcr s \<and> divider t = divider s)"
  using assms speed_pos [of "divider s"]
  by (simp add: serial_update_parameters_def Let_def) (simp add: serial_inv_def)

text \<open>
  With the divisor latch selected, the two bytes written to the divisor are the ones read
  back, and setting the line parameters from any divisor neither divides by zero nor fails its
  assertion.
\<close>

theorem serial_divisor_roundtrip:
  assumes "serial_inv s" "nz (lcr s AND UART_LCR_DLAB)" "unat lo < 256" "unat hi < 256"
  shows "ok (serial_ioport_write E f 0x3f8 lo s w) (\<lambda>(s, w).
         ok (serial_ioport_write E f 0x3f9 hi s w) (\<lambda>(s, w).
           serial_ioport_read E f 0x3f8 s w = Inr (lo, s, w) \<and>
           serial_ioport_read E f 0x3f9 s w = Inr (hi, s, w)))"
proof -
  show ?thesis
    using assms divider_bytes [OF assms(3,4), of "divider s"]
    by (auto simp: serial_ioport_write_def serial_write_data_def serial_write_ier_def
       serial_ioport_read_def serial_read_data_def intro!: ok_mono [OF serial_update_parameters_fields])
qed

theorem serial_divisor_roundtrip_witness:
  "ok (serial_ioport_write sample_env 1 0x3f8 0x0c (sample_serial\<lparr>lcr := 0x83\<rparr>) sample_world) (\<lambda>(s, w).
   ok (serial_ioport_write sample_env 1 0x3f9 0x01 s w) (\<lambda>(s, w).
     serial_ioport_read sample_env 1 0x3f8 s w = Inr (0x0c, s, w) \<and>
     serial_ioport_read sample_env 1 0x3f9 s w = Inr (0x01, s, w)))"
  by (rule serial_divisor_roundtrip) (simp_all add: sample_serial_ok)

definition sample_queued :: SerialState where
  "sample_queued = sample_serial\<lparr>xmit_fifo := fifo_push 0x42 (fifo_push 0x41 zero_fifo), lsr := 0\<rparr>"

lemma sample_queued_ok:
  "xmit_wf sample_queued" "xmit_pending sample_queued = [0x41, 0x42]" "fcr sample_queued = 1"
  "sint (tsr_retry sample_queued) \<le> 0"
proof -
  have z: "fifo_wf zero_fifo" "fifo_contents zero_fifo = []" "unat (f_count zero_fifo) = 0"
    by (simp_all add: fifo_wf_def fifo_ok_def zero_fifo_def fifo_contents_def)
  note p1 = fifo_contents_push [OF z(1), of "0x41"]
  have l: "unat (f_count (fifo_push 0x41 zero_fifo)) = 1"
    using p1 z by (metis length_fifo_contents length_append_singleton list.size(3) One_nat_def zero_less_numeral)
  have p2: "fifo_wf (fifo_push 0x42 (fifo_push 0x41 zero_fifo))"
    "fifo_contents (fifo_push 0x42 (fifo_push 0x41 zero_fifo)) = [0x41, 0x42]"
    using fifo_contents_push [of "fifo_push 0x41 zero_fifo" "0x42"] p1 z l by simp_all
  then show "xmit_wf sample_queued" "xmit_pending sample_queued = [0x41, 0x42]"
    by (simp_all add: sample_queued_def sample_serial_def serial_bss_def xmit_wf_def xmit_pending_def
        serial_inv_def fifo_wf_ok) (simp_all add: zero_fifo_def fifo_ok_def)
  show "fcr sample_queued = 1" "sint (tsr_retry sample_queued) \<le> 0"
    by (simp_all add: sample_queued_def sample_serial_def serial_bss_def)
qed

theorem serial_transmit_timer_witness:
  "ok (serial_timer_interrupt sample_env 1 (2 ^ TIMER_TRANSMIT_TIMER) sample_ring sample_queued boot_world)
     (\<lambda>(b', s', w'). xmit_wf s' \<and> sent (out w') = [0x41] \<and> xmit_pending s' = [0x42])"
  using serial_transmit_timer [OF sample_queued_ok(1,2), of sample_env 1 sample_ring boot_world]
  by (auto elim!: ok_mono simp: boot_world_def)

theorem serial_flush_sends_nul_witness:
  "let (s1, w1) = serial_write_fcr 0x05 sample_queued boot_world
   in ok (serial_timer_interrupt sample_env 1 (2 ^ TIMER_TRANSMIT_TIMER) sample_ring s1 w1)
        (\<lambda>(b', s2, w2). sent (out w2) = [0])"
  using serial_flush_sends_nul [OF sample_queued_ok(1,3,4), of boot_world sample_env 1 sample_ring]
  by (auto simp: boot_world_def)

theorem serial_fifo_in_order_witness:
  "ok (put_all (fifo_put RECV_FIFO) [1, 2, 3] sample_serial) (\<lambda>t.
     ok (get_all (fifo_get RECV_FIFO) (length [1, 2, 3 :: u8]) t) (\<lambda>(ds, u). ds = [1, 2, 3]))"
proof -
  have le: "length [1, 2, 3 :: u8] \<le> 16" by simp
  have "f_count (the_fifo RECV_FIFO sample_serial) = 0" "fifo_wf (the_fifo RECV_FIFO sample_serial)"
    using sample_serial_ok(2)
    by (simp_all add: the_fifo_def sample_serial_def serial_bss_def zero_fifo_def)
  from serial_fifo_in_order [OF this(2,1), of "[1, 2, 3]", OF le] show ?thesis
    by (rule ok_mono) (erule ok_mono, auto)
qed

end
