(* ===== verification/Serial_Input.thy ===== *)
theory Serial_Input
  imports Serial
begin

text \<open>
  Console input from end to end: bytes that the console component writes to the shared ring travel
  through the reception loop of \<^verbatim>\<open>components/Init/src/serial.c\<close> and the receive FIFO to the
  guest, which reads the data register when the line status register says that data is ready.  The
  guest uses the UART as it likes as long as it leaves the FIFO mode, the divisor latch and the
  loopback bit alone.
\<close>

section \<open>What keeps the receiver as it is\<close>

definition receiving :: "SerialState \<Rightarrow> bool" where
  "receiving s \<longleftrightarrow> fifo_wf (recv_fifo s) \<and> nz (fcr s AND UART_FCR_FE) \<and> lcr s AND UART_LCR_DLAB = 0 \<and>
     mcr s AND UART_MCR_LOOP = 0 \<and> lsr s AND UART_LSR_OE = 0 \<and> data_ready_exact s"

definition rx :: "u8 list \<Rightarrow> SerialState \<Rightarrow> bool" where
  "rx xs s \<longleftrightarrow> receiving s \<and> fifo_contents (recv_fifo s) = xs"

lemmas rx_defs = rx_def receiving_def data_ready_exact_def

lemma rx_update_irq [simp]: "rx xs (fst (serial_update_irq s w)) = rx xs s"
  by (simp add: rx_defs)

lemma rx_irrelevant [simp]:
  "rx xs (s\<lparr>thr := a\<rparr>) = rx xs s" "rx xs (s\<lparr>tsr := a\<rparr>) = rx xs s" "rx xs (s\<lparr>ier := a\<rparr>) = rx xs s"
  "rx xs (s\<lparr>iir := a\<rparr>) = rx xs s" "rx xs (s\<lparr>msr := a\<rparr>) = rx xs s" "rx xs (s\<lparr>scr := a\<rparr>) = rx xs s"
  "rx xs (s\<lparr>thr_ipending := i\<rparr>) = rx xs s" "rx xs (s\<lparr>last_break_enable := i\<rparr>) = rx xs s"
  "rx xs (s\<lparr>tsr_retry := i\<rparr>) = rx xs s" "rx xs (s\<lparr>last_xmit_ts := u\<rparr>) = rx xs s"
  "rx xs (s\<lparr>xmit_fifo := q\<rparr>) = rx xs s" "rx xs (s\<lparr>timeout_ipending := i\<rparr>) = rx xs s"
  "rx xs (s\<lparr>char_transmit_time := u\<rparr>) = rx xs s" "rx xs (s\<lparr>poll_msl := i\<rparr>) = rx xs s"
  "rx xs (s\<lparr>chars_sent := i\<rparr>) = rx xs s"
  by (simp_all add: rx_defs)

text \<open>The bits of the line status register that belong to the transmitter and to break conditions.\<close>

lemma rx_lsr:
  assumes "v AND 3 = lsr s AND 3"
  shows "rx xs (s\<lparr>lsr := v\<rparr>) = rx xs s"
proof -
  have "v AND m = lsr s AND m" if "3 AND m = m" for m
    using arg_cong [OF assms, of "\<lambda>x. x AND m"] by (simp add: and.assoc that)
  from this [of UART_LSR_DR] this [of UART_LSR_OE] show ?thesis by (simp add: rx_defs)
qed

lemma rx_lsr_transmitter [simp]:
  "rx xs (s\<lparr>lsr := lsr s OR UART_LSR_THRE\<rparr>) = rx xs s" "rx xs (s\<lparr>lsr := lsr s OR UART_LSR_TEMT\<rparr>) = rx xs s"
  "rx xs (s\<lparr>lsr := lsr s AND NOT UART_LSR_THRE\<rparr>) = rx xs s" "rx xs (s\<lparr>lsr := lsr s AND NOT UART_LSR_TEMT\<rparr>) = rx xs s"
  by (simp_all add: rx_lsr word_ao_dist and.assoc)

lemma rx_update_msl [simp]: "rx xs (fst (serial_update_msl s w)) = rx xs s"
  by (simp add: serial_update_msl_def Let_def)

lemma rx_fifo_timeout [simp]: "rx xs s \<Longrightarrow> rx xs (fst (fifo_timeout_int s w))"
  by (simp add: fifo_timeout_int_def)

lemma rx_xmit_end: "rx xs s \<Longrightarrow> rx xs (fst (serial_xmit_end E f s w))"
  by (simp add: serial_xmit_end_def Let_def split_beta rx_lsr word_ao_dist)

lemma ok_rx_xmit_fetch: "serial_inv s \<Longrightarrow> rx xs s \<Longrightarrow> ok (serial_xmit_fetch s) (rx xs)"
  using serial_inv_fifos [of s XMIT_FIFO]
  by (simp add: serial_xmit_fetch_def fifo_get_eq Let_def set_fifo_def the_fifo_def rx_lsr word_ao_dist)

lemma ok_rx_xmit: 
  assumes "serial_inv s" "rx xs s"
  shows "ok (serial_xmit E f s w) (\<lambda>p. rx xs (fst p))"
  unfolding serial_xmit_def Let_def case_prod_beta ok_rbind
proof (rule ok_mono [OF ok_rx_xmit_fetch [OF assms]])
  fix t assume t: "rx xs t"
  then have "mcr t AND UART_MCR_LOOP = 0" by (simp add: rx_defs)
  then show "ok (serial_xmit_send E f (fst (current_time_ns E f w)) t (snd (current_time_ns E f w))) (\<lambda>p. rx xs (fst p))"
    using t by (simp add: serial_xmit_send_def rx_xmit_end)
qed

section \<open>Port accesses\<close>

text \<open>The guest leaves the receiver's mode alone.\<close>

fun input_op :: "serial_op \<Rightarrow> bool" where
  "input_op (SerialOut p n v) \<longleftrightarrow> n \<noteq> 1 \<or>
     (if p AND 7 = 2 then v AND 3 = 1 else if p AND 7 = 3 then v AND 0x80 = 0 else p AND 7 = 4 \<longrightarrow> v AND 0x10 = 0)"
| "input_op (ConsoleWrite b) \<longleftrightarrow> False"
| "input_op _ \<longleftrightarrow> True"

lemma fcr_kept:
  assumes "v AND 3 = (1 :: u32)" "nz (x AND (1 :: u8))"
  shows "(v AND 0xFF) AND 2 = 0" "(v AND 0xFF) AND 1 = 1" "((v AND 0xFF) XOR ucast x) AND 1 = 0"
    "nz (ucast ((v AND 0xFF) AND 0xC9) AND (1 :: u8))"
proof -
  have m: "v AND m = 1 AND m" if "3 AND m = m" for m
    using arg_cong [OF assms(1), of "\<lambda>x. x AND m"] by (simp add: and.assoc that)
  show "(v AND 0xFF) AND 2 = 0" using m [of 2] by (simp add: and.assoc)
  show 1: "(v AND 0xFF) AND 1 = 1" using m [of 1] by (simp add: and.assoc)
  have b: "bit v 0" "bit x 0" using m [of 1] assms(2) by (auto simp: and_one_eq odd_iff_mod_2_eq_one bit_0 split: if_splits)
  then show "((v AND 0xFF) XOR ucast x) AND 1 = 0" by (intro bit_word_eqI) (auto simp: bit_simps)
  have "bit (ucast ((v AND 0xFF) AND 0xC9) AND (1 :: u8)) 0" using b by (simp add: bit_simps)
  then show "nz (ucast ((v AND 0xFF) AND 0xC9) AND (1 :: u8))" by auto
qed

lemma fifo_itl [simp]: "fifo_wf (q\<lparr>f_itl := i\<rparr>) = fifo_wf q" "fifo_contents (q\<lparr>f_itl := i\<rparr>) = fifo_contents q"
  by (simp_all add: fifo_wf_def fifo_ok_def fifo_contents_def)

lemma rx_recv_fifo:
  "fifo_wf q = fifo_wf (recv_fifo s) \<Longrightarrow> fifo_contents q = fifo_contents (recv_fifo s) \<Longrightarrow>
   rx xs (s\<lparr>recv_fifo := q\<rparr>) = rx xs s"
  by (simp add: rx_defs)

lemma rx_fcr: "nz (x AND UART_FCR_FE) \<Longrightarrow> nz (fcr s AND UART_FCR_FE) \<Longrightarrow> rx xs (s\<lparr>fcr := x\<rparr>) = rx xs s"
  by (simp add: rx_defs)

lemma rx_write_fcr:
  assumes "v AND 3 = 1" "rx xs s"
  shows "rx xs (fst (serial_write_fcr v s w))"
proof -
  have x: "nz (fcr s AND 1)" using assms(2) by (simp add: rx_defs)
  note k = fcr_kept [OF assms(1) x]
  have "fcr (fifo_clear XMIT_FIFO s) = fcr s" "rx xs (fifo_clear XMIT_FIFO s)"
    using assms(2) by (simp_all add: fifo_clear_def set_fifo_def)
  then show ?thesis
    using assms(2) x k by (simp add: serial_write_fcr_def Let_def split_beta rx_fcr rx_recv_fifo)
qed

lemma ok_rx_write_data:
  assumes "serial_inv s" "rx xs s"
  shows "ok (serial_write_data E f v s w) (\<lambda>p. rx xs (fst p))"
proof -
  have d: "lcr s AND UART_LCR_DLAB = 0" "nz (fcr s AND UART_FCR_FE)" using assms(2) by (simp_all add: rx_defs)
  have "ok (fifo_put XMIT_FIFO (ucast v) (s\<lparr>thr := ucast v\<rparr>)) (\<lambda>t. serial_inv t \<and> rx xs t)"
    using assms serial_inv_fifos [OF assms(1), of XMIT_FIFO]
    by (simp add: fifo_put_eq the_fifo_def set_fifo_def) (simp add: serial_inv_def fifo_ok_push)
  then obtain t where t: "fifo_put XMIT_FIFO (ucast v) (s\<lparr>thr := ucast v\<rparr>) = Inr t" "serial_inv t" "rx xs t"
    by (auto simp: ok_iff_ex)
  define u where "u = serial_update_irq (t\<lparr>thr_ipending := 0, lsr := (lsr t AND NOT UART_LSR_TEMT) AND NOT UART_LSR_THRE\<rparr>) w"
  have "serial_inv (fst u)" "rx xs (fst u)"
    using t(2,3) by (simp_all add: u_def rx_lsr and.assoc)
  then have "ok (serial_xmit E f (fst u) (snd u)) (\<lambda>p. rx xs (fst p))" by (rule ok_rx_xmit)
  then show ?thesis
    using d t(1) by (simp add: serial_write_data_def Let_def split_beta u_def)
qed

lemma ok_rx_write_ier: "rx xs s \<Longrightarrow> ok (serial_write_ier v s w) (\<lambda>p. rx xs (fst p))"
  by (auto simp: serial_write_ier_def Let_def split_beta) (simp_all add: rx_defs)

lemma ok_rx_write_lcr:
  assumes "serial_inv s" "rx xs s" "v AND 0x80 = 0"
  shows "ok (serial_write_lcr v s) (rx xs)"
proof -
  have "(ucast v :: u8) AND UART_LCR_DLAB = ucast (v AND 0x80)" by (intro bit_word_eqI) (auto simp: bit_simps)
  then have r: "rx xs (s\<lparr>lcr := ucast v\<rparr>)" using assms(2,3) by (simp add: rx_defs)
  have "serial_inv (s\<lparr>lcr := ucast v\<rparr>)" using assms(1) by simp
  with r show ?thesis
    using speed_pos [of "divider s"]
    by (auto simp: serial_write_lcr_def serial_update_parameters_def Let_def rassert_def serial_inv_def)
qed

lemma ok_rx_ioport_write:
  assumes "serial_inv s" "rx xs s" "input_op (SerialOut p 1 v)"
  shows "ok (serial_ioport_write E f p v s w) (\<lambda>p. rx xs (fst p))"
proof -
  have m: "(ucast (v AND 0x1f) :: u8) AND UART_MCR_LOOP = ucast (v AND 0x10)" by (simp add: unsigned_and_eq and.assoc)
  have "rx xs (s\<lparr>mcr := ucast (v AND 0x1f)\<rparr>)" if "v AND 0x10 = 0"
    using assms(2) that m by (simp add: rx_defs)
  then show ?thesis
    using assms by (auto simp: serial_ioport_write_def Let_def rx_write_fcr ok_rx_write_ier ok_rx_write_data
        intro!: ok_mono [OF ok_rx_write_lcr])
qed

lemma and7_cases:
  fixes p :: u32
  shows "p AND 7 = 0 \<or> p AND 7 = 1 \<or> p AND 7 = 2 \<or> p AND 7 = 3 \<or> p AND 7 = 4 \<or> p AND 7 = 5 \<or> p AND 7 = 6 \<or> p AND 7 = 7"
proof -
  have "p AND 7 = take_bit 3 p" by (simp add: take_bit_eq_mask mask_eq_exp_minus_1)
  then have "unat (p AND 7) < 8" by (simp add: take_bit_eq_mod unat_mod)
  moreover define n where "n = unat (p AND 7)"
  ultimately have "n = 0 \<or> n = 1 \<or> n = 2 \<or> n = 3 \<or> n = 4 \<or> n = 5 \<or> n = 6 \<or> n = 7" by arith
  moreover have "p AND 7 = word_of_nat n" by (simp add: n_def)
  ultimately show ?thesis by (elim disjE) simp_all
qed

text \<open>A read of the data register takes the first byte; every other read leaves the receiver alone.\<close>

lemma ok_rx_read_data:
  assumes "serial_inv s" "rx xs s"
  shows "ok (serial_read_data E f s w) (\<lambda>(r, p). rx (tl xs) (fst p) \<and> (xs \<noteq> [] \<longrightarrow> r = ucast (hd xs)))"
proof -
  have r: "fifo_wf (recv_fifo s)" "nz (fcr s AND UART_FCR_FE)" "lcr s AND UART_LCR_DLAB = 0" "fifo_contents (recv_fifo s) = xs"
    using assms(2) by (simp_all add: rx_defs)
  have n: "NOT (UART_LSR_DR OR UART_LSR_BI) AND UART_LSR_DR = (0 :: u8)" "NOT (UART_LSR_DR OR UART_LSR_BI) AND UART_LSR_OE = (2 :: u8)"
    by simp_all
  show ?thesis
  proof (cases "f_count (recv_fifo s) = 0")
    case True
    then have "xs = []" using r(4) fifo_contents_empty(1) by simp
    then show ?thesis
      using True r assms(2)
      by (simp add: serial_read_data_def fifo_get_eq fifo_wf_ok the_fifo_def Let_def split_beta)
        (simp add: rx_defs and.assoc)
  next
    case False
    let ?q = "fifo_pop (recv_fifo s)"
    have q: "fifo_wf ?q" "xs = f_data (recv_fifo s) ! unat (f_tail (recv_fifo s)) # fifo_contents ?q"
      using fifo_contents_pop [OF r(1) False] r(4) by simp_all
    have "rx (tl xs) (s\<lparr>recv_fifo := ?q, lsr := if f_count ?q = 0 then lsr s AND NOT (UART_LSR_DR OR UART_LSR_BI) else lsr s\<rparr>)"
      using assms(2) q fifo_contents_Nil [of ?q] by (auto simp: rx_defs and.assoc)
    then show ?thesis
      using False q(2) r
      by (cases "f_count ?q = 0")
        (simp_all add: serial_read_data_def fifo_get_eq fifo_wf_ok the_fifo_def set_fifo_def Let_def split_beta)
  qed
qed

lemma rx_read_lsr: "rx xs s \<Longrightarrow> rx xs (fst (snd (serial_read_lsr s w)))"
  by (auto simp: serial_read_lsr_def Let_def rx_defs and.assoc)

lemma rx_read_others:
  "rx xs s \<Longrightarrow> rx xs (fst (snd (serial_read_iir s w)))" "rx xs s \<Longrightarrow> rx xs (fst (snd (serial_read_msr s w)))"
  by (auto simp: serial_read_iir_def serial_read_msr_def Let_def split_beta)

lemma ok_rx_ioport_read:
  assumes "serial_inv s" "rx xs s"
  shows "ok (serial_ioport_read E f p s w) (\<lambda>(r, q). if p AND 7 = 0 then rx (tl xs) (fst q) \<and> (xs \<noteq> [] \<longrightarrow> r = ucast (hd xs))
    else rx xs (fst q))"
proof -
  have "p AND 7 = 0 \<or> p AND 7 = 1 \<or> p AND 7 = 2 \<or> p AND 7 = 3 \<or> p AND 7 = 4 \<or> p AND 7 = 5 \<or> p AND 7 = 6 \<or> p AND 7 = 7"
    by (rule and7_cases)
  then show ?thesis
    using assms ok_rx_read_data [OF assms]
    by (auto simp: serial_ioport_read_def Let_def rx_read_lsr rx_read_others split_beta elim!: ok_mono)
qed

section \<open>Sessions\<close>

text \<open>
  The console component puts a byte into the ring when there is room and drops it otherwise; the
  bytes that it put there and the bytes that the guest took are recorded.
\<close>

definition gb_put :: "u8 \<Rightarrow> getchar_buffer \<Rightarrow> getchar_buffer" where
  "gb_put c b = b\<lparr>gb_buf := (gb_buf b)[unat (gb_tail b) := c], gb_tail := (gb_tail b + 1) mod 4088\<rparr>"

datatype input_event = Typed u8 | Guest serial_op

record input_session =
  is_ring :: getchar_buffer
  is_uart :: SerialState
  is_world :: world
  is_typed :: "u8 list"
  is_read :: "u8 list"

definition takes_byte :: "u32 \<Rightarrow> u32 \<Rightarrow> SerialState \<Rightarrow> bool" where
  "takes_byte p n s \<longleftrightarrow> n = 1 \<and> p AND 7 = 0 \<and> nz (lsr s AND UART_LSR_DR)"

fun input_step :: "env \<Rightarrow> u64 \<Rightarrow> input_event \<Rightarrow> input_session \<Rightarrow> input_session res" where
  "input_step E f (Typed c) x =
     Inr (if Suc (length (gb_pending (is_ring x))) < 4088
          then x\<lparr>is_ring := gb_put c (is_ring x), is_typed := is_typed x @ [c]\<rparr> else x)"
| "input_step E f (Guest (SerialIn p n)) x =
     rbind (serial_port_in E f p n (is_uart x) (is_world x)) (\<lambda>(_, r, s, w).
       Inr (x\<lparr>is_uart := s, is_world := w,
         is_read := is_read x @ (if takes_byte p n (is_uart x) then [ucast (the r)] else [])\<rparr>))"
| "input_step E f (Guest op) x =
     rbind (serial_step E f op (is_ring x, is_uart x, is_world x)) (\<lambda>(b, s, w).
       Inr (x\<lparr>is_ring := b, is_uart := s, is_world := w\<rparr>))"

fun input_admissible :: "input_event \<Rightarrow> bool" where
  "input_admissible (Typed c) \<longleftrightarrow> True"
| "input_admissible (Guest op) \<longleftrightarrow> input_op op"

definition input_inv :: "input_session \<Rightarrow> bool" where
  "input_inv x \<longleftrightarrow> ring_ok (is_ring x) \<and> unat (gb_tail (is_ring x)) < 4088 \<and> serial_inv (is_uart x) \<and>
     line_ok (is_uart x) (is_world x) \<and> receiving (is_uart x) \<and>
     is_typed x = is_read x @ fifo_contents (recv_fifo (is_uart x)) @ gb_pending (is_ring x)"

lemma gb_put_pending:
  assumes "ring_ok b" "unat (gb_tail b) < 4088" "Suc (length (gb_pending b)) < 4088"
  shows "ring_ok (gb_put c b)" "unat (gb_tail (gb_put c b)) < 4088" "gb_pending (gb_put c b) = gb_pending b @ [c]"
proof -
  let ?h = "unat (gb_head b)" and ?t = "unat (gb_tail b)"
  define n where "n = (?t + 4088 - ?h) mod 4088"
  have b: "length (gb_buf b) = 4088" "?h < 4088" using assms(1) by (simp_all add: ring_ok_def)
  have n: "Suc n < 4088" using assms(3) by (simp add: gb_pending_def n_def)
  have t: "?t = (?h + n) mod 4088" using assms(2) b(2) by (simp add: n_def mod_add_right_eq)
  have "unat (gb_tail b + 1) = ?t + 1" using assms(2) by (simp add: unat_word_ariths)
  then have t': "unat ((gb_tail b + 1) mod 4088) = (?t + 1) mod 4088" by (simp add: unat_mod)
  have e: "((?t + 1) mod 4088 + 4088 - ?h) mod 4088 = Suc n"
  proof -
    have "((?t + 1) mod 4088 + 4088 - ?h) mod 4088 = ((?t + 1) mod 4088 + (4088 - ?h)) mod 4088" using b(2) by simp
    also have "\<dots> = (?t + 1 + (4088 - ?h)) mod 4088" by (rule mod_add_left_eq)
    also have "\<dots> = Suc (?t + 4088 - ?h) mod 4088" using b(2) by simp
    also have "\<dots> = Suc n mod 4088" unfolding n_def by (rule mod_Suc_eq [symmetric])
    finally show ?thesis using n by simp
  qed
  show "ring_ok (gb_put c b)" using b by (simp add: ring_ok_def gb_put_def)
  have put: "gb_buf (gb_put c b) = (gb_buf b)[?t := c]" "gb_head (gb_put c b) = gb_head b"
    "unat (gb_tail (gb_put c b)) = (?t + 1) mod 4088"
    unfolding gb_put_def using t' by simp_all
  then show "unat (gb_tail (gb_put c b)) < 4088" by simp
  have "gb_pending (gb_put c b) = ring_contents ((gb_buf b)[?t := c]) ?h (Suc n)"
    unfolding gb_pending_def put e ..
  also have "\<dots> = ring_contents (gb_buf b) ?h n @ [c]"
    using ring_contents_push [of n "gb_buf b" ?h c] n b(1) t by simp
  finally show "gb_pending (gb_put c b) = gb_pending b @ [c]" by (simp add: gb_pending_def n_def)
qed

definition moved :: "getchar_buffer \<Rightarrow> u8 list \<Rightarrow> getchar_buffer \<times> SerialState \<times> world \<Rightarrow> bool" where
  "moved b xs p \<longleftrightarrow> (case p of (b', s', w') \<Rightarrow> receiving s' \<and> unat (gb_tail b') < 4088 \<and>
     fifo_contents (recv_fifo s') @ gb_pending b' = xs @ gb_pending b)"

lemma moved_stay: "rx xs s \<Longrightarrow> unat (gb_tail b) < 4088 \<Longrightarrow> moved b xs (b, s, w)"
  by (simp add: moved_def rx_def)

lemma ok_rx_character_interrupt:
  assumes "ring_ok b" "unat (gb_tail b) < 4088" "serial_inv s" "line_ok s w" "rx xs s"
  shows "ok (serial_character_interrupt E f b s w) (moved b xs)"
proof -
  have r: "fifo_wf (recv_fifo s)" "nz (fcr s AND 1)" using assms(5) by (simp_all add: rx_defs)
  show ?thesis
    unfolding serial_character_interrupt_def ok_rbind
    by (rule ok_mono [OF serial_receive_loop_queue [OF assms(1-4) r]])
      (use assms(2,5) in \<open>auto simp: loop_frame_def moved_def rx_def receiving_def\<close>)
qed

lemma ok_rx_timer_interrupt:
  assumes "ring_ok b" "unat (gb_tail b) < 4088" "serial_inv s" "line_ok s w" "rx xs s"
  shows "ok (serial_timer_interrupt E f completed b s w) (moved b xs)"
proof (rule serial_timer_interrupt_rule [OF assms(3,4), where P = "rx xs"])
  show "ok (serial_xmit E f (s\<lparr>chars_sent := 0\<rparr>) w) (\<lambda>p. rx xs (fst p))" if "serial_inv s" "rx xs s" for s w
    using that by (intro ok_rx_xmit serial_inv_bump(3)) simp_all
  show "ok (serial_character_interrupt E f b s w) (moved b xs)" if "serial_inv s" "line_ok s w" "rx xs s" for s w
    by (rule ok_rx_character_interrupt [OF assms(1,2) that])
qed (use assms(2,5) in \<open>simp_all add: moved_stay\<close>)

lemma ok_rx_step:
  assumes "ring_ok b" "unat (gb_tail b) < 4088" "serial_inv s" "line_ok s w" "rx xs s" "input_op op"
    and "\<And>p n. op \<noteq> SerialIn p n"
  shows "ok (serial_step E f op (b, s, w)) (moved b xs)"
proof (cases op)
  case (SerialOut p n v)
  then show ?thesis
    using assms by (auto simp: serial_port_out_def split_beta moved_stay intro!: ok_mono [OF ok_rx_ioport_write])
qed (use assms in \<open>auto intro: ok_rx_character_interrupt ok_rx_timer_interrupt\<close>)

lemma byte_there_and_back: "ucast (ucast c :: u32) = (c :: u8)"
  by (rule bit_word_eqI) (auto simp: bit_simps)

lemma input_step_inv:
  assumes "input_inv x" "input_admissible e"
  shows "ok (input_step E f e x) input_inv"
proof -
  let ?b = "is_ring x" and ?s = "is_uart x" and ?w = "is_world x"
  define xs where "xs = fifo_contents (recv_fifo ?s)"
  have i: "ring_ok ?b" "unat (gb_tail ?b) < 4088" "serial_inv ?s" "line_ok ?s ?w" "rx xs ?s"
      "is_typed x = is_read x @ xs @ gb_pending ?b"
    using assms(1) by (auto simp: input_inv_def rx_def xs_def)
  have sd: "ok (serial_step E f op (?b, ?s, ?w)) sdev_inv" if "input_op op" for op
    using that i by (intro serial_step_ok) (cases op; simp add: sgood_def)+
  consider c where "e = Typed c" | p n where "e = Guest (SerialIn p n)"
    | op where "e = Guest op" "\<And>p n. op \<noteq> SerialIn p n" by (cases e) auto
  then show ?thesis
  proof cases
    case 1
    then show ?thesis using assms(1) gb_put_pending [OF i(1,2)] by (auto simp: input_inv_def)
  next
    case (2 p n)
    have dr: "takes_byte p n ?s \<longleftrightarrow> n = 1 \<and> p AND 7 = 0 \<and> xs \<noteq> []"
      using i(5) by (simp add: takes_byte_def rx_defs)
    show ?thesis
    proof (cases "n = 1")
      case True
      then show ?thesis
        using sd [of "SerialIn p n"] ok_rx_ioport_read [OF i(3,5), of E f p ?w] i 2 dr
        by (cases xs) (auto simp: serial_port_in_def ok_iff_ex input_inv_def rx_def byte_there_and_back split: if_splits)
    next
      case False
      then show ?thesis using assms(1) 2 dr by (simp add: serial_port_in_def input_inv_def)
    qed
  next
    case (3 op)
    then have "input_step E f e x = rbind (serial_step E f op (?b, ?s, ?w)) (\<lambda>(b, s, w).
       Inr (x\<lparr>is_ring := b, is_uart := s, is_world := w\<rparr>))" by (cases op) auto
    then show ?thesis
      using sd [of op] ok_rx_step [OF i(1-5), of op E f] 3 assms(2) i(6)
      by (auto simp: ok_iff_ex input_inv_def moved_def)
  qed
qed

interpretation input_link: safe_device "input_step E f" input_inv input_admissible for E f
  by unfold_locales (rule input_step_inv)

section \<open>From the set-up on\<close>

lemma enable_bits:
  fixes v :: u32
  assumes "nz (v AND 1)"
  defines "u \<equiv> v AND 0xFF"
  shows "nz u" "nz (u AND 1)" "nz (ucast ((u OR 6) AND 0xC9) AND (1 :: u8))"
proof -
  have "bit v 0" using assms(1) by (simp add: bit_0 and_one_eq odd_iff_mod_2_eq_one)
  then have b: "bit u 0" unfolding u_def by (simp only: bit_and_iff) simp
  then show "nz u" by auto
  have "bit (u AND 1) 0" using b by (simp add: bit_simps)
  then show "nz (u AND 1)" by auto
  have "bit (ucast ((u OR 6) AND 0xC9) AND (1 :: u8)) 0" using b by (simp add: bit_simps)
  then show "nz (ucast ((u OR 6) AND 0xC9) AND (1 :: u8))" by auto
qed

definition fresh :: "SerialState \<Rightarrow> bool" where
  "fresh s \<longleftrightarrow> fcr s = 0 \<and> lcr s = 0 \<and> mcr s = UART_MCR_OUT2 \<and> lsr s = UART_LSR_TEMT OR UART_LSR_THRE"

lemma fresh_pre_init: "fresh (fst (snd (serial_pre_init E serial_bss w)))"
proof -
  have "fresh s \<Longrightarrow> fresh (fst (serial_update_msl s w))" for s w
    by (simp add: fresh_def serial_update_msl_def Let_def)
  then show ?thesis
    by (simp add: serial_pre_init_def serial_init_core_def serial_reset_def Let_def split_beta)
      (simp add: fresh_def fifo_clear_def set_fifo_def serial_bss_def)
qed

lemma fresh_enabled:
  assumes "fresh s" "nz (v AND 1)"
  shows "rx [] (fst (serial_write_fcr v s w))"
proof -
  note e = enable_bits [OF assms(2)]
  have o: "(x OR 6) AND 2 = (2 :: u32)" "(x OR 6) AND 1 = x AND (1 :: u32)" for x by (simp_all add: word_ao_dist)
  have "fifo_wf (q\<lparr>f_data := replicate 16 0, f_count := 0, f_head := 0, f_tail := 0, f_itl := i\<rparr>)"
    "fifo_contents (q\<lparr>f_data := replicate 16 0, f_count := 0, f_head := 0, f_tail := 0, f_itl := i\<rparr>) = []" for q i
    by (simp_all add: fifo_wf_def fifo_ok_def fifo_contents_Nil)
  then show ?thesis
    using assms(1) e
    by (simp add: fresh_def serial_write_fcr_def Let_def split_beta o)
      (simp add: rx_defs fifo_clear_def set_fifo_def the_fifo_def)
qed

lemma input_start:
  assumes "ring_ok b" "gb_head b = gb_tail b" "irq_level TTYS0_IRQ (out w) = 0" "nz (v AND UART_FCR_FE)"
    and p: "serial_pre_init E serial_bss w = (f, s, w')"
  shows "ok (serial_port_out E f 0x3fa 1 v s w') (\<lambda>(_, s, w').
    input_inv \<lparr>is_ring = b, is_uart = s, is_world = w', is_typed = [], is_read = []\<rparr>)"
proof -
  have good: "serial_inv s" "line_ok s w'" using serial_pre_init_good [OF assms(3), of E] p by (simp_all add: sgood_def)
  have "fresh s" using fresh_pre_init [of E w] p by simp
  then have r: "rx [] (fst (serial_write_fcr v s w'))" by (rule fresh_enabled [OF _ assms(4)])
  have g: "sgood (serial_write_fcr v s w')" by (rule sgood_write_fcr [OF good])
  have t: "gb_pending b = []" "unat (gb_tail b) < 4088" using assms(1,2) by (simp_all add: gb_pending_def ring_ok_def)
  show ?thesis
    using r g t assms(1)
    by (auto simp: serial_port_out_def serial_ioport_write_def Let_def split_beta input_inv_def rx_def sgood_def)
qed


definition empty_ring :: getchar_buffer where
  "empty_ring = \<lparr>gb_head = 4087, gb_tail = 4087, gb_buf = replicate 4088 0\<rparr>"


end
