(* ===== verification/Serial_Output.thy ===== *)
theory Serial_Output
  imports Serial_Input
begin

text \<open>
  Guest output from end to end: bytes that the guest writes to the data register travel through the
  transmit FIFO and the transmit timer of \<^verbatim>\<open>components/Init/src/serial.c\<close> to the console.  The
  guest's driver follows the protocol of the UART: it writes up to sixteen bytes after it has seen that
  the FIFO is empty.  The transmit timer expires only while it is armed.
\<close>

section \<open>What keeps the transmitter as it is\<close>

definition transmitting :: "SerialState \<Rightarrow> bool" where
  "transmitting s \<longleftrightarrow> fifo_wf (xmit_fifo s) \<and> nz (fcr s AND 1) \<and> mcr s AND 0x10 = 0 \<and> lcr s AND 0x80 = 0 \<and>
     (nz (lsr s AND 0x20) \<longleftrightarrow> f_count (xmit_fifo s) = 0)"

text \<open>World predicates that only output and the transmit timer can change.\<close>

definition quiet :: "(world \<Rightarrow> bool) \<Rightarrow> bool" where
  "quiet Q \<longleftrightarrow> (\<forall>e w. Q w \<longrightarrow> (\<forall>c. e \<noteq> GuestPutchar c) \<longrightarrow> (\<forall>t. e \<noteq> OneshotAbs TIMER_TRANSMIT_TIMER t) \<longrightarrow> Q (emit e w)) \<and>
     (\<forall>w n. Q w \<longrightarrow> Q (w\<lparr>tsc_reads := n\<rparr>))"

definition tx :: "u8 list \<Rightarrow> u8 \<Rightarrow> SerialState \<Rightarrow> bool" where
  "tx ys k s \<longleftrightarrow> transmitting s \<and> xmit_pending s = ys \<and> f_count (xmit_fifo s) \<le> k"

lemmas tx_defs = tx_def transmitting_def xmit_pending_def

definition txw :: "(world \<Rightarrow> bool) \<Rightarrow> u8 list \<Rightarrow> u8 \<Rightarrow> SerialState \<times> world \<Rightarrow> bool" where
  "txw Q ys k p \<longleftrightarrow> quiet Q \<and> tx ys k (fst p) \<and> Q (snd p)"

lemma txw_pair [simp]: "txw Q ys k (s, w) \<longleftrightarrow> quiet Q \<and> tx ys k s \<and> Q w"
  by (simp add: txw_def)

lemma transmitting_wf: "serial_inv s \<Longrightarrow> transmitting s \<Longrightarrow> xmit_wf s"
  by (auto simp: xmit_wf_def transmitting_def)

lemma tx_irrelevant [simp]:
  "tx ys k (s\<lparr>rbr := a\<rparr>) = tx ys k s" "tx ys k (s\<lparr>ier := a\<rparr>) = tx ys k s" "tx ys k (s\<lparr>iir := a\<rparr>) = tx ys k s"
  "tx ys k (s\<lparr>msr := a\<rparr>) = tx ys k s" "tx ys k (s\<lparr>scr := a\<rparr>) = tx ys k s" "tx ys k (s\<lparr>divider := d\<rparr>) = tx ys k s"
  "tx ys k (s\<lparr>thr_ipending := i\<rparr>) = tx ys k s" "tx ys k (s\<lparr>timeout_ipending := i\<rparr>) = tx ys k s"
  "tx ys k (s\<lparr>last_break_enable := i\<rparr>) = tx ys k s" "tx ys k (s\<lparr>last_xmit_ts := u\<rparr>) = tx ys k s"
  "tx ys k (s\<lparr>char_transmit_time := u\<rparr>) = tx ys k s" "tx ys k (s\<lparr>poll_msl := i\<rparr>) = tx ys k s"
  "tx ys k (s\<lparr>recv_fifo := q\<rparr>) = tx ys k s" "tx ys k (s\<lparr>chars_sent := i\<rparr>) = tx ys k s"
  by (simp_all add: tx_defs)

lemma tx_lsr: "v AND 0x20 = lsr s AND 0x20 \<Longrightarrow> tx ys k (s\<lparr>lsr := v\<rparr>) = tx ys k s"
  by (simp add: tx_defs)

lemma tx_lsr_receiver [simp]:
  "tx ys k (s\<lparr>lsr := lsr s OR UART_LSR_OE\<rparr>) = tx ys k s" "tx ys k (s\<lparr>lsr := lsr s OR UART_LSR_DR\<rparr>) = tx ys k s"
  "tx ys k (s\<lparr>lsr := lsr s AND NOT (UART_LSR_DR OR UART_LSR_BI)\<rparr>) = tx ys k s"
  "tx ys k (s\<lparr>lsr := lsr s AND NOT (UART_LSR_BI OR UART_LSR_OE)\<rparr>) = tx ys k s"
  by (simp_all add: tx_lsr word_ao_dist and.assoc)

lemma quietD:
  "quiet Q \<Longrightarrow> Q w \<Longrightarrow> Q (emit (SetIrq n k) w)" "quiet Q \<Longrightarrow> Q w \<Longrightarrow> Q (emit (TimerStop i) w)"
  "quiet Q \<Longrightarrow> Q w \<Longrightarrow> Q (emit (OneshotRel i t) w)" "quiet Q \<Longrightarrow> Q w \<Longrightarrow> i \<noteq> TIMER_TRANSMIT_TIMER \<Longrightarrow> Q (emit (OneshotAbs i t) w)"
  "quiet Q \<Longrightarrow> Q w \<Longrightarrow> Q (snd (current_time_ns E f w))"
  by (auto simp: quiet_def current_time_ns_def)

lemma tx_update_irq [simp]: "tx ys k (fst (serial_update_irq s w)) = tx ys k s"
  by (simp add: tx_defs)

lemma quiet_update_irq: "quiet Q \<Longrightarrow> Q w \<Longrightarrow> Q (snd (serial_update_irq s w))"
  by (simp add: serial_update_irq_def Let_def quietD)

lemma txw_update_irq: "quiet Q \<Longrightarrow> tx ys k s \<Longrightarrow> Q w \<Longrightarrow> txw Q ys k (serial_update_irq s w)"
  by (simp add: txw_def quiet_update_irq)

lemma txw_update_msl: "quiet Q \<Longrightarrow> tx ys k s \<Longrightarrow> Q w \<Longrightarrow> txw Q ys k (serial_update_msl s w)"
  by (simp add: serial_update_msl_def Let_def txw_update_irq)

lemma txw_fifo_timeout: "quiet Q \<Longrightarrow> tx ys k s \<Longrightarrow> Q w \<Longrightarrow> txw Q ys k (fifo_timeout_int s w)"
  by (simp add: fifo_timeout_int_def txw_update_irq)

section \<open>Reception and transmission\<close>

lemma tx_recv_put: "tx ys k s \<Longrightarrow> part (fifo_put RECV_FIFO c s) (tx ys k)"
  by (auto simp: fifo_put_def the_fifo_def set_fifo_def Let_def intro!: part_all)

lemma txw_receive1:
  assumes "quiet Q" "tx ys k s" "Q w"
  shows "part (serial_receive1 E f c s w) (txw Q ys k)"
proof -
  have fe: "nz (fcr s AND UART_FCR_FE)" using assms(2) by (simp add: tx_defs)
  have "txw Q ys k (serial_update_irq (t\<lparr>lsr := lsr t OR UART_LSR_DR\<rparr>)
      (emit (OneshotAbs TIMER_FIFO_TIMEOUT u) (snd (current_time_ns E f w))))" if "tx ys k t" for t u
    by (rule txw_update_irq [OF assms(1)]) (use that assms in \<open>simp_all add: quietD timer_ids\<close>)
  then show ?thesis
    using fe unfolding serial_receive1_def Let_def case_prod_beta
    by (simp del: txw_pair, intro part_mono [OF tx_recv_put [OF assms(2)]]) simp
qed

lemma txw_receive_loop:
  "quiet Q \<Longrightarrow> tx ys k s \<Longrightarrow> Q w \<Longrightarrow> part (serial_receive_loop E f b s w) (\<lambda>p. txw Q ys k (snd p))"
proof (induction E f b s w rule: serial_receive_loop.induct)
  case (1 E f b s w)
  show ?case
  proof (cases "serial_can_receive s = 0")
    case True
    then show ?thesis using 1 by (subst serial_receive_loop.simps) simp
  next
    case False
    show ?thesis
    proof (cases "serial_buffer_dequeue b")
      case (Inl e)
      then show ?thesis using False by (subst serial_receive_loop.simps) simp
    next
      case (Inr qb)
      then obtain q b' where b': "serial_buffer_dequeue b = Inr (q, b')" by (cases qb) simp
      show ?thesis
      proof (cases q)
        case None
        then show ?thesis using False b' 1(2-4) by (subst serial_receive_loop.simps) simp
      next
        case (Some c)
        have "part (serial_receive1 E f c s w) (\<lambda>(t, w'). part (serial_receive_loop E f b' t w') (\<lambda>p. txw Q ys k (snd p)))"
          using txw_receive1 [OF 1(2-4), of E f c] 1(1) [OF False b' refl Some _ refl] 1(2)
          by (cases "serial_receive1 E f c s w") auto
        then show ?thesis using False b' Some by (subst serial_receive_loop.simps) (simp add: case_prod_beta')
      qed
    qed
  qed
qed

lemma txw_character_interrupt:
  assumes "quiet Q" "tx ys k s" "Q w"
  shows "part (serial_character_interrupt E f b s w) (\<lambda>p. txw Q ys k (snd p))"
  unfolding serial_character_interrupt_def part_rbind
  by (rule part_mono [OF txw_receive_loop [where Q = Q, OF assms]]) (use assms(1) in \<open>auto simp: quietD\<close>)

text \<open>
  Sending one byte: the transmit timer is armed exactly when more is pending, and the FIFO does not
  grow.
\<close>

definition sets_timer :: "effect list \<Rightarrow> bool" where
  "sets_timer es \<longleftrightarrow> list_ex (\<lambda>e. case e of OneshotAbs i t \<Rightarrow> i = TIMER_TRANSMIT_TIMER | _ \<Rightarrow> False) es"

lemma sets_timer_simps [simp]:
  "sets_timer [] = False" "sets_timer (es @ ds) = (sets_timer es \<or> sets_timer ds)"
  "sets_timer (OneshotAbs i t # es) = (i = TIMER_TRANSMIT_TIMER \<or> sets_timer es)" "sets_timer (SetIrq n l # es) = sets_timer es"
  "sets_timer (GuestPutchar c # es) = sets_timer es"
  by (auto simp: sets_timer_def)

lemma serial_update_irq_out: "\<exists>l. out (snd (serial_update_irq s w)) = out w @ [SetIrq TTYS0_IRQ l]"
  by (simp add: serial_update_irq_def Let_def)

lemma xmit_end_effects:
  assumes "transmitting s"
  shows "transmitting (fst (serial_xmit_end E f s w))" "f_count (xmit_fifo (fst (serial_xmit_end E f s w))) = f_count (xmit_fifo s)"
    "xmit_pending (fst (serial_xmit_end E f s w)) = xmit_pending s"
    "\<exists>es. out (snd (serial_xmit_end E f s w)) = out w @ es \<and> (sets_timer es \<longleftrightarrow> lsr s AND 0x20 = 0)"
proof -
  show "transmitting (fst (serial_xmit_end E f s w))"
    using assms by (simp add: serial_xmit_end_def Let_def split_beta) (auto simp: transmitting_def thre_bits)
  show "f_count (xmit_fifo (fst (serial_xmit_end E f s w))) = f_count (xmit_fifo s)"
    by (simp add: serial_xmit_end_def Let_def split_beta)
  show "xmit_pending (fst (serial_xmit_end E f s w)) = xmit_pending s"
    by (simp add: serial_xmit_end_def Let_def split_beta) (simp add: xmit_pending_def)
  show "\<exists>es. out (snd (serial_xmit_end E f s w)) = out w @ es \<and> (sets_timer es \<longleftrightarrow> lsr s AND 0x20 = 0)"
  proof (cases "lsr s AND 0x20 = 0")
    case True
    then show ?thesis by (simp add: serial_xmit_end_def Let_def split_beta)
  next
    case False
    then show ?thesis
      using serial_update_irq_out by (simp add: serial_xmit_end_def Let_def split_beta) (metis sets_timer_simps(1,4) current_time_ns_out)
  qed
qed

definition sent_one :: "SerialState \<Rightarrow> world \<Rightarrow> SerialState \<times> world \<Rightarrow> bool" where
  "sent_one s w p \<longleftrightarrow> transmitting (fst p) \<and> f_count (xmit_fifo (fst p)) \<le> f_count (xmit_fifo s) \<and>
     (\<exists>es. out (snd p) = out w @ es \<and> (sets_timer es \<longleftrightarrow> xmit_pending (fst p) \<noteq> []))"

lemma xmit_fetch_effects:
  assumes "transmitting s" "xmit_pending s \<noteq> []"
  shows "part (serial_xmit_fetch s) (\<lambda>t. transmitting t \<and> f_count (xmit_fifo t) \<le> f_count (xmit_fifo s) \<and>
    chars_sent t = chars_sent s \<and> tsr_retry t = tsr_retry s \<and> (0 < sint (tsr_retry s) \<longrightarrow> t = s))"
proof (cases "0 < sint (tsr_retry s)")
  case True
  then show ?thesis using assms(1) by (simp add: serial_xmit_fetch_def)
next
  case False
  have n: "f_count (xmit_fifo s) \<noteq> 0" "fifo_wf (xmit_fifo s)" "lsr s AND 0x20 = 0"
    using assms False by (auto simp: xmit_pending_def transmitting_def fifo_contents_Nil)
  let ?q = "fifo_pop (xmit_fifo s)"
  have q: "fifo_wf ?q" "f_count ?q \<le> f_count (xmit_fifo s)"
    using fifo_contents_pop(1) [OF n(2,1)] n(1) by (simp_all add: fifo_pop_def word_le_nat_alt unat_dec)
  have "transmitting (s\<lparr>xmit_fifo := ?q, tsr := c, lsr := if f_count ?q = 0 then lsr s OR 0x20 else lsr s\<rparr>)" for c
    using assms(1) q(1) n(3) by (simp add: transmitting_def thre_bits)
  then show ?thesis
    using False assms(1) n q
    by (cases "f_count ?q = 0")
      (simp_all add: serial_xmit_fetch_def fifo_get_eq fifo_wf_ok Let_def the_fifo_def set_fifo_def transmitting_def thre_bits)
qed

lemma xmit_effects:
  assumes "serial_inv s" "transmitting s" "xmit_pending s \<noteq> []"
    "16 \<le> sint (chars_sent s) \<Longrightarrow> 0 < sint (tsr_retry s) \<Longrightarrow> lsr s AND 0x20 = 0"
  shows "part (serial_xmit E f s w) (sent_one s w)"
  unfolding serial_xmit_def Let_def case_prod_beta part_rbind
proof (rule part_mono [OF xmit_fetch_effects [OF assms(2,3)]], goal_cases)
  case (1 t)
  let ?w = "snd (current_time_ns E f w)"
  have t: "transmitting t" "f_count (xmit_fifo t) \<le> f_count (xmit_fifo s)" "mcr t AND 0x10 = 0"
    "16 \<le> sint (chars_sent t) \<Longrightarrow> 0 < sint (tsr_retry t) \<Longrightarrow> lsr t AND 0x20 = 0"
    using 1 assms(4) by (auto simp: transmitting_def)
  have r: "unat (tsr_retry t) \<le> 5" "unat (chars_sent t) \<le> 16" using 1 assms(1) by (simp_all add: serial_inv_def)
  consider (send) "sint (chars_sent t) < 16"
    | (retry) "16 \<le> sint (chars_sent t)" "sint (tsr_retry t) \<le> 4"
    | (keep) "16 \<le> sint (chars_sent t)" "4 < sint (tsr_retry t)" by linarith
  then show ?case
  proof cases
    case send
    let ?u = "t\<lparr>chars_sent := chars_sent t + 1, tsr_retry := 0\<rparr>" and ?v = "emit (GuestPutchar (tsr t)) ?w"
    have u: "transmitting ?u" using t(1) by (simp add: transmitting_def)
    have "xmit_pending ?u \<noteq> [] \<longleftrightarrow> lsr ?u AND 0x20 = 0"
      using t(1) by (auto simp: xmit_pending_def transmitting_def fifo_contents_Nil)
    then have "sent_one s w (serial_xmit_end E f ?u ?v)"
      using xmit_end_effects [OF u, of E f ?v] t(2) by (auto simp: sent_one_def)
    then show ?thesis using send t(3) by (simp add: serial_xmit_send_def)
  next
    case retry
    have "0 < sint (tsr_retry t + 1)"
      using sint_small [of "tsr_retry t + 1"] r(1) by (simp add: unat_word_ariths del: of_nat_Suc)
    then have "xmit_pending (t\<lparr>tsr_retry := tsr_retry t + 1\<rparr>) \<noteq> []" by (simp add: xmit_pending_def)
    then show ?thesis
      using retry t by (simp add: serial_xmit_send_def sent_one_def) (simp add: transmitting_def)
  next
    case keep
    have p: "xmit_pending t \<noteq> []" "lsr t AND 0x20 = 0" "poll_msl t = 0 \<or> poll_msl t = 1"
      using keep t(4) 1 assms(1) by (simp_all add: xmit_pending_def serial_inv_def)
    then have "sent_one s w (serial_xmit_end E f t ?w)"
      using xmit_end_effects [OF t(1), of E f ?w] t(2) by (auto simp: sent_one_def)
    then show ?thesis using keep t(3) p(3) by (auto simp: serial_xmit_send_def)
  qed
qed


definition link :: "nat \<Rightarrow> u8 list \<Rightarrow> bool \<Rightarrow> world \<Rightarrow> bool" where
  "link m xs a w \<longleftrightarrow> m \<le> length (out w) \<and> sent (out w) = xs \<and> sets_timer (drop m (out w)) = a"

lemma quiet_link: "quiet (link m xs a)"
proof -
  have "sent [e] = []" "\<not> sets_timer [e]" if "\<forall>c. e \<noteq> GuestPutchar c" "\<forall>t. e \<noteq> OneshotAbs TIMER_TRANSMIT_TIMER t" for e
    using that by (cases e; auto simp: sent_def sets_timer_def)+
  then show ?thesis by (auto simp: quiet_def link_def)
qed

lemma link_append: "link m xs a w \<Longrightarrow> out w' = out w @ es \<Longrightarrow> link m (sent (out w')) (a \<or> sets_timer es) w'"
  by (auto simp: link_def)

lemma ok_xmit_link:
  assumes "serial_inv s" "tx (y # ys) k s" "link m xs a w"
    "16 \<le> sint (chars_sent s) \<Longrightarrow> 0 < sint (tsr_retry s) \<Longrightarrow> lsr s AND 0x20 = 0"
  shows "ok (serial_xmit E f s w) (\<lambda>p. if sint (chars_sent s) < 16
    then tx ys k (fst p) \<and> link m (xs @ [y]) (a \<or> ys \<noteq> []) (snd p) else tx (y # ys) k (fst p) \<and> link m xs True (snd p))"
proof -
  have t: "transmitting s" "xmit_pending s = y # ys" "f_count (xmit_fifo s) \<le> k" using assms(2) by (simp_all add: tx_def)
  have e: "part (serial_xmit E f s w) (sent_one s w)" using t by (intro xmit_effects assms(1,4)) simp_all
  have d: "tx zs k (fst p) \<and> link m (xs @ cs) (a \<or> zs \<noteq> []) (snd p)"
    if "sent_one s w p" "xmit_step s w (fst p) (snd p) cs zs" for p cs zs
    using that t(3) assms(3) by (auto simp: sent_one_def xmit_step_def tx_def link_def)
  show ?thesis
  proof (rule ok_mono [OF part_ok [OF e serial_xmit_transmit [OF transmitting_wf [OF assms(1) t(1)] t(2) assms(4)]]], goal_cases)
    case (3 p)
    then show ?case using d [of p "[y]" ys] d [of p "[]" "y # ys"] by (auto simp: split_beta split: if_splits)
  qed
qed

section \<open>Port accesses\<close>

lemma fcr_output:
  assumes "v AND 5 = (1 :: u32)" "nz (x AND (1 :: u8))"
  shows "(v AND 0xFF) AND 4 = 0" "(v AND 0xFF) AND 1 = 1" "((v AND 0xFF) XOR ucast x) AND 1 = 0"
    "nz (ucast ((v AND 0xFF) AND 0xC9) AND (1 :: u8))"
proof -
  have m: "v AND m = 1 AND m" if "5 AND m = m" for m
    using arg_cong [OF assms(1), of "\<lambda>x. x AND m"] by (simp add: and.assoc that)
  show "(v AND 0xFF) AND 4 = 0" using m [of 4] by (simp add: and.assoc)
  show 1: "(v AND 0xFF) AND 1 = 1" using m [of 1] by (simp add: and.assoc)
  have b: "bit v 0" "bit x 0" using m [of 1] assms(2) by (auto simp: and_one_eq odd_iff_mod_2_eq_one bit_0 split: if_splits)
  then show "((v AND 0xFF) XOR ucast x) AND 1 = 0" by (intro bit_word_eqI) (auto simp: bit_simps)
  have "bit (ucast ((v AND 0xFF) AND 0xC9) AND (1 :: u8)) 0" using b by (simp add: bit_simps)
  then show "nz (ucast ((v AND 0xFF) AND 0xC9) AND (1 :: u8))" by auto
qed

lemma tx_fcr: "nz (x AND 1) \<Longrightarrow> nz (fcr s AND 1) \<Longrightarrow> tx ys k (s\<lparr>fcr := x\<rparr>) = tx ys k s"
  by (simp add: tx_defs)

lemma tx_clear_receiver [simp]: "tx ys k (fifo_clear RECV_FIFO s) = tx ys k s"
  by (simp add: fifo_clear_def set_fifo_def)

lemma txw_write_fcr:
  assumes "v AND 5 = 1" "quiet Q" "tx ys k s" "Q w"
  shows "txw Q ys k (serial_write_fcr v s w)"
proof -
  have x: "nz (fcr s AND 1)" using assms(3) by (simp add: tx_defs)
  have c: "fcr (fifo_clear RECV_FIFO t) = fcr t" for t by (simp add: fifo_clear_def set_fifo_def)
  note k = fcr_output [OF assms(1) x]
  have "tx ys k (fst (serial_write_fcr v s w))"
    using assms(3) x k by (simp add: serial_write_fcr_def Let_def split_beta tx_fcr c)
  moreover have "Q (snd (serial_write_fcr v s w))"
    using assms(2,4) x k by (simp add: serial_write_fcr_def Let_def split_beta quiet_update_irq quietD)
  ultimately show ?thesis using assms(2) by (simp add: txw_def)
qed

lemma tx_update_parameters: "tx ys k s \<Longrightarrow> part (serial_update_parameters s) (tx ys k)"
  by (simp add: serial_update_parameters_def Let_def rassert_def part_def split: sum.split)

lemma txw_write_ier: "quiet Q \<Longrightarrow> tx ys k s \<Longrightarrow> Q w \<Longrightarrow> part (serial_write_ier v s w) (txw Q ys k)"
proof -
  assume a: "quiet Q" "tx ys k s" "Q w"
  then have d: "lcr s AND UART_LCR_DLAB = 0" by (simp add: tx_defs)
  define p where "p = (let s = s\<lparr>ier := ucast (v AND 0x0f)\<rparr> in
                 (if 0 \<le> sint (poll_msl s)
                  then if nz (ier s AND UART_IER_MSI)
                       then serial_update_msl (s\<lparr>poll_msl := 1\<rparr>) w
                       else (s\<lparr>poll_msl := 0\<rparr>, w)
                  else (s, w)))"
  have p: "txw Q ys k p" using a by (simp add: p_def Let_def txw_update_msl)
  have "serial_write_ier v s w = Inr (if nz (lsr (fst p) AND UART_LSR_THRE)
      then serial_update_irq ((fst p)\<lparr>thr_ipending := 1\<rparr>) (snd p) else p)"
    using d by (simp add: serial_write_ier_def p_def Let_def split_beta)
  then show ?thesis using p by (simp add: txw_def) (simp add: quiet_update_irq)
qed

lemma tx_write_lcr:
  assumes "tx ys k s" "v AND 0x80 = 0"
  shows "part (serial_write_lcr v s) (tx ys k)"
proof -
  have "(ucast v :: u8) AND 0x80 = ucast (v AND 0x80)" by (intro bit_word_eqI) (auto simp: bit_simps)
  then have r: "tx ys k (s\<lparr>lcr := ucast v\<rparr>)" using assms by (auto simp: tx_defs)
  show ?thesis
    unfolding serial_write_lcr_def part_rbind by (rule part_mono [OF tx_update_parameters [OF r]]) (simp add: Let_def)
qed

definition writes_data :: "u32 \<Rightarrow> u32 \<Rightarrow> bool" where
  "writes_data p n \<longleftrightarrow> n = 1 \<and> p AND 7 = 0"

text \<open>What the guest may do: data only with credit, and the mode of the transmitter stays.\<close>

definition output_write :: "u32 \<Rightarrow> u32 \<Rightarrow> bool" where
  "output_write p v \<longleftrightarrow> (if p AND 7 = 2 then v AND 5 = 1 else if p AND 7 = 3 then v AND 0x80 = 0 else p AND 7 = 4 \<longrightarrow> v AND 0x10 = 0)"

lemma txw_ioport_write:
  assumes "quiet Q" "tx ys k s" "Q w" "output_write p v" "p AND 7 \<noteq> 0"
  shows "part (serial_ioport_write E f p v s w) (txw Q ys k)"
proof -
  have m: "(ucast (v AND 0x1f) :: u8) AND 0x10 = ucast (v AND 0x10)" by (simp add: unsigned_and_eq and.assoc)
  have "tx ys k (s\<lparr>mcr := ucast (v AND 0x1f)\<rparr>)" if "v AND 0x10 = 0" using assms(2) that m by (auto simp: tx_defs)
  moreover have "part (serial_write_lcr v s) (\<lambda>t. txw Q ys k (t, w))" if "v AND 0x80 = 0"
    by (rule part_mono [OF tx_write_lcr [OF assms(2) that]]) (use assms(1,3) in simp)
  ultimately show ?thesis
    using and7_cases [of p] assms
    by (auto simp: serial_ioport_write_def Let_def output_write_def txw_write_fcr txw_write_ier)
qed

lemma txw_read_data:
  assumes "quiet Q" "tx ys k s" "Q w"
  shows "part (serial_read_data E f s w) (\<lambda>x. txw Q ys k (snd x))"
proof -
  have d: "lcr s AND UART_LCR_DLAB = 0" "nz (fcr s AND UART_FCR_FE)" using assms(2) by (simp_all add: tx_defs)
  have g: "part (fifo_get RECV_FIFO s) (\<lambda>x. tx ys k (snd x))"
    using assms(2) by (auto simp: fifo_get_def the_fifo_def set_fifo_def Let_def intro!: part_all)
  have i: "txw Q ys k (serial_update_irq (t\<lparr>timeout_ipending := 0\<rparr>) v)" if "tx ys k t" "Q v" for t v
    by (rule txw_update_irq [OF assms(1)]) (use that in simp_all)
  have c: "txw Q ys k (serial_update_irq (t\<lparr>lsr := lsr t AND NOT (UART_LSR_DR OR UART_LSR_BI), timeout_ipending := 0\<rparr>) w)"
    "txw Q ys k (serial_update_irq (t\<lparr>timeout_ipending := 0\<rparr>) (emit (OneshotAbs TIMER_FIFO_TIMEOUT u) (snd (current_time_ns E f w))))"
    if "tx ys k t" for t u
  proof -
    have "txw Q ys k (serial_update_irq ((t\<lparr>lsr := lsr t AND NOT (UART_LSR_DR OR UART_LSR_BI)\<rparr>)\<lparr>timeout_ipending := 0\<rparr>) w)"
      by (rule i) (use that assms(3) in \<open>simp_all only: tx_lsr_receiver\<close>)
    then show "txw Q ys k (serial_update_irq (t\<lparr>lsr := lsr t AND NOT (UART_LSR_DR OR UART_LSR_BI), timeout_ipending := 0\<rparr>) w)"
      by simp
    show "txw Q ys k (serial_update_irq (t\<lparr>timeout_ipending := 0\<rparr>) (emit (OneshotAbs TIMER_FIFO_TIMEOUT u) (snd (current_time_ns E f w))))"
      by (rule i [OF that]) (use assms(1,3) in \<open>simp add: quietD timer_ids\<close>)
  qed
  show ?thesis
    using d unfolding serial_read_data_def Let_def case_prod_beta
    by (simp del: txw_pair, intro part_mono [OF g]) (use c in \<open>simp del: txw_pair\<close>)
qed

lemma txw_read_lsr: "quiet Q \<Longrightarrow> tx ys k s \<Longrightarrow> Q w \<Longrightarrow> txw Q ys k (snd (serial_read_lsr s w))"
  by (auto simp: serial_read_lsr_def Let_def tx_lsr and.assoc intro!: txw_update_irq)

lemma txw_read_iir: "quiet Q \<Longrightarrow> tx ys k s \<Longrightarrow> Q w \<Longrightarrow> txw Q ys k (snd (serial_read_iir s w))"
  by (simp add: serial_read_iir_def Let_def txw_update_irq)

lemma txw_read_msr: 
  assumes "quiet Q" "tx ys k s" "Q w"
  shows "txw Q ys k (snd (serial_read_msr s w))"
proof -
  have "txw Q ys k (if 0 \<le> sint (poll_msl s) then serial_update_msl s w else (s, w))"
    using txw_update_msl [OF assms] assms by simp
  then show ?thesis
    using assms(1) by (auto simp: serial_read_msr_def Let_def split_beta txw_def quiet_update_irq assms)
qed

lemma txw_ioport_read:
  assumes "quiet Q" "tx ys k s" "Q w"
  shows "part (serial_ioport_read E f p s w) (\<lambda>x. txw Q ys (if p AND 7 = 5 \<and> nz (fst x AND 0x20) then 0 else k) (snd x))"
proof -
  have lsr: "txw Q ys (if nz (fst x AND 0x20) then 0 else k) (snd x)" if "x = serial_read_lsr s w" for x
  proof -
    have r: "fst x = ucast (lsr s)" using that by (simp add: serial_read_lsr_def Let_def)
    have "ucast (lsr s) AND (0x20 :: u32) = ucast (lsr s AND 0x20)" by (simp add: unsigned_and_eq)
    then have "nz (fst x AND 0x20) \<Longrightarrow> tx ys 0 s" using assms(2) r by (auto simp: tx_defs)
    then show ?thesis using txw_read_lsr [OF assms] txw_read_lsr [OF assms(1) _ assms(3), of ys 0 s] that by simp
  qed
  have "p AND 7 = 0 \<or> p AND 7 = 1 \<or> p AND 7 = 2 \<or> p AND 7 = 3 \<or> p AND 7 = 4 \<or> p AND 7 = 5 \<or> p AND 7 = 6 \<or> p AND 7 = 7"
    by (rule and7_cases)
  then show ?thesis
    using assms lsr [OF refl] txw_read_iir [OF assms] txw_read_msr [OF assms] txw_read_data [OF assms]
    by (elim disjE) (simp_all add: serial_ioport_read_def Let_def)
qed

text \<open>A byte written with room in the FIFO.\<close>

definition queued :: "u8 \<Rightarrow> SerialState \<Rightarrow> SerialState" where
  "queued c s = s\<lparr>thr := c, xmit_fifo := fifo_push c (xmit_fifo s), thr_ipending := 0,
     lsr := lsr s AND NOT 0x40 AND NOT 0x20\<rparr>"

lemma write_data_queued:
  assumes "serial_inv s" "tx ys k s"
  shows "serial_write_data E f v s w =
    serial_xmit E f (fst (serial_update_irq (queued (ucast v) s) w)) (snd (serial_update_irq (queued (ucast v) s) w))"
proof -
  have m: "nz (fcr s AND 1)" "lcr s AND 0x80 = 0" "fifo_ok (the_fifo XMIT_FIFO s)"
    using assms by (simp_all add: tx_defs serial_inv_fifos)
  then have "fifo_put XMIT_FIFO c (s\<lparr>thr := c\<rparr>) = Inr (s\<lparr>thr := c, xmit_fifo := fifo_push c (xmit_fifo s)\<rparr>)" for c
    by (simp add: fifo_put_eq the_fifo_def set_fifo_def)
  then show ?thesis using m by (simp add: serial_write_data_def Let_def queued_def split_beta and.assoc)
qed

lemma queued_tx:
  assumes "serial_inv s" "tx ys k s" "unat k < 16"
  shows "serial_inv (queued c s)" "tx (ys @ [c]) (k + 1) (queued c s)" "lsr (queued c s) AND 0x20 = 0"
    "chars_sent (queued c s) = chars_sent s" "tsr_retry (queued c s) = tsr_retry s"
proof -
  have q: "fifo_wf (xmit_fifo s)" "f_count (xmit_fifo s) \<le> k" using assms(2) by (simp_all add: tx_defs)
  then have n: "unat (f_count (xmit_fifo s)) < 16" using assms(3) by (simp add: word_le_nat_alt)
  note push = fifo_contents_push [OF q(1) n, of c]
  show "serial_inv (queued c s)" using assms(1) push(1) by (simp add: queued_def serial_inv_def fifo_wf_ok)
  have u: "unat (f_count (xmit_fifo s) + 1) = unat (f_count (xmit_fifo s)) + 1" "unat (k + 1) = unat k + 1"
    using n assms(3) by (simp_all add: unat_word_ariths)
  then have "f_count (fifo_push c (xmit_fifo s)) \<le> k + 1" "f_count (fifo_push c (xmit_fifo s)) \<noteq> 0"
    using n q(2) by (auto simp: fifo_push_def word_le_nat_alt word_less_nat_alt)
  then show "tx (ys @ [c]) (k + 1) (queued c s)"
    using assms(2) push by (auto simp: queued_def tx_defs and.assoc)
  show "lsr (queued c s) AND 0x20 = 0" by (simp add: queued_def and.assoc)
qed (simp_all add: queued_def)

lemma ok_write_data_link:
  assumes "serial_inv s" "tx ys k s" "link m xs (ys \<noteq> []) w" "unat k < 16"
  shows "ok (serial_write_data E f v s w) (\<lambda>p. \<exists>xs' ys'. xs' @ ys' = xs @ ys @ [ucast v] \<and>
    tx ys' (k + 1) (fst p) \<and> link m xs' (ys' \<noteq> []) (snd p))"
proof -
  define p where "p = serial_update_irq (queued (ucast v) s) w"
  note q = queued_tx [OF assms(1,2,4), of "ucast v"]
  have p: "serial_inv (fst p)" "tx (ys @ [ucast v]) (k + 1) (fst p)" "link m xs (ys \<noteq> []) (snd p)"
    "lsr (fst p) AND 0x20 = 0"
    using q assms(3) quiet_update_irq [OF quiet_link assms(3)] by (simp_all add: p_def)
  obtain d ds where d: "ys @ [ucast v] = d # ds" by (cases ys) simp_all
  have "ok (serial_xmit E f (fst p) (snd p)) (\<lambda>r. if sint (chars_sent (fst p)) < 16
      then tx ds (k + 1) (fst r) \<and> link m (xs @ [d]) (ys \<noteq> [] \<or> ds \<noteq> []) (snd r)
      else tx (d # ds) (k + 1) (fst r) \<and> link m xs True (snd r))"
    by (rule ok_xmit_link [OF p(1) _ p(3)]) (use p(2,4) d in simp_all)
  then show ?thesis
    unfolding write_data_queued [OF assms(1,2)] p_def [symmetric]
  proof (rule ok_mono)
    fix r assume r: "if sint (chars_sent (fst p)) < 16
      then tx ds (k + 1) (fst r) \<and> link m (xs @ [d]) (ys \<noteq> [] \<or> ds \<noteq> []) (snd r)
      else tx (d # ds) (k + 1) (fst r) \<and> link m xs True (snd r)"
    have e: "(ys \<noteq> [] \<or> ds \<noteq> []) = (ds \<noteq> [])" using d by (cases ys) auto
    have a: "(xs @ [d]) @ ds = xs @ ys @ [ucast v]" "xs @ (d # ds) = xs @ ys @ [ucast v]" using d by simp_all
    show "\<exists>xs' ys'. xs' @ ys' = xs @ ys @ [ucast v] \<and> tx ys' (k + 1) (fst r) \<and> link m xs' (ys' \<noteq> []) (snd r)"
    proof (cases "sint (chars_sent (fst p)) < 16")
      case True
      then show ?thesis using r e a(1) by (intro exI [of _ "xs @ [d]"] exI [of _ ds]) simp
    next
      case False
      then show ?thesis using r a(2) by (intro exI [of _ xs] exI [of _ "d # ds"]) simp
    qed
  qed
qed

section \<open>Timers\<close>

lemma part_txw_timer:
  assumes "serial_inv s" "line_ok s w" "txw Q ys k (s, w)"
    and xmit: "\<And>s w. bit c TIMER_TRANSMIT_TIMER \<Longrightarrow> serial_inv s \<Longrightarrow> txw Q ys k (s, w) \<Longrightarrow>
      part (serial_xmit E f (s\<lparr>chars_sent := 0\<rparr>) w) (txw Q' zs k)"
    and stay: "\<not> bit c TIMER_TRANSMIT_TIMER \<Longrightarrow> Q' = Q \<and> zs = ys"
  shows "part (serial_timer_interrupt E f c b s w) (\<lambda>p. txw Q' zs k (snd p))"
proof -
  define p where "p = (if bit c TIMER_FIFO_TIMEOUT then fifo_timeout_int s w else (s, w))"
  have p: "serial_inv (fst p)" "txw Q ys k (fst p, snd p)"
    using assms(1-3) sgood_fifo_timeout_int [OF assms(1,2)] by (simp_all add: p_def sgood_def txw_fifo_timeout)
  have x: "part (if bit c TIMER_TRANSMIT_TIMER then serial_xmit E f ((fst p)\<lparr>chars_sent := 0\<rparr>) (snd p) else Inr p) (txw Q' zs k)"
    using xmit [OF _ p] stay p(2) by simp
  have m: "txw Q' zs k (if bit c TIMER_MODEM_STATUS_TIMER then serial_update_msl (fst r) (snd r) else r)" if "txw Q' zs k r" for r
    using that txw_update_msl [of Q' zs k "fst r" "snd r"] by (simp add: txw_def)
  have e: "serial_timer_interrupt E f c b s w =
    rbind (if bit c TIMER_TRANSMIT_TIMER then serial_xmit E f ((fst p)\<lparr>chars_sent := 0\<rparr>) (snd p) else Inr p) (\<lambda>r.
      let r = (if bit c TIMER_MODEM_STATUS_TIMER then serial_update_msl (fst r) (snd r) else r)
      in if bit c TIMER_MORE_CHARS then serial_character_interrupt E f b (fst r) (snd r) else Inr (b, r))"
    by (simp add: serial_timer_interrupt_def serial_character_interrupt_def Let_def p_def [symmetric] split_beta' cong: if_cong)
  show ?thesis
    unfolding e part_rbind
  proof (rule part_mono [OF x])
    fix r assume "txw Q' zs k r"
    note r = m [OF this]
    then show "part (let r = (if bit c TIMER_MODEM_STATUS_TIMER then serial_update_msl (fst r) (snd r) else r)
      in if bit c TIMER_MORE_CHARS then serial_character_interrupt E f b (fst r) (snd r) else Inr (b, r)) (\<lambda>p. txw Q' zs k (snd p))"
      using txw_character_interrupt [of Q' zs k _ _ E f b] by (simp add: Let_def txw_def)
  qed
qed

section \<open>Sessions\<close>

text \<open>
  The credit is what the guest's driver may still write since it saw the FIFO empty; the mark is where
  the effects after the last expiry of the transmit timer begin.
\<close>

record output_session =
  os_ring :: getchar_buffer
  os_uart :: SerialState
  os_world :: world
  os_written :: "u8 list"
  os_credit :: nat
  os_mark :: nat

definition timer_armed :: "output_session \<Rightarrow> bool" where
  "timer_armed x \<longleftrightarrow> sets_timer (drop (os_mark x) (out (os_world x)))"

fun output_step :: "env \<Rightarrow> u64 \<Rightarrow> serial_op \<Rightarrow> output_session \<Rightarrow> output_session res" where
  "output_step E f (SerialIn p n) x =
     rbind (serial_port_in E f p n (os_uart x) (os_world x)) (\<lambda>(_, r, s, w).
       Inr (x\<lparr>os_uart := s, os_world := w,
         os_credit := if n = 1 \<and> p AND 7 = 5 \<and> nz (the r AND 0x20) then 16 else os_credit x\<rparr>))"
| "output_step E f (SerialOut p n v) x =
     rbind (serial_port_out E f p n v (os_uart x) (os_world x)) (\<lambda>(_, s, w).
       Inr (if writes_data p n
         then x\<lparr>os_uart := s, os_world := w, os_written := os_written x @ [ucast v], os_credit := os_credit x - 1\<rparr>
         else x\<lparr>os_uart := s, os_world := w\<rparr>))"
| "output_step E f op x =
     rbind (serial_step E f op (os_ring x, os_uart x, os_world x)) (\<lambda>(b, s, w).
       Inr (x\<lparr>os_ring := b, os_uart := s, os_world := w,
         os_mark := (case op of SerialTimer c \<Rightarrow> if bit c TIMER_TRANSMIT_TIMER then length (out (os_world x)) else os_mark x
                     | _ \<Rightarrow> os_mark x)\<rparr>))"

fun output_admissible :: "output_session \<Rightarrow> serial_op \<Rightarrow> bool" where
  "output_admissible x (SerialOut p n v) \<longleftrightarrow> n \<noteq> 1 \<or> (if p AND 7 = 0 then 0 < os_credit x else output_write p v)"
| "output_admissible x (SerialTimer c) \<longleftrightarrow> bit c TIMER_TRANSMIT_TIMER \<longrightarrow> timer_armed x"
| "output_admissible x (ConsoleWrite b) \<longleftrightarrow> ring_ok b"
| "output_admissible x _ \<longleftrightarrow> True"

inductive output_reach :: "env \<Rightarrow> u64 \<Rightarrow> output_session \<Rightarrow> output_session \<Rightarrow> bool" for E f x where
  output_start: "output_reach E f x x"
| output_next: "output_reach E f x y \<Longrightarrow> output_admissible y op \<Longrightarrow> output_step E f op y = Inr z \<Longrightarrow> output_reach E f x z"

definition output_inv :: "output_session \<Rightarrow> bool" where
  "output_inv x \<longleftrightarrow> ring_ok (os_ring x) \<and> serial_inv (os_uart x) \<and> line_ok (os_uart x) (os_world x) \<and>
     (\<exists>xs ys k. tx ys k (os_uart x) \<and> link (os_mark x) xs (ys \<noteq> []) (os_world x) \<and>
       os_written x = xs @ ys \<and> unat k + os_credit x \<le> 16)"

lemma output_in:
  assumes "output_inv x"
  shows "ok (output_step E f (SerialIn p n) x) output_inv"
proof (cases "n = 1")
  case True
  let ?s = "os_uart x" and ?w = "os_world x"
  obtain xs ys k where i: "ring_ok (os_ring x)" "serial_inv ?s" "line_ok ?s ?w" "tx ys k ?s"
    "link (os_mark x) xs (ys \<noteq> []) ?w" "os_written x = xs @ ys" "unat k + os_credit x \<le> 16"
    using assms by (auto simp: output_inv_def)
  note r = part_ok [OF txw_ioport_read [OF quiet_link i(4,5), of E f p] ok_serial_ioport_read [OF i(2,3), of E f p]]
  then show ?thesis
    using True i(1,6,7)
    by (auto simp: serial_port_in_def ok_iff_ex output_inv_def sgood_def split_beta txw_def split: if_splits) fastforce+
qed (use assms in \<open>simp add: serial_port_in_def output_inv_def\<close>)

lemma output_out:
  assumes "output_inv x" "output_admissible x (SerialOut p n v)"
  shows "ok (output_step E f (SerialOut p n v) x) output_inv"
proof (cases "n = 1")
  case True
  let ?s = "os_uart x" and ?w = "os_world x"
  obtain xs ys k where i: "ring_ok (os_ring x)" "serial_inv ?s" "line_ok ?s ?w" "tx ys k ?s"
    "link (os_mark x) xs (ys \<noteq> []) ?w" "os_written x = xs @ ys" "unat k + os_credit x \<le> 16"
    using assms(1) by (auto simp: output_inv_def)
  have good: "ok (serial_ioport_write E f p v ?s ?w) sgood" by (rule ok_serial_ioport_write [OF i(2,3)])
  show ?thesis
  proof (cases "p AND 7 = 0")
    case True
    then have k: "unat k < 16" "0 < os_credit x" using assms(2) \<open>n = 1\<close> i(7) by simp_all
    then have u: "unat (k + 1) = unat k + 1" by (simp add: unat_word_ariths)
    have e: "serial_ioport_write E f p v ?s ?w = serial_write_data E f v ?s ?w"
      using True by (simp add: serial_ioport_write_def)
    obtain t w' where t: "serial_write_data E f v ?s ?w = Inr (t, w')" "sgood (t, w')"
      using good unfolding e by (auto simp: ok_iff_ex)
    then obtain xs' ys' where "xs' @ ys' = xs @ ys @ [ucast v]" "tx ys' (k + 1) t" "link (os_mark x) xs' (ys' \<noteq> []) w'"
      using ok_write_data_link [OF i(2,4,5) k(1), of E f v] by auto
    moreover have "unat (k + 1) + (os_credit x - 1) \<le> 16" using u k(2) i(7) by simp
    ultimately show ?thesis
      using True \<open>n = 1\<close> t i(1,6) by (auto simp: serial_port_out_def writes_data_def e output_inv_def intro!: exI)
  next
    case False
    then have "output_write p v" using assms(2) \<open>n = 1\<close> by simp
    from part_ok [OF txw_ioport_write [OF quiet_link i(4,5) this False, of E f] good] show ?thesis
      using False \<open>n = 1\<close> i(1,6,7)
      by (auto simp: serial_port_out_def ok_iff_ex output_inv_def writes_data_def sgood_def txw_def split_beta) blast
  qed
qed (use assms in \<open>simp add: serial_port_out_def output_inv_def writes_data_def\<close>)

lemma output_timer:
  assumes "output_inv x" "output_admissible x (SerialTimer c)"
  shows "ok (output_step E f (SerialTimer c) x) (\<lambda>y. output_inv y \<and> (bit c TIMER_TRANSMIT_TIMER \<longrightarrow>
    xmit_pending (os_uart y) = tl (xmit_pending (os_uart x)) \<and> os_written y = os_written x))"
proof -
  let ?s = "os_uart x" and ?w = "os_world x" and ?b = "os_ring x"
  obtain xs ys k where i: "ring_ok ?b" "serial_inv ?s" "line_ok ?s ?w" "tx ys k ?s"
    "link (os_mark x) xs (ys \<noteq> []) ?w" "os_written x = xs @ ys" "unat k + os_credit x \<le> 16"
    using assms(1) by (auto simp: output_inv_def)
  have good: "ok (serial_timer_interrupt E f c ?b ?s ?w) sdev_inv" by (rule ok_serial_timer_interrupt [OF i(1-3)])
  show ?thesis
  proof (cases "bit c TIMER_TRANSMIT_TIMER")
    case True
    let ?m = "length (out ?w)"
    obtain z zs where z: "ys = z # zs"
      using assms(2) True i(5) by (cases ys) (auto simp: timer_armed_def link_def)
    have l: "link ?m xs False ?w" using i(5) by (simp add: link_def)
    have "part (serial_timer_interrupt E f c ?b ?s ?w) (\<lambda>p. txw (link ?m (xs @ [z]) (zs \<noteq> [])) zs k (snd p))"
    proof (rule part_txw_timer [OF i(2,3), where Q = "link ?m xs False" and ys = ys])
      fix s w assume s: "serial_inv s" "txw (link ?m xs False) ys k (s, w)"
      have "ok (serial_xmit E f (s\<lparr>chars_sent := 0\<rparr>) w) (\<lambda>p. if sint (chars_sent (s\<lparr>chars_sent := 0\<rparr>)) < 16
        then tx zs k (fst p) \<and> link ?m (xs @ [z]) (False \<or> zs \<noteq> []) (snd p)
        else tx (z # zs) k (fst p) \<and> link ?m xs True (snd p))"
        by (rule ok_xmit_link) (use s z in \<open>simp_all add: serial_inv_bump\<close>)
      then show "part (serial_xmit E f (s\<lparr>chars_sent := 0\<rparr>) w) (txw (link ?m (xs @ [z]) (zs \<noteq> [])) zs k)"
        by (auto simp: ok_iff_ex txw_def quiet_link)
    qed (use i(4) l quiet_link True in simp_all)
    from part_ok [OF this good] show ?thesis
      using True i(4,6,7) z
      by (auto simp: ok_iff_ex output_inv_def sdev_inv_def sgood_def txw_def tx_def)
  next
    case False
    have "part (serial_timer_interrupt E f c ?b ?s ?w) (\<lambda>p. txw (link (os_mark x) xs (ys \<noteq> [])) ys k (snd p))"
      by (rule part_txw_timer [OF i(2,3)]) (use i(4,5) quiet_link False in simp_all)
    from part_ok [OF this good] show ?thesis
      using False i(6,7) by (auto simp: ok_iff_ex output_inv_def sdev_inv_def sgood_def txw_def) blast
  qed
qed

lemma output_step_inv:
  assumes "output_inv x" "output_admissible x op"
  shows "ok (output_step E f op x) output_inv"
proof (cases op)
  case SerialChar
  let ?s = "os_uart x" and ?w = "os_world x" and ?b = "os_ring x"
  obtain xs ys k where i: "ring_ok ?b" "serial_inv ?s" "line_ok ?s ?w" "tx ys k ?s"
    "link (os_mark x) xs (ys \<noteq> []) ?w" "os_written x = xs @ ys" "unat k + os_credit x \<le> 16"
    using assms(1) by (auto simp: output_inv_def)
  from part_ok [OF txw_character_interrupt [OF quiet_link i(4,5)] ok_serial_character_interrupt [OF i(1-3)], of E f]
  show ?thesis
    using SerialChar i(6,7) by (auto simp: ok_iff_ex output_inv_def sdev_inv_def sgood_def txw_def) blast
next
  case (SerialTimer c)
  then show ?thesis using output_timer [of x c E f] assms by (auto elim: ok_mono)
qed (use assms output_in output_out in \<open>simp_all add: output_inv_def\<close>)

lemma output_reach_inv: "output_reach E f x y \<Longrightarrow> output_inv x \<Longrightarrow> output_inv y"
proof (induction rule: output_reach.induct)
  case (output_next y op z)
  then show ?case using output_step_inv [of y op E f] by (auto simp: ok_iff_ex)
qed

lemma output_invD:
  assumes "output_inv x"
  shows "sent (out (os_world x)) @ xmit_pending (os_uart x) = os_written x" "timer_armed x \<longleftrightarrow> xmit_pending (os_uart x) \<noteq> []"
  using assms by (auto simp: output_inv_def tx_def link_def timer_armed_def)

text \<open>As many expiries of the transmit timer as bytes are pending bring all of them to the console.\<close>

lemma output_drains:
  "output_inv x \<Longrightarrow> length (xmit_pending (os_uart x)) = n \<Longrightarrow>
   ok (run_ops (output_step E f) (replicate n (SerialTimer (2 ^ TIMER_TRANSMIT_TIMER))) x)
     (\<lambda>y. sent (out (os_world y)) = os_written x)"
proof (induction n arbitrary: x)
  case 0
  then show ?case using output_invD(1) [of x] by simp
next
  case (Suc n)
  let ?c = "2 ^ TIMER_TRANSMIT_TIMER :: u32"
  have b: "bit ?c TIMER_TRANSMIT_TIMER" by (simp add: bit_exp_iff timer_ids)
  have "output_admissible x (SerialTimer ?c)" using Suc.prems output_invD(2) [of x] by auto
  then obtain y where y: "output_step E f (SerialTimer ?c) x = Inr y" "output_inv y"
    "xmit_pending (os_uart y) = tl (xmit_pending (os_uart x))" "os_written y = os_written x"
    using output_timer [OF Suc.prems(1), of ?c E f] b by (auto simp: ok_iff_ex simp del: output_step.simps)
  then show ?case using Suc.IH [of y] Suc.prems(2) by (simp del: output_step.simps)
qed

section \<open>From the set-up on\<close>

lemma pre_init_output:
  "tsr_retry (fst (snd (serial_pre_init E serial_bss w))) = 0"
  "sent (out (snd (snd (serial_pre_init E serial_bss w)))) = sent (out w)"
proof -
  have "tsr_retry (fst (serial_update_msl s v)) = tsr_retry s" "sent (out (snd (serial_update_msl s v))) = sent (out v)" for s v
    by (simp_all add: serial_update_msl_def Let_def)
  then show "tsr_retry (fst (snd (serial_pre_init E serial_bss w))) = 0"
    "sent (out (snd (snd (serial_pre_init E serial_bss w)))) = sent (out w)"
    by (simp_all add: serial_pre_init_def serial_init_core_def serial_reset_def Let_def split_beta)
      (simp_all add: fifo_clear_def set_fifo_def)
qed

lemma fresh_transmitter:
  assumes "fresh s" "tsr_retry s = 0" "nz (v AND 1)"
  shows "tx [] 0 (fst (serial_write_fcr v s w))" "sent (out (snd (serial_write_fcr v s w))) = sent (out w)"
proof -
  note e = enable_bits [OF assms(3)]
  have o: "(x OR 6) AND 2 = (2 :: u32)" "(x OR 6) AND 4 = (4 :: u32)" "(x OR 6) AND 1 = x AND (1 :: u32)" for x
    by (simp_all add: word_ao_dist)
  show "tx [] 0 (fst (serial_write_fcr v s w))"
    using assms(1,2) e
    by (simp add: fresh_def serial_write_fcr_def Let_def split_beta o)
      (simp add: tx_defs fifo_clear_def set_fifo_def the_fifo_def fifo_wf_def fifo_ok_def fifo_contents_Nil)
  show "sent (out (snd (serial_write_fcr v s w))) = sent (out w)"
    by (simp add: serial_write_fcr_def Let_def split_beta)
qed

lemma output_begins:
  assumes "ring_ok b" "irq_level TTYS0_IRQ (out w) = 0" "nz (v AND UART_FCR_FE)" "sent (out w) = []"
    and p: "serial_pre_init E serial_bss w = (f, s, w')"
  shows "ok (serial_port_out E f 0x3fa 1 v s w') (\<lambda>(_, s, w'). output_inv
    \<lparr>os_ring = b, os_uart = s, os_world = w', os_written = [], os_credit = 0, os_mark = length (out w')\<rparr>)"
proof -
  have good: "serial_inv s" "line_ok s w'" using serial_pre_init_good [OF assms(2), of E] p by (simp_all add: sgood_def)
  have "fresh s" "tsr_retry s = 0" "sent (out w') = []"
    using fresh_pre_init [of E w] pre_init_output [of E w] p assms(4) by simp_all
  then have t: "tx [] 0 (fst (serial_write_fcr v s w'))" "sent (out (snd (serial_write_fcr v s w'))) = []"
    using fresh_transmitter [of s v w'] assms(3) by simp_all
  have g: "sgood (serial_write_fcr v s w')" by (rule sgood_write_fcr [OF good])
  show ?thesis
    using t g assms(1)
    by (auto simp: serial_port_out_def serial_ioport_write_def Let_def split_beta output_inv_def link_def sgood_def intro!: exI [of _ 0])
qed

text \<open>
  C14. Guest output reaches the console complete and in order.  Once the guest has switched the FIFOs
  on, in every state that its accesses, interrupts and timers can reach, when its driver writes at most
  sixteen bytes after it has seen the FIFO empty and leaves the mode of the transmitter alone: nothing
  faults; the bytes on the console followed by the pending ones are those the guest wrote; the transmit
  timer is armed exactly when bytes are pending; and as many expiries of it as bytes are pending bring
  everything to the console.
\<close>

theorem serial_output_in_order:
  assumes "ring_ok b" "irq_level TTYS0_IRQ (out w) = 0" "nz (v AND UART_FCR_FE)" "sent (out w) = []"
  shows "let (f, s, w') = serial_pre_init E serial_bss w
     in ok (serial_port_out E f 0x3fa 1 v s w') (\<lambda>(_, s, w'). \<forall>x op.
          output_reach E f \<lparr>os_ring = b, os_uart = s, os_world = w', os_written = [], os_credit = 0, os_mark = length (out w')\<rparr> x \<longrightarrow>
            (output_admissible x op \<longrightarrow> (\<exists>y. output_step E f op x = Inr y)) \<and>
            sent (out (os_world x)) @ xmit_pending (os_uart x) = os_written x \<and>
            (timer_armed x \<longleftrightarrow> xmit_pending (os_uart x) \<noteq> []) \<and>
            ok (run_ops (output_step E f) (replicate (length (xmit_pending (os_uart x))) (SerialTimer (2 ^ TIMER_TRANSMIT_TIMER))) x)
              (\<lambda>y. sent (out (os_world y)) = os_written x))"
proof -
  obtain f s w' where p: "serial_pre_init E serial_bss w = (f, s, w')" by (cases "serial_pre_init E serial_bss w")
  have goal: "(output_admissible x op \<longrightarrow> (\<exists>y. output_step E f op x = Inr y)) \<and>
      sent (out (os_world x)) @ xmit_pending (os_uart x) = os_written x \<and>
      (timer_armed x \<longleftrightarrow> xmit_pending (os_uart x) \<noteq> []) \<and>
      ok (run_ops (output_step E f) (replicate (length (xmit_pending (os_uart x))) (SerialTimer (2 ^ TIMER_TRANSMIT_TIMER))) x)
        (\<lambda>y. sent (out (os_world y)) = os_written x)"
    if "output_inv z" "output_reach E f z x" for x op z
    using output_step_inv [of x op E f] output_invD [of x] output_drains [of x _ E f] output_reach_inv [OF that(2,1)]
    by (auto simp: ok_iff_ex)
  show ?thesis
    unfolding p Let_def prod.case
    by (rule ok_mono [OF output_begins [OF assms p]]) (unfold split_beta, intro allI impI goal)
qed

theorem serial_output_in_order_witness:
  "let (f, s, w') = serial_pre_init sample_env serial_bss boot_world
   in ok (serial_port_out sample_env f 0x3fa 1 0xc1 s w') (\<lambda>(_, s, w').
        ok (output_step sample_env f (SerialIn 0x3fd 1)
          \<lparr>os_ring = empty_ring, os_uart = s, os_world = w', os_written = [], os_credit = 0, os_mark = length (out w')\<rparr>) (\<lambda>x.
            sent (out (os_world x)) @ xmit_pending (os_uart x) = os_written x))"
proof -
  obtain f s w' where p: "serial_pre_init sample_env serial_bss boot_world = (f, s, w')"
    by (cases "serial_pre_init sample_env serial_bss boot_world")
  have "ring_ok empty_ring" "irq_level TTYS0_IRQ (out boot_world) = 0" "nz ((0xc1 :: u32) AND UART_FCR_FE)" "sent (out boot_world) = []"
    by (simp_all add: empty_ring_def ring_ok_def boot_world_def)
  note t = serial_output_in_order [OF this, of sample_env, unfolded p Let_def prod.case]
  show ?thesis
    unfolding p Let_def prod.case
  proof (rule ok_mono [OF t], clarify)
    fix s w' assume r: "\<forall>x op. output_reach sample_env f
          \<lparr>os_ring = empty_ring, os_uart = s, os_world = w', os_written = [], os_credit = 0, os_mark = length (out w')\<rparr> x \<longrightarrow>
        (output_admissible x op \<longrightarrow> (\<exists>y. output_step sample_env f op x = Inr y)) \<and>
        sent (out (os_world x)) @ xmit_pending (os_uart x) = os_written x \<and>
        (timer_armed x \<longleftrightarrow> xmit_pending (os_uart x) \<noteq> []) \<and>
        ok (run_ops (output_step sample_env f) (replicate (length (xmit_pending (os_uart x))) (SerialTimer (2 ^ TIMER_TRANSMIT_TIMER))) x)
          (\<lambda>y. sent (out (os_world y)) = os_written x)"
    let ?x = "\<lparr>os_ring = empty_ring, os_uart = s, os_world = w', os_written = [], os_credit = 0, os_mark = length (out w')\<rparr>"
    have a: "output_admissible ?x (SerialIn 0x3fd 1)" by simp
    obtain y where y: "output_step sample_env f (SerialIn 0x3fd 1) ?x = Inr y"
      using r output_start [of sample_env f ?x] a by blast
    have "output_reach sample_env f ?x y" by (rule output_next [OF output_start a y])
    then have "sent (out (os_world y)) @ xmit_pending (os_uart y) = os_written y" using r by blast
    then show "ok (output_step sample_env f (SerialIn 0x3fd 1) ?x) (\<lambda>x. sent (out (os_world x)) @ xmit_pending (os_uart x) = os_written x)"
      using y by (simp del: output_step.simps)
  qed
qed

end
