(* ===== verification/Mc146818rtc.thy ===== *)
theory Mc146818rtc
  imports Vmm_World
begin

text \<open>
  The MC146818 real-time clock of \<^verbatim>\<open>components/Init/src/mc146818rtc.c\<close>: the CMOS
  registers, the calendar, the periodic, update-ended and alarm interrupts.  C's \<^verbatim>\<open>int\<close>
  is \<open>i32\<close>; the members of \<^verbatim>\<open>rtc_time_date_t\<close>, whose types the repository does not
  show, are integers that every assignment converts with \<open>tm_field\<close> or \<open>tm_year_field\<close>.
  The constant indices of the code into its 128 registers are in range; the guest's index is
  checked.
\<close>

section \<open>Registers and state\<close>

abbreviation (input) RTC_SECONDS :: nat where "RTC_SECONDS \<equiv> 0"
abbreviation (input) RTC_SECONDS_ALARM :: nat where "RTC_SECONDS_ALARM \<equiv> 1"
abbreviation (input) RTC_MINUTES :: nat where "RTC_MINUTES \<equiv> 2"
abbreviation (input) RTC_MINUTES_ALARM :: nat where "RTC_MINUTES_ALARM \<equiv> 3"
abbreviation (input) RTC_HOURS :: nat where "RTC_HOURS \<equiv> 4"
abbreviation (input) RTC_HOURS_ALARM :: nat where "RTC_HOURS_ALARM \<equiv> 5"
abbreviation (input) RTC_DAY_OF_WEEK :: nat where "RTC_DAY_OF_WEEK \<equiv> 6"
abbreviation (input) RTC_DAY_OF_MONTH :: nat where "RTC_DAY_OF_MONTH \<equiv> 7"
abbreviation (input) RTC_MONTH :: nat where "RTC_MONTH \<equiv> 8"
abbreviation (input) RTC_YEAR :: nat where "RTC_YEAR \<equiv> 9"
abbreviation (input) RTC_REG_A :: nat where "RTC_REG_A \<equiv> 10"
abbreviation (input) RTC_REG_B :: nat where "RTC_REG_B \<equiv> 11"
abbreviation (input) RTC_REG_C :: nat where "RTC_REG_C \<equiv> 12"
abbreviation (input) RTC_REG_D :: nat where "RTC_REG_D \<equiv> 13"

abbreviation (input) REG_A_UIP :: "'a::len word" where "REG_A_UIP \<equiv> 0x80"
abbreviation (input) REG_B_SET :: "'a::len word" where "REG_B_SET \<equiv> 0x80"
abbreviation (input) REG_B_PIE :: "'a::len word" where "REG_B_PIE \<equiv> 0x40"
abbreviation (input) REG_B_AIE :: "'a::len word" where "REG_B_AIE \<equiv> 0x20"
abbreviation (input) REG_B_UIE :: "'a::len word" where "REG_B_UIE \<equiv> 0x10"
abbreviation (input) REG_B_SQWE :: "'a::len word" where "REG_B_SQWE \<equiv> 0x08"
abbreviation (input) REG_B_DM :: "'a::len word" where "REG_B_DM \<equiv> 0x04"
abbreviation (input) REG_B_24H :: "'a::len word" where "REG_B_24H \<equiv> 0x02"
abbreviation (input) REG_C_UF :: "'a::len word" where "REG_C_UF \<equiv> 0x10"
abbreviation (input) REG_C_IRQF :: "'a::len word" where "REG_C_IRQF \<equiv> 0x80"
abbreviation (input) REG_C_PF :: "'a::len word" where "REG_C_PF \<equiv> 0x40"
abbreviation (input) REG_C_AF :: "'a::len word" where "REG_C_AF \<equiv> 0x20"

abbreviation (input) RTC_REINJECT_ON_ACK_COUNT :: u16 where "RTC_REINJECT_ON_ACK_COUNT \<equiv> 20"

record RTCState =
  cmos_data :: "u8 list"
  cmos_index :: u8
  current_tm :: rtc_time_date
  base_year :: i32
  rtc_it_shift :: i32
  next_periodic_time :: i64
  next_second_time :: i64
  irq_reinject_on_ack_count :: u16
  irq_coalesced :: u32
  period :: u32

definition zero_tm :: rtc_time_date where
  "zero_tm = \<lparr>tm_second = 0, tm_minute = 0, tm_hour = 0, tm_day = 0, tm_month = 0, tm_year = 0\<rparr>"

definition rtc_bss :: RTCState where
  "rtc_bss =
     \<lparr>cmos_data = replicate 128 0, cmos_index = 0, current_tm = zero_tm, base_year = 0,
      rtc_it_shift = 0, next_periodic_time = 0, next_second_time = 0,
      irq_reinject_on_ack_count = 0, irq_coalesced = 0, period = 0\<rparr>"

abbreviation reg :: "RTCState \<Rightarrow> nat \<Rightarrow> u8" where
  "reg s r \<equiv> cmos_data s ! r"

definition set_reg :: "nat \<Rightarrow> u8 \<Rightarrow> RTCState \<Rightarrow> RTCState" where
  "set_reg r v s = s\<lparr>cmos_data := (cmos_data s)[r := v]\<rparr>"

text \<open>\<^verbatim>\<open>get_ticks_per_sec\<close>, and the static switch that no code sets.\<close>

definition get_ticks_per_sec :: i64 where "get_ticks_per_sec = 1000000000"
definition rtc_td_hack :: i32 where "rtc_td_hack = 0"

section \<open>96-bit multiplication and division\<close>

definition muldiv64 :: "u64 \<Rightarrow> u32 \<Rightarrow> u32 \<Rightarrow> u64 res" where
  "muldiv64 a b c =
     (let u_low = ucast a :: u32;
          u_high = ucast (drop_bit 32 a) :: u32;
          rl = ucast u_low * ucast b :: u64;
          rh = ucast u_high * ucast b :: u64;
          rh = rh + drop_bit 32 rl
      in rbind (udiv rh (ucast c)) (\<lambda>h.
         rbind (umod rh (ucast c)) (\<lambda>m.
         rbind (udiv (push_bit 32 m + (rl AND 0xffffffff)) (ucast c)) (\<lambda>l.
           let res_high = ucast h :: u32;
               res_low = ucast l :: u32
           in Inr (push_bit 32 (ucast res_high) OR ucast res_low)))))"

section \<open>Periodic interrupts\<close>

definition rtc_coalesced_timer_update ::
    "env \<Rightarrow> RTCState \<Rightarrow> world \<Rightarrow> (RTCState \<times> world) res" where
  "rtc_coalesced_timer_update E s w =
     (if irq_coalesced s = 0 then Inr (s, emit (TimerStop TIMER_COALESCED_TIMER) w)
      else let c = (if irq_coalesced s < 7 then irq_coalesced s else 7) + 1;
               (now, w) = timer_time E w
           in rbind (udiv (period s) c) (\<lambda>p.
              rbind (muldiv64 (ucast p) (ucast get_ticks_per_sec) 32768) (\<lambda>d.
                Inr (s, emit (OneshotAbs TIMER_COALESCED_TIMER (now + d)) w))))"

definition rtc_coalesced_timer ::
    "env \<Rightarrow> RTCState \<Rightarrow> world \<Rightarrow> (RTCState \<times> world) res" where
  "rtc_coalesced_timer E s w =
     (let (s, w) = (if irq_coalesced s \<noteq> 0
                    then (set_reg RTC_REG_C (reg s RTC_REG_C OR 0xc0) s, emit (SetIrq RTC_IRQ 1) w)
                    else (s, w))
      in rtc_coalesced_timer_update E s w)"

text \<open>The test of the square wave flag is conjoined with a constant 0 in the code.\<close>

definition rtc_timer_update :: "RTCState \<Rightarrow> i64 \<Rightarrow> world \<Rightarrow> (RTCState \<times> world) res" where
  "rtc_timer_update s current_time w =
     (let period_code = ucast (reg s RTC_REG_A AND 0x0f) :: i32
      in if period_code \<noteq> 0 \<and>
            (nz (reg s RTC_REG_B AND REG_B_PIE) \<or> nz (reg s RTC_REG_B AND REG_B_SQWE) \<and> False)
         then let period_code = (if sint period_code \<le> 2 then period_code + 7 else period_code);
                  p = push_bit (unat (period_code - 1)) 1 :: i32
              in rbind (if p \<noteq> period s
                        then rbind (udiv (irq_coalesced s * period s) p) (\<lambda>q.
                               Inr (s\<lparr>irq_coalesced := q\<rparr>))
                        else Inr s) (\<lambda>s.
                 let s = s\<lparr>period := p\<rparr>
                 in rbind (muldiv64 current_time 32768 (ucast get_ticks_per_sec)) (\<lambda>cur_clock.
                    let next_irq_clock = (cur_clock AND NOT (scast (p - 1))) + scast p
                    in rbind (muldiv64 next_irq_clock (ucast get_ticks_per_sec) 32768) (\<lambda>t.
                       let s = s\<lparr>next_periodic_time := t + 1\<rparr>
                       in Inr (s, emit (OneshotAbs TIMER_PERIODIC_TIMER (next_periodic_time s)) w))))
         else Inr (s\<lparr>irq_coalesced := 0\<rparr>, emit (TimerStop TIMER_PERIODIC_TIMER) w))"

definition rtc_periodic_timer :: "RTCState \<Rightarrow> world \<Rightarrow> (RTCState \<times> world) res" where
  "rtc_periodic_timer s w =
     rbind (rtc_timer_update s (next_periodic_time s) w) (\<lambda>(s, w).
       let (s, w) =
             (if nz (reg s RTC_REG_B AND REG_B_PIE)
              then let s = set_reg RTC_REG_C (reg s RTC_REG_C OR 0xc0) s;
                       s = (if nz rtc_td_hack \<and>
                               RTC_REINJECT_ON_ACK_COUNT \<le> irq_reinject_on_ack_count s
                            then s\<lparr>irq_reinject_on_ack_count := 0\<rparr> else s)
                   in (s, emit (SetIrq RTC_IRQ 1) w)
              else (s, w))
       in Inr (s, if nz (reg s RTC_REG_B AND REG_B_SQWE) then emit (SetIrq RTC_IRQ 1) w else w))"

section \<open>The calendar\<close>

definition rtc_to_bcd :: "RTCState \<Rightarrow> i32 \<Rightarrow> i32" where
  "rtc_to_bcd s a =
     (if nz (reg s RTC_REG_B AND REG_B_DM) then a
      else push_bit 4 (c_sdiv a 10) OR c_smod a 10)"

definition rtc_from_bcd :: "RTCState \<Rightarrow> i32 \<Rightarrow> i32" where
  "rtc_from_bcd s a =
     (if nz (reg s RTC_REG_B AND REG_B_DM) then a
      else signed_drop_bit 4 a * 10 + (a AND 0x0f))"

definition rtc_set_time :: "env \<Rightarrow> RTCState \<Rightarrow> RTCState" where
  "rtc_set_time E s =
     (let tm = current_tm s;
          tm = tm\<lparr>tm_second := tm_field E (sint (rtc_from_bcd s (ucast (reg s RTC_SECONDS))))\<rparr>;
          tm = tm\<lparr>tm_minute := tm_field E (sint (rtc_from_bcd s (ucast (reg s RTC_MINUTES))))\<rparr>;
          tm = tm\<lparr>tm_hour :=
                    tm_field E (sint (rtc_from_bcd s (ucast (reg s RTC_HOURS AND 0x7f))))\<rparr>;
          tm = (if reg s RTC_REG_B AND REG_B_24H = 0 \<and> nz (reg s RTC_HOURS AND 0x80)
                then tm\<lparr>tm_hour := tm_field E (tm_hour tm + 12)\<rparr> else tm);
          tm = tm\<lparr>tm_day := tm_field E (sint (rtc_from_bcd s (ucast (reg s RTC_DAY_OF_MONTH))))\<rparr>;
          tm = tm\<lparr>tm_month :=
                    tm_field E (sint (rtc_from_bcd s (ucast (reg s RTC_MONTH)) - 1))\<rparr>;
          tm = tm\<lparr>tm_year :=
                    tm_year_field E
                      (sint (rtc_from_bcd s (ucast (reg s RTC_YEAR)) + base_year s - 1900))\<rparr>
      in s\<lparr>current_tm := tm\<rparr>)"

definition rtc_copy_date :: "env \<Rightarrow> RTCState \<Rightarrow> RTCState" where
  "rtc_copy_date E s =
     (let tm = current_tm s;
          s = set_reg RTC_SECONDS (ucast (rtc_to_bcd s (word_of_int (tm_second tm)))) s;
          s = set_reg RTC_MINUTES (ucast (rtc_to_bcd s (word_of_int (tm_minute tm)))) s;
          s = (if nz (reg s RTC_REG_B AND REG_B_24H)
               then set_reg RTC_HOURS (ucast (rtc_to_bcd s (word_of_int (tm_hour tm)))) s
               else let s = set_reg RTC_HOURS
                              (ucast (rtc_to_bcd s (word_of_int (tm_hour tm smod 12)))) s
                    in if 12 \<le> tm_hour tm
                       then set_reg RTC_HOURS (reg s RTC_HOURS OR 0x80) s else s);
          s = set_reg RTC_DAY_OF_MONTH (ucast (rtc_to_bcd s (word_of_int (tm_day tm)))) s;
          s = set_reg RTC_MONTH (ucast (rtc_to_bcd s (word_of_int (tm_month tm)))) s;
          year = word_of_int (tm_year_sub E (tm_year tm) (sint (base_year s)) smod 100) :: i32;
          year = (if sint year < 0 then year + 100 else year)
      in set_reg RTC_YEAR (ucast (rtc_to_bcd s year)) s)"

definition days_tab :: "int list" where
  "days_tab = [31, 28, 31, 30, 31, 30, 31, 31, 30, 31, 30, 31]"

text \<open>A C cast to \<^verbatim>\<open>unsigned\<close>.\<close>

definition c_unsigned :: "int \<Rightarrow> int" where
  "c_unsigned x = x mod 2 ^ 32"

definition get_days_in_month :: "int \<Rightarrow> int \<Rightarrow> int" where
  "get_days_in_month month year =
     (if 12 \<le> c_unsigned month then 31
      else let d = days_tab ! nat month
           in if month = 1 \<and> year smod 4 = 0 \<and> (year smod 100 \<noteq> 0 \<or> year smod 400 = 0)
              then d + 1 else d)"

text \<open>The arguments of \<^verbatim>\<open>get_days_in_month\<close> are converted to \<^verbatim>\<open>int\<close>.\<close>

definition c_int :: "int \<Rightarrow> int" where
  "c_int x = sint (word_of_int x :: i32)"

definition rtc_next_second :: "env \<Rightarrow> rtc_time_date \<Rightarrow> rtc_time_date" where
  "rtc_next_second E tm =
     (let tm = tm\<lparr>tm_second := tm_field E (tm_second tm + 1)\<rparr>
      in if 60 \<le> c_unsigned (tm_second tm)
         then let tm = tm\<lparr>tm_second := tm_field E 0, tm_minute := tm_field E (tm_minute tm + 1)\<rparr>
              in if 60 \<le> c_unsigned (tm_minute tm)
                 then let tm = tm\<lparr>tm_minute := tm_field E 0, tm_hour := tm_field E (tm_hour tm + 1)\<rparr>
                      in if 24 \<le> c_unsigned (tm_hour tm)
                         then let tm = tm\<lparr>tm_hour := tm_field E 0\<rparr>;
                                  days_in_month =
                                    get_days_in_month (c_int (tm_month tm)) (c_int (tm_year tm + 1900));
                                  tm = tm\<lparr>tm_day := tm_field E (tm_day tm + 1)\<rparr>
                              in if tm_day tm < 1 then tm\<lparr>tm_day := tm_field E 1\<rparr>
                                 else if days_in_month < tm_day tm
                                 then let tm = tm\<lparr>tm_day := tm_field E 1,
                                                   tm_month := tm_field E (tm_month tm + 1)\<rparr>
                                      in if 12 \<le> tm_month tm
                                         then tm\<lparr>tm_month := tm_field E 0,
                                                 tm_year := tm_year_field E (tm_year tm + 1)\<rparr>
                                         else tm
                                 else tm
                         else tm
                 else tm
         else tm)"

section \<open>The seconds timers\<close>

text \<open>The delay of a hundredth of a second is positive, so the code's correction is idle.\<close>

definition rtc_update_second :: "env \<Rightarrow> RTCState \<Rightarrow> world \<Rightarrow> RTCState \<times> world" where
  "rtc_update_second E s w =
     (if reg s RTC_REG_A AND 0x70 \<noteq> 0x20
      then let s = s\<lparr>next_second_time := next_second_time s + get_ticks_per_sec\<rparr>
           in (s, emit (OneshotAbs TIMER_SECOND_TIMER (next_second_time s)) w)
      else let s = s\<lparr>current_tm := rtc_next_second E (current_tm s)\<rparr>;
               s = (if reg s RTC_REG_B AND REG_B_SET = 0
                    then set_reg RTC_REG_A (reg s RTC_REG_A OR REG_A_UIP) s else s);
               delay = c_sdiv (get_ticks_per_sec * 1) 100;
               delay = (if sint delay < 1 then 1 else delay)
           in (s, emit (OneshotAbs TIMER_SECOND_TIMER2 (next_second_time s + delay)) w))"

definition alarm_matches :: "RTCState \<Rightarrow> nat \<Rightarrow> int \<Rightarrow> bool" where
  "alarm_matches s r v \<longleftrightarrow>
     reg s r AND 0xc0 = 0xc0 \<or> sint (rtc_from_bcd s (ucast (reg s r))) = v"

definition rtc_update_second2 :: "env \<Rightarrow> RTCState \<Rightarrow> world \<Rightarrow> RTCState \<times> world" where
  "rtc_update_second2 E s w =
     (let s = (if reg s RTC_REG_B AND REG_B_SET = 0 then rtc_copy_date E s else s);
          (s, w) =
            (if nz (reg s RTC_REG_B AND REG_B_AIE) \<and>
                alarm_matches s RTC_SECONDS_ALARM (tm_second (current_tm s)) \<and>
                alarm_matches s RTC_MINUTES_ALARM (tm_minute (current_tm s)) \<and>
                alarm_matches s RTC_HOURS_ALARM (tm_hour (current_tm s))
             then (set_reg RTC_REG_C (reg s RTC_REG_C OR 0xa0) s, emit (SetIrq RTC_IRQ 1) w)
             else (s, w));
          s = set_reg RTC_REG_C (reg s RTC_REG_C OR REG_C_UF) s;
          (s, w) =
            (if nz (reg s RTC_REG_B AND REG_B_UIE)
             then (set_reg RTC_REG_C (reg s RTC_REG_C OR REG_C_IRQF) s, emit (SetIrq RTC_IRQ 1) w)
             else (s, w));
          s = set_reg RTC_REG_A (reg s RTC_REG_A AND NOT REG_A_UIP) s;
          s = s\<lparr>next_second_time := next_second_time s + get_ticks_per_sec\<rparr>
      in (s, emit (OneshotAbs TIMER_SECOND_TIMER (next_second_time s)) w))"

section \<open>Port accesses\<close>

definition cmos_write_reg_b :: "env \<Rightarrow> u32 \<Rightarrow> RTCState \<Rightarrow> world \<Rightarrow> (RTCState \<times> world) res" where
  "cmos_write_reg_b E data s w =
     (let (s, data) =
            (if nz (data AND REG_B_SET)
             then (set_reg RTC_REG_A (reg s RTC_REG_A AND NOT REG_A_UIP) s, data AND NOT REG_B_UIE)
             else if nz (reg s RTC_REG_B AND REG_B_SET) then (rtc_set_time E s, data)
             else (s, data));
          s = (if nz ((ucast (reg s RTC_REG_B) XOR data) AND (REG_B_DM OR REG_B_24H)) \<and>
                  data AND REG_B_SET = 0
               then rtc_copy_date E (set_reg RTC_REG_B (ucast data) s)
               else set_reg RTC_REG_B (ucast data) s);
          (now, w) = timer_time E w
      in rtc_timer_update s now w)"

definition cmos_write_reg_a :: "env \<Rightarrow> u32 \<Rightarrow> RTCState \<Rightarrow> world \<Rightarrow> (RTCState \<times> world) res" where
  "cmos_write_reg_a E data s w =
     (let s = set_reg RTC_REG_A
                (ucast ((data AND NOT REG_A_UIP) OR ucast (reg s RTC_REG_A AND REG_A_UIP))) s;
          (now, w) = timer_time E w
      in rtc_timer_update s now w)"

definition cmos_write_index :: "nat \<Rightarrow> u8 \<Rightarrow> RTCState \<Rightarrow> RTCState res" where
  "cmos_write_index i v s = rbind (aset (cmos_data s) i v) (\<lambda>d. Inr (s\<lparr>cmos_data := d\<rparr>))"

definition cmos_ioport_write ::
    "env \<Rightarrow> u32 \<Rightarrow> u32 \<Rightarrow> RTCState \<Rightarrow> world \<Rightarrow> (RTCState \<times> world) res" where
  "cmos_ioport_write E addr data s w =
     (if addr AND 1 = 0 then Inr (s\<lparr>cmos_index := ucast (data AND 0x7f)\<rparr>, w)
      else let i = unat (cmos_index s)
           in if i \<in> {RTC_SECONDS_ALARM, RTC_MINUTES_ALARM, RTC_HOURS_ALARM}
              then rbind (cmos_write_index i (ucast data) s) (\<lambda>s. Inr (s, w))
              else if i \<in> {RTC_SECONDS, RTC_MINUTES, RTC_HOURS, RTC_DAY_OF_WEEK,
                           RTC_DAY_OF_MONTH, RTC_MONTH, RTC_YEAR}
              then rbind (cmos_write_index i (ucast data) s) (\<lambda>s.
                     Inr (if reg s RTC_REG_B AND REG_B_SET = 0 then rtc_set_time E s else s, w))
              else if i = RTC_REG_A then cmos_write_reg_a E data s w
              else if i = RTC_REG_B then cmos_write_reg_b E data s w
              else if i = RTC_REG_C \<or> i = RTC_REG_D then Inr (s, w)
              else rbind (cmos_write_index i (ucast data) s) (\<lambda>s. Inr (s, w)))"

definition cmos_ioport_read :: "u32 \<Rightarrow> RTCState \<Rightarrow> world \<Rightarrow> (u32 \<times> RTCState \<times> world) res" where
  "cmos_ioport_read addr s w =
     (if addr AND 1 = 0 then Inr (0xff, s, w)
      else rbind (aget (cmos_data s) (unat (cmos_index s))) (\<lambda>ret.
             if unat (cmos_index s) = RTC_REG_C
             then let w = emit (SetIrq RTC_IRQ 0) w
                  in if nz (irq_coalesced s) \<and>
                        irq_reinject_on_ack_count s < RTC_REINJECT_ON_ACK_COUNT
                     then Inr (ucast ret,
                               s\<lparr>irq_reinject_on_ack_count := irq_reinject_on_ack_count s + 1\<rparr>,
                               emit (SetIrq RTC_IRQ 1) w)
                     else Inr (ucast ret, set_reg RTC_REG_C 0x00 s, w)
             else Inr (ucast ret, s, w)))"

section \<open>Initialisation and the VMM's entry points\<close>

definition rtc_set_memory :: "int \<Rightarrow> i32 \<Rightarrow> RTCState \<Rightarrow> RTCState" where
  "rtc_set_memory addr val s =
     (if 0 \<le> addr \<and> addr \<le> 127 then set_reg (nat addr) (ucast val) s else s)"

definition rtc_set_date :: "env \<Rightarrow> rtc_time_date \<Rightarrow> RTCState \<Rightarrow> RTCState" where
  "rtc_set_date E tm s = rtc_copy_date E (s\<lparr>current_tm := tm\<rparr>)"

definition rtc_set_date_from_host :: "env \<Rightarrow> RTCState \<Rightarrow> world \<Rightarrow> RTCState \<times> world" where
  "rtc_set_date_from_host E s w =
     (let (tm, w) = rtc_time E w;
          s = rtc_set_date E tm s;
          val = rtc_to_bcd s (word_of_int (tm_year tm sdiv 100 + 19));
          s = rtc_set_memory 0x32 val s;
          s = rtc_set_memory 0x37 val s
      in (s, w))"

definition rtc_reset :: "RTCState \<Rightarrow> world \<Rightarrow> RTCState \<times> world" where
  "rtc_reset s w =
     (let s = set_reg RTC_REG_B
                (reg s RTC_REG_B AND NOT (REG_B_PIE OR REG_B_AIE OR REG_B_SQWE)) s;
          s = set_reg RTC_REG_C
                (reg s RTC_REG_C AND NOT (REG_C_UF OR REG_C_IRQF OR REG_C_PF OR REG_C_AF)) s;
          w = emit (SetIrq RTC_IRQ 0) w
      in (if nz rtc_td_hack then s\<lparr>irq_coalesced := 0\<rparr> else s, w))"

definition rtc_initfn :: "env \<Rightarrow> RTCState \<Rightarrow> world \<Rightarrow> RTCState \<times> world" where
  "rtc_initfn E s w =
     (let s = set_reg RTC_REG_A 0x26 s;
          s = set_reg RTC_REG_B 0x02 s;
          s = set_reg RTC_REG_C 0x00 s;
          s = set_reg RTC_REG_D 0x80 s;
          (s, w) = rtc_set_date_from_host E s w;
          (now, w) = timer_time E w;
          s = s\<lparr>next_second_time := now + c_sdiv (get_ticks_per_sec * 99) 100\<rparr>
      in (s, emit (OneshotAbs TIMER_SECOND_TIMER2 (next_second_time s)) w))"

definition rtc_pre_init :: "env \<Rightarrow> RTCState \<Rightarrow> world \<Rightarrow> RTCState \<times> world" where
  "rtc_pre_init E s w =
     (let s = s\<lparr>base_year := 1900\<rparr>;
          (s, w) = rtc_initfn E s w
      in rtc_reset s w)"

definition rtc_timer_interrupt ::
    "env \<Rightarrow> u32 \<Rightarrow> RTCState \<Rightarrow> world \<Rightarrow> (RTCState \<times> world) res" where
  "rtc_timer_interrupt E completed s w =
     rbind (if bit completed TIMER_PERIODIC_TIMER then rtc_periodic_timer s w else Inr (s, w)) (\<lambda>(s, w).
     rbind (if bit completed TIMER_COALESCED_TIMER then rtc_coalesced_timer E s w else Inr (s, w))
       (\<lambda>(s, w).
       let (s, w) = (if bit completed TIMER_SECOND_TIMER then rtc_update_second E s w else (s, w));
           (s, w) = (if bit completed TIMER_SECOND_TIMER2 then rtc_update_second2 E s w else (s, w))
       in Inr (s, w)))"

text \<open>An access that is not one byte wide reaches a failing \<^verbatim>\<open>assert\<close>.\<close>

definition cmos_port_in ::
    "u32 \<Rightarrow> u32 \<Rightarrow> RTCState \<Rightarrow> world \<Rightarrow>
     (ioport_fault_result \<times> u32 option \<times> RTCState \<times> world) res" where
  "cmos_port_in port_no sz s w =
     (if sz \<noteq> 1 then rbind (rassert False) (\<lambda>_. Inr (IO_FAULT_ERROR, None, s, w))
      else rbind (cmos_ioport_read port_no s w) (\<lambda>(r, s, w).
           Inr (IO_FAULT_HANDLED, Some r, s, w)))"

definition cmos_port_out ::
    "env \<Rightarrow> u32 \<Rightarrow> u32 \<Rightarrow> u32 \<Rightarrow> RTCState \<Rightarrow> world \<Rightarrow>
     (ioport_fault_result \<times> RTCState \<times> world) res" where
  "cmos_port_out E port_no sz value s w =
     (if sz \<noteq> 1 then rbind (rassert False) (\<lambda>_. Inr (IO_FAULT_ERROR, s, w))
      else rbind (cmos_ioport_write E port_no value s w) (\<lambda>(s, w).
           Inr (IO_FAULT_HANDLED, s, w)))"

section \<open>Multiplication and division are exact\<close>

lemma long_division:
  fixes c b h l K :: nat
  assumes c: "0 < c"
  defines "r \<equiv> h * b + l * b div K"
  shows "(h * K + l) * b div c = r div c * K + (r mod c * K + l * b mod K) div c"
proof -
  have "l * b = l * b div K * K + l * b mod K" by simp
  then have "(h * K + l) * b = r * K + l * b mod K"
    unfolding r_def add_mult_distrib by (simp only: ac_simps)
  also have "r * K = (r div c * K) * c + r mod c * K"
    by (metis add_mult_distrib div_mult_mod_eq mult.assoc mult.commute)
  finally have "(h * K + l) * b = (r mod c * K + l * b mod K) + (r div c * K) * c"
    by simp
  then show ?thesis using c by simp
qed

lemma join_words:
  fixes q L K :: nat
  assumes "L < K"
  shows "(q * K + L) mod (K * K) = q mod K * K + L" "q mod K * K + L < K * K"
proof -
  show e: "(q * K + L) mod (K * K) = q mod K * K + L"
    using assms by (simp add: mod_mult2_eq)
  show "q mod K * K + L < K * K" unfolding e [symmetric] using assms by (intro mod_less_divisor) simp
qed

lemma two_halves:
  fixes hi lo :: u64
  assumes "unat lo < 2 ^ 32"
  shows "unat (push_bit 32 (ucast (ucast hi :: u32)) OR ucast (ucast lo :: u32) :: u64) =
    (unat hi * 2 ^ 32 + unat lo) mod 2 ^ 64"
proof -
  let ?hi = "ucast hi :: u32" and ?lo = "ucast lo :: u32"
  have hi: "unat ?hi = unat hi mod 2 ^ 32" by (simp only: unsigned_ucast_eq take_bit_eq_mod) simp
  have lo: "unat ?lo = unat lo" using assms by (simp only: unsigned_ucast_eq take_bit_eq_mod) simp
  have "push_bit 32 (ucast ?hi) AND (ucast ?lo :: u64) = 0"
    by (rule bit_word_eqI) (auto simp: bit_simps)
  then have y: "push_bit 32 (ucast ?hi) OR (ucast ?lo :: u64) = push_bit 32 (ucast ?hi) + ucast ?lo"
    by (rule disjunctive_add_eq_or [symmetric])
  have p: "unat (push_bit 32 (ucast ?hi :: u64)) = unat hi mod 2 ^ 32 * 2 ^ 32"
    by (simp add: unat_push_bit unat_ucast_32_64 hi mult_mod_right)
  have "unat hi mod 2 ^ 32 * 2 ^ 32 + unat lo < 2 ^ 64" using join_words(2) [OF assms, of "unat hi"] by simp
  then have "unat (push_bit 32 (ucast ?hi) + ucast ?lo :: u64) = unat hi mod 2 ^ 32 * 2 ^ 32 + unat lo"
    by (simp add: unat_plus_64 p unat_ucast_32_64 lo)
  then show ?thesis unfolding y using join_words(1) [OF assms, of "unat hi"] by simp
qed

lemma low_word_carried:
  fixes rh rl :: u64 and c :: u32
  assumes "c \<noteq> 0"
  shows "unat (push_bit 32 (rh mod ucast c) + (rl AND 0xffffffff)) = unat rh mod unat c * 2 ^ 32 + unat rl mod 2 ^ 32"
    "unat rh mod unat c * 2 ^ 32 + unat rl mod 2 ^ 32 < unat c * 2 ^ 32"
proof -
  have C: "0 < unat c" "unat c < 2 ^ 32"
    using assms unsigned_less [where 'a = nat and 'b = 32, of c] by (simp_all add: unat_gt_0)
  have "(unat rh mod unat c + 1) * 2 ^ 32 \<le> unat c * 2 ^ 32"
    using mod_less_divisor [OF C(1), of "unat rh"] by (intro mult_le_mono1) simp
  moreover have "unat rl mod 2 ^ 32 < 2 ^ 32" by simp
  ultimately show lt: "unat rh mod unat c * 2 ^ 32 + unat rl mod 2 ^ 32 < unat c * 2 ^ 32" by simp
  also have "\<dots> < 2 ^ 64" using C(2) by simp
  finally have lt64: "unat rh mod unat c * 2 ^ 32 + unat rl mod 2 ^ 32 < 2 ^ 64" .
  have "rl AND 0xffffffff = take_bit 32 rl" by (simp add: take_bit_eq_mask mask_numeral)
  then have "unat (rl AND 0xffffffff) = unat rl mod 2 ^ 32"
    by (simp only: unsigned_take_bit_eq take_bit_eq_mod [where 'a = nat])
  moreover have "unat (rh mod ucast c) = unat rh mod unat c" by (simp add: unat_mod unat_ucast_32_64)
  then have "unat (push_bit 32 (rh mod ucast c)) = unat rh mod unat c * 2 ^ 32" using lt64 by (simp add: unat_push_bit)
  ultimately show "unat (push_bit 32 (rh mod ucast c) + (rl AND 0xffffffff)) = unat rh mod unat c * 2 ^ 32 + unat rl mod 2 ^ 32"
    using lt64 by (simp add: unat_plus_64)
qed

lemma partial_products:
  fixes a :: u64 and b :: u32
  defines "l \<equiv> unat a mod 2 ^ 32" and "h \<equiv> unat a div 2 ^ 32"
  shows "unat (ucast (ucast a :: u32) * ucast b :: u64) = l * unat b"
    "unat ((ucast (ucast (drop_bit 32 a) :: u32) * ucast b :: u64) + drop_bit 32 (ucast (ucast a :: u32) * ucast b)) =
      h * unat b + l * unat b div 2 ^ 32"
proof -
  let ?B = "unat b"
  have le: "h \<le> 2 ^ 32 - 1" "l \<le> 2 ^ 32 - 1" "?B \<le> 2 ^ 32 - 1"
    using unat_u64 [of a] unsigned_less [where 'a = nat and 'b = 32, of b] by (auto simp: h_def l_def)
  have hb: "h * ?B \<le> (2 ^ 32 - 1) * (2 ^ 32 - 1)" and lb: "l * ?B \<le> (2 ^ 32 - 1) * (2 ^ 32 - 1)"
    by (rule mult_le_mono [OF le(1,3)], rule mult_le_mono [OF le(2,3)])
  from lb have "l * ?B div 2 ^ 32 \<le> (2 ^ 32 - 1) * (2 ^ 32 - 1) div 2 ^ 32" by (rule div_le_mono)
  with hb have r: "h * ?B + l * ?B div 2 ^ 32 < 2 ^ 64" by simp
  have h: "unat (ucast (drop_bit 32 a) :: u32) = h"
    using unat_u64 [of a] by (simp add: h_def unsigned_ucast_eq unat_drop_bit take_bit_nat_eq_self)
  have l: "unat (ucast a :: u32) = l" by (simp add: l_def unsigned_ucast_eq take_bit_eq_mod)
  show rl: "unat (ucast (ucast a :: u32) * ucast b :: u64) = l * ?B"
    using lb by (simp add: unat_word_ariths unat_ucast_32_64 l)
  show "unat ((ucast (ucast (drop_bit 32 a) :: u32) * ucast b :: u64) + drop_bit 32 (ucast (ucast a :: u32) * ucast b)) =
      h * ?B + l * ?B div 2 ^ 32"
  proof -
    have d: "unat (drop_bit 32 (ucast (ucast a :: u32) * ucast b :: u64)) = l * ?B div 2 ^ 32"
      by (simp only: unat_drop_bit rl)
    have m: "unat (ucast (ucast (drop_bit 32 a) :: u32) * ucast b :: u64) = h * ?B"
      using hb by (simp add: unat_word_ariths unat_ucast_32_64 h)
    show ?thesis using r by (simp only: unat_plus_64 d m)
  qed
qed

lemma muldiv64_div:
  assumes "c \<noteq> 0"
  shows "ok (muldiv64 a b c) (\<lambda>r. unat r = unat a * unat b div unat c mod 2 ^ 64)"
proof -
  define rl where "rl = (ucast (ucast a :: u32) * ucast b :: u64)"
  define rh where "rh = (ucast (ucast (drop_bit 32 a) :: u32) * ucast b :: u64) + drop_bit 32 rl"
  define lw where "lw = push_bit 32 (rh mod ucast c) + (rl AND 0xffffffff)"
  have C: "0 < unat c" using assms by (simp add: unat_gt_0)
  note pp = partial_products [of a b, folded rl_def, folded rh_def]
  note lw = low_word_carried [OF assms, of rh rl, folded lw_def]
  have q: "unat (rh div ucast c) = unat rh div unat c" "unat (lw div ucast c) = unat lw div unat c"
    by (simp_all add: unat_div unat_ucast_32_64)
  have low: "unat (lw div ucast c) < 2 ^ 32"
    unfolding q(2) lw(1) using lw(2) C by (simp add: div_less_iff_less_mult mult.commute)
  have "ucast c \<noteq> (0 :: u64)"
    using assms unat_ucast_32_64 [of c] by (metis unat_0 unat_eq_zero)
  then have "muldiv64 a b c = Inr (push_bit 32 (ucast (ucast (rh div ucast c) :: u32)) OR
      ucast (ucast (lw div ucast c) :: u32))"
    by (auto simp: muldiv64_def Let_def udiv_def umod_def rl_def [symmetric] rh_def [symmetric] lw_def [symmetric])
  moreover have "unat a * unat b div unat c = unat rh div unat c * 2 ^ 32 + unat lw div unat c"
    using long_division [OF C, of "unat a div 2 ^ 32" "2 ^ 32" "unat a mod 2 ^ 32" "unat b"]
    unfolding lw(1) pp by simp
  ultimately show ?thesis using two_halves [OF low, of "rh div ucast c"] unfolding q by simp
qed

text \<open>
  C31. The 96-bit multiplication and division computes \<open>a * b div c\<close> exactly, modulo the width of
  its result, for every nonzero divisor.
\<close>

theorem muldiv64_is_exact:
  assumes "c \<noteq> 0"
  shows "ok (muldiv64 a b c) (\<lambda>r. unat r = unat a * unat b div unat c mod 2 ^ 64)"
  using assms by (rule muldiv64_div)

theorem muldiv64_is_exact_witness:
  "ok (muldiv64 30517578125 32768 1000000000) (\<lambda>r. unat r = 1000000)"
  using muldiv64_is_exact [of 1000000000 30517578125 32768] by simp

section \<open>No guest access faults\<close>

definition rtc_inv :: "RTCState \<Rightarrow> bool" where
  "rtc_inv s \<longleftrightarrow> length (cmos_data s) = 128 \<and> unat (cmos_index s) < 128 \<and> irq_coalesced s = 0 \<and>
     reg s RTC_REG_D = 0x80"

definition rtc_line :: "RTCState \<Rightarrow> world \<Rightarrow> bool" where
  "rtc_line s w \<longleftrightarrow> (nz (reg s RTC_REG_C AND REG_C_IRQF) \<longrightarrow> irq_level RTC_IRQ (out w) = 1)"

definition rgood :: "RTCState \<times> world \<Rightarrow> bool" where
  "rgood p \<longleftrightarrow> rtc_inv (fst p) \<and> rtc_line (fst p) (snd p)"

lemma rgood_pair [simp]: "rgood (s, w) = (rtc_inv s \<and> rtc_line s w)"
  by (simp add: rgood_def)

lemma length_set_reg [simp]: "length (cmos_data (set_reg r v s)) = length (cmos_data s)"
  by (simp add: set_reg_def)

lemma reg_set_reg [simp]:
  "length (cmos_data s) = 128 \<Longrightarrow> r < 128 \<Longrightarrow> reg (set_reg r v s) q = (if q = r then v else reg s q)"
  by (simp add: set_reg_def nth_list_update)

lemma set_reg_fields [simp]:
  "cmos_index (set_reg r v s) = cmos_index s" "irq_coalesced (set_reg r v s) = irq_coalesced s"
  "current_tm (set_reg r v s) = current_tm s" "next_periodic_time (set_reg r v s) = next_periodic_time s"
  "period (set_reg r v s) = period s" "base_year (set_reg r v s) = base_year s"
  by (simp_all add: set_reg_def)

lemma rtc_set_time_cmos [simp]:
  "cmos_data (rtc_set_time E s) = cmos_data s" "cmos_index (rtc_set_time E s) = cmos_index s"
  "irq_coalesced (rtc_set_time E s) = irq_coalesced s"
  by (simp_all add: rtc_set_time_def Let_def)

lemma rtc_copy_date_fields [simp]:
  "length (cmos_data (rtc_copy_date E s)) = length (cmos_data s)"
  "cmos_index (rtc_copy_date E s) = cmos_index s" "irq_coalesced (rtc_copy_date E s) = irq_coalesced s"
  "length (cmos_data s) = 128 \<Longrightarrow> 9 < r \<Longrightarrow> reg (rtc_copy_date E s) r = reg s r"
  by (simp_all add: rtc_copy_date_def Let_def)

lemma rtc_line_other [simp]:
  "rtc_line s (w\<lparr>timer_reads := n\<rparr>) = rtc_line s w"
  "rtc_line s (emit (OneshotAbs i t) w) = rtc_line s w"
  "rtc_line s (emit (TimerStop i) w) = rtc_line s w"
  "rtc_line s (emit (SetIrq RTC_IRQ 1) w)"
  "rtc_line s (snd (timer_time E w)) = rtc_line s w"
  by (simp_all add: rtc_line_def timer_time_def)

definition rtc_period :: "u8 \<Rightarrow> nat" where
  "rtc_period a = (let c = unat (a AND 0x0f) in 2 ^ ((if c \<le> 2 then c + 7 else c) - 1))"

lemma rtc_period_word:
  fixes a :: u8
  defines "c \<equiv> ucast (a AND 0x0f) :: i32"
  assumes "c \<noteq> 0"
  shows "unat (push_bit (unat ((if sint c \<le> 2 then c + 7 else c) - 1)) 1 :: i32) = rtc_period a"
    "rtc_period a \<le> 2 ^ 14"
proof -
  have c: "unat c = unat (a AND 0x0f)" "unat c \<le> 15"
    using unat_and_le [of a "0x0f"] by (simp_all add: c_def unsigned_ucast_eq take_bit_nat_eq_self)
  have s: "sint c \<le> 2 \<longleftrightarrow> unat c \<le> 2" using c(2) by (intro sint_counter) simp
  define d where "d = (if sint c \<le> 2 then c + 7 else c)"
  have d: "unat d = (if unat c \<le> 2 then unat c + 7 else unat c)"
    using c(2) by (simp add: d_def s unat_word_ariths)
  moreover have "0 < unat c" using assms(2) by (simp add: unat_gt_0)
  ultimately have "0 < unat d" "unat d \<le> 15" using c(2) by auto
  then have k: "unat (d - 1) = unat d - 1" "unat d - 1 \<le> 14" by (simp_all add: unat_dec unat_gt_0)
  have "(2 :: nat) ^ (unat d - 1) \<le> 2 ^ 14" using k(2) by (intro power_increasing) simp_all
  then have "unat (push_bit (unat (d - 1)) 1 :: i32) = 2 ^ (unat d - 1)"
    by (simp only: unat_push_bit k(1)) simp
  moreover have per: "rtc_period a = 2 ^ (unat d - 1)"
    unfolding rtc_period_def Let_def c(1) [symmetric] d ..
  ultimately show "unat (push_bit (unat ((if sint c \<le> 2 then c + 7 else c) - 1)) 1 :: i32) = rtc_period a"
    unfolding d_def [symmetric] by simp
  show "rtc_period a \<le> 2 ^ 14"
    unfolding per by (rule \<open>2 ^ (unat d - 1) \<le> 2 ^ 14\<close>)
qed

lemma ok_rtc_timer_update:
  assumes "rtc_inv s" "rtc_line s w"
  shows "ok (rtc_timer_update s t w) (\<lambda>p. rgood p \<and> cmos_data (fst p) = cmos_data s)"
proof -
  let ?c = "ucast (reg s 10 AND 0x0f) :: i32"
  have p: "push_bit (unat ((if sint ?c \<le> 2 then ?c + 7 else ?c) - 1)) 1 \<noteq> (0 :: i32)" if "?c \<noteq> 0"
  proof -
    have "0 < rtc_period (reg s 10)" by (simp add: rtc_period_def Let_def)
    then show ?thesis using rtc_period_word(1) [OF that] by (metis unat_0 less_irrefl)
  qed
  have "ok (muldiv64 x 32768 (ucast get_ticks_per_sec)) (\<lambda>_. True)"
    "ok (muldiv64 x (ucast get_ticks_per_sec) 32768) (\<lambda>_. True)" for x
    by (rule ok_mono [OF muldiv64_div]; simp add: get_ticks_per_sec_def)+
  then show ?thesis
    using assms p
    apply (simp add: rtc_timer_update_def Let_def)
    apply (auto simp: rtc_inv_def rtc_line_def ok_iff_ex)
    done
qed

lemma rtc_or_c0 [simp]: "rtc_line (set_reg r v s) (emit (SetIrq RTC_IRQ 1) w)"
  by (simp add: rtc_line_def)

lemma rtc_inv_set_reg: "rtc_inv s \<Longrightarrow> r \<noteq> 13 \<Longrightarrow> rtc_inv (set_reg r v s)"
  by (cases "r < 128") (auto simp: rtc_inv_def set_reg_def nth_list_update)

lemma rtc_inv_fields [simp]:
  "rtc_inv (s\<lparr>irq_reinject_on_ack_count := n\<rparr>) = rtc_inv s"
  "rtc_inv (s\<lparr>current_tm := tm\<rparr>) = rtc_inv s"
  "rtc_inv (s\<lparr>next_second_time := t\<rparr>) = rtc_inv s"
  "rtc_line (s\<lparr>irq_reinject_on_ack_count := n\<rparr>) = rtc_line s"
  "rtc_line (s\<lparr>current_tm := tm\<rparr>) = rtc_line s"
  "rtc_line (s\<lparr>next_second_time := t\<rparr>) = rtc_line s"
  by (simp_all add: rtc_inv_def rtc_line_def fun_eq_iff)

lemma rtc_line_set_reg: 
  "length (cmos_data s) = 128 \<Longrightarrow> r \<noteq> 12 \<Longrightarrow> rtc_line (set_reg r v s) w = rtc_line s w"
  by (cases "r < 128") (auto simp: rtc_line_def set_reg_def nth_list_update)

lemma rtc_inv_length: "rtc_inv s \<Longrightarrow> length (cmos_data s) = 128"
  by (simp add: rtc_inv_def)

lemma rgood_copy_date:
  "rtc_inv s \<Longrightarrow> rtc_inv (rtc_copy_date E s)" "rtc_inv s \<Longrightarrow> rtc_line (rtc_copy_date E s) w = rtc_line s w"
  by (simp_all add: rtc_inv_def rtc_line_def)

lemma rgood_set_time:
  "rtc_inv (rtc_set_time E s) = rtc_inv s" "rtc_line (rtc_set_time E s) w = rtc_line s w"
  by (simp_all add: rtc_inv_def rtc_line_def)

lemma ok_rtc_periodic_timer:
  assumes "rtc_inv s" "rtc_line s w"
  shows "ok (rtc_periodic_timer s w) rgood"
  unfolding rtc_periodic_timer_def Let_def ok_rbind
  by (rule ok_mono [OF ok_rtc_timer_update [OF assms]])
    (auto simp: rtc_td_hack_def rtc_inv_set_reg)

lemma ok_rtc_coalesced_timer:
  "rtc_inv s \<Longrightarrow> rtc_line s w \<Longrightarrow> ok (rtc_coalesced_timer E s w) rgood"
  by (simp add: rtc_coalesced_timer_def rtc_coalesced_timer_update_def) (simp add: rtc_inv_def)

lemma rgood_rtc_update_second:
  "rtc_inv s \<Longrightarrow> rtc_line s w \<Longrightarrow> rgood (rtc_update_second E s w)"
  by (simp add: rtc_update_second_def Let_def rtc_inv_set_reg rtc_line_set_reg rtc_inv_length)

lemma rtc_line_uf: "length (cmos_data s) = 128 \<Longrightarrow> rtc_line (set_reg 12 (reg s 12 OR 0x10) s) w = rtc_line s w"
  by (simp add: rtc_line_def word_ao_dist)

lemma rgood_rtc_update_second2:
  "rtc_inv s \<Longrightarrow> rtc_line s w \<Longrightarrow> rgood (rtc_update_second2 E s w)"
  apply (simp add: rtc_update_second2_def Let_def split_beta rtc_inv_set_reg rtc_line_set_reg rtc_inv_length rgood_copy_date rtc_line_uf)
  done

lemma rgood_timer_update:
  "rtc_inv s \<Longrightarrow> rtc_line s w \<Longrightarrow> ok (rtc_timer_update s t w) rgood"
  by (rule ok_mono [OF ok_rtc_timer_update]) simp_all

lemma ok_cmos_write_index:
  "rtc_inv s \<Longrightarrow> i < 128 \<Longrightarrow> i \<noteq> 12 \<Longrightarrow> i \<noteq> 13 \<Longrightarrow>
   ok (cmos_write_index i v s) (\<lambda>t. rtc_inv t \<and> (\<forall>w. rtc_line t w = rtc_line s w))"
  using rtc_inv_set_reg [of s i v] rtc_line_set_reg [of s i v]
  by (simp add: cmos_write_index_def rtc_inv_length set_reg_def)

lemma ok_cmos_ioport_write:
  assumes "rtc_inv s" "rtc_line s w"
  shows "ok (cmos_ioport_write E addr v s w) rgood"
proof -
  have i: "unat (cmos_index s) < 128" using assms by (simp add: rtc_inv_def)
  have "unat (ucast (v AND 0x7f) :: u8) < 128" by (intro unat_ucast_less unat_and_lt) simp
  then have idx: "rtc_inv (s\<lparr>cmos_index := ucast (v AND 0x7f)\<rparr>)" "rtc_line (s\<lparr>cmos_index := x\<rparr>) w" for x
    using assms by (simp_all add: rtc_inv_def rtc_line_def)
  have a: "ok (cmos_write_reg_a E v s w) rgood"
    unfolding cmos_write_reg_a_def Let_def case_prod_beta
    using assms by (intro rgood_timer_update) (simp_all add: rtc_inv_set_reg rtc_line_set_reg rtc_inv_length)
  have b: "ok (cmos_write_reg_b E v s w) rgood"
    unfolding cmos_write_reg_b_def Let_def case_prod_beta
    using assms by (intro rgood_timer_update)
     (simp_all add: rtc_inv_set_reg rtc_line_set_reg rtc_inv_length rgood_copy_date rgood_set_time)
  show ?thesis
    unfolding cmos_ioport_write_def Let_def
    using assms i idx a b
    by (auto intro!: ok_mono [OF ok_cmos_write_index] simp: rgood_set_time)
qed

lemma ok_cmos_ioport_read:
  "rtc_inv s \<Longrightarrow> rtc_line s w \<Longrightarrow> ok (cmos_ioport_read addr s w) (\<lambda>x. rgood (snd x))"
  by (auto simp: cmos_ioport_read_def Let_def rtc_inv_def rtc_line_def set_reg_def)

lemma ok_rtc_timer_interrupt:
  assumes "rtc_inv s" "rtc_line s w"
  shows "ok (rtc_timer_interrupt E c s w) rgood"
proof -
  have D: "rtc_inv (fst p)" "rtc_line (fst p) (snd p)" if "rgood p" for p
    using that by (simp_all add: rgood_def)
  show ?thesis
    unfolding rtc_timer_interrupt_def Let_def case_prod_beta
    using assms
    by (auto intro!: ok_mono [OF ok_rtc_periodic_timer] ok_mono [OF ok_rtc_coalesced_timer]
        simp: rgood_rtc_update_second rgood_rtc_update_second2 D)
qed

lemma rtc_pre_init_good: "rgood (rtc_pre_init E rtc_bss w)"
  by (simp add: rtc_pre_init_def rtc_initfn_def rtc_set_date_from_host_def rtc_set_date_def
     rtc_reset_def rtc_set_memory_def rtc_td_hack_def Let_def split_beta)
    (simp add: rtc_inv_def rtc_line_def rtc_bss_def)

datatype rtc_op = CmosIn u32 | CmosOut u32 u32 | RtcTimer u32

fun rtc_step :: "env \<Rightarrow> rtc_op \<Rightarrow> RTCState \<times> world \<Rightarrow> (RTCState \<times> world) res" where
  "rtc_step E (CmosIn p) (s, w) = rbind (cmos_port_in p 1 s w) (\<lambda>(_, _, s, w). Inr (s, w))"
| "rtc_step E (CmosOut p v) (s, w) = rbind (cmos_port_out E p 1 v s w) (\<lambda>(_, s, w). Inr (s, w))"
| "rtc_step E (RtcTimer c) (s, w) = rtc_timer_interrupt E c s w"

lemma rtc_step_ok: "rgood p \<Longrightarrow> ok (rtc_step E op p) rgood"
  by (cases p; cases op)
    (auto simp: cmos_port_in_def cmos_port_out_def split_beta intro!: ok_mono [OF ok_cmos_ioport_read]
      ok_mono [OF ok_cmos_ioport_write] ok_rtc_timer_interrupt)

interpretation rtc_dev: safe_device "rtc_step E" rgood "\<lambda>_. True"
  by unfold_locales (rule rtc_step_ok)

text \<open>
  However the guest drives the clock after it has been set up by byte-wide port accesses, with
  timer interrupts in between: no access leaves the register array and no division is by zero, no
  interrupts are ever coalesced, register D keeps its value, and the IRQ line is high whenever the
  interrupt request flag of register C is set.
\<close>

theorem rtc_guest_safe:
  "ok (run_ops (rtc_step E) ops (rtc_pre_init E rtc_bss w)) (\<lambda>(s, w').
     rtc_inv s \<and> (irq_level RTC_IRQ (out w') = 1 \<or> reg s RTC_REG_C AND REG_C_IRQF = 0))"
proof -
  have "list_all (\<lambda>_. True) ops" by (induction ops) simp_all
  from rtc_dev.run_ok [OF rtc_pre_init_good this, of E E w] show ?thesis
    by (auto simp: rtc_line_def elim!: ok_mono)
qed

text \<open>
  A guest access to the clock's ports that is not one byte wide fails an assertion of the
  monitor, unlike the serial port and the PIT, which report an error.
\<close>

theorem cmos_wide_access_faults:
  assumes "sz \<noteq> 1"
  shows "cmos_port_in p sz s w = Inl AssertFail \<and> cmos_port_out E p sz v s w = Inl AssertFail"
  using assms by (simp add: cmos_port_in_def cmos_port_out_def rassert_def)

theorem cmos_wide_access_faults_witness: "cmos_port_in 0x71 2 rtc_bss boot_world = Inl AssertFail"
  using cmos_wide_access_faults [of 2 "0x71" rtc_bss boot_world] by simp

section \<open>Setting and reading the date\<close>

text \<open>Every two-digit value survives the register's encoding, checked value by value.\<close>

lemma bcd_bytes:
  "list_all (\<lambda>n. let a = word_of_nat n :: i32; b = ucast (push_bit 4 (c_sdiv a 10) OR c_smod a 10) :: u8
     in signed_drop_bit 4 (ucast b :: i32) * 10 + (ucast b AND 0x0f) = a) [0..<100]"
  by code_simp

lemma bcd_hours:
  "list_all (\<lambda>n. let a = word_of_nat n :: i32; b = ucast (push_bit 4 (c_sdiv a 10) OR c_smod a 10) :: u8
     in b AND 0x80 = 0 \<and> (ucast a :: u8) AND 0x80 = 0) [0..<24]"
  by code_simp

lemma sint_of_small: "0 \<le> n \<Longrightarrow> n < 2 ^ 31 \<Longrightarrow> sint (word_of_int n :: i32) = n"
proof -
  assume n: "0 \<le> n" "n < 2 ^ 31"
  obtain k where k: "n = int k" "k < 2 ^ 31" using n by (auto elim: nonneg_int_cases)
  then have "unat (word_of_nat k :: i32) = k" by (simp add: unat_of_nat)
  then show ?thesis using sint_small [of "word_of_nat k :: i32"] k by simp
qed

lemma smod_pos: "0 \<le> (a :: int) \<Longrightarrow> 0 < b \<Longrightarrow> a smod b = a mod b"
  by (auto simp: signed_modulo_int_def signed_divide_int_def sgn_if minus_div_mult_eq_mod)

definition two_digits :: "int \<Rightarrow> bool" where
  "two_digits n \<longleftrightarrow> 0 \<le> n \<and> n < 100"

lemma reg_byte_bcd:
  assumes "two_digits n" "reg t 11 AND REG_B_DM = reg s 11 AND REG_B_DM"
  shows "sint (rtc_from_bcd t (ucast (ucast (rtc_to_bcd s (word_of_int n)) :: u8))) = n"
proof -
  obtain k where k: "n = int k" "k < 100"
    using assms(1) by (auto simp: two_digits_def elim: nonneg_int_cases)
  have u: "unat (word_of_nat k :: i32) = k" using k(2) by (simp add: unat_of_nat)
  then have si: "sint (word_of_nat k :: i32) = int k"
    using k(2) sint_small [of "word_of_nat k :: i32"] by simp
  have b: "ucast (ucast (word_of_nat k :: i32) :: u8) = (word_of_nat k :: i32)"
    using k(2) u by (simp add: word_unat_eq_iff unsigned_ucast_eq take_bit_eq_mod unat_mod)
  have d: "signed_drop_bit 4 (ucast b :: i32) * 10 + (ucast b AND 0x0f) = word_of_nat k"
    if "b = (ucast (push_bit 4 (c_sdiv (word_of_nat k :: i32) 10) OR c_smod (word_of_nat k) 10) :: u8)" for b
    using bcd_bytes k(2) that by (simp add: list_all_iff Let_def)
  show ?thesis
    using assms(2) si b d by (auto simp: rtc_to_bcd_def rtc_from_bcd_def k(1))
qed

lemma reg_byte_hour:
  assumes "0 \<le> n" "n < 24"
  shows "(ucast (rtc_to_bcd s (word_of_int n)) :: u8) AND 0x80 = 0"
proof -
  obtain k where k: "n = int k" "k < 24" using assms by (auto elim: nonneg_int_cases)
  then show ?thesis
    using bcd_hours by (auto simp: list_all_iff Let_def rtc_to_bcd_def)
qed

lemma and_7f:
  "(x :: u8) AND 0x80 = 0 \<Longrightarrow> x AND 0x7f = x" "(x :: u8) AND 0x80 = 0 \<Longrightarrow> (x OR 0x80) AND 0x7f = x"
  "nz ((x OR 0x80) AND (0x80 :: u8))"
proof -
  have "x AND (0x80 OR 0x7f) = x" by (simp add: and_ff take_bit_word_eq_self)
  then have "x = (x AND 0x80) OR (x AND 0x7f)" by (metis word_bw_comms(1) word_ao_dist)
  then show a: "x AND 0x80 = 0 \<Longrightarrow> x AND 0x7f = x" by simp
  show "x AND 0x80 = 0 \<Longrightarrow> (x OR 0x80) AND 0x7f = x" using a by (simp add: word_ao_dist)
  have "(x OR 0x80) AND 0x80 = (0x80 :: u8)" by (simp add: word_ao_absorbs)
  then show "nz ((x OR 0x80) AND (0x80 :: u8))" by simp
qed

lemma rtc_to_bcd_set_reg [simp]:
  "length (cmos_data s) = 128 \<Longrightarrow> r < 128 \<Longrightarrow> r \<noteq> 11 \<Longrightarrow> rtc_to_bcd (set_reg r v s) a = rtc_to_bcd s a"
  by (simp add: rtc_to_bcd_def)

definition valid_time :: "rtc_time_date \<Rightarrow> bool" where
  "valid_time tm \<longleftrightarrow> 0 \<le> tm_second tm \<and> tm_second tm < 60 \<and> 0 \<le> tm_minute tm \<and> tm_minute tm < 60 \<and>
     0 \<le> tm_hour tm \<and> tm_hour tm < 24"

lemma regs_after_copy:
  fixes E s
  assumes "length (cmos_data s) = 128"
  defines "t \<equiv> rtc_copy_date E s" and "tm \<equiv> current_tm s"
  shows "reg t 0 = ucast (rtc_to_bcd s (word_of_int (tm_second tm)))"
    "reg t 2 = ucast (rtc_to_bcd s (word_of_int (tm_minute tm)))"
    "reg t 4 = (if nz (reg s 11 AND 2) then ucast (rtc_to_bcd s (word_of_int (tm_hour tm)))
       else if 12 \<le> tm_hour tm then ucast (rtc_to_bcd s (word_of_int (tm_hour tm smod 12))) OR 0x80
       else ucast (rtc_to_bcd s (word_of_int (tm_hour tm smod 12))))"
    "reg t 7 = ucast (rtc_to_bcd s (word_of_int (tm_day tm)))"
    "reg t 8 = ucast (rtc_to_bcd s (word_of_int (tm_month tm)))"
    "reg t 11 = reg s 11"
  using assms by (simp_all add: rtc_copy_date_def Let_def)


lemma rtc_set_after_copy:
  assumes "tm_exact E" "length (cmos_data s) = 128" "valid_time (current_tm s)"
    "two_digits (tm_day (current_tm s))" "1 \<le> tm_month (current_tm s)" "tm_month (current_tm s) \<le> 12"
  defines "tm' \<equiv> current_tm (rtc_set_time E (rtc_copy_date E s))"
  shows "tm_second tm' = tm_second (current_tm s)" "tm_minute tm' = tm_minute (current_tm s)"
    "tm_hour tm' = tm_hour (current_tm s)" "tm_day tm' = tm_day (current_tm s)"
    "tm_month tm' = tm_month (current_tm s) - 1"
proof -
  let ?tm = "current_tm s" and ?t = "rtc_copy_date E s"
  note r = regs_after_copy [OF assms(2), of E]
  have f: "tm_field E x = x" if "0 \<le> x" "x < 100" for x using assms(1) that by (simp add: tm_exact_def)
  have b: "sint (rtc_from_bcd ?t (ucast (ucast (rtc_to_bcd s (word_of_int n)) :: u8))) = n"
    if "two_digits n" for n using that r by (intro reg_byte_bcd) simp_all
  show "tm_second tm' = tm_second ?tm" "tm_minute tm' = tm_minute ?tm" "tm_day tm' = tm_day ?tm"
    using assms(3,4) by (simp_all add: tm'_def rtc_set_time_def Let_def r b f two_digits_def valid_time_def)
  have w: "w = word_of_int m" if "sint w = m" for w :: i32 and m
    unfolding that [symmetric] by simp
  have "rtc_from_bcd ?t (ucast (reg ?t 8)) = word_of_int (tm_month ?tm)"
    using assms(5,6) b [of "tm_month ?tm"] by (intro w) (simp add: r two_digits_def)
  moreover have "sint (word_of_int (tm_month ?tm) - 1 :: i32) = tm_month ?tm - 1"
    using assms(5,6) sint_of_small [of "tm_month ?tm - 1"] by simp
  ultimately have "sint (rtc_from_bcd ?t (ucast (reg ?t 8)) - 1) = tm_month ?tm - 1" by simp
  then show "tm_month tm' = tm_month ?tm - 1"
    using assms(5,6) by (simp add: tm'_def rtc_set_time_def Let_def f)
  show "tm_hour tm' = tm_hour ?tm"
  proof (cases "reg s 11 AND 2 = 0")
    case True
    let ?h = "tm_hour ?tm"
    have h: "0 \<le> ?h" "?h < 24" using assms(3) by (simp_all add: valid_time_def)
    define g where "g = ?h smod 12"
    have g: "0 \<le> g" "g < 12" "(if 12 \<le> ?h then g + 12 else g) = ?h"
      using h by (auto simp: g_def smod_pos mod_if zmod_zminus1_eq_if) presburger+
    have z: "(ucast (rtc_to_bcd s (word_of_int g)) :: u8) AND 0x80 = 0"
      using g by (intro reg_byte_hour) simp_all
    have bg: "sint (rtc_from_bcd ?t (ucast (ucast (rtc_to_bcd s (word_of_int g)) :: u8))) = g"
      using g by (intro b) (simp add: two_digits_def)
    show ?thesis
      using True h g
      by (simp add: tm'_def rtc_set_time_def Let_def r f g_def [symmetric] z and_7f bg split: if_splits)
  next
    case False
    then show ?thesis
      using assms(3) by (simp add: tm'_def rtc_set_time_def Let_def r b f two_digits_def valid_time_def and_7f reg_byte_hour)
  qed
qed


text \<open>
  C16. The month drifts: a guest that halts the clock after its registers have been filled from a
  valid date and lets it run again (\<^verbatim>\<open>rtc_copy_date\<close> then \<^verbatim>\<open>rtc_set_time\<close>)
  gets the time and the day back, in either hour format and in binary or BCD, but the month before:
  \<^verbatim>\<open>rtc_set_time\<close> subtracts the 1 that \<^verbatim>\<open>rtc_copy_date\<close> does not add.
\<close>

theorem rtc_month_drifts:
  assumes "tm_exact E" "rtc_inv s" "valid_time (current_tm s)" "two_digits (tm_day (current_tm s))"
    "1 \<le> tm_month (current_tm s)" "tm_month (current_tm s) \<le> 12"
  shows "let tm = current_tm s; tm' = current_tm (rtc_set_time E (rtc_copy_date E s))
         in tm_second tm' = tm_second tm \<and> tm_minute tm' = tm_minute tm \<and>
            tm_hour tm' = tm_hour tm \<and> tm_day tm' = tm_day tm \<and> tm_month tm' = tm_month tm - 1"
  using rtc_set_after_copy [OF assms(1) rtc_inv_length [OF assms(2)] assms(3-6)]
  by (simp add: Let_def)

definition sample_rtc :: RTCState where
  "sample_rtc = rtc_bss\<lparr>cmos_data := (replicate 128 0)[10 := 0x26, 11 := 0x02, 13 := 0x80],
     current_tm := system_rtc_time_date sample_env 0, base_year := 1900\<rparr>"

lemma sample_rtc_ok: "rtc_inv sample_rtc" "valid_time (current_tm sample_rtc)"
  "two_digits (tm_day (current_tm sample_rtc))" "tm_month (current_tm sample_rtc) = 2"
  by (simp_all add: sample_rtc_def rtc_bss_def rtc_inv_def valid_time_def two_digits_def sample_env_def)

theorem rtc_month_drifts_witness:
  "tm_month (current_tm (rtc_set_time sample_env (rtc_copy_date sample_env sample_rtc))) = 1"
  using rtc_month_drifts [OF sample_env_exact(4) sample_rtc_ok(1-3)] sample_rtc_ok(4)
  by (simp add: Let_def)

text \<open>
  In 12-hour BCD mode the register value 0x92, twelve o'clock with the PM bit, is read as
  hour 24, which no clock shows.
\<close>

theorem rtc_noon_is_hour_24:
  assumes "tm_exact E" "reg s RTC_REG_B AND REG_B_DM = 0" "reg s RTC_REG_B AND REG_B_24H = 0"
    and "reg s RTC_HOURS = 0x92"
  shows "tm_hour (current_tm (rtc_set_time E s)) = 24"
proof -
  have "tm_field E 12 = 12" "tm_field E 24 = 24" using assms(1) by (simp_all add: tm_exact_def)
  then show ?thesis
    using assms by (simp add: rtc_set_time_def Let_def rtc_from_bcd_def)
qed

theorem rtc_noon_is_hour_24_witness:
  "tm_hour (current_tm (rtc_set_time sample_env
     (rtc_bss\<lparr>cmos_data := (replicate 128 0)[4 := 0x92]\<rparr>))) = 24"
  using rtc_noon_is_hour_24 [OF sample_env_exact(4), of "rtc_bss\<lparr>cmos_data := (replicate 128 0)[4 := 0x92]\<rparr>"]
  by (simp add: rtc_bss_def)

section \<open>The calendar counts seconds\<close>

definition leap :: "int \<Rightarrow> bool" where
  "leap n \<longleftrightarrow> n mod 4 = 0 \<and> (n mod 100 \<noteq> 0 \<or> n mod 400 = 0)"

text \<open>The days from 1 January of year 1 of the Gregorian calendar, and the seconds.\<close>

definition day_number :: "int \<Rightarrow> int \<Rightarrow> int \<Rightarrow> int" where
  "day_number y m d =
     365 * (y - 1) + (y - 1) div 4 - (y - 1) div 100 + (y - 1) div 400 +
     sum_list (map (\<lambda>k. get_days_in_month (int k) y) [0..<nat m]) + d"

definition calendar_seconds :: "rtc_time_date \<Rightarrow> int" where
  "calendar_seconds tm =
     ((day_number (tm_year tm + 1900) (tm_month tm) (tm_day tm) * 24 + tm_hour tm) * 60 +
      tm_minute tm) * 60 + tm_second tm"

definition valid_date :: "rtc_time_date \<Rightarrow> bool" where
  "valid_date tm \<longleftrightarrow> valid_time tm \<and> 0 \<le> tm_month tm \<and> tm_month tm < 12 \<and> 1 \<le> tm_day tm \<and>
     tm_day tm \<le> get_days_in_month (tm_month tm) (tm_year tm + 1900) \<and> 0 \<le> tm_year tm"

lemma days_in_month:
  assumes "0 \<le> y" "0 \<le> m" "m < 12"
  shows "get_days_in_month m y = (if m = 1 then (if leap y then 29 else 28)
    else if m = 3 \<or> m = 5 \<or> m = 8 \<or> m = 10 then 30 else 31)"
proof -
  have "m = 0 \<or> m = 1 \<or> m = 2 \<or> m = 3 \<or> m = 4 \<or> m = 5 \<or> m = 6 \<or> m = 7 \<or> m = 8 \<or> m = 9 \<or> m = 10 \<or> m = 11"
    using assms(2,3) by presburger
  then show ?thesis
    using assms(1) by (elim disjE) (simp_all add: get_days_in_month_def c_unsigned_def days_tab_def leap_def smod_pos)
qed

lemma year_length:
  assumes "0 \<le> y"
  shows "sum_list (map (\<lambda>k. get_days_in_month (int k) y) [0..<11]) = (if leap y then 335 else 334)"
  using assms by (simp add: upt_rec days_in_month)

lemma div_step: "0 < (k :: int) \<Longrightarrow> n div k = (n - 1) div k + (if n mod k = 0 then 1 else 0)"
proof -
  assume k: "0 < k"
  have "(n - 1) div k = n div k - 1" if "n mod k = 0"
    by (rule int_div_pos_eq [where r = "k - 1"]) (use k that in \<open>auto simp: algebra_simps\<close>)
  moreover have "(n - 1) div k = n div k" if "n mod k \<noteq> 0"
    by (rule int_div_pos_eq [where r = "n mod k - 1"])
      (use k that pos_mod_sign [of k n] pos_mod_bound [of k n] in \<open>auto simp: algebra_simps simp del: pos_mod_sign pos_mod_bound\<close>)
  ultimately show ?thesis by simp
qed

lemma day_number_next_year:
  assumes "0 \<le> y"
  shows "day_number (y + 1) 0 d = day_number y 11 31 + d"
proof -
  have gen: "365 * y + a - b + c + d = 365 * (y - 1) + a' - b' + c' + (if p \<and> (\<not> q \<or> r) then 335 else 334) + 31 + d"
    if "a = a' + (if p then 1 else 0)" "b = b' + (if q then 1 else 0)" "c = c' + (if r then 1 else 0)"
      "r \<longrightarrow> q" "q \<longrightarrow> p" for a b c a' b' c' :: int and p q r
    using that(4,5) unfolding that(1-3) by (cases p; cases q; cases r) simp_all
  have m: "y mod 400 = 0 \<longrightarrow> y mod 100 = 0" "y mod 100 = 0 \<longrightarrow> y mod 4 = 0"
    by presburger+
  have n: "nat 11 = 11" "nat 0 = 0" by simp_all
  have "day_number (y + 1) 0 d = 365 * y + y div 4 - y div 100 + y div 400 + d"
    by (simp only: day_number_def n add_diff_cancel_right' upt_0 list.map sum_list.Nil add_0_right)
  also have "\<dots> = day_number y 11 31 + d"
    unfolding day_number_def n year_length [OF assms] leap_def
    by (rule gen [OF div_step div_step div_step m]) (rule zero_less_numeral)+
  finally show ?thesis .
qed

lemma day_number_next_month:
  "0 \<le> m \<Longrightarrow> day_number y (m + 1) d = day_number y m (get_days_in_month m y) + d"
  by (simp add: day_number_def nat_add_distrib)

lemma tm_exact_field: "tm_exact E \<Longrightarrow> 0 \<le> x \<Longrightarrow> x \<le> 100 \<Longrightarrow> tm_field E x = x"
  by (simp add: tm_exact_def)

lemma c_unsigned_small: "0 \<le> x \<Longrightarrow> x < 2 ^ 32 \<Longrightarrow> c_unsigned x = x"
  by (simp add: c_unsigned_def)

lemma c_int_small: "0 \<le> x \<Longrightarrow> x < 2 ^ 31 \<Longrightarrow> c_int x = x"
  by (simp add: c_int_def sint_of_small)

lemma days_at_most: "0 \<le> y \<Longrightarrow> 0 \<le> m \<Longrightarrow> m < 12 \<Longrightarrow> 28 \<le> get_days_in_month m y \<and> get_days_in_month m y \<le> 31"
  by (simp add: days_in_month)

lemma rtc_next_second_step:
  assumes E: "tm_exact E" and v: "valid_date tm" and y: "tm_year tm < 18000"
  shows "valid_date (rtc_next_second E tm) \<and>
    calendar_seconds (rtc_next_second E tm) = calendar_seconds tm + 1"
proof -
  have f: "tm_field E x = x" if "0 \<le> x" "x \<le> 60" for x using E that by (simp add: tm_exact_def)
  have yf: "tm_year_field E (tm_year tm + 1) = tm_year tm + 1"
    using E v y by (simp add: tm_exact_def valid_date_def)
  have ci: "c_int (tm_month tm) = tm_month tm" "c_int (tm_year tm + 1900) = tm_year tm + 1900"
    using v y by (simp_all add: c_int_small valid_date_def)
  have b: "0 \<le> tm_second tm" "tm_second tm < 60" "0 \<le> tm_minute tm" "tm_minute tm < 60"
    "0 \<le> tm_hour tm" "tm_hour tm < 24" "0 \<le> tm_month tm" "tm_month tm < 12" "0 \<le> tm_year tm"
    "1 \<le> tm_day tm" "tm_day tm \<le> get_days_in_month (tm_month tm) (tm_year tm + 1900)"
    using v by (simp_all add: valid_date_def valid_time_def)
  note d = days_at_most [of "tm_year tm + 1900" "tm_month tm"]
  consider "tm_second tm < 59" | "tm_second tm = 59" "tm_minute tm < 59"
    | "tm_second tm = 59" "tm_minute tm = 59" "tm_hour tm < 23"
    | "tm_second tm = 59" "tm_minute tm = 59" "tm_hour tm = 23"
      "tm_day tm < get_days_in_month (tm_month tm) (tm_year tm + 1900)"
    | "tm_second tm = 59" "tm_minute tm = 59" "tm_hour tm = 23"
      "tm_day tm = get_days_in_month (tm_month tm) (tm_year tm + 1900)" "tm_month tm < 11"
    | "tm_second tm = 59" "tm_minute tm = 59" "tm_hour tm = 23"
      "tm_day tm = get_days_in_month (tm_month tm) (tm_year tm + 1900)" "tm_month tm = 11"
    using b by linarith
  then show ?thesis
  proof cases
    case 1
    with b show ?thesis
      by (simp add: rtc_next_second_def Let_def f c_unsigned_small valid_date_def valid_time_def calendar_seconds_def)
  next
    case 2
    with b show ?thesis
      by (simp add: rtc_next_second_def Let_def f c_unsigned_small valid_date_def valid_time_def calendar_seconds_def)
  next
    case 3
    with b show ?thesis
      by (simp add: rtc_next_second_def Let_def f c_unsigned_small valid_date_def valid_time_def calendar_seconds_def)
  next
    case 4
    with b d show ?thesis
      by (simp add: rtc_next_second_def Let_def f ci c_unsigned_small valid_date_def valid_time_def
          calendar_seconds_def day_number_def)
  next
    case 5
    with b d days_at_most [of "tm_year tm + 1900" "tm_month tm + 1"] show ?thesis
      by (simp add: rtc_next_second_def Let_def f ci c_unsigned_small valid_date_def valid_time_def
          calendar_seconds_def day_number_next_month)
  next
    case 6
    with b d days_at_most [of "tm_year tm + 1901" 0] day_number_next_year [of "tm_year tm + 1900" 1] show ?thesis
      by (simp add: rtc_next_second_def Let_def f yf ci c_unsigned_small valid_date_def valid_time_def
          calendar_seconds_def days_in_month c_int_small add.assoc)
  qed
qed


definition last_of_february :: rtc_time_date where
  "last_of_february = \<lparr>tm_second = 59, tm_minute = 59, tm_hour = 23, tm_day = 29, tm_month = 1, tm_year = 124\<rparr>"


section \<open>Periodic interrupts and their acknowledgement\<close>


text \<open>The period as a power of two, and the rounding of the clock down to a multiple of it.\<close>

lemma unat_two_power: "k < LENGTH('a) \<Longrightarrow> unat (2 ^ k :: 'a::len word) = 2 ^ k"
  using unat_push_bit [of k "1 :: 'a word"] by (simp add: push_bit_of_1)

lemma word_period:
  fixes p :: i32
  assumes "unat p = 2 ^ k" "k \<le> 14"
  shows "scast p = (2 ^ k :: u64)" "scast (p - 1) = (mask k :: u64)"
proof -
  have l: "(2 :: nat) ^ k \<le> 2 ^ 14" using assms(2) by (rule power_increasing) simp
  then have "unat (scast p :: u64) = 2 ^ k" using assms(1) by (simp add: unat_scast_64)
  moreover have "unat (2 ^ k :: u64) = 2 ^ k" using assms(2) by (simp add: unat_two_power)
  ultimately show "scast p = (2 ^ k :: u64)" by (simp add: word_unat_eq_iff)
  have "p \<noteq> 0" using assms(1) by (metis power_not_zero unat_0 zero_neq_numeral)
  then have d: "unat (p - 1) = 2 ^ k - 1" using assms(1) by (simp add: unat_dec)
  then have "unat (scast (p - 1) :: u64) = 2 ^ k - 1" using l by (simp add: unat_scast_64)
  moreover have "unat (mask k :: u64) = 2 ^ k - 1"
    using assms(2) by (simp add: mask_eq_exp_minus_1 unat_dec unat_two_power)
  ultimately show "scast (p - 1) = (mask k :: u64)" by (simp add: word_unat_eq_iff)
qed

lemma unat_round_down:
  assumes "k < 64"
  shows "unat ((x :: u64) AND NOT (mask k)) = unat x div 2 ^ k * 2 ^ k"
proof -
  have "x AND NOT (mask k) = push_bit k (drop_bit k x)"
    by (rule bit_word_eqI) (auto simp: bit_simps)
  moreover have "unat x div 2 ^ k * 2 ^ k < 2 ^ 64"
    by (rule le_less_trans [OF div_times_less_eq_dividend unat_u64])
  ultimately show ?thesis by (simp add: unat_push_bit unat_drop_bit)
qed

text \<open>The nanoseconds of \<open>n\<close> ticks of the 32768 Hz clock and the ticks of \<open>t\<close> nanoseconds.\<close>

lemma tick_after:
  fixes t p :: nat
  assumes "0 < p"
  defines "n \<equiv> t * 32768 div 1000000000 div p * p + p"
  shows "t < n * 1000000000 div 32768 + 1"
    "n * 1000000000 div 32768 + 1 \<le> t + p * 1000000000 div 32768 + 1"
proof -
  define c where "c = t * 32768 div 1000000000"
  have n: "c < n" "n \<le> c + p"
    using div_mult_mod_eq [of c p] mod_less_divisor [OF assms(1), of c]
    unfolding n_def c_def [symmetric] by linarith+
  have "c * 1000000000 \<le> t * 32768" "t * 32768 < (c + 1) * 1000000000"
    using div_times_less_eq_dividend [of "t * 32768" 1000000000]
      dividend_less_div_times [of 1000000000 "t * 32768"]
    unfolding c_def [symmetric] by (simp_all only: zero_less_numeral add_mult_distrib mult_1 add.commute)
  moreover have "(c + 1) * 1000000000 \<le> n * 1000000000" using n(1) by simp
  moreover have "n * 1000000000 \<le> c * 1000000000 + p * 1000000000" using n(2) by simp
  ultimately have k: "t * 32768 < n * 1000000000" "n * 1000000000 \<le> t * 32768 + p * 1000000000" by linarith+
  show "t < n * 1000000000 div 32768 + 1" using k(1) by linarith
  show "n * 1000000000 div 32768 + 1 \<le> t + p * 1000000000 div 32768 + 1"
    using div_le_mono [OF k(2), of 32768] by simp
qed

lemma rtc_timer_update_next:
  assumes "rtc_inv s" "nz (reg s RTC_REG_A AND 0x0f)" "nz (reg s RTC_REG_B AND REG_B_PIE)"
    and t: "unat t < 2 ^ 48"
  shows "ok (rtc_timer_update s t w) (\<lambda>(s', w').
     unat (period s') = rtc_period (reg s RTC_REG_A) \<and>
     unat t < unat (next_periodic_time s') \<and>
     unat (next_periodic_time s') \<le> unat t + rtc_period (reg s RTC_REG_A) * 1000000000 div 32768 + 1 \<and>
     out w' = out w @ [OneshotAbs TIMER_PERIODIC_TIMER (next_periodic_time s')])"
proof -
  let ?c = "ucast (reg s 10 AND 0x0f) :: i32" and ?P = "rtc_period (reg s 10)"
  have c: "?c \<noteq> 0"
  proof -
    have "unat ?c = unat (reg s 10 AND 0x0f)"
      using unsigned_less [of "reg s 10 AND 0x0f", where 'a = nat]
      by (simp add: unsigned_ucast_eq take_bit_nat_eq_self)
    then show ?thesis using assms(2) by (metis unat_0 unat_eq_zero)
  qed
  define p where "p = push_bit (unat ((if sint ?c \<le> 2 then ?c + 7 else ?c) - 1)) (1 :: i32)"
  have p: "unat p = ?P" "?P \<le> 2 ^ 14" unfolding p_def by (rule rtc_period_word [OF c])+
  obtain k where k: "?P = 2 ^ k" by (auto simp: rtc_period_def Let_def)
  have k14: "k \<le> 14" using p(2) unfolding k by (rule power_le_imp_le_exp [rotated]) simp
  have w: "scast p = (2 ^ k :: u64)" "scast (p - 1) = (mask k :: u64)"
    using word_period [of p k] p(1) k k14 by simp_all
  have p0: "p \<noteq> 0" using p(1) k by (metis power_not_zero unat_0 zero_neq_numeral)
  have g: "unat (ucast get_ticks_per_sec :: u32) = 1000000000" "ucast get_ticks_per_sec \<noteq> (0 :: u32)"
    by (simp_all add: get_ticks_per_sec_def)
  define C where "C = unat t * 32768 div 1000000000"
  have Cb: "C < 2 ^ 48" using t by (simp add: C_def div_less_iff_less_mult)
  obtain cc where cc: "muldiv64 t 32768 (ucast get_ticks_per_sec) = Inr cc" "unat cc = C"
    using muldiv64_div [OF g(2), of t 32768] Cb by (auto simp: ok_iff_ex g C_def)
  define n where "n = (cc AND NOT (mask k)) + 2 ^ k"
  have "unat n = C div 2 ^ k * 2 ^ k + 2 ^ k"
  proof -
    have r: "unat (cc AND NOT (mask k)) = C div 2 ^ k * 2 ^ k"
      using unat_round_down [of k cc] k14 by (simp add: cc)
    define D where "D = C div 2 ^ k * 2 ^ k"
    have "D \<le> C" by (simp add: D_def)
    moreover have q: "unat (2 ^ k :: u64) = 2 ^ k" using k14 by (simp add: unat_two_power)
    moreover have "2 ^ k \<le> (2 :: nat) ^ 14" using k14 by (rule power_increasing) simp
    ultimately have "unat (cc AND NOT (mask k)) + unat (2 ^ k :: u64) < 2 ^ 64"
      unfolding r q D_def [symmetric] using Cb by simp
    then show ?thesis unfolding n_def by (simp only: unat_plus_64 r q)
  qed
  then have n: "unat n = t32 div ?P * ?P + ?P" if "t32 = unat t * 32768 div 1000000000" for t32
    unfolding that k C_def .
  note after = tick_after [of ?P "unat t", folded n [OF refl]]
  have "unat n * 1000000000 div 32768 + 1 < 2 ^ 64"
  proof -
    have "?P * 1000000000 div 32768 \<le> 2 ^ 14 * 1000000000 div 32768"
      using p(2) by (intro div_le_mono mult_le_mono1)
    then show ?thesis using after(2) t k by simp
  qed
  then obtain nt where nt: "muldiv64 n (ucast get_ticks_per_sec) 32768 = Inr nt"
      "unat (nt + 1) = unat n * 1000000000 div 32768 + 1"
    using muldiv64_div [of 32768 n "ucast get_ticks_per_sec"]
    by (auto simp: ok_iff_ex g unat_plus_64)
  have "ok (rtc_timer_update s t w) (\<lambda>(s', w'). period s' = p \<and> next_periodic_time s' = nt + 1 \<and>
      out w' = out w @ [OneshotAbs TIMER_PERIODIC_TIMER (nt + 1)])"
    using assms(1,3) c cc(1) nt(1) p0 unfolding rtc_timer_update_def Let_def p_def [symmetric] w n_def
    by simp
  then show ?thesis
    using after p(1) k nt(2) by (auto elim!: ok_mono)
qed

text \<open>
  The periodic interrupt is always scheduled in the future, at most one period (and the
  rounding of a tick) away, whatever rate the guest has selected: with the interrupt enabled the
  timer is armed strictly after the current time.
\<close>

theorem rtc_periodic_is_in_the_future:
  assumes "rtc_inv s" "nz (reg s RTC_REG_A AND 0x0f)" "nz (reg s RTC_REG_B AND REG_B_PIE)"
    and "unat t < 2 ^ 48"
  shows "ok (rtc_timer_update s t w) (\<lambda>(s', w').
     unat (period s') = rtc_period (reg s RTC_REG_A) \<and>
     unat t < unat (next_periodic_time s') \<and>
     unat (next_periodic_time s') \<le> unat t + rtc_period (reg s RTC_REG_A) * 1000000000 div 32768 + 1 \<and>
     out w' = out w @ [OneshotAbs TIMER_PERIODIC_TIMER (next_periodic_time s')])"
  using assms by (rule rtc_timer_update_next)

definition ticking_rtc :: RTCState where
  "ticking_rtc = rtc_bss\<lparr>cmos_data := (replicate 128 0)[10 := 0x26, 11 := 0x42, 13 := 0x80]\<rparr>"

theorem rtc_periodic_is_in_the_future_witness:
  "ok (rtc_timer_update ticking_rtc 1000000 boot_world) (\<lambda>(s', w').
     1000000 < unat (next_periodic_time s') \<and> unat (next_periodic_time s') \<le> 1976563)"
  using rtc_periodic_is_in_the_future [of ticking_rtc 1000000 boot_world]
  by (auto simp: ticking_rtc_def rtc_bss_def rtc_inv_def rtc_period_def Let_def elim!: ok_mono)

text \<open>
  Reading register C acknowledges the interrupt: the guest sees the flags, they are cleared,
  no other register changes and the IRQ line goes low.
\<close>

theorem rtc_read_acknowledges:
  assumes "rtc_inv s" "addr AND 1 \<noteq> 0" "unat (cmos_index s) = RTC_REG_C"
  shows "ok (cmos_ioport_read addr s w) (\<lambda>(r, t, w').
     r = ucast (reg s RTC_REG_C) \<and> reg t RTC_REG_C = 0 \<and> (\<forall>i. i \<noteq> RTC_REG_C \<longrightarrow> reg t i = reg s i) \<and>
     irq_level RTC_IRQ (out w') = 0)"
  using assms by (auto simp: cmos_ioport_read_def rtc_inv_def set_reg_def)

theorem rtc_read_acknowledges_witness:
  "ok (cmos_ioport_read 0x71 (ticking_rtc\<lparr>cmos_index := 12\<rparr>) boot_world)
     (\<lambda>(r, t, w'). reg t RTC_REG_C = 0 \<and> irq_level RTC_IRQ (out w') = 0)"
  using rtc_read_acknowledges [of "ticking_rtc\<lparr>cmos_index := 12\<rparr>" "0x71" boot_world]
  by (auto simp: ticking_rtc_def rtc_bss_def rtc_inv_def elim!: ok_mono)

end
