(* ===== verification/Hpet.thy ===== *)
theory Hpet
  imports Vmm_World
begin

text \<open>
  The high precision event timer of \<^verbatim>\<open>components/Init/src/hpet.c\<close> and
  \<^verbatim>\<open>hpet.h\<close>: the main counter, three comparators with one-shot, periodic and 32-bit modes, and
  the memory-mapped registers.  \<^verbatim>\<open>seL4_Word\<close> is 64 bits wide.  A pointer to a timer is
  its index into the timer array, and every access through it is checked.  The two timer
  callbacks are the ones \<^verbatim>\<open>main.c\<close> installs, \<^verbatim>\<open>init_timer_oneshot_relative\<close>
  and \<^verbatim>\<open>init_timer_stop\<close>, hence effects.  The member \<open>config\<close> of a timer is
  \<open>t_config\<close> here and its \<open>period\<close> is \<open>t_period\<close>.
\<close>

section \<open>Registers and state\<close>

definition HPET_BASE :: u32 where "HPET_BASE = 0xfed00000"
definition HPET_CLK_PERIOD :: u64 where "HPET_CLK_PERIOD = 10"
definition FS_PER_NS :: u64 where "FS_PER_NS = 1000000"
definition HPET_MIN_TIMERS :: u8 where "HPET_MIN_TIMERS = 3"
definition HPET_MAX_TIMERS :: nat where "HPET_MAX_TIMERS = 3"
definition RTC_ISA_IRQ :: nat where "RTC_ISA_IRQ = 8"

abbreviation (input) HPET_CFG_ENABLE :: u64 where "HPET_CFG_ENABLE \<equiv> 0x001"
abbreviation (input) HPET_CFG_LEGACY :: u64 where "HPET_CFG_LEGACY \<equiv> 0x002"
abbreviation (input) HPET_ID :: nat where "HPET_ID \<equiv> 0x000"
abbreviation (input) HPET_PERIOD :: nat where "HPET_PERIOD \<equiv> 0x004"
abbreviation (input) HPET_CFG :: nat where "HPET_CFG \<equiv> 0x010"
abbreviation (input) HPET_STATUS :: nat where "HPET_STATUS \<equiv> 0x020"
abbreviation (input) HPET_COUNTER :: nat where "HPET_COUNTER \<equiv> 0x0f0"
abbreviation (input) HPET_TN_CFG :: nat where "HPET_TN_CFG \<equiv> 0x000"
abbreviation (input) HPET_TN_CMP :: nat where "HPET_TN_CMP \<equiv> 0x008"
abbreviation (input) HPET_TN_ROUTE :: nat where "HPET_TN_ROUTE \<equiv> 0x010"
definition HPET_CFG_WRITE_MASK :: u64 where "HPET_CFG_WRITE_MASK = 0x3"
abbreviation (input) HPET_ID_NUM_TIM_SHIFT :: nat where "HPET_ID_NUM_TIM_SHIFT \<equiv> 8"
abbreviation (input) HPET_ID_NUM_TIM_MASK :: u64 where "HPET_ID_NUM_TIM_MASK \<equiv> 0x1f00"
abbreviation (input) HPET_TN_TYPE_LEVEL :: u64 where "HPET_TN_TYPE_LEVEL \<equiv> 0x002"
abbreviation (input) HPET_TN_ENABLE :: u64 where "HPET_TN_ENABLE \<equiv> 0x004"
abbreviation (input) HPET_TN_PERIODIC :: u64 where "HPET_TN_PERIODIC \<equiv> 0x008"
abbreviation (input) HPET_TN_PERIODIC_CAP :: u64 where "HPET_TN_PERIODIC_CAP \<equiv> 0x010"
abbreviation (input) HPET_TN_SIZE_CAP :: u64 where "HPET_TN_SIZE_CAP \<equiv> 0x020"
abbreviation (input) HPET_TN_SETVAL :: u64 where "HPET_TN_SETVAL \<equiv> 0x040"
abbreviation (input) HPET_TN_32BIT :: u64 where "HPET_TN_32BIT \<equiv> 0x100"
abbreviation (input) HPET_TN_INT_ROUTE_MASK :: u64 where "HPET_TN_INT_ROUTE_MASK \<equiv> 0x3e00"
abbreviation (input) HPET_TN_FSB_ENABLE :: u64 where "HPET_TN_FSB_ENABLE \<equiv> 0x4000"
abbreviation (input) HPET_TN_FSB_CAP :: u64 where "HPET_TN_FSB_CAP \<equiv> 0x8000"
definition HPET_TN_CFG_WRITE_MASK :: u64 where "HPET_TN_CFG_WRITE_MASK = 0x7f4e"
abbreviation (input) HPET_TN_INT_ROUTE_SHIFT :: nat where "HPET_TN_INT_ROUTE_SHIFT \<equiv> 9"
abbreviation (input) HPET_MSI_SUPPORT :: nat where "HPET_MSI_SUPPORT \<equiv> 0"
abbreviation (input) HPET_LEGACY_PIT_INT :: int where "HPET_LEGACY_PIT_INT \<equiv> 0"

record HPETTimer =
  tn :: u8
  t_config :: u64
  cmp :: u64
  fsb :: u64
  t_period :: u64
  wrap_flag :: u8
  tid :: nat

record HPETState =
  hpet_offset :: u64
  hpet_offset_saved :: bool
  flags :: u32
  rtc_irq_level :: u8
  num_timers :: u8
  intcap :: u32
  timer :: "HPETTimer list"
  capability :: u64
  config :: u64
  isr :: u64
  hpet_counter :: u64
  hpet_id :: u8
  tsc_frequency :: u64

definition hpet_bss :: HPETState where
  "hpet_bss =
     \<lparr>hpet_offset = 0, hpet_offset_saved = False, flags = 0, rtc_irq_level = 0, num_timers = 0,
      intcap = 0,
      timer = replicate HPET_MAX_TIMERS
        \<lparr>tn = 0, t_config = 0, cmp = 0, fsb = 0, t_period = 0, wrap_flag = 0, tid = 0\<rparr>,
      capability = 0, config = 0, isr = 0, hpet_counter = 0, hpet_id = 0, tsc_frequency = 0\<rparr>"

section \<open>Predicates and conversions\<close>

definition hpet_in_legacy_mode :: "HPETState \<Rightarrow> u32" where
  "hpet_in_legacy_mode s = ucast (config s AND HPET_CFG_LEGACY)"

definition timer_int_route :: "HPETTimer \<Rightarrow> u32" where
  "timer_int_route t = ucast (drop_bit HPET_TN_INT_ROUTE_SHIFT (t_config t AND HPET_TN_INT_ROUTE_MASK))"

definition timer_fsb_route :: "HPETTimer \<Rightarrow> u32" where
  "timer_fsb_route t = ucast (t_config t AND HPET_TN_FSB_ENABLE)"

definition hpet_enabled :: "HPETState \<Rightarrow> u32" where
  "hpet_enabled s = ucast (config s AND HPET_CFG_ENABLE)"

definition timer_is_periodic :: "HPETTimer \<Rightarrow> u32" where
  "timer_is_periodic t = ucast (t_config t AND HPET_TN_PERIODIC)"

definition timer_enabled :: "HPETTimer \<Rightarrow> u32" where
  "timer_enabled t = ucast (t_config t AND HPET_TN_ENABLE)"

definition hpet_time_after :: "u64 \<Rightarrow> u64 \<Rightarrow> bool" where
  "hpet_time_after a b \<longleftrightarrow> sint (ucast (b - a) :: i32) < 0"

definition hpet_time_after64 :: "u64 \<Rightarrow> u64 \<Rightarrow> bool" where
  "hpet_time_after64 a b \<longleftrightarrow> sint (b - a) < 0"

definition ticks_to_ns :: "u64 \<Rightarrow> u64" where
  "ticks_to_ns value = value * HPET_CLK_PERIOD"

definition ns_to_ticks :: "u64 \<Rightarrow> u64" where
  "ns_to_ticks value = value div HPET_CLK_PERIOD"

definition hpet_fixup_reg :: "u64 \<Rightarrow> u64 \<Rightarrow> u64 \<Rightarrow> u64" where
  "hpet_fixup_reg new old m = (new AND m) OR (old AND NOT m)"

definition activating_bit :: "u64 \<Rightarrow> u64 \<Rightarrow> u64 \<Rightarrow> bool" where
  "activating_bit old new m \<longleftrightarrow> \<not> nz (old AND m) \<and> nz (new AND m)"

definition deactivating_bit :: "u64 \<Rightarrow> u64 \<Rightarrow> u64 \<Rightarrow> bool" where
  "deactivating_bit old new m \<longleftrightarrow> nz (old AND m) \<and> \<not> nz (new AND m)"

definition hpet_get_ticks :: "env \<Rightarrow> HPETState \<Rightarrow> world \<Rightarrow> u64 \<times> world" where
  "hpet_get_ticks E s w =
     (let (now, w) = current_time_ns E (tsc_frequency s) w
      in (ns_to_ticks (now + hpet_offset s), w))"

definition hpet_calculate_diff :: "HPETTimer \<Rightarrow> u64 \<Rightarrow> u64" where
  "hpet_calculate_diff t current =
     (if nz (t_config t AND HPET_TN_32BIT)
      then let c = ucast (cmp t) :: u32;
               diff = c - ucast current;
               diff = (if 0 < sint diff then diff else 1)
           in ucast diff
      else let diff = cmp t - current
           in if 0 < sint diff then diff else 1)"

text \<open>A 64-bit value stored in a \<^verbatim>\<open>uint32_t\<close> and read back.\<close>

definition low32 :: "u64 \<Rightarrow> u64" where
  "low32 x = ucast (ucast x :: u32)"

section \<open>Interrupts and timers\<close>

definition set_timer :: "nat \<Rightarrow> HPETTimer \<Rightarrow> HPETState \<Rightarrow> HPETState" where
  "set_timer i t s = s\<lparr>timer := (timer s)[i := t]\<rparr>"

definition irq_route :: "HPETState \<Rightarrow> HPETTimer \<Rightarrow> nat" where
  "irq_route s t =
     (if tn t \<le> 1 \<and> nz (hpet_in_legacy_mode s) then (if tn t = 0 then 0 else RTC_ISA_IRQ)
      else unat (timer_int_route t))"

definition update_irq :: "nat \<Rightarrow> i32 \<Rightarrow> HPETState \<Rightarrow> world \<Rightarrow> (HPETState \<times> world) res" where
  "update_irq i on s w =
     rbind (aget (timer s) i) (\<lambda>t.
       let route = irq_route s t;
           mask = scast (push_bit (unat (tn t)) 1 :: i32) :: u64
       in if on = 0 \<or> timer_enabled t = 0 \<or> hpet_enabled s = 0
          then let s = s\<lparr>isr := isr s AND NOT mask\<rparr>
               in Inr (s, if timer_fsb_route t = 0 then emit (SetIrq route 0) w else w)
          else if nz (timer_fsb_route t) then Inr (s, w)
          else if nz (t_config t AND HPET_TN_TYPE_LEVEL)
          then Inr (s\<lparr>isr := isr s OR mask\<rparr>, emit (SetIrq route 1) w)
          else Inr (s\<lparr>isr := isr s AND NOT mask\<rparr>, emit (SetIrq route 0) (emit (SetIrq route 1) w)))"

text \<open>The two loops that move a comparator past the current time.\<close>

definition catch_up32 :: "u64 \<Rightarrow> u64 \<Rightarrow> u64 \<Rightarrow> u64 res" where
  "catch_up32 cur_tick p c = rwhile (hpet_time_after cur_tick) (\<lambda>c. low32 (c + p)) c"

definition catch_up64 :: "u64 \<Rightarrow> u64 \<Rightarrow> u64 \<Rightarrow> u64 res" where
  "catch_up64 cur_tick p c = rwhile (hpet_time_after64 cur_tick) (\<lambda>c. c + p) c"

definition hpet_timer :: "env \<Rightarrow> nat \<Rightarrow> HPETState \<Rightarrow> world \<Rightarrow> (HPETState \<times> world) res" where
  "hpet_timer E i s w =
     rbind (aget (timer s) i) (\<lambda>t.
       let p = t_period t;
           (cur_tick, w) = hpet_get_ticks E s w
       in rbind
            (if nz (timer_is_periodic t) \<and> p \<noteq> 0
             then rbind (if nz (t_config t AND HPET_TN_32BIT) then catch_up32 cur_tick (t_period t) (cmp t)
                         else catch_up64 cur_tick p (cmp t)) (\<lambda>c.
                    let t = t\<lparr>cmp := c\<rparr>;
                        diff = hpet_calculate_diff t cur_tick
                    in Inr (set_timer i t s, emit (OneshotRel (tid t) (ticks_to_ns diff)) w))
             else if nz (t_config t AND HPET_TN_32BIT) \<and> timer_is_periodic t = 0
             then if nz (wrap_flag t)
                  then let diff = hpet_calculate_diff t cur_tick
                       in Inr (set_timer i (t\<lparr>wrap_flag := 0\<rparr>) s,
                               emit (OneshotRel (tid t) (ticks_to_ns diff)) w)
                  else Inr (s, w)
             else Inr (s, w))
            (\<lambda>(s, w). update_irq i 1 s w))"

definition hpet_set_timer :: "env \<Rightarrow> nat \<Rightarrow> HPETState \<Rightarrow> world \<Rightarrow> (HPETState \<times> world) res" where
  "hpet_set_timer E i s w =
     rbind (aget (timer s) i) (\<lambda>t.
       let (cur_tick, w) = hpet_get_ticks E s w;
           t = t\<lparr>wrap_flag := 0\<rparr>;
           diff = hpet_calculate_diff t cur_tick;
           wrap_diff = 0xffffffff - ucast cur_tick :: u32;
           (t, diff) =
             (if nz (t_config t AND HPET_TN_32BIT) \<and> timer_is_periodic t = 0 \<and> wrap_diff < ucast diff
              then (t\<lparr>wrap_flag := 1\<rparr>, ucast wrap_diff) else (t, diff))
       in Inr (set_timer i t s, emit (OneshotRel (tid t) (ticks_to_ns diff)) w))"

definition hpet_del_timer :: "nat \<Rightarrow> HPETState \<Rightarrow> world \<Rightarrow> (HPETState \<times> world) res" where
  "hpet_del_timer i s w =
     rbind (aget (timer s) i) (\<lambda>t. update_irq i 0 s (emit (TimerStop (tid t)) w))"

section \<open>Memory-mapped registers\<close>

text \<open>The decoding both handlers share: the timer's number is a byte.\<close>

definition hpet_addr :: "u32 \<Rightarrow> u64" where
  "hpet_addr offset = ucast (HPET_BASE + offset)"

definition in_timer_regs :: "u32 \<Rightarrow> bool" where
  "in_timer_regs offset \<longleftrightarrow> 0x100 \<le> offset \<and> offset \<le> 0x3ff"

definition timer_id :: "u32 \<Rightarrow> u8" where
  "timer_id offset = ucast ((hpet_addr offset - 0x100) div 0x20)"

definition timer_reg :: "u32 \<Rightarrow> nat" where
  "timer_reg offset = unat ((hpet_addr offset - 0x100) mod 0x20)"

definition vm_hpet_mmio_read ::
    "env \<Rightarrow> u32 \<Rightarrow> HPETState \<Rightarrow> world \<Rightarrow> (u64 \<times> world) res" where
  "vm_hpet_mmio_read E offset s w =
     (if in_timer_regs offset
      then if num_timers s < timer_id offset then Inr (0, w)
           else rbind (aget (timer s) (unat (timer_id offset))) (\<lambda>t.
             let r = timer_reg offset
             in if r = HPET_TN_CFG then Inr (t_config t, w)
                else if r = HPET_TN_CFG + 4 then Inr (drop_bit 32 (t_config t), w)
                else if r = HPET_TN_CMP then Inr (cmp t, w)
                else if r = HPET_TN_CMP + 4 then Inr (drop_bit 32 (cmp t), w)
                else if r = HPET_TN_ROUTE then Inr (fsb t, w)
                else if r = HPET_TN_ROUTE + 4 then Inr (drop_bit 32 (fsb t), w)
                else Inr (0, w))
      else let r = unat offset;
               (cur_tick, w) =
                 (if r = HPET_COUNTER \<or> r = HPET_COUNTER + 4
                  then if nz (hpet_enabled s) then hpet_get_ticks E s w else (hpet_counter s, w)
                  else (0, w))
           in if r = HPET_ID then Inr (capability s, w)
              else if r = HPET_PERIOD then Inr (drop_bit 32 (capability s), w)
              else if r = HPET_CFG then Inr (config s, w)
              else if r = HPET_CFG + 4 then Inr (0, w)
              else if r = HPET_COUNTER then Inr (cur_tick, w)
              else if r = HPET_COUNTER + 4 then Inr (drop_bit 32 cur_tick, w)
              else if r = HPET_STATUS then Inr (isr s, w)
              else Inr (0, w))"

text \<open>What a write of a comparator register makes of the timer.\<close>

definition tn_cfg_written :: "u64 \<Rightarrow> u64 \<Rightarrow> HPETTimer \<Rightarrow> HPETTimer" where
  "tn_cfg_written old_val new_val t =
     (let val = hpet_fixup_reg new_val old_val HPET_TN_CFG_WRITE_MASK;
          t = t\<lparr>t_config := (t_config t AND 0xffffffff00000000) OR val\<rparr>
      in if nz (new_val AND HPET_TN_32BIT)
         then t\<lparr>cmp := low32 (cmp t), t_period := low32 (t_period t)\<rparr> else t)"

text \<open>The clamp \<^verbatim>\<open>(32-bit ? ~0u : ~0ull) >> 1\<close>.\<close>

definition period_mask :: "HPETTimer \<Rightarrow> u64" where
  "period_mask t = drop_bit 1 (if nz (t_config t AND HPET_TN_32BIT) then 0xffffffff else - 1)"

definition tn_cmp_written :: "u64 \<Rightarrow> HPETTimer \<Rightarrow> HPETTimer" where
  "tn_cmp_written new_val t =
     (let new_val = (if nz (t_config t AND HPET_TN_32BIT) then low32 new_val else new_val);
          t = (if timer_is_periodic t = 0 \<or> nz (t_config t AND HPET_TN_SETVAL)
               then t\<lparr>cmp := (cmp t AND 0xffffffff00000000) OR new_val\<rparr> else t);
          t = (if nz (timer_is_periodic t)
               then t\<lparr>t_period := (t_period t AND 0xffffffff00000000) OR (new_val AND period_mask t)\<rparr>
               else t)
      in t\<lparr>t_config := t_config t AND NOT HPET_TN_SETVAL\<rparr>)"

definition tn_cmp_high_written :: "u64 \<Rightarrow> HPETTimer \<Rightarrow> HPETTimer" where
  "tn_cmp_high_written new_val t =
     (let t = (if timer_is_periodic t = 0 \<or> nz (t_config t AND HPET_TN_SETVAL)
               then t\<lparr>cmp := (cmp t AND 0xffffffff) OR push_bit 32 new_val\<rparr>
               else t\<lparr>t_period := (t_period t AND 0xffffffff) OR
                                    push_bit 32 (new_val AND period_mask t)\<rparr>)
      in t\<lparr>t_config := t_config t AND NOT HPET_TN_SETVAL\<rparr>)"

definition write_tn_cfg ::
    "env \<Rightarrow> nat \<Rightarrow> u64 \<Rightarrow> u64 \<Rightarrow> HPETState \<Rightarrow> world \<Rightarrow> (HPETState \<times> world) res" where
  "write_tn_cfg E i old_val new_val s w =
     rbind (if activating_bit old_val new_val HPET_TN_FSB_ENABLE then update_irq i 0 s w
            else Inr (s, w)) (\<lambda>(s, w).
     rbind (aget (timer s) i) (\<lambda>t.
       let s = set_timer i (tn_cfg_written old_val new_val t) s
       in if activating_bit old_val new_val HPET_TN_ENABLE \<and> nz (hpet_enabled s)
          then hpet_set_timer E i s w
          else if deactivating_bit old_val new_val HPET_TN_ENABLE then hpet_del_timer i s w
          else Inr (s, w)))"

definition write_tn_cmp ::
    "env \<Rightarrow> nat \<Rightarrow> u64 \<Rightarrow> HPETState \<Rightarrow> world \<Rightarrow> (HPETState \<times> world) res" where
  "write_tn_cmp E i new_val s w =
     rbind (aget (timer s) i) (\<lambda>t.
       let s = set_timer i (tn_cmp_written new_val t) s
       in if nz (hpet_enabled s) then hpet_set_timer E i s w else Inr (s, w))"

definition write_tn_cmp_high ::
    "env \<Rightarrow> nat \<Rightarrow> u64 \<Rightarrow> HPETState \<Rightarrow> world \<Rightarrow> (HPETState \<times> world) res" where
  "write_tn_cmp_high E i new_val s w =
     rbind (aget (timer s) i) (\<lambda>t.
       let s = set_timer i (tn_cmp_high_written new_val t) s
       in if nz (hpet_enabled s) then hpet_set_timer E i s w else Inr (s, w))"

text \<open>The loops over the timers.\<close>

definition for_timers ::
    "(nat \<Rightarrow> HPETState \<Rightarrow> world \<Rightarrow> (HPETState \<times> world) res) \<Rightarrow> HPETState \<Rightarrow> world \<Rightarrow>
     (HPETState \<times> world) res" where
  "for_timers body s w = run_ops (\<lambda>i (s, w). body i s w) [0..<unat (num_timers s)] (s, w)"

definition write_cfg ::
    "env \<Rightarrow> u64 \<Rightarrow> u64 \<Rightarrow> HPETState \<Rightarrow> world \<Rightarrow> (HPETState \<times> world) res" where
  "write_cfg E old_val new_val s w =
     (let val = hpet_fixup_reg new_val old_val HPET_CFG_WRITE_MASK;
          s = s\<lparr>config := (config s AND 0xffffffff00000000) OR val\<rparr>
      in rbind
           (if activating_bit old_val new_val HPET_CFG_ENABLE
            then let ticks = ticks_to_ns (hpet_counter s);
                     (cur, w) = current_time_ns E (tsc_frequency s) w;
                     s = s\<lparr>hpet_offset := (if ticks < cur then 0 else ticks - cur)\<rparr>
                 in for_timers (\<lambda>i s w. rbind (aget (timer s) i) (\<lambda>t.
                      if cmp t \<noteq> - 1 then hpet_set_timer E i s w else Inr (s, w))) s w
            else if deactivating_bit old_val new_val HPET_CFG_ENABLE
            then let (ticks, w) = hpet_get_ticks E s w
                 in for_timers hpet_del_timer (s\<lparr>hpet_counter := ticks\<rparr>) w
            else Inr (s, w))
           (\<lambda>(s, w).
              if activating_bit old_val new_val HPET_CFG_LEGACY
              then Inr (s, emit (SetIrq RTC_ISA_IRQ 0) (emit (SetIrq 0 0) w))
              else if deactivating_bit old_val new_val HPET_CFG_LEGACY
              then Inr (s, emit (SetIrq RTC_ISA_IRQ (int (unat (rtc_irq_level s)))) (emit (SetIrq 0 0) w))
              else Inr (s, w)))"

definition write_status :: "u64 \<Rightarrow> HPETState \<Rightarrow> world \<Rightarrow> (HPETState \<times> world) res" where
  "write_status new_val s w =
     (let val = new_val AND isr s
      in for_timers (\<lambda>i s w. if bit val i then update_irq i 0 s w else Inr (s, w)) s w)"

definition vm_hpet_mmio_write ::
    "env \<Rightarrow> u32 \<Rightarrow> u64 \<Rightarrow> HPETState \<Rightarrow> world \<Rightarrow> (HPETState \<times> world) res" where
  "vm_hpet_mmio_write E offset value s w =
     rbind (vm_hpet_mmio_read E offset s w) (\<lambda>(old_val, w).
       if in_timer_regs offset
       then if num_timers s < timer_id offset then Inr (s, w)
            else let i = unat (timer_id offset); r = timer_reg offset
                 in if r = HPET_TN_CFG then write_tn_cfg E i old_val value s w
                    else if r = HPET_TN_CFG + 4 then Inr (s, w)
                    else if r = HPET_TN_CMP then write_tn_cmp E i value s w
                    else if r = HPET_TN_CMP + 4 then write_tn_cmp_high E i value s w
                    else if r = HPET_TN_ROUTE
                    then rbind (aget (timer s) i) (\<lambda>t.
                           Inr (set_timer i (t\<lparr>fsb := (fsb t AND 0xffffffff00000000) OR value\<rparr>) s, w))
                    else if r = HPET_TN_ROUTE + 4
                    then rbind (aget (timer s) i) (\<lambda>t.
                           Inr (set_timer i (t\<lparr>fsb := push_bit 32 value OR (fsb t AND 0xffffffff)\<rparr>) s, w))
                    else Inr (s, w)
       else let r = unat offset
            in if r = HPET_CFG then write_cfg E old_val value s w
               else if r = HPET_STATUS then write_status value s w
               else if r = HPET_COUNTER
               then Inr (s\<lparr>hpet_counter := (hpet_counter s AND 0xffffffff00000000) OR value\<rparr>, w)
               else if r = HPET_COUNTER + 4
               then Inr (s\<lparr>hpet_counter := (hpet_counter s AND 0xffffffff) OR push_bit 32 value\<rparr>, w)
               else Inr (s, w))"

text \<open>The fault handler: a read fault, or a write fault with its data.\<close>

datatype vcpu_fault = ReadFault | WriteFault u64

definition hpet_fault_callback ::
    "env \<Rightarrow> u64 \<Rightarrow> vcpu_fault \<Rightarrow> HPETState \<Rightarrow> world \<Rightarrow> (u64 option \<times> HPETState \<times> world) res" where
  "hpet_fault_callback E fault_addr f s w =
     (let offset = ucast (fault_addr - ucast HPET_BASE) :: u32
      in case f of
           ReadFault \<Rightarrow> rbind (vm_hpet_mmio_read E offset s w) (\<lambda>(d, w). Inr (Some d, s, w))
         | WriteFault d \<Rightarrow> rbind (vm_hpet_mmio_write E offset d s w) (\<lambda>(s, w). Inr (None, s, w)))"

section \<open>Reset, initialisation, timer interrupts\<close>

definition hpet_reset_timer :: "nat \<Rightarrow> HPETState \<Rightarrow> world \<Rightarrow> (HPETState \<times> world) res" where
  "hpet_reset_timer i s w =
     rbind (hpet_del_timer i s w) (\<lambda>(s, w).
     rbind (aget (timer s) i) (\<lambda>t.
       let c = HPET_TN_PERIODIC_CAP OR HPET_TN_SIZE_CAP;
           c = (if nz (flags s AND push_bit HPET_MSI_SUPPORT 1) then c OR HPET_TN_FSB_CAP else c);
           c = c OR push_bit 32 (ucast (intcap s))
       in Inr (set_timer i (t\<lparr>cmp := - 1, t_config := c, t_period := 0, wrap_flag := 0\<rparr>) s, w)))"

definition hpet_reset :: "HPETState \<Rightarrow> world \<Rightarrow> (HPETState \<times> world) res" where
  "hpet_reset s w =
     rbind (for_timers hpet_reset_timer s w)
       (\<lambda>(s, w). Inr (s\<lparr>hpet_counter := 0, hpet_offset := 0, config := 0, rtc_irq_level := 0\<rparr>, w))"

definition num_timers_field :: "HPETState \<Rightarrow> u64" where
  "num_timers_field s = scast (push_bit HPET_ID_NUM_TIM_SHIFT (ucast (num_timers s) - 1 :: i32))"

definition hpet_realize :: "nat \<Rightarrow> HPETState \<Rightarrow> HPETState" where
  "hpet_realize id_base s =
     (let s = s\<lparr>hpet_id := 0\<rparr>;
          s = s\<lparr>timer := map (\<lambda>i. (timer s ! i)\<lparr>tid := id_base + i, tn := word_of_nat i\<rparr>) [0..<HPET_MAX_TIMERS]\<rparr>;
          s = s\<lparr>num_timers := HPET_MIN_TIMERS\<rparr>;
          s = s\<lparr>capability := 0x8086a001\<rparr>;
          s = s\<lparr>capability := capability s OR num_timers_field s\<rparr>
      in s\<lparr>capability := capability s OR push_bit 32 (HPET_CLK_PERIOD * FS_PER_NS)\<rparr>)"

definition hpet_pre_init :: "u64 \<Rightarrow> nat \<Rightarrow> HPETState \<Rightarrow> world \<Rightarrow> (HPETState \<times> world) res" where
  "hpet_pre_init initial_tsc_frequency hpet_id_base s w =
     (let s = s\<lparr>tsc_frequency := initial_tsc_frequency\<rparr>
      in hpet_reset (hpet_realize hpet_id_base s) w)"

definition hpet_timer_interrupt :: "env \<Rightarrow> u32 \<Rightarrow> HPETState \<Rightarrow> world \<Rightarrow> (HPETState \<times> world) res" where
  "hpet_timer_interrupt E completed s w =
     run_ops (\<lambda>i (s, w). rbind (aget (timer s) i) (\<lambda>t.
       if bit completed (tid t) then hpet_timer E i s w else Inr (s, w))) [0..<HPET_MAX_TIMERS] (s, w)"

section \<open>Legacy interrupts, save and load\<close>

text \<open>Functions of the emulation that the VMM does not call yet.\<close>

definition hpet_handle_legacy_irq :: "int \<Rightarrow> i32 \<Rightarrow> HPETState \<Rightarrow> world \<Rightarrow> HPETState \<times> world" where
  "hpet_handle_legacy_irq n level s w =
     (if n = HPET_LEGACY_PIT_INT
      then (s, if hpet_in_legacy_mode s = 0 then emit (SetIrq 0 (sint level)) w else w)
      else let s = s\<lparr>rtc_irq_level := ucast level\<rparr>
           in (s, if hpet_in_legacy_mode s = 0 then emit (SetIrq RTC_ISA_IRQ (sint level)) w else w))"

definition hpet_pre_save :: "env \<Rightarrow> HPETState \<Rightarrow> world \<Rightarrow> HPETState \<times> world" where
  "hpet_pre_save E s w =
     (if nz (hpet_enabled s) then let (ticks, w) = hpet_get_ticks E s w in (s\<lparr>hpet_counter := ticks\<rparr>, w)
      else (s, w))"

definition hpet_pre_load :: "HPETState \<Rightarrow> HPETState" where
  "hpet_pre_load s = s\<lparr>num_timers := HPET_MIN_TIMERS\<rparr>"

definition hpet_validate_num_timers :: "HPETState \<Rightarrow> bool" where
  "hpet_validate_num_timers s =
     (if num_timers s < HPET_MIN_TIMERS then False
      else if HPET_MAX_TIMERS < unat (num_timers s) then False else True)"

definition hpet_post_load :: "env \<Rightarrow> HPETState \<Rightarrow> world \<Rightarrow> (HPETState \<times> world) res" where
  "hpet_post_load E s w =
     (let (s, w) =
            (if \<not> hpet_offset_saved s
             then let ticks = ticks_to_ns (hpet_counter s);
                      (cur, w) = current_time_ns E (tsc_frequency s) w
                  in (s\<lparr>hpet_offset := (if ticks < cur then 0 else ticks - cur)\<rparr>, w)
             else (s, w));
          s = s\<lparr>capability := capability s AND NOT HPET_ID_NUM_TIM_MASK\<rparr>;
          s = s\<lparr>capability := capability s OR num_timers_field s\<rparr>;
          s = s\<lparr>flags := flags s AND NOT (push_bit HPET_MSI_SUPPORT 1)\<rparr>
      in rbind (aget (timer s) 0) (\<lambda>t.
           Inr (if nz (t_config t AND HPET_TN_FSB_CAP)
                then s\<lparr>flags := flags s OR push_bit HPET_MSI_SUPPORT 1\<rparr> else s, w)))"

definition hpet_offset_needed :: "HPETState \<Rightarrow> bool" where
  "hpet_offset_needed s \<longleftrightarrow> nz (hpet_enabled s) \<and> hpet_offset_saved s"

definition hpet_rtc_irq_level_needed :: "HPETState \<Rightarrow> bool" where
  "hpet_rtc_irq_level_needed s \<longleftrightarrow> rtc_irq_level s \<noteq> 0"

section \<open>The loops end, or do not\<close>

text \<open>Stepping a word by a nonzero amount brings its sign bit to 0.\<close>

definition catch_up_measure :: "'a::len word \<Rightarrow> 'a word \<Rightarrow> nat" where
  "catch_up_measure p d =
     (if 0 \<le> sint d then 0
      else Suc (if unat p \<le> 2 ^ (LENGTH('a) - 1) then 2 ^ LENGTH('a) - unat d else unat d))"

lemma catch_up_decreases:
  fixes d p :: "'a::len word"
  assumes "p \<noteq> 0" "sint d < 0"
  shows "catch_up_measure p (d + p) < catch_up_measure p d"
proof -
  define N H where "N = (2 :: nat) ^ LENGTH('a)" and "H = (2 :: nat) ^ (LENGTH('a) - 1)"
  have b: "unat d < N" "0 < unat p" "unat p < N" "H \<le> unat d"
    using assms unfolding N_def H_def by (auto simp: unsigned_less unat_gt_0 sint_neg_iff)
  have N: "N = H + H" unfolding N_def H_def by (metis len_gt_0 mult_2_right power_minus_mult)
  have neg: "0 \<le> sint x \<longleftrightarrow> unat x < H" for x :: "'a word"
    using sint_neg_iff [of x] unfolding H_def by linarith
  have s: "unat (d + p) = (if unat d + unat p < N then unat d + unat p else unat d + unat p - N)"
    unfolding N_def by (rule unat_plus_mod)
  show ?thesis
    unfolding catch_up_measure_def neg H_def [symmetric] N_def [symmetric] s
    using b N by auto
qed

lemma low32_ucast [simp]: "(ucast (low32 x) :: u32) = ucast x"
  unfolding low32_def by (rule ucast_up_ucast_id) (simp add: is_up)

lemma ok_catch_up64:
  "p \<noteq> 0 \<Longrightarrow> ok (catch_up64 cur p c) (\<lambda>c'. \<not> hpet_time_after64 cur c')"
  unfolding catch_up64_def
proof (rule ok_mono [OF ok_rwhile [where P = "\<lambda>_. True" and f = "\<lambda>c. catch_up_measure p (c - cur)"]])
  fix c assume "p \<noteq> 0" "hpet_time_after64 cur c"
  then show "True \<and> catch_up_measure p (c + p - cur) < catch_up_measure p (c - cur)"
    using catch_up_decreases [of p "c - cur"] by (simp add: hpet_time_after64_def algebra_simps)
qed simp_all

lemma ok_catch_up32:
  "ucast p \<noteq> (0 :: u32) \<Longrightarrow> ok (catch_up32 cur p c) (\<lambda>c'. \<not> hpet_time_after cur c')"
  unfolding catch_up32_def
proof (rule ok_mono [OF ok_rwhile [where P = "\<lambda>_. True" and f = "\<lambda>c. catch_up_measure (ucast p :: u32) (ucast (c - cur))"]])
  fix c assume "ucast p \<noteq> (0 :: u32)" "hpet_time_after cur c"
  then show "True \<and> catch_up_measure (ucast p :: u32) (ucast (low32 (c + p) - cur)) <
      catch_up_measure (ucast p :: u32) (ucast (c - cur))"
    using catch_up_decreases [of "ucast p :: u32" "ucast (c - cur)"]
    by (simp add: hpet_time_after_def ucast_down algebra_simps)
qed simp_all

lemma catch_up32_diverges:
  assumes "ucast p = (0 :: u32)" "hpet_time_after cur c"
  shows "catch_up32 cur p c = Inl NoReturn"
  unfolding catch_up32_def
  by (rule rwhile_diverges [where P = "\<lambda>c. hpet_time_after cur c", OF assms(2)])
    (simp add: hpet_time_after_def ucast_down assms(1))

section \<open>No guest access faults\<close>

lemma timer_index:
  assumes "in_timer_regs offset"
  shows "unat (timer_id offset) = (unat offset - 0x100) div 0x20" "timer_reg offset = unat offset mod 0x20"
    "unat (timer_id offset) < 24"
proof -
  define n where "n = unat offset - 0x100"
  have n: "unat offset = 0x100 + n" "n < 0x300"
    using assms by (auto simp: in_timer_regs_def word_le_nat_alt n_def)
  have "unat (hpet_addr offset) = 0xfed00000 + unat offset"
    using n by (simp add: hpet_addr_def HPET_BASE_def unat_ucast_32_64 unat_plus_mod)
  then have a: "unat (hpet_addr offset - 0x100) = 0xfed00000 + n"
    using n by (simp add: unat_sub word_le_nat_alt)
  have "(0xfed00000 + n) div 0x20 = 0x7f68000 + n div 0x20"
    using div_plus_div_distrib_dvd_left [of "0x20" "0xfed00000" n] by simp
  moreover have "(0x7f68000 + n div 0x20) mod 2 ^ 8 = n div 0x20"
    using n(2) by (subst mod_add_left_eq [symmetric]) simp
  ultimately have "(0xfed00000 + n) div 0x20 mod 2 ^ 8 = n div 0x20" by simp
  then show "unat (timer_id offset) = (unat offset - 0x100) div 0x20"
    by (simp add: timer_id_def unsigned_ucast_eq take_bit_eq_mod unat_div a n(1))
  then show "unat (timer_id offset) < 24" using n by simp
  show "timer_reg offset = unat offset mod 0x20"
  proof -
    have "(0xfed00000 + n) mod 0x20 = n mod 0x20" by (subst mod_add_left_eq [symmetric]) simp
    moreover have "(0x100 + n) mod 0x20 = n mod 0x20" by (subst mod_add_left_eq [symmetric]) simp
    ultimately show ?thesis by (simp only: timer_reg_def unat_mod a n(1)) simp
  qed
qed

definition timer_ok :: "nat \<Rightarrow> HPETTimer \<Rightarrow> bool" where
  "timer_ok i t \<longleftrightarrow> tn t = word_of_nat i \<and>
     (nz (t_config t AND HPET_TN_32BIT) \<longrightarrow> unat (t_period t) < 2 ^ 32)"

definition hpet_inv :: "HPETState \<Rightarrow> bool" where
  "hpet_inv s \<longleftrightarrow> num_timers s = 3 \<and> length (timer s) = 3 \<and> isr s AND NOT 7 = 0 \<and>
     timer_ok 0 (timer s ! 0) \<and> timer_ok 1 (timer s ! 1) \<and> timer_ok 2 (timer s ! 2)"

definition hgood :: "HPETState \<times> world \<Rightarrow> bool" where
  "hgood p \<longleftrightarrow> hpet_inv (fst p)"

lemma hgood_pair [simp]: "hgood (s, w) = hpet_inv s"
  by (simp add: hgood_def)

lemma three: "i < 3 \<longleftrightarrow> i = 0 \<or> i = 1 \<or> i = (2 :: nat)"
  by auto

lemma hpet_inv_timer: "hpet_inv s \<Longrightarrow> i < 3 \<Longrightarrow> i < length (timer s) \<and> timer_ok i (timer s ! i)"
  by (auto simp: hpet_inv_def three)

lemma hpet_inv_set_timer: "hpet_inv s \<Longrightarrow> i < 3 \<Longrightarrow> timer_ok i t \<Longrightarrow> hpet_inv (set_timer i t s)"
  by (auto simp: hpet_inv_def set_timer_def three)

lemma set_timer_sel [simp]:
  "timer (set_timer i t s) = (timer s)[i := t]" "config (set_timer i t s) = config s"
  "isr (set_timer i t s) = isr s" "num_timers (set_timer i t s) = num_timers s"
  "hpet_offset (set_timer i t s) = hpet_offset s" "hpet_counter (set_timer i t s) = hpet_counter s"
  "tsc_frequency (set_timer i t s) = tsc_frequency s" "capability (set_timer i t s) = capability s"
  by (simp_all add: set_timer_def)

lemma hpet_inv_fields [simp]:
  "hpet_inv (s\<lparr>hpet_counter := x\<rparr>) = hpet_inv s" "hpet_inv (s\<lparr>hpet_offset := x\<rparr>) = hpet_inv s"
  "hpet_inv (s\<lparr>config := x\<rparr>) = hpet_inv s" "hpet_inv (s\<lparr>rtc_irq_level := y\<rparr>) = hpet_inv s"
  by (simp_all add: hpet_inv_def)

lemma timer_ok_fields [simp]:
  "timer_ok i (t\<lparr>cmp := c\<rparr>) = timer_ok i t" "timer_ok i (t\<lparr>wrap_flag := f\<rparr>) = timer_ok i t"
  "timer_ok i (t\<lparr>fsb := c\<rparr>) = timer_ok i t"
  by (simp_all add: timer_ok_def)

lemma isr_masks: 
  "i < 3 \<Longrightarrow> scast (push_bit (unat (word_of_nat i :: u8)) 1 :: i32) AND NOT 7 = (0 :: u64)"
  by (auto simp: three)

lemma ok_update_irq:
  assumes "hpet_inv s" "i < 3"
  shows "ok (update_irq i on s w) (\<lambda>(s', w'). hpet_inv s' \<and> s'\<lparr>isr := isr s\<rparr> = s)"
proof -
  have "isr s AND NOT 7 = 0" using assms by (simp add: hpet_inv_def)
  moreover have "(isr s AND NOT m) AND NOT 7 = (isr s AND NOT 7) AND NOT m" for m
    by (simp only: word_bw_assocs word_bw_comms word_bw_lcs)
  ultimately have "hpet_inv (s\<lparr>isr := isr s AND NOT m\<rparr>)" "m AND NOT 7 = 0 \<Longrightarrow> hpet_inv (s\<lparr>isr := isr s OR m\<rparr>)" for m
    using assms by (simp_all add: hpet_inv_def word_ao_dist)
  then show ?thesis
    using hpet_inv_timer [OF assms] assms(1) isr_masks [OF assms(2)]
    by (simp add: update_irq_def Let_def timer_ok_def)
qed

lemma ok_update_irq_good: "hpet_inv s \<Longrightarrow> i < 3 \<Longrightarrow> ok (update_irq i on s w) hgood"
  by (rule ok_mono [OF ok_update_irq]) auto

lemma ucast_period: "ucast (x :: u64) = (0 :: u32) \<Longrightarrow> unat x < 2 ^ 32 \<Longrightarrow> x = 0"
proof -
  assume u: "ucast x = (0 :: u32)" "unat x < 2 ^ 32"
  from u(2) have "unat (ucast x :: u32) = unat x" by (simp add: unsigned_ucast_eq take_bit_eq_mod)
  then show "x = 0" using u(1) by (metis unat_0 unat_eq_zero)
qed

lemma ok_hpet_timer:
  assumes "hpet_inv s" "i < 3"
  shows "ok (hpet_timer E i s w) hgood"
proof -
  note t = hpet_inv_timer [OF assms]
  then show ?thesis
    unfolding hpet_timer_def Let_def split_beta ok_rbind
    using assms
    by (auto simp: hpet_inv_set_timer timer_ok_def intro!: ok_update_irq_good ok_mono [OF ok_catch_up64]
        ok_mono [OF ok_catch_up32] dest: ucast_period)
qed

lemma ok_hpet_set_timer:
  assumes "hpet_inv s" "i < 3"
  shows "ok (hpet_set_timer E i s w) hgood"
  using assms hpet_inv_timer [OF assms]
  by (simp add: hpet_set_timer_def Let_def split_beta hpet_inv_set_timer)

lemma ok_hpet_del_timer:
  assumes "hpet_inv s" "i < 3"
  shows "ok (hpet_del_timer i s w) hgood"
  using assms hpet_inv_timer [OF assms] by (simp add: hpet_del_timer_def ok_update_irq_good)

text \<open>The loops over the timers.\<close>

definition timer_body :: "(nat \<Rightarrow> HPETState \<Rightarrow> world \<Rightarrow> (HPETState \<times> world) res) \<Rightarrow> bool" where
  "timer_body f \<longleftrightarrow> (\<forall>i < 3. \<forall>s w. hpet_inv s \<longrightarrow> ok (f i s w) hgood)"

lemma timer_loop: "timer_body f \<Longrightarrow> list_all (\<lambda>i. i < 3) is \<Longrightarrow> hpet_inv s \<Longrightarrow>
  ok (run_ops (\<lambda>i (s, w). f i s w) is (s, w)) hgood"
proof (induction "is" arbitrary: s w)
  case (Cons i "is")
  then have "ok (f i s w) hgood" by (simp add: timer_body_def)
  then show ?case using Cons by (auto simp: ok_iff_ex)
qed simp

lemma ok_for_timers: "timer_body f \<Longrightarrow> hpet_inv s \<Longrightarrow> ok (for_timers f s w) hgood"
  unfolding for_timers_def by (rule timer_loop) (simp_all add: hpet_inv_def list_all_iff)

lemma timer_bodies: "timer_body hpet_del_timer"
  "timer_body (\<lambda>i s w. rbind (aget (timer s) i) (\<lambda>t. if P t then hpet_set_timer E i s w else Inr (s, w)))"
  "timer_body (\<lambda>i s w. rbind (aget (timer s) i) (\<lambda>t. if P t then hpet_timer E i s w else Inr (s, w)))"
  "timer_body (\<lambda>i s w. if R i then update_irq i 0 s w else Inr (s, w))"
  using hpet_inv_timer
  by (simp_all add: timer_body_def ok_hpet_del_timer ok_hpet_set_timer ok_hpet_timer ok_update_irq_good)

lemma fixup_bit: "hpet_fixup_reg new old m AND x = (new AND (m AND x)) OR (old AND (NOT m AND x))"
  by (simp add: hpet_fixup_reg_def word_ao_dist word_bw_assocs)

lemma ok_arm: "hpet_inv s \<Longrightarrow> i < 3 \<Longrightarrow>
  ok (if b then hpet_set_timer E i s w else if c then hpet_del_timer i s w else Inr (s, w)) hgood"
  by (simp add: ok_hpet_set_timer ok_hpet_del_timer)

lemma timer_ok_cfg_written:
  assumes "timer_ok i t"
  shows "timer_ok i (tn_cfg_written old new t)"
proof -
  have "((a AND 0xffffffff00000000) OR hpet_fixup_reg new old HPET_TN_CFG_WRITE_MASK) AND 0x100 = new AND 0x100"
    for a :: u64
    by (simp add: word_ao_dist fixup_bit word_bw_assocs HPET_TN_CFG_WRITE_MASK_def)
  moreover have "unat (low32 x) < 2 ^ 32" for x
    using unsigned_less [of "ucast x :: u32", where 'a = nat] by (simp add: low32_def unat_ucast_32_64)
  ultimately show ?thesis using assms by (simp add: tn_cfg_written_def Let_def timer_ok_def)
qed

lemma period_mask_fields [simp]:
  "period_mask (t\<lparr>cmp := c\<rparr>) = period_mask t" "timer_is_periodic (t\<lparr>cmp := c\<rparr>) = timer_is_periodic t"
  by (simp_all add: period_mask_def timer_is_periodic_def)

lemma period_write_ok:
  assumes "timer_ok i t" "nz (t_config t AND 0x100)"
  shows "unat ((t_period t AND 0xffffffff00000000) OR (x AND period_mask t)) < 2 ^ 32"
proof (rule unat_or_less)
  have "unat (t_period t AND 0xffffffff00000000) \<le> unat (t_period t)"
    by (simp add: word_and_le2 flip: word_le_nat_alt)
  then show "unat (t_period t AND 0xffffffff00000000) < 2 ^ 32"
    using assms by (simp add: timer_ok_def)
  show "unat (x AND period_mask t) < 2 ^ 32"
    using assms(2) by (intro unat_and_lt) (simp add: period_mask_def)
qed

lemma timer_ok_cmp_written: "timer_ok i t \<Longrightarrow> timer_ok i (tn_cmp_written v t)"
proof -
  assume t: "timer_ok i t"
  have "(c AND NOT 0x40) AND 0x100 = c AND 0x100" for c :: u64 by (simp add: word_bw_assocs)
  then show ?thesis
    using t period_write_ok [OF t]
    unfolding tn_cmp_written_def Let_def timer_ok_def
    by (cases "nz (timer_is_periodic t)"; cases "nz (t_config t AND 0x100)") auto
qed

lemma ok_write_tn_cfg:
  assumes "hpet_inv s" "i < 3"
  shows "ok (write_tn_cfg E i old new s w) hgood"
proof -
  have "ok (if activating_bit old new HPET_TN_FSB_ENABLE then update_irq i 0 s w else Inr (s, w)) hgood"
    using assms by (simp add: ok_update_irq_good)
  moreover have "hpet_inv (set_timer i (tn_cfg_written old new (timer s ! i)) s)" "i < length (timer s)"
    if "hpet_inv s" for s
    using hpet_inv_timer [OF that assms(2)] that assms(2) by (simp_all add: hpet_inv_set_timer timer_ok_cfg_written)
  ultimately show ?thesis
    unfolding write_tn_cfg_def Let_def ok_rbind
    by (elim ok_mono) (auto simp: ok_hpet_set_timer ok_hpet_del_timer assms(2))
qed

lemma ok_write_tn_cmp:
  assumes "hpet_inv s" "i < 3"
  shows "ok (write_tn_cmp E i v s w) hgood"
  using assms hpet_inv_timer [OF assms]
  by (simp add: write_tn_cmp_def Let_def ok_hpet_set_timer hpet_inv_set_timer timer_ok_cmp_written)

lemma ok_write_cfg:
  assumes "hpet_inv s"
  shows "ok (write_cfg E old new s w) hgood"
proof -
  have "ok (if P then Inr (s, w1) else if Q then Inr (s, w2) else Inr (s, w)) hgood"
    if "hgood (s, w)" for P Q s w w1 w2 using that by simp
  then show ?thesis
    unfolding write_cfg_def Let_def ok_rbind split_beta
    using assms
    by (auto intro!: ok_mono [OF ok_for_timers] timer_bodies simp: hgood_def)
qed

lemma ok_write_status: "hpet_inv s \<Longrightarrow> ok (write_status v s w) hgood"
  unfolding write_status_def Let_def by (intro ok_for_timers timer_bodies)

definition hpet_offset_ok :: "u32 \<Rightarrow> bool" where
  "hpet_offset_ok offset \<longleftrightarrow> \<not> (0x160 \<le> unat offset \<and> unat offset < 0x180)"

lemma timer_id_ok:
  assumes "hpet_inv s" "hpet_offset_ok offset" "in_timer_regs offset" "\<not> num_timers s < timer_id offset"
  shows "unat (timer_id offset) < 3"
  using timer_index [OF assms(3)] assms
  by (auto simp: hpet_inv_def hpet_offset_ok_def word_less_nat_alt)

lemma ok_mmio_read:
  assumes "hpet_inv s" "hpet_offset_ok offset"
  shows "ok (vm_hpet_mmio_read E offset s w) (\<lambda>_. True)"
  using assms timer_id_ok [OF assms] hpet_inv_timer [OF assms(1)]
  by (simp add: vm_hpet_mmio_read_def Let_def split_beta)

lemma ok_mmio_write:
  assumes "hpet_inv s" "hpet_offset_ok offset" "in_timer_regs offset \<Longrightarrow> unat offset mod 0x20 \<noteq> 0xc"
  shows "ok (vm_hpet_mmio_write E offset v s w) hgood"
proof -
  have i: "unat (timer_id offset) < 3 \<and> unat (timer_id offset) < length (timer s) \<and> timer_reg offset \<noteq> 0xc"
    if "in_timer_regs offset" "\<not> num_timers s < timer_id offset"
    using timer_id_ok [OF assms(1,2) that] hpet_inv_timer [OF assms(1)] timer_index(2) [OF that(1)]
      assms(3) [OF that(1)] by auto
  have f: "hpet_inv (set_timer j ((timer s ! j)\<lparr>fsb := x\<rparr>) s)" if "j < 3" for j x
    using that assms(1) hpet_inv_timer [OF assms(1) that] by (intro hpet_inv_set_timer) simp_all
  show ?thesis
    unfolding vm_hpet_mmio_write_def ok_rbind Let_def
    using assms(1) i f
    by (intro ok_mono [OF ok_mmio_read [OF assms(1,2)]])
      (auto simp: ok_write_tn_cfg ok_write_tn_cmp ok_write_cfg ok_write_status)
qed

datatype hpet_op = HpetFault u64 vcpu_fault | HpetTimers u32

definition fault_offset :: "u64 \<Rightarrow> u32" where
  "fault_offset addr = ucast (addr - ucast HPET_BASE)"

fun hpet_step :: "env \<Rightarrow> hpet_op \<Rightarrow> HPETState \<times> world \<Rightarrow> (HPETState \<times> world) res" where
  "hpet_step E (HpetFault a f) (s, w) = rbind (hpet_fault_callback E a f s w) (\<lambda>(_, s, w). Inr (s, w))"
| "hpet_step E (HpetTimers c) (s, w) = hpet_timer_interrupt E c s w"

text \<open>
  The accesses that are safe: none to the registers of a fourth timer, and no write of the upper
  half of a comparator.
\<close>

fun hpet_admissible :: "hpet_op \<Rightarrow> bool" where
  "hpet_admissible (HpetFault a ReadFault) = hpet_offset_ok (fault_offset a)"
| "hpet_admissible (HpetFault a (WriteFault d)) =
     (hpet_offset_ok (fault_offset a) \<and>
      (in_timer_regs (fault_offset a) \<longrightarrow> unat (fault_offset a) mod 0x20 \<noteq> 0xc))"
| "hpet_admissible (HpetTimers c) = True"

lemma ok_timer_interrupt: "hpet_inv s \<Longrightarrow> ok (hpet_timer_interrupt E c s w) hgood"
  unfolding hpet_timer_interrupt_def
  by (rule timer_loop [OF timer_bodies(3)]) (simp_all add: HPET_MAX_TIMERS_def list_all_iff)

lemma hpet_step_ok:
  assumes "hgood p" "hpet_admissible op"
  shows "ok (hpet_step E op p) hgood"
proof (cases op)
  case (HpetFault a f)
  then show ?thesis
    using assms
    by (cases p; cases f) (auto simp: hpet_fault_callback_def Let_def split_beta fault_offset_def hgood_def
        intro!: ok_mono [OF ok_mmio_read] ok_mono [OF ok_mmio_write])
next
  case (HpetTimers c)
  then show ?thesis using assms by (cases p) (simp add: ok_timer_interrupt)
qed

interpretation hpet_dev: safe_device "hpet_step E" hgood hpet_admissible
  by unfold_locales (rule hpet_step_ok)

lemma reset_body: "timer_body hpet_reset_timer"
  unfolding timer_body_def hpet_reset_timer_def Let_def ok_rbind
  using hpet_inv_timer
  by (intro allI impI ok_mono [OF ok_hpet_del_timer])
    (auto simp: hgood_def timer_ok_def intro!: hpet_inv_set_timer)

lemma ok_pre_init: "ok (hpet_pre_init f n hpet_bss w) hgood"
proof -
  have "hpet_inv (hpet_realize n (hpet_bss\<lparr>tsc_frequency := f\<rparr>))"
    by (simp add: hpet_realize_def hpet_bss_def hpet_inv_def Let_def timer_ok_def HPET_MAX_TIMERS_def
        HPET_MIN_TIMERS_def upt_rec)
  then show ?thesis
    unfolding hpet_pre_init_def hpet_reset_def Let_def ok_rbind
    by (intro ok_mono [OF ok_for_timers [OF reset_body]]) (auto simp: hgood_def)
qed

text \<open>
  C16. However the guest drives the HPET after it has been set up, with timer interrupts in
  between, no access leaves the timer array and no loop runs for ever, as long as the guest
  neither touches the registers of a fourth timer nor writes the upper half of a comparator.
  There are always three timers, numbered 0 to 2, the status register has a bit for each and
  nothing else, and the period of a 32-bit timer fits 32 bits.
\<close>

theorem hpet_guest_safe:
  assumes "list_all hpet_admissible ops"
  shows "ok (rbind (hpet_pre_init f n hpet_bss w) (run_ops (hpet_step E) ops)) (\<lambda>(s, w'). hpet_inv s)"
proof -
  have "ok (run_ops (hpet_step E) ops p) hgood" if "hgood p" for p
    using hpet_dev.run_ok that assms by blast
  moreover have "hgood = (\<lambda>(s, w). hpet_inv s)" by (simp add: fun_eq_iff)
  ultimately show ?thesis
    using ok_pre_init [of f n w] by (auto elim!: ok_mono)
qed

theorem hpet_guest_safe_witness:
  "ok (rbind (hpet_pre_init 1000000000 9 hpet_bss boot_world)
     (run_ops (hpet_step sample_env)
       [HpetFault 0xfed00100 (WriteFault 0x4c), HpetFault 0xfed00108 (WriteFault 100),
        HpetFault 0xfed00010 (WriteFault 1), HpetTimers 0x200, HpetFault 0xfed000f0 ReadFault]))
     (\<lambda>(s, w'). hpet_inv s)"
  by (rule hpet_guest_safe)
    (simp add: fault_offset_def HPET_BASE_def hpet_offset_ok_def in_timer_regs_def)

text \<open>
  The registers of a fourth timer, which does not exist, pass the range check, because it
  compares with > where it needs >=: a guest's access to them leaves the timer array.
\<close>

theorem hpet_fourth_timer_faults:
  assumes "hpet_inv s" "0x160 \<le> unat offset" "unat offset < 0x180"
  shows "vm_hpet_mmio_read E offset s w = Inl OutOfBounds \<and>
    vm_hpet_mmio_write E offset v s w = Inl OutOfBounds"
proof -
  have r: "in_timer_regs offset" using assms by (simp add: in_timer_regs_def word_le_nat_alt)
  obtain k where k: "unat offset = 0x160 + k" "k < 0x20"
    using assms le_Suc_ex [OF assms(2)] by auto
  have i: "unat (timer_id offset) = 3"
    unfolding timer_index(1) [OF r] using k by simp
  then have "\<not> num_timers s < timer_id offset" "\<not> unat (timer_id offset) < length (timer s)"
    using assms(1) by (simp_all add: hpet_inv_def word_less_nat_alt)
  then have "vm_hpet_mmio_read E offset s w = Inl OutOfBounds"
    using r by (simp add: vm_hpet_mmio_read_def aget_def)
  then show ?thesis by (simp add: vm_hpet_mmio_write_def)
qed

section \<open>Periodic timers\<close>

lemma ok_catch_up64_first:
  assumes "p \<noteq> 0" "unat p \<le> 2 ^ 63" "hpet_time_after64 cur c"
  shows "ok (catch_up64 cur p c) (\<lambda>c'. unat (c' - cur) < unat p \<and>
    (\<exists>k. c' = c + of_nat k * p \<and> (\<forall>j < k. hpet_time_after64 cur (c + of_nat j * p))))"
proof -
  let ?P = "\<lambda>c. hpet_time_after64 cur c \<or> unat (c - cur) < unat p"
  have it: "((\<lambda>c. c + p) ^^ k) c = c + of_nat k * p" for k
    by (induction k) (simp_all add: algebra_simps)
  have "ok (catch_up64 cur p c) (\<lambda>c'. ?P c' \<and> \<not> hpet_time_after64 cur c')"
    unfolding catch_up64_def
  proof (rule ok_rwhile [where f = "\<lambda>c. catch_up_measure p (c - cur)"])
    fix c assume c: "?P c" "hpet_time_after64 cur c"
    have "?P (c + p)"
    proof (cases "hpet_time_after64 cur (c + p)")
      case False
      then have "unat (c + p - cur) < 2 ^ 63"
        using sint_neg_iff [of "c + p - cur"] by (simp add: hpet_time_after64_def)
      moreover have "2 ^ 63 \<le> unat (c - cur)"
        using c(2) sint_neg_iff [of "c - cur"] by (simp add: hpet_time_after64_def)
      moreover have e: "c + p - cur = (c - cur) + p" by simp
      moreover have "unat (c - cur + p) = unat (c - cur) + unat p \<or> unat (c - cur + p) < unat p"
        using c(2) unfolding hpet_time_after64_def by (rule step_wraps)
      ultimately show ?thesis by (simp only: e) linarith
    qed simp
    moreover have "catch_up_measure p (c + p - cur) < catch_up_measure p (c - cur)"
      using catch_up_decreases [of p "c - cur"] c(2) assms(1)
      by (simp add: hpet_time_after64_def algebra_simps)
    ultimately show "?P (c + p) \<and> catch_up_measure p (c + p - cur) < catch_up_measure p (c - cur)" by blast
  next
    show "?P c" using assms(3) by simp
  qed
  from rwhile_first [OF this [unfolded catch_up64_def]] show ?thesis
    unfolding it catch_up64_def by (elim ok_mono) blast
qed

lemma update_irq_out:
  assumes "hpet_inv s" "i < 3"
  shows "ok (update_irq i on s w) (\<lambda>(s', w'). timer s' = timer s \<and> (\<exists>es. out w' = out w @ es))"
  using hpet_inv_timer [OF assms] by (simp add: update_irq_def Let_def)

text \<open>
  C6. When a 64-bit periodic timer expires late, the comparator moves by whole periods to the first
  value that is not before the current tick, less than one period ahead, and the next expiry is
  armed for exactly that many ticks (at least one), however many periods were missed.
\<close>

theorem hpet_periodic_expiry:
  assumes "hpet_inv s" "i < 3"
    and "nz (timer_is_periodic (timer s ! i))" "t_config (timer s ! i) AND HPET_TN_32BIT = 0"
    and "t_period (timer s ! i) \<noteq> 0" "unat (t_period (timer s ! i)) \<le> 2 ^ 63"
    and "hpet_time_after64 (fst (hpet_get_ticks E s w)) (cmp (timer s ! i))"
  shows "ok (hpet_timer E i s w) (\<lambda>(s', w').
    let p = t_period (timer s ! i); cur = fst (hpet_get_ticks E s w);
        c = cmp (timer s ! i); c' = cmp (timer s' ! i)
    in unat (c' - cur) < unat p \<and>
       (\<exists>k. c' = c + of_nat k * p \<and> (\<forall>j < k. hpet_time_after64 cur (c + of_nat j * p))) \<and>
       (\<exists>es. out w' = out w @ OneshotRel (tid (timer s ! i)) (10 * (if c' = cur then 1 else c' - cur)) # es))"
proof -
  let ?t = "timer s ! i" and ?cur = "fst (hpet_get_ticks E s w)"
  note t = hpet_inv_timer [OF assms(1,2)]
  have d: "hpet_calculate_diff (?t\<lparr>cmp := c\<rparr>) ?cur = (if c = ?cur then 1 else c - ?cur)"
    if "unat (c - ?cur) < unat (t_period ?t)" for c
  proof -
    have "sint (c - ?cur) = int (unat (c - ?cur))"
      using that assms(6) by (intro sint_small) simp
    then have "0 < sint (c - ?cur) \<longleftrightarrow> c \<noteq> ?cur"
      by (metis diff_0_right eq_iff_diff_eq_0 of_nat_0_less_iff unat_gt_0)
    then show ?thesis using assms(4) by (simp add: hpet_calculate_diff_def Let_def)
  qed
  have g: "hpet_inv (set_timer i (?t\<lparr>cmp := c\<rparr>) s)" for c
    using t assms(1,2) by (simp add: hpet_inv_set_timer)
  have o: "out (snd (hpet_get_ticks E s w)) = out w" by (simp add: hpet_get_ticks_def split_beta)
  show ?thesis
    unfolding hpet_timer_def ok_rbind Let_def split_beta
    using t assms(2-5) o
    apply (simp add: ticks_to_ns_def HPET_CLK_PERIOD_def)
    apply (rule ok_mono [OF ok_catch_up64_first [OF assms(5,6,7)]])
    apply (rule ok_mono [OF update_irq_out [OF g assms(2)]])
    by (auto simp: d mult.commute) metis
qed

definition late_hpet :: HPETState where
  "late_hpet = hpet_bss\<lparr>num_timers := 3, tsc_frequency := 1000000000, config := 1,
     timer := [\<lparr>tn = 0, t_config = 0x0c, cmp = - 100, fsb = 0, t_period = 30, wrap_flag = 0, tid = 9\<rparr>,
               \<lparr>tn = 1, t_config = 0, cmp = 0, fsb = 0, t_period = 0, wrap_flag = 0, tid = 10\<rparr>,
               \<lparr>tn = 2, t_config = 0, cmp = 0, fsb = 0, t_period = 0, wrap_flag = 0, tid = 11\<rparr>]\<rparr>"

theorem hpet_periodic_expiry_witness:
  "ok (hpet_timer sample_env 0 late_hpet boot_world) (\<lambda>(s', w'). unat (cmp (timer s' ! 0)) < 30)"
proof -
  have "hpet_inv late_hpet" "timer late_hpet ! 0 =
      \<lparr>tn = 0, t_config = 0x0c, cmp = - 100, fsb = 0, t_period = 30, wrap_flag = 0, tid = 9\<rparr>"
    by (simp_all add: late_hpet_def hpet_bss_def hpet_inv_def timer_ok_def)
  moreover have "fst (hpet_get_ticks sample_env late_hpet boot_world) = 0"
    by (simp add: hpet_get_ticks_def current_time_ns_def sample_env_def boot_world_def late_hpet_def
        hpet_bss_def ns_to_ticks_def)
  ultimately show ?thesis
    using hpet_periodic_expiry [of late_hpet 0 sample_env boot_world]
    by (auto simp: timer_is_periodic_def hpet_time_after64_def Let_def elim!: ok_mono)
qed

lemma set_timer_frame:
  "i < length (timer s) \<Longrightarrow> ok (hpet_set_timer E i s w)
     (\<lambda>(s', w'). \<exists>x. s' = set_timer i ((timer s ! i)\<lparr>wrap_flag := x\<rparr>) s)"
  by (auto simp: hpet_set_timer_def Let_def split_beta)

lemma del_timer_frame:
  "hpet_inv s \<Longrightarrow> i < 3 \<Longrightarrow> ok (hpet_del_timer i s w) (\<lambda>(s', w'). timer s' = timer s)"
  using hpet_inv_timer [of s i]
  by (auto simp: hpet_del_timer_def intro!: ok_mono [OF update_irq_out])

lemma arm_frame:
  assumes "hpet_inv (set_timer i t s)" "i < 3" "i < length (timer s)"
  shows "ok (if b then hpet_set_timer E i (set_timer i t s) w
             else if c then hpet_del_timer i (set_timer i t s) w else Inr (set_timer i t s, w))
    (\<lambda>(s', w'). \<exists>x. timer s' = (timer s)[i := t\<lparr>wrap_flag := x\<rparr>])"
proof -
  have "\<exists>x. (timer s)[i := t] = (timer s)[i := t\<lparr>wrap_flag := x\<rparr>]"
    by (rule exI [of _ "wrap_flag t"]) simp
  then show ?thesis
    using assms set_timer_frame [of i "set_timer i t s" E w] del_timer_frame [OF assms(1,2), of w]
    by (auto elim!: ok_mono)
qed

lemma hpet_timer_diverges:
  assumes "i < length (timer s)" "nz (timer_is_periodic (timer s ! i))"
    "nz (t_config (timer s ! i) AND HPET_TN_32BIT)"
    "t_period (timer s ! i) \<noteq> 0" "ucast (t_period (timer s ! i)) = (0 :: u32)"
    "hpet_time_after (fst (hpet_get_ticks E s w)) (cmp (timer s ! i))"
  shows "hpet_timer E i s w = Inl NoReturn"
  using assms by (simp add: hpet_timer_def catch_up32_diverges split_beta aget_def)


definition hanging_hpet :: HPETState where
  "hanging_hpet = late_hpet\<lparr>timer := (timer late_hpet)
     [0 := \<lparr>tn = 0, t_config = 0x10c, cmp = 0xffffffff, fsb = 0, t_period = 0, wrap_flag = 0, tid = 9\<rparr>]\<rparr>"


section \<open>Register writes\<close>

text \<open>The bits of a timer's configuration register the guest may write: 1-3, 6 and 8-14.\<close>

definition tn_cfg_writable :: "nat set" where
  "tn_cfg_writable = {1, 2, 3, 6, 8, 9, 10, 11, 12, 13, 14}"

lemma cfg_write_mask_bit:
  "bit HPET_TN_CFG_WRITE_MASK n \<longleftrightarrow> n \<in> tn_cfg_writable"
proof (cases "n < 16")
  case True
  have "list_all (\<lambda>n. bit HPET_TN_CFG_WRITE_MASK n \<longleftrightarrow> n \<in> {1, 2, 3, 6, 8, 9, 10, 11, 12, 13, 14}) [0..<16]"
    by code_simp
  then show ?thesis using True by (simp add: list_all_iff tn_cfg_writable_def)
next
  case False
  have "take_bit 16 HPET_TN_CFG_WRITE_MASK = HPET_TN_CFG_WRITE_MASK"
    by (simp add: HPET_TN_CFG_WRITE_MASK_def)
  then have "bit HPET_TN_CFG_WRITE_MASK n \<longleftrightarrow> n < 16 \<and> bit HPET_TN_CFG_WRITE_MASK n"
    by (metis bit_take_bit_iff)
  then show ?thesis using False by (auto simp: tn_cfg_writable_def)
qed

lemma tn_cfg_written_bits:
  "bit (t_config (tn_cfg_written (t_config t) v t)) n \<longleftrightarrow>
   bit (if n \<in> tn_cfg_writable then v else t_config t) n"
proof -
  have c: "t_config (tn_cfg_written (t_config t) v t) =
      (t_config t AND 0xffffffff00000000) OR hpet_fixup_reg v (t_config t) HPET_TN_CFG_WRITE_MASK"
    by (simp add: tn_cfg_written_def Let_def)
  have "(0xffffffff00000000 :: u64) = push_bit 32 (mask 32)" by (simp add: mask_eq_exp_minus_1)
  then have h: "bit (0xffffffff00000000 :: u64) n \<longleftrightarrow> 32 \<le> n \<and> n < 64"
    by (simp only: bit_push_bit_iff bit_mask_iff) auto
  have h': "n \<in> tn_cfg_writable \<Longrightarrow> \<not> bit (0xffffffff00000000 :: u64) n"
    unfolding h by (auto simp: tn_cfg_writable_def)
  have r: "bit x n \<Longrightarrow> n < 64" for x :: u64 using bit_imp_le_length [of x n] by simp
  show ?thesis
    unfolding c hpet_fixup_reg_def
    using r h' by (auto simp: bit_or_iff bit_and_iff bit_not_iff cfg_write_mask_bit)
qed

text \<open>The address of the configuration register of timer \<open>i\<close>.\<close>

definition tn_cfg_offset :: "nat \<Rightarrow> u32" where
  "tn_cfg_offset i = word_of_nat (0x100 + 0x20 * i)"

lemma tn_cfg_offset:
  assumes "i < 3"
  shows "in_timer_regs (tn_cfg_offset i)" "unat (timer_id (tn_cfg_offset i)) = i"
    "timer_reg (tn_cfg_offset i) = 0"
proof -
  have o: "unat (tn_cfg_offset i) = 0x100 + 0x20 * i"
    using assms by (auto simp: tn_cfg_offset_def three)
  then show r: "in_timer_regs (tn_cfg_offset i)"
    using assms by (simp add: in_timer_regs_def word_le_nat_alt)
  show "unat (timer_id (tn_cfg_offset i)) = i" "timer_reg (tn_cfg_offset i) = 0"
    using o by (simp_all add: timer_index [OF r])
qed

text \<open>
  A write of a timer's configuration register changes the writable bits of that register to
  the bits written and no other bit, and no other timer, whatever else it starts or stops.
\<close>

theorem hpet_cfg_write:
  assumes "hpet_inv s" "i < 3"
  shows "ok (vm_hpet_mmio_write E (tn_cfg_offset i) v s w) (\<lambda>(s', w').
    (\<forall>n. bit (t_config (timer s' ! i)) n \<longleftrightarrow>
       bit (if n \<in> tn_cfg_writable then v else t_config (timer s ! i)) n) \<and>
    (\<forall>j. j \<noteq> i \<longrightarrow> timer s' ! j = timer s ! j))"
proof -
  let ?t = "tn_cfg_written (t_config (timer s ! i)) v (timer s ! i)"
  let ?o = "t_config (timer s ! i)"
  let ?Q = "\<lambda>(s', w'). \<exists>x. timer s' = (timer s)[i := ?t\<lparr>wrap_flag := x\<rparr>]"
  note i = hpet_inv_timer [OF assms]
  have frame: "ok (write_tn_cfg E i ?o v s w1) ?Q" for w1
  proof -
    have "ok (if activating_bit ?o v HPET_TN_FSB_ENABLE then update_irq i 0 s w1 else Inr (s, w1))
        (\<lambda>(s', w'). hpet_inv s' \<and> timer s' = timer s)"
      using assms ok_update_irq [OF assms, of 0 w1] update_irq_out [OF assms, of 0 w1]
      by (auto simp: ok_iff_ex)
    moreover have "ok (rbind (aget (timer s1) i) (\<lambda>t.
       let s = set_timer i (tn_cfg_written ?o v t) s1
       in if activating_bit ?o v HPET_TN_ENABLE \<and> nz (hpet_enabled s)
          then hpet_set_timer E i s w2
          else if deactivating_bit ?o v HPET_TN_ENABLE then hpet_del_timer i s w2
          else Inr (s, w2))) ?Q" if "hpet_inv s1" "timer s1 = timer s" for s1 w2
    proof -
      have "hpet_inv (set_timer i ?t s1)"
        using that assms i by (intro hpet_inv_set_timer) (simp_all add: timer_ok_cfg_written)
      from arm_frame [OF this assms(2)] show ?thesis
        using that i by (simp add: aget_def Let_def del: ok_if)
    qed
    ultimately show ?thesis unfolding write_tn_cfg_def ok_rbind by (auto elim!: ok_mono)
  qed
  have "vm_hpet_mmio_read E (tn_cfg_offset i) s w = Inr (?o, w)" "\<not> num_timers s < timer_id (tn_cfg_offset i)"
    using tn_cfg_offset [OF assms(2)] assms i
    by (simp_all add: vm_hpet_mmio_read_def aget_def hpet_inv_def word_less_nat_alt)
  then have e: "vm_hpet_mmio_write E (tn_cfg_offset i) v s w = write_tn_cfg E i ?o v s w"
    using tn_cfg_offset [OF assms(2)] by (simp add: vm_hpet_mmio_write_def Let_def)
  show ?thesis
    unfolding e using i by (intro ok_mono [OF frame]) (auto simp: tn_cfg_written_bits)
qed

theorem hpet_cfg_write_witness:
  "ok (vm_hpet_mmio_write sample_env (tn_cfg_offset 1) (- 1) late_hpet boot_world)
     (\<lambda>(s', w'). bit (t_config (timer s' ! 1)) 2 \<and> \<not> bit (t_config (timer s' ! 1)) 0)"
proof -
  have "hpet_inv late_hpet" "t_config (timer late_hpet ! 1) = 0"
    by (simp_all add: late_hpet_def hpet_bss_def hpet_inv_def timer_ok_def)
  then show ?thesis
    using hpet_cfg_write [of late_hpet 1 sample_env "- 1" boot_world]
    by (auto simp: tn_cfg_writable_def elim!: ok_mono)
qed

section \<open>The main counter\<close>

lemma enable_loop:
  assumes "hpet_inv s"
  shows "ok (for_timers (\<lambda>i s w. rbind (aget (timer s) i) (\<lambda>t.
      if P t then hpet_set_timer E i s w else Inr (s, w))) s w)
    (\<lambda>(s', w'). hpet_offset s' = hpet_offset s \<and> tsc_frequency s' = tsc_frequency s)"
proof -
  let ?I = "\<lambda>(s', w' :: world). hpet_inv s' \<and> hpet_offset s' = hpet_offset s \<and> tsc_frequency s' = tsc_frequency s"
  let ?f = "\<lambda>i (s, w). rbind (aget (timer s) i) (\<lambda>t. if P t then hpet_set_timer E i s w else Inr (s, w))"
  have "safe_device ?f ?I (\<lambda>i. i < 3)"
  proof
    fix p and i :: nat assume p: "?I p" "i < 3"
    obtain s1 w1 where s1: "p = (s1, w1)" by (cases p)
    have l: "hpet_inv s1" "i < length (timer s1)" using p s1 hpet_inv_timer [of s1 i] by auto
    show "ok (?f i p) ?I"
      using p l ok_hpet_set_timer [OF l(1) p(2), of E w1] set_timer_frame [OF l(2), of E w1]
      by (auto simp: s1 aget_def ok_iff_ex)
  qed
  from safe_device.run_ok [OF this, of "(s, w)" "[0..<unat (num_timers s)]"] show ?thesis
    using assms unfolding for_timers_def by (auto simp: hpet_inv_def list_all_iff elim!: ok_mono)
qed

lemma unat_ticks_to_ns: "unat c * 10 < 2 ^ 64 \<Longrightarrow> unat (ticks_to_ns c) = unat c * 10"
  by (simp add: ticks_to_ns_def HPET_CLK_PERIOD_def unat_word_ariths)

lemma hpet_enable_step:
  fixes E w
  assumes "hpet_inv s" "config s AND 1 = 0"
  defines "now \<equiv> fst (current_time_ns E (tsc_frequency s) w)" and "t \<equiv> ticks_to_ns (hpet_counter s)"
  shows "ok (vm_hpet_mmio_write E 0x10 1 s w) (\<lambda>(s', w'). tsc_frequency s' = tsc_frequency s \<and>
    hpet_offset s' = (if t < now then 0 else t - now))"
proof -
  have "\<not> in_timer_regs 0x10" by (simp add: in_timer_regs_def)
  then have e: "vm_hpet_mmio_write E 0x10 1 s w = write_cfg E (config s) 1 s w"
    by (simp add: vm_hpet_mmio_write_def vm_hpet_mmio_read_def Let_def)
  show ?thesis
    unfolding e write_cfg_def ok_rbind Let_def split_beta activating_bit_def deactivating_bit_def
    using assms(1,2) by (auto simp: now_def t_def intro!: ok_mono [OF enable_loop])
qed

text \<open>
  Enabling the main counter: when the counter is not behind the time stamp counter it goes
  on from its value with the time that passes; when it is behind, the offset is set to 0 instead
  of going negative, so that the counter's value is lost and it jumps to the host's time.
\<close>

theorem hpet_enable_counter:
  assumes "hpet_inv s" "config s AND 1 = 0"
    and "now = fst (current_time_ns E (tsc_frequency s) w)"
    and "unat (hpet_counter s) * 10 < 2 ^ 63"
  shows "ok (vm_hpet_mmio_write E 0x10 1 s w) (\<lambda>(s', w'). \<forall>w2.
    let now2 = fst (current_time_ns E (tsc_frequency s) w2); ticks = fst (hpet_get_ticks E s' w2)
    in unat now \<le> unat now2 \<longrightarrow> unat now2 < 2 ^ 63 \<longrightarrow>
       unat ticks = (if unat now \<le> unat (hpet_counter s) * 10
                     then (unat (hpet_counter s) * 10 + (unat now2 - unat now)) div 10
                     else unat now2 div 10))"
proof -
  have t: "unat (ticks_to_ns (hpet_counter s)) = unat (hpet_counter s) * 10"
    using assms(4) by (intro unat_ticks_to_ns) simp
  have "unat (fst (hpet_get_ticks E s' w2)) = (if unat now \<le> unat (hpet_counter s) * 10
      then (unat (hpet_counter s) * 10 + (unat now2 - unat now)) div 10 else unat now2 div 10)"
    if s': "tsc_frequency s' = tsc_frequency s"
      "hpet_offset s' = (if ticks_to_ns (hpet_counter s) < now then 0 else ticks_to_ns (hpet_counter s) - now)"
    and n: "now2 = fst (current_time_ns E (tsc_frequency s) w2)" "unat now \<le> unat now2" "unat now2 < 2 ^ 63"
    for s' w2 now2
  proof -
    have g: "unat (fst (hpet_get_ticks E s' w2)) = unat (now2 + hpet_offset s') div 10"
      by (simp add: hpet_get_ticks_def split_beta s'(1) n(1) ns_to_ticks_def HPET_CLK_PERIOD_def unat_div)
    show ?thesis
    proof (cases "unat now \<le> unat (hpet_counter s) * 10")
      case True
      then have "unat (hpet_offset s') = unat (hpet_counter s) * 10 - unat now"
        using t by (simp add: s'(2) word_less_nat_alt unat_sub word_le_nat_alt not_less)
      then have "unat (now2 + hpet_offset s') = unat (hpet_counter s) * 10 + (unat now2 - unat now)"
        using assms(4) n True by (subst unat_plus_64) simp_all
      then show ?thesis using True g by simp
    next
      case False
      then show ?thesis using g t by (simp add: s'(2) word_less_nat_alt)
    qed
  qed
  then show ?thesis
    unfolding assms(3) Let_def
    by (intro ok_mono [OF hpet_enable_step [OF assms(1,2)]]) (auto simp: assms(3))
qed

theorem hpet_enable_counter_witness:
  "ok (vm_hpet_mmio_write sample_env 0x10 1 (late_hpet\<lparr>config := 0, hpet_counter := 10\<rparr>) (boot_world\<lparr>tsc_reads := 1\<rparr>))
     (\<lambda>(s', w'). unat (fst (hpet_get_ticks sample_env s' (boot_world\<lparr>tsc_reads := 2\<rparr>))) = 200)"
proof -
  have "hpet_inv (late_hpet\<lparr>config := 0, hpet_counter := 10\<rparr>)"
    by (simp add: late_hpet_def hpet_bss_def hpet_inv_def timer_ok_def)
  then show ?thesis
    using hpet_enable_counter [of "late_hpet\<lparr>config := 0, hpet_counter := 10\<rparr>"
        "fst (current_time_ns sample_env 1000000000 (boot_world\<lparr>tsc_reads := 1\<rparr>))" sample_env
        "boot_world\<lparr>tsc_reads := 1\<rparr>"]
    by (auto simp: late_hpet_def hpet_bss_def current_time_ns_def sample_env_def Let_def elim!: ok_mono)
qed

theorem hpet_fourth_timer_faults_witness:
  "vm_hpet_mmio_read sample_env 0x160 late_hpet boot_world = Inl OutOfBounds"
proof -
  have "hpet_inv late_hpet" by (simp add: late_hpet_def hpet_bss_def hpet_inv_def timer_ok_def)
  then show ?thesis using hpet_fourth_timer_faults [of late_hpet "0x160" sample_env boot_world 0] by simp
qed

end
