(* ===== verification/Sataserver.thy ===== *)
theory Sataserver
  imports Vmm_Prelude
begin

text \<open>
  The SATA server of \<^verbatim>\<open>components/Sataserver/src/sataserver.c\<close>: it gives every client a virtual
  disk made of the partitions of a physical disk that the configuration assigns to the client.
  The driver, the layout of its structures and the size of a sector come from the SATA driver
  library, hence the record \<open>sata_lib\<close>; the code that the connector template generates
  (\<^verbatim>\<open>templates/seL4Sataserver-to.template.c\<close>) copies a partition list of the configuration into the
  client's structure.  The server's lock makes its operations atomic, as they are here.
  The set-up of allocators, IOMMU and controller in \<^verbatim>\<open>post_init\<close> is in \<open>Sata_Init\<close>.
\<close>

section \<open>Data\<close>

definition MAX_PARTITIONS :: nat where "MAX_PARTITIONS = 4"
definition VIRT_START_SECTOR :: u32 where "VIRT_START_SECTOR = 64"
definition BUF_SIZE :: u32 where "BUF_SIZE = 4096"
definition MAX_NUM_CYL :: u32 where "MAX_NUM_CYL = 1023"
definition MAX_NUM_HEAD :: u32 where "MAX_NUM_HEAD = 255"
definition MAX_NUM_SECT :: u32 where "MAX_NUM_SECT = 63"
definition START_SECTOR :: u32 where "START_SECTOR = 0"

definition SATASERVER_STATUS_GOOD :: u32 where "SATASERVER_STATUS_GOOD = 0"
definition SATASERVER_STATUS_NOT_DONE :: u32 where "SATASERVER_STATUS_NOT_DONE = 1"
definition SATASERVER_STATUS_INVALID_CONF :: u32 where "SATASERVER_STATUS_INVALID_CONF = 2"

text \<open>An entry of a partition table, with the members the server uses.\<close>

record partition_table_t =
  boot :: u8
  head :: u8
  sec_cyl :: u16
  sys_id :: u8
  end_head :: u8
  end_sec_cyl :: u16
  start_lba :: u32
  num_sectors :: u32

record client_t =
  client_id :: u32
  partitions :: "u8 list"
  num_partitions :: u8
  partition_tables :: "partition_table_t list"
  capacity :: u64
  dataport :: "u8 list"

type_synonym disk = "u32 \<Rightarrow> u8 list"

record sata_lib =
  SATA_BLK_SIZE :: u32
  PART_OFFSET :: nat
  part_bytes :: "partition_table_t \<Rightarrow> u8 list"
  sata_read_sectors :: "u32 \<Rightarrow> u32 \<Rightarrow> disk \<Rightarrow> i32 \<times> u8 list"
  sata_write_sectors :: "u32 \<Rightarrow> u32 \<Rightarrow> u8 list \<Rightarrow> disk \<Rightarrow> i32 \<times> disk"

record sataserver =
  assigned_parts :: "u8 list"
  g_part_data :: "u8 list"
  phys_partition_tables :: "partition_table_t list"
  done_init :: bool
  invalid_config :: bool
  clients :: "client_t list"
  hard_disk :: disk

definition zero_table :: partition_table_t where
  "zero_table =
     \<lparr>boot = 0, head = 0, sec_cyl = 0, sys_id = 0, end_head = 0, end_sec_cyl = 0, start_lba = 0,
      num_sectors = 0\<rparr>"

definition zero_client :: client_t where
  "zero_client =
     \<lparr>client_id = 0, partitions = replicate MAX_PARTITIONS 0, num_partitions = 0,
      partition_tables = replicate MAX_PARTITIONS zero_table, capacity = 0, dataport = []\<rparr>"

text \<open>\<^verbatim>\<open>memcpy\<close> to the start of a buffer.\<close>

definition copy_to :: "'a list \<Rightarrow> 'a list \<Rightarrow> 'a list" where
  "copy_to buf d = d @ drop (length d) buf"

definition copy_at :: "nat \<Rightarrow> 'a list \<Rightarrow> 'a list \<Rightarrow> 'a list" where
  "copy_at k buf d = take k buf @ d @ drop (k + length d) buf"

section \<open>Requests\<close>

text \<open>
  The offset of a client's sector on the physical disk: the first partition of the client that
  holds the sector decides.
\<close>

fun offset_from :: "sataserver \<Rightarrow> client_t \<Rightarrow> u32 \<Rightarrow> nat list \<Rightarrow> u32 option res" where
  "offset_from s c sector [] = Inr None"
| "offset_from s c sector (i # is) =
     rbind (aget (partition_tables c) i) (\<lambda>t.
       let virt_start = start_lba t
       in if virt_start \<le> sector \<and> sector < virt_start + num_sectors t
          then rbind (aget (partitions c) i) (\<lambda>p.
                 let part_idx = p - 1
                 in rbind (aget (phys_partition_tables s) (unat part_idx)) (\<lambda>q.
                      Inr (Some (start_lba q - virt_start))))
          else offset_from s c sector is)"

definition calulate_sector_offset :: "sataserver \<Rightarrow> client_t \<Rightarrow> u32 \<Rightarrow> u32 option res" where
  "calulate_sector_offset s c sector = offset_from s c sector [0..<unat (num_partitions c)]"

text \<open>The loop keeps the last client with the sender's number.\<close>

definition find_client :: "sataserver \<Rightarrow> u32 \<Rightarrow> nat res" where
  "find_client s sender =
     (let is = filter (\<lambda>i. client_id (clients s ! i) = sender) [0..<length (clients s)]
      in rbind (rassert (is \<noteq> [])) (\<lambda>_. Inr (last is)))"

definition set_dataport :: "nat \<Rightarrow> u8 list \<Rightarrow> sataserver \<Rightarrow> sataserver" where
  "set_dataport k d s = s\<lparr>clients := (clients s)[k := (clients s ! k)\<lparr>dataport := d\<rparr>]\<rparr>"

definition client_rx ::
    "sata_lib \<Rightarrow> u32 \<Rightarrow> u32 \<Rightarrow> u32 \<Rightarrow> sataserver \<Rightarrow> (i32 \<times> sataserver) res" where
  "client_rx L sender sector len s =
     (if \<not> done_init s then Inr (0, s)
      else if BUF_SIZE < len then Inr (0, s)
      else rbind (find_client s sender) (\<lambda>k.
        let c = clients s ! k; packet = dataport c
        in if sector = START_SECTOR
           then let part_data = copy_at (PART_OFFSET L) (g_part_data s)
                                  (concat (map (part_bytes L) (partition_tables c)))
                in Inr (len, set_dataport k (copy_to packet part_data) s)
           else if sector < VIRT_START_SECTOR
           then Inr (len, set_dataport k (copy_to packet (replicate (unat len) 0)) s)
           else rbind (calulate_sector_offset s c sector) (\<lambda>found.
                  case found of
                    None \<Rightarrow> Inr (0, s)
                  | Some offset \<Rightarrow>
                      let (err, d) = sata_read_sectors L (len div SATA_BLK_SIZE L) (sector + offset) (hard_disk s)
                      in if nz err then Inr (0, s)
                         else Inr (len, set_dataport k (copy_to packet d) s))))"

definition client_tx ::
    "sata_lib \<Rightarrow> u32 \<Rightarrow> u32 \<Rightarrow> u32 \<Rightarrow> sataserver \<Rightarrow> (i32 \<times> sataserver) res" where
  "client_tx L sender sector len s =
     (if \<not> done_init s then Inr (0, s)
      else if BUF_SIZE < len then Inr (0, s)
      else rbind (find_client s sender) (\<lambda>k.
        let c = clients s ! k; packet = dataport c
        in if VIRT_START_SECTOR \<le> sector
           then rbind (calulate_sector_offset s c sector) (\<lambda>found.
                  case found of
                    None \<Rightarrow> Inr (0, s)
                  | Some offset \<Rightarrow>
                      let (err, d) = sata_write_sectors L (len div SATA_BLK_SIZE L) (sector + offset) packet (hard_disk s);
                          s = s\<lparr>hard_disk := d\<rparr>
                      in Inr (if nz err then 0 else len, s))
           else Inr (len, s)))"

definition client_get_capacity :: "u32 \<Rightarrow> sataserver \<Rightarrow> u32 res" where
  "client_get_capacity sender s =
     (if \<not> done_init s then Inr 0
      else rbind (find_client s sender) (\<lambda>k. Inr (ucast (capacity (clients s ! k)))))"

definition client_get_status :: "sataserver \<Rightarrow> u32" where
  "client_get_status s =
     (if invalid_config s then SATASERVER_STATUS_INVALID_CONF
      else if \<not> done_init s then SATASERVER_STATUS_NOT_DONE
      else SATASERVER_STATUS_GOOD)"

section \<open>Start-up\<close>

definition check_part_is_assigned :: "u8 \<Rightarrow> u8 list \<Rightarrow> i32 \<times> u8 list" where
  "check_part_is_assigned p assigned =
     (let part = p - 1
      in if MAX_PARTITIONS \<le> unat part \<or> nz (assigned ! unat part) then (- 1, assigned)
         else (0, assigned[unat part := 1]))"

text \<open>
  The generated \<^verbatim>\<open>client_get_partitions\<close>: a badge the configuration does not name changes
  nothing; a list longer than the destination overruns it.
\<close>

definition client_get_partitions ::
    "(u32 \<times> u8 list) list \<Rightarrow> u32 \<Rightarrow> u8 list \<Rightarrow> u8 \<Rightarrow> (u8 list \<times> u8) res" where
  "client_get_partitions conf badge partition_list n =
     (case map_of conf badge of
        None \<Rightarrow> Inr (partition_list, n)
      | Some temp \<Rightarrow>
          if length temp \<le> length partition_list
          then Inr (copy_to partition_list temp, word_of_nat (length temp))
          else Inl OutOfBounds)"

text \<open>Assigning the partitions of one client; \<open>False\<close> is a partition that cannot be assigned.\<close>

fun assign_parts :: "u8 list \<Rightarrow> u8 list \<Rightarrow> bool \<times> u8 list" where
  "assign_parts [] assigned = (True, assigned)"
| "assign_parts (p # ps) assigned =
     (let (e, assigned) = check_part_is_assigned p assigned
      in if nz e then (False, assigned) else assign_parts ps assigned)"

text \<open>
  The loop over the clients: \<^verbatim>\<open>client_enumerate_badge\<close> gives the badges in order and
  \<^verbatim>\<open>client_buf\<close> the dataports.  An invalid configuration leaves the loop.
\<close>

definition client_entry ::
    "(u32 \<times> u8 list) list \<Rightarrow> (u32 \<Rightarrow> u8 list) \<Rightarrow> u32 \<Rightarrow> client_t res" where
  "client_entry conf client_buf badge =
     (let c = zero_client\<lparr>client_id := badge, dataport := client_buf badge\<rparr>
      in rbind (client_get_partitions conf badge (partitions c) (num_partitions c)) (\<lambda>(ps, n).
           Inr (c\<lparr>partitions := ps, num_partitions := n\<rparr>)))"

definition assigned_to :: "client_t \<Rightarrow> u8 list" where
  "assigned_to c = take (unat (num_partitions c)) (partitions c)"

fun enumerate_clients ::
    "(u32 \<times> u8 list) list \<Rightarrow> (u32 \<Rightarrow> u8 list) \<Rightarrow> u32 list \<Rightarrow> u8 list \<Rightarrow> (bool \<times> client_t list \<times> u8 list) res" where
  "enumerate_clients conf client_buf [] assigned = Inr (True, [], assigned)"
| "enumerate_clients conf client_buf (b # bs) assigned =
     rbind (client_entry conf client_buf b) (\<lambda>c.
       if MAX_PARTITIONS < unat (num_partitions c)
       then Inr (False, c # map (\<lambda>_. zero_client) bs, assigned)
       else let (valid, assigned) = assign_parts (assigned_to c) assigned
            in if \<not> valid then Inr (False, c # map (\<lambda>_. zero_client) bs, assigned)
               else rbind (enumerate_clients conf client_buf bs assigned) (\<lambda>(valid, cs, assigned).
                      Inr (valid, c # cs, assigned)))"

text \<open>Conversion of a sector number to cylinder, head and sector, and their packing.\<close>

definition lba_to_chs :: "u32 \<Rightarrow> u16 \<times> u8 \<times> u8" where
  "lba_to_chs lba =
     (if MAX_NUM_CYL < lba div (MAX_NUM_HEAD * MAX_NUM_SECT)
      then (ucast MAX_NUM_CYL, ucast MAX_NUM_HEAD, ucast MAX_NUM_SECT)
      else (ucast (lba div (MAX_NUM_HEAD * MAX_NUM_SECT)),
            ucast (lba div MAX_NUM_SECT mod MAX_NUM_HEAD),
            ucast (lba mod MAX_NUM_SECT + 1)))"

definition pack_sec_cyl :: "u8 \<Rightarrow> u16 \<Rightarrow> u16" where
  "pack_sec_cyl sec cyl =
     ucast ((ucast sec :: i32) OR drop_bit 2 (ucast cyl AND 0x0300) OR push_bit 8 (ucast cyl AND 0x00ff))"

definition virtual_table :: "partition_table_t \<Rightarrow> u32 \<Rightarrow> partition_table_t \<Rightarrow> partition_table_t" where
  "virtual_table phys sectors t =
     (let t = t\<lparr>boot := boot phys, sys_id := sys_id phys, num_sectors := num_sectors phys,
                start_lba := sectors\<rparr>;
          (cyl, hd, sec) = lba_to_chs (start_lba t);
          t = t\<lparr>head := hd, sec_cyl := pack_sec_cyl sec cyl\<rparr>;
          end_lba = start_lba t + num_sectors t - 1;
          (cyl, hd, sec) = lba_to_chs end_lba
      in t\<lparr>end_head := hd, end_sec_cyl := pack_sec_cyl sec cyl\<rparr>)"

fun fill_tables ::
    "partition_table_t list \<Rightarrow> u8 list \<Rightarrow> nat \<Rightarrow> u32 \<Rightarrow> partition_table_t list \<Rightarrow>
     (u32 \<times> partition_table_t list) res" where
  "fill_tables phys [] i sectors ts = Inr (sectors, ts)"
| "fill_tables phys (p # ps) i sectors ts =
     rbind (aget phys (unat (p - 1))) (\<lambda>q.
     rbind (aget ts i) (\<lambda>t.
       let t = virtual_table q sectors t
       in fill_tables phys ps (Suc i) (sectors + num_sectors t) (ts[i := t])))"

definition build_client :: "partition_table_t list \<Rightarrow> client_t \<Rightarrow> client_t res" where
  "build_client phys c =
     rbind (fill_tables phys (assigned_to c) 0 VIRT_START_SECTOR (replicate MAX_PARTITIONS zero_table))
       (\<lambda>(sectors, ts). Inr (c\<lparr>partition_tables := ts, capacity := ucast sectors\<rparr>))"

fun build_clients :: "partition_table_t list \<Rightarrow> client_t list \<Rightarrow> client_t list res" where
  "build_clients phys [] = Inr []"
| "build_clients phys (c # cs) =
     rbind (build_client phys c) (\<lambda>c. rbind (build_clients phys cs) (\<lambda>cs. Inr (c # cs)))"

definition sataserver_bss :: "disk \<Rightarrow> sataserver" where
  "sataserver_bss d =
     \<lparr>assigned_parts = replicate MAX_PARTITIONS 0, g_part_data = [],
      phys_partition_tables = replicate MAX_PARTITIONS zero_table, done_init = False,
      invalid_config = False, clients = [], hard_disk = d\<rparr>"

definition post_init ::
    "(u32 \<times> u8 list) list \<Rightarrow> (u32 \<Rightarrow> u8 list) \<Rightarrow> u32 list \<Rightarrow> partition_table_t list \<Rightarrow> u8 list \<Rightarrow>
     sataserver \<Rightarrow> sataserver res" where
  "post_init conf client_buf badges tables data s =
     (let s = s\<lparr>phys_partition_tables := tables, g_part_data := data\<rparr>
      in rbind (enumerate_clients conf client_buf badges (assigned_parts s)) (\<lambda>(valid, cs, assigned).
           let s = s\<lparr>clients := cs, assigned_parts := assigned\<rparr>
           in if \<not> valid then Inr (s\<lparr>invalid_config := True, done_init := True\<rparr>)
              else rbind (build_clients tables cs) (\<lambda>cs.
                     Inr (s\<lparr>clients := cs, done_init := True\<rparr>))))"

section \<open>Partitions are assigned once\<close>

definition pidx :: "u8 \<Rightarrow> nat" where
  "pidx p = unat (p - 1)"

definition part_number :: "u8 \<Rightarrow> bool" where
  "part_number p \<longleftrightarrow> pidx p < 4"

lemma part_number_iff: "part_number p \<longleftrightarrow> 1 \<le> unat p \<and> unat p \<le> 4"
proof (cases "p = 0")
  case True
  have "unat (- 1 :: u8) = 255" by code_simp
  then show ?thesis using True by (simp add: part_number_def pidx_def)
next
  case False
  then have "0 < unat p" by (simp add: unat_gt_0)
  then show ?thesis using False by (auto simp: part_number_def pidx_def unat_dec)
qed

lemma pidx_inject [simp]: "pidx p = pidx q \<longleftrightarrow> p = q"
  by (simp add: pidx_def word_unat_eq_iff [symmetric])

lemma check_part_ok:
  "check_part_is_assigned p a = (0, a') \<Longrightarrow> part_number p \<and> a ! pidx p = 0 \<and> a' = a[pidx p := 1]"
  by (auto simp: check_part_is_assigned_def Let_def MAX_PARTITIONS_def not_le part_number_def pidx_def split: if_splits)

lemma assign_parts_ok:
  "length a = 4 \<Longrightarrow> assign_parts ps a = (True, a') \<Longrightarrow>
   length a' = 4 \<and> distinct ps \<and> list_all part_number ps \<and>
   (\<forall>p \<in> set ps. a ! (pidx p) = 0) \<and>
   (\<forall>p. part_number p \<longrightarrow> a' ! (pidx p) = (if p \<in> set ps then 1 else a ! (pidx p)))"
proof (induction ps arbitrary: a)
  case (Cons p ps)
  obtain a1 where a1: "check_part_is_assigned p a = (0, a1)" "assign_parts ps a1 = (True, a')"
    using Cons.prems(2) by (auto simp: Let_def split: prod.splits if_splits)
  note p = check_part_ok [OF a1(1)]
  then have l: "length a1 = 4" using Cons.prems(1) by simp
  note IH = Cons.IH [OF l a1(2)]
  have q: "a1 ! pidx q = (if q = p then 1 else a ! pidx q)" if "part_number q" for q
    using that p Cons.prems(1) by (auto simp: nth_list_update part_number_def)
  have "p \<notin> set ps" using IH p q [of p] by auto
  moreover have "a ! pidx r = 0" if "r \<in> set ps" for r
    using IH q [of r] that by (auto simp: list_all_iff split: if_splits)
  ultimately show ?case
    using IH p q by (auto simp: list_all_iff)
qed simp

lemma assigned_to_tables [simp]: "assigned_to (c\<lparr>partition_tables := ts, capacity := n\<rparr>) = assigned_to c"
  by (simp add: assigned_to_def)

lemma assigned_zero [simp]: "assigned_to zero_client = []"
  by (simp add: assigned_to_def zero_client_def)

lemma enumerate_ok:
  "length a = 4 \<Longrightarrow> enumerate_clients conf buf bs a = Inr (True, cs, a') \<Longrightarrow>
   length a' = 4 \<and> map client_id cs = bs \<and>
   distinct (concat (map assigned_to cs)) \<and>
   (\<forall>c \<in> set cs. unat (num_partitions c) \<le> 4 \<and> length (partitions c) = 4 \<and> list_all part_number (assigned_to c)) \<and>
   (\<forall>p \<in> set (concat (map assigned_to cs)). a ! (pidx p) = 0)"
proof (induction bs arbitrary: a cs a')
  case (Cons b bs)
  obtain c where c: "client_entry conf buf b = Inr c"
    using Cons.prems(2) by (auto simp: rbind_eq_Inr)
  have cl: "client_id c = b" "length (partitions c) = 4"
    using c by (auto simp: client_entry_def client_get_partitions_def zero_client_def MAX_PARTITIONS_def
        copy_to_def Let_def rbind_eq_Inr split: option.splits if_splits)
  obtain a1 cs1 where a1: "assign_parts (assigned_to c) a = (True, a1)" "unat (num_partitions c) \<le> 4"
    "enumerate_clients conf buf bs a1 = Inr (True, cs1, a')" "cs = c # cs1"
    using Cons.prems(2) c
    by (auto simp: Let_def MAX_PARTITIONS_def rbind_eq_Inr not_less split: prod.splits if_splits)
  note p = assign_parts_ok [OF Cons.prems(1) a1(1)]
  note IH = Cons.IH [OF _ a1(3)]
  have r: "list_all part_number (assigned_to d)" if "d \<in> set cs1" for d
    using IH p that by auto
  have "q \<notin> set (assigned_to c)" if "d \<in> set cs1" "q \<in> set (assigned_to d)" for d q
  proof
    assume "q \<in> set (assigned_to c)"
    moreover have "part_number q" using r that by (auto simp: list_all_iff)
    ultimately have "a1 ! (pidx q) = 1" using p by auto
    moreover have "a1 ! (pidx q) = 0" using IH p that by auto
    ultimately show False by simp
  qed
  moreover have "a ! (pidx q) = 0" if "d \<in> set cs1" "q \<in> set (assigned_to d)" for d q
  proof -
    have "part_number q" using r that by (auto simp: list_all_iff)
    moreover have "a1 ! (pidx q) = 0" using IH p that by auto
    ultimately show ?thesis using p by (auto split: if_splits)
  qed
  ultimately show ?case using IH p cl a1 by auto
qed (auto)

lemma build_clients_ok:
  "build_clients phys cs = Inr ds \<Longrightarrow> map assigned_to ds = map assigned_to cs \<and> map client_id ds = map client_id cs"
proof (induction cs arbitrary: ds)
  case (Cons c cs)
  then show ?case by (auto simp: build_client_def rbind_eq_Inr split: prod.splits)
qed simp

text \<open>
  C9. Every partition of the disk is assigned at most once: when the start-up accepts the
  configuration, no partition occurs twice among all clients' partitions (so no two clients
  share one), every number is between 1 and 4, and the clients are those of the badges.
\<close>

theorem sata_partitions_disjoint:
  assumes "post_init conf buf badges tables data (sataserver_bss d) = Inr s" "\<not> invalid_config s"
  shows "distinct (concat (map assigned_to (clients s))) \<and> map client_id (clients s) = badges \<and>
    (\<forall>c \<in> set (clients s). \<forall>p \<in> set (assigned_to c). 1 \<le> unat p \<and> unat p \<le> 4)"
proof -
  obtain cs a where e: "enumerate_clients conf buf badges (replicate 4 0) = Inr (True, cs, a)"
    "build_clients tables cs = Inr (clients s)"
    using assms by (auto simp: post_init_def sataserver_bss_def Let_def MAX_PARTITIONS_def rbind_eq_Inr
        split: prod.splits if_splits)
  have "map assigned_to (clients s) = map assigned_to cs" "map client_id (clients s) = map client_id cs"
    using build_clients_ok [OF e(2)] by simp_all
  moreover have "set (map assigned_to (clients s)) = assigned_to ` set (clients s)" by simp
  ultimately show ?thesis
    using enumerate_ok [OF _ e(1)]
    by (auto simp: part_number_iff list_all_iff) (metis (no_types, lifting) image_iff list.set_map)+
qed


section \<open>The virtual disk has no holes\<close>

text \<open>The sectors of the partitions \<open>ps\<close> on the physical disk.\<close>

definition sectors_of :: "partition_table_t list \<Rightarrow> u8 list \<Rightarrow> nat" where
  "sectors_of phys ps = sum_list (map (\<lambda>p. unat (num_sectors (phys ! pidx p))) ps)"

lemma sectors_of_simps [simp]:
  "sectors_of phys [] = 0"
  "sectors_of phys (p # ps) = unat (num_sectors (phys ! pidx p)) + sectors_of phys ps"
  "sectors_of phys (ps @ qs) = sectors_of phys ps + sectors_of phys qs"
  by (simp_all add: sectors_of_def)

lemma virtual_table_sel [simp]:
  "num_sectors (virtual_table q n t) = num_sectors q" "start_lba (virtual_table q n t) = n"
  "boot (virtual_table q n t) = boot q" "sys_id (virtual_table q n t) = sys_id q"
  by (simp_all add: virtual_table_def Let_def split_beta)

lemma fill_tables_ok:
  assumes "length phys = 4" "list_all part_number ps" "i + length ps \<le> length ts"
    "unat n + sectors_of phys ps < 2 ^ 32"
  shows "ok (fill_tables phys ps i n ts) (\<lambda>(m, us). unat m = unat n + sectors_of phys ps \<and>
    length us = length ts \<and> (\<forall>j < i. us ! j = ts ! j) \<and>
    (\<forall>j < length ps. num_sectors (us ! (i + j)) = num_sectors (phys ! pidx (ps ! j)) \<and>
       unat (start_lba (us ! (i + j))) = unat n + sectors_of phys (take j ps)))"
  using assms(2-4)
proof (induction ps arbitrary: i n ts)
  case (Cons p ps)
  let ?q = "phys ! pidx p"
  let ?ts = "ts[i := virtual_table ?q n (ts ! i)]"
  have p: "pidx p < length phys" "i < length ts" using Cons.prems assms(1) by (simp_all add: part_number_def)
  have n: "unat (n + num_sectors ?q) = unat n + unat (num_sectors ?q)"
    using Cons.prems(3) by (simp add: unat_plus_mod)
  have IH: "ok (fill_tables phys ps (Suc i) (n + num_sectors ?q) ?ts) (\<lambda>(m, us).
      unat m = unat (n + num_sectors ?q) + sectors_of phys ps \<and> length us = length ?ts \<and>
      (\<forall>j < Suc i. us ! j = ?ts ! j) \<and>
      (\<forall>j < length ps. num_sectors (us ! (Suc i + j)) = num_sectors (phys ! pidx (ps ! j)) \<and>
         unat (start_lba (us ! (Suc i + j))) = unat (n + num_sectors ?q) + sectors_of phys (take j ps)))"
    using Cons.prems n by (intro Cons.IH) simp_all
  have e: "fill_tables phys (p # ps) i n ts = fill_tables phys ps (Suc i) (n + num_sectors ?q) ?ts"
    using p by (simp add: aget_def pidx_def Let_def)
  show ?case
    unfolding e
  proof (rule ok_mono [OF IH], clarify, intro conjI allI impI)
    fix m us j
    assume us: "length us = length ?ts" "\<forall>j < Suc i. us ! j = ?ts ! j"
      "\<forall>j < length ps. num_sectors (us ! (Suc i + j)) = num_sectors (phys ! pidx (ps ! j)) \<and>
         unat (start_lba (us ! (Suc i + j))) = unat (n + num_sectors ?q) + sectors_of phys (take j ps)"
    show "length us = length ts" using us by simp
    show "us ! j = ts ! j" if "j < i" using us that by simp
    show "num_sectors (us ! (i + j)) = num_sectors (phys ! pidx ((p # ps) ! j))"
      "unat (start_lba (us ! (i + j))) = unat n + sectors_of phys (take j (p # ps))" if "j < length (p # ps)"
      using us that p n by (cases j; simp)+
  next
    fix m us assume "unat m = unat (n + num_sectors ?q) + sectors_of phys ps"
    then show "unat m = unat n + sectors_of phys (p # ps)" using n by simp
  qed
qed simp

text \<open>The first virtual sector of the client's partition number \<open>j\<close>.\<close>

definition vstart :: "partition_table_t list \<Rightarrow> u8 list \<Rightarrow> nat \<Rightarrow> nat" where
  "vstart phys ps j = 64 + sectors_of phys (take j ps)"

definition vsize :: "partition_table_t list \<Rightarrow> u8 list \<Rightarrow> nat \<Rightarrow> nat" where
  "vsize phys ps j = unat (num_sectors (phys ! pidx (ps ! j)))"

definition client_ok :: "partition_table_t list \<Rightarrow> client_t \<Rightarrow> bool" where
  "client_ok phys c \<longleftrightarrow>
     length (partition_tables c) = 4 \<and> length (partitions c) = 4 \<and> unat (num_partitions c) \<le> 4 \<and>
     list_all part_number (assigned_to c) \<and> 64 + sectors_of phys (assigned_to c) < 2 ^ 32 \<and>
     unat (capacity c) = 64 + sectors_of phys (assigned_to c) \<and>
     (\<forall>j < length (assigned_to c).
        unat (start_lba (partition_tables c ! j)) = vstart phys (assigned_to c) j \<and>
        unat (num_sectors (partition_tables c ! j)) = vsize phys (assigned_to c) j)"

lemma client_ok_length: "client_ok phys c \<Longrightarrow> length (assigned_to c) = unat (num_partitions c)"
  by (simp add: client_ok_def assigned_to_def)

lemma build_client_ok:
  assumes "length phys = 4" "unat (num_partitions c) \<le> 4" "length (partitions c) = 4"
    "list_all part_number (assigned_to c)" "64 + sectors_of phys (assigned_to c) < 2 ^ 32"
  shows "ok (build_client phys c) (client_ok phys)"
proof -
  have l: "length (assigned_to c) = unat (num_partitions c)" using assms by (simp add: assigned_to_def)
  have "ok (fill_tables phys (assigned_to c) 0 VIRT_START_SECTOR (replicate MAX_PARTITIONS zero_table)) (\<lambda>(m, us).
     unat m = unat VIRT_START_SECTOR + sectors_of phys (assigned_to c) \<and>
     length us = length (replicate MAX_PARTITIONS zero_table) \<and>
     (\<forall>j < 0. us ! j = replicate MAX_PARTITIONS zero_table ! j) \<and>
     (\<forall>j < length (assigned_to c). num_sectors (us ! (0 + j)) = num_sectors (phys ! pidx (assigned_to c ! j)) \<and>
        unat (start_lba (us ! (0 + j))) = unat VIRT_START_SECTOR + sectors_of phys (take j (assigned_to c))))"
    using assms l by (intro fill_tables_ok) (simp_all add: MAX_PARTITIONS_def VIRT_START_SECTOR_def)
  then show ?thesis
    unfolding build_client_def ok_rbind
  proof (rule ok_mono, clarify)
    fix m :: u32 and us
    let ?c = "c\<lparr>partition_tables := us, capacity := ucast m\<rparr>"
    assume m: "unat m = unat VIRT_START_SECTOR + sectors_of phys (assigned_to c)"
      "length us = length (replicate MAX_PARTITIONS zero_table)"
      "\<forall>j < length (assigned_to c). num_sectors (us ! (0 + j)) = num_sectors (phys ! pidx (assigned_to c ! j)) \<and>
        unat (start_lba (us ! (0 + j))) = unat VIRT_START_SECTOR + sectors_of phys (take j (assigned_to c))"
    then show "ok (Inr ?c) (client_ok phys)"
      using assms by (simp add: client_ok_def vstart_def vsize_def MAX_PARTITIONS_def VIRT_START_SECTOR_def
          unat_ucast_32_64)
  qed
qed

definition sata_good :: "sataserver \<Rightarrow> bool" where
  "sata_good s \<longleftrightarrow> done_init s \<and> length (phys_partition_tables s) = 4 \<and>
     (\<forall>c \<in> set (clients s). client_ok (phys_partition_tables s) c) \<and>
     distinct (concat (map assigned_to (clients s)))"

lemma build_clients_good:
  "length phys = 4 \<Longrightarrow> \<forall>c \<in> set cs. unat (num_partitions c) \<le> 4 \<and> length (partitions c) = 4 \<and>
     list_all part_number (assigned_to c) \<and> 64 + sectors_of phys (assigned_to c) < 2 ^ 32 \<Longrightarrow>
   ok (build_clients phys cs) (\<lambda>ds. (\<forall>d \<in> set ds. client_ok phys d) \<and> map assigned_to ds = map assigned_to cs \<and>
     map client_id ds = map client_id cs)"
proof (induction cs)
  case (Cons c cs)
  have "ok (build_client phys c) (\<lambda>d. client_ok phys d \<and> assigned_to d = assigned_to c \<and> client_id d = client_id c)"
    using build_client_ok [of phys c] Cons.prems
    by (auto simp: ok_iff_ex build_client_def rbind_eq_Inr split_beta)
  then show ?case using Cons by (auto elim!: ok_mono)
qed simp

lemma post_init_good:
  assumes "length tables = 4" "post_init conf buf badges tables data (sataserver_bss d) = Inr s"
    "\<not> invalid_config s"
    "\<forall>c \<in> set (clients s). 64 + sectors_of tables (assigned_to c) < 2 ^ 32"
  shows "sata_good s \<and> phys_partition_tables s = tables \<and> hard_disk s = d"
proof -
  obtain v cs a where e: "enumerate_clients conf buf badges (replicate 4 0) = Inr (v, cs, a)"
    using assms(2) by (auto simp: post_init_def sataserver_bss_def Let_def MAX_PARTITIONS_def rbind_eq_Inr)
  have v: v using assms(2,3) e
    by (cases v) (auto simp: post_init_def sataserver_bss_def Let_def MAX_PARTITIONS_def)
  have "rbind (build_clients tables cs) (\<lambda>cs. Inr ((sataserver_bss d)\<lparr>phys_partition_tables := tables,
      g_part_data := data, assigned_parts := a, clients := cs, done_init := True\<rparr>)) = Inr s"
    using assms(2) e v by (simp add: post_init_def Let_def sataserver_bss_def MAX_PARTITIONS_def)
  then obtain ds where b: "build_clients tables cs = Inr ds" "s = (sataserver_bss d)\<lparr>phys_partition_tables := tables,
      g_part_data := data, assigned_parts := a, clients := ds, done_init := True\<rparr>"
    by (cases "build_clients tables cs") simp_all
  have e: "enumerate_clients conf buf badges (replicate 4 0) = Inr (True, cs, a)" using e v by simp
  have cl: "clients s = ds" unfolding b(2) by simp
  note c = enumerate_ok [OF _ e]
  have m: "map assigned_to ds = map assigned_to cs" using build_clients_ok [OF b(1)] by simp
  have "\<forall>ps \<in> set (map assigned_to ds). 64 + sectors_of tables ps < 2 ^ 32"
    using assms(4) unfolding cl by auto
  then have sz: "\<forall>c \<in> set cs. 64 + sectors_of tables (assigned_to c) < 2 ^ 32"
    unfolding m by auto
  have "ok (build_clients tables cs) (\<lambda>ds. \<forall>d \<in> set ds. client_ok tables d)"
    using sz c by (intro ok_mono [OF build_clients_good [OF assms(1)]]) auto
  then show ?thesis using b m c assms(1) by (simp add: sata_good_def sataserver_bss_def)
qed

section \<open>Requests reach the partitions of their client only\<close>

lemma take_sectors:
  "k < j \<Longrightarrow> j < length ps \<Longrightarrow> vstart phys ps k + vsize phys ps k \<le> vstart phys ps j"
proof -
  assume k: "k < j" "j < length ps"
  have "take j ps = take (Suc k) ps @ take (j - Suc k) (drop (Suc k) ps)"
    using k by (metis Suc_leI le_add_diff_inverse take_add)
  moreover have "take (Suc k) ps = take k ps @ [ps ! k]" using k by (simp add: take_Suc_conv_app_nth)
  ultimately show ?thesis by (simp add: vstart_def vsize_def)
qed

lemma vend_le: "j < length ps \<Longrightarrow> vstart phys ps j + vsize phys ps j \<le> 64 + sectors_of phys ps"
proof -
  assume j: "j < length ps"
  have "ps = take j ps @ [ps ! j] @ drop (Suc j) ps" using j by (simp add: id_take_nth_drop)
  then have "sectors_of phys ps = sectors_of phys (take j ps) + (vsize phys ps j + sectors_of phys (drop (Suc j) ps))"
    by (metis sectors_of_simps(1,2,3) add.right_neutral vsize_def)
  then show ?thesis by (simp add: vstart_def)
qed

definition in_partition :: "partition_table_t list \<Rightarrow> u8 list \<Rightarrow> nat \<Rightarrow> nat \<Rightarrow> bool" where
  "in_partition phys ps j v \<longleftrightarrow> vstart phys ps j \<le> v \<and> v < vstart phys ps j + vsize phys ps j"

lemma in_partition_unique:
  "in_partition phys ps j v \<Longrightarrow> in_partition phys ps k v \<Longrightarrow> j < length ps \<Longrightarrow> k < length ps \<Longrightarrow> j = k"
  using take_sectors [of j k ps phys] take_sectors [of k j ps phys]
  by (cases j k rule: linorder_cases) (auto simp: in_partition_def)

definition phys_of :: "sataserver \<Rightarrow> client_t \<Rightarrow> nat \<Rightarrow> partition_table_t" where
  "phys_of s c j = phys_partition_tables s ! pidx (assigned_to c ! j)"

lemma offset_test:
  assumes "client_ok phys c" "j < length (assigned_to c)"
  shows "start_lba (partition_tables c ! j) \<le> sector \<and>
      sector < start_lba (partition_tables c ! j) + num_sectors (partition_tables c ! j) \<longleftrightarrow>
    in_partition phys (assigned_to c) j (unat sector)"
proof -
  let ?t = "partition_tables c ! j"
  have t: "unat (start_lba ?t) = vstart phys (assigned_to c) j" "unat (num_sectors ?t) = vsize phys (assigned_to c) j"
    "64 + sectors_of phys (assigned_to c) < 2 ^ 32"
    using assms by (simp_all add: client_ok_def)
  have "vstart phys (assigned_to c) j + vsize phys (assigned_to c) j < 2 ^ 32"
    using vend_le [OF assms(2), of phys] t(3) by linarith
  then have "unat (start_lba ?t + num_sectors ?t) = vstart phys (assigned_to c) j + vsize phys (assigned_to c) j"
    using t by (simp add: unat_plus_mod)
  then show ?thesis by (simp add: in_partition_def word_le_nat_alt word_less_nat_alt t)
qed

lemma offset_from_ok:
  assumes c: "client_ok (phys_partition_tables s) c" "length (phys_partition_tables s) = 4"
  shows "\<forall>i \<in> set is. i < length (assigned_to c) \<Longrightarrow>
    offset_from s c sector is = Inr (map_option
      (\<lambda>i. start_lba (phys_of s c i) - start_lba (partition_tables c ! i))
      (find (\<lambda>i. in_partition (phys_partition_tables s) (assigned_to c) i (unat sector)) is))"
proof (induction "is")
  case (Cons i "is")
  have i: "i < length (assigned_to c)" "i < 4" "i < length (partition_tables c)" "i < length (partitions c)"
    using Cons.prems c client_ok_length [OF c(1)] by (auto simp: client_ok_def)
  have a: "assigned_to c ! i = partitions c ! i" using i(1) by (simp add: assigned_to_def)
  have "part_number (partitions c ! i)"
    using c(1) i(1) by (simp add: client_ok_def list_all_length a [symmetric])
  then have "unat (partitions c ! i - 1) < 4" by (simp add: part_number_def pidx_def)
  then show ?case
    using Cons i c(2) offset_test [OF c(1) i(1), of sector]
    by (simp add: aget_def Let_def phys_of_def a pidx_def)
qed simp

lemma calulate_sector_offset_ok:
  assumes "client_ok (phys_partition_tables s) c" "length (phys_partition_tables s) = 4"
  shows "ok (calulate_sector_offset s c sector) (\<lambda>r. True)"
    and "j < length (assigned_to c) \<Longrightarrow>
      in_partition (phys_partition_tables s) (assigned_to c) j (unat sector) \<Longrightarrow>
      calulate_sector_offset s c sector = Inr (Some (start_lba (phys_of s c j) - start_lba (partition_tables c ! j)))"
proof -
  let ?n = "unat (num_partitions c)" and ?P = "\<lambda>i. in_partition (phys_partition_tables s) (assigned_to c) i (unat sector)"
  have e: "calulate_sector_offset s c sector = Inr (map_option
      (\<lambda>i. start_lba (phys_of s c i) - start_lba (partition_tables c ! i)) (find ?P [0..<?n]))"
    unfolding calulate_sector_offset_def
    using client_ok_length [OF assms(1)] by (intro offset_from_ok assms) simp
  then show "ok (calulate_sector_offset s c sector) (\<lambda>r. True)" by simp
  assume j: "j < length (assigned_to c)" "?P j"
  then have "find ?P [0..<?n] \<noteq> None"
    using client_ok_length [OF assms(1)] by (auto simp: find_None_iff)
  then obtain i where i: "find ?P [0..<?n] = Some i" by auto
  then have "?P i \<and> i < length (assigned_to c)"
    using client_ok_length [OF assms(1)] by (auto simp: find_Some_iff)
  then have "i = j" using in_partition_unique j by blast
  then show "calulate_sector_offset s c sector = Inr (Some (start_lba (phys_of s c j) - start_lba (partition_tables c ! j)))"
    using e i by simp
qed

text \<open>The driver touches the sectors it is told to and no other, and a sector has 512 bytes.\<close>

definition sata_lib_ok :: "sata_lib \<Rightarrow> bool" where
  "sata_lib_ok L \<longleftrightarrow> SATA_BLK_SIZE L = 512 \<and>
     (\<forall>n start data d x. \<not> x - start < n \<longrightarrow> snd (sata_write_sectors L n start data d) x = d x)"

definition sample_sata :: sata_lib where
  "sample_sata = \<lparr>SATA_BLK_SIZE = 512, PART_OFFSET = 446, part_bytes = (\<lambda>t. replicate 16 0),
     sata_read_sectors = (\<lambda>n start d. (0, concat (map (\<lambda>k. d (start + of_nat k)) [0..<unat n]))),
     sata_write_sectors = (\<lambda>n start data d.
       (0, \<lambda>x. if x - start < n then take 512 (drop (512 * unat (x - start)) data) else d x))\<rparr>"

lemma sample_sata_ok: "sata_lib_ok sample_sata"
  by (simp add: sata_lib_ok_def sample_sata_def)

definition phys_range :: "partition_table_t \<Rightarrow> u32 \<Rightarrow> bool" where
  "phys_range t x \<longleftrightarrow> x - start_lba t < num_sectors t"

lemma find_client_ok:
  "find_client s sender = Inr k \<Longrightarrow> k < length (clients s) \<and> client_id (clients s ! k) = sender"
  by (auto simp: find_client_def Let_def rassert_def rbind_eq_Inr split: if_splits dest!: last_in_set)

lemma request_range:
  assumes "in_partition phys ps j v" "v + n \<le> vstart phys ps j + vsize phys ps j" "unat sector = v"
    "unat a = vstart phys ps j" "unat m = n" "x - (sector + (b - a)) < m"
  shows "unat (x - b) < vsize phys ps j"
proof -
  have "x - b = (x - (sector + (b - a))) + (sector - a)" by simp
  moreover have "unat (sector - a) = v - vstart phys ps j"
    using assms(1,3,4) by (simp add: in_partition_def unat_sub word_le_nat_alt)
  moreover have "unat (x - (sector + (b - a))) < n" using assms(5,6) by (simp add: word_less_nat_alt)
  ultimately have "unat (x - b) \<le> unat (x - (sector + (b - a))) + (v - vstart phys ps j)"
    by (metis unat_plus_mod diff_le_self order_refl) 
  then show ?thesis using assms(1,2) \<open>unat (x - (sector + (b - a))) < n\<close> by (simp add: in_partition_def)
qed

lemma client_tx_inside:
  assumes L: "sata_lib_ok L" and s: "sata_good s" and k: "find_client s sender = Inr k"
    and j: "j < length (assigned_to (clients s ! k))"
    and v: "in_partition (phys_partition_tables s) (assigned_to (clients s ! k)) j (unat sector)"
    and n: "unat sector + unat len div 512 \<le>
      vstart (phys_partition_tables s) (assigned_to (clients s ! k)) j +
      vsize (phys_partition_tables s) (assigned_to (clients s ! k)) j"
  shows "ok (client_tx L sender sector len s) (\<lambda>(r, s').
    \<forall>x. hard_disk s' x \<noteq> hard_disk s x \<longrightarrow> phys_range (phys_of s (clients s ! k) j) x)"
proof -
  let ?c = "clients s ! k" and ?phys = "phys_partition_tables s"
  have c: "client_ok ?phys ?c" "length ?phys = 4" "done_init s"
    using s find_client_ok [OF k] by (auto simp: sata_good_def)
  note off = calulate_sector_offset_ok(2) [OF c(1,2) j v]
  let ?a = "start_lba (partition_tables ?c ! j)" and ?b = "start_lba (phys_of s ?c j)"
  have a: "unat ?a = vstart ?phys (assigned_to ?c) j" using c(1) j by (simp add: client_ok_def)
  have blk: "SATA_BLK_SIZE L = 512" "unat (len div 512) = unat len div 512"
    using L by (simp_all add: sata_lib_ok_def unat_div)
  have "phys_range (phys_of s ?c j) x" if "x - (sector + (?b - ?a)) < len div 512" for x
    using request_range [OF v n refl a blk(2) that] by (simp add: phys_range_def phys_of_def vsize_def word_less_nat_alt)
  then have w: "\<forall>x. snd (sata_write_sectors L (len div 512) (sector + (?b - ?a)) data (hard_disk s)) x \<noteq> hard_disk s x \<longrightarrow>
      phys_range (phys_of s ?c j) x" for data
    using L unfolding sata_lib_ok_def by blast
  show ?thesis
    unfolding client_tx_def Let_def split_beta
    using c(3) k off w by (simp add: blk(1))
qed

text \<open>A configuration for witnesses: two clients with two partitions each.\<close>

definition sample_tables :: "partition_table_t list" where
  "sample_tables = map (\<lambda>i. zero_table\<lparr>start_lba := 1000 * word_of_nat i + 1000, num_sectors := 100\<rparr>) [0..<4]"

definition sample_post_init :: "sataserver res" where
  "sample_post_init = post_init [(7, [1, 3]), (9, [2, 4])] (\<lambda>_. [1, 2, 3]) [7, 9] sample_tables []
     (sataserver_bss (\<lambda>_. []))"

definition sample_server :: sataserver where
  "sample_server = (case sample_post_init of Inr s \<Rightarrow> s | Inl e \<Rightarrow> sataserver_bss (\<lambda>_. []))"

lemma sample_post_init_eval:
  "ok sample_post_init (\<lambda>s. \<not> invalid_config s \<and> map assigned_to (clients s) = [[1, 3], [2, 4]] \<and>
     map client_id (clients s) = [7, 9] \<and> phys_partition_tables s = sample_tables \<and>
     vstart sample_tables [1, 3] 1 = 164 \<and> vsize sample_tables [1, 3] 1 = 100 \<and>
     sectors_of sample_tables [1, 3] = 200 \<and> sectors_of sample_tables [2, 4] = 200 \<and>
     find_client s 7 = Inr 0)"
  by code_simp

lemma sample_server_eq: "sample_post_init = Inr sample_server" "\<not> invalid_config sample_server"
  "map assigned_to (clients sample_server) = [[1, 3], [2, 4]]" "map client_id (clients sample_server) = [7, 9]"
  "phys_partition_tables sample_server = sample_tables"
  and sample_vstart: "vstart sample_tables [1, 3] (Suc 0) = 164" "vsize sample_tables [1, 3] (Suc 0) = 100"
  "find_client sample_server 7 = Inr 0"
  and sample_sectors: "sectors_of sample_tables [1, 3] = 200" "sectors_of sample_tables [2, 4] = 200"
proof -
  obtain s where s: "sample_post_init = Inr s" and p: "\<not> invalid_config s \<and>
     map assigned_to (clients s) = [[1, 3], [2, 4]] \<and>
     map client_id (clients s) = [7, 9] \<and> phys_partition_tables s = sample_tables \<and>
     vstart sample_tables [1, 3] 1 = 164 \<and> vsize sample_tables [1, 3] 1 = 100 \<and>
     sectors_of sample_tables [1, 3] = 200 \<and> sectors_of sample_tables [2, 4] = 200 \<and>
     find_client s 7 = Inr 0"
    using sample_post_init_eval by (rule okE)
  have e: "sample_server = s" unfolding sample_server_def s by simp
  show "sample_post_init = Inr sample_server" unfolding e by (rule s)
  show "\<not> invalid_config sample_server"
    "map assigned_to (clients sample_server) = [[1, 3], [2, 4]]" "map client_id (clients sample_server) = [7, 9]"
    "phys_partition_tables sample_server = sample_tables"
    "vstart sample_tables [1, 3] (Suc 0) = 164" "vsize sample_tables [1, 3] (Suc 0) = 100"
    "find_client sample_server 7 = Inr 0"
    "sectors_of sample_tables [1, 3] = 200" "sectors_of sample_tables [2, 4] = 200"
    using p unfolding e One_nat_def by blast+
qed

lemma length_sample_tables [simp]: "length sample_tables = 4"
  by (simp add: sample_tables_def)

lemma sample_capacity: "\<forall>c \<in> set (clients sample_server). 64 + sectors_of sample_tables (assigned_to c) < 2 ^ 32"
proof -
  have "assigned_to c \<in> {[1, 3], [2, 4]}" if "c \<in> set (clients sample_server)" for c
    using sample_server_eq(3) that by (metis empty_set image_eqI list.set_map list.simps(15))
  then show ?thesis using sample_sectors by fastforce
qed

lemma sample_good: "sata_good sample_server"
  using post_init_good [OF length_sample_tables sample_server_eq(1) [unfolded sample_post_init_def]
      sample_server_eq(2) sample_capacity] by simp

theorem sata_partitions_disjoint_witness:
  "distinct (concat (map assigned_to (clients sample_server)))"
  using sata_partitions_disjoint [OF sample_server_eq(1) [unfolded sample_post_init_def] sample_server_eq(2)]
  by simp

text \<open>
  The virtual disk of every client has no holes: its partitions follow one another from sector
  64 on, each with the size of the physical partition behind it, and the capacity is where the
  last one ends, provided the sum fits 32 bits.
\<close>

theorem sata_virtual_disk:
  assumes "length tables = 4" "post_init conf buf badges tables data (sataserver_bss d) = Inr s"
    "\<not> invalid_config s" "\<forall>c \<in> set (clients s). 64 + sectors_of tables (assigned_to c) < 2 ^ 32"
  shows "\<forall>c \<in> set (clients s).
    unat (capacity c) = 64 + sectors_of tables (assigned_to c) \<and>
    (\<forall>j < length (assigned_to c).
       unat (start_lba (partition_tables c ! j)) = 64 + sectors_of tables (take j (assigned_to c)) \<and>
       unat (num_sectors (partition_tables c ! j)) = unat (num_sectors (tables ! (unat (assigned_to c ! j) - 1))))"
proof -
  have "unat (p - 1) = unat p - 1" if "part_number p" for p :: u8
    using that by (intro unat_dec) (auto simp: part_number_iff)
  then have pidx: "unat (num_sectors (tables ! pidx (assigned_to c ! j))) =
      unat (num_sectors (tables ! (unat (assigned_to c ! j) - 1)))"
    if "client_ok tables c" "j < length (assigned_to c)" for c j
    using that by (simp add: client_ok_def list_all_length pidx_def)
  show ?thesis
  proof (intro ballI conjI allI impI)
    fix c assume "c \<in> set (clients s)"
    then have c: "client_ok tables c" using post_init_good [OF assms] by (auto simp: sata_good_def)
    then show "unat (capacity c) = 64 + sectors_of tables (assigned_to c)" by (simp add: client_ok_def)
    fix j assume j: "j < length (assigned_to c)"
    have "unat (start_lba (partition_tables c ! j)) = vstart tables (assigned_to c) j"
      "unat (num_sectors (partition_tables c ! j)) = vsize tables (assigned_to c) j"
      using c j by (simp_all add: client_ok_def)
    then show "unat (start_lba (partition_tables c ! j)) = 64 + sectors_of tables (take j (assigned_to c))"
      "unat (num_sectors (partition_tables c ! j)) = unat (num_sectors (tables ! (unat (assigned_to c ! j) - 1)))"
      using pidx [OF c j] by (simp_all only: vstart_def vsize_def)
  qed
qed

lemma sample_clients: "length (clients sample_server) = 2"
  "assigned_to (clients sample_server ! 0) = [1, 3]" "assigned_to (clients sample_server ! Suc 0) = [2, 4]"
  using sample_server_eq(3) by (auto simp: map_eq_Cons_conv)

theorem sata_virtual_disk_witness: "unat (capacity (clients sample_server ! 0)) = 264"
proof -
  have "clients sample_server ! 0 \<in> set (clients sample_server)" using sample_clients(1) by simp
  then show ?thesis
    using sata_virtual_disk [OF length_sample_tables sample_server_eq(1) [unfolded sample_post_init_def]
      sample_server_eq(2) sample_capacity] sample_clients(2) sample_sectors by auto
qed

lemma distinct_concat_disjoint:
  "distinct (concat xs) \<Longrightarrow> i < length xs \<Longrightarrow> j < length xs \<Longrightarrow> i \<noteq> j \<Longrightarrow> set (xs ! i) \<inter> set (xs ! j) = {}"
proof (induction xs arbitrary: i j)
  case (Cons x xs)
  have "set x \<inter> set (xs ! m) = {}" if "m < length xs" for m
    using Cons.prems(1) that by (auto dest: nth_mem)
  then show ?case using Cons by (cases i; cases j) auto
qed simp

definition disjoint_tables :: "partition_table_t list \<Rightarrow> bool" where
  "disjoint_tables phys \<longleftrightarrow> (\<forall>i < 4. \<forall>j < 4. i \<noteq> j \<longrightarrow> (\<forall>x. \<not> (phys_range (phys ! i) x \<and> phys_range (phys ! j) x)))"

lemma partitions_apart:
  assumes "sata_good s" "disjoint_tables (phys_partition_tables s)" "k < length (clients s)" "k' < length (clients s)" "k' \<noteq> k"
    "j < length (assigned_to (clients s ! k))" "j' < length (assigned_to (clients s ! k'))"
  shows "\<not> (phys_range (phys_of s (clients s ! k) j) x \<and> phys_range (phys_of s (clients s ! k') j') x)"
proof -
  let ?p = "assigned_to (clients s ! k) ! j" and ?q = "assigned_to (clients s ! k') ! j'"
  have "?p \<in> set (assigned_to (clients s ! k))" "?q \<in> set (assigned_to (clients s ! k'))" using assms by simp_all
  moreover have "set (assigned_to (clients s ! k)) \<inter> set (assigned_to (clients s ! k')) = {}"
    using distinct_concat_disjoint [of "map assigned_to (clients s)" k k'] assms by (simp add: sata_good_def)
  ultimately have "?p \<noteq> ?q" by auto
  moreover have "part_number ?p" "part_number ?q"
    using assms by (simp_all add: sata_good_def client_ok_def list_all_length)
  ultimately show ?thesis using assms(2) by (simp add: disjoint_tables_def phys_of_def part_number_def)
qed

text \<open>
  C18. Clients are isolated from one another: a write whose sectors all lie in one partition of the
  sender changes no sector of any partition of another client, when the partitions of the physical
  disk do not overlap and the driver writes the sectors it is told to.
\<close>

theorem sata_clients_isolated:
  assumes "sata_lib_ok L" "sata_good s" "disjoint_tables (phys_partition_tables s)"
    and "find_client s sender = Inr k" "j < length (assigned_to (clients s ! k))"
    and "vstart (phys_partition_tables s) (assigned_to (clients s ! k)) j \<le> unat sector"
    and "unat sector < vstart (phys_partition_tables s) (assigned_to (clients s ! k)) j +
           vsize (phys_partition_tables s) (assigned_to (clients s ! k)) j"
    and "unat sector + unat len div 512 \<le> vstart (phys_partition_tables s) (assigned_to (clients s ! k)) j +
           vsize (phys_partition_tables s) (assigned_to (clients s ! k)) j"
    and "k' < length (clients s)" "k' \<noteq> k" "j' < length (assigned_to (clients s ! k'))"
  shows "ok (client_tx L sender sector len s) (\<lambda>(r, s').
    \<forall>x. phys_range (phys_of s (clients s ! k') j') x \<longrightarrow> hard_disk s' x = hard_disk s x)"
proof -
  have "k < length (clients s)" using find_client_ok [OF assms(4)] by simp
  from partitions_apart [OF assms(2,3) this assms(9,10,5,11)] show ?thesis
    using assms by (intro ok_mono [OF client_tx_inside [OF assms(1,2,4,5)]]) (auto simp: in_partition_def)
qed


lemma phys_range_iff:
  assumes "unat (start_lba t) + unat (num_sectors t) \<le> 2 ^ 32"
  shows "phys_range t x \<longleftrightarrow> unat (start_lba t) \<le> unat x \<and> unat x < unat (start_lba t) + unat (num_sectors t)"
proof (cases "start_lba t \<le> x")
  case True
  then show ?thesis by (auto simp: phys_range_def word_less_nat_alt word_le_nat_alt unat_sub)
next
  case False
  then have "unat (x - start_lba t) = unat x + 2 ^ 32 - unat (start_lba t)"
    by (simp add: unat_sub_if_size word_le_nat_alt word_size)
  then show ?thesis using False assms by (auto simp: phys_range_def word_less_nat_alt word_le_nat_alt)
qed

lemma sample_disjoint: "disjoint_tables (phys_partition_tables sample_server)"
proof -
  have "unat (1000 * word_of_nat i + 1000 :: u32) = 1000 * i + 1000" if "i < 4" for i :: nat
  proof -
    have "i = 0 \<or> i = 1 \<or> i = 2 \<or> i = 3" using that by auto
    then show ?thesis by auto
  qed
  then have "phys_range (sample_tables ! i) x \<longleftrightarrow> 1000 * i + 1000 \<le> unat x \<and> unat x < 1000 * i + 1100"
    if "i < 4" for i x
    using that by (subst phys_range_iff) (auto simp: sample_tables_def)
  then show ?thesis by (simp add: disjoint_tables_def sample_server_eq(5))
qed

theorem sata_clients_isolated_witness:
  "ok (client_tx sample_sata 7 164 4096 sample_server) (\<lambda>(r, s'). hard_disk s' 2000 = hard_disk sample_server 2000)"
proof -
  have "phys_range (phys_of sample_server (clients sample_server ! 1) 0) 2000"
    by (simp add: phys_of_def sample_clients sample_server_eq(5) phys_range_def sample_tables_def pidx_def zero_table_def)
  then show ?thesis
    using sata_clients_isolated [OF sample_sata_ok sample_good sample_disjoint sample_vstart(3), of 1 164 4096 1 0]
    by (auto simp: sample_vstart sample_clients sample_server_eq(5) elim!: ok_mono)
qed

text \<open>
  C33. The check of a request looks at its first sector only: a write of two sectors or more to the
  last sector of a client's partition is accepted and stores the rest of the client's data in the
  sectors of the physical disk behind the partition, whoever they belong to.
\<close>

definition sata_writes :: "sata_lib \<Rightarrow> bool" where
  "sata_writes L \<longleftrightarrow> (\<forall>n start data d x. x - start < n \<longrightarrow>
     snd (sata_write_sectors L n start data d) x = take 512 (drop (512 * unat (x - start)) data))"

theorem sata_write_overruns:
  assumes "sata_lib_ok L" "sata_writes L" "sata_good s"
    and "find_client s sender = Inr k" "j < length (assigned_to (clients s ! k))"
    and "unat sector + 1 = vstart (phys_partition_tables s) (assigned_to (clients s ! k)) j +
           vsize (phys_partition_tables s) (assigned_to (clients s ! k)) j"
    and "0 < vsize (phys_partition_tables s) (assigned_to (clients s ! k)) j"
    and "1024 \<le> unat len" "unat len \<le> 4096"
  defines "t \<equiv> phys_of s (clients s ! k) j"
  shows "\<not> phys_range t (start_lba t + num_sectors t) \<and>
    ok (client_tx L sender sector len s) (\<lambda>(r, s').
      hard_disk s' (start_lba t + num_sectors t) = take 512 (drop 512 (dataport (clients s ! k))))"
proof -
  let ?c = "clients s ! k" and ?phys = "phys_partition_tables s"
  have c: "client_ok ?phys ?c" "length ?phys = 4" "done_init s"
    using assms(3) find_client_ok [OF assms(4)] by (auto simp: sata_good_def)
  let ?a = "start_lba (partition_tables ?c ! j)" and ?n = "num_sectors (partition_tables ?c ! j)"
  have a: "unat ?a = vstart ?phys (assigned_to ?c) j" "unat ?n = vsize ?phys (assigned_to ?c) j" "num_sectors t = ?n"
    using c(1) assms(5) by (simp_all add: client_ok_def t_def phys_of_def vsize_def word_unat_eq_iff)
  have v: "in_partition ?phys (assigned_to ?c) j (unat sector)"
    using assms(6,7) by (simp add: in_partition_def)
  note off = calulate_sector_offset_ok(2) [OF c(1,2) assms(5) v]
  have "vstart ?phys (assigned_to ?c) j + vsize ?phys (assigned_to ?c) j < 2 ^ 32"
    using vend_le [OF assms(5), of ?phys] c(1) by (simp add: client_ok_def)
  then have "unat (sector + 1) = unat (?a + ?n)" using a assms(6) by (simp add: unat_plus_mod)
  then have "sector + 1 = ?a + ?n" by (simp add: word_unat_eq_iff)
  then have x: "start_lba t + ?n - (sector + (start_lba t - ?a)) = 1"
    by (metis (no_types, lifting) add.commute add_diff_cancel_left' add_diff_eq diff_add_cancel)
  have l: "VIRT_START_SECTOR \<le> sector" "\<not> BUF_SIZE < len" "1 < len div 512"
    using v assms(8,9) by (simp_all add: in_partition_def vstart_def VIRT_START_SECTOR_def BUF_SIZE_def
        word_le_nat_alt word_less_nat_alt unat_div)
  show ?thesis
    unfolding client_tx_def Let_def split_beta
    using assms(1,2,4) c(3) off l x a(3)
    by (simp add: phys_range_def sata_lib_ok_def sata_writes_def t_def [symmetric])
qed

lemma sample_writes: "sata_writes sample_sata"
  by (simp add: sata_writes_def sample_sata_def)

theorem sata_write_overruns_witness:
  "ok (client_tx sample_sata 7 263 1024 sample_server) (\<lambda>(r, s').
     hard_disk s' 3100 = take 512 (drop 512 (dataport (clients sample_server ! 0))))"
proof -
  have "start_lba (phys_of sample_server (clients sample_server ! 0) (Suc 0)) +
      num_sectors (phys_of sample_server (clients sample_server ! 0) (Suc 0)) = 3100"
    by (simp add: phys_of_def sample_clients sample_server_eq(5) sample_tables_def pidx_def zero_table_def)
  then show ?thesis
    using sata_write_overruns [OF sample_sata_ok sample_writes sample_good sample_vstart(3), of "Suc 0" 263 1024]
    by (simp add: sample_vstart sample_clients sample_server_eq(5))
qed

section \<open>Requests of known clients never fault\<close>

datatype sata_op = Rx u32 u32 u32 | Tx u32 u32 u32 | GetCapacity u32

fun sata_step :: "sata_lib \<Rightarrow> sata_op \<Rightarrow> sataserver \<Rightarrow> sataserver res" where
  "sata_step L (Rx sender sector len) s = rbind (client_rx L sender sector len s) (\<lambda>(_, s). Inr s)"
| "sata_step L (Tx sender sector len) s = rbind (client_tx L sender sector len s) (\<lambda>(_, s). Inr s)"
| "sata_step L (GetCapacity sender) s = rbind (client_get_capacity sender s) (\<lambda>_. Inr s)"

fun sender_of :: "sata_op \<Rightarrow> u32" where
  "sender_of (Rx b _ _) = b" | "sender_of (Tx b _ _) = b" | "sender_of (GetCapacity b) = b"

text \<open>What start-up establishes and no request changes.\<close>

definition sata_same :: "sataserver \<Rightarrow> sataserver \<Rightarrow> bool" where
  "sata_same s0 s \<longleftrightarrow> sata_good s \<and> map assigned_to (clients s) = map assigned_to (clients s0) \<and>
     map client_id (clients s) = map client_id (clients s0) \<and>
     map partition_tables (clients s) = map partition_tables (clients s0)"

lemma client_ok_dataport [simp]: "client_ok phys (c\<lparr>dataport := d\<rparr>) = client_ok phys c"
  "assigned_to (c\<lparr>dataport := d\<rparr>) = assigned_to c"
  by (simp_all add: client_ok_def assigned_to_def)

lemma map_update_same: "k < length xs \<Longrightarrow> f y = f (xs ! k) \<Longrightarrow> map f (xs[k := y]) = map f xs"
  by (simp add: map_update list_update_same_conv)

lemma sata_same_dataport:
  assumes "sata_same s0 s" "k < length (clients s)"
  shows "sata_same s0 (set_dataport k d s)"
proof -
  let ?cs = "(clients s)[k := (clients s ! k)\<lparr>dataport := d\<rparr>]"
  have "map assigned_to ?cs = map assigned_to (clients s)" "map client_id ?cs = map client_id (clients s)"
    "map partition_tables ?cs = map partition_tables (clients s)"
    using assms(2) by (simp_all add: map_update_same)
  moreover have "\<forall>c \<in> set ?cs. client_ok (phys_partition_tables s) c"
    using assms by (auto simp: sata_same_def sata_good_def dest!: subsetD [OF set_update_subset_insert])
  ultimately show ?thesis using assms(1) by (auto simp: sata_same_def sata_good_def set_dataport_def)
qed

lemma find_client_known:
  "b \<in> set (map client_id (clients s)) \<Longrightarrow> ok (find_client s b) (\<lambda>k. k < length (clients s))"
proof -
  assume b: "b \<in> set (map client_id (clients s))"
  let ?is = "filter (\<lambda>i. client_id (clients s ! i) = b) [0..<length (clients s)]"
  have "?is \<noteq> []" using b by (auto simp: in_set_conv_nth filter_empty_conv) (metis atLeastLessThan_iff le0)
  then have "last ?is \<in> set ?is" by (rule last_in_set)
  then show ?thesis using \<open>?is \<noteq> []\<close> by (simp add: find_client_def Let_def)
qed

lemma sata_step_ok:
  assumes "sata_same s0 s" "sender_of op \<in> set (map client_id (clients s0))"
  shows "ok (sata_step L op s) (sata_same s0)"
proof -
  have b: "sender_of op \<in> set (map client_id (clients s))" and g: "done_init s" "length (phys_partition_tables s) = 4"
    using assms by (simp_all add: sata_same_def sata_good_def)
  have c: "ok (calulate_sector_offset s (clients s ! k) sector) (\<lambda>r. True)" if "k < length (clients s)" for k sector
    using that assms(1) by (intro calulate_sector_offset_ok) (simp_all add: sata_same_def sata_good_def)
  have d: "sata_same s0 (s\<lparr>hard_disk := x\<rparr>)" for x
    using assms(1) by (auto simp: sata_same_def sata_good_def)
  show ?thesis
    using assms(1) b
    by (cases op)
      (auto simp: client_rx_def client_tx_def client_get_capacity_def Let_def split_beta d sata_same_dataport
        split: option.splits intro!: ok_mono [OF find_client_known] ok_mono [OF c])
qed

interpretation sata_dev: safe_device "sata_step L" "sata_same s0"
    "\<lambda>op. sender_of op \<in> set (map client_id (clients s0))" for L s0
  by unfold_locales (rule sata_step_ok)

text \<open>
  After an accepted configuration no sequence of requests of the configured clients faults,
  whatever sectors and lengths they ask for, and none changes the assignment of partitions or a
  virtual partition table.
\<close>

theorem sata_requests_safe:
  assumes "sata_good s" "list_all (\<lambda>op. sender_of op \<in> set (map client_id (clients s))) ops"
  shows "ok (run_ops (sata_step L) ops s) (\<lambda>s'. sata_good s' \<and>
    map assigned_to (clients s') = map assigned_to (clients s) \<and>
    map partition_tables (clients s') = map partition_tables (clients s))"
proof -
  have "sata_same s s" using assms(1) by (simp add: sata_same_def)
  from sata_dev.run_ok [OF this assms(2), of L] show ?thesis
    by (auto simp: sata_same_def elim!: ok_mono)
qed

theorem sata_requests_safe_witness:
  "ok (run_ops (sata_step sample_sata) [Rx 7 0 512, Tx 9 100 4096, GetCapacity 7] sample_server) sata_good"
  using sata_requests_safe [OF sample_good, of "[Rx 7 0 512, Tx 9 100 4096, GetCapacity 7]" sample_sata]
  by (auto simp: sample_server_eq(4) elim!: ok_mono)

text \<open>
  A configuration that is rejected leaves the start-up before the other clients are
  enumerated, and marks it as done: a request of such a client, badge not 0, fails an assertion
  of the server instead of reporting an error.
\<close>

theorem sata_rejected_config_asserts:
  assumes "post_init conf buf badges tables data (sataserver_bss d) = Inr s" "invalid_config s"
    and "sender \<noteq> 0" "sender \<notin> set (map client_id (clients s))"
    and "unat len \<le> 4096"
  shows "client_get_status s = SATASERVER_STATUS_INVALID_CONF \<and>
    client_rx L sender sector len s = Inl AssertFail \<and> client_tx L sender sector len s = Inl AssertFail"
proof -
  have "done_init s" using assms(1)
    by (auto simp: post_init_def Let_def rbind_eq_Inr split: if_splits)
  moreover have "find_client s sender = Inl AssertFail"
    using assms(4) by (auto simp: find_client_def Let_def rassert_def filter_empty_conv)
  ultimately show ?thesis
    using assms(2,5) by (simp add: client_get_status_def client_rx_def client_tx_def BUF_SIZE_def word_less_nat_alt)
qed

definition rejected_server :: sataserver where
  "rejected_server = (case post_init [(7, [1, 3]), (9, [3]), (11, [2])] (\<lambda>_. []) [7, 9, 11] sample_tables []
     (sataserver_bss (\<lambda>_. [])) of Inr s \<Rightarrow> s | Inl e \<Rightarrow> sataserver_bss (\<lambda>_. []))"

lemma rejected_server_eval:
  "ok (post_init [(7, [1, 3]), (9, [3]), (11, [2])] (\<lambda>_. []) [7, 9, 11] sample_tables []
     (sataserver_bss (\<lambda>_. []))) (\<lambda>s. invalid_config s \<and> 11 \<notin> set (map client_id (clients s)))"
  by code_simp

lemma rejected_server_eq:
  "post_init [(7, [1, 3]), (9, [3]), (11, [2])] (\<lambda>_. []) [7, 9, 11] sample_tables []
     (sataserver_bss (\<lambda>_. [])) = Inr rejected_server" "invalid_config rejected_server"
  "11 \<notin> set (map client_id (clients rejected_server))"
proof -
  obtain s where s: "post_init [(7, [1, 3]), (9, [3]), (11, [2])] (\<lambda>_. []) [7, 9, 11] sample_tables []
     (sataserver_bss (\<lambda>_. [])) = Inr s" and p: "invalid_config s \<and> 11 \<notin> set (map client_id (clients s))"
    using rejected_server_eval by (rule okE)
  have e: "rejected_server = s" unfolding rejected_server_def s by simp
  show "post_init [(7, [1, 3]), (9, [3]), (11, [2])] (\<lambda>_. []) [7, 9, 11] sample_tables []
     (sataserver_bss (\<lambda>_. [])) = Inr rejected_server" unfolding e by (rule s)
  show "invalid_config rejected_server" "11 \<notin> set (map client_id (clients rejected_server))"
    using p unfolding e by blast+
qed

theorem sata_rejected_config_asserts_witness:
  "client_rx sample_sata 11 0 512 rejected_server = Inl AssertFail"
  using sata_rejected_config_asserts [OF rejected_server_eq(1,2) _ rejected_server_eq(3), of 512] by simp

section \<open>Cylinders, heads and sectors\<close>

text \<open>The reader's side of the packed fields of a partition table.\<close>

definition chs_cyl :: "u16 \<Rightarrow> nat" where
  "chs_cyl w = unat (drop_bit 6 w AND 3) * 256 + unat (drop_bit 8 w)"

definition chs_sec :: "u16 \<Rightarrow> nat" where
  "chs_sec w = unat (w AND 0x3f)"

definition chs_to_lba :: "u16 \<Rightarrow> u8 \<Rightarrow> nat" where
  "chs_to_lba w h = (chs_cyl w * 255 + unat h) * 63 + chs_sec w - 1"

lemma small_bits: "unat (x :: 'a::len word) < 2 ^ k \<Longrightarrow> k \<le> n \<Longrightarrow> \<not> bit x n"
  using take_bit_eq_self_iff_unat [of k x] by (metis bit_take_bit_iff not_le)

lemma chs_masks: "(0x300 :: i32) = push_bit 8 (mask 2)" "(0xff :: i32) = mask 8" "(3 :: u16) = mask 2"
  "(0x3f :: u16) = mask 6" "(0xff :: u16) = mask 8"
  by (simp_all add: mask_eq_exp_minus_1 push_bit_eq_mult)

lemma pack_sec_cyl_bits:
  assumes "unat sec < 64" "unat cyl < 1024"
  shows "drop_bit 8 (pack_sec_cyl sec cyl) = cyl AND 0xff"
    "drop_bit 6 (pack_sec_cyl sec cyl) AND 3 = drop_bit 8 cyl"
    "pack_sec_cyl sec cyl AND 0x3f = ucast sec"
proof -
  have s: "\<not> bit sec n" if "6 \<le> n" for n using small_bits [of sec 6 n] assms(1) that by simp
  have c: "\<not> bit cyl n" if "10 \<le> n" for n using small_bits [of cyl 10 n] assms(2) that by simp
  have c2: "bit cyl (8 + n) \<Longrightarrow> n < 2 \<and> n < 10" for n using c [of "8 + n"] by force
  have s2: "bit sec n \<Longrightarrow> n < 6" for n using s [of n] by force
  show "drop_bit 8 (pack_sec_cyl sec cyl) = cyl AND 0xff"
    by (rule bit_word_eqI) (use s c in \<open>auto simp: pack_sec_cyl_def chs_masks bit_simps\<close>)
  show "drop_bit 6 (pack_sec_cyl sec cyl) AND 3 = drop_bit 8 cyl"
    by (rule bit_word_eqI) (use s c c2 in \<open>auto simp: pack_sec_cyl_def chs_masks bit_simps\<close>)
  show "pack_sec_cyl sec cyl AND 0x3f = ucast sec"
    by (rule bit_word_eqI) (use s s2 c in \<open>auto simp: pack_sec_cyl_def chs_masks bit_simps\<close>)
qed

lemma chs_roundtrip:
  assumes "unat lba < 1024 * 255 * 63"
  shows "(case lba_to_chs lba of (cyl, h, sec) \<Rightarrow> chs_to_lba (pack_sec_cyl sec cyl) h) = unat lba"
proof -
  define c where "c = unat lba div (255 * 63)"
  define h where "h = unat lba div 63 mod 255"
  define n where "n = unat lba mod 63 + 1"
  have b: "c < 1024" "h < 255" "n < 64" using assms by (auto simp: c_def h_def n_def)
  have r: "(c * 255 + h) * 63 + n - 1 = unat lba"
  proof -
    have "c = unat lba div 63 div 255" by (simp add: c_def div_mult2_eq [symmetric])
    then have "c * 255 + h = unat lba div 63" by (simp add: h_def)
    then show ?thesis by (simp add: n_def)
  qed
  have d: "unat (lba div (MAX_NUM_HEAD * MAX_NUM_SECT)) = c" "unat (lba div MAX_NUM_SECT mod MAX_NUM_HEAD) = h"
    "unat (lba mod MAX_NUM_SECT + 1) = n"
    using b(3) by (simp_all add: MAX_NUM_HEAD_def MAX_NUM_SECT_def c_def h_def n_def unat_div unat_mod unat_plus_mod)
  have w: "\<not> MAX_NUM_CYL < lba div (MAX_NUM_HEAD * MAX_NUM_SECT)"
    using b(1) by (simp add: word_less_nat_alt d(1) MAX_NUM_CYL_def)
  define cyl where "cyl = (ucast (lba div (MAX_NUM_HEAD * MAX_NUM_SECT)) :: u16)"
  define hh where "hh = (ucast (lba div MAX_NUM_SECT mod MAX_NUM_HEAD) :: u8)"
  define sec where "sec = (ucast (lba mod MAX_NUM_SECT + 1) :: u8)"
  have e: "lba_to_chs lba = (cyl, hh, sec)"
    using w by (simp add: lba_to_chs_def cyl_def hh_def sec_def)
  have u: "unat cyl = c" "unat hh = h" "unat sec = n"
    unfolding cyl_def hh_def sec_def unsigned_ucast_eq d using b by (simp_all add: take_bit_nat_eq_self)
  note p = pack_sec_cyl_bits [of sec cyl, unfolded u, OF b(3,1)]
  have q0: "unat (cyl AND 0xff) = c mod 256"
    by (simp only: and_ff unsigned_take_bit_eq u(1) take_bit_eq_mod [where 'a = nat]) simp
  have q: "unat (drop_bit 8 cyl) = c div 256" "unat (ucast sec :: u16) = n"
    using b u by (simp_all add: unat_drop_bit unsigned_ucast_eq take_bit_nat_eq_self)
  have "chs_cyl (pack_sec_cyl sec cyl) = c" "chs_sec (pack_sec_cyl sec cyl) = n"
    unfolding chs_cyl_def chs_sec_def p q q0 by simp_all
  then show ?thesis unfolding e chs_to_lba_def by (simp only: u r prod.case)
qed

text \<open>
  The cylinder, head and sector fields of a virtual partition encode its first and its last
  sector exactly, as the master boot record packs them, as long as the sectors are within the
  range of the encoding.
\<close>

theorem sata_chs_roundtrip:
  assumes "unat first < 1024 * 255 * 63" "unat (first + num_sectors q - 1) < 1024 * 255 * 63"
  shows "let t = virtual_table q first t0
    in chs_to_lba (sec_cyl t) (head t) = unat first \<and>
       chs_to_lba (end_sec_cyl t) (end_head t) = unat (first + num_sectors q - 1)"
  using chs_roundtrip [OF assms(1)] chs_roundtrip [OF assms(2)]
  by (simp add: virtual_table_def Let_def split_beta)

theorem sata_chs_roundtrip_witness:
  "chs_to_lba (end_sec_cyl (virtual_table (zero_table\<lparr>num_sectors := 1000000\<rparr>) 64 zero_table))
     (end_head (virtual_table (zero_table\<lparr>num_sectors := 1000000\<rparr>) 64 zero_table)) = 1000063"
  using sata_chs_roundtrip [of 64 "zero_table\<lparr>num_sectors := 1000000\<rparr>" zero_table]
  by (simp add: Let_def)

end
