(* ===== verification/Virtio_Con.thy ===== *)
theory Virtio_Con
  imports Vmm_Prelude
begin

text \<open>
  The virtio console backends of the x86 VMM (\<^verbatim>\<open>components/Init/src/virtio_con.c\<close>) and of the
  ARM VMM (\<^verbatim>\<open>components/VM_Arm/src/modules/virtio_con.c\<close>): ring buffers in memory that two
  VMMs share.  The ring a VMM sends into is the ring its peer receives from, so the rings are a
  store from addresses to rings and a connection holds two addresses; an address that was never
  set is a null pointer.  The emulation layer, the channels of CAmkES and the interrupt
  controller are outside the repository: their calls are effects.
\<close>

section \<open>Data\<close>

definition BUFSIZE :: u32 where "BUFSIZE = 0x1000 - 2 * 4"

text \<open>The members \<open>head\<close>, \<open>tail\<close> and \<open>buf\<close> of a shared ring.\<close>

record serial_shmem =
  sh_head :: u32
  sh_tail :: u32
  sh_buf :: "u8 list"

record serial_conn =
  con_notify :: nat
  recv_buf :: "nat option"
  send_buf :: "nat option"

datatype con_effect =
    EmulPutchar nat "u8 list" u32 u32
  | Notify nat
  | InjectConIrq
  | RegisterHandler nat

record con_state =
  shmem :: "nat \<Rightarrow> serial_shmem"
  connections :: "serial_conn list"
  con_out :: "con_effect list"

definition con_emit :: "con_effect \<Rightarrow> con_state \<Rightarrow> con_state" where
  "con_emit e s = s\<lparr>con_out := con_out s @ [e]\<rparr>"

definition set_ring :: "nat \<Rightarrow> serial_shmem \<Rightarrow> con_state \<Rightarrow> con_state" where
  "set_ring a r s = s\<lparr>shmem := (shmem s)(a := r)\<rparr>"

definition unset_conn :: serial_conn where
  "unset_conn = \<lparr>con_notify = 0, recv_buf = None, send_buf = None\<rparr>"

section \<open>Receiving and sending\<close>

definition virtio_con_notify_recv :: "nat \<Rightarrow> con_state \<Rightarrow> con_state res" where
  "virtio_con_notify_recv port s =
     rbind (aget (connections s) port) (\<lambda>c.
     rbind (deref (recv_buf c)) (\<lambda>a.
       let buffer = shmem s a;
           last_read_tail = sh_tail buffer;
           s = con_emit (EmulPutchar port (sh_buf buffer) (sh_head buffer) last_read_tail) s
       in Inr (set_ring a (buffer\<lparr>sh_head := last_read_tail\<rparr>) s)))"

definition poll_port :: "nat \<Rightarrow> con_state \<Rightarrow> con_state res" where
  "poll_port i s =
     rbind (aget (connections s) i) (\<lambda>c.
     rbind (deref (recv_buf c)) (\<lambda>a.
       if sh_head (shmem s a) \<noteq> sh_tail (shmem s a) then virtio_con_notify_recv i s else Inr s))"

definition handle_serial_console :: "con_state \<Rightarrow> con_state res" where
  "handle_serial_console s = run_ops poll_port [0..<length (connections s)] s"

text \<open>The signed port number is compared with an unsigned size, so a negative one is too large.\<close>

definition tx_virtcon_forward :: "int \<Rightarrow> u8 \<Rightarrow> con_state \<Rightarrow> con_state res" where
  "tx_virtcon_forward port c s =
     (if \<not> (0 \<le> port \<and> port < int (length (connections s))) then Inr s
      else rbind (aget (connections s) (nat port)) (\<lambda>k.
           rbind (deref (send_buf k)) (\<lambda>a.
             let batch_buf = shmem s a
             in rbind (aset (sh_buf batch_buf) (unat (sh_tail batch_buf)) c) (\<lambda>b.
                  let r = batch_buf\<lparr>sh_buf := b, sh_tail := (sh_tail batch_buf + 1) mod BUFSIZE\<rparr>;
                      s = set_ring a r s
                  in Inr (if c = 10 \<or> (sh_tail r + 1) mod BUFSIZE = sh_head r
                          then con_emit (Notify (con_notify k)) s else s)))))"

section \<open>Set-up\<close>

text \<open>
  A port of the configured layout, with the addresses and the notification of the channels
  \<^verbatim>\<open>get_virtqueue_channel\<close> finds for its two numbers.
\<close>

record camkes_channel =
  ch_notify :: nat
  ch_buffer :: nat
  ch_badge :: nat

type_synonym layout = "(camkes_channel option \<times> camkes_channel option) list"

fun make_virtio_con_virtqueues :: "layout \<Rightarrow> nat \<Rightarrow> con_state \<Rightarrow> con_state res" where
  "make_virtio_con_virtqueues [] i s = Inr s"
| "make_virtio_con_virtqueues ((Some recv, Some send) # ls) i s =
     rbind (aset (connections s) i
              \<lparr>con_notify = ch_notify send, recv_buf = Some (ch_buffer recv), send_buf = Some (ch_buffer send)\<rparr>)
       (\<lambda>cs. let s = s\<lparr>connections := cs\<rparr>;
                 s = set_ring (ch_buffer recv) ((shmem s (ch_buffer recv))\<lparr>sh_head := 0, sh_tail := 0\<rparr>) s;
                 s = set_ring (ch_buffer send) ((shmem s (ch_buffer send))\<lparr>sh_head := 0, sh_tail := 0\<rparr>) s
             in make_virtio_con_virtqueues ls (Suc i) s)"
| "make_virtio_con_virtqueues (_ # ls) i s = Inr s"

text \<open>The handler's cookie may be null or hold no VM.\<close>

definition console_handle_irq :: "bool option \<Rightarrow> con_state \<Rightarrow> con_state" where
  "console_handle_irq cookie s = (if cookie = Some True then con_emit InjectConIrq s else s)"

definition make_virtio_con :: "layout \<Rightarrow> nat \<Rightarrow> con_state \<Rightarrow> con_state res" where
  "make_virtio_con serial_layout max_ports s =
     (if max_ports < length serial_layout then Inl LogFatal
      else make_virtio_con_virtqueues serial_layout 0
             (s\<lparr>connections := replicate (length serial_layout) unset_conn\<rparr>))"

section \<open>The ARM backend\<close>

text \<open>Port 0 is the serial server; an error leaves the remaining ports unset.\<close>

definition arm_handle_serial_console :: "con_state \<Rightarrow> (i32 \<times> con_state) res" where
  "arm_handle_serial_console s = rbind (run_ops poll_port [0..<length (connections s)] s) (\<lambda>s. Inr (0, s))"

definition arm_tx_virtcon_forward :: "int \<Rightarrow> u8 \<Rightarrow> con_state \<Rightarrow> con_state res" where
  "arm_tx_virtcon_forward port c s =
     (if \<not> (0 \<le> port \<and> port < int (length (connections s))) then Inr s
      else rbind (aget (connections s) (nat port)) (\<lambda>k.
           rbind (deref (send_buf k)) (\<lambda>a.
             let buffer = shmem s a
             in rbind (aset (sh_buf buffer) (unat (sh_tail buffer)) c) (\<lambda>b.
                  let r = buffer\<lparr>sh_buf := b, sh_tail := (sh_tail buffer + 1) mod BUFSIZE\<rparr>;
                      s = set_ring a r s
                  in Inr (if c = 10 \<or> (sh_tail r + 1) mod BUFSIZE = sh_head r
                          then con_emit (Notify (con_notify k)) s else s)))))"

text \<open>\<open>register\<close> says whether \<^verbatim>\<open>register_async_event_handler\<close> accepts a badge.\<close>

fun arm_make_ports :: "(nat \<Rightarrow> bool) \<Rightarrow> layout \<Rightarrow> nat \<Rightarrow> con_state \<Rightarrow> con_state res" where
  "arm_make_ports register [] i s = Inr s"
| "arm_make_ports register ((Some recv, Some send) # ls) i s =
     (if \<not> register (ch_badge recv) then Inr s
      else rbind (aset (connections s) i
             \<lparr>con_notify = ch_notify send, recv_buf = Some (ch_buffer recv), send_buf = Some (ch_buffer send)\<rparr>)
             (\<lambda>cs. arm_make_ports register ls (Suc i)
                     (con_emit (RegisterHandler (ch_badge recv)) (s\<lparr>connections := cs\<rparr>))))"
| "arm_make_ports register (_ # ls) i s = Inr s"

definition arm_make_virtio_con ::
    "(nat \<Rightarrow> bool) \<Rightarrow> layout \<Rightarrow> nat \<Rightarrow> bool \<Rightarrow> camkes_channel \<Rightarrow> nat \<Rightarrow> con_state \<Rightarrow> con_state res" where
  "arm_make_virtio_con register serial_layout max_ports initialised server batch_buf s =
     (if max_ports < length serial_layout + 1 then Inl LogFatal
      else if \<not> initialised then Inl LogFatal
      else let s = s\<lparr>connections := replicate (length serial_layout + 1) unset_conn\<rparr>;
               s = s\<lparr>connections := (connections s)
                       [0 := \<lparr>con_notify = ch_notify server, recv_buf = Some (ch_buffer server),
                              send_buf = Some batch_buf\<rparr>]\<rparr>
           in if \<not> register (ch_badge server) then Inr s
              else arm_make_ports register serial_layout 1 (con_emit (RegisterHandler (ch_badge server)) s))"

section \<open>Rings as queues\<close>

text \<open>The documented invariant of a ring, its number of used bytes and the bytes, oldest first.\<close>

definition ring_wf :: "serial_shmem \<Rightarrow> bool" where
  "ring_wf r \<longleftrightarrow> sh_head r < BUFSIZE \<and> sh_tail r < BUFSIZE \<and> length (sh_buf r) = unat BUFSIZE"

definition ring_used :: "u32 \<Rightarrow> u32 \<Rightarrow> nat" where
  "ring_used h t = (if h \<le> t then unat t - unat h else unat t + unat BUFSIZE - unat h)"

definition bytes_between :: "u8 list \<Rightarrow> u32 \<Rightarrow> u32 \<Rightarrow> u8 list" where
  "bytes_between b h t = ring_contents b (unat h) (ring_used h t)"

definition ring_bytes :: "serial_shmem \<Rightarrow> u8 list" where
  "ring_bytes r = bytes_between (sh_buf r) (sh_head r) (sh_tail r)"

text \<open>What the guest console of a port has been given.\<close>

fun received_by :: "nat \<Rightarrow> con_effect \<Rightarrow> u8 list" where
  "received_by p (EmulPutchar q b h t) = (if q = p then bytes_between b h t else [])"
| "received_by p _ = []"

definition received :: "nat \<Rightarrow> con_effect list \<Rightarrow> u8 list" where
  "received p es = concat (map (received_by p) es)"

lemma received_simps [simp]:
  "received p [] = []" "received p (es @ es') = received p es @ received p es'"
  "received p [e] = received_by p e"
  by (simp_all add: received_def)

lemma BUFSIZE_unat [simp]: "unat BUFSIZE = 4088"
  by (simp add: BUFSIZE_def)

lemma less_BUFSIZE: "x < BUFSIZE \<longleftrightarrow> unat x < 4088"
  by (simp add: word_less_nat_alt)

lemma unat_next:
  assumes "unat t < 4088"
  shows "unat ((t + 1) mod BUFSIZE :: u32) = (if unat t = 4087 then 0 else unat t + 1)"
proof -
  have "unat (t + 1) = unat t + 1" using assms by (simp add: unat_word_ariths)
  then show ?thesis using assms by (auto simp: unat_mod)
qed

lemma ring_used_nat:
  "ring_used h t = (if unat h \<le> unat t then unat t - unat h else unat t + 4088 - unat h)"
  by (simp add: ring_used_def word_le_nat_alt)

lemma ring_used_less: "ring_wf r \<Longrightarrow> ring_used (sh_head r) (sh_tail r) < 4088"
  by (auto simp: ring_wf_def less_BUFSIZE ring_used_nat)

lemma ring_used_tail:
  "unat h < 4088 \<Longrightarrow> unat t < 4088 \<Longrightarrow> (unat h + ring_used h t) mod 4088 = unat t"
  by (auto simp: ring_used_nat)

lemma ring_used_next:
  assumes "unat h < 4088" "unat t < 4088" "ring_used h t < 4087"
  shows "ring_used h ((t + 1) mod BUFSIZE) = Suc (ring_used h t)"
  using assms by (auto simp: ring_used_nat unat_next split: if_splits)

lemma ring_used_wraps:
  assumes "unat h < 4088" "unat t < 4088" "ring_used h t = 4087"
  shows "(t + 1) mod BUFSIZE = h"
  using assms by (auto simp: ring_used_nat unat_next word_unat_eq_iff split: if_splits)

lemma ring_used_same [simp]: "ring_used h h = 0"
  by (simp add: ring_used_def)

definition ring_put :: "u8 \<Rightarrow> serial_shmem \<Rightarrow> serial_shmem" where
  "ring_put c r = r\<lparr>sh_buf := (sh_buf r)[unat (sh_tail r) := c], sh_tail := (sh_tail r + 1) mod BUFSIZE\<rparr>"

lemma ring_put_wf: "ring_wf r \<Longrightarrow> ring_wf (ring_put c r)"
  by (auto simp: ring_wf_def ring_put_def less_BUFSIZE unat_next)

lemma ring_put_bytes:
  assumes "ring_wf r" "length (ring_bytes r) < 4087"
  shows "ring_bytes (ring_put c r) = ring_bytes r @ [c]"
proof -
  have b: "unat (sh_head r) < 4088" "unat (sh_tail r) < 4088" "length (sh_buf r) = 4088"
    using assms(1) by (simp_all add: ring_wf_def less_BUFSIZE)
  have u: "ring_used (sh_head r) (sh_tail r) < 4087"
    using assms(2) by (simp add: ring_bytes_def bytes_between_def)
  show ?thesis
    using ring_contents_push [of "ring_used (sh_head r) (sh_tail r)" "sh_buf r" "unat (sh_head r)" c] b u
    by (simp add: ring_bytes_def bytes_between_def ring_put_def ring_used_next [OF b(1,2) u]
          ring_used_tail [OF b(1,2)])
qed

lemma ring_put_full:
  assumes "ring_wf r" "length (ring_bytes r) = 4087"
  shows "ring_bytes (ring_put c r) = []"
proof -
  have "(sh_tail r + 1) mod BUFSIZE = sh_head r"
    using assms by (intro ring_used_wraps) (simp_all add: ring_wf_def less_BUFSIZE ring_bytes_def bytes_between_def)
  then show ?thesis by (simp add: ring_bytes_def bytes_between_def ring_put_def)
qed

lemma ring_bytes_length: "ring_wf r \<Longrightarrow> length (ring_bytes r) \<le> 4087"
  using ring_used_less [of r] by (simp add: ring_bytes_def bytes_between_def)

section \<open>The contract of a console backend\<close>

text \<open>Every connection is set up, its rings are well formed and no two ports share one.\<close>

definition conn_wf :: "con_state \<Rightarrow> bool" where
  "conn_wf s \<longleftrightarrow>
     (\<forall>c \<in> set (connections s). \<exists>a b. recv_buf c = Some a \<and> send_buf c = Some b \<and>
        ring_wf (shmem s a) \<and> ring_wf (shmem s b)) \<and>
     distinct (map recv_buf (connections s))"

definition sends_to :: "serial_conn list \<Rightarrow> nat \<Rightarrow> nat \<Rightarrow> bool" where
  "sends_to cs p a \<longleftrightarrow> p < length cs \<and> send_buf (cs ! p) = Some a"

definition reads_from :: "serial_conn list \<Rightarrow> nat \<Rightarrow> nat \<Rightarrow> bool" where
  "reads_from cs p a \<longleftrightarrow> p < length cs \<and> recv_buf (cs ! p) = Some a"

definition same_received :: "con_state \<Rightarrow> con_state \<Rightarrow> bool" where
  "same_received s t \<longleftrightarrow> (\<forall>p. received p (con_out t) = received p (con_out s))"

text \<open>Exactly the ring \<open>a\<close> has changed, by the byte \<open>c\<close>.\<close>

definition sent_one :: "nat \<Rightarrow> u8 \<Rightarrow> con_state \<Rightarrow> con_state \<Rightarrow> bool" where
  "sent_one a c s t \<longleftrightarrow> connections t = connections s \<and> shmem t = (shmem s)(a := ring_put c (shmem s a)) \<and>
     same_received s t"

text \<open>Of the rings read by the ports below \<open>n\<close>, exactly these are drained.\<close>

definition drained :: "nat \<Rightarrow> con_state \<Rightarrow> con_state \<Rightarrow> bool" where
  "drained n s t \<longleftrightarrow> connections t = connections s \<and>
     (\<forall>a. shmem t a = (if \<exists>p < n. reads_from (connections s) p a
                       then (shmem s a)\<lparr>sh_head := sh_tail (shmem s a)\<rparr> else shmem s a)) \<and>
     (\<forall>p a. reads_from (connections s) p a \<longrightarrow>
        received p (con_out t) = received p (con_out s) @ (if p < n then ring_bytes (shmem s a) else []))"

lemma conn_wfD:
  assumes "conn_wf s" "p < length (connections s)"
  obtains a b where "recv_buf (connections s ! p) = Some a" "send_buf (connections s ! p) = Some b"
    "ring_wf (shmem s a)" "ring_wf (shmem s b)"
  using assms nth_mem [OF assms(2)] unfolding conn_wf_def by blast

lemma sender_wf:
  assumes "conn_wf s" "sends_to (connections s) p a"
  shows "ring_wf (shmem s a)"
proof -
  have "p < length (connections s)" "send_buf (connections s ! p) = Some a"
    using assms(2) by (simp_all add: sends_to_def)
  then show ?thesis using conn_wfD [OF assms(1)] by (metis option.inject)
qed

lemma reads_from_inj:
  assumes "conn_wf s" "reads_from (connections s) p a" "reads_from (connections s) q a"
  shows "p = q"
  using assms nth_eq_iff_index_eq [of "map recv_buf (connections s)" p q]
  by (simp add: conn_wf_def reads_from_def)

lemma tx_virtcon_forward_sends:
  assumes "conn_wf s" "sends_to (connections s) p a"
  shows "ok (tx_virtcon_forward (int p) c s) (sent_one a c s)"
proof -
  have p: "p < length (connections s)" "send_buf (connections s ! p) = Some a"
    using assms(2) by (auto simp: sends_to_def)
  have r: "unat (sh_tail (shmem s a)) < length (sh_buf (shmem s a))"
    using sender_wf [OF assms] by (simp add: ring_wf_def less_BUFSIZE)
  show ?thesis
    using p r by (simp add: tx_virtcon_forward_def deref_def Let_def sent_one_def set_ring_def
        con_emit_def ring_put_def same_received_def)
qed

lemma drained_0 [simp]: "drained 0 s s"
  by (simp add: drained_def)

lemma poll_port_drains:
  assumes wf: "conn_wf s" and n: "n < length (connections s)" and d: "drained n s t"
  shows "ok (poll_port n t) (drained (Suc n) s)"
proof -
  obtain a b where a: "recv_buf (connections s ! n) = Some a" "ring_wf (shmem s a)"
    by (rule conn_wfD [OF wf n])
  have rn: "reads_from (connections s) n a" using a n by (simp add: reads_from_def)
  have only: "p = n" if "reads_from (connections s) p a" for p
    using reads_from_inj [OF wf that rn] .
  have t: "connections t = connections s" "shmem t a = shmem s a"
    using d only by (auto simp: drained_def)
  have suc: "(\<exists>p < Suc n. reads_from (connections s) p x) \<longleftrightarrow>
      x = a \<or> (\<exists>p < n. reads_from (connections s) p x)" for x
    using rn a(1) by (auto simp: less_Suc_eq reads_from_def)
  have other: "x = a" if "reads_from (connections s) n x" for x
    using that a(1) by (simp add: reads_from_def)
  show ?thesis
  proof (cases "sh_head (shmem s a) = sh_tail (shmem s a)")
    case True
    then have "(shmem s a)\<lparr>sh_head := sh_tail (shmem s a)\<rparr> = shmem s a" "ring_bytes (shmem s a) = []"
      by (simp_all add: ring_bytes_def bytes_between_def)
    then have "drained (Suc n) s t"
      using d other unfolding drained_def suc by (auto simp: less_Suc_eq)
    then show ?thesis using True a n t by (simp add: poll_port_def deref_def)
  next
    case False
    let ?r = "shmem s a"
    have "poll_port n t = Inr (set_ring a (?r\<lparr>sh_head := sh_tail ?r\<rparr>)
        (con_emit (EmulPutchar n (sh_buf ?r) (sh_head ?r) (sh_tail ?r)) t))" (is "_ = Inr ?t")
      using False a n t
      by (simp add: aget_def poll_port_def deref_def virtio_con_notify_recv_def Let_def con_emit_def)
    moreover have "shmem ?t x = (if x = a \<or> (\<exists>p < n. reads_from (connections s) p x)
        then (shmem s x)\<lparr>sh_head := sh_tail (shmem s x)\<rparr> else shmem s x)" for x
      using d by (auto simp: drained_def set_ring_def con_emit_def)
    moreover have "received p (con_out ?t) = received p (con_out s) @
        (if p < Suc n then ring_bytes (shmem s x) else [])" if "reads_from (connections s) p x" for p x
    proof (cases "p = n")
      case True
      have "received p (con_out t) = received p (con_out s)" using d that True by (simp add: drained_def)
      then show ?thesis using True other that
        by (simp add: set_ring_def con_emit_def ring_bytes_def)
    next
      case False
      have "received p (con_out t) = received p (con_out s) @ (if p < n then ring_bytes (shmem s x) else [])"
        using d that by (simp add: drained_def)
      then show ?thesis using False by (simp add: set_ring_def con_emit_def less_Suc_eq)
    qed
    moreover have "connections ?t = connections s" using t by (simp add: set_ring_def con_emit_def)
    ultimately show ?thesis by (simp add: drained_def suc)
  qed
qed

lemma poll_ports_drain:
  "conn_wf s \<Longrightarrow> n \<le> length (connections s) \<Longrightarrow> ok (run_ops poll_port [0..<n] s) (drained n s)"
proof (induction n)
  case 0
  then show ?case by simp
next
  case (Suc n)
  then have "ok (run_ops poll_port [0..<n] s) (drained n s)" by simp
  then show ?case
    using Suc.prems by (auto simp: run_ops_snoc elim!: ok_mono intro!: poll_port_drains)
qed

section \<open>Two monitors that share their rings\<close>

text \<open>
  Two VMMs, named by a boolean, have connections of their own over common memory.  An
  interleaving is a sequence of bytes the guests write to ports and of notifications handled.
\<close>

record link =
  ring_mem :: "nat \<Rightarrow> serial_shmem"
  vmm_conns :: "bool \<Rightarrow> serial_conn list"
  vmm_out :: "bool \<Rightarrow> con_effect list"

datatype link_op = LTx bool nat u8 | LPoll bool

definition link_view :: "bool \<Rightarrow> link \<Rightarrow> con_state" where
  "link_view n l = \<lparr>shmem = ring_mem l, connections = vmm_conns l n, con_out = vmm_out l n\<rparr>"

definition link_back :: "bool \<Rightarrow> link \<Rightarrow> con_state \<Rightarrow> link" where
  "link_back n l s = \<lparr>ring_mem = shmem s, vmm_conns = (vmm_conns l)(n := connections s),
     vmm_out = (vmm_out l)(n := con_out s)\<rparr>"

fun link_step :: "(int \<Rightarrow> u8 \<Rightarrow> con_state \<Rightarrow> con_state res) \<Rightarrow> (con_state \<Rightarrow> con_state res) \<Rightarrow>
    link_op \<Rightarrow> link \<Rightarrow> link res" where
  "link_step tx poll (LTx n p c) l = rbind (tx (int p) c (link_view n l)) (\<lambda>s. Inr (link_back n l s))"
| "link_step tx poll (LPoll n) l = rbind (poll (link_view n l)) (\<lambda>s. Inr (link_back n l s))"

text \<open>Rings are well formed, and each has at most one sending and one receiving end.\<close>

definition linked :: "link \<Rightarrow> bool" where
  "linked l \<longleftrightarrow>
     (\<forall>n. conn_wf (link_view n l)) \<and>
     (\<forall>n. distinct (map send_buf (vmm_conns l n))) \<and>
     (\<forall>n p q a. reads_from (vmm_conns l n) p a \<longrightarrow> \<not> sends_to (vmm_conns l n) q a) \<and>
     (\<forall>n p q a. reads_from (vmm_conns l n) p a \<longrightarrow> \<not> reads_from (vmm_conns l (\<not> n)) q a) \<and>
     (\<forall>n p q a. sends_to (vmm_conns l n) p a \<longrightarrow> \<not> sends_to (vmm_conns l (\<not> n)) q a)"

fun room :: "link \<Rightarrow> link_op \<Rightarrow> bool" where
  "room l (LTx n p c) =
     (p < length (vmm_conns l n) \<and>
      (case send_buf (vmm_conns l n ! p) of None \<Rightarrow> False | Some a \<Rightarrow> length (ring_bytes (ring_mem l a)) < 4087))"
| "room l (LPoll n) = True"

inductive link_run :: "(int \<Rightarrow> u8 \<Rightarrow> con_state \<Rightarrow> con_state res) \<Rightarrow> (con_state \<Rightarrow> con_state res) \<Rightarrow>
    link \<Rightarrow> link_op list \<Rightarrow> link \<Rightarrow> bool" for tx poll l0 where
  link_start: "link_run tx poll l0 [] l0"
| link_more: "link_run tx poll l0 ops l \<Longrightarrow> room l op \<Longrightarrow> link_step tx poll op l = Inr m \<Longrightarrow>
    link_run tx poll l0 (ops @ [op]) m"

inductive_cases link_run_snocE: "link_run tx poll l0 (ops @ [op]) m"

fun sent_in :: "bool \<Rightarrow> nat \<Rightarrow> link_op \<Rightarrow> u8 list" where
  "sent_in n p (LTx m q c) = (if m = n \<and> q = p then [c] else [])"
| "sent_in n p (LPoll m) = []"

definition sent_by :: "bool \<Rightarrow> nat \<Rightarrow> link_op list \<Rightarrow> u8 list" where
  "sent_by n p ops = concat (map (sent_in n p) ops)"

definition wired :: "link \<Rightarrow> bool \<Rightarrow> nat \<Rightarrow> nat \<Rightarrow> nat \<Rightarrow> bool" where
  "wired l n p q a \<longleftrightarrow> sends_to (vmm_conns l n) p a \<and> reads_from (vmm_conns l (\<not> n)) q a"

text \<open>What has left the sender: the bytes the peer's console has, and the bytes in the ring.\<close>

definition arrived :: "link \<Rightarrow> bool \<Rightarrow> nat \<Rightarrow> nat \<Rightarrow> u8 list" where
  "arrived l n q a = received q (vmm_out l (\<not> n)) @ ring_bytes (ring_mem l a)"

lemma link_view_simps [simp]:
  "shmem (link_view n l) = ring_mem l" "connections (link_view n l) = vmm_conns l n"
  "con_out (link_view n l) = vmm_out l n"
  by (simp_all add: link_view_def)

lemma sends_to_inj:
  assumes "linked l" "sends_to (vmm_conns l n) p a" "sends_to (vmm_conns l n) q a"
  shows "p = q"
  using assms nth_eq_iff_index_eq [of "map send_buf (vmm_conns l n)" p q]
  by (auto simp: linked_def sends_to_def)

lemma linked_keep:
  assumes "linked l" "vmm_conns m = vmm_conns l"
    "\<And>a. ring_wf (ring_mem l a) \<Longrightarrow> ring_wf (ring_mem m a)"
  shows "linked m"
proof -
  have "conn_wf (link_view n m)" for n
    using assms unfolding linked_def conn_wf_def by (simp add: Ball_def) meson
  then show ?thesis using assms(1,2) by (simp add: linked_def)
qed

lemma ring_drain_wf: "ring_wf r \<Longrightarrow> ring_wf (r\<lparr>sh_head := sh_tail r\<rparr>)"
  by (simp add: ring_wf_def)

lemma ring_drain_bytes [simp]: "ring_bytes (r\<lparr>sh_head := sh_tail r\<rparr>) = []"
  by (simp add: ring_bytes_def bytes_between_def)

locale console_backend =
  fixes tx :: "int \<Rightarrow> u8 \<Rightarrow> con_state \<Rightarrow> con_state res"
    and poll :: "con_state \<Rightarrow> con_state res"
  assumes tx_sends: "conn_wf s \<Longrightarrow> sends_to (connections s) p a \<Longrightarrow> ok (tx (int p) c s) (sent_one a c s)"
    and poll_drains: "conn_wf s \<Longrightarrow> ok (poll s) (drained (length (connections s)) s)"
begin

lemma link_tx:
  assumes "linked l" "sends_to (vmm_conns l n) p a"
  shows "ok (link_step tx poll (LTx n p c) l) (\<lambda>m. linked m \<and> vmm_conns m = vmm_conns l \<and>
     ring_mem m = (ring_mem l)(a := ring_put c (ring_mem l a)) \<and>
     (\<forall>k q. received q (vmm_out m k) = received q (vmm_out l k)))"
proof -
  have "conn_wf (link_view n l)" using assms(1) by (simp add: linked_def)
  then have "ok (tx (int p) c (link_view n l)) (sent_one a c (link_view n l))"
    using assms(2) by (intro tx_sends) simp_all
  then show ?thesis
    by (auto simp: link_back_def sent_one_def same_received_def ring_put_wf elim!: ok_mono
        intro!: linked_keep [OF assms(1)])
qed

lemma link_poll:
  assumes "linked l"
  shows "ok (link_step tx poll (LPoll n) l) (\<lambda>m. linked m \<and> vmm_conns m = vmm_conns l \<and>
     (\<forall>a. ring_mem m a = (if \<exists>p. reads_from (vmm_conns l n) p a
            then (ring_mem l a)\<lparr>sh_head := sh_tail (ring_mem l a)\<rparr> else ring_mem l a)) \<and>
     vmm_out m (\<not> n) = vmm_out l (\<not> n) \<and>
     (\<forall>p a. reads_from (vmm_conns l n) p a \<longrightarrow>
        received p (vmm_out m n) = received p (vmm_out l n) @ ring_bytes (ring_mem l a)))"
proof -
  have "conn_wf (link_view n l)" using assms by (simp add: linked_def)
  then have "ok (poll (link_view n l)) (drained (length (vmm_conns l n)) (link_view n l))"
    using poll_drains by fastforce
  moreover have "(\<exists>p < length (vmm_conns l n). reads_from (vmm_conns l n) p a) =
      (\<exists>p. reads_from (vmm_conns l n) p a)" for a
    by (auto simp: reads_from_def)
  moreover have "reads_from (vmm_conns l n) p a \<Longrightarrow> p < length (vmm_conns l n)" for p a
    by (simp add: reads_from_def)
  ultimately show ?thesis
    by (auto simp: link_back_def drained_def ring_drain_wf elim!: ok_mono
        intro!: linked_keep [OF assms])
qed

lemma link_step_arrived:
  assumes l: "linked l" and op: "room l op" and w: "wired l n p q a"
  shows "ok (link_step tx poll op l) (\<lambda>m. linked m \<and> vmm_conns m = vmm_conns l \<and>
     arrived m n q a = arrived l n q a @ sent_in n p op)"
proof (cases op)
  case (LTx k r c)
  then obtain b where b: "sends_to (vmm_conns l k) r b" "length (ring_bytes (ring_mem l b)) < 4087"
    using op by (auto simp: sends_to_def split: option.splits)
  have "b = a \<longleftrightarrow> k = n \<and> r = p"
    using b w l sends_to_inj [OF l, of n r a p] by (cases "k = n") (auto simp: wired_def linked_def sends_to_def)
  moreover have "ring_wf (ring_mem l b)"
    using l b(1) sender_wf [of "link_view k l" r b] by (simp add: linked_def)
  ultimately show ?thesis
    using b(2) unfolding LTx
    by (intro ok_mono [OF link_tx [OF l b(1), of c]]) (auto simp add: arrived_def ring_put_bytes)
next
  case (LPoll k)
  show ?thesis
  proof (cases "k = n")
    case True
    have "\<not> reads_from (vmm_conns l n) x a" for x
      using l w unfolding wired_def linked_def by blast
    then show ?thesis
      using True unfolding LPoll
      by (auto simp: arrived_def simp del: link_step.simps intro!: ok_mono [OF link_poll [OF l]])
  next
    case False
    then have "k = (\<not> n)" by auto
    then show ?thesis
      using w unfolding LPoll
      by (auto simp: arrived_def wired_def simp del: link_step.simps
          intro!: ok_mono [OF link_poll [OF l]])
  qed
qed

lemma link_run_arrived:
  assumes "link_run tx poll l0 ops l" "linked l0" "wired l0 n p q a"
  shows "linked l \<and> vmm_conns l = vmm_conns l0 \<and> arrived l n q a = arrived l0 n q a @ sent_by n p ops"
  using assms(1)
proof induction
  case link_start
  then show ?case using assms(2) by (simp add: sent_by_def)
next
  case (link_more ops l op m)
  then have "wired l n p q a" using assms(3) by (simp add: wired_def)
  then have "ok (link_step tx poll op l) (\<lambda>m. linked m \<and> vmm_conns m = vmm_conns l \<and>
     arrived m n q a = arrived l n q a @ sent_in n p op)"
    using link_more by (intro link_step_arrived) simp_all
  then show ?case using link_more by (simp add: sent_by_def)
qed

lemma link_run_delivers:
  assumes run: "link_run tx poll l0 ops l" and l0: "linked l0" and w: "wired l0 n p q a"
  shows "ok (link_step tx poll (LPoll (\<not> n)) l) (\<lambda>m.
     received q (vmm_out m (\<not> n)) = arrived l0 n q a @ sent_by n p ops \<and> ring_bytes (ring_mem m a) = [])"
proof -
  note l = link_run_arrived [OF run l0 w]
  then have "reads_from (vmm_conns l (\<not> n)) q a" using w by (simp add: wired_def)
  then show ?thesis
    using l by (auto simp: arrived_def simp del: link_step.simps intro!: ok_mono [OF link_poll])
qed

end

interpretation x86: console_backend tx_virtcon_forward handle_serial_console
proof unfold_locales
  show "ok (tx_virtcon_forward (int p) c s) (sent_one a c s)"
    if "conn_wf s" "sends_to (connections s) p a" for s p a c
    by (rule tx_virtcon_forward_sends [OF that])
  show "ok (handle_serial_console s) (drained (length (connections s)) s)" if "conn_wf s" for s
    using poll_ports_drain [OF that order_refl] by (simp add: handle_serial_console_def)
qed

definition arm_poll :: "con_state \<Rightarrow> con_state res" where
  "arm_poll s = rbind (arm_handle_serial_console s) (\<lambda>(err, s). Inr s)"

lemma arm_tx_same: "arm_tx_virtcon_forward = tx_virtcon_forward"
  by (simp add: fun_eq_iff arm_tx_virtcon_forward_def tx_virtcon_forward_def)

interpretation arm: console_backend arm_tx_virtcon_forward arm_poll
proof unfold_locales
  show "ok (arm_tx_virtcon_forward (int p) c s) (sent_one a c s)"
    if "conn_wf s" "sends_to (connections s) p a" for s p a c
    unfolding arm_tx_same by (rule x86.tx_sends [OF that])
  show "ok (arm_poll s) (drained (length (connections s)) s)" if "conn_wf s" for s
    using poll_ports_drain [OF that order_refl]
    by (simp add: arm_poll_def arm_handle_serial_console_def)
qed

lemma link_run_one:
  assumes "linked l" "sends_to (vmm_conns l n) p a" "length (ring_bytes (ring_mem l a)) < 4087"
  shows "\<exists>m. link_run tx_virtcon_forward handle_serial_console l [LTx n p c] m"
proof -
  obtain m where "link_step tx_virtcon_forward handle_serial_console (LTx n p c) l = Inr m"
    using x86.link_tx [OF assms(1,2), of c] by (auto simp: ok_iff_ex)
  moreover have "room l (LTx n p c)" using assms(2,3) by (simp add: sends_to_def)
  ultimately show ?thesis using link_more [OF link_start] by fastforce
qed

text \<open>Two VMMs with one port each.\<close>

definition empty_ring :: serial_shmem where
  "empty_ring = \<lparr>sh_head = 0, sh_tail = 0, sh_buf = replicate 4088 0\<rparr>"

definition sample_link :: link where
  "sample_link = \<lparr>ring_mem = (\<lambda>a. empty_ring),
     vmm_conns = (\<lambda>n. [\<lparr>con_notify = 0, recv_buf = Some (if n then 1 else 2),
                        send_buf = Some (if n then 2 else 1)\<rparr>]),
     vmm_out = (\<lambda>n. [])\<rparr>"

lemma sample_link:
  "linked sample_link" "wired sample_link True 0 0 2" "sends_to (vmm_conns sample_link True) 0 2"
  "ring_bytes (ring_mem sample_link a) = []"
  by (auto simp: linked_def wired_def sample_link_def conn_wf_def sends_to_def reads_from_def
      ring_wf_def empty_ring_def less_BUFSIZE ring_bytes_def bytes_between_def)

text \<open>
  C5. Between two VMMs no byte is lost, duplicated or reordered, whatever the interleaving of
  guest writes and of handled notifications, as long as no guest writes to a port whose ring is
  full: the bytes given to the console of a port, followed by the bytes in its ring, are what was
  there at the start followed by what the peer sent.
\<close>

theorem console_link_in_order:
  assumes "link_run tx_virtcon_forward handle_serial_console l0 ops l" "linked l0" "wired l0 n p q a"
  shows "received q (vmm_out l (\<not> n)) @ ring_bytes (ring_mem l a) =
     (received q (vmm_out l0 (\<not> n)) @ ring_bytes (ring_mem l0 a)) @ sent_by n p ops"
  using x86.link_run_arrived [OF assms] by (simp add: arrived_def)

lemma console_link_in_order_witness:
  "\<exists>l. link_run tx_virtcon_forward handle_serial_console sample_link [LTx True 0 65] l \<and>
     received 0 (vmm_out l False) @ ring_bytes (ring_mem l 2) = [65]"
proof -
  obtain l where l: "link_run tx_virtcon_forward handle_serial_console sample_link [LTx True 0 65] l"
    using link_run_one [OF sample_link(1,3)] sample_link(4) by auto
  then show ?thesis
    using console_link_in_order [OF l sample_link(1,2)] sample_link(4)
    by (auto simp: sent_by_def sample_link_def)
qed



text \<open>
  C31. A guest that writes one more byte than fits loses the whole ring: \<open>tx_virtcon_forward\<close>
  does not check for a full ring, the tail catches up with the head, and the 4087 bytes that were
  waiting and the new one are gone.
\<close>

theorem console_overflow_loses_ring:
  assumes "conn_wf s" "sends_to (connections s) p a" "length (ring_bytes (shmem s a)) = 4087"
  shows "ok (tx_virtcon_forward (int p) c s) (\<lambda>t. ring_bytes (shmem t a) = [] \<and> ring_wf (shmem t a))"
proof -
  show ?thesis
    using assms(3) sender_wf [OF assms(1,2)] by (auto simp: sent_one_def ring_put_full ring_put_wf
        intro!: ok_mono [OF tx_virtcon_forward_sends [OF assms(1,2)]])
qed

definition full_ring :: serial_shmem where
  "full_ring = empty_ring\<lparr>sh_tail := 4087\<rparr>"

lemma console_overflow_loses_ring_witness:
  "ok (tx_virtcon_forward (int 0) 65 ((link_view True sample_link)\<lparr>shmem := \<lambda>a. full_ring\<rparr>))
     (\<lambda>t. ring_bytes (shmem t 2) = [] \<and> ring_wf (shmem t 2))"
  by (rule console_overflow_loses_ring)
     (auto simp: conn_wf_def sends_to_def sample_link_def full_ring_def empty_ring_def ring_wf_def
        less_BUFSIZE ring_bytes_def bytes_between_def ring_used_nat)

end
