(* ===== verification/Virtio_Blk.thy ===== *)
theory Virtio_Blk
  imports Sataserver
begin

unbundle bit_operations_syntax

text \<open>
  The virtio block backend of \<^verbatim>\<open>Init/src/virtio_blk.c\<close>, whose disk is a client's view of the SATA
  server: a request for sectors is a call of the server with the data in the buffer that the two
  components share.  The monitor waits for the end of the server's start-up before there are any
  requests, so its shared buffer is that of the server's client.
\<close>

section \<open>Data\<close>

datatype blk_direction = VIRTIO_BLK_T_IN | VIRTIO_BLK_T_OUT | VIRTIO_BLK_T_SCSI_CMD | VIRTIO_BLK_T_FLUSH |
  VIRTIO_BLK_T_GET_ID | VIRTIO_BLK_T_OTHER

datatype blk_status = VIRTIO_BLK_XFER_COMPLETE | VIRTIO_BLK_XFER_FAILED

definition VIRTIO_BLK_DISK_BLK_SIZE :: u32 where "VIRTIO_BLK_DISK_BLK_SIZE = 512"
definition VIRTIO_BLK_SIZE_MAX :: u32 where "VIRTIO_BLK_SIZE_MAX = 4096"
definition VIRTIO_BLK_SEG_MAX :: u32 where "VIRTIO_BLK_SEG_MAX = 1"

record virtio_blk_config =
  cfg_capacity :: u64
  cfg_seg_max :: u32
  cfg_size_max :: u32
  cfg_blk_size :: u32

section \<open>Transfers\<close>

text \<open>\<^verbatim>\<open>memcpy\<close> of \<open>len\<close> bytes to the start of a buffer.\<close>

definition memcpy :: "u8 list \<Rightarrow> u8 list \<Rightarrow> nat \<Rightarrow> u8 list res" where
  "memcpy dst src len =
     (if len \<le> length src \<and> len \<le> length dst then Inr (copy_to dst (take len src)) else Inl OutOfBounds)"

definition iface_buf :: "u32 \<Rightarrow> sataserver \<Rightarrow> u8 list res" where
  "iface_buf sender s = rbind (find_client s sender) (\<lambda>k. Inr (dataport (clients s ! k)))"

definition set_iface_buf :: "u32 \<Rightarrow> u8 list \<Rightarrow> sataserver \<Rightarrow> sataserver res" where
  "set_iface_buf sender d s = rbind (find_client s sender) (\<lambda>k. Inr (set_dataport k d s))"

text \<open>The 64-bit sector is passed as an \<^verbatim>\<open>unsigned int\<close>.\<close>

definition virtio_blk_emul_transfer ::
    "sata_lib \<Rightarrow> u32 \<Rightarrow> blk_direction \<Rightarrow> u64 \<Rightarrow> u32 \<Rightarrow> u8 list \<Rightarrow> sataserver \<Rightarrow> (blk_status \<times> u8 list \<times> sataserver) res" where
  "virtio_blk_emul_transfer L sender direction sector len guest_buf s =
     rbind (case direction of
         VIRTIO_BLK_T_IN \<Rightarrow>
           rbind (client_rx L sender (ucast sector) len s) (\<lambda>(status, s).
           rbind (iface_buf sender s) (\<lambda>packet.
           rbind (memcpy guest_buf packet (unat len)) (\<lambda>guest_buf. Inr (status, guest_buf, s))))
       | VIRTIO_BLK_T_OUT \<Rightarrow>
           rbind (iface_buf sender s) (\<lambda>packet.
           rbind (memcpy packet guest_buf (unat len)) (\<lambda>packet.
           rbind (set_iface_buf sender packet s) (\<lambda>s.
           rbind (client_tx L sender (ucast sector) len s) (\<lambda>(status, s). Inr (status, guest_buf, s)))))
       | _ \<Rightarrow> Inr (0, guest_buf, s))
     (\<lambda>(status, guest_buf, s).
       Inr (if status \<noteq> 0 then VIRTIO_BLK_XFER_COMPLETE else VIRTIO_BLK_XFER_FAILED, guest_buf, s))"

section \<open>Set-up\<close>

definition blk_low_level_init :: "u32 \<Rightarrow> sataserver \<Rightarrow> virtio_blk_config res" where
  "blk_low_level_init sender s = rbind (client_get_capacity sender s) (\<lambda>c.
     Inr \<lparr>cfg_capacity = ucast c, cfg_seg_max = VIRTIO_BLK_SEG_MAX, cfg_size_max = VIRTIO_BLK_SIZE_MAX,
          cfg_blk_size = VIRTIO_BLK_DISK_BLK_SIZE\<rparr>)"

text \<open>
  The server goes on while the monitor polls its status: \<open>server k\<close> is its state at the \<open>k\<close>-th call.
  The result is the number of calls; \<open>made\<close>: the library could create the device.
\<close>

fun wait_status :: "nat \<Rightarrow> (nat \<Rightarrow> sataserver) \<Rightarrow> nat \<Rightarrow> nat res" where
  "wait_status 0 server k = Inl NoReturn"
| "wait_status (Suc fuel) server k =
     (if client_get_status (server k) = SATASERVER_STATUS_NOT_DONE then wait_status fuel server (Suc k) else Inr k)"

definition make_virtio_blk :: "nat \<Rightarrow> (nat \<Rightarrow> sataserver) \<Rightarrow> bool \<Rightarrow> nat res" where
  "make_virtio_blk fuel server made =
     rbind (wait_status fuel server 0) (\<lambda>k.
       if client_get_status (server k) = SATASERVER_STATUS_INVALID_CONF then Inl LogFatal
       else rbind (rassert made) (\<lambda>_. Inr k))"

section \<open>A disk\<close>

text \<open>A driver that works: it stores and returns the sectors it is told to, without errors.\<close>

definition sata_works :: "sata_lib \<Rightarrow> bool" where
  "sata_works L \<longleftrightarrow> sata_lib_ok L \<and> sata_writes L \<and>
     (\<forall>n start data d. fst (sata_write_sectors L n start data d) = 0) \<and>
     (\<forall>n start d. sata_read_sectors L n start d = (0, concat (map (\<lambda>k. d (start + of_nat k)) [0..<unat n])))"

lemma concat_chunks: "concat (map (\<lambda>k. take m (drop (m * k) xs)) [0..<n]) = take (m * n) xs"
  by (induction n) (simp_all add: take_add [symmetric] add.commute)

lemma find_client_ids: "map client_id (clients t) = map client_id (clients s) \<Longrightarrow> find_client t sender = find_client s sender"
proof -
  assume e: "map client_id (clients t) = map client_id (clients s)"
  then have l: "length (clients t) = length (clients s)" by (rule map_eq_imp_length_eq)
  have "client_id (clients t ! i) = client_id (clients s ! i)" if "i < length (clients s)" for i
    using e l that by (metis nth_map)
  then have "filter (\<lambda>i. client_id (clients t ! i) = sender) [0..<length (clients t)] =
      filter (\<lambda>i. client_id (clients s ! i) = sender) [0..<length (clients s)]"
    using l by (intro filter_cong) simp_all
  then show ?thesis by (simp add: find_client_def)
qed

text \<open>The sectors of a request lie in one partition of the sender.\<close>

definition request_inside :: "sataserver \<Rightarrow> nat \<Rightarrow> nat \<Rightarrow> nat \<Rightarrow> nat \<Rightarrow> bool" where
  "request_inside s k j v n \<longleftrightarrow> j < length (assigned_to (clients s ! k)) \<and>
     in_partition (phys_partition_tables s) (assigned_to (clients s ! k)) j v \<and>
     v + n div 512 \<le> vstart (phys_partition_tables s) (assigned_to (clients s ! k)) j +
       vsize (phys_partition_tables s) (assigned_to (clients s ! k)) j"

definition disk_start :: "sataserver \<Rightarrow> nat \<Rightarrow> nat \<Rightarrow> u32 \<Rightarrow> u32" where
  "disk_start s k j sector = sector + (start_lba (phys_of s (clients s ! k) j) - start_lba (partition_tables (clients s ! k) ! j))"

lemma inside_facts:
  assumes "sata_good s" "find_client s sender = Inr k" "request_inside s k j (unat sector) n"
  shows "done_init s" "VIRT_START_SECTOR \<le> sector"
    "calulate_sector_offset s (clients s ! k) sector =
       Inr (Some (start_lba (phys_of s (clients s ! k) j) - start_lba (partition_tables (clients s ! k) ! j)))"
proof -
  have c: "client_ok (phys_partition_tables s) (clients s ! k)" "length (phys_partition_tables s) = 4"
    using assms(1) find_client_ok [OF assms(2)] by (auto simp: sata_good_def)
  show "done_init s" using assms(1) by (simp add: sata_good_def)
  show "VIRT_START_SECTOR \<le> sector"
    using assms(3) by (simp add: request_inside_def in_partition_def vstart_def VIRT_START_SECTOR_def word_le_nat_alt)
  show "calulate_sector_offset s (clients s ! k) sector =
       Inr (Some (start_lba (phys_of s (clients s ! k) j) - start_lba (partition_tables (clients s ! k) ! j)))"
    using calulate_sector_offset_ok(2) [OF c] assms(3) by (simp add: request_inside_def)
qed

lemma client_tx_eq:
  assumes "sata_works L" "sata_good s" "find_client s sender = Inr k" "request_inside s k j (unat sector) (unat len)"
    "unat len \<le> 4096"
  shows "client_tx L sender sector len s = Inr (len, s\<lparr>hard_disk :=
    snd (sata_write_sectors L (len div 512) (disk_start s k j sector) (dataport (clients s ! k)) (hard_disk s))\<rparr>)"
  using inside_facts [OF assms(2-4)] assms
  by (auto simp: client_tx_def Let_def BUF_SIZE_def word_less_nat_alt sata_works_def sata_lib_ok_def disk_start_def split_beta)

lemma client_rx_eq:
  assumes "sata_works L" "sata_good s" "find_client s sender = Inr k" "request_inside s k j (unat sector) (unat len)"
    "unat len \<le> 4096"
  shows "client_rx L sender sector len s = Inr (len, set_dataport k (copy_to (dataport (clients s ! k))
    (concat (map (\<lambda>i. hard_disk s (disk_start s k j sector + of_nat i)) [0..<unat len div 512]))) s)"
proof -
  have "sector \<noteq> START_SECTOR" "\<not> sector < VIRT_START_SECTOR"
    using inside_facts(2) [OF assms(2-4)] by (auto simp: START_SECTOR_def VIRT_START_SECTOR_def)
  then show ?thesis
    using inside_facts [OF assms(2-4)] assms
    by (auto simp: client_rx_def Let_def BUF_SIZE_def word_less_nat_alt sata_works_def sata_lib_ok_def disk_start_def unat_div)
qed

lemma sata_same_refl: "sata_good s \<Longrightarrow> sata_same s s"
  by (simp add: sata_same_def)

lemma set_dataport_facts:
  assumes "sata_good s" "find_client s sender = Inr k"
  shows "sata_good (set_dataport k d s)" "find_client (set_dataport k d s) sender = Inr k"
    "dataport (clients (set_dataport k d s) ! k) = d"
    "request_inside (set_dataport k d s) k j v n = request_inside s k j v n"
    "disk_start (set_dataport k d s) k j x = disk_start s k j x"
    "hard_disk (set_dataport k d s) = hard_disk s"
proof -
  have k: "k < length (clients s)" using find_client_ok [OF assms(2)] by simp
  have same: "sata_same s (set_dataport k d s)" using sata_same_dataport [OF sata_same_refl [OF assms(1)] k] .
  then show "sata_good (set_dataport k d s)" by (simp add: sata_same_def)
  show "find_client (set_dataport k d s) sender = Inr k"
    using find_client_ids [of "set_dataport k d s" s] same assms(2) by (simp add: sata_same_def)
  show "dataport (clients (set_dataport k d s) ! k) = d" "hard_disk (set_dataport k d s) = hard_disk s"
    "request_inside (set_dataport k d s) k j v n = request_inside s k j v n"
    "disk_start (set_dataport k d s) k j x = disk_start s k j x"
    using k by (simp_all add: set_dataport_def request_inside_def disk_start_def phys_of_def)
qed

lemma hard_disk_facts:
  "sata_good (s\<lparr>hard_disk := d\<rparr>) = sata_good s" "find_client (s\<lparr>hard_disk := d\<rparr>) sender = find_client s sender"
  "request_inside (s\<lparr>hard_disk := d\<rparr>) k j v n = request_inside s k j v n"
  "disk_start (s\<lparr>hard_disk := d\<rparr>) k j x = disk_start s k j x"
  by (simp_all add: sata_good_def find_client_def request_inside_def disk_start_def phys_of_def)

text \<open>
  A transfer of whole sectors inside one of the sender's partitions that fits into the guest's and the
  shared buffer, and a disk all of whose sectors have their size.
\<close>

definition request_fits :: "sataserver \<Rightarrow> u32 \<Rightarrow> u64 \<Rightarrow> u32 \<Rightarrow> u8 list \<Rightarrow> bool" where
  "request_fits s sender sector len buf \<longleftrightarrow>
     (case find_client s sender of
        Inl e \<Rightarrow> False
      | Inr k \<Rightarrow>
          list_ex (\<lambda>j. request_inside s k j (unat sector) (unat len)) [0..<length (assigned_to (clients s ! k))] \<and>
          unat sector < 2 ^ 32 \<and> 0 < len \<and> unat len \<le> 4096 \<and> 512 dvd unat len \<and>
          length (dataport (clients s ! k)) = 4096 \<and> unat len \<le> length buf)"

definition disk_ok :: "sataserver \<Rightarrow> bool" where
  "disk_ok s \<longleftrightarrow> (\<forall>x. length (hard_disk s x) = 512)"

definition blk_serve :: "sata_lib \<Rightarrow> u32 \<times> blk_direction \<times> u64 \<times> u32 \<times> u8 list \<Rightarrow> sataserver \<Rightarrow> sataserver res" where
  "blk_serve L op s =
     (let (sender, direction, sector, len, buf) = op
      in rbind (virtio_blk_emul_transfer L sender direction sector len buf s) (\<lambda>(_, _, s). Inr s))"

text \<open>The data of a read, and the server after a write.\<close>

definition sectors_at :: "sataserver \<Rightarrow> nat \<Rightarrow> nat \<Rightarrow> u64 \<Rightarrow> u32 \<Rightarrow> u8 list" where
  "sectors_at s k j sector len =
     concat (map (\<lambda>i. hard_disk s (disk_start s k j (ucast sector) + of_nat i)) [0..<unat len div 512])"

definition blk_written :: "sata_lib \<Rightarrow> nat \<Rightarrow> nat \<Rightarrow> u64 \<Rightarrow> u32 \<Rightarrow> u8 list \<Rightarrow> sataserver \<Rightarrow> sataserver" where
  "blk_written L k j sector len buf s =
     (let packet = copy_to (dataport (clients s ! k)) (take (unat len) buf);
          s = set_dataport k packet s
      in s\<lparr>hard_disk := snd (sata_write_sectors L (len div 512) (disk_start s k j (ucast sector)) packet (hard_disk s))\<rparr>)"

lemma request_fitsE:
  assumes "request_fits s sender sector len buf"
  obtains k j where "find_client s sender = Inr k" "request_inside s k j (unat (ucast sector :: u32)) (unat len)"
    "unat (ucast sector :: u32) = unat sector" "0 < len" "unat len \<le> 4096" "512 dvd unat len"
    "length (dataport (clients s ! k)) = 4096" "unat len \<le> length buf"
proof -
  obtain k where k: "find_client s sender = Inr k" using assms by (auto simp: request_fits_def split: sum.splits)
  then have r: "list_ex (\<lambda>j. request_inside s k j (unat sector) (unat len)) [0..<length (assigned_to (clients s ! k))]"
      "unat sector < 2 ^ 32" "0 < len" "unat len \<le> 4096" "512 dvd unat len"
      "length (dataport (clients s ! k)) = 4096" "unat len \<le> length buf"
    using assms unfolding request_fits_def by simp_all
  then obtain j where j: "request_inside s k j (unat sector) (unat len)" unfolding list_ex_iff by blast
  have u: "unat (ucast sector :: u32) = unat sector"
    using r(2) by (simp add: unsigned_ucast_eq take_bit_nat_eq_self)
  with j have "request_inside s k j (unat (ucast sector :: u32)) (unat len)" by simp
  from that [OF k this u r(3-7)] show ?thesis .
qed

lemma blk_written_tx:
  assumes "sata_works L" "sata_good s" "find_client s sender = Inr k"
    "request_inside s k j (unat (ucast sector :: u32)) (unat len)" "unat len \<le> 4096"
  shows "client_tx L sender (ucast sector) len (set_dataport k (copy_to (dataport (clients s ! k)) (take (unat len) buf)) s) =
    Inr (len, blk_written L k j sector len buf s)"
proof -
  let ?s = "set_dataport k (copy_to (dataport (clients s ! k)) (take (unat len) buf)) s"
  have f: "sata_good ?s" "find_client ?s sender = Inr k" "request_inside ?s k j (unat (ucast sector :: u32)) (unat len)"
    using set_dataport_facts [OF assms(2,3)] assms(4) by simp_all
  from client_tx_eq [OF assms(1) f assms(5)] show ?thesis
    using set_dataport_facts(3) [OF assms(2,3)] by (simp add: blk_written_def Let_def)
qed

lemma blk_out_eq:
  assumes "sata_works L" "sata_good s" "find_client s sender = Inr k"
    "request_inside s k j (unat (ucast sector :: u32)) (unat len)"
    "0 < len" "unat len \<le> 4096" "length (dataport (clients s ! k)) = 4096" "unat len \<le> length buf"
  shows "virtio_blk_emul_transfer L sender VIRTIO_BLK_T_OUT sector len buf s =
    Inr (VIRTIO_BLK_XFER_COMPLETE, buf, blk_written L k j sector len buf s)"
proof -
  have "len \<noteq> 0" using assms(5) by auto
  then show ?thesis
    using assms(3,6,7,8) blk_written_tx [OF assms(1-4,6), of buf]
    by (simp add: virtio_blk_emul_transfer_def iface_buf_def set_iface_buf_def memcpy_def)
qed

lemma blk_in_eq:
  assumes "sata_works L" "sata_good s" "find_client s sender = Inr k"
    "request_inside s k j (unat (ucast sector :: u32)) (unat len)"
    "0 < len" "unat len \<le> 4096" "512 dvd unat len" "length (dataport (clients s ! k)) = 4096" "unat len \<le> length buf" "length (sectors_at s k j sector len) = unat len"
  shows "virtio_blk_emul_transfer L sender VIRTIO_BLK_T_IN sector len buf s =
    Inr (VIRTIO_BLK_XFER_COMPLETE, sectors_at s k j sector len @ drop (unat len) buf,
      set_dataport k (copy_to (dataport (clients s ! k)) (sectors_at s k j sector len)) s)"
proof -
  let ?d = "copy_to (dataport (clients s ! k)) (sectors_at s k j sector len)"
  have "client_rx L sender (ucast sector) len s = Inr (len, set_dataport k ?d s)"
    using client_rx_eq [OF assms(1-4,6)] by (simp add: sectors_at_def)
  moreover have "iface_buf sender (set_dataport k ?d s) = Inr ?d"
    using set_dataport_facts(2,3) [OF assms(2,3)] by (simp add: iface_buf_def)
  moreover have "len \<noteq> 0" using assms(5) by auto
  ultimately show ?thesis
    using assms(6,8,9,10) by (simp add: virtio_blk_emul_transfer_def memcpy_def) (simp add: copy_to_def)
qed

lemma blk_written_disk:
  assumes "sata_works L" "unat len \<le> 4096" "512 dvd unat len" "unat len \<le> length buf" "i < unat len div 512"
  shows "hard_disk (blk_written L k j sector len buf s) (disk_start (blk_written L k j sector len buf s) k j (ucast sector) + of_nat i) =
    take 512 (drop (512 * i) (copy_to (dataport (clients s ! k)) (take (unat len) buf)))"
proof -
  have i: "unat (of_nat i :: u32) = i" using assms(5) unsigned_less [of len, where 'a = nat]
    by (simp add: unsigned_of_nat take_bit_nat_eq_self)
  then have "(of_nat i :: u32) < len div 512" using assms(5) by (simp add: word_less_nat_alt unat_div)
  then show ?thesis using assms(1) i
    by (simp add: blk_written_def Let_def hard_disk_facts sata_works_def sata_writes_def)
qed

lemma blk_written_sectors:
  assumes "sata_works L" "unat len \<le> 4096" "512 dvd unat len" "unat len \<le> length buf"
  shows "sectors_at (blk_written L k j sector len buf s) k j sector len = take (unat len) buf"
proof -
  let ?p = "copy_to (dataport (clients s ! k)) (take (unat len) buf)"
  have "sectors_at (blk_written L k j sector len buf s) k j sector len = concat (map (\<lambda>i. take 512 (drop (512 * i) ?p)) [0..<unat len div 512])"
    unfolding sectors_at_def using blk_written_disk [OF assms] by (intro arg_cong [where f = concat] map_cong) simp_all
  also have "\<dots> = take (512 * (unat len div 512)) ?p" by (rule concat_chunks)
  also have "\<dots> = take (unat len) buf" using assms(3,4) by (simp add: copy_to_def)
  finally show ?thesis .
qed

lemma length_sectors_at: "disk_ok s \<Longrightarrow> 512 dvd unat len \<Longrightarrow> length (sectors_at s k j sector len) = unat len"
  by (simp add: sectors_at_def length_concat comp_def disk_ok_def sum_list_triv)

lemma request_sectors:
  assumes "sata_good s" "k < length (clients s)" "request_inside s k j (unat sector) (unat (len :: u32))" "i < unat len div 512"
  shows "phys_range (phys_of s (clients s ! k) j) (disk_start s k j sector + of_nat i)"
proof -
  let ?a = "start_lba (partition_tables (clients s ! k) ! j)" and ?b = "start_lba (phys_of s (clients s ! k) j)"
  let ?x = "disk_start s k j sector + of_nat i"
  have a: "unat ?a = vstart (phys_partition_tables s) (assigned_to (clients s ! k)) j"
    using assms(1-3) by (simp add: sata_good_def client_ok_def request_inside_def)
  have "unat (of_nat i :: u32) = i" using assms(4) unsigned_less [of len, where 'a = nat]
    by (simp add: unsigned_of_nat take_bit_nat_eq_self)
  then have "?x - (sector + (?b - ?a)) < len div 512"
    using assms(4) by (simp add: disk_start_def word_less_nat_alt unat_div)
  then have "unat (?x - ?b) < vsize (phys_partition_tables s) (assigned_to (clients s ! k)) j"
    using assms(3) a unfolding request_inside_def
    by (intro request_range [OF _ _ refl a, where m = "len div 512" and n = "unat len div 512"]) (simp_all add: unat_div)
  then show ?thesis by (simp add: phys_range_def phys_of_def vsize_def word_less_nat_alt)
qed

lemma blk_written_only:
  assumes "sata_works L" "sata_good s" "find_client s sender = Inr k"
    "request_inside s k j (unat (ucast sector :: u32)) (unat len)" "unat len \<le> 4096"
    "hard_disk (blk_written L k j sector len buf s) x \<noteq> hard_disk s x"
  shows "phys_range (phys_of s (clients s ! k) j) x"
proof -
  let ?s = "set_dataport k (copy_to (dataport (clients s ! k)) (take (unat len) buf)) s"
  note f = set_dataport_facts [OF assms(2,3)]
  have k: "k < length (clients s)" using find_client_ok [OF assms(3)] by simp
  have "ok (client_tx L sender (ucast sector) len ?s) (\<lambda>(r, s').
      \<forall>x. hard_disk s' x \<noteq> hard_disk ?s x \<longrightarrow> phys_range (phys_of ?s (clients ?s ! k) j) x)"
    using assms(1) f(1,2) f(4) [of _ j "unat (ucast sector :: u32)" "unat len"] assms(4)
    by (intro client_tx_inside) (simp_all add: sata_works_def request_inside_def)
  moreover have "phys_of ?s (clients ?s ! k) j = phys_of s (clients s ! k) j"
    using k by (simp add: phys_of_def set_dataport_def)
  ultimately show ?thesis using blk_written_tx [OF assms(1-5), of buf] f(6) assms(6) by simp
qed

lemma blk_written_disk_ok:
  assumes "sata_works L" "unat len \<le> 4096" "length (dataport (clients s ! k)) = 4096" "disk_ok s"
  shows "disk_ok (blk_written L k j sector len buf s)"
  unfolding disk_ok_def
proof
  fix x
  let ?p = "copy_to (dataport (clients s ! k)) (take (unat len) buf)"
  let ?t = "set_dataport k ?p s"
  let ?d = "disk_start ?t k j (ucast sector)"
  have h: "hard_disk (blk_written L k j sector len buf s) x = snd (sata_write_sectors L (len div 512) ?d ?p (hard_disk s)) x"
    by (simp add: blk_written_def Let_def set_dataport_def)
  show "length (hard_disk (blk_written L k j sector len buf s) x) = 512"
  proof (cases "x - ?d < len div 512")
    case True
    then have "unat (x - ?d) < 8" using assms(2) by (simp add: word_less_nat_alt unat_div)
    moreover have "length ?p = 4096" using assms(2,3) by (simp add: copy_to_def)
    ultimately show ?thesis using assms(1) True unfolding h by (simp add: sata_works_def sata_writes_def)
  next
    case False
    then have "snd (sata_write_sectors L (len div 512) ?d ?p (hard_disk s)) x = hard_disk s x"
      using assms(1) unfolding sata_works_def sata_lib_ok_def by blast
    then show ?thesis using assms(4) unfolding h by (simp add: disk_ok_def)
  qed
qed

text \<open>What the requests of other clients leave as it is: the server's tables and the sectors of a partition.\<close>

definition blk_same :: "sataserver \<Rightarrow> sataserver \<Rightarrow> bool" where
  "blk_same s0 s \<longleftrightarrow>
     sata_same s0 s \<and> phys_partition_tables s = phys_partition_tables s0 \<and>
     map (\<lambda>c. length (dataport c)) (clients s) = map (\<lambda>c. length (dataport c)) (clients s0)"

definition blk_inv :: "sataserver \<Rightarrow> nat \<Rightarrow> nat \<Rightarrow> sataserver \<Rightarrow> bool" where
  "blk_inv s0 k' j' s \<longleftrightarrow> blk_same s0 s \<and> disk_ok s \<and>
     (\<forall>x. phys_range (phys_of s0 (clients s0 ! k') j') x \<longrightarrow> hard_disk s x = hard_disk s0 x)"

lemma map_nth_eq: "map f xs = map f ys \<Longrightarrow> i < length ys \<Longrightarrow> f (xs ! i) = f (ys ! i)"
  by (metis length_map nth_map)

lemma blk_same_facts:
  assumes "blk_same s0 s" "k < length (clients s0)"
  shows "sata_good s" "find_client s sender = find_client s0 sender" "k < length (clients s)"
    "assigned_to (clients s ! k) = assigned_to (clients s0 ! k)"
    "request_inside s k j v n = request_inside s0 k j v n" "disk_start s k j x = disk_start s0 k j x"
    "phys_of s (clients s ! k) j = phys_of s0 (clients s0 ! k) j"
    "length (dataport (clients s ! k)) = length (dataport (clients s0 ! k))"
proof -
  have same: "map assigned_to (clients s) = map assigned_to (clients s0)" "map client_id (clients s) = map client_id (clients s0)"
    "map partition_tables (clients s) = map partition_tables (clients s0)"
    "map (\<lambda>c. length (dataport c)) (clients s) = map (\<lambda>c. length (dataport c)) (clients s0)"
    "phys_partition_tables s = phys_partition_tables s0"
    using assms(1) by (simp_all add: blk_same_def sata_same_def)
  show "sata_good s" using assms(1) by (simp add: blk_same_def sata_same_def)
  show "find_client s sender = find_client s0 sender" using same(2) by (rule find_client_ids)
  show a: "assigned_to (clients s ! k) = assigned_to (clients s0 ! k)" using same(1) assms(2) by (rule map_nth_eq)
  have t: "partition_tables (clients s ! k) = partition_tables (clients s0 ! k)" using same(3) assms(2) by (rule map_nth_eq)
  show "k < length (clients s)" using map_eq_imp_length_eq [OF same(1)] assms(2) by simp
  show "length (dataport (clients s ! k)) = length (dataport (clients s0 ! k))" using map_nth_eq [OF same(4) assms(2)] .
  show "request_inside s k j v n = request_inside s0 k j v n" "disk_start s k j x = disk_start s0 k j x"
    "phys_of s (clients s ! k) j = phys_of s0 (clients s0 ! k) j"
    by (simp_all add: request_inside_def disk_start_def phys_of_def a t same(5))
qed

lemma blk_same_dataport:
  assumes "blk_same s0 s" "k < length (clients s)" "length d = length (dataport (clients s ! k))"
  shows "blk_same s0 (set_dataport k d s)"
proof -
  have "sata_same s0 (set_dataport k d s)"
    using assms(1,2) by (intro sata_same_dataport) (simp_all add: blk_same_def)
  moreover have "map (\<lambda>c. length (dataport c)) ((clients s)[k := (clients s ! k)\<lparr>dataport := d\<rparr>]) =
      map (\<lambda>c. length (dataport c)) (clients s)"
    using assms(2,3) by (intro map_update_same) simp_all
  ultimately show ?thesis using assms(1) by (simp add: blk_same_def set_dataport_def)
qed

lemma blk_same_disk: "blk_same s0 (s\<lparr>hard_disk := d\<rparr>) = blk_same s0 s"
  by (simp add: blk_same_def sata_same_def hard_disk_facts)

lemma blk_same_written:
  assumes "blk_same s0 s" "k < length (clients s)" "length (dataport (clients s ! k)) = 4096" "unat len \<le> 4096"
  shows "blk_same s0 (blk_written L k j sector len buf s)"
proof -
  have "blk_same s0 (set_dataport k (copy_to (dataport (clients s ! k)) (take (unat len) buf)) s)"
    using assms(3,4) by (intro blk_same_dataport [OF assms(1,2)]) (simp add: copy_to_def)
  then show ?thesis by (simp add: blk_written_def Let_def blk_same_disk)
qed

lemma blk_same_fits:
  assumes "blk_same s0 s"
  shows "request_fits s a sector len buf = request_fits s0 a sector len buf"
proof (cases "find_client s0 a")
  case (Inl e)
  then show ?thesis using assms by (simp add: request_fits_def blk_same_def sata_same_def find_client_ids [of s s0])
next
  case (Inr k)
  note f = blk_same_facts [OF assms, of k]
  have "k < length (clients s0)" using find_client_ok [OF Inr] by simp
  then show ?thesis using f by (simp add: request_fits_def Inr)
qed

lemma blk_serve_other:
  assumes "sata_works L" "blk_inv s0 k' j' s" "sata_good s0" "disjoint_tables (phys_partition_tables s0)"
    "find_client s0 b = Inr k'" "j' < length (assigned_to (clients s0 ! k'))"
    "a \<noteq> b" "request_fits s0 a sector len buf"
  shows "ok (blk_serve L (a, dir, sector, len, buf) s) (blk_inv s0 k' j')"
proof -
  obtain k j where r: "find_client s0 a = Inr k" "request_inside s0 k j (unat (ucast sector :: u32)) (unat len)"
    "unat (ucast sector :: u32) = unat sector" "0 < len" "unat len \<le> 4096" "512 dvd unat len"
    "length (dataport (clients s0 ! k)) = 4096" "unat len \<le> length buf"
    using assms(8) by (rule request_fitsE)
  have k: "k < length (clients s0)" "k' < length (clients s0)" "k' \<noteq> k"
    using find_client_ok [OF r(1)] find_client_ok [OF assms(5)] assms(7) by auto
  have inv: "blk_same s0 s" "disk_ok s" "\<And>x. phys_range (phys_of s0 (clients s0 ! k') j') x \<Longrightarrow> hard_disk s x = hard_disk s0 x"
    using assms(2) by (simp_all add: blk_inv_def)
  note f = blk_same_facts [OF inv(1) k(1)]
  have q: "find_client s a = Inr k" "request_inside s k j (unat (ucast sector :: u32)) (unat len)"
      "length (dataport (clients s ! k)) = 4096"
    using r f(2) [of a] f(5) f(8) by simp_all
  note eqs = q(1,2) r(4,5)
  show ?thesis
  proof (cases dir)
    case VIRTIO_BLK_T_IN
    have d: "length (sectors_at s k j sector len) = unat len" using inv(2) r(6) by (rule length_sectors_at)
    have "blk_same s0 (set_dataport k (copy_to (dataport (clients s ! k)) (sectors_at s k j sector len)) s)"
      using q(3) r(5) d by (intro blk_same_dataport [OF inv(1) f(3)]) (simp add: copy_to_def)
    then have "blk_inv s0 k' j' (set_dataport k (copy_to (dataport (clients s ! k)) (sectors_at s k j sector len)) s)"
      using inv by (simp add: blk_inv_def disk_ok_def set_dataport_def)
    then show ?thesis
      using blk_in_eq [OF assms(1) f(1) eqs r(6) q(3) r(8) d] VIRTIO_BLK_T_IN by (simp add: blk_serve_def)
  next
    case VIRTIO_BLK_T_OUT
    have "blk_same s0 (blk_written L k j sector len buf s)"
      using q(3) r(5) by (intro blk_same_written [OF inv(1) f(3)])
    moreover have "hard_disk (blk_written L k j sector len buf s) x = hard_disk s x"
      if "phys_range (phys_of s0 (clients s0 ! k') j') x" for x
    proof -
      have "\<not> phys_range (phys_of s0 (clients s0 ! k) j) x"
        using partitions_apart [OF assms(3,4) k r(2) [unfolded request_inside_def, THEN conjunct1] assms(6)] that by auto
      then show ?thesis
        using blk_written_only [OF assms(1) f(1) q(1,2) r(5)] f(7) by metis
    qed
    moreover have "disk_ok (blk_written L k j sector len buf s)"
      using blk_written_disk_ok [OF assms(1) r(5) q(3) inv(2)] .
    ultimately have "blk_inv s0 k' j' (blk_written L k j sector len buf s)"
      using inv(3) by (simp add: blk_inv_def)
    then show ?thesis
      using blk_out_eq [OF assms(1) f(1) eqs q(3) r(8)] VIRTIO_BLK_T_OUT by (simp add: blk_serve_def)
  qed (simp_all add: blk_serve_def virtio_blk_emul_transfer_def assms(2))
qed

lemma blk_reads:
  assumes "sata_works L" "blk_inv s k j t" "sata_good s" "find_client s b = Inr k"
    "request_inside s k j (unat (ucast sector :: u32)) (unat len)" "0 < len" "unat len \<le> 4096" "512 dvd unat len"
    "length (dataport (clients s ! k)) = 4096" "unat len \<le> length buf"
  shows "ok (virtio_blk_emul_transfer L b VIRTIO_BLK_T_IN sector len buf t) (\<lambda>(r, g, _).
    r = VIRTIO_BLK_XFER_COMPLETE \<and> g = sectors_at s k j sector len @ drop (unat len) buf)"
proof -
  have k: "k < length (clients s)" using find_client_ok [OF assms(4)] by simp
  have t: "blk_same s t" "disk_ok t" using assms(2) by (simp_all add: blk_inv_def)
  note g = blk_same_facts [OF t(1) k]
  have l: "length (dataport (clients t ! k)) = 4096" using g(8) assms(9) by simp
  have "hard_disk t (disk_start s k j (ucast sector) + of_nat i) = hard_disk s (disk_start s k j (ucast sector) + of_nat i)"
    if "i < unat len div 512" for i
    using assms(2) request_sectors [OF assms(3) k assms(5) that] by (simp add: blk_inv_def)
  then have "sectors_at t k j sector len = sectors_at s k j sector len"
    unfolding sectors_at_def g(6) by (intro arg_cong [where f = concat] map_cong) simp_all
  moreover have "length (sectors_at t k j sector len) = unat len" using t(2) assms(8) by (rule length_sectors_at)
  ultimately show ?thesis
    using blk_in_eq [OF assms(1) g(1) _ _ assms(6,7,8) l assms(10), of b j sector] g(2) [of b] g(5) assms(4,5) by simp
qed

text \<open>
  What a guest writes to its disk it reads back.  A write of whole sectors inside one of the
  client's partitions, up to the size of the shared buffer, followed by a read of the same sectors,
  returns the guest's bytes through two copies, the server's translation of sectors and the disk;
  both transfers are reported complete.
\<close>

theorem blk_write_read:
  assumes "sata_works L" "sata_good s" "find_client s sender = Inr k"
    "request_inside s k j (unat sector) (unat len)" "unat sector < 2 ^ 32"
    "0 < len" "unat len \<le> 4096" "512 dvd unat len" "length (dataport (clients s ! k)) = 4096"
    "unat len \<le> length buf" "unat len \<le> length buf2"
  shows "ok (virtio_blk_emul_transfer L sender VIRTIO_BLK_T_OUT sector len buf s) (\<lambda>(r, _, s').
    r = VIRTIO_BLK_XFER_COMPLETE \<and>
    ok (virtio_blk_emul_transfer L sender VIRTIO_BLK_T_IN sector len buf2 s') (\<lambda>(r', b, _).
      r' = VIRTIO_BLK_XFER_COMPLETE \<and> b = take (unat len) buf @ drop (unat len) buf2))"
proof -
  have u: "unat (ucast sector :: u32) = unat sector" using assms(5) by (simp add: unsigned_ucast_eq take_bit_nat_eq_self)
  have r: "request_inside s k j (unat (ucast sector :: u32)) (unat len)" using assms(4) u by simp
  have k: "k < length (clients s)" using find_client_ok [OF assms(3)] by simp
  define s1 where "s1 = blk_written L k j sector len buf s"
  have "blk_same s s" using assms(2) by (simp add: blk_same_def sata_same_refl)
  then have same: "blk_same s s1" unfolding s1_def by (rule blk_same_written [OF _ k assms(9,7)])
  note f = blk_same_facts [OF same k]
  have d: "sectors_at s1 k j sector len = take (unat len) buf"
    unfolding s1_def by (rule blk_written_sectors [OF assms(1,7,8,10)])
  have "virtio_blk_emul_transfer L sender VIRTIO_BLK_T_IN sector len buf2 s1 =
      Inr (VIRTIO_BLK_XFER_COMPLETE, take (unat len) buf @ drop (unat len) buf2,
        set_dataport k (copy_to (dataport (clients s1 ! k)) (take (unat len) buf)) s1)"
    using blk_in_eq [OF assms(1) f(1) _ _ assms(6,7,8) _ assms(11), of sender k j sector] f(2) [of sender] f(5,8) assms(3,9,10) r d
    by simp
  then show ?thesis
    using blk_out_eq [OF assms(1,2,3) r assms(6,7,9,10)] by (simp add: s1_def)
qed

lemma sample_works: "sata_works sample_sata"
  by (simp add: sata_works_def sample_sata_ok sample_writes) (simp add: sample_sata_def)

definition blk_server :: sataserver where
  "blk_server = set_dataport 0 (replicate 4096 0) sample_server"

lemma blk_server_facts:
  "sata_good blk_server" "find_client blk_server 7 = Inr 0" "dataport (clients blk_server ! 0) = replicate 4096 0"
  "request_inside blk_server 0 1 (unat (200 :: u64)) (unat (1024 :: u32))"
proof -
  have "request_inside sample_server 0 1 200 1024"
    by (simp add: request_inside_def in_partition_def sample_clients sample_vstart sample_server_eq(5))
  then show "sata_good blk_server" "find_client blk_server 7 = Inr 0" "dataport (clients blk_server ! 0) = replicate 4096 0"
    "request_inside blk_server 0 1 (unat (200 :: u64)) (unat (1024 :: u32))"
    unfolding blk_server_def by (simp_all add: set_dataport_facts [OF sample_good sample_vstart(3)])
qed

theorem blk_write_read_witness:
  "ok (virtio_blk_emul_transfer sample_sata 7 VIRTIO_BLK_T_OUT 200 1024 (replicate 1024 42) blk_server) (\<lambda>(r, _, s).
     ok (virtio_blk_emul_transfer sample_sata 7 VIRTIO_BLK_T_IN 200 1024 (replicate 1500 0) s) (\<lambda>(r', b, _).
       b = replicate 1024 42 @ replicate 476 0))"
  using blk_write_read [OF sample_works blk_server_facts(1,2,4), of "replicate 1024 42" "replicate 1500 0"]
  by (auto simp: blk_server_facts elim!: ok_mono)

section \<open>What goes wrong\<close>

text \<open>
  The backend copies before the length is checked.  A write of more than the shared buffer's
  4096 bytes overruns it before the server, which would refuse the request, is asked; a read that
  fails still overwrites the guest's memory, with what an earlier request left in the buffer; and of
  a 64-bit sector only the low half reaches the server.
\<close>

theorem blk_transfer_errors:
  assumes "sata_good s" "find_client s sender = Inr k" "length (dataport (clients s ! k)) = 4096"
  shows "(4096 < unat len \<longrightarrow> virtio_blk_emul_transfer L sender VIRTIO_BLK_T_OUT sector len buf s = Inl OutOfBounds) \<and>
    (4096 < unat len \<longrightarrow> virtio_blk_emul_transfer L sender VIRTIO_BLK_T_IN sector len buf s = Inl OutOfBounds) \<and>
    (client_rx L sender (ucast sector) len s = Inr (0, s) \<and> unat len \<le> min 4096 (length buf) \<longrightarrow>
       virtio_blk_emul_transfer L sender VIRTIO_BLK_T_IN sector len buf s =
         Inr (VIRTIO_BLK_XFER_FAILED, take (unat len) (dataport (clients s ! k)) @ drop (unat len) buf, s)) \<and>
    virtio_blk_emul_transfer L sender dir (push_bit 32 high OR sector) len buf s =
      virtio_blk_emul_transfer L sender dir sector len buf s"
proof -
  have d: "done_init s" using assms(1) by (simp add: sata_good_def)
  have h: "(ucast (push_bit 32 high OR sector) :: u32) = ucast sector" for high sector :: u64
    by (rule bit_word_eqI) (auto simp: bit_simps)
  have rx: "client_rx L sender (ucast sector) len s = Inr (0, s)" if "4096 < unat len"
    using that d by (simp add: client_rx_def BUF_SIZE_def word_less_nat_alt)
  have low: "virtio_blk_emul_transfer L sender dir (push_bit 32 high OR sector) len buf s =
      virtio_blk_emul_transfer L sender dir sector len buf s"
    unfolding virtio_blk_emul_transfer_def h ..
  show ?thesis
    using assms(2,3) rx low
    by (simp add: virtio_blk_emul_transfer_def [of _ _ VIRTIO_BLK_T_IN] virtio_blk_emul_transfer_def [of _ _ VIRTIO_BLK_T_OUT]
        iface_buf_def memcpy_def copy_to_def)
qed

theorem blk_transfer_errors_witness:
  "virtio_blk_emul_transfer sample_sata 7 VIRTIO_BLK_T_OUT 200 8192 (replicate 8192 42) blk_server = Inl OutOfBounds"
  using blk_transfer_errors [OF blk_server_facts(1,2), of 8192 sample_sata 200 "replicate 8192 42"]
  by (simp add: blk_server_facts)

text \<open>The commands without data are reported as failed, also the flush a guest relies on.\<close>

lemma blk_flush_fails:
  "virtio_blk_emul_transfer L sender VIRTIO_BLK_T_FLUSH sector len buf s = Inr (VIRTIO_BLK_XFER_FAILED, buf, s)"
  by (simp add: virtio_blk_emul_transfer_def)

text \<open>The wait ends with the server's start-up, and a rejected configuration ends the monitor.\<close>

lemma wait_status_ends:
  "(\<And>i. i < n \<Longrightarrow> client_get_status (server (k + i)) = SATASERVER_STATUS_NOT_DONE) \<Longrightarrow>
   client_get_status (server (k + n)) \<noteq> SATASERVER_STATUS_NOT_DONE \<Longrightarrow> n < fuel \<Longrightarrow> wait_status fuel server k = Inr (k + n)"
proof (induction fuel arbitrary: k n)
  case (Suc fuel)
  show ?case
  proof (cases n)
    case 0
    then show ?thesis using Suc.prems(2) by simp
  next
    case (Suc m)
    have "client_get_status (server (Suc k + i)) = SATASERVER_STATUS_NOT_DONE" if "i < m" for i
      using Suc.prems(1) [of "Suc i"] that Suc by simp
    then show ?thesis using Suc.IH [of m "Suc k"] Suc.prems Suc by (metis add_Suc add_Suc_right add_0_right less_Suc_eq_le
          wait_status.simps(2) zero_less_Suc less_or_eq_imp_le not_less_eq)
  qed
qed simp

end
