(* ===== verification/Calls.thy ===== *)
theory Calls
  imports Vmm_Prelude
begin

text \<open>
  Functions that are sequences of calls of the kernel and of libraries, whose results they check.
  The libraries are a parameter: \<open>ext n c\<close> is the result of call \<open>c\<close> when \<open>n\<close> calls came before
  it.  The calls made are logged; a check that fails ends the monitor with the fault of
  \<^verbatim>\<open>assert\<close> or \<^verbatim>\<open>ZF_LOGF_IF\<close>.  The lemmas compute which calls a sequence
  that got through must have made.
\<close>

section \<open>Calls and their checks\<close>

type_synonym 'c library = "nat \<Rightarrow> 'c \<Rightarrow> int"
type_synonym 'c calls = "'c list"

definition answer :: "'c library \<Rightarrow> 'c \<Rightarrow> 'c calls \<Rightarrow> int" where
  "answer ext c l = ext (length l) c"

definition call_zero :: "fault \<Rightarrow> 'c library \<Rightarrow> 'c \<Rightarrow> 'c calls \<Rightarrow> 'c calls res" where
  "call_zero e ext c l = (if answer ext c l = 0 then Inr (l @ [c]) else Inl e)"

definition call_nonzero :: "fault \<Rightarrow> 'c library \<Rightarrow> 'c \<Rightarrow> 'c calls \<Rightarrow> 'c calls res" where
  "call_nonzero e ext c l = (if answer ext c l \<noteq> 0 then Inr (l @ [c]) else Inl e)"

definition call_void :: "'c \<Rightarrow> 'c calls \<Rightarrow> 'c calls res" where
  "call_void c l = Inr (l @ [c])"

abbreviation checked :: "'c library \<Rightarrow> 'c \<Rightarrow> 'c calls \<Rightarrow> 'c calls res" where
  "checked \<equiv> call_zero LogFatal"

abbreviation asserted :: "'c library \<Rightarrow> 'c \<Rightarrow> 'c calls \<Rightarrow> 'c calls res" where
  "asserted \<equiv> call_zero AssertFail"

text \<open>A sequence of steps.\<close>

primrec seq_steps :: "('c calls \<Rightarrow> 'c calls res) list \<Rightarrow> 'c calls \<Rightarrow> 'c calls res" where
  "seq_steps [] l = Inr l"
| "seq_steps (f # fs) l = rbind (f l) (seq_steps fs)"

section \<open>What a sequence that got through has done\<close>

text \<open>The step makes at least the calls of \<open>R\<close> and never the call \<open>s\<close>.\<close>

definition performs :: "'c \<Rightarrow> 'c set \<Rightarrow> ('c calls \<Rightarrow> 'c calls res) \<Rightarrow> bool" where
  "performs s R f \<longleftrightarrow> (\<forall>l l'. f l = Inr l' \<longrightarrow> (\<exists>d. l' = l @ d \<and> R \<subseteq> set d \<and> s \<notin> set d))"

lemma performs_mono: "performs s R f \<Longrightarrow> S \<subseteq> R \<Longrightarrow> performs s S f"
  unfolding performs_def by (meson order_trans)

lemma performs_call:
  "c \<noteq> s \<Longrightarrow> performs s {c} (call_zero e ext c)"
  "c \<noteq> s \<Longrightarrow> performs s {c} (call_nonzero e ext c)"
  "c \<noteq> s \<Longrightarrow> performs s {c} (call_void c)"
  by (auto simp: performs_def call_zero_def call_nonzero_def call_void_def split: if_splits)

lemma performs_Inr: "performs s {} Inr"
  by (simp add: performs_def)

lemma performs_then:
  assumes "performs s R f" "performs s S g"
  shows "performs s (R \<union> S) (\<lambda>l. rbind (f l) g)"
  unfolding performs_def
proof (intro allI impI)
  fix l l'
  assume "rbind (f l) g = Inr l'"
  then obtain m where m: "f l = Inr m" "g m = Inr l'" by (auto simp: rbind_eq_Inr)
  then obtain d e where "m = l @ d" "R \<subseteq> set d" "s \<notin> set d" "l' = m @ e" "S \<subseteq> set e" "s \<notin> set e"
    using assms unfolding performs_def by blast
  then show "\<exists>d. l' = l @ d \<and> R \<union> S \<subseteq> set d \<and> s \<notin> set d"
    by (intro exI [of _ "d @ e"]) auto
qed

lemma performs_seq: "list_all2 (performs s) Rs fs \<Longrightarrow> performs s (\<Union>(set Rs)) (seq_steps fs)"
proof (induction Rs fs rule: list_all2_induct)
  case Nil
  then show ?case by (simp add: performs_def)
next
  case (Cons R Rs f fs)
  have "performs s (R \<union> \<Union>(set Rs)) (\<lambda>l. rbind (f l) (seq_steps fs))"
    using Cons by (intro performs_then) simp_all
  then show ?case by (simp add: performs_def)
qed

lemma performs_run_ops:
  "(\<And>x. x \<in> set xs \<Longrightarrow> performs s (R x) (f x)) \<Longrightarrow> performs s (\<Union>x \<in> set xs. R x) (run_ops f xs)"
proof (induction xs)
  case Nil
  then show ?case by (simp add: performs_def)
next
  case (Cons x xs)
  have "performs s (R x \<union> (\<Union>x \<in> set xs. R x)) (\<lambda>l. rbind (f x l) (run_ops f xs))"
    using Cons by (intro performs_then) simp_all
  then show ?case by (simp add: performs_def)
qed

lemma performs_any: "performs s R f \<Longrightarrow> performs s {} f"
  by (rule performs_mono) simp_all

lemma performs_run_ops_any: "(\<And>x. x \<in> set xs \<Longrightarrow> performs s {} (f x)) \<Longrightarrow> performs s {} (run_ops f xs)"
  using performs_run_ops [of xs s "\<lambda>_. {}" f] by simp

lemma performs_if: "(b \<Longrightarrow> performs s R f) \<Longrightarrow> (\<not> b \<Longrightarrow> performs s R g) \<Longrightarrow> performs s R (\<lambda>l. if b then f l else g l)"
  by (cases b) simp_all

lemma performs_bind: "(\<And>x. performs s R (f x)) \<Longrightarrow> performs s R (\<lambda>l. rbind m (\<lambda>x. f x l))"
  by (cases m) (simp_all add: performs_def)

lemma performs_option:
  "(x = None \<Longrightarrow> performs s R f) \<Longrightarrow> (\<And>a. x = Some a \<Longrightarrow> performs s R (g a)) \<Longrightarrow>
   performs s R (\<lambda>l. case x of None \<Rightarrow> f l | Some a \<Rightarrow> g a l)"
  by (cases x) simp_all

lemma performs_prod: "(\<And>a b. p = (a, b) \<Longrightarrow> performs s R (g a b)) \<Longrightarrow> performs s R (\<lambda>l. case p of (a, b) \<Rightarrow> g a b l)"
  by (cases p) simp_all

lemmas performs_any_call = performs_any [OF performs_call(1)] performs_any [OF performs_call(2)]
  performs_any [OF performs_call(3)]
lemmas performs_intros = performs_Inr performs_run_ops_any performs_if performs_bind performs_option performs_prod
  performs_any_call

lemma seq_steps_append: "seq_steps (fs @ gs) l = rbind (seq_steps fs l) (seq_steps gs)"
proof (induction fs arbitrary: l)
  case (Cons f fs)
  then show ?case by (cases "f l") simp_all
qed simp

section \<open>Sequences that make exactly these calls\<close>

definition makes :: "('c calls \<Rightarrow> 'c calls res) \<Rightarrow> 'c list \<Rightarrow> bool" where
  "makes f d \<longleftrightarrow> (\<forall>l l'. f l = Inr l' \<longrightarrow> l' = l @ d)"

lemma makes_call [intro]:
  "makes (call_zero e ext c) [c]" "makes (call_nonzero e ext c) [c]" "makes (call_void c) [c]"
  by (auto simp: makes_def call_zero_def call_nonzero_def call_void_def split: if_splits)

lemma makes_seq: "list_all2 makes fs ds \<Longrightarrow> makes (seq_steps fs) (concat ds)"
proof (induction fs ds rule: list_all2_induct)
  case (Cons f fs d ds)
  then show ?case by (fastforce simp: makes_def rbind_eq_Inr)
qed (simp add: makes_def)

lemma makes_run_ops: "(\<And>x. x \<in> set xs \<Longrightarrow> makes (f x) (d x)) \<Longrightarrow> makes (run_ops f xs) (concat (map d xs))"
proof (induction xs)
  case (Cons x xs)
  then have "makes (f x) (d x)" "makes (run_ops f xs) (concat (map d xs))" by simp_all
  then show ?case by (fastforce simp: makes_def rbind_eq_Inr)
qed (simp add: makes_def)

text \<open>A step that gets through whatever calls came before.\<close>

definition succeeds :: "('c calls \<Rightarrow> 'c calls res) \<Rightarrow> bool" where
  "succeeds f \<longleftrightarrow> (\<forall>l. \<exists>l'. f l = Inr l')"

lemma succeeds_call:
  "(\<And>n. ext n c = 0) \<Longrightarrow> succeeds (call_zero e ext c)"
  "(\<And>n. ext n c \<noteq> 0) \<Longrightarrow> succeeds (call_nonzero e ext c)"
  "succeeds (call_void c)"
  by (simp_all add: succeeds_def call_zero_def call_nonzero_def call_void_def answer_def)

lemma succeeds_then: "succeeds f \<Longrightarrow> succeeds g \<Longrightarrow> succeeds (\<lambda>l. rbind (f l) g)"
  unfolding succeeds_def by (metis rbind_Inr)

lemma succeeds_seq: "list_all succeeds fs \<Longrightarrow> succeeds (seq_steps fs)"
proof (induction fs)
  case (Cons f fs)
  then have "succeeds (\<lambda>l. rbind (f l) (seq_steps fs))" by (intro succeeds_then) simp_all
  then show ?case by (simp add: succeeds_def)
qed (simp add: succeeds_def)

lemma succeeds_run_ops: "(\<And>x. x \<in> set xs \<Longrightarrow> succeeds (f x)) \<Longrightarrow> succeeds (run_ops f xs)"
proof (induction xs)
  case (Cons x xs)
  then have "succeeds (\<lambda>l. rbind (f x l) (run_ops f xs))" by (intro succeeds_then) simp_all
  then show ?case by (simp add: succeeds_def)
qed (simp add: succeeds_def)

end
