(* ===== verification/Sata_Init.thy ===== *)
theory Sata_Init
  imports Calls
begin

text \<open>
  The hardware set-up of the SATA server, the first part of \<^verbatim>\<open>post_init\<close> in
  \<^verbatim>\<open>components/Sataserver/src/sataserver.c\<close>: allocators, the PCI devices whose I/O spaces are
  used, DMA buffers, and the driver.  The libraries are parameters as in \<open>Calls\<close>; the string
  functions of C that take the list of devices apart are defined here, on the heap block that holds
  the copy of the list.
\<close>

section \<open>Taking the list of devices apart\<close>

text \<open>
  \<^verbatim>\<open>strtok\<close> on the rest of a heap block, whose bytes are not null: it skips separators and
  takes what comes before the next one; without one it reads beyond the block.
\<close>

fun tok_skip :: "string \<Rightarrow> string res" where
  "tok_skip [] = Inl OutOfBounds"
| "tok_skip (c # cs) = (if c = CHR '','' then tok_skip cs else Inr (c # cs))"

fun tok_scan :: "string \<Rightarrow> (string \<times> string) res" where
  "tok_scan [] = Inl OutOfBounds"
| "tok_scan (c # cs) = (if c = CHR '','' then Inr ([], cs) else rbind (tok_scan cs) (\<lambda>(t, r). Inr (c # t, r)))"

definition strtok :: "string \<Rightarrow> (string \<times> string) res" where
  "strtok block = rbind (tok_skip block) tok_scan"

text \<open>\<^verbatim>\<open>sscanf\<close> with \<^verbatim>\<open>"%x:%x.%d"\<close>: numbers with optional white space, sign and prefix.\<close>

definition hex_value :: "char \<Rightarrow> nat option" where
  "hex_value c = (let n = of_char c :: nat in
     if 48 \<le> n \<and> n \<le> 57 then Some (n - 48)
     else if 97 \<le> n \<and> n \<le> 102 then Some (n - 87)
     else if 65 \<le> n \<and> n \<le> 70 then Some (n - 55) else None)"

definition digit_of :: "nat \<Rightarrow> char \<Rightarrow> nat option" where
  "digit_of base c = (case hex_value c of None \<Rightarrow> None | Some d \<Rightarrow> if d < base then Some d else None)"

fun scan_digits :: "nat \<Rightarrow> nat \<Rightarrow> string \<Rightarrow> nat \<times> string" where
  "scan_digits base n [] = (n, [])"
| "scan_digits base n (c # cs) =
     (case digit_of base c of None \<Rightarrow> (n, c # cs) | Some d \<Rightarrow> scan_digits base (base * n + d) cs)"

definition skip_space :: "string \<Rightarrow> string" where
  "skip_space = dropWhile (\<lambda>c. of_char c \<in> {9, 10, 11, 12, 13, 32 :: nat})"

definition scan_sign :: "string \<Rightarrow> int \<times> string" where
  "scan_sign s = (case s of c # cs \<Rightarrow> if c = CHR ''-'' then (-1, cs) else if c = CHR ''+'' then (1, cs) else (1, s) | [] \<Rightarrow> (1, s))"

definition skip_prefix :: "nat \<Rightarrow> string \<Rightarrow> string" where
  "skip_prefix base s = (case s of c # x # d # cs \<Rightarrow>
     if base = 16 \<and> c = CHR ''0'' \<and> (x = CHR ''x'' \<or> x = CHR ''X'') \<and> digit_of 16 d \<noteq> None then d # cs else s | _ \<Rightarrow> s)"

definition scan_number :: "nat \<Rightarrow> string \<Rightarrow> (int \<times> string) option" where
  "scan_number base s =
     (let (sign, s) = scan_sign (skip_space s); s = skip_prefix base s
      in case s of
           [] \<Rightarrow> None
         | c # cs \<Rightarrow> if digit_of base c = None then None
                     else let (n, r) = scan_digits base 0 s in Some (sign * int n, r))"

definition scan_literal :: "char \<Rightarrow> string \<Rightarrow> string option" where
  "scan_literal c s = (case s of [] \<Rightarrow> None | d # ds \<Rightarrow> if d = c then Some ds else None)"

text \<open>What is not matched keeps its value.\<close>

definition sscanf_bdf :: "string \<Rightarrow> int \<times> int \<times> int \<Rightarrow> int \<times> int \<times> int" where
  "sscanf_bdf s old = (let (bus, dev, fn) = old in
     case scan_number 16 s of
       None \<Rightarrow> (bus, dev, fn)
     | Some (bus, s) \<Rightarrow>
         (case scan_literal (CHR '':'') s of
            None \<Rightarrow> (bus, dev, fn)
          | Some s \<Rightarrow>
              (case scan_number 16 s of
                 None \<Rightarrow> (bus, dev, fn)
               | Some (dev, s) \<Rightarrow>
                   (case scan_literal (CHR ''.'') s of
                      None \<Rightarrow> (bus, dev, fn)
                    | Some s \<Rightarrow> (case scan_number 10 s of None \<Rightarrow> (bus, dev, fn) | Some (fn, s) \<Rightarrow> (bus, dev, fn))))))"

definition pci_bdf_int :: "int \<times> int \<times> int \<Rightarrow> int" where
  "pci_bdf_int b = (let (bus, dev, fn) = b in bus * 256 + dev * 8 + fn)"

section \<open>Set-up\<close>

datatype sata_call =
    MuxLock
  | MakeSimple
  | BootstrapAllocman
  | AddUntypeds
  | BootstrapVspace
  | ReserveBrk
  | MallocOps
  | MallocCaps
  | MallocPaths
  | MallocBdfs
  | AllocPath nat
  | GetIospace nat int
  | MakeIommuDma nat
  | IoPortOps
  | DmaAlloc nat
  | PinMoves nat
  | SataInitAhci
  | SataInitIde

definition init_system :: "sata_call library \<Rightarrow> sata_call calls \<Rightarrow> sata_call calls res" where
  "init_system ext = seq_steps
     [call_void MakeSimple,
      call_nonzero AssertFail ext BootstrapAllocman,
      call_void AddUntypeds,
      asserted ext BootstrapVspace,
      call_void ReserveBrk]"

text \<open>The loop over the devices: the rest of the block, and the numbers of the device before.\<close>

fun sata_iospaces ::
    "sata_call library \<Rightarrow> nat list \<Rightarrow> string \<Rightarrow> int \<times> int \<times> int \<Rightarrow> sata_call calls \<Rightarrow> sata_call calls res" where
  "sata_iospaces ext [] block old l = Inr l"
| "sata_iospaces ext (i # is) block old l =
     rbind (asserted ext (AllocPath i) l) (\<lambda>l.
     rbind (strtok block) (\<lambda>(pci_bdf, block).
       let bdf = sscanf_bdf pci_bdf old
       in rbind (asserted ext (GetIospace i (pci_bdf_int bdf)) l) (sata_iospaces ext is block bdf)))"

text \<open>\<open>PinMoves\<close> is 0 if pinning returns the address of the buffer.\<close>

definition preallocate :: "sata_call library \<Rightarrow> nat \<Rightarrow> sata_call calls \<Rightarrow> sata_call calls res" where
  "preallocate ext len = seq_steps [call_nonzero AssertFail ext (DmaAlloc len), asserted ext (PinMoves len)]"

definition sata_hardware ::
    "bool \<Rightarrow> sata_call library \<Rightarrow> nat \<Rightarrow> string option \<Rightarrow> int \<times> int \<times> int \<Rightarrow> sata_call calls \<Rightarrow> sata_call calls res" where
  "sata_hardware ahci ext num_bdfs pci_bdfs garbage =
     seq_steps
       ([call_void MuxLock, init_system ext, asserted ext MallocOps] @
        (if \<not> ahci then [asserted ext SataInitIde]
         else
           [\<lambda>l. if num_bdfs = 0 then Inl LogFatal else Inr l,
            call_nonzero LogFatal ext MallocCaps,
            call_nonzero LogFatal ext MallocPaths,
            \<lambda>l. if pci_bdfs = None then Inl LogFatal else Inr l,
            call_nonzero LogFatal ext MallocBdfs,
            sata_iospaces ext [0..<num_bdfs] (the pci_bdfs) garbage,
            asserted ext (MakeIommuDma num_bdfs),
            asserted ext IoPortOps,
            preallocate ext 4096, preallocate ext (4096 * 16), preallocate ext 4096, preallocate ext 4096,
            asserted ext SataInitAhci]))"

section \<open>DMA\<close>

definition get_dma_frame_cap :: "(nat \<Rightarrow> nat) \<Rightarrow> (nat \<Rightarrow> nat) \<Rightarrow> nat \<Rightarrow> nat" where
  "get_dma_frame_cap camkes_dma_get_cptr original_vspace_get_cap vaddr =
     (let cap = camkes_dma_get_cptr vaddr in if cap = 0 then original_vspace_get_cap vaddr else cap)"

text \<open>The state is the set of buffers that are allocated; \<open>spare\<close> is what the pool would return.\<close>

definition camkes_iommu_dma_alloc :: "nat option \<Rightarrow> (nat \<Rightarrow> int) \<Rightarrow> nat set \<Rightarrow> nat option \<times> nat set" where
  "camkes_iommu_dma_alloc spare alloc_iospace pool =
     (case spare of
        None \<Rightarrow> (None, pool)
      | Some vaddr \<Rightarrow>
          let pool = insert vaddr pool
          in if alloc_iospace vaddr \<noteq> 0 then (None, pool - {vaddr}) else (Some vaddr, pool))"

section \<open>The list of devices is read beyond its end\<close>

text \<open>Devices in the notation of the configuration.\<close>

definition hex_char :: "nat \<Rightarrow> char" where
  "hex_char d = char_of (if d < 10 then 48 + d else 87 + d)"

fun hex_string :: "nat \<Rightarrow> string" where
  "hex_string n = (if n < 16 then [hex_char n] else hex_string (n div 16) @ [hex_char (n mod 16)])"

definition print_bdf :: "nat \<Rightarrow> nat \<Rightarrow> nat \<Rightarrow> string" where
  "print_bdf bus dev fn = hex_string bus @ '':'' @ hex_string dev @ ''.'' @ [hex_char fn]"

fun separated :: "string list \<Rightarrow> string" where
  "separated [] = []"
| "separated [x] = x"
| "separated (x # xs) = x @ '','' @ separated xs"

declare hex_string.simps [simp del]

lemma strtok_more: "t \<noteq> [] \<Longrightarrow> CHR '','' \<notin> set t \<Longrightarrow> strtok (t @ CHR '','' # r) = Inr (t, r)"
proof -
  assume t: "t \<noteq> []" "CHR '','' \<notin> set t"
  have "tok_scan (t @ CHR '','' # r) = Inr (t, r)" using t(2) by (induction t) auto
  moreover have "tok_skip (t @ CHR '','' # r) = Inr (t @ CHR '','' # r)" using t by (cases t) auto
  ultimately show ?thesis by (simp add: strtok_def)
qed

lemma strtok_last: "CHR '','' \<notin> set t \<Longrightarrow> strtok t = Inl OutOfBounds"
proof -
  assume t: "CHR '','' \<notin> set t"
  have "tok_scan t = Inl OutOfBounds" using t by (induction t) auto
  then show ?thesis using t by (cases t) (auto simp: strtok_def)
qed

lemma less_16_cases:
  "d < 16 \<Longrightarrow> d \<in> {0, 1, 2, 3, 4, 5, 6, 7, 8, 9, 10, 11, 12, 13, 14, 15 :: nat}"
  unfolding insert_iff empty_iff by presburger

lemma digit_hex_char: "d < 16 \<Longrightarrow> digit_of 16 (hex_char d) = Some d"
  by (simp add: digit_of_def hex_value_def hex_char_def Let_def)

lemma digit_dec_char: "d < 10 \<Longrightarrow> digit_of 10 (hex_char d) = Some d"
  by (simp add: digit_of_def hex_value_def hex_char_def Let_def)

lemma hex_string_digits: "c \<in> set (hex_string n) \<Longrightarrow> \<exists>d < 16. c = hex_char d"
proof (induction n rule: hex_string.induct)
  case (1 n)
  then show ?case
    by (subst (asm) (2) hex_string.simps) (auto split: if_splits intro: exI [of _ n] exI [of _ "n mod 16"])
qed

lemma hex_string_nonempty: "hex_string n \<noteq> []"
  by (subst hex_string.simps) simp

lemma scan_hex_string: "scan_digits 16 a (hex_string n @ r) = scan_digits 16 (16 ^ length (hex_string n) * a + n) r"
proof (induction n arbitrary: a r rule: hex_string.induct)
  case (1 n)
  show ?case
  proof (cases "n < 16")
    case True
    then show ?thesis by (simp add: hex_string.simps [of n] digit_hex_char)
  next
    case False
    have "16 * (16 ^ length (hex_string (n div 16)) * a + n div 16) + n mod 16 =
        16 ^ Suc (length (hex_string (n div 16))) * a + n"
      by (simp add: distrib_left ac_simps)
    then show ?thesis
      using 1 [OF False, of a "hex_char (n mod 16) # r"] False
      by (simp add: hex_string.simps [of n] digit_hex_char mult.assoc add.commute)
  qed
qed

lemma hex_char_plain:
  "d < 16 \<Longrightarrow> hex_char d \<noteq> CHR '','' \<and> hex_char d \<noteq> CHR ''-'' \<and> hex_char d \<noteq> CHR ''+'' \<and> hex_char d \<noteq> CHR ''x'' \<and>
   hex_char d \<noteq> CHR ''X'' \<and> (of_char (hex_char d) :: nat) \<notin> {9, 10, 11, 12, 13, 32}"
  by (drule less_16_cases) (elim insertE; simp add: hex_char_def; code_simp)

lemma scan_number_hex:
  assumes "case r of [] \<Rightarrow> True | c # cs \<Rightarrow> digit_of 16 c = None \<and> c \<noteq> CHR ''x'' \<and> c \<noteq> CHR ''X''"
  shows "scan_number 16 (hex_string n @ r) = Some (int n, r)"
proof -
  obtain c ys where c: "hex_string n = c # ys" using hex_string_nonempty [of n] by (cases "hex_string n") auto
  then obtain d where d: "d < 16" "c = hex_char d" using hex_string_digits [of c n] by (metis list.set_intros(1))
  define cs where "cs = ys @ r"
  have x: "x \<noteq> CHR ''x'' \<and> x \<noteq> CHR ''X''" if xs: "cs = x # xs" for x xs
  proof (cases ys)
    case Nil
    then show ?thesis using assms xs by (simp add: cs_def)
  next
    case (Cons y zs)
    then have "x \<in> set (hex_string n)" using xs c by (simp add: cs_def)
    then obtain e where "e < 16" "x = hex_char e" using hex_string_digits by blast
    then show ?thesis using hex_char_plain [of e] by simp
  qed
  have cr: "hex_string n @ r = c # cs" by (simp add: c cs_def)
  have p: "skip_prefix 16 (c # cs) = c # cs"
    using x by (auto simp: skip_prefix_def split: list.splits)
  have s: "skip_space (c # cs) = c # cs" "scan_sign (c # cs) = (1, c # cs)"
    using hex_char_plain [OF d(1)] d(2) by (simp_all add: skip_space_def scan_sign_def)
  have e: "scan_digits 16 0 (c # cs) = (n, r)"
    unfolding cr [symmetric] scan_hex_string using assms by (cases r) simp_all
  show ?thesis
    unfolding scan_number_def cr s p Let_def prod.case using e digit_hex_char [OF d(1)] d(2) by simp
qed

lemma scan_number_dec: "d < 10 \<Longrightarrow> scan_number 10 [hex_char d] = Some (int d, [])"
  using hex_char_plain [of d] digit_dec_char [of d]
  by (simp add: scan_number_def skip_space_def scan_sign_def skip_prefix_def)

lemma sscanf_print: "fn < 8 \<Longrightarrow> sscanf_bdf (print_bdf bus dev fn) old = (int bus, int dev, int fn)"
proof -
  assume f: "fn < 8"
  have d: "digit_of 16 (CHR '':'') = None" "digit_of 16 (CHR ''.'') = None"
    by (simp_all add: digit_of_def hex_value_def)
  show ?thesis
    using f by (simp add: sscanf_bdf_def print_bdf_def scan_number_hex d scan_literal_def scan_number_dec split: prod.split)
qed

lemma hex_string_plain: "CHR '','' \<notin> set (hex_string n)"
  using hex_string_digits [of "CHR '',''" n] hex_char_plain by metis

lemma print_bdf_plain: "fn < 16 \<Longrightarrow> CHR '','' \<notin> set (print_bdf bus dev fn) \<and> print_bdf bus dev fn \<noteq> []"
  using hex_char_plain [of fn] by (auto simp: print_bdf_def hex_string_plain)

text \<open>The calls for a list of devices, each with its routing identifier.\<close>

definition bdf_calls :: "nat \<Rightarrow> (nat \<times> nat \<times> nat) list \<Rightarrow> sata_call list" where
  "bdf_calls i bdfs = concat (map (\<lambda>(k, bus, dev, fn). [AllocPath k, GetIospace k (int (bus * 256 + dev * 8 + fn))])
     (zip [i..<i + length bdfs] bdfs))"

definition print_bdfs :: "(nat \<times> nat \<times> nat) list \<Rightarrow> string" where
  "print_bdfs bdfs = separated (map (\<lambda>(bus, dev, fn). print_bdf bus dev fn) bdfs)"

definition library_ok :: "'c library \<Rightarrow> bool" where
  "library_ok ext \<longleftrightarrow> (\<forall>n c. ext n c = 0)"

lemma bdf_calls_Cons:
  "bdf_calls i ((bus, dev, fn) # bs) =
     AllocPath i # GetIospace i (int (bus * 256 + dev * 8 + fn)) # bdf_calls (Suc i) bs"
  by (simp add: bdf_calls_def upt_conv_Cons del: upt_Suc)

lemma print_bdfs_Cons:
  "bs \<noteq> [] \<Longrightarrow> print_bdfs ((bus, dev, fn) # bs) = print_bdf bus dev fn @ CHR '','' # print_bdfs bs"
  "print_bdfs [(bus, dev, fn)] = print_bdf bus dev fn"
  by (cases bs; simp add: print_bdfs_def)+

lemma iospace_step:
  assumes "library_ok ext" "fn < 8"
  shows "sata_iospaces ext (i # is) (print_bdf bus dev fn @ CHR '','' # rest) old l =
    sata_iospaces ext is rest (int bus, int dev, int fn) (l @ [AllocPath i, GetIospace i (int (bus * 256 + dev * 8 + fn))])"
    "sata_iospaces ext (i # is) (print_bdf bus dev fn) old l = Inl OutOfBounds"
  using assms strtok_more [of "print_bdf bus dev fn" rest] strtok_last [of "print_bdf bus dev fn"]
    print_bdf_plain [of fn bus dev] sscanf_print [OF assms(2), of bus dev old]
  by (simp_all add: library_ok_def call_zero_def answer_def pci_bdf_int_def)

lemma iospaces_ok:
  assumes "library_ok ext"
  shows "bdfs \<noteq> [] \<Longrightarrow> list_all (\<lambda>(bus, dev, fn). fn < 8) bdfs \<Longrightarrow>
    sata_iospaces ext [i..<i + length bdfs] (print_bdfs bdfs) old l = Inl OutOfBounds \<and>
    sata_iospaces ext [i..<i + length bdfs] (print_bdfs bdfs @ '','') old l = Inr (l @ bdf_calls i bdfs)"
proof (induction bdfs arbitrary: i old l)
  case (Cons b bs)
  obtain bus dev fn where b: "b = (bus, dev, fn)" by (cases b)
  have f: "fn < 8" using Cons.prems(2) b by simp
  have u: "[i..<i + length (b # bs)] = i # [Suc i..<Suc i + length bs]" by (simp add: upt_conv_Cons del: upt_Suc)
  show ?case
  proof (cases "bs = []")
    case True
    then show ?thesis
      unfolding u b using iospace_step [OF assms f] by (simp add: print_bdfs_Cons bdf_calls_Cons) (simp add: bdf_calls_def)
  next
    case False
    then show ?thesis
      unfolding u b using iospace_step(1) [OF assms f] Cons.IH [of "Suc i"] Cons.prems(2)
      by (simp add: print_bdfs_Cons bdf_calls_Cons upt_conv_Cons [of i] del: upt_Suc sata_iospaces.simps)
  qed
qed simp

text \<open>
  The list of PCI devices is read beyond its end.  Every device is translated to its routing
  identifier, in order, but the copy of the list has no terminating null character: at the last
  device the search for a separator leaves the heap block, unless the list ends with a comma.
\<close>

theorem sata_bdfs_overread:
  assumes "library_ok ext" "bdfs \<noteq> []" "list_all (\<lambda>(bus, dev, fn). fn < 8) bdfs"
  shows "sata_iospaces ext [0..<length bdfs] (print_bdfs bdfs) old l = Inl OutOfBounds \<and>
    sata_iospaces ext [0..<length bdfs] (print_bdfs bdfs @ '','') old l = Inr (l @ bdf_calls 0 bdfs)"
  using iospaces_ok [OF assms, of 0] by simp

theorem sata_bdfs_overread_witness:
  "sata_iospaces (\<lambda>n c. 0) [0..<1] (print_bdfs [(0, 31, 2)]) (0, 0, 0) [] = Inl OutOfBounds \<and> print_bdfs [(0, 31, 2)] = ''0:1f.2''"
proof -
  have "sata_iospaces (\<lambda>n c. 0) [0..<1] (print_bdfs [(0, 31, 2)]) (0, 0, 0) [] = Inl OutOfBounds"
    using sata_bdfs_overread [of "\<lambda>n c. 0" "[(0, 31, 2)]" "(0, 0, 0)" "[]"] by (simp add: library_ok_def)
  moreover have "print_bdfs [(0, 31, 2)] = ''0:1f.2''" by code_simp
  ultimately show ?thesis by blast
qed

end
