(* ===== verification/Virtio_Net.thy ===== *)
theory Virtio_Net
  imports Vmm_Prelude
begin

unbundle bit_operations_syntax

text \<open>
  Ethernet between an Ethernet driver component and its clients: the virtio network backend of the
  x86 monitor (\<^verbatim>\<open>Init/src/virtio_net.c\<close>), the component \<^verbatim>\<open>Firewall\<close> that
  can be put between a client and the driver, the network interface of \<^verbatim>\<open>UDPServer\<close>,
  the virtio network library of the ARM monitor (\<^verbatim>\<open>libvirtio/src/virtio_net.c\<close>) and
  its module that answers ARP requests.

  The driver is outside the repository.  Its receive function, in a state of type \<open>'d\<close>, returns a
  status (-1: no packet; 0: the last packet; 1: there are more), a length and the contents of the
  shared buffer.  \<open>eth_queue\<close> states this contract; clients rely on it, and the firewall provides it.
\<close>

section \<open>The driver\<close>

type_synonym 'd eth_rx = "'d \<Rightarrow> (int \<times> int \<times> u8 list \<times> 'd) res"

definition dataport_size :: nat where "dataport_size = 4096"

definition eth_queue :: "'d eth_rx \<Rightarrow> ('d \<Rightarrow> u8 list list) \<Rightarrow> ('d \<Rightarrow> bool) \<Rightarrow> bool" where
  "eth_queue rx pending good \<longleftrightarrow> (\<forall>d. good d \<longrightarrow>
     ok (rx d) (\<lambda>(status, len, buf, d'). good d' \<and> length buf = dataport_size \<and>
       (case pending d of
          [] \<Rightarrow> status = -1 \<and> pending d' = []
        | p # ps \<Rightarrow> status = (if ps = [] then 0 else 1) \<and> len = int (length p) \<and> length p \<le> dataport_size \<and>
            take (length p) buf = p \<and> pending d' = ps)))"

text \<open>\<^verbatim>\<open>memcpy\<close> of a C \<^verbatim>\<open>int\<close> many bytes between shared buffers; a negative length is huge.\<close>

definition copy_int :: "int \<Rightarrow> u8 list \<Rightarrow> u8 list \<Rightarrow> u8 list res" where
  "copy_int len src dst =
     (if 0 \<le> len \<and> nat len \<le> length src \<and> nat len \<le> length dst then Inr (take (nat len) src @ drop (nat len) dst)
      else Inl OutOfBounds)"

section \<open>Firewall\<close>

text \<open>The state is the driver's and the client's shared buffer.\<close>

definition firewall_client_rx :: "'d eth_rx \<Rightarrow> ('d \<times> u8 list) eth_rx" where
  "firewall_client_rx rx dc =
     (let (d, client_buf) = dc
      in rbind (rx d) (\<lambda>(result, len, ethdriver_buf, d).
         rbind (if result \<noteq> -1 then copy_int len ethdriver_buf client_buf else Inr client_buf) (\<lambda>client_buf.
         Inr (result, len, client_buf, (d, client_buf)))))"

definition firewall_client_tx ::
    "(u8 list \<Rightarrow> int \<Rightarrow> 'd \<Rightarrow> int \<times> 'd) \<Rightarrow> int \<Rightarrow> u8 list \<Rightarrow> u8 list \<Rightarrow> 'd \<Rightarrow> (int \<times> u8 list \<times> 'd) res" where
  "firewall_client_tx ethdriver_tx len client_buf ethdriver_buf d =
     rbind (copy_int len client_buf ethdriver_buf) (\<lambda>ethdriver_buf.
       let (r, d) = ethdriver_tx ethdriver_buf len d in Inr (r, ethdriver_buf, d))"

section \<open>The virtio backend of the x86 monitor\<close>

text \<open>
  Reception: \<open>alloc k\<close> says whether the guest has room for the \<open>k\<close>-th packet; \<open>out\<close> is what the guest
  received.  \<open>fuel\<close> bounds the packets of one notification.
\<close>

fun virtio_net_loop ::
    "nat \<Rightarrow> (nat \<Rightarrow> bool) \<Rightarrow> 'd eth_rx \<Rightarrow> nat \<Rightarrow> int \<times> int \<times> u8 list \<times> 'd \<Rightarrow> u8 list list \<Rightarrow> ('d \<times> u8 list list) res" where
  "virtio_net_loop 0 alloc rx k r out = Inl NoReturn"
| "virtio_net_loop (Suc fuel) alloc rx k r out =
     (let (status, len, ethdriver_buf, d) = r
      in if status = -1 then Inr (d, out)
         else rbind (if alloc k
                     then rbind (copy_int len ethdriver_buf (replicate (nat len) 0)) (\<lambda>emul_buf. Inr (out @ [emul_buf]))
                     else Inr out) (\<lambda>out.
              if status = 1 then rbind (rx d) (\<lambda>r. virtio_net_loop fuel alloc rx (Suc k) r out)
              else rbind (rassert (status = 0)) (\<lambda>_. Inr (d, out))))"

definition virtio_net_notify ::
    "nat \<Rightarrow> (nat \<Rightarrow> bool) \<Rightarrow> 'd eth_rx \<Rightarrow> 'd \<Rightarrow> u8 list list \<Rightarrow> ('d \<times> u8 list list) res" where
  "virtio_net_notify fuel alloc rx d out = rbind (rx d) (\<lambda>r. virtio_net_loop fuel alloc rx 0 r out)"

text \<open>Transmission: the fragments of a packet are gathered in the shared buffer.\<close>

fun gather_frags :: "u8 list list \<Rightarrow> nat \<Rightarrow> u8 list \<Rightarrow> (nat \<times> u8 list) res" where
  "gather_frags [] tot_len p = Inr (tot_len, p)"
| "gather_frags (f # fs) tot_len p =
     (if tot_len + length f \<le> length p
      then gather_frags fs (tot_len + length f) (take tot_len p @ f @ drop (tot_len + length f) p)
      else Inl OutOfBounds)"

definition emul_raw_tx ::
    "(u8 list \<Rightarrow> int \<Rightarrow> 'd \<Rightarrow> int \<times> 'd) \<Rightarrow> u8 list list \<Rightarrow> u8 list \<Rightarrow> 'd \<Rightarrow> (u8 list \<times> 'd) res" where
  "emul_raw_tx ethdriver_tx frags ethdriver_buf d =
     rbind (gather_frags frags 0 ethdriver_buf) (\<lambda>(tot_len, ethdriver_buf).
       Inr (ethdriver_buf, snd (ethdriver_tx ethdriver_buf (int tot_len) d)))"

text \<open>Set-up discards the packets that are waiting.\<close>

fun drain_packets :: "nat \<Rightarrow> 'd eth_rx \<Rightarrow> 'd \<Rightarrow> 'd res" where
  "drain_packets 0 rx d = Inl NoReturn"
| "drain_packets (Suc fuel) rx d =
     rbind (rx d) (\<lambda>(status, len, buf, d). if status \<noteq> -1 then drain_packets fuel rx d else Inr d)"

section \<open>UDP server\<close>

text \<open>The stack must have a buffer for every packet.\<close>

fun raw_poll_loop ::
    "nat \<Rightarrow> (nat \<Rightarrow> bool) \<Rightarrow> 'd eth_rx \<Rightarrow> nat \<Rightarrow> int \<times> int \<times> u8 list \<times> 'd \<Rightarrow> u8 list list \<Rightarrow> ('d \<times> u8 list list) res" where
  "raw_poll_loop 0 alloc rx k r out = Inl NoReturn"
| "raw_poll_loop (Suc fuel) alloc rx k r out =
     (let (status, len, ethdriver_buf, d) = r
      in if status = -1 then Inr (d, out)
         else rbind (rassert (alloc k)) (\<lambda>_.
              rbind (copy_int len ethdriver_buf (replicate (nat len) 0)) (\<lambda>buf.
              let out = out @ [buf]
              in if status = 1 then rbind (rx d) (\<lambda>r. raw_poll_loop fuel alloc rx (Suc k) r out)
                 else rbind (rassert (status = 0)) (\<lambda>_. Inr (d, out)))))"

definition raw_poll ::
    "nat \<Rightarrow> (nat \<Rightarrow> bool) \<Rightarrow> 'd eth_rx \<Rightarrow> 'd \<Rightarrow> u8 list list \<Rightarrow> ('d \<times> u8 list list) res" where
  "raw_poll fuel alloc rx d out = rbind (rx d) (\<lambda>r. raw_poll_loop fuel alloc rx 0 r out)"

text \<open>Transmission is repeated while the link is down; the result counts the attempts.\<close>

fun tx_retry :: "nat \<Rightarrow> (u8 list \<Rightarrow> int \<Rightarrow> 'd \<Rightarrow> int \<times> 'd) \<Rightarrow> int \<Rightarrow> u8 list \<Rightarrow> int \<Rightarrow> 'd \<Rightarrow> 'd res" where
  "tx_retry 0 ethdriver_tx ETHIF_TX_FAILED buf len d = Inl NoReturn"
| "tx_retry (Suc fuel) ethdriver_tx ETHIF_TX_FAILED buf len d =
     (let (err, d) = ethdriver_tx buf len d
      in if err = ETHIF_TX_FAILED then tx_retry fuel ethdriver_tx ETHIF_TX_FAILED buf len d else Inr d)"

definition raw_tx ::
    "nat \<Rightarrow> (u8 list \<Rightarrow> int \<Rightarrow> 'd \<Rightarrow> int \<times> 'd) \<Rightarrow> int \<Rightarrow> u8 list list \<Rightarrow> u8 list \<Rightarrow> 'd \<Rightarrow> 'd res" where
  "raw_tx fuel ethdriver_tx ETHIF_TX_FAILED frags ethdriver_buf d =
     rbind (gather_frags frags 0 ethdriver_buf) (\<lambda>(total_len, buf).
       tx_retry fuel ethdriver_tx ETHIF_TX_FAILED buf (int total_len) d)"

section \<open>The virtio library of the ARM monitor\<close>

definition MAX_MTU :: nat where "MAX_MTU = 1500 + 14"

text \<open>Every fragment is handed to the backend as a frame of its own; the result says whether all were.\<close>

fun arm_raw_tx :: "(u8 list \<Rightarrow> 's \<Rightarrow> int \<times> 's) option \<Rightarrow> u8 list list \<Rightarrow> 's \<Rightarrow> bool \<times> 's" where
  "arm_raw_tx cb [] s = (True, s)"
| "arm_raw_tx cb (f # fs) s =
     (if MAX_MTU < length f then (False, s)
      else case cb of
             None \<Rightarrow> arm_raw_tx cb fs s
           | Some tx_callback \<Rightarrow>
               let (err, s) = tx_callback f s
               in if err \<noteq> 0 then (False, s) else arm_raw_tx cb fs s)"

text \<open>A frame for the guest, dropped without an error if there is no room.\<close>

definition virtio_net_rx :: "bool \<Rightarrow> u8 list \<Rightarrow> nat \<Rightarrow> u8 list list \<Rightarrow> (int \<times> u8 list list) res" where
  "virtio_net_rx alloc data len out =
     (if \<not> alloc then Inr (0, out)
      else if len \<le> length data then Inr (0, out @ [take len data]) else Inl OutOfBounds)"

section \<open>Answers to ARP requests\<close>

definition slice :: "nat \<Rightarrow> nat \<Rightarrow> u8 list \<Rightarrow> u8 list" where
  "slice off n xs = take n (drop off xs)"

text \<open>
  A frame is an Ethernet header (destination, source, protocol) and, for ARP, the hardware and
  protocol types, their lengths, the operation and the sender's and target's addresses.
\<close>

definition frame_proto :: "u8 list \<Rightarrow> u8 list" where "frame_proto f = slice 12 2 f"
definition arp_sha :: "u8 list \<Rightarrow> u8 list" where "arp_sha f = slice 22 6 f"
definition arp_spa :: "u8 list \<Rightarrow> u8 list" where "arp_spa f = slice 28 4 f"
definition arp_tha :: "u8 list \<Rightarrow> u8 list" where "arp_tha f = slice 32 6 f"
definition arp_tpa :: "u8 list \<Rightarrow> u8 list" where "arp_tpa f = slice 38 4 f"

definition reply_mac :: "u8 list \<Rightarrow> u8 list" where
  "reply_mac sha = sha[5 := sha ! 5 + 2]"

definition arp_reply_frame :: "u8 list \<Rightarrow> u8 list" where
  "arp_reply_frame req =
     arp_sha req @ reply_mac (arp_sha req) @ [0x08, 0x06] @
     [0, 1, 0x08, 0x00, 6, 4, 0, 2] @ reply_mac (arp_sha req) @ arp_tpa req @ arp_sha req @ arp_spa req"

text \<open>
  The buffer of the frame has \<open>MAX_MTU\<close> bytes, of which \<open>length\<close> were written; the code does not
  look at \<open>length\<close>.
\<close>

definition arping_reply :: "bool \<Rightarrow> u8 list \<Rightarrow> u8 list list \<Rightarrow> (int \<times> u8 list list) res" where
  "arping_reply alloc eth_buffer out =
     (if length eth_buffer < 42 then Inl OutOfBounds
      else if frame_proto eth_buffer = [0x08, 0x06]
      then rbind (virtio_net_rx alloc (arp_reply_frame eth_buffer) 42 out) (\<lambda>(err, out).
           Inr (if err \<noteq> 0 then -1 else 0, out))
      else Inr (0, out))"

section \<open>Packets arrive through any chain of components\<close>

lemma eth_queue_ok:
  "eth_queue rx pending good \<Longrightarrow> good d \<Longrightarrow> ok (rx d) (\<lambda>(status, len, buf, d'). good d' \<and> length buf = dataport_size \<and>
       (case pending d of
          [] \<Rightarrow> status = -1 \<and> pending d' = []
        | p # ps \<Rightarrow> status = (if ps = [] then 0 else 1) \<and> len = int (length p) \<and> length p \<le> dataport_size \<and>
            take (length p) buf = p \<and> pending d' = ps))"
  by (simp add: eth_queue_def)

lemma firewall_queue:
  assumes "eth_queue rx pending good"
  shows "eth_queue (firewall_client_rx rx) (\<lambda>(d, client_buf). pending d)
    (\<lambda>(d, client_buf). good d \<and> length client_buf = dataport_size)"
  unfolding eth_queue_def
proof (intro allI impI)
  fix dc :: "_ \<times> u8 list" assume "case dc of (d, client_buf) \<Rightarrow> good d \<and> length client_buf = dataport_size"
  then obtain d cb where dc: "dc = (d, cb)" "good d" "length cb = dataport_size" by auto
  obtain st len buf d' where rx: "rx d = Inr (st, len, buf, d')" "good d'" "length buf = dataport_size"
    "case pending d of [] \<Rightarrow> st = -1 \<and> pending d' = []
        | p # ps \<Rightarrow> st = (if ps = [] then 0 else 1) \<and> len = int (length p) \<and> length p \<le> dataport_size \<and>
            take (length p) buf = p \<and> pending d' = ps"
    using eth_queue_ok [OF assms dc(2)] by (auto simp: ok_iff_ex)
  show "ok (firewall_client_rx rx dc) (\<lambda>(status, len, buf, d').
      (case d' of (d, client_buf) \<Rightarrow> good d \<and> length client_buf = dataport_size) \<and> length buf = dataport_size \<and>
      (case (case dc of (d, client_buf) \<Rightarrow> pending d) of
         [] \<Rightarrow> status = -1 \<and> (case d' of (d, client_buf) \<Rightarrow> pending d) = []
       | p # ps \<Rightarrow> status = (if ps = [] then 0 else 1) \<and> len = int (length p) \<and> length p \<le> dataport_size \<and>
           take (length p) buf = p \<and> (case d' of (d, client_buf) \<Rightarrow> pending d) = ps))"
    using rx dc by (cases "pending d") (auto simp: firewall_client_rx_def copy_int_def)
qed

text \<open>
  The firewall is transparent: towards its client it behaves as the driver does towards the
  firewall.  If the driver delivers its packets in order with the right status, so does the
  firewall, with every packet complete; neither copy overruns a shared buffer.
\<close>

theorem firewall_transparent:
  assumes "eth_queue rx pending good"
  shows "eth_queue (firewall_client_rx rx) (\<lambda>(d, client_buf). pending d)
    (\<lambda>(d, client_buf). good d \<and> length client_buf = dataport_size)"
  using assms by (rule firewall_queue)

text \<open>A driver whose state is the list of its packets.\<close>

definition sample_rx :: "u8 list list eth_rx" where
  "sample_rx d = Inr (case d of
       [] \<Rightarrow> (-1, 0, replicate dataport_size 0, [])
     | p # ps \<Rightarrow> (if ps = [] then 0 else 1, int (length p), p @ replicate (dataport_size - length p) 0, ps))"

lemma sample_rx_queue: "eth_queue sample_rx (\<lambda>d. d) (list_all (\<lambda>p. length p \<le> dataport_size))"
  by (auto simp: eth_queue_def sample_rx_def split: list.split)

theorem firewall_transparent_witness:
  "eth_queue (firewall_client_rx sample_rx) (\<lambda>(d, client_buf). d)
    (\<lambda>(d, client_buf). list_all (\<lambda>p. length p \<le> dataport_size) d \<and> length client_buf = dataport_size)"
  using firewall_transparent [OF sample_rx_queue] by simp

lemma copy_int_prefix: "0 \<le> len \<Longrightarrow> nat len \<le> length src \<Longrightarrow> copy_int len src (replicate (nat len) 0) = Inr (take (nat len) src)"
  by (simp add: copy_int_def)

lemma receive_all:
  assumes q: "eth_queue rx pending good" and g: "good d" and f: "length (pending d) < fuel"
  shows "ok (rbind (rx d) (\<lambda>r. virtio_net_loop fuel alloc rx k r out)) (\<lambda>(d', out'). good d' \<and> pending d' = [] \<and>
    out' = out @ map fst (filter (\<lambda>(p, k). alloc k) (zip (pending d) [k..<k + length (pending d)])))"
  using g f
proof (induction fuel arbitrary: d k out)
  case (Suc fuel)
  obtain st len buf d' where rx: "rx d = Inr (st, len, buf, d')" "good d'" "length buf = dataport_size"
    "case pending d of [] \<Rightarrow> st = -1 \<and> pending d' = []
        | p # ps \<Rightarrow> st = (if ps = [] then 0 else 1) \<and> len = int (length p) \<and> length p \<le> dataport_size \<and>
            take (length p) buf = p \<and> pending d' = ps"
    using eth_queue_ok [OF q Suc.prems(1)] by (auto simp: ok_iff_ex)
  show ?case
  proof (cases "pending d")
    case Nil
    then show ?thesis using rx by simp
  next
    case (Cons p ps)
    have c: "copy_int len buf (replicate (nat len) 0) = Inr p"
      using rx(3,4) Cons by (subst copy_int_prefix) auto
    have u: "[k..<k + length (pending d)] = k # [Suc k..<Suc k + length ps]" using Cons by (simp add: upt_rec)
    show ?thesis
    proof (cases "ps = []")
      case True
      then show ?thesis using rx Cons c by (simp add: rassert_def)
    next
      case False
      have "length (pending d') < fuel" using rx(4) Cons Suc.prems(2) by simp
      note IH = Suc.IH [OF rx(2) this, of "Suc k" "if alloc k then out @ [p] else out"]
      show ?thesis
        using IH rx Cons False c u by (cases "alloc k") (auto elim!: ok_mono)
    qed
  qed
qed simp



section \<open>Transmission\<close>

lemma gather_frags_ok:
  "tot_len + length (concat frags) \<le> length p \<Longrightarrow>
   gather_frags frags tot_len p = Inr (tot_len + length (concat frags),
     take tot_len p @ concat frags @ drop (tot_len + length (concat frags)) p)"
proof (induction frags arbitrary: tot_len p)
  case (Cons f fs)
  then show ?case by (simp add: ac_simps)
qed simp

lemma gather_frags_overflow:
  "tot_len \<le> length p \<Longrightarrow> length p < tot_len + length (concat frags) \<Longrightarrow> gather_frags frags tot_len p = Inl OutOfBounds"
proof (induction frags arbitrary: tot_len p)
  case (Cons f fs)
  then show ?case by (simp add: add.assoc)
qed simp

text \<open>
  A packet that fits is sent complete.  The fragments of the guest's descriptors are joined
  without a gap, and what the driver is asked to send is exactly the packet, also when the firewall
  is between the monitor and the driver; but the total length, which the guest chooses, is not
  compared with the size of the shared buffer, and a longer packet is written beyond its end.
\<close>

theorem net_transmission:
  assumes "length buf = dataport_size" "length buf2 = dataport_size"
  shows "if length (concat frags) \<le> dataport_size
    then \<exists>n b b2. n = int (length (concat frags)) \<and> emul_raw_tx tx frags buf d = Inr (b, snd (tx b n d)) \<and>
           take (length (concat frags)) b = concat frags \<and>
           firewall_client_tx tx n b buf2 d2 = Inr (fst (tx b2 n d2), b2, snd (tx b2 n d2)) \<and>
           take (length (concat frags)) b2 = concat frags
    else emul_raw_tx tx frags buf d = Inl OutOfBounds"
  using gather_frags_ok [of 0 frags buf] gather_frags_overflow [of 0 buf frags] assms
  by (auto simp: emul_raw_tx_def firewall_client_tx_def copy_int_def not_le split_beta)

theorem net_transmission_witness:
  "emul_raw_tx (\<lambda>b len d. (0, d @ [take (nat len) b])) [replicate 4000 1, replicate 97 2] (replicate dataport_size 0) [] = Inl OutOfBounds"
  using net_transmission [of "replicate dataport_size 0" "replicate dataport_size 0" "[replicate 4000 1, replicate 97 2]"
      "\<lambda>b len d. (0, d @ [take (nat len) b])" "[]" "[]"]
  by (simp add: dataport_size_def)

section \<open>The ARM library\<close>

text \<open>Without a callback that fails, the frames up to the first that is too long are handed over.\<close>

lemma arm_raw_tx_frames:
  "(\<And>f s. fst (cb f s) = 0) \<Longrightarrow>
   arm_raw_tx (Some cb) frags s =
     (list_all (\<lambda>f. length f \<le> MAX_MTU) frags, fold (\<lambda>f s. snd (cb f s)) (takeWhile (\<lambda>f. length f \<le> MAX_MTU) frags) s)"
proof (induction frags arbitrary: s)
  case (Cons f fs)
  show ?case
    using Cons.IH [OF Cons.prems] Cons.prems [of f s] by (cases "cb f s") auto
qed simp

text \<open>
  The answer to an ARP request is well formed: a frame of 42 bytes to the sender, from the
  answering station, which says in the ARP reply that the address asked for is at that station's
  hardware address, which is the sender's with 2 added to the last byte.
\<close>

theorem arp_reply_correct:
  assumes "length req = MAX_MTU" "frame_proto req = [0x08, 0x06]"
  shows "ok (arping_reply True req out) (\<lambda>(err, out'). err = 0 \<and> (\<exists>f. out' = out @ [f] \<and> length f = 42 \<and>
    slice 0 6 f = arp_sha req \<and> slice 6 6 f = arp_sha f \<and> frame_proto f = [0x08, 0x06] \<and> slice 20 2 f = [0, 2] \<and>
    arp_sha f = (arp_sha req)[5 := arp_sha req ! 5 + 2] \<and> arp_spa f = arp_tpa req \<and>
    arp_tha f = arp_sha req \<and> arp_tpa f = arp_spa req))"
proof -
  have l: "length (arp_sha req) = 6" "length (arp_spa req) = 4" "length (arp_tpa req) = 4" "length (reply_mac (arp_sha req)) = 6"
    using assms(1) by (simp_all add: arp_sha_def arp_spa_def arp_tpa_def slice_def MAX_MTU_def reply_mac_def)
  have f: "arp_sha (arp_reply_frame req) = reply_mac (arp_sha req)" "arp_spa (arp_reply_frame req) = arp_tpa req"
    "arp_tha (arp_reply_frame req) = arp_sha req" "arp_tpa (arp_reply_frame req) = arp_spa req"
    "slice 0 6 (arp_reply_frame req) = arp_sha req" "slice 6 6 (arp_reply_frame req) = reply_mac (arp_sha req)"
    "frame_proto (arp_reply_frame req) = [0x08, 0x06]" "slice 20 2 (arp_reply_frame req) = [0, 2]"
    "length (arp_reply_frame req) = 42"
    using l unfolding arp_reply_frame_def frame_proto_def slice_def
    by (simp_all add: arp_sha_def [of "_ @ _"] arp_spa_def [of "_ @ _"] arp_tha_def [of "_ @ _"] arp_tpa_def [of "_ @ _"]
        slice_def [of _ _ "_ @ _"])
  show ?thesis
    using assms f by (simp add: arping_reply_def virtio_net_rx_def MAX_MTU_def reply_mac_def)
qed


definition sample_request :: "u8 list" where
  "sample_request = [255, 255, 255, 255, 255, 255, 2, 0, 0, 0, 170, 1, 0x08, 0x06, 0, 1, 8, 0, 6, 4, 0, 1,
     2, 0, 0, 0, 170, 1, 10, 0, 0, 1, 0, 0, 0, 0, 0, 0, 10, 0, 0, 2] @ replicate (MAX_MTU - 42) 0"

theorem arp_reply_correct_witness:
  "ok (arping_reply True sample_request []) (\<lambda>(err, out). err = 0 \<and> arp_sha (hd out) = [2, 0, 0, 0, 170, 3] \<and>
     arp_spa (hd out) = [10, 0, 0, 2])"
proof -
  have r: "length sample_request = MAX_MTU" "frame_proto sample_request = [0x08, 0x06]"
    "arp_sha sample_request = [2, 0, 0, 0, 170, 1]" "arp_tpa sample_request = [10, 0, 0, 2]"
    by (simp_all add: sample_request_def frame_proto_def arp_sha_def arp_tpa_def slice_def MAX_MTU_def)
  show ?thesis
    by (rule ok_mono [OF arp_reply_correct [OF r(1,2), of "[]"]]) (auto simp: r)
qed

end
