(* ===== verification/Vswitch.thy ===== *)
theory Vswitch
  imports Virtio_Net
begin

unbundle bit_operations_syntax

text \<open>
  Guests connected through CAmkES virtqueues: the virtual switch of the x86 monitor
  (\<^verbatim>\<open>Init/src/virtio_net_vswitch.c\<close>) and of the ARM monitor
  (\<^verbatim>\<open>VM_Arm/src/modules/virtio_net_virtqueue.c\<close>), and the sockets of the x86 monitor
  (\<^verbatim>\<open>Init/src/virtio_vsock.c\<close>).  The virtqueue library and the switch library are
  outside the repository: their functions are the records \<open>vq_lib\<close> and \<open>switch_lib\<close>, and what
  their documentation promises is \<open>vq_laws\<close> and \<open>switch_laws\<close>.
\<close>

section \<open>The libraries\<close>

text \<open>
  A queue is seen from both ends.  The sender offers a frame, and frees buffers that were used up;
  the receiver takes the next available chain, asks for its size and copies it.  Either end can be
  polled.
\<close>

record ('q, 'h, 'b) vq_lib =
  vq_send :: "u8 list \<Rightarrow> 'q \<Rightarrow> int \<times> 'q"
  vq_dev_poll :: "'q \<Rightarrow> bool"
  vq_available :: "'q \<Rightarrow> ('h \<times> 'q) option"
  vq_available_size :: "'h \<Rightarrow> 'q \<Rightarrow> nat"
  vq_gather_copy :: "'h \<Rightarrow> nat \<Rightarrow> 'q \<Rightarrow> u8 list option \<times> 'q"
  vq_drv_poll :: "'q \<Rightarrow> bool"
  vq_used :: "'q \<Rightarrow> ('h \<times> 'q) option"
  vq_gather :: "'h \<Rightarrow> 'q \<Rightarrow> ('b \<times> 'h) option"
  vq_free :: "'b \<Rightarrow> 'q \<Rightarrow> 'q"

text \<open>
  The contract.  \<open>pending q\<close> are the frames that were sent and not yet taken: taking one removes the
  first, and copying it gives the whole frame.  \<open>waste q\<close> bounds the buffers that are used up but not
  yet freed, \<open>links h q\<close> those in one chain.
\<close>

definition vq_laws ::
    "('q, 'h, 'b) vq_lib \<Rightarrow> ('q \<Rightarrow> u8 list list) \<Rightarrow> ('q \<Rightarrow> nat) \<Rightarrow> ('h \<Rightarrow> 'q \<Rightarrow> nat) \<Rightarrow> ('q \<Rightarrow> bool) \<Rightarrow> bool" where
  "vq_laws L pending waste links good \<longleftrightarrow>
     (\<forall>q f. good q \<longrightarrow> (let (err, q') = vq_send L f q in good q' \<and>
        pending q' = (if 0 \<le> err then pending q @ [f] else pending q))) \<and>
     (\<forall>q. good q \<longrightarrow> (vq_dev_poll L q \<longleftrightarrow> pending q \<noteq> [])) \<and>
     (\<forall>q. good q \<longrightarrow> (case vq_available L q of
        None \<Rightarrow> pending q = []
      | Some (h, q') \<Rightarrow> good q' \<and> (\<exists>p. pending q = p # pending q' \<and> vq_available_size L h q' = length p \<and>
          (let (r, q'') = vq_gather_copy L h (length p) q' in r = Some p \<and> good q'' \<and> pending q'' = pending q')))) \<and>
     (\<forall>q. good q \<longrightarrow> (case vq_used L q of
        None \<Rightarrow> True
      | Some (h, q') \<Rightarrow> good q' \<and> pending q' = pending q \<and> links h q' + waste q' < waste q)) \<and>
     (\<forall>h q. good q \<longrightarrow> (case vq_gather L h q of
        None \<Rightarrow> True
      | Some (b, h') \<Rightarrow> (let q' = vq_free L b q in
          good q' \<and> pending q' = pending q \<and> waste q' \<le> waste q \<and> links h' q' < links h q)))"

record switch_lib =
  sw_connected :: nat
  sw_node_by_index :: "nat \<Rightarrow> nat option"
  sw_index_by_mac :: "u8 list \<Rightarrow> int"
  sw_multicast :: "u8 list \<Rightarrow> bool"

text \<open>A switch whose nodes have the given addresses, without holes.\<close>

definition switch_laws :: "switch_lib \<Rightarrow> u8 list list \<Rightarrow> bool" where
  "switch_laws S macs \<longleftrightarrow> sw_connected S = length macs \<and> distinct macs \<and>
     (\<forall>j. sw_node_by_index S j = (if j < length macs then Some j else None)) \<and>
     (\<forall>m. m \<notin> set macs \<longrightarrow> sw_index_by_mac S m < 0) \<and>
     (\<forall>j < length macs. sw_index_by_mac S (macs ! j) = int j)"

section \<open>State\<close>

text \<open>
  A node of the switch holds the ends of two queues, or null pointers.  A monitor has its nodes; it
  notifies the peers behind its queues, and hands frames to its guest.
\<close>

record 'q vnode =
  nd_send :: "'q option"
  nd_recv :: "'q option"

datatype queue_end = SendEnd nat | RecvEnd nat

record 'q vmm_net =
  net_nodes :: "'q vnode list"
  net_notes :: "queue_end list"
  net_guest :: "u8 list list"

definition set_send :: "nat \<Rightarrow> 'q \<Rightarrow> 'q vmm_net \<Rightarrow> 'q vmm_net" where
  "set_send n q s = s\<lparr>net_nodes := (net_nodes s)[n := (net_nodes s ! n)\<lparr>nd_send := Some q\<rparr>]\<rparr>"

definition set_recv :: "nat \<Rightarrow> 'q \<Rightarrow> 'q vmm_net \<Rightarrow> 'q vmm_net" where
  "set_recv n q s = s\<lparr>net_nodes := (net_nodes s)[n := (net_nodes s ! n)\<lparr>nd_recv := Some q\<rparr>]\<rparr>"

definition notify :: "queue_end \<Rightarrow> 'q vmm_net \<Rightarrow> 'q vmm_net" where
  "notify e s = s\<lparr>net_notes := net_notes s @ [e]\<rparr>"

section \<open>Sending through the switch of the x86 monitor\<close>

definition dest_mac :: "u8 list \<Rightarrow> u8 list" where
  "dest_mac frame = take 6 frame"

text \<open>The loop over the destinations; an error ends the transmission, of this frame and of those after it.\<close>

fun send_to_nodes ::
    "('q, 'h, 'b) vq_lib \<Rightarrow> switch_lib \<Rightarrow> nat list \<Rightarrow> u8 list \<Rightarrow> 'q vmm_net \<Rightarrow> (bool \<times> 'q vmm_net) res" where
  "send_to_nodes L S [] frame s = Inr (True, s)"
| "send_to_nodes L S (j # js) frame s =
     (case sw_node_by_index S j of
        None \<Rightarrow> send_to_nodes L S js frame s
      | Some n \<Rightarrow>
          rbind (aget (net_nodes s) n) (\<lambda>destnode.
          rbind (deref (nd_send destnode)) (\<lambda>q.
            let (err, q) = vq_send L frame q;
                s = set_send n q s
            in if err < 0 then Inr (False, s) else send_to_nodes L S js frame (notify (SendEnd n) s))))"

definition vswitch_destinations :: "switch_lib \<Rightarrow> u8 list \<Rightarrow> nat list option" where
  "vswitch_destinations S frame =
     (let destaddr = dest_mac frame
      in if sw_multicast S destaddr then Some [0..<sw_connected S]
         else let destnode_start_idx = sw_index_by_mac S destaddr
              in if destnode_start_idx < 0 then None else Some [nat destnode_start_idx])"

fun vswitch_raw_tx ::
    "('q, 'h, 'b) vq_lib \<Rightarrow> switch_lib \<Rightarrow> u8 list list \<Rightarrow> 'q vmm_net \<Rightarrow> 'q vmm_net res" where
  "vswitch_raw_tx L S [] s = Inr s"
| "vswitch_raw_tx L S (f # fs) s =
     (case vswitch_destinations S f of
        None \<Rightarrow> Inr s
      | Some js \<Rightarrow>
          rbind (send_to_nodes L S js f s) (\<lambda>(more, s). if more then vswitch_raw_tx L S fs s else Inr s))"

section \<open>Sending through the switch of the ARM monitor\<close>

text \<open>Every frame goes to every node; a node that refuses it is passed over.\<close>

fun forward_to_nodes ::
    "('q, 'h, 'b) vq_lib \<Rightarrow> switch_lib \<Rightarrow> nat list \<Rightarrow> u8 list \<Rightarrow> 'q vmm_net \<Rightarrow> 'q vmm_net res" where
  "forward_to_nodes L S [] frame s = Inr s"
| "forward_to_nodes L S (i # is) frame s =
     (case sw_node_by_index S i of
        None \<Rightarrow> forward_to_nodes L S is frame s
      | Some n \<Rightarrow>
          rbind (aget (net_nodes s) n) (\<lambda>destnode.
          rbind (deref (nd_send destnode)) (\<lambda>q.
            let (err, q) = vq_send L frame q;
                s = set_send n q s
            in forward_to_nodes L S is frame (if err < 0 then s else notify (SendEnd n) s))))"

definition tx_virtqueue_forward ::
    "('q, 'h, 'b) vq_lib \<Rightarrow> switch_lib \<Rightarrow> u8 list \<Rightarrow> 'q vmm_net \<Rightarrow> (int \<times> 'q vmm_net) res" where
  "tx_virtqueue_forward L S eth_buffer s =
     rbind (forward_to_nodes L S [0..<sw_connected S] eth_buffer s) (\<lambda>s. Inr (0, s))"

section \<open>Receiving\<close>

text \<open>
  On x86 the frame is copied to memory of the guest's ring; without it the loop ends, although the
  frame has been taken from the queue.  \<open>alloc k\<close>: there is room for the \<open>k\<close>-th frame.  The result
  has the queue, what the guest got, and how often the peer was notified.
\<close>

type_synonym 'q received = "'q \<times> u8 list list \<times> nat"

fun vswitch_recv_loop ::
    "nat \<Rightarrow> ('q, 'h, 'b) vq_lib \<Rightarrow> (nat \<Rightarrow> bool) \<Rightarrow> nat \<Rightarrow> 'q \<Rightarrow> u8 list list \<Rightarrow> ('q \<times> u8 list list) res" where
  "vswitch_recv_loop 0 L alloc k q out = Inl NoReturn"
| "vswitch_recv_loop (Suc fuel) L alloc k q out =
     (case vq_available L q of
        None \<Rightarrow> Inr (q, out)
      | Some (h, q) \<Rightarrow>
          let len = vq_available_size L h q
          in if \<not> alloc k then Inr (q, out)
             else case vq_gather_copy L h len q of
                    (None, q) \<Rightarrow> Inr (q, out)
                  | (Some emul_buf, q) \<Rightarrow> vswitch_recv_loop fuel L alloc (Suc k) q (out @ [emul_buf]))"

text \<open>The monitor first reads its own address; a malformed one, \<open>\<not> mac_ok\<close>, is fatal.\<close>

definition virtio_net_notify_vswitch_recv ::
    "nat \<Rightarrow> ('q, 'h, 'b) vq_lib \<Rightarrow> bool \<Rightarrow> (nat \<Rightarrow> bool) \<Rightarrow> 'q \<Rightarrow> u8 list list \<Rightarrow> 'q received res" where
  "virtio_net_notify_vswitch_recv fuel L mac_ok alloc q out =
     (if \<not> mac_ok then Inl LogFatal
      else rbind (vswitch_recv_loop fuel L alloc 0 q out) (\<lambda>(q, out). Inr (q, out, 1)))"

text \<open>On ARM it is copied to a buffer of \<open>MAX_MTU\<close> bytes, without a check of its size, and then handed to the guest.\<close>

fun arm_recv_loop ::
    "nat \<Rightarrow> ('q, 'h, 'b) vq_lib \<Rightarrow> (nat \<Rightarrow> bool) \<Rightarrow> nat \<Rightarrow> 'q received \<Rightarrow> 'q received res" where
  "arm_recv_loop 0 L alloc k r = Inl NoReturn"
| "arm_recv_loop (Suc fuel) L alloc k r =
     (let (q, out, notes) = r
      in case vq_available L q of
        None \<Rightarrow> Inr (q, out, notes)
      | Some (h, q) \<Rightarrow>
          let len = vq_available_size L h q
          in if MAX_MTU < len then Inl OutOfBounds
             else case vq_gather_copy L h len q of
                    (None, q) \<Rightarrow> arm_recv_loop fuel L alloc (Suc k) (q, out, notes)
                  | (Some emul_buf, q) \<Rightarrow>
                      rbind (virtio_net_rx (alloc k) emul_buf len out) (\<lambda>(err, out).
                      arm_recv_loop fuel L alloc (Suc k) (q, out, Suc notes)))"

definition virtio_net_notify_recv ::
    "nat \<Rightarrow> ('q, 'h, 'b) vq_lib \<Rightarrow> (nat \<Rightarrow> bool) \<Rightarrow> 'q \<Rightarrow> u8 list list \<Rightarrow> 'q received res" where
  "virtio_net_notify_recv fuel L alloc q out = arm_recv_loop fuel L alloc 0 (q, out, 0)"

text \<open>Sockets copy it to a static buffer, of \<open>mtu\<close> bytes, in the same way.\<close>

fun vsock_recv_loop :: "nat \<Rightarrow> ('q, 'h, 'b) vq_lib \<Rightarrow> nat \<Rightarrow> 'q received \<Rightarrow> 'q received res" where
  "vsock_recv_loop 0 L mtu r = Inl NoReturn"
| "vsock_recv_loop (Suc fuel) L mtu r =
     (let (q, out, notes) = r
      in case vq_available L q of
        None \<Rightarrow> Inr (q, out, notes)
      | Some (h, q) \<Rightarrow>
          let len = vq_available_size L h q
          in if mtu < len then Inl OutOfBounds
             else case vq_gather_copy L h len q of
                    (None, q) \<Rightarrow> vsock_recv_loop fuel L mtu (q, out, notes)
                  | (Some temp_buf, q) \<Rightarrow> vsock_recv_loop fuel L mtu (q, out @ [take len temp_buf], Suc notes))"

definition virtio_vsock_notify_recv ::
    "nat \<Rightarrow> ('q, 'h, 'b) vq_lib \<Rightarrow> nat \<Rightarrow> 'q \<Rightarrow> u8 list list \<Rightarrow> 'q received res" where
  "virtio_vsock_notify_recv fuel L mtu q out = vsock_recv_loop fuel L mtu (q, out, 0)"

section \<open>Freeing what was sent\<close>

text \<open>The buffers of a chain, then the chains; the three back ends do the same.\<close>

fun free_chain :: "nat \<Rightarrow> ('q, 'h, 'b) vq_lib \<Rightarrow> 'h \<Rightarrow> 'q \<Rightarrow> 'q res" where
  "free_chain 0 L h q = Inl NoReturn"
| "free_chain (Suc fuel) L h q =
     (case vq_gather L h q of
        None \<Rightarrow> Inr q
      | Some (buf, h) \<Rightarrow> free_chain fuel L h (vq_free L buf q))"

fun virtio_net_notify_free_send :: "nat \<Rightarrow> ('q, 'h, 'b) vq_lib \<Rightarrow> 'q \<Rightarrow> 'q res" where
  "virtio_net_notify_free_send 0 L q = Inl NoReturn"
| "virtio_net_notify_free_send (Suc fuel) L q =
     (case vq_used L q of
        None \<Rightarrow> Inr q
      | Some (h, q) \<Rightarrow> rbind (free_chain fuel L h q) (virtio_net_notify_free_send fuel L))"

section \<open>Notifications of a monitor\<close>

text \<open>For one node: what a queue that is there and has something gets done.\<close>

definition poll_send :: "nat \<Rightarrow> ('q, 'h, 'b) vq_lib \<Rightarrow> nat \<Rightarrow> 'q vmm_net \<Rightarrow> 'q vmm_net res" where
  "poll_send fuel L i s =
     rbind (aget (net_nodes s) i) (\<lambda>node.
       case nd_send node of
         None \<Rightarrow> Inr s
       | Some q \<Rightarrow> if vq_drv_poll L q
                   then rbind (virtio_net_notify_free_send fuel L q) (\<lambda>q. Inr (set_send i q s)) else Inr s)"

definition poll_recv ::
    "('q, 'h, 'b) vq_lib \<Rightarrow> ('q \<Rightarrow> u8 list list \<Rightarrow> 'q received res) \<Rightarrow> nat \<Rightarrow> 'q vmm_net \<Rightarrow> 'q vmm_net res" where
  "poll_recv L recv i s =
     rbind (aget (net_nodes s) i) (\<lambda>node.
       case nd_recv node of
         None \<Rightarrow> Inr s
       | Some q \<Rightarrow> if vq_dev_poll L q
                   then rbind (recv q (net_guest s)) (\<lambda>(q, out, notes).
                        Inr (((notify (RecvEnd i) ^^ notes) (set_recv i q s))\<lparr>net_guest := out\<rparr>)) else Inr s)"

definition virtio_net_notify_vswitch ::
    "nat \<Rightarrow> ('q, 'h, 'b) vq_lib \<Rightarrow> bool \<Rightarrow> (nat \<Rightarrow> nat \<Rightarrow> bool) \<Rightarrow> 'q vmm_net \<Rightarrow> 'q vmm_net res" where
  "virtio_net_notify_vswitch fuel L mac_ok alloc s =
     run_ops (\<lambda>i s. rbind (poll_send fuel L i s)
       (poll_recv L (virtio_net_notify_vswitch_recv fuel L mac_ok (alloc i)) i)) [0..<length (net_nodes s)] s"

definition arm_virtio_net_notify ::
    "nat \<Rightarrow> ('q, 'h, 'b) vq_lib \<Rightarrow> (nat \<Rightarrow> nat \<Rightarrow> bool) \<Rightarrow> 'q vmm_net \<Rightarrow> (int \<times> 'q vmm_net) res" where
  "arm_virtio_net_notify fuel L alloc s =
     rbind (run_ops (\<lambda>i s. rbind (poll_recv L (virtio_net_notify_recv fuel L (alloc i)) i s) (poll_send fuel L i))
       [0..<length (net_nodes s)] s) (\<lambda>s. Inr (0, s))"

text \<open>The connections of the socket device are nodes as well, see below; it has no switch.\<close>

definition handle_vsock_irq :: "nat \<Rightarrow> ('q, 'h, 'b) vq_lib \<Rightarrow> nat \<Rightarrow> 'q vmm_net \<Rightarrow> 'q vmm_net res" where
  "handle_vsock_irq fuel L mtu s =
     run_ops (\<lambda>i s. rbind (poll_recv L (virtio_vsock_notify_recv fuel L mtu) i s) (poll_send fuel L i))
       [0..<length (net_nodes s)] s"

section \<open>Sockets\<close>

text \<open>The context identifiers of the connections; one that was not set up has 0, and null queues.\<close>

definition unset_node :: "'q vnode" where
  "unset_node = \<lparr>nd_send = None, nd_recv = None\<rparr>"

text \<open>The first connection with the context gets the data; the result of the queue is ignored.\<close>

fun tx_forward_from ::
    "('q, 'h, 'b) vq_lib \<Rightarrow> nat \<Rightarrow> int list \<Rightarrow> int \<Rightarrow> u8 list \<Rightarrow> 'q vmm_net \<Rightarrow> 'q vmm_net res" where
  "tx_forward_from L i [] cid buffer s = Inr s"
| "tx_forward_from L i (c # cids) cid buffer s =
     (if c = cid
      then rbind (aget (net_nodes s) i) (\<lambda>conn.
           rbind (deref (nd_send conn)) (\<lambda>q.
             Inr (notify (SendEnd i) (set_send i (snd (vq_send L buffer q)) s))))
      else tx_forward_from L (Suc i) cids cid buffer s)"

definition tx_forward :: "('q, 'h, 'b) vq_lib \<Rightarrow> int list \<Rightarrow> int \<Rightarrow> u8 list \<Rightarrow> 'q vmm_net \<Rightarrow> 'q vmm_net res" where
  "tx_forward L cids cid buffer s = tx_forward_from L 0 cids cid buffer s"

text \<open>
  Set-up: \<open>alloc i\<close>: memory for both queues of port \<open>i\<close>; \<open>send i\<close> and \<open>recv i\<close>: its queues, if the
  library could initialise them.  The first failure leaves the remaining connections unset.
\<close>

fun make_virtio_vsock_virtqueues ::
    "(nat \<Rightarrow> bool) \<Rightarrow> (nat \<Rightarrow> 'q option) \<Rightarrow> (nat \<Rightarrow> 'q option) \<Rightarrow> nat \<Rightarrow> int list \<Rightarrow> (int \<times> 'q vnode) list" where
  "make_virtio_vsock_virtqueues alloc send recv i [] = []"
| "make_virtio_vsock_virtqueues alloc send recv i (cid # cids) =
     (if alloc i \<and> send i \<noteq> None \<and> recv i \<noteq> None
      then (cid, \<lparr>nd_send = send i, nd_recv = recv i\<rparr>) # make_virtio_vsock_virtqueues alloc send recv (Suc i) cids
      else replicate (Suc (length cids)) (0, unset_node))"

section \<open>Set-up of the switches\<close>

text \<open>
  An entry of the configured layout.  \<open>mac_of\<close> is what the parsed address holds after
  \<^verbatim>\<open>ether_aton_r\<close>, whose failure is not noticed; \<open>connect\<close> is the library's function.
\<close>

record vswitch_mapping =
  mac_addr :: string
  send_id :: int
  recv_id :: int

fun make_vswitch_nodes ::
    "(nat \<Rightarrow> bool) \<Rightarrow> (int \<Rightarrow> int) \<Rightarrow> (int \<Rightarrow> int) \<Rightarrow> (string \<Rightarrow> u8 list) \<Rightarrow> (u8 list \<Rightarrow> int \<Rightarrow> int \<Rightarrow> 'g \<Rightarrow> int \<times> 'g) \<Rightarrow>
     nat \<Rightarrow> vswitch_mapping list \<Rightarrow> 'g \<Rightarrow> 'g" where
  "make_vswitch_nodes alloc driver_init device_init mac_of connect i [] g = g"
| "make_vswitch_nodes alloc driver_init device_init mac_of connect i (m # ms) g =
     (if \<not> alloc i then g
      else if driver_init (send_id m) < 0 \<or> device_init (recv_id m) \<noteq> 0 then g
      else make_vswitch_nodes alloc driver_init device_init mac_of connect (Suc i) ms
             (snd (connect (mac_of (mac_addr m)) (send_id m) (recv_id m) g)))"

definition make_vswitch_net ::
    "int \<Rightarrow> (nat \<Rightarrow> bool) \<Rightarrow> (int \<Rightarrow> int) \<Rightarrow> (int \<Rightarrow> int) \<Rightarrow> (string \<Rightarrow> u8 list) \<Rightarrow>
     (u8 list \<Rightarrow> int \<Rightarrow> int \<Rightarrow> 'g \<Rightarrow> int \<times> 'g) \<Rightarrow> vswitch_mapping list \<Rightarrow> 'g \<Rightarrow> 'g" where
  "make_vswitch_net err alloc driver_init device_init mac_of connect vswitch_layout g =
     (if err \<noteq> 0 then g else make_vswitch_nodes alloc driver_init device_init mac_of connect 0 vswitch_layout g)"

text \<open>
  On ARM every failure is fatal.  The two channels of a node get a handler each; \<open>register\<close> is the
  result of the monitor's \<^verbatim>\<open>register_async_event_handler\<close> for the \<open>k\<close>-th of them.
\<close>

fun arm_make_nodes ::
    "(nat \<Rightarrow> bool) \<Rightarrow> (int \<Rightarrow> int \<times> nat) \<Rightarrow> (int \<Rightarrow> int \<times> nat) \<Rightarrow> (nat \<Rightarrow> int) \<Rightarrow> (string \<Rightarrow> u8 list) \<Rightarrow>
     (u8 list \<Rightarrow> int \<Rightarrow> int \<Rightarrow> 'g \<Rightarrow> int \<times> 'g) \<Rightarrow> nat \<Rightarrow> vswitch_mapping list \<Rightarrow> 'g \<times> nat list \<Rightarrow> ('g \<times> nat list) res" where
  "arm_make_nodes alloc driver_init device_init register mac_of connect i [] s = Inr s"
| "arm_make_nodes alloc driver_init device_init register mac_of connect i (m # ms) s =
     (let (g, handlers) = s
      in if \<not> alloc i then Inl LogFatal
         else let (err, recv_badge) = device_init (recv_id m)
              in if err \<noteq> 0 \<or> register (length handlers) \<noteq> 0 then Inl LogFatal
         else let handlers = handlers @ [recv_badge]; (err, send_badge) = driver_init (send_id m)
              in if err \<noteq> 0 \<or> register (length handlers) \<noteq> 0 then Inl LogFatal
         else let handlers = handlers @ [send_badge]; (err, g) = connect (mac_of (mac_addr m)) (send_id m) (recv_id m) g
              in if err \<noteq> 0 then Inl LogFatal
         else arm_make_nodes alloc driver_init device_init register mac_of connect (Suc i) ms (g, handlers))"

definition make_virtqueue_virtio_net ::
    "int \<Rightarrow> (nat \<Rightarrow> bool) \<Rightarrow> (int \<Rightarrow> int \<times> nat) \<Rightarrow> (int \<Rightarrow> int \<times> nat) \<Rightarrow> (nat \<Rightarrow> int) \<Rightarrow> (string \<Rightarrow> u8 list) \<Rightarrow>
     (u8 list \<Rightarrow> int \<Rightarrow> int \<Rightarrow> 'g \<Rightarrow> int \<times> 'g) \<Rightarrow> vswitch_mapping list \<Rightarrow> 'g \<Rightarrow> ('g \<times> nat list) res" where
  "make_virtqueue_virtio_net err alloc driver_init device_init register mac_of connect vswitch_layout g =
     (if err \<noteq> 0 then Inl LogFatal
      else arm_make_nodes alloc driver_init device_init register mac_of connect 0 vswitch_layout (g, []))"

section \<open>What the library promises\<close>

lemma vq_send_cases:
  assumes "vq_laws L pending waste links good" "good q"
  obtains err q' where "vq_send L f q = (err, q')" "good q'"
    "pending q' = (if 0 \<le> err then pending q @ [f] else pending q)"
proof -
  have "let (err, q') = vq_send L f q in good q' \<and> pending q' = (if 0 \<le> err then pending q @ [f] else pending q)"
    using assms unfolding vq_laws_def by blast
  then show thesis using that by (cases "vq_send L f q") (simp add: Let_def)
qed

lemma vq_dev_poll_iff: "vq_laws L pending waste links good \<Longrightarrow> good q \<Longrightarrow> vq_dev_poll L q \<longleftrightarrow> pending q \<noteq> []"
  by (simp add: vq_laws_def)

lemma vq_available_cases:
  assumes "vq_laws L pending waste links good" "good q"
  obtains (none) "vq_available L q = None" "pending q = []"
  | (frame) h q' p q'' where "vq_available L q = Some (h, q')" "good q'" "pending q = p # pending q'"
      "vq_available_size L h q' = length p" "vq_gather_copy L h (length p) q' = (Some p, q'')" "good q''"
      "pending q'' = pending q'"
proof -
  have "case vq_available L q of
        None \<Rightarrow> pending q = []
      | Some (h, q') \<Rightarrow> good q' \<and> (\<exists>p. pending q = p # pending q' \<and> vq_available_size L h q' = length p \<and>
          (let (r, q'') = vq_gather_copy L h (length p) q' in r = Some p \<and> good q'' \<and> pending q'' = pending q'))"
    using assms unfolding vq_laws_def by blast
  then show thesis
    using none frame [of "fst (the (vq_available L q))" "snd (the (vq_available L q))"]
    by (cases "vq_available L q"; cases "vq_gather_copy L (fst (the (vq_available L q))) (length (hd (pending q))) (snd (the (vq_available L q)))")
      (auto simp: Let_def)
qed

lemma vq_used_cases:
  assumes "vq_laws L pending waste links good" "good q"
  obtains (empty) "vq_used L q = None"
  | (chain) h q' where "vq_used L q = Some (h, q')" "good q'" "pending q' = pending q" "links h q' + waste q' < waste q"
proof -
  have "case vq_used L q of None \<Rightarrow> True
      | Some (h, q') \<Rightarrow> good q' \<and> pending q' = pending q \<and> links h q' + waste q' < waste q"
    using assms unfolding vq_laws_def by blast
  then show thesis using empty chain by (cases "vq_used L q") auto
qed

lemma vq_gather_cases:
  assumes "vq_laws L pending waste links good" "good q"
  obtains (empty) "vq_gather L h q = None"
  | (buffer) b h' where "vq_gather L h q = Some (b, h')" "good (vq_free L b q)" "pending (vq_free L b q) = pending q"
      "waste (vq_free L b q) \<le> waste q" "links h' (vq_free L b q) < links h q"
proof -
  have "case vq_gather L h q of None \<Rightarrow> True
      | Some (b, h') \<Rightarrow> (let q' = vq_free L b q in
          good q' \<and> pending q' = pending q \<and> waste q' \<le> waste q \<and> links h' q' < links h q)"
    using assms unfolding vq_laws_def by blast
  then show thesis using empty buffer by (cases "vq_gather L h q") (auto simp: Let_def)
qed

section \<open>Freeing ends\<close>

lemma free_chain_ok:
  assumes "vq_laws L pending waste links good"
  shows "good q \<Longrightarrow> links h q < fuel \<Longrightarrow>
    ok (free_chain fuel L h q) (\<lambda>q'. good q' \<and> pending q' = pending q \<and> waste q' \<le> waste q)"
proof (induction fuel arbitrary: h q)
  case (Suc fuel)
  from assms Suc.prems(1) show ?case
  proof (cases rule: vq_gather_cases [where h = h])
    case empty
    then show ?thesis using Suc.prems by simp
  next
    case (buffer b h')
    have "links h' (vq_free L b q) < fuel" using buffer(5) Suc.prems(2) by simp
    from Suc.IH [OF buffer(2) this] show ?thesis using buffer by (auto elim!: ok_mono)
  qed
qed simp

lemma free_send_ok:
  assumes "vq_laws L pending waste links good"
  shows "good q \<Longrightarrow> waste q < fuel \<Longrightarrow>
    ok (virtio_net_notify_free_send fuel L q) (\<lambda>q'. good q' \<and> pending q' = pending q \<and> waste q' \<le> waste q \<and> vq_used L q' = None)"
proof (induction fuel arbitrary: q)
  case (Suc fuel)
  from assms Suc.prems(1) show ?case
  proof (cases rule: vq_used_cases)
    case empty
    then show ?thesis using Suc.prems by simp
  next
    case (chain h q')
    have f: "links h q' < fuel" "waste q' < fuel" using chain(4) Suc.prems(2) by simp_all
    have "ok (virtio_net_notify_free_send fuel L r)
        (\<lambda>q''. good q'' \<and> pending q'' = pending q \<and> waste q'' \<le> waste q \<and> vq_used L q'' = None)"
      if "good r" "pending r = pending q'" "waste r \<le> waste q'" for r
      using Suc.IH [of r] that f chain by (auto elim!: ok_mono)
    then show ?thesis
      using ok_mono [OF free_chain_ok [OF assms chain(2) f(1)]] chain(1) by simp
  qed
qed simp

section \<open>The contract of a receiver\<close>

text \<open>
  A receiver takes every frame that is pending, if all are of a size it copes with, and hands them
  to its guest complete and in order.
\<close>

datatype link_event = LinkSend "u8 list" | LinkReceive | LinkFree

text \<open>A link: its queue, the frames the sender got accepted, and the frames the guest received.\<close>

definition link_step ::
    "('q, 'h, 'b) vq_lib \<Rightarrow> ('q \<Rightarrow> u8 list list \<Rightarrow> 'q received res) \<Rightarrow> nat \<Rightarrow> link_event \<Rightarrow>
     'q \<times> u8 list list \<times> u8 list list \<Rightarrow> ('q \<times> u8 list list \<times> u8 list list) res" where
  "link_step L recv fuel ev st = (let (q, accepted, delivered) = st in
     case ev of
       LinkSend f \<Rightarrow> (let (err, q) = vq_send L f q in Inr (q, if err < 0 then accepted else accepted @ [f], delivered))
     | LinkReceive \<Rightarrow> rbind (recv q delivered) (\<lambda>(q, delivered, notes). Inr (q, accepted, delivered))
     | LinkFree \<Rightarrow> rbind (virtio_net_notify_free_send fuel L q) (\<lambda>q. Inr (q, accepted, delivered)))"

locale frame_receiver =
  fixes recv :: "nat \<Rightarrow> ('q, 'h, 'b) vq_lib \<Rightarrow> 'q \<Rightarrow> u8 list list \<Rightarrow> 'q received res"
    and fits :: "u8 list \<Rightarrow> bool"
  assumes recv_ok: "vq_laws L pending waste links good \<Longrightarrow> good q \<Longrightarrow> list_all fits (pending q) \<Longrightarrow>
      length (pending q) < fuel \<Longrightarrow>
      ok (recv fuel L q out) (\<lambda>(q', out', notes). good q' \<and> pending q' = [] \<and> out' = out @ pending q)"
begin

lemma link_ok:
  assumes laws: "vq_laws L pending waste links good" and w: "\<And>q. good q \<Longrightarrow> waste q < fuel"
    and c: "\<And>q. good q \<Longrightarrow> length (pending q) < fuel"
  shows "good q \<Longrightarrow> accepted = delivered @ pending q \<Longrightarrow> list_all fits (pending q) \<Longrightarrow>
    list_all (\<lambda>ev. case ev of LinkSend f \<Rightarrow> fits f | _ \<Rightarrow> True) evs \<Longrightarrow>
    ok (run_ops (link_step L (recv fuel L) fuel) evs (q, accepted, delivered))
      (\<lambda>(q', acc, del). good q' \<and> acc = del @ pending q' \<and> list_all fits (pending q') \<and>
         (evs \<noteq> [] \<and> last evs = LinkReceive \<longrightarrow> pending q' = []))"
proof (induction evs arbitrary: q accepted delivered)
  case (Cons ev evs)
  have step: "ok (link_step L (recv fuel L) fuel ev (q, accepted, delivered))
    (\<lambda>(q', acc, del). good q' \<and> acc = del @ pending q' \<and> list_all fits (pending q') \<and> (ev = LinkReceive \<longrightarrow> pending q' = []))"
  proof (cases ev)
    case (LinkSend f)
    obtain err q' where "vq_send L f q = (err, q')" "good q'" "pending q' = (if 0 \<le> err then pending q @ [f] else pending q)"
      using vq_send_cases [OF laws Cons.prems(1)] .
    then show ?thesis using Cons.prems LinkSend by (simp add: link_step_def)
  next
    case LinkReceive
    show ?thesis
      using ok_mono [OF recv_ok [OF laws Cons.prems(1) _ c [OF Cons.prems(1)], of delivered]] Cons.prems LinkReceive
      by (auto simp: link_step_def elim!: ok_mono)
  next
    case LinkFree
    show ?thesis
      using ok_mono [OF free_send_ok [OF laws Cons.prems(1) w [OF Cons.prems(1)]]] Cons.prems LinkFree
      by (auto simp: link_step_def elim!: ok_mono)
  qed
  have rest: "list_all (\<lambda>ev. case ev of LinkSend f \<Rightarrow> fits f | _ \<Rightarrow> True) evs" using Cons.prems by simp
  show ?case
    using ok_mono [OF step] Cons.IH [OF _ _ _ rest] by (cases "evs = []") (auto elim!: ok_mono)
qed simp

end

section \<open>The three receivers\<close>

lemma vswitch_recv_loop_ok:
  assumes "vq_laws L pending waste links good"
  shows "good q \<Longrightarrow> length (pending q) < fuel \<Longrightarrow> (\<And>i. i < length (pending q) \<Longrightarrow> alloc (k + i)) \<Longrightarrow>
    ok (vswitch_recv_loop fuel L alloc k q out) (\<lambda>(q', out'). good q' \<and> pending q' = [] \<and> out' = out @ pending q)"
proof (induction fuel arbitrary: k q out)
  case (Suc fuel)
  from assms Suc.prems(1) show ?case
  proof (cases rule: vq_available_cases)
    case none
    then show ?thesis using Suc.prems by simp
  next
    case (frame h q' p q'')
    have a: "alloc k" using Suc.prems(3) [of 0] frame by simp
    have r: "alloc (Suc k + i)" if "i < length (pending q'')" for i
      using Suc.prems(3) [of "Suc i"] that frame by simp
    have "length (pending q'') < fuel" using Suc.prems(2) frame by simp
    from Suc.IH [OF frame(6) this r, of "out @ [p]"] show ?thesis using frame a by (simp add: Let_def)
  qed
qed simp

lemma arm_recv_loop_ok:
  assumes "vq_laws L pending waste links good"
  shows "good q \<Longrightarrow> length (pending q) < fuel \<Longrightarrow> list_all (\<lambda>f. length f \<le> MAX_MTU) (pending q) \<Longrightarrow>
    ok (arm_recv_loop fuel L alloc k (q, out, n0)) (\<lambda>(q', out', n). good q' \<and> pending q' = [] \<and>
      n = n0 + length (pending q) \<and>
      out' = out @ map fst (filter (\<lambda>(p, k). alloc k) (zip (pending q) [k..<k + length (pending q)])))"
proof (induction fuel arbitrary: k q out n0)
  case (Suc fuel)
  from assms Suc.prems(1) show ?case
  proof (cases rule: vq_available_cases)
    case none
    then show ?thesis using Suc.prems by simp
  next
    case (frame h q' p q'')
    have u: "[k..<k + length (pending q)] = k # [Suc k..<Suc k + length (pending q')]"
      using frame by (simp add: upt_rec)
    have l: "length (pending q'') < fuel" "list_all (\<lambda>f. length f \<le> MAX_MTU) (pending q'')" "length p \<le> MAX_MTU"
      using Suc.prems(2,3) frame by simp_all
    show ?thesis
      using Suc.IH [OF frame(6) l(1,2), of "Suc k" "if alloc k then out @ [p] else out" "Suc n0"] frame l(3) u
      by (cases "alloc k") (auto simp: Let_def virtio_net_rx_def elim!: ok_mono)
  qed
qed simp

lemma vsock_recv_loop_ok:
  assumes "vq_laws L pending waste links good"
  shows "good q \<Longrightarrow> length (pending q) < fuel \<Longrightarrow> list_all (\<lambda>f. length f \<le> mtu) (pending q) \<Longrightarrow>
    ok (vsock_recv_loop fuel L mtu (q, out, n0)) (\<lambda>(q', out', n). good q' \<and> pending q' = [] \<and>
      n = n0 + length (pending q) \<and> out' = out @ pending q)"
proof (induction fuel arbitrary: q out n0)
  case (Suc fuel)
  from assms Suc.prems(1) show ?case
  proof (cases rule: vq_available_cases)
    case none
    then show ?thesis using Suc.prems by simp
  next
    case (frame h q' p q'')
    have l: "length (pending q'') < fuel" "list_all (\<lambda>f. length f \<le> mtu) (pending q'')" "length p \<le> mtu"
      using Suc.prems(2,3) frame by simp_all
    show ?thesis
      using Suc.IH [OF frame(6) l(1,2), of "out @ [p]" "Suc n0"] frame l(3) by (auto simp: Let_def elim!: ok_mono)
  qed
qed simp

lemma filter_all_zip: "map fst (filter (\<lambda>(p, k). True) (zip xs [k..<k + length xs])) = xs"
  by (simp add: case_prod_unfold)

lemma vswitch_receives:
  assumes "vq_laws L pending waste links good" "good q" "length (pending q) < fuel"
  shows "ok (virtio_net_notify_vswitch_recv fuel L True (\<lambda>k. True) q out)
    (\<lambda>(q', out', n). good q' \<and> pending q' = [] \<and> out' = out @ pending q)"
  using vswitch_recv_loop_ok [OF assms, of "\<lambda>k. True" 0 out]
  by (auto simp: virtio_net_notify_vswitch_recv_def elim!: ok_mono)

lemma arm_receives:
  assumes "vq_laws L pending waste links good" "good q" "list_all (\<lambda>f. length f \<le> MAX_MTU) (pending q)" "length (pending q) < fuel"
  shows "ok (virtio_net_notify_recv fuel L (\<lambda>k. True) q out)
    (\<lambda>(q', out', n). good q' \<and> pending q' = [] \<and> out' = out @ pending q)"
  using arm_recv_loop_ok [OF assms(1,2,4,3), of "\<lambda>k. True" 0 out 0] filter_all_zip [of "pending q" 0]
  by (auto simp: virtio_net_notify_recv_def elim!: ok_mono)

lemma vsock_receives:
  assumes "vq_laws L pending waste links good" "good q" "list_all (\<lambda>f. length f \<le> mtu) (pending q)" "length (pending q) < fuel"
  shows "ok (virtio_vsock_notify_recv fuel L mtu q out)
    (\<lambda>(q', out', n). good q' \<and> pending q' = [] \<and> out' = out @ pending q)"
  using vsock_recv_loop_ok [OF assms(1,2,4,3), of out 0]
  by (auto simp: virtio_vsock_notify_recv_def elim!: ok_mono)

interpretation vswitch_rx: frame_receiver "\<lambda>fuel L. virtio_net_notify_vswitch_recv fuel L True (\<lambda>k. True)" "\<lambda>f. True"
  by unfold_locales (rule vswitch_receives)

interpretation arm_rx: frame_receiver "\<lambda>fuel L. virtio_net_notify_recv fuel L (\<lambda>k. True)" "\<lambda>f. length f \<le> MAX_MTU"
  by unfold_locales (rule arm_receives)

interpretation vsock_rx: frame_receiver "\<lambda>fuel L. virtio_vsock_notify_recv fuel L mtu" "\<lambda>f. length f \<le> mtu" for mtu
  by unfold_locales (rule vsock_receives)

section \<open>Links between monitors\<close>

text \<open>A queue of four frames, and the number of buffers that wait to be freed.\<close>

definition sample_vq :: "(u8 list list \<times> nat, u8 list, unit) vq_lib" where
  "sample_vq = \<lparr>
     vq_send = (\<lambda>f (fs, n). if length fs + n < 4 then (0, (fs @ [f], n)) else (-1, (fs, n))),
     vq_dev_poll = (\<lambda>(fs, n). fs \<noteq> []),
     vq_available = (\<lambda>(fs, n). case fs of [] \<Rightarrow> None | f # fs \<Rightarrow> Some (f, (fs, n))),
     vq_available_size = (\<lambda>h q. length h),
     vq_gather_copy = (\<lambda>h len (fs, n). (Some (take len h), (fs, if length fs + n < 4 then Suc n else n))),
     vq_drv_poll = (\<lambda>(fs, n). 0 < n),
     vq_used = (\<lambda>(fs, n). if n = 0 then None else Some ([], (fs, n - 1))),
     vq_gather = (\<lambda>h q. case h of [] \<Rightarrow> None | x # h \<Rightarrow> Some ((), h)),
     vq_free = (\<lambda>b q. q)\<rparr>"

definition sample_good :: "u8 list list \<times> nat \<Rightarrow> bool" where
  "sample_good q = (length (fst q) + snd q \<le> 4)"

lemma sample_vq_laws: "vq_laws sample_vq fst snd (\<lambda>h q. length h) sample_good"
  by (auto simp: vq_laws_def sample_vq_def sample_good_def Let_def split: list.splits if_splits)

definition link_fits :: "(u8 list \<Rightarrow> bool) \<Rightarrow> link_event list \<Rightarrow> bool" where
  "link_fits fits = list_all (\<lambda>ev. case ev of LinkSend f \<Rightarrow> fits f | _ \<Rightarrow> True)"

text \<open>The frames that arrived, then those under way, are the accepted ones.\<close>

definition link_in_order ::
    "('q \<Rightarrow> u8 list list) \<Rightarrow> link_event list \<Rightarrow> ('q \<times> u8 list list \<times> u8 list list) res \<Rightarrow> bool" where
  "link_in_order pending evs r \<longleftrightarrow> ok r (\<lambda>(q, accepted, delivered). accepted = delivered @ pending q \<and>
     (evs \<noteq> [] \<and> last evs = LinkReceive \<longrightarrow> delivered = accepted))"


lemma sample_bounds: "sample_good q \<Longrightarrow> snd q < 5 \<and> length (fst q) < 5"
  by (simp add: sample_good_def)


section \<open>Delivery through a switch\<close>

definition send_queue :: "'q vmm_net \<Rightarrow> nat \<Rightarrow> 'q" where
  "send_queue s j = the (nd_send (net_nodes s ! j))"

definition switch_wf :: "('q \<Rightarrow> bool) \<Rightarrow> u8 list list \<Rightarrow> 'q vmm_net \<Rightarrow> bool" where
  "switch_wf good macs s \<longleftrightarrow> length macs \<le> length (net_nodes s) \<and>
     (\<forall>j < length macs. \<exists>q. nd_send (net_nodes s ! j) = Some q \<and> good q)"

definition accepts :: "('q, 'h, 'b) vq_lib \<Rightarrow> u8 list \<Rightarrow> 'q \<Rightarrow> bool" where
  "accepts L f q \<longleftrightarrow> 0 \<le> fst (vq_send L f q)"

text \<open>Exactly the nodes in \<open>js\<close> have got the frame, and exactly their peers were notified, in order.\<close>

definition sent_to ::
    "('q \<Rightarrow> u8 list list) \<Rightarrow> ('q \<Rightarrow> bool) \<Rightarrow> u8 list list \<Rightarrow> u8 list \<Rightarrow> nat list \<Rightarrow> 'q vmm_net \<Rightarrow> 'q vmm_net \<Rightarrow> bool" where
  "sent_to pending good macs f js s t \<longleftrightarrow> switch_wf good macs t \<and> net_guest t = net_guest s \<and>
     net_notes t = net_notes s @ map SendEnd js \<and> length (net_nodes t) = length (net_nodes s) \<and>
     (\<forall>j < length (net_nodes s). nd_recv (net_nodes t ! j) = nd_recv (net_nodes s ! j)) \<and>
     (\<forall>j < length macs. pending (send_queue t j) = pending (send_queue s j) @ (if j \<in> set js then [f] else []))"

lemma sent_to_Nil: "switch_wf good macs s \<Longrightarrow> sent_to pending good macs f [] s s"
  by (simp add: sent_to_def)

lemma send_queue_simps [simp]:
  "j < length (net_nodes s) \<Longrightarrow> send_queue (set_send j q s) i = (if i = j then q else send_queue s i)"
  "send_queue (notify e s) i = send_queue s i"
  by (auto simp: send_queue_def set_send_def notify_def)

lemma set_send_simps [simp]:
  "net_guest (set_send j q s) = net_guest s" "net_notes (set_send j q s) = net_notes s"
  "length (net_nodes (set_send j q s)) = length (net_nodes s)"
  "i < length (net_nodes s) \<Longrightarrow> nd_recv (net_nodes (set_send j q s) ! i) = nd_recv (net_nodes s ! i)"
  "net_guest (notify e s) = net_guest s" "net_notes (notify e s) = net_notes s @ [e]" "net_nodes (notify e s) = net_nodes s"
  by (cases "i = j"; simp add: set_send_def notify_def)+

lemma nd_send_set_send [simp]:
  "j < length (net_nodes s) \<Longrightarrow> nd_send (net_nodes (set_send j q s) ! i) = (if i = j then Some q else nd_send (net_nodes s ! i))"
  by (simp add: set_send_def)

lemma switch_wf_simps:
  "switch_wf good macs (notify e s) = switch_wf good macs s"
  "switch_wf good macs s \<Longrightarrow> good q \<Longrightarrow> j < length (net_nodes s) \<Longrightarrow> switch_wf good macs (set_send j q s)"
  by (auto simp: switch_wf_def)

lemma sent_to_Cons:
  assumes laws: "vq_laws L pending waste links good" and wf: "switch_wf good macs s" and j: "j < length macs"
  obtains err q' where "nd_send (net_nodes s ! j) = Some (send_queue s j)" "j < length (net_nodes s)"
    "vq_send L f (send_queue s j) = (err, q')"
    "err < 0 \<Longrightarrow> sent_to pending good macs f [] s (set_send j q' s)"
    "\<not> err < 0 \<Longrightarrow> sent_to pending good macs f [j] s (notify (SendEnd j) (set_send j q' s))"
proof -
  obtain q where q: "nd_send (net_nodes s ! j) = Some q" "good q" "j < length (net_nodes s)"
    using wf j by (auto simp: switch_wf_def)
  have e: "send_queue s j = q" using q by (simp add: send_queue_def)
  obtain err q' where s: "vq_send L f q = (err, q')" "good q'" "pending q' = (if 0 \<le> err then pending q @ [f] else pending q)"
    using vq_send_cases [OF laws q(2)] .
  have w: "switch_wf good macs (set_send j q' s)" using wf s(2) q(3) by (rule switch_wf_simps(2))
  have "sent_to pending good macs f [] s (set_send j q' s)" if "err < 0"
    using that w s(3) q(3) e by (simp add: sent_to_def)
  moreover have "sent_to pending good macs f [j] s (notify (SendEnd j) (set_send j q' s))" if "\<not> err < 0"
    using that w s(3) q(3) e by (simp add: sent_to_def switch_wf_simps)
  ultimately show thesis using that [of err q'] q(1,3) s(1) e by simp
qed

lemma sent_to_trans:
  assumes "sent_to pending good macs f as s t" "sent_to pending good macs f bs t u" "set as \<inter> set bs = {}"
  shows "sent_to pending good macs f (as @ bs) s u"
  using assms unfolding sent_to_def by auto

lemma send_to_nodes_ok:
  assumes laws: "vq_laws L pending waste links good" and sw: "switch_laws S macs"
  shows "switch_wf good macs s \<Longrightarrow> distinct js \<Longrightarrow> list_all (\<lambda>j. j < length macs) js \<Longrightarrow>
    ok (send_to_nodes L S js f s) (\<lambda>(more, t).
      sent_to pending good macs f (takeWhile (\<lambda>j. accepts L f (send_queue s j)) js) s t \<and>
      more = list_all (\<lambda>j. accepts L f (send_queue s j)) js)"
proof (induction js arbitrary: s)
  case (Cons j js)
  have j: "j < length macs" and rest: "distinct js" "list_all (\<lambda>j. j < length macs) js" "j \<notin> set js"
    using Cons.prems by simp_all
  obtain err q' where st: "nd_send (net_nodes s ! j) = Some (send_queue s j)" "j < length (net_nodes s)"
    "vq_send L f (send_queue s j) = (err, q')"
    "err < 0 \<Longrightarrow> sent_to pending good macs f [] s (set_send j q' s)"
    "\<not> err < 0 \<Longrightarrow> sent_to pending good macs f [j] s (notify (SendEnd j) (set_send j q' s))"
    using sent_to_Cons [OF laws Cons.prems(1) j] by blast
  have n: "sw_node_by_index S j = Some j" using sw j by (simp add: switch_laws_def)
  have a: "accepts L f (send_queue s j) \<longleftrightarrow> \<not> err < 0" using st(3) by (auto simp: accepts_def)
  show ?case
  proof (cases "err < 0")
    case True
    then show ?thesis using st n a by (simp add: aget_def deref_def Let_def)
  next
    case False
    define u where "u = notify (SendEnd j) (set_send j q' s)"
    have u: "sent_to pending good macs f [j] s u" "switch_wf good macs u"
      using st(5) False by (simp_all add: u_def sent_to_def)
    have same: "accepts L f (send_queue u i) = accepts L f (send_queue s i)" if "i \<in> set js" for i
      using that rest(3) st(2) by (auto simp: u_def)
    then have tw: "takeWhile (\<lambda>j. accepts L f (send_queue u j)) js = takeWhile (\<lambda>j. accepts L f (send_queue s j)) js"
      "list_all (\<lambda>j. accepts L f (send_queue u j)) js = list_all (\<lambda>j. accepts L f (send_queue s j)) js"
      by (auto intro: takeWhile_cong simp: list_all_iff)
    have e: "send_to_nodes L S (j # js) f s = send_to_nodes L S js f u"
      using st n False by (simp add: aget_def deref_def Let_def u_def)
    have tr: "sent_to pending good macs f (j # xs) s v" if "sent_to pending good macs f xs u v" "set xs \<subseteq> set js" for xs v
      using sent_to_trans [OF u(1) that(1)] that(2) rest(3) by auto
    have "set (takeWhile P js) \<subseteq> set js" for P by (auto dest: set_takeWhileD)
    note tr = tr [OF _ this]
    show ?thesis
      unfolding e using Cons.IH [OF u(2) rest(1,2)] a False tr by (auto simp: tw elim!: ok_mono)
  qed
qed (simp add: sent_to_Nil)

text \<open>Whom a frame is for.\<close>

definition addressees :: "switch_lib \<Rightarrow> u8 list list \<Rightarrow> u8 list \<Rightarrow> nat list" where
  "addressees S macs f = filter (\<lambda>j. sw_multicast S (take 6 f) \<or> macs ! j = take 6 f) [0..<length macs]"

lemma unicast_addressee:
  assumes "distinct macs" "j < length macs"
  shows "filter (\<lambda>i. macs ! i = macs ! j) [0..<length macs] = [j]"
proof -
  have "filter (\<lambda>i. macs ! i = macs ! j) [0..<length macs] = filter (\<lambda>i. i = j) [0..<length macs]"
    using assms by (intro filter_cong) (auto simp: nth_eq_iff_index_eq)
  also have "\<dots> = [j]" using assms(2)
    by (induction macs rule: rev_induct) (auto simp: less_Suc_eq filter_empty_conv)
  finally show ?thesis .
qed

lemma vswitch_destinations_eq:
  assumes "switch_laws S macs"
  shows "vswitch_destinations S f =
    (if sw_multicast S (take 6 f) \<or> take 6 f \<in> set macs then Some (addressees S macs f) else None)"
proof (cases "sw_multicast S (take 6 f)")
  case True
  then show ?thesis using assms by (simp add: vswitch_destinations_def dest_mac_def addressees_def switch_laws_def)
next
  case False
  show ?thesis
  proof (cases "take 6 f \<in> set macs")
    case True
    then obtain j where j: "j < length macs" "take 6 f = macs ! j" by (metis in_set_conv_nth)
    then show ?thesis
      using False True assms unicast_addressee [of macs j]
      by (simp add: vswitch_destinations_def dest_mac_def addressees_def switch_laws_def)
  next
    case out: False
    then show ?thesis using False assms by (simp add: vswitch_destinations_def dest_mac_def switch_laws_def)
  qed
qed


text \<open>A switch for two guests.\<close>

definition sample_switch :: switch_lib where
  "sample_switch = \<lparr>sw_connected = 2, sw_node_by_index = (\<lambda>j. if j < 2 then Some j else None),
     sw_index_by_mac = (\<lambda>m. if m = [2, 0, 0, 0, 0, 1] then 0 else if m = [2, 0, 0, 0, 0, 2] then 1 else -1),
     sw_multicast = (\<lambda>m. m = [255, 255, 255, 255, 255, 255])\<rparr>"

definition sample_macs :: "u8 list list" where
  "sample_macs = [[2, 0, 0, 0, 0, 1], [2, 0, 0, 0, 0, 2]]"

definition sample_net :: "(u8 list list \<times> nat) vmm_net" where
  "sample_net = \<lparr>net_nodes = [\<lparr>nd_send = Some ([], 0), nd_recv = Some ([[7], [8, 9]], 1)\<rparr>, \<lparr>nd_send = Some ([], 2), nd_recv = None\<rparr>],
     net_notes = [], net_guest = []\<rparr>"

lemma sample_switch_laws: "switch_laws sample_switch sample_macs"
  by (auto simp: switch_laws_def sample_switch_def sample_macs_def less_Suc_eq)

lemma sample_switch_wf: "switch_wf sample_good sample_macs sample_net"
  by (auto simp: switch_wf_def sample_macs_def sample_net_def sample_good_def less_Suc_eq)


lemma forward_to_nodes_ok:
  assumes laws: "vq_laws L pending waste links good" and sw: "switch_laws S macs"
  shows "switch_wf good macs s \<Longrightarrow> distinct js \<Longrightarrow> list_all (\<lambda>j. j < length macs) js \<Longrightarrow>
    ok (forward_to_nodes L S js f s) (sent_to pending good macs f (filter (\<lambda>j. accepts L f (send_queue s j)) js) s)"
proof (induction js arbitrary: s)
  case (Cons j js)
  have j: "j < length macs" and rest: "distinct js" "list_all (\<lambda>j. j < length macs) js" "j \<notin> set js"
    using Cons.prems by simp_all
  obtain err q' where st: "nd_send (net_nodes s ! j) = Some (send_queue s j)" "j < length (net_nodes s)"
    "vq_send L f (send_queue s j) = (err, q')"
    "err < 0 \<Longrightarrow> sent_to pending good macs f [] s (set_send j q' s)"
    "\<not> err < 0 \<Longrightarrow> sent_to pending good macs f [j] s (notify (SendEnd j) (set_send j q' s))"
    using sent_to_Cons [OF laws Cons.prems(1) j] by blast
  have n: "sw_node_by_index S j = Some j" using sw j by (simp add: switch_laws_def)
  have a: "accepts L f (send_queue s j) \<longleftrightarrow> \<not> err < 0" using st(3) by (auto simp: accepts_def)
  define u where "u = (if err < 0 then set_send j q' s else notify (SendEnd j) (set_send j q' s))"
  have u: "sent_to pending good macs f (if err < 0 then [] else [j]) s u" "switch_wf good macs u"
    using st(4,5) by (auto simp: u_def sent_to_def)
  have same: "filter (\<lambda>j. accepts L f (send_queue u j)) js = filter (\<lambda>j. accepts L f (send_queue s j)) js"
    using rest(3) st(2) by (intro filter_cong) (auto simp: u_def)
  have e: "forward_to_nodes L S (j # js) f s = forward_to_nodes L S js f u"
    using st n by (simp add: aget_def deref_def Let_def u_def)
  have tr: "sent_to pending good macs f ((if err < 0 then [] else [j]) @ filter P js) s v"
    if "sent_to pending good macs f (filter P js) u v" for P v
    using sent_to_trans [OF u(1) that] rest(3) by auto
  show ?case
    unfolding e using Cons.IH [OF u(2) rest(1,2)] a tr by (auto simp: same split: if_splits elim!: ok_mono)
qed (simp add: sent_to_Nil)

text \<open>
  The ARM switch sends every frame to every guest.  Whatever its destination, a frame is added
  to the queue of each node that has room and its peer is notified; a full queue loses the frame
  for that guest only, and no error is reported.
\<close>

theorem arm_switch_floods:
  assumes "vq_laws L pending waste links good" "switch_laws S macs" "switch_wf good macs s"
  shows "ok (tx_virtqueue_forward L S f s) (\<lambda>(err, t). err = 0 \<and>
    sent_to pending good macs f (filter (\<lambda>j. accepts L f (send_queue s j)) [0..<length macs]) s t)"
  using forward_to_nodes_ok [OF assms, of "[0..<length macs]" f] assms(2)
  by (auto simp: tx_virtqueue_forward_def switch_laws_def list_all_iff elim!: ok_mono)

theorem arm_switch_floods_witness:
  "ok (tx_virtqueue_forward sample_vq sample_switch [2, 0, 0, 0, 0, 2, 42] sample_net)
     (\<lambda>(err, t). err = 0 \<and> fst (send_queue t 0) = [[2, 0, 0, 0, 0, 2, 42]] \<and> net_notes t = [SendEnd 0, SendEnd 1])"
  using arm_switch_floods [OF sample_vq_laws sample_switch_laws sample_switch_wf, of "[2, 0, 0, 0, 0, 2, 42]"]
  by (rule ok_mono)
    (auto simp: sent_to_def sample_macs_def sample_net_def send_queue_def accepts_def sample_vq_def upt_rec)

section \<open>Notifications serve every node\<close>

definition recv_pending :: "('q \<Rightarrow> u8 list list) \<Rightarrow> 'q vnode \<Rightarrow> u8 list list" where
  "recv_pending pending nd = (case nd_recv nd of None \<Rightarrow> [] | Some q \<Rightarrow> pending q)"

definition send_pending :: "('q \<Rightarrow> u8 list list) \<Rightarrow> 'q vnode \<Rightarrow> u8 list list" where
  "send_pending pending nd = (case nd_send nd of None \<Rightarrow> [] | Some q \<Rightarrow> pending q)"

definition nodes_good :: "('q \<Rightarrow> bool) \<Rightarrow> 'q vmm_net \<Rightarrow> bool" where
  "nodes_good good s \<longleftrightarrow> list_all (\<lambda>nd. pred_option good (nd_send nd) \<and> pred_option good (nd_recv nd)) (net_nodes s)"

text \<open>The nodes below \<open>n\<close> are served: their frames are with the guest; nothing else has changed.\<close>

definition served :: "('q \<Rightarrow> u8 list list) \<Rightarrow> ('q \<Rightarrow> bool) \<Rightarrow> nat \<Rightarrow> 'q vmm_net \<Rightarrow> 'q vmm_net \<Rightarrow> bool" where
  "served pending good n s t \<longleftrightarrow> nodes_good good t \<and>
     net_guest t = net_guest s @ concat (map (recv_pending pending) (take n (net_nodes s))) \<and>
     map (recv_pending pending) (net_nodes t) =
       replicate (min n (length (net_nodes s))) [] @ map (recv_pending pending) (drop n (net_nodes s)) \<and>
     map (send_pending pending) (net_nodes t) = map (send_pending pending) (net_nodes s)"

text \<open>Node \<open>i\<close> alone is served.\<close>

definition served_one :: "('q \<Rightarrow> u8 list list) \<Rightarrow> ('q \<Rightarrow> bool) \<Rightarrow> nat \<Rightarrow> bool \<Rightarrow> 'q vmm_net \<Rightarrow> 'q vmm_net \<Rightarrow> bool" where
  "served_one pending good i taken s t \<longleftrightarrow> nodes_good good t \<and>
     net_guest t = net_guest s @ (if taken then recv_pending pending (net_nodes s ! i) else []) \<and>
     map (recv_pending pending) (net_nodes t) =
       (map (recv_pending pending) (net_nodes s)) [i := if taken then [] else recv_pending pending (net_nodes s ! i)] \<and>
     map (send_pending pending) (net_nodes t) = map (send_pending pending) (net_nodes s)"

lemma poll_send_ok:
  assumes "vq_laws L pending waste links good" "\<And>q. good q \<Longrightarrow> waste q < fuel"
    "nodes_good good s" "i < length (net_nodes s)"
  shows "ok (poll_send fuel L i s) (served_one pending good i False s)"
proof (cases "nd_send (net_nodes s ! i)")
  case None
  then show ?thesis using assms by (simp add: poll_send_def served_one_def map_update [symmetric])
next
  case (Some q)
  have g: "good q" using assms(3,4) Some by (auto simp: nodes_good_def list_all_length)
  have "served_one pending good i False s (set_send i q' s)" if "good q'" "pending q' = pending q" for q'
  proof -
    have r: "map (recv_pending pending) (net_nodes (set_send i q' s)) = map (recv_pending pending) (net_nodes s)"
      using assms(4) by (intro nth_equalityI) (simp_all add: recv_pending_def)
    have p: "map (send_pending pending) (net_nodes (set_send i q' s)) = map (send_pending pending) (net_nodes s)"
      using assms(4) Some that by (intro nth_equalityI) (auto simp: send_pending_def)
    have "nodes_good good (set_send i q' s)"
      using assms(3,4) that by (auto simp: nodes_good_def list_all_length)
    then show ?thesis using r p assms(4) by (simp add: served_one_def map_update [symmetric])
  qed
  moreover have "served_one pending good i False s s"
    using assms by (simp add: served_one_def map_update [symmetric])
  ultimately show ?thesis
    using Some assms(4) free_send_ok [OF assms(1) g assms(2) [OF g]] by (auto simp: poll_send_def elim!: ok_mono)
qed

lemma notify_pow [simp]:
  "net_nodes ((notify e ^^ n) s) = net_nodes s" "net_guest ((notify e ^^ n) s) = net_guest s"
  by (induction n) simp_all

lemma poll_recv_ok:
  assumes laws: "vq_laws L pending waste links good"
    and recv: "\<And>q out. good q \<Longrightarrow> fits (pending q) \<Longrightarrow>
      ok (recv q out) (\<lambda>(q', out', n). good q' \<and> pending q' = [] \<and> out' = out @ pending q)"
    and s: "nodes_good good s" "i < length (net_nodes s)" "fits (recv_pending pending (net_nodes s ! i))"
  shows "ok (poll_recv L recv i s) (served_one pending good i True s)"
proof -
  have b: "served_one pending good i True s s" if "recv_pending pending (net_nodes s ! i) = []"
  proof -
    have "(map (recv_pending pending) (net_nodes s))[i := []] = map (recv_pending pending) (net_nodes s)"
      using s(2) that by (simp add: list_update_same_conv)
    then show ?thesis using s(1) that by (simp add: served_one_def)
  qed
  show ?thesis
  proof (cases "nd_recv (net_nodes s ! i)")
    case None
    then show ?thesis using b s(2) by (simp add: poll_recv_def recv_pending_def)
  next
  case (Some q)
  have g: "good q" using s(1,2) Some by (auto simp: nodes_good_def list_all_length)
  have f: "fits (pending q)" using s(3) Some by (simp add: recv_pending_def)
  have a: "served_one pending good i True s (((notify (RecvEnd i) ^^ n) (set_recv i q' s))\<lparr>net_guest := out'\<rparr>)"
    if "good q'" "pending q' = []" "out' = net_guest s @ pending q" for q' n out'
  proof -
    have r: "map (recv_pending pending) (net_nodes (set_recv i q' s)) = (map (recv_pending pending) (net_nodes s))[i := []]"
      using that by (simp add: set_recv_def map_update recv_pending_def)
    have p: "map (send_pending pending) (net_nodes (set_recv i q' s)) = map (send_pending pending) (net_nodes s)"
      using s(2) by (simp add: set_recv_def map_update send_pending_def)
        (metis list_update_id map_update send_pending_def)
    have "nodes_good good (set_recv i q' s)"
      using s(1,2) that by (auto simp: nodes_good_def list_all_length set_recv_def nth_list_update)
    then show ?thesis using r p Some that by (simp add: served_one_def nodes_good_def recv_pending_def)
  qed
  show ?thesis
  proof (cases "vq_dev_poll L q")
    case True
    then show ?thesis
      using Some s(2) ok_mono [OF recv [OF g f, of "net_guest s"]] a by (auto simp: poll_recv_def elim!: ok_mono)
  next
    case False
    then show ?thesis using Some s(2) b vq_dev_poll_iff [OF laws g] by (simp add: poll_recv_def recv_pending_def)
  qed
qed
qed

lemma served_one_trans:
  assumes "served_one pending good i a s t" "served_one pending good i b t u" "\<not> (a \<and> b)" "a \<or> b" "i < length (net_nodes s)"
  shows "served_one pending good i True s u"
proof -
  have l: "length (net_nodes t) = length (net_nodes s)" using assms(1) by (metis served_one_def length_map)
  have "map (recv_pending pending) (net_nodes t) ! i = (if a then [] else recv_pending pending (net_nodes s ! i))"
    using assms(1,5) by (simp add: served_one_def)
  then have "recv_pending pending (net_nodes t ! i) = (if a then [] else recv_pending pending (net_nodes s ! i))"
    using l assms(5) by simp
  then show ?thesis using assms by (auto simp: served_one_def)
qed

lemma served_Suc:
  assumes "served pending good n s t" "served_one pending good n True t u" "n < length (net_nodes s)"
  shows "served pending good (Suc n) s u"
proof -
  have l: "length (net_nodes t) = length (net_nodes s)"
    using assms(1) by (metis served_def length_map)
  have "map (recv_pending pending) (net_nodes t) ! n = recv_pending pending (net_nodes s ! n)"
    using assms(1,3) by (simp add: served_def nth_append)
  then have r: "recv_pending pending (net_nodes t ! n) = recv_pending pending (net_nodes s ! n)" using l assms(3) by simp
  have "(replicate n [] @ map (recv_pending pending) (drop n (net_nodes s)))[n := []] =
      replicate (Suc n) [] @ map (recv_pending pending) (drop (Suc n) (net_nodes s))"
    using assms(3) by (simp add: list_update_append Cons_nth_drop_Suc [symmetric] replicate_append_same [symmetric])
  then show ?thesis
    using assms r by (simp add: served_def served_one_def take_Suc_conv_app_nth)
qed

lemma serve_all:
  assumes step: "\<And>i t. nodes_good good t \<Longrightarrow> i < length (net_nodes t) \<Longrightarrow> fits (recv_pending pending (net_nodes t ! i)) \<Longrightarrow>
      ok (h i t) (served_one pending good i True t)"
    and s: "nodes_good good s" "list_all (\<lambda>nd. fits (recv_pending pending nd)) (net_nodes s)"
  shows "n \<le> length (net_nodes s) \<Longrightarrow> ok (run_ops h [0..<n] s) (served pending good n s)"
proof (induction n)
  case 0
  then show ?case using s by (simp add: served_def)
next
  case (Suc n)
  have "ok (h n t) (served pending good (Suc n) s)" if t: "served pending good n s t" for t
  proof -
    have l: "length (net_nodes t) = length (net_nodes s)" using t by (metis served_def length_map)
    have "map (recv_pending pending) (net_nodes t) ! n = recv_pending pending (net_nodes s ! n)"
      using t Suc.prems by (simp add: served_def nth_append)
    then have "recv_pending pending (net_nodes t ! n) = recv_pending pending (net_nodes s ! n)" using l Suc.prems by simp
    then have "ok (h n t) (served_one pending good n True t)"
      using step [of t n] t l s(2) Suc.prems by (simp add: served_def list_all_length)
    then show ?thesis using served_Suc [OF t] Suc.prems by (auto elim!: ok_mono)
  qed
  then show ?case using Suc by (auto simp: run_ops_snoc elim!: ok_mono)
qed

lemma poll_recv_then_send:
  assumes laws: "vq_laws L pending waste links good" and w: "\<And>q. good q \<Longrightarrow> waste q < fuel"
    and recv: "\<And>q out. good q \<Longrightarrow> fits (pending q) \<Longrightarrow>
      ok (recv q out) (\<lambda>(q', out', n). good q' \<and> pending q' = [] \<and> out' = out @ pending q)"
    and s: "nodes_good good s" "i < length (net_nodes s)" "fits (recv_pending pending (net_nodes s ! i))"
  shows "ok (rbind (poll_recv L recv i s) (poll_send fuel L i)) (served_one pending good i True s)"
proof -
  have "ok (poll_send fuel L i t) (served_one pending good i True s)" if t: "served_one pending good i True s t" for t
  proof -
    have l: "length (net_nodes t) = length (net_nodes s)" using t by (metis served_one_def length_map length_list_update)
    have g: "nodes_good good t" "i < length (net_nodes t)" using t l s(2) by (simp_all add: served_one_def)
    show ?thesis
      by (rule ok_mono [OF poll_send_ok [OF laws w g]]) (auto intro: served_one_trans [OF t _ _ _ s(2)])
  qed
  then show ?thesis using poll_recv_ok [where recv = recv and fits = fits, OF laws recv s] by (auto elim!: ok_mono)
qed

lemma poll_send_then_recv:
  assumes laws: "vq_laws L pending waste links good" and w: "\<And>q. good q \<Longrightarrow> waste q < fuel"
    and recv: "\<And>q out. good q \<Longrightarrow> fits (pending q) \<Longrightarrow>
      ok (recv q out) (\<lambda>(q', out', n). good q' \<and> pending q' = [] \<and> out' = out @ pending q)"
    and s: "nodes_good good s" "i < length (net_nodes s)" "fits (recv_pending pending (net_nodes s ! i))"
  shows "ok (rbind (poll_send fuel L i s) (poll_recv L recv i)) (served_one pending good i True s)"
proof -
  have "ok (poll_recv L recv i t) (served_one pending good i True s)" if t: "served_one pending good i False s t" for t
  proof -
    have l: "length (net_nodes t) = length (net_nodes s)" using t by (metis served_one_def length_map length_list_update)
    have "map (recv_pending pending) (net_nodes t) ! i = recv_pending pending (net_nodes s ! i)"
      using t s(2) by (simp add: served_one_def)
    then have g: "nodes_good good t" "i < length (net_nodes t)" "fits (recv_pending pending (net_nodes t ! i))"
      using t l s(2,3) by (simp_all add: served_one_def)
    show ?thesis
      by (rule ok_mono [OF poll_recv_ok [where recv = recv and fits = fits, OF laws recv g]])
        (auto intro: served_one_trans [OF t _ _ _ s(2)])
  qed
  then show ?thesis using poll_send_ok [OF laws w s(1,2)] by (auto elim!: ok_mono)
qed

text \<open>Everything that waited is with the guest, in the order of the nodes, and nothing else moved.\<close>

definition all_served :: "('q \<Rightarrow> u8 list list) \<Rightarrow> 'q vmm_net \<Rightarrow> 'q vmm_net \<Rightarrow> bool" where
  "all_served pending s t \<longleftrightarrow> net_guest t = net_guest s @ concat (map (recv_pending pending) (net_nodes s)) \<and>
     list_all (\<lambda>nd. recv_pending pending nd = []) (net_nodes t) \<and>
     map (send_pending pending) (net_nodes t) = map (send_pending pending) (net_nodes s)"

lemma served_all:
  assumes "served pending good (length (net_nodes s)) s t"
  shows "all_served pending s t"
proof -
  have "set (map (recv_pending pending) (net_nodes t)) \<subseteq> {[]}" using assms unfolding served_def by (metis append_Nil2 drop_all le_refl list.map(1) min.idem set_replicate_conv_if subset_refl empty_subsetI)
  then show ?thesis using assms by (auto simp: served_def all_served_def list_all_iff)
qed


lemma sample_nodes_good: "nodes_good sample_good sample_net"
  by (simp add: nodes_good_def sample_net_def sample_good_def)


section \<open>Frames that are lost\<close>

lemma recv_loop_full:
  assumes "vq_laws L pending waste links good"
  shows "good q \<Longrightarrow> m < length (pending q) \<Longrightarrow> m < fuel \<Longrightarrow> (\<And>i. i < m \<Longrightarrow> alloc (k + i)) \<Longrightarrow> \<not> alloc (k + m) \<Longrightarrow>
    ok (vswitch_recv_loop fuel L alloc k q out) (\<lambda>(q', out'). good q' \<and> pending q' = drop (Suc m) (pending q) \<and>
      out' = out @ take m (pending q))"
proof (induction fuel arbitrary: k m q out)
  case (Suc fuel)
  from assms Suc.prems(1) show ?case
  proof (cases rule: vq_available_cases)
    case none
    then show ?thesis using Suc.prems by simp
  next
    case (frame h q' p q'')
    show ?thesis
    proof (cases m)
      case 0
      then show ?thesis using frame Suc.prems by (simp add: Let_def)
    next
      case (Suc m')
      have a: "alloc k" using Suc.prems(4) [of 0] Suc by simp
      have r: "alloc (Suc k + i)" if "i < m'" for i using Suc.prems(4) [of "Suc i"] that Suc by simp
      show ?thesis
        using Suc.IH [OF frame(6), of m' "Suc k" "out @ [p]"] Suc.prems Suc r a frame by (simp add: Let_def)
    qed
  qed
qed simp

lemma arm_recv_overrun:
  assumes "vq_laws L pending waste links good"
  shows "good q \<Longrightarrow> pending q = ps @ p # rest \<Longrightarrow> list_all (\<lambda>f. length f \<le> MAX_MTU) ps \<Longrightarrow> MAX_MTU < length p \<Longrightarrow>
    length ps < fuel \<Longrightarrow> arm_recv_loop fuel L alloc k (q, out, n0) = Inl OutOfBounds"
proof (induction fuel arbitrary: k ps q out n0)
  case (Suc fuel)
  from assms Suc.prems(1) show ?case
  proof (cases rule: vq_available_cases)
    case none
    then show ?thesis using Suc.prems by simp
  next
    case (frame h q' x q'')
    show ?thesis
    proof (cases ps)
      case Nil
      then show ?thesis using frame Suc.prems by (simp add: Let_def)
    next
      case (Cons y ps')
      then show ?thesis
        using Suc.IH [OF frame(6), of ps'] Suc.prems frame by (auto simp: Let_def virtio_net_rx_def)
    qed
  qed
qed simp



section \<open>Sockets\<close>

definition port_up :: "(nat \<Rightarrow> bool) \<Rightarrow> (nat \<Rightarrow> 'q option) \<Rightarrow> (nat \<Rightarrow> 'q option) \<Rightarrow> nat \<Rightarrow> bool" where
  "port_up alloc send recv j \<longleftrightarrow> alloc j \<and> send j \<noteq> None \<and> recv j \<noteq> None"

text \<open>A connection is set up if its port and all before it could be.\<close>

lemma vsock_connections:
  "length (make_virtio_vsock_virtqueues alloc send recv i cids) = length cids \<and>
   (\<forall>j < length cids. make_virtio_vsock_virtqueues alloc send recv i cids ! j =
      (if \<forall>k \<le> j. port_up alloc send recv (i + k) then (cids ! j, \<lparr>nd_send = send (i + j), nd_recv = recv (i + j)\<rparr>)
       else (0, unset_node)))"
proof (induction cids arbitrary: i)
  case (Cons c cids)
  show ?case
  proof (cases "port_up alloc send recv i")
    case True
    have s: "(\<forall>k \<le> Suc j. port_up alloc send recv (i + k)) = (\<forall>k \<le> j. port_up alloc send recv (Suc i + k))" for j
      using True by (simp add: All_less_Suc2 less_Suc_eq_le [symmetric] del: All_less_Suc)
    have e: "make_virtio_vsock_virtqueues alloc send recv i (c # cids) =
        (c, \<lparr>nd_send = send i, nd_recv = recv i\<rparr>) # make_virtio_vsock_virtqueues alloc send recv (Suc i) cids"
      using True by (simp add: port_up_def)
    show ?thesis
    proof (intro conjI allI impI)
      show "length (make_virtio_vsock_virtqueues alloc send recv i (c # cids)) = length (c # cids)"
        unfolding e using Cons.IH [of "Suc i"] by simp
      fix j assume "j < length (c # cids)"
      then show "make_virtio_vsock_virtqueues alloc send recv i (c # cids) ! j =
          (if \<forall>k \<le> j. port_up alloc send recv (i + k)
           then ((c # cids) ! j, \<lparr>nd_send = send (i + j), nd_recv = recv (i + j)\<rparr>) else (0, unset_node))"
        unfolding e using Cons.IH [of "Suc i"] True s by (cases j) auto
    qed
  next
    case False
    then have f: "\<not> (\<forall>k \<le> j. port_up alloc send recv (i + k))" for j by (metis add_0_right le0)
    have e: "make_virtio_vsock_virtqueues alloc send recv i (c # cids) = replicate (Suc (length cids)) (0, unset_node)"
      using False unfolding port_up_def by (subst make_virtio_vsock_virtqueues.simps) auto
    show ?thesis
    proof (intro conjI allI impI)
      show "length (make_virtio_vsock_virtqueues alloc send recv i (c # cids)) = length (c # cids)" unfolding e by simp
      fix j assume "j < length (c # cids)"
      then show "make_virtio_vsock_virtqueues alloc send recv i (c # cids) ! j =
          (if \<forall>k \<le> j. port_up alloc send recv (i + k)
           then ((c # cids) ! j, \<lparr>nd_send = send (i + j), nd_recv = recv (i + j)\<rparr>) else (0, unset_node))"
        unfolding e if_not_P [OF f] by (simp del: replicate_Suc)
    qed
  qed
qed simp

lemma tx_forward_from_hit:
  "j < length cs \<Longrightarrow> cs ! j = cid \<Longrightarrow> (\<And>k. k < j \<Longrightarrow> cs ! k \<noteq> cid) \<Longrightarrow>
   tx_forward_from L i cs cid buffer s = rbind (aget (net_nodes s) (i + j)) (\<lambda>conn. rbind (deref (nd_send conn)) (\<lambda>q.
     Inr (notify (SendEnd (i + j)) (set_send (i + j) (snd (vq_send L buffer q)) s))))"
proof (induction cs arbitrary: i j)
  case (Cons c cs)
  show ?case
  proof (cases j)
    case 0
    then show ?thesis using Cons.prems by simp
  next
    case (Suc j')
    have "c \<noteq> cid" using Cons.prems(3) [of 0] Suc by simp
    moreover have "cs ! k \<noteq> cid" if "k < j'" for k using Cons.prems(3) [of "Suc k"] that Suc by simp
    ultimately show ?thesis using Cons.IH [of j' "Suc i"] Cons.prems(1,2) Suc by simp
  qed
qed simp

lemma tx_forward_from_miss: "cid \<notin> set cs \<Longrightarrow> tx_forward_from L i cs cid buffer s = Inr s"
  by (induction cs arbitrary: i) auto

text \<open>The monitor's state after the set-up of its connections.\<close>

definition vsock_net :: "(int \<times> 'q vnode) list \<Rightarrow> 'q vmm_net" where
  "vsock_net conns = \<lparr>net_nodes = map snd conns, net_notes = [], net_guest = []\<rparr>"

text \<open>
  Data for a context goes to the queue of its connection, whose peer is notified.  A port that
  could not be set up disables every later connection: their data is dropped, and data for context
  0, which these connections now bear, is sent to a null queue.
\<close>

theorem vsock_forwarding:
  fixes send recv :: "nat \<Rightarrow> 'q option"
  defines "conns \<equiv> \<lambda>alloc cids. make_virtio_vsock_virtqueues alloc send recv 0 cids"
  assumes "distinct cids" "0 \<notin> set cids" "j < length cids"
  shows "if \<forall>k \<le> j. port_up alloc send recv k
    then tx_forward L (map fst (conns alloc cids)) (cids ! j) buffer (vsock_net (conns alloc cids)) =
      Inr (notify (SendEnd j) (set_send j (snd (vq_send L buffer (the (send j)))) (vsock_net (conns alloc cids))))
    else tx_forward L (map fst (conns alloc cids)) (cids ! j) buffer (vsock_net (conns alloc cids)) = Inr (vsock_net (conns alloc cids)) \<and>
      tx_forward L (map fst (conns alloc cids)) 0 buffer (vsock_net (conns alloc cids)) = Inl NullDeref"
proof -
  define up where "up = port_up alloc send recv"
  have l: "length (conns alloc cids) = length cids"
    and n: "\<And>i. i < length cids \<Longrightarrow> conns alloc cids ! i =
      (if \<forall>k \<le> i. up k then (cids ! i, \<lparr>nd_send = send i, nd_recv = recv i\<rparr>) else (0, unset_node))"
    unfolding conns_def up_def
    by (rule conjunct1 [OF vsock_connections [of alloc send recv 0 cids]],
        rule conjunct2 [OF vsock_connections [of alloc send recv 0 cids], rule_format, unfolded add_0])
  have ne: "cids ! i \<noteq> cids ! j" if "i < j" for i
    using that assms(2,4) by (auto simp: nth_eq_iff_index_eq)
  have z: "cids ! i \<noteq> 0" if "i < length cids" for i using that assms(3) by (metis nth_mem)
  show ?thesis
  proof (cases "\<forall>k \<le> j. up k")
    case True
    then have q: "send j \<noteq> None" by (simp add: up_def port_up_def)
    have nj: "conns alloc cids ! j = (cids ! j, \<lparr>nd_send = send j, nd_recv = recv j\<rparr>)" using n [OF assms(4)] True by simp
    have h: "conns alloc cids ! k = (cids ! k, \<lparr>nd_send = send k, nd_recv = recv k\<rparr>)" if "k < j" for k
      using n [of k] True that assms(4) by simp
    show ?thesis
      using True tx_forward_from_hit [of j "map fst (conns alloc cids)" "cids ! j" L 0 buffer "vsock_net (conns alloc cids)"] q l nj h ne assms(4)
      by (auto simp: tx_forward_def vsock_net_def up_def aget_def deref_def)
  next
    case False
    define m where "m = (LEAST k. \<not> up k)"
    have m: "\<not> up m" "m \<le> j" "\<And>k. k < m \<Longrightarrow> up k"
      using False LeastI_ex [of "\<lambda>k. \<not> up k"] not_less_Least [of _ "\<lambda>k. \<not> up k"] Least_le [of "\<lambda>k. \<not> up k"]
      unfolding m_def by (blast, meson le_trans, blast)
    have bad: "conns alloc cids ! i = (0, unset_node)" if "m \<le> i" "i < length cids" for i
      using n [OF that(2)] m(1) that(1) by auto
    have good: "conns alloc cids ! i = (cids ! i, \<lparr>nd_send = send i, nd_recv = recv i\<rparr>)" if "i < m" for i
      using n [of i] m(2,3) that assms(4) by auto
    have "cids ! j \<notin> set (map fst (conns alloc cids))"
    proof
      assume "cids ! j \<in> set (map fst (conns alloc cids))"
      then obtain i where i: "i < length cids" "fst (conns alloc cids ! i) = cids ! j"
        by (metis (no_types, lifting) in_set_conv_nth l length_map nth_map)
      show False
        using i bad [of i] good [of i] ne [of i] z [of j] m(2) assms(4) by (cases "i < m") auto
    qed
    moreover have "tx_forward_from L 0 (map fst (conns alloc cids)) 0 buffer (vsock_net (conns alloc cids)) = Inl NullDeref"
      using tx_forward_from_hit [of m "map fst (conns alloc cids)" 0 L 0 buffer "vsock_net (conns alloc cids)"]
        bad [of m] good z l m(2) assms(4)
      by (auto simp: vsock_net_def aget_def deref_def unset_node_def)
    ultimately show ?thesis
      using False by (auto simp: tx_forward_def tx_forward_from_miss up_def)
  qed
qed

theorem vsock_forwarding_witness:
  "tx_forward sample_vq (map fst (make_virtio_vsock_virtqueues (\<lambda>i. i = 0) (\<lambda>i. Some ([], 0)) (\<lambda>i. Some ([], 0)) 0 [3, 4])) 0 [1]
     (vsock_net (make_virtio_vsock_virtqueues (\<lambda>i. i = 0) (\<lambda>i. Some ([], 0)) (\<lambda>i. Some ([], 0)) 0 [3, 4])) = Inl NullDeref"
proof -
  have f: "\<not> (\<forall>k \<le> 1. port_up (\<lambda>i. i = 0) (\<lambda>i. Some ([] :: u8 list list, 0 :: nat)) (\<lambda>i. Some ([], 0)) k)"
    by (auto simp: port_up_def intro!: exI [of _ 1])
  then show ?thesis
    using conjunct2 [OF vsock_forwarding [of "[3, 4]" 1 "\<lambda>i. i = 0" "\<lambda>i. Some ([], 0)" "\<lambda>i. Some ([], 0)" sample_vq "[1]", unfolded if_not_P [OF f]]]
    by simp
qed

end
