(* ===== verification/Udp.thy ===== *)
theory Udp
  imports Vmm_Prelude
begin

unbundle bit_operations_syntax

text \<open>
  UDP for CAmkES components: the connectors \<^verbatim>\<open>seL4UDPRecv\<close> and \<^verbatim>\<open>seL4UDPSend\<close>
  with their client stubs (\<^verbatim>\<open>templates/\<close>), and the component \<^verbatim>\<open>Echo\<close> that returns
  every packet to its sender.  The receiving connector keeps a message pool for each client: an array
  of messages linked through indices (pointers in the code) into a free list and a list of received
  packets.  The IP stack and the kernel are outside the repository: a packet is the list of the
  payloads of its buffer chain, and signals, replies and packets handed to the stack are effects.
\<close>

section \<open>Data\<close>

type_synonym pbuf = "u8 list list"

record udp_message =
  m_pbuf :: pbuf
  m_addr :: u32
  m_port :: u16
  m_next :: "nat option"

record udp_client =
  udp_client_id :: i32
  need_signal :: i32
  notification :: u64
  free_head :: "nat option"
  used_head :: "nat option"
  used_tail :: "nat option"
  message_memory :: "udp_message list"

datatype udp_effect =
    PbufFree pbuf
  | Signal u64
  | UdpSendTo nat "u8 list" u32 u16

text \<open>\<^verbatim>\<open>memcpy\<close> to an offset of a shared buffer.\<close>

definition buf_write :: "nat \<Rightarrow> u8 list \<Rightarrow> u8 list \<Rightarrow> u8 list res" where
  "buf_write off d buf =
     (if off + length d \<le> length buf then Inr (take off buf @ d @ drop (off + length d) buf) else Inl OutOfBounds)"

section \<open>Receiving\<close>

definition udprecv :: "pbuf \<Rightarrow> u32 \<Rightarrow> u16 \<Rightarrow> udp_client \<times> udp_effect list \<Rightarrow> (udp_client \<times> udp_effect list) res" where
  "udprecv p addr port ces =
     (let (c, es) = ces
      in case free_head c of
           None \<Rightarrow> Inr (c, es @ [PbufFree p])
         | Some m \<Rightarrow>
             rbind (aget (message_memory c) m) (\<lambda>n.
             let c = c\<lparr>free_head := m_next n\<rparr>
             in rbind (aset (message_memory c) m \<lparr>m_pbuf = p, m_addr = addr, m_port = port, m_next = None\<rparr>) (\<lambda>mem.
             let c = c\<lparr>message_memory := mem\<rparr>;
                 (c, es) = (if nz (need_signal c) then (c\<lparr>need_signal := 0\<rparr>, es @ [Signal (notification c)])
                            else (c, es))
             in case used_head c of
                  None \<Rightarrow> Inr (c\<lparr>used_head := Some m, used_tail := Some m\<rparr>, es)
                | Some _ \<Rightarrow>
                    (case used_tail c of
                       None \<Rightarrow> Inl NullDeref
                     | Some t \<Rightarrow>
                         rbind (aget mem t) (\<lambda>x.
                         rbind (aset mem t (x\<lparr>m_next := Some m\<rparr>)) (\<lambda>mem.
                         Inr (c\<lparr>message_memory := mem, used_tail := Some m\<rparr>, es)))))))"

text \<open>The loop that copies a buffer chain; \<^verbatim>\<open>packet_len\<close> is an \<^verbatim>\<open>unsigned int\<close>.\<close>

fun copy_chain :: "pbuf \<Rightarrow> u32 \<Rightarrow> u8 list \<Rightarrow> (u8 list \<times> u32) res" where
  "copy_chain [] packet_len buf = Inr (buf, packet_len)"
| "copy_chain (q # qs) packet_len buf =
     rbind (buf_write (unat packet_len) q buf) (\<lambda>buf. copy_chain qs (packet_len + word_of_nat (length q)) buf)"

text \<open>The answer to a client: the message registers, its buffer afterwards and its pool.\<close>

definition udp_serve ::
    "u8 list \<Rightarrow> udp_client \<times> udp_effect list \<Rightarrow> (u64 list \<times> u8 list \<times> udp_client \<times> udp_effect list) res" where
  "udp_serve buf ces =
     (let (c, es) = ces
      in case used_head c of
           None \<Rightarrow> Inr ([- 1], buf, c\<lparr>need_signal := 1\<rparr>, es)
         | Some m \<Rightarrow>
             rbind (aget (message_memory c) m) (\<lambda>n.
             let c = c\<lparr>used_head := m_next n\<rparr>;
                 c = (if used_head c = None then c\<lparr>need_signal := 1\<rparr> else c)
             in rbind (copy_chain (m_pbuf n) 0 buf) (\<lambda>(buf, packet_len).
                let es = es @ [PbufFree (m_pbuf n)];
                    mrs = [if used_head c = None then 1 else 0, ucast packet_len, ucast (m_port n), ucast (m_addr n)]
                in rbind (aset (message_memory c) m (n\<lparr>m_next := free_head c\<rparr>)) (\<lambda>mem.
                   Inr (mrs, buf, c\<lparr>message_memory := mem, free_head := Some m\<rparr>, es)))))"

text \<open>One turn of the connector's loop: the first client with the badge is served.\<close>

record udp_server =
  us_clients :: "udp_client list"
  us_bufs :: "u64 \<Rightarrow> u8 list"
  us_out :: "udp_effect list"

fun find_client_id :: "udp_client list \<Rightarrow> u64 \<Rightarrow> nat \<Rightarrow> nat option" where
  "find_client_id [] badge i = None"
| "find_client_id (c # cs) badge i = (if scast (udp_client_id c) = badge then Some i else find_client_id cs badge (Suc i))"

definition udp_recv_run :: "int \<Rightarrow> u64 \<Rightarrow> udp_server \<Rightarrow> (u64 list \<times> udp_server) res" where
  "udp_recv_run save_caller badge s =
     (case find_client_id (us_clients s) badge 0 of
        None \<Rightarrow> Inl AssertFail
      | Some i \<Rightarrow>
          rbind (rassert (save_caller = 0)) (\<lambda>_.
          rbind (aget (us_clients s) i) (\<lambda>c.
          rbind (udp_serve (us_bufs s badge) (c, us_out s)) (\<lambda>(mrs, buf, c, es).
          Inr (mrs, s\<lparr>us_clients := (us_clients s)[i := c], us_bufs := (us_bufs s)(badge := buf), us_out := es\<rparr>)))))"

text \<open>The pool of a client with \<open>bufs\<close> messages, each linked to the one before it.\<close>

definition pool_of :: "nat \<Rightarrow> udp_message list" where
  "pool_of bufs = map (\<lambda>j. \<lparr>m_pbuf = [], m_addr = 0, m_port = 0, m_next = (if j = 0 then None else Some (j - 1))\<rparr>) [0..<bufs]"

definition udp_client_init :: "nat \<Rightarrow> i32 \<Rightarrow> u64 \<Rightarrow> udp_client res" where
  "udp_client_init bufs client ntfn =
     (if bufs = 0 then Inl OutOfBounds
      else Inr \<lparr>udp_client_id = client, need_signal = 1, notification = ntfn, free_head = Some (bufs - 1),
                used_head = None, used_tail = None, message_memory = pool_of bufs\<rparr>)"

text \<open>The client's stub.  \<open>None\<close>: no packet, status -1.\<close>

definition udp_poll :: "u64 list \<Rightarrow> (i32 \<times> (u32 \<times> u16 \<times> u32) option) res" where
  "udp_poll mrs =
     rbind (rassert (0 < length mrs)) (\<lambda>_.
       let status = ucast (mrs ! 0) :: i32
       in if status \<noteq> - 1
          then let len = ucast (mrs ! 1) :: u32
               in rbind (rassert (len < 4096)) (\<lambda>_.
                  Inr (status, Some (len, ucast (mrs ! 2), ucast (mrs ! 3))))
          else Inr (status, None))"

section \<open>Sending\<close>

text \<open>The client's stub: message registers, the shared buffer and the returned length.\<close>

definition udp_send :: "u8 list \<Rightarrow> u32 \<Rightarrow> u32 \<Rightarrow> u8 list \<Rightarrow> (u64 list \<times> u8 list \<times> i32) res" where
  "udp_send p len addr buf =
     (let mrs = [ucast len, ucast addr];
          len = (if 4096 < len then 4096 else len)
      in if length p < unat len then Inl OutOfBounds
         else rbind (buf_write 0 (take (unat len) p) buf) (\<lambda>buf. Inr (mrs, buf, len)))"

fun send_dest :: "(u64 \<times> u16) list \<Rightarrow> u64 \<Rightarrow> nat \<Rightarrow> (nat \<times> u16) option" where
  "send_dest [] badge i = None"
| "send_dest ((client, dest) # cs) badge i = (if client = badge then Some (i, dest) else send_dest cs badge (Suc i))"

text \<open>One turn of the connector's loop; \<open>alloc\<close> says whether a buffer could be allocated.\<close>

definition udp_send_run ::
    "(u64 \<times> u16) list \<Rightarrow> int \<Rightarrow> bool \<Rightarrow> u64 \<Rightarrow> u64 list \<Rightarrow> u8 list \<Rightarrow> udp_effect list \<Rightarrow> udp_effect list res" where
  "udp_send_run conf save_caller alloc badge mrs buf es =
     rbind (rassert (save_caller = 0)) (\<lambda>_.
       let len = ucast (mrs ! 0) :: u32
       in if \<not> len < 4096 \<or> \<not> alloc then Inr es
          else if length buf < unat len then Inl OutOfBounds
          else let p = take (unat len) buf;
                   es = (case send_dest conf badge 0 of
                           None \<Rightarrow> es
                         | Some (i, dest) \<Rightarrow> es @ [UdpSendTo i p (ucast (mrs ! 1)) dest])
               in Inr (es @ [PbufFree [p]]))"

section \<open>The echo component\<close>

text \<open>
  One turn of the loop of \<^verbatim>\<open>echo_recv_ready_callback\<close>: the pool of the receiving
  connector, the buffer shared with it, the buffer shared with the sending connector and what was
  sent.
\<close>

record echo_state =
  e_client :: udp_client
  e_recv_buf :: "u8 list"
  e_send_buf :: "u8 list"
  e_out :: "udp_effect list"

definition echo_turn :: "(u64 \<times> u16) list \<Rightarrow> u64 \<Rightarrow> echo_state \<Rightarrow> (i32 \<times> echo_state) res" where
  "echo_turn conf badge s =
     rbind (udp_serve (e_recv_buf s) (e_client s, e_out s)) (\<lambda>(mrs, buf, c, es).
     let s = s\<lparr>e_client := c, e_recv_buf := buf, e_out := es\<rparr>
     in rbind (udp_poll mrs) (\<lambda>(status, r).
        case r of
          None \<Rightarrow> Inr (status, s)
        | Some (len, port, ip4addr) \<Rightarrow>
            rbind (udp_send (e_recv_buf s) len ip4addr (e_send_buf s)) (\<lambda>(mrs, buf, _).
            rbind (udp_send_run conf 0 True badge mrs buf (e_out s)) (\<lambda>es.
            Inr (status, s\<lparr>e_send_buf := buf, e_out := es\<rparr>)))))"

text \<open>The loop, which ends because a turn takes a message from the pool; \<open>fuel\<close> bounds the turns.\<close>

fun echo_recv_ready_callback :: "nat \<Rightarrow> (u64 \<times> u16) list \<Rightarrow> u64 \<Rightarrow> echo_state \<Rightarrow> echo_state res" where
  "echo_recv_ready_callback 0 conf badge s = Inl NoReturn"
| "echo_recv_ready_callback (Suc fuel) conf badge s =
     rbind (echo_turn conf badge s) (\<lambda>(status, s).
       if status = 0 then echo_recv_ready_callback fuel conf badge s else Inr s)"

text \<open>
  One turn of \<^verbatim>\<open>run\<close>: the component waits for one notification and tells its two receivers
  apart by the bits of the badge.  \<^verbatim>\<open>echo2_recv_ready_callback\<close> is the text of
  \<^verbatim>\<open>echo_recv_ready_callback\<close> on the connectors of the second receiver.
\<close>

definition echo2_recv_ready_callback :: "nat \<Rightarrow> (u64 \<times> u16) list \<Rightarrow> u64 \<Rightarrow> echo_state \<Rightarrow> echo_state res" where
  "echo2_recv_ready_callback = echo_recv_ready_callback"

record echo_port =
  ep_notification_badge :: u64
  ep_conf :: "(u64 \<times> u16) list"
  ep_badge :: u64

definition echo_wakeup :: "nat \<Rightarrow> echo_port \<Rightarrow> echo_port \<Rightarrow> u64 \<Rightarrow> echo_state \<times> echo_state \<Rightarrow> (echo_state \<times> echo_state) res" where
  "echo_wakeup fuel p1 p2 badge ss =
     (let (s1, s2) = ss
      in rbind (if nz (badge AND ep_notification_badge p1)
                then echo_recv_ready_callback fuel (ep_conf p1) (ep_badge p1) s1 else Inr s1) (\<lambda>s1.
         rbind (if nz (badge AND ep_notification_badge p2)
                then echo2_recv_ready_callback fuel (ep_conf p2) (ep_badge p2) s2 else Inr s2) (\<lambda>s2.
         Inr (s1, s2))))"

section \<open>Linked lists in the pool\<close>

fun chain :: "udp_message list \<Rightarrow> nat option \<Rightarrow> nat list \<Rightarrow> bool" where
  "chain mem h [] = (h = None)"
| "chain mem h (x # xs) = (h = Some x \<and> x < length mem \<and> chain mem (m_next (mem ! x)) xs)"

lemma chain_update: "i \<notin> set xs \<Longrightarrow> chain (mem[i := v]) h xs = chain mem h xs"
  by (induction xs arbitrary: h) auto

lemma chain_bound: "chain mem h xs \<Longrightarrow> i \<in> set xs \<Longrightarrow> i < length mem"
  by (induction xs arbitrary: h) auto

lemma chain_None: "chain mem None xs = (xs = [])"
  by (cases xs) auto

lemma chain_Some: "chain mem (Some x) xs = (\<exists>ys. xs = x # ys \<and> x < length mem \<and> chain mem (m_next (mem ! x)) ys)"
  by (cases xs) auto

lemma chain_append:
  "chain mem h (us @ [t]) \<Longrightarrow> distinct (us @ [t]) \<Longrightarrow> m \<notin> set (us @ [t]) \<Longrightarrow> m < length mem \<Longrightarrow>
   m_next (mem ! m) = None \<Longrightarrow> chain (mem[t := (mem ! t)\<lparr>m_next := Some m\<rparr>]) h (us @ [t, m])"
proof (induction us arbitrary: h)
  case Nil
  then show ?case by (auto simp: nth_list_update)
next
  case (Cons u us)
  then show ?case by (auto simp: nth_list_update)
qed

text \<open>
  The representation: \<open>us\<close> are the received messages, oldest first, \<open>fs\<close> the free ones; together
  they are the pool, and no message is in both.
\<close>

definition udp_rep :: "udp_client \<Rightarrow> nat list \<Rightarrow> nat list \<Rightarrow> bool" where
  "udp_rep c us fs \<longleftrightarrow>
     chain (message_memory c) (used_head c) us \<and> chain (message_memory c) (free_head c) fs \<and>
     distinct (us @ fs) \<and> set (us @ fs) = {0..<length (message_memory c)} \<and>
     (us \<noteq> [] \<longrightarrow> used_tail c = Some (last us))"

definition packet_of :: "udp_message \<Rightarrow> pbuf \<times> u32 \<times> u16" where
  "packet_of m = (m_pbuf m, m_addr m, m_port m)"

definition packets :: "udp_client \<Rightarrow> nat list \<Rightarrow> (pbuf \<times> u32 \<times> u16) list" where
  "packets c us = map (\<lambda>i. packet_of (message_memory c ! i)) us"

lemma packets_update: "m \<notin> set us \<Longrightarrow> packets (c\<lparr>message_memory := (message_memory c)[m := v]\<rparr>) us = packets c us"
  unfolding packets_def by (auto intro!: arg_cong [of _ _ packet_of] nth_list_update_neq)

lemma udprecv_full:
  "udp_rep c us [] \<Longrightarrow> udprecv p addr port (c, es) = Inr (c, es @ [PbufFree p])"
  by (simp add: udp_rep_def udprecv_def)

lemma used_head_empty: "udp_rep c us fs \<Longrightarrow> used_head c = None \<longleftrightarrow> us = []"
  by (cases us) (auto simp: udp_rep_def)

text \<open>A packet joins the end of the queue, and the client is signalled if it asked for it.\<close>

definition enqueued :: "pbuf \<times> u32 \<times> u16 \<Rightarrow> udp_client \<Rightarrow> nat list \<Rightarrow> udp_client \<Rightarrow> nat list \<Rightarrow> bool" where
  "enqueued x c us c' us' \<longleftrightarrow> packets c' us' = packets c us @ [x] \<and> need_signal c' = 0 \<and>
     length (message_memory c') = length (message_memory c)"

lemma udprecv_room:
  assumes rep: "udp_rep c us (m # fs)"
  shows "ok (udprecv p addr port (c, es)) (\<lambda>(c', es'). udp_rep c' (us @ [m]) fs \<and>
     enqueued (p, addr, port) c us c' (us @ [m]) \<and>
     es' = es @ (if need_signal c = 0 then [] else [Signal (notification c)]))"
proof -
  let ?mem = "message_memory c"
  define new where "new = \<lparr>m_pbuf = p, m_addr = addr, m_port = port, m_next = None\<rparr>"
  let ?mem1 = "?mem[m := new]"
  have m: "free_head c = Some m" "m < length ?mem" "chain ?mem (m_next (?mem ! m)) fs" "m \<notin> set fs" "m \<notin> set us"
    and us: "chain ?mem (used_head c) us" "distinct us" "set us \<inter> set fs = {}" "distinct fs"
    and all: "set (us @ m # fs) = {0..<length ?mem}"
    using rep by (auto simp: udp_rep_def)
  have fs1: "chain ?mem1 (m_next (?mem ! m)) fs" using m by (simp add: chain_update)
  have us1: "chain ?mem1 (used_head c) us" using us m by (simp add: chain_update)
  show ?thesis
  proof (cases us rule: rev_cases)
    case Nil
    then have "used_head c = None" using us by simp
    then show ?thesis
      using m us fs1 all Nil
      by (simp add: udprecv_def Let_def new_def [symmetric])
        (simp add: udp_rep_def enqueued_def packets_def packet_of_def new_def)
  next
    case (snoc vs t)
    let ?mem2 = "?mem1[t := (?mem1 ! t)\<lparr>m_next := Some m\<rparr>]"
    have t: "t < length ?mem" "t \<noteq> m" "t \<notin> set fs" "used_tail c = Some t"
      using chain_bound [OF us(1), of t] snoc m us rep by (auto simp: udp_rep_def)
    obtain u where u: "used_head c = Some u" using us(1) snoc by (cases vs) auto
    have "chain ?mem2 (used_head c) (vs @ [t, m])"
      using us1 snoc m us by (intro chain_append) (auto simp: new_def)
    moreover have "chain ?mem2 (m_next (?mem ! m)) fs" using fs1 t by (simp add: chain_update)
    moreover have "map (\<lambda>i. packet_of (?mem2 ! i)) (us @ [m]) = map (\<lambda>i. packet_of (?mem ! i)) us @ [(p, addr, port)]"
      using m t us chain_bound [OF us(1)] snoc
      by (auto simp: packet_of_def nth_list_update new_def)
    ultimately show ?thesis
      using m us all snoc t u
      by (simp add: udprecv_def Let_def new_def [symmetric])
        (auto simp: udp_rep_def enqueued_def packets_def)
  qed
qed

lemma copy_chain_ok:
  "unat k + length (concat qs) \<le> length buf \<Longrightarrow> length buf < 2 ^ 32 \<Longrightarrow>
   ok (copy_chain qs k buf) (\<lambda>(buf', n). unat n = unat k + length (concat qs) \<and> length buf' = length buf \<and>
     take (unat n) buf' = take (unat k) buf @ concat qs)"
proof (induction qs k buf rule: copy_chain.induct)
  case (1 k buf)
  then show ?case by simp
next
  case (2 q qs k buf)
  let ?b = "take (unat k) buf @ q @ drop (unat k + length q) buf"
  have w: "buf_write (unat k) q buf = Inr ?b" using 2(2) by (simp add: buf_write_def)
  have k: "unat (k + word_of_nat (length q)) = unat k + length q"
    using 2(2,3) by (simp add: unat_word_ariths unat_of_nat)
  have "length ?b = length buf" using 2(2) by simp
  then show ?case
    using 2(1) [of ?b] 2(2,3) unfolding copy_chain.simps w rbind_Inr
    by (auto simp: k elim!: ok_mono)
qed

text \<open>The first packet leaves the queue and its bytes are in the buffer.\<close>

lemma udp_serve_packet:
  assumes rep: "udp_rep c (m # us) fs" and fits: "length (concat (m_pbuf (message_memory c ! m))) \<le> length buf"
    and buf: "length buf < 2 ^ 32"
  shows "ok (udp_serve buf (c, es)) (\<lambda>(mrs, buf', c', es'). \<exists>n.
     mrs = [if us = [] then 1 else 0, ucast (n :: u32), ucast (m_port (message_memory c ! m)),
            ucast (m_addr (message_memory c ! m))] \<and>
     unat n = length (concat (m_pbuf (message_memory c ! m))) \<and>
     take (unat n) buf' = concat (m_pbuf (message_memory c ! m)) \<and> length buf' = length buf \<and>
     udp_rep c' us (m # fs) \<and> packets c' us = packets c us \<and>
     length (message_memory c') = length (message_memory c) \<and>
     need_signal c' = (if us = [] then 1 else need_signal c) \<and>
     es' = es @ [PbufFree (m_pbuf (message_memory c ! m))])"
proof -
  let ?mem = "message_memory c"
  let ?n = "?mem ! m"
  let ?mem' = "?mem[m := ?n\<lparr>m_next := free_head c\<rparr>]"
  have m: "used_head c = Some m" "m < length ?mem" "chain ?mem (m_next ?n) us" "m \<notin> set us" "m \<notin> set fs"
    and fs: "chain ?mem (free_head c) fs" "distinct us" "distinct fs" "set us \<inter> set fs = {}"
      "set (m # us @ fs) = {0..<length ?mem}"
    using rep by (auto simp: udp_rep_def)
  have last: "us \<noteq> [] \<longrightarrow> used_tail c = Some (last us)" using rep by (simp add: udp_rep_def)
  have e: "m_next ?n = None \<longleftrightarrow> us = []" using m(3) by (cases us) auto
  have p: "packets (c\<lparr>message_memory := ?mem', free_head := f, used_head := u, need_signal := x\<rparr>) us = packets c us" for f u x
    using packets_update [OF m(4), of c "?n\<lparr>m_next := free_head c\<rparr>"] by (simp add: packets_def)
  obtain buf' n where b: "copy_chain (m_pbuf ?n) 0 buf = Inr (buf', n)" "unat n = length (concat (m_pbuf ?n))"
    "length buf' = length buf" "take (unat n) buf' = concat (m_pbuf ?n)"
    using copy_chain_ok [of 0 "m_pbuf ?n" buf] fits buf by (auto simp: ok_iff_ex)
  have c1: "chain ?mem' (m_next ?n) us" "chain ?mem' (Some m) (m # fs)"
    using m fs by (simp_all add: chain_update)
  show ?thesis
    using m b c1 e fs last p
    by (cases "us = []")
      (auto simp: udp_serve_def Let_def udp_rep_def packets_def)
qed

lemma udp_serve_empty:
  "udp_rep c [] fs \<Longrightarrow> udp_serve buf (c, es) = Inr ([- 1], buf, c\<lparr>need_signal := 1\<rparr>, es)"
  by (simp add: udp_rep_def udp_serve_def)

lemma part_case_prod: "part (case p of (x, y) \<Rightarrow> f x y) P = (case p of (x, y) \<Rightarrow> part (f x y) P)"
  by (cases p) simp

section \<open>The pool is a bounded queue\<close>

text \<open>The received packets, oldest first, read from the list; \<open>n\<close> bounds its length.\<close>

fun walk :: "nat \<Rightarrow> udp_message list \<Rightarrow> nat option \<Rightarrow> nat list" where
  "walk 0 mem h = []"
| "walk (Suc n) mem h = (case h of None \<Rightarrow> [] | Some m \<Rightarrow> m # walk n mem (m_next (mem ! m)))"

definition udp_queue :: "udp_client \<Rightarrow> (pbuf \<times> u32 \<times> u16) list" where
  "udp_queue c = packets c (walk (length (message_memory c)) (message_memory c) (used_head c))"

lemma walk_chain: "chain mem h xs \<Longrightarrow> length xs \<le> n \<Longrightarrow> walk n mem h = xs"
proof (induction n arbitrary: h xs)
  case (Suc n)
  then show ?case by (cases xs) auto
qed simp

lemma udp_rep_length: "udp_rep c us fs \<Longrightarrow> length us + length fs = length (message_memory c)"
  using distinct_card [of "us @ fs"] by (simp add: udp_rep_def)

lemma udp_queue_rep: "udp_rep c us fs \<Longrightarrow> udp_queue c = packets c us"
  using walk_chain [of "message_memory c" "used_head c" us "length (message_memory c)"] udp_rep_length [of c us fs]
  by (simp add: udp_rep_def udp_queue_def)

definition udp_wf :: "udp_client \<Rightarrow> bool" where
  "udp_wf c \<longleftrightarrow> (\<exists>us fs. udp_rep c us fs)"

lemma length_packets [simp]: "length (packets c us) = length us"
  by (simp add: packets_def)

lemma pool_chain: "j \<le> bufs \<Longrightarrow> chain (pool_of bufs) (if j = 0 then None else Some (j - 1)) (rev [0..<j])"
proof (induction j)
  case (Suc j)
  then show ?case by (cases j) (simp_all add: pool_of_def)
qed simp

lemma udp_client_init_ok:
  "0 < bufs \<Longrightarrow> ok (udp_client_init bufs client ntfn) (\<lambda>c. udp_wf c \<and> udp_queue c = [] \<and>
     length (message_memory c) = bufs \<and> need_signal c \<noteq> 0 \<and> notification c = ntfn)"
proof -
  assume b: "0 < bufs"
  then have "chain (pool_of bufs) (Some (bufs - 1)) (rev [0..<bufs])" using pool_chain [of bufs bufs] by simp
  moreover have "length (pool_of bufs) = bufs" by (simp add: pool_of_def)
  ultimately have rep: "ok (udp_client_init bufs client ntfn) (\<lambda>c. udp_rep c [] (rev [0..<bufs]))"
    using b by (simp add: udp_client_init_def udp_rep_def)
  show ?thesis
    using rep b by (auto simp: udp_client_init_def udp_wf_def udp_queue_rep packets_def pool_of_def)
qed

text \<open>What reception does to the queue.\<close>

lemma udprecv_queue:
  assumes "udp_wf c"
  shows "ok (udprecv p addr port (c, es)) (\<lambda>(c', es').
     udp_wf c' \<and> length (message_memory c') = length (message_memory c) \<and> notification c' = notification c \<and>
     (if length (udp_queue c) = length (message_memory c) then c' = c \<and> es' = es @ [PbufFree p]
      else udp_queue c' = udp_queue c @ [(p, addr, port)] \<and> need_signal c' = 0 \<and>
        es' = es @ (if need_signal c = 0 then [] else [Signal (notification c)])))"
proof -
  obtain us fs where rep: "udp_rep c us fs" using assms by (auto simp: udp_wf_def)
  have len: "length us + length fs = length (message_memory c)" by (rule udp_rep_length [OF rep])
  have n: "part (udprecv p addr port (c, es)) (\<lambda>(c', es'). notification c' = notification c)"
    by (auto simp: udprecv_def Let_def split: option.split)
  show ?thesis
  proof (cases fs)
    case Nil
    then show ?thesis using assms rep len by (simp add: udprecv_full udp_queue_rep [OF rep])
  next
    case (Cons m fs')
    then have "ok (udprecv p addr port (c, es)) (\<lambda>(c', es'). udp_rep c' (us @ [m]) fs' \<and>
      enqueued (p, addr, port) c us c' (us @ [m]) \<and>
      es' = es @ (if need_signal c = 0 then [] else [Signal (notification c)]))"
      using udprecv_room rep by simp
    from part_ok [OF n this] show ?thesis
      by (rule ok_mono) (use len Cons in \<open>auto simp: udp_queue_rep [OF rep] udp_queue_rep enqueued_def udp_wf_def\<close>)
  qed
qed

text \<open>A packet as the client sees it: its bytes, port and address.\<close>

definition delivered :: "pbuf \<times> u32 \<times> u16 \<Rightarrow> u8 list \<times> u16 \<times> u32" where
  "delivered x = (concat (fst x), snd (snd x), fst (snd x))"

definition poll_outcome :: "u8 list \<Rightarrow> (u32 \<times> u16 \<times> u32) option \<Rightarrow> (u8 list \<times> u16 \<times> u32) list" where
  "poll_outcome buf r = (case r of None \<Rightarrow> [] | Some (len, port, addr) \<Rightarrow> [(take (unat len) buf, port, addr)])"

definition fits :: "pbuf \<times> u32 \<times> u16 \<Rightarrow> bool" where
  "fits x \<longleftrightarrow> length (concat (fst x)) < 4096"

lemma ucast_up_down [simp]:
  "ucast (ucast (x :: 'a::len word) :: 'b::len word) = (x :: 'a word)" if "LENGTH('a) \<le> LENGTH('b)"
  by (rule bit_word_eqI) (use that in \<open>simp add: bit_simps\<close>)

lemma minus_one_down: "(ucast (- 1 :: u64) :: i32) = - 1"
  by (rule bit_word_eqI) (simp add: bit_simps)

lemma udp_poll_empty: "udp_poll [- 1] = Inr (- 1, None)"
  using minus_one_down by (simp add: udp_poll_def Let_def rassert_def)

lemma udp_poll_packet:
  "n < 4096 \<Longrightarrow> udp_poll [if b then 1 else 0, ucast (n :: u32), ucast (port :: u16), ucast (addr :: u32)] =
     Inr (if b then 1 else 0, Some (n, port, addr))"
  by (simp add: udp_poll_def Let_def rassert_def)

text \<open>What a poll, a request and its answer, does to the queue.\<close>

lemma poll_queue:
  assumes wf: "udp_wf c" and fits: "list_all fits (udp_queue c)" and buf: "length buf = 4096"
  shows "ok (rbind (udp_serve buf (c, es)) (\<lambda>(mrs, buf, c, es). rbind (udp_poll mrs) (\<lambda>(status, r). Inr (status, r, buf, c, es))))
    (\<lambda>(status, r, buf', c', es'). udp_wf c' \<and> length buf' = 4096 \<and> length (message_memory c') = length (message_memory c) \<and>
      poll_outcome buf' r = map delivered (take 1 (udp_queue c)) \<and> udp_queue c' = drop 1 (udp_queue c) \<and>
      (if udp_queue c' = [] then status \<noteq> 0 \<and> need_signal c' \<noteq> 0 else status = 0 \<and> need_signal c' = need_signal c) \<and>
      es' = es @ map (PbufFree \<circ> fst) (take 1 (udp_queue c)) \<and> notification c' = notification c)"
proof -
  obtain us fs where rep: "udp_rep c us fs" using wf by (auto simp: udp_wf_def)
  note q = udp_queue_rep [OF rep]
  have n: "part (udp_serve buf (c, es)) (\<lambda>(mrs, b, c', es'). notification c' = notification c)"
    by (simp add: udp_serve_def Let_def split: option.split) (auto intro!: part_all simp: part_case_prod)
  show ?thesis
  proof (cases us)
    case Nil
    then have "packets (c\<lparr>need_signal := 1\<rparr>) [] = []" "udp_rep (c\<lparr>need_signal := 1\<rparr>) [] fs"
      using rep by (auto simp: packets_def udp_rep_def)
    then show ?thesis
      using Nil buf q udp_queue_rep [of "c\<lparr>need_signal := 1\<rparr>" "[]" fs]
      by (auto simp: udp_serve_empty [OF rep [unfolded Nil]] udp_poll_empty poll_outcome_def packets_def udp_wf_def)
  next
    case (Cons m ms)
    let ?p = "message_memory c ! m"
    have f: "length (concat (m_pbuf ?p)) < 4096"
      using fits q Cons by (simp add: fits_def packets_def packet_of_def)
    show ?thesis
      unfolding ok_rbind
      apply (rule ok_mono [OF part_ok [OF n udp_serve_packet [OF rep [unfolded Cons]]]])
      using f buf apply simp
      using buf apply simp
      using Cons q f buf
      apply (clarsimp simp: udp_poll_packet word_less_nat_alt)
      apply (auto simp: udp_queue_rep poll_outcome_def packets_def packet_of_def delivered_def udp_wf_def word_less_nat_alt)
      done
  qed
qed

section \<open>A client and the connector\<close>

text \<open>
  The client sleeps until it is signalled and then polls until the status is not 0, as the loop of
  \<^verbatim>\<open>Echo\<close> does.  Packets arrive at any time.  \<open>ses_accepted\<close> and \<open>ses_received\<close> record
  which packets entered the pool and what the client saw.
\<close>

record udp_session =
  ses_client :: udp_client
  ses_buf :: "u8 list"
  ses_pending :: bool
  ses_polling :: bool
  ses_accepted :: "(pbuf \<times> u32 \<times> u16) list"
  ses_received :: "(u8 list \<times> u16 \<times> u32) list"

datatype udp_event = Arrive pbuf u32 u16 | Wake | Poll

definition session_step :: "udp_event \<Rightarrow> udp_session \<Rightarrow> udp_session res" where
  "session_step ev s =
     (case ev of
        Arrive p addr port \<Rightarrow>
          rbind (udprecv p addr port (ses_client s, [])) (\<lambda>(c, es).
          Inr (s\<lparr>ses_client := c, ses_pending := ses_pending s \<or> Signal (notification (ses_client s)) \<in> set es,
                 ses_accepted := ses_accepted s @ (if PbufFree p \<in> set es then [] else [(p, addr, port)])\<rparr>))
      | Wake \<Rightarrow> Inr (if ses_pending s \<and> \<not> ses_polling s then s\<lparr>ses_pending := False, ses_polling := True\<rparr> else s)
      | Poll \<Rightarrow>
          if ses_polling s
          then rbind (udp_serve (ses_buf s) (ses_client s, [])) (\<lambda>(mrs, buf, c, es).
               rbind (udp_poll mrs) (\<lambda>(status, r).
               Inr (s\<lparr>ses_client := c, ses_buf := buf, ses_polling := status = 0,
                      ses_received := ses_received s @ poll_outcome buf r\<rparr>)))
          else Inr s)"

definition session_start :: "udp_client \<Rightarrow> u8 list \<Rightarrow> udp_session" where
  "session_start c buf = \<lparr>ses_client = c, ses_buf = buf, ses_pending = False, ses_polling = False,
     ses_accepted = [], ses_received = []\<rparr>"

fun short_packet :: "udp_event \<Rightarrow> bool" where
  "short_packet (Arrive p addr port) = fits (p, addr, port)"
| "short_packet _ = True"

text \<open>
  The invariant: what was accepted is what was received and what is queued, in this order, and
  unless the client is polling or about to, nothing is queued and the next packet will signal it.
\<close>

definition session_inv :: "nat \<Rightarrow> udp_session \<Rightarrow> bool" where
  "session_inv bufs s \<longleftrightarrow> udp_wf (ses_client s) \<and> length (message_memory (ses_client s)) = bufs \<and> 0 < bufs \<and>
     length (ses_buf s) = 4096 \<and> list_all fits (udp_queue (ses_client s)) \<and>
     map delivered (ses_accepted s) = ses_received s @ map delivered (udp_queue (ses_client s)) \<and>
     (\<not> ses_polling s \<longrightarrow> ses_pending s \<or> udp_queue (ses_client s) = [] \<and> need_signal (ses_client s) \<noteq> 0)"

lemma session_arrive:
  assumes inv: "session_inv bufs s" and "fits (p, addr, port)"
  shows "ok (session_step (Arrive p addr port) s) (session_inv bufs)"
proof -
  have wf: "udp_wf (ses_client s)" using inv by (simp add: session_inv_def)
  show ?thesis
    unfolding session_step_def udp_event.case ok_rbind
    by (rule ok_mono [OF udprecv_queue [OF wf]])
      (use assms in \<open>auto simp: session_inv_def split: if_splits\<close>)
qed

lemma session_poll:
  assumes inv: "session_inv bufs s"
  shows "ok (session_step Poll s) (\<lambda>s'. session_inv bufs s' \<and>
    (ses_polling s \<longrightarrow> udp_queue (ses_client s') = drop 1 (udp_queue (ses_client s)) \<and>
      ses_accepted s' = ses_accepted s \<and> (ses_polling s' \<longleftrightarrow> udp_queue (ses_client s') \<noteq> [])))"
proof (cases "ses_polling s")
  case False
  then show ?thesis using inv by (simp add: session_step_def)
next
  case True
  have wf: "udp_wf (ses_client s)" "list_all fits (udp_queue (ses_client s))" "length (ses_buf s) = 4096"
    using inv by (auto simp: session_inv_def)
  obtain mrs buf c es status r where
    1: "udp_serve (ses_buf s) (ses_client s, []) = Inr (mrs, buf, c, es)" "udp_poll mrs = Inr (status, r)" and
    2: "udp_wf c" "length buf = 4096" "length (message_memory c) = length (message_memory (ses_client s))"
      "poll_outcome buf r = map delivered (take 1 (udp_queue (ses_client s)))"
      "udp_queue c = drop 1 (udp_queue (ses_client s))"
      "if udp_queue c = [] then status \<noteq> 0 \<and> need_signal c \<noteq> 0 else status = 0 \<and> need_signal c = need_signal (ses_client s)"
    using poll_queue [OF wf, of "[]"] by (auto simp: ok_iff_ex rbind_eq_Inr)
  have "map delivered (udp_queue (ses_client s)) = map delivered (take 1 (udp_queue (ses_client s))) @ map delivered (udp_queue c)"
    unfolding 2(5) map_append [symmetric] append_take_drop_id ..
  moreover have "list_all fits (udp_queue c)" using wf(2) 2(5) by (cases "udp_queue (ses_client s)") auto
  ultimately show ?thesis
    using True inv 1 2 by (auto simp: session_step_def session_inv_def split: if_splits)
qed

lemma session_step_ok: "session_inv bufs s \<Longrightarrow> short_packet ev \<Longrightarrow> ok (session_step ev s) (session_inv bufs)"
proof (cases ev)
  case (Arrive p addr port)
  then show "session_inv bufs s \<Longrightarrow> short_packet ev \<Longrightarrow> ok (session_step ev s) (session_inv bufs)"
    using session_arrive by simp
next
  case Wake
  then show "session_inv bufs s \<Longrightarrow> short_packet ev \<Longrightarrow> ok (session_step ev s) (session_inv bufs)"
    by (auto simp: session_step_def session_inv_def)
next
  case Poll
  then show "session_inv bufs s \<Longrightarrow> short_packet ev \<Longrightarrow> ok (session_step ev s) (session_inv bufs)"
    using ok_mono [OF session_poll] by blast
qed

interpretation udp_link: safe_device session_step "session_inv bufs" short_packet for bufs
  by unfold_locales (rule session_step_ok)

lemma session_start_inv:
  "udp_client_init bufs client ntfn = Inr c \<Longrightarrow> length buf = 4096 \<Longrightarrow> session_inv bufs (session_start c buf)"
  using udp_client_init_ok [of bufs client ntfn]
  by (cases "bufs = 0") (auto simp: session_inv_def session_start_def udp_client_init_def)

lemma session_drain:
  "session_inv bufs s \<Longrightarrow> ses_polling s \<Longrightarrow> length (udp_queue (ses_client s)) \<le> n \<Longrightarrow> 0 < n \<Longrightarrow>
   ok (run_ops session_step (replicate n Poll) s) (\<lambda>t. \<not> ses_polling t \<and> ses_accepted t = ses_accepted s \<and>
     session_inv bufs t \<and> udp_queue (ses_client t) = [])"
proof (induction n arbitrary: s)
  case (Suc n)
  have idle: "run_ops session_step (replicate k Poll) t = Inr t" if "\<not> ses_polling t" for k t
    using that by (induction k) (simp_all add: session_step_def)
  from ok_mono [OF session_poll [OF Suc.prems(1)]] show ?case
    unfolding replicate_Suc run_ops.simps ok_rbind
  proof (rule ok_mono)
    fix s'
    assume "session_inv bufs s' \<and> (ses_polling s \<longrightarrow> udp_queue (ses_client s') = drop 1 (udp_queue (ses_client s)) \<and>
      ses_accepted s' = ses_accepted s \<and> (ses_polling s' \<longleftrightarrow> udp_queue (ses_client s') \<noteq> []))"
    then have s': "session_inv bufs s'" "udp_queue (ses_client s') = drop 1 (udp_queue (ses_client s))"
      "ses_accepted s' = ses_accepted s" "ses_polling s' \<longleftrightarrow> udp_queue (ses_client s') \<noteq> []"
      using Suc.prems(2) by auto
    show "ok (run_ops session_step (replicate n Poll) s') (\<lambda>t. \<not> ses_polling t \<and> ses_accepted t = ses_accepted s \<and>
     session_inv bufs t \<and> udp_queue (ses_client t) = [])"
    proof (cases "ses_polling s'")
      case False
      then show ?thesis using s' by (simp add: idle)
    next
      case True
      then have "length (udp_queue (ses_client s')) \<le> n" "0 < n" using s' Suc.prems(3) by (cases n; auto)+
      then show ?thesis using Suc.IH [OF s'(1) True] s'(3) by simp
    qed
  qed
qed simp


lemma udp_wf_length: "udp_wf c \<Longrightarrow> length (udp_queue c) \<le> length (message_memory c)"
  using udp_queue_rep udp_rep_length by (fastforce simp: udp_wf_def)

text \<open>
  C4. Packets pass through the connector in order.  Whatever packets of fewer than 4096 bytes
  arrive, and whenever the client wakes up and polls, no list operation of the connector leaves its
  pool, the client has received exactly the packets that were accepted, in order, with their bytes,
  port and address, except those still queued, and a packet is dropped only when the pool is full.
\<close>

theorem udp_link_in_order:
  assumes "udp_client_init bufs client ntfn = Inr c" "length buf = 4096" "list_all short_packet evs"
  shows "ok (run_ops session_step evs (session_start c buf)) (\<lambda>s.
     map delivered (ses_accepted s) = ses_received s @ map delivered (udp_queue (ses_client s)) \<and>
     ok (session_step (Arrive p addr port) s) (\<lambda>s'. ses_accepted s' = ses_accepted s @
       (if length (udp_queue (ses_client s)) = bufs then [] else [(p, addr, port)])))"
proof (rule ok_mono [OF udp_link.run_ok [OF session_start_inv [OF assms(1,2)] assms(3)]])
  fix s assume inv: "session_inv bufs s"
  then have wf: "udp_wf (ses_client s)" by (simp add: session_inv_def)
  have "ok (session_step (Arrive p addr port) s) (\<lambda>s'. ses_accepted s' = ses_accepted s @
       (if length (udp_queue (ses_client s)) = bufs then [] else [(p, addr, port)]))"
    unfolding session_step_def udp_event.case ok_rbind
    by (rule ok_mono [OF udprecv_queue [OF wf]]) (use inv in \<open>auto simp: session_inv_def split: if_splits\<close>)
  then show "map delivered (ses_accepted s) = ses_received s @ map delivered (udp_queue (ses_client s)) \<and>
     ok (session_step (Arrive p addr port) s) (\<lambda>s'. ses_accepted s' = ses_accepted s @
       (if length (udp_queue (ses_client s)) = bufs then [] else [(p, addr, port)]))"
    using inv by (simp add: session_inv_def)
qed

theorem udp_link_in_order_witness:
  "\<exists>c. udp_client_init 2 1 8 = Inr c \<and>
     ok (run_ops session_step [Arrive [[1, 2], [3]] 5 7, Wake, Poll] (session_start c (replicate 4096 0)))
       (\<lambda>s. map delivered (ses_accepted s) = ses_received s @ map delivered (udp_queue (ses_client s)))"
proof -
  obtain c where c: "udp_client_init 2 1 8 = Inr c" by (simp add: udp_client_init_def)
  show ?thesis
    using udp_link_in_order [OF c, of "replicate 4096 0" "[Arrive [[1, 2], [3]] 5 7, Wake, Poll]" "[]" 0 0] c
    by (simp add: fits_def ok_conj)
qed

text \<open>
  C35. No wake-up is lost.  After any interleaving of arrivals, wake-ups and polls, a client that
  handles its notification, by polling until the status is not 0, has received every accepted packet
  and sleeps; at most as many polls as the pool has messages are needed.
\<close>

theorem udp_no_lost_wakeup:
  assumes "udp_client_init bufs client ntfn = Inr c" "length buf = 4096" "list_all short_packet evs"
  shows "ok (run_ops session_step evs (session_start c buf)) (\<lambda>s.
     ok (run_ops session_step (Wake # replicate bufs Poll) s) (\<lambda>t.
       ses_received t = map delivered (ses_accepted s) \<and> \<not> ses_polling t))"
proof (rule ok_mono [OF udp_link.run_ok [OF session_start_inv [OF assms(1,2)] assms(3)]])
  fix s assume inv: "session_inv bufs s"
  then have wf: "length (udp_queue (ses_client s)) \<le> bufs" "0 < bufs"
    using udp_wf_length by (auto simp: session_inv_def)
  show "ok (run_ops session_step (Wake # replicate bufs Poll) s) (\<lambda>t.
       ses_received t = map delivered (ses_accepted s) \<and> \<not> ses_polling t)"
  proof (cases "ses_polling s \<or> ses_pending s")
    case True
    define s' where "s' = (if ses_pending s \<and> \<not> ses_polling s then s\<lparr>ses_pending := False, ses_polling := True\<rparr> else s)"
    have "session_inv bufs s'" "ses_polling s'" "ses_client s' = ses_client s" "ses_accepted s' = ses_accepted s"
      using inv True by (auto simp: session_inv_def s'_def)
    then have "ok (run_ops session_step (replicate bufs Poll) s') (\<lambda>t. \<not> ses_polling t \<and> ses_accepted t = ses_accepted s \<and>
     session_inv bufs t \<and> udp_queue (ses_client t) = [])"
      using session_drain [of bufs s' bufs] wf by simp
    then show ?thesis by (auto simp: session_step_def s'_def [symmetric] session_inv_def elim!: ok_mono)
  next
    case False
    have idle: "run_ops session_step (replicate k Poll) s = Inr s" for k
      using False by (induction k) (simp_all add: session_step_def)
    then show ?thesis using inv False by (simp add: session_inv_def session_step_def)
  qed
qed

theorem udp_no_lost_wakeup_witness:
  "\<exists>c. udp_client_init 2 1 8 = Inr c \<and>
     ok (run_ops session_step [Arrive [[1]] 5 7, Arrive [[2]] 6 8, Arrive [[3]] 6 9] (session_start c (replicate 4096 0)))
       (\<lambda>s. ok (run_ops session_step [Wake, Poll, Poll] s) (\<lambda>t. ses_received t = map delivered (ses_accepted s)))"
proof -
  obtain c where c: "udp_client_init 2 1 8 = Inr c" by (simp add: udp_client_init_def)
  show ?thesis
    using udp_no_lost_wakeup [OF c, of "replicate 4096 0" "[Arrive [[1]] 5 7, Arrive [[2]] 6 8, Arrive [[3]] 6 9]"] c
    by (simp add: fits_def numeral_2_eq_2 ok_conj del: run_ops.simps)
qed

section \<open>Echoing\<close>

definition echoed :: "nat \<Rightarrow> u16 \<Rightarrow> pbuf \<times> u32 \<times> u16 \<Rightarrow> udp_effect list" where
  "echoed i dest x = (let (p, addr, port) = x in [PbufFree p, UdpSendTo i (concat p) addr dest, PbufFree [concat p]])"

definition echo_ready :: "echo_state \<Rightarrow> bool" where
  "echo_ready s \<longleftrightarrow> udp_wf (e_client s) \<and> list_all fits (udp_queue (e_client s)) \<and>
     length (e_recv_buf s) = 4096 \<and> length (e_send_buf s) = 4096"

lemma udp_send_sends:
  assumes "n < 4096" "length p = 4096" "length buf = 4096" "send_dest conf badge 0 = Some (i, dest)"
  shows "ok (rbind (udp_send p n addr buf) (\<lambda>(mrs, buf, _). rbind (udp_send_run conf 0 True badge mrs buf es) (\<lambda>es. Inr (buf, es))))
    (\<lambda>(buf', es'). length buf' = 4096 \<and>
      es' = es @ [UdpSendTo i (take (unat n) p) addr dest, PbufFree [take (unat n) p]])"
proof -
  have n: "unat n < 4096" "\<not> 4096 < n" using assms(1) by (auto simp: word_less_nat_alt)
  then show ?thesis
    using assms by (simp add: udp_send_def udp_send_run_def Let_def buf_write_def rassert_def)
qed

lemma echo_turn_ok:
  assumes ready: "echo_ready s" and dest: "send_dest conf badge 0 = Some (i, dest)"
  shows "ok (echo_turn conf badge s) (\<lambda>(status, s'). echo_ready s' \<and>
     udp_queue (e_client s') = drop 1 (udp_queue (e_client s)) \<and>
     e_out s' = e_out s @ concat (map (echoed i dest) (take 1 (udp_queue (e_client s)))) \<and>
     (status = 0 \<longleftrightarrow> udp_queue (e_client s') \<noteq> []) \<and>
     (udp_queue (e_client s') = [] \<longrightarrow> need_signal (e_client s') \<noteq> 0))"
proof -
  have wf: "udp_wf (e_client s)" "list_all fits (udp_queue (e_client s))" "length (e_recv_buf s) = 4096"
      "length (e_send_buf s) = 4096"
    using ready by (auto simp: echo_ready_def)
  obtain mrs buf c es status r where
    1: "udp_serve (e_recv_buf s) (e_client s, e_out s) = Inr (mrs, buf, c, es)" "udp_poll mrs = Inr (status, r)" and
    2: "udp_wf c" "length buf = 4096"
      "poll_outcome buf r = map delivered (take 1 (udp_queue (e_client s)))"
      "udp_queue c = drop 1 (udp_queue (e_client s))"
      "if udp_queue c = [] then status \<noteq> 0 \<and> need_signal c \<noteq> 0 else status = 0"
      "es = e_out s @ map (PbufFree \<circ> fst) (take 1 (udp_queue (e_client s)))"
    using poll_queue [OF wf(1-3), of "e_out s"] by (auto simp: ok_iff_ex rbind_eq_Inr split: if_splits)
  have fits: "list_all fits (udp_queue c)" using wf(2) 2(4) by (cases "udp_queue (e_client s)") auto
  have len: "n < 4096" if "r = Some (n, x)" for n x
    using 1(2) that by (auto simp: udp_poll_def Let_def rbind_eq_Inr rassert_def split: if_splits)
  show ?thesis
  proof (cases "udp_queue (e_client s)")
    case Nil
    then have "r = None" using 2(3) by (auto simp: poll_outcome_def split: option.splits)
    then show ?thesis using 1 2 fits Nil wf by (simp add: echo_turn_def Let_def echo_ready_def split: if_splits)
  next
    case (Cons x xs)
    obtain n port addr where r: "r = Some (n, port, addr)" "take (unat n) buf = concat (fst x)" "addr = fst (snd x)"
      using 2(3) Cons by (auto simp: poll_outcome_def delivered_def split: option.splits)
    show ?thesis
      using udp_send_sends [OF len [OF r(1)] 2(2) wf(4) dest, of addr es] 1 2 fits Cons r wf
      by (auto simp: echo_turn_def Let_def echo_ready_def echoed_def rbind_eq_Inr ok_iff_ex split: if_splits prod.splits)
  qed
qed

text \<open>
  The echo component returns every queued packet, complete and in order, frees its buffers, and
  leaves an empty queue whose next packet will wake it; its loop takes one turn per packet.
\<close>

theorem echo_returns_every_packet:
  assumes "echo_ready s" "send_dest conf badge 0 = Some (i, dest)" "length (udp_queue (e_client s)) < fuel"
  shows "ok (echo_recv_ready_callback fuel conf badge s) (\<lambda>s'.
     e_out s' = e_out s @ concat (map (echoed i dest) (udp_queue (e_client s))) \<and>
     udp_queue (e_client s') = [] \<and> need_signal (e_client s') \<noteq> 0)"
  using assms
proof (induction fuel arbitrary: s)
  case (Suc fuel)
  show ?case
    unfolding echo_recv_ready_callback.simps ok_rbind
  proof (rule ok_mono [OF echo_turn_ok [OF Suc.prems(1,2)]])
    fix x
    assume x: "case x of (status, s') \<Rightarrow> echo_ready s' \<and>
     udp_queue (e_client s') = drop 1 (udp_queue (e_client s)) \<and>
     e_out s' = e_out s @ concat (map (echoed i dest) (take 1 (udp_queue (e_client s)))) \<and>
     (status = 0 \<longleftrightarrow> udp_queue (e_client s') \<noteq> []) \<and>
     (udp_queue (e_client s') = [] \<longrightarrow> need_signal (e_client s') \<noteq> 0)"
    obtain status t where t: "x = (status, t)" by (cases x)
    show "ok (case x of (status, s) \<Rightarrow> if status = 0 then echo_recv_ready_callback fuel conf badge s else Inr s)
      (\<lambda>s'. e_out s' = e_out s @ concat (map (echoed i dest) (udp_queue (e_client s))) \<and>
        udp_queue (e_client s') = [] \<and> need_signal (e_client s') \<noteq> 0)"
      using Suc.IH [of t] Suc.prems x t by (cases "udp_queue (e_client s)") (auto elim!: ok_mono)
  qed
qed simp


text \<open>Everything the queue of a receiver held has been returned, and the next packet wakes the component.\<close>

definition echo_served :: "nat \<Rightarrow> u16 \<Rightarrow> echo_state \<Rightarrow> echo_state \<Rightarrow> bool" where
  "echo_served i dest s s' \<longleftrightarrow> e_out s' = e_out s @ concat (map (echoed i dest) (udp_queue (e_client s))) \<and>
     udp_queue (e_client s') = [] \<and> nz (need_signal (e_client s'))"

text \<open>
  A notification serves exactly the receivers whose bits are in its badge: each of them returns every
  packet it had queued, and the other one is left as it was.
\<close>

theorem echo_wakeup_serves:
  assumes "echo_ready s1" "send_dest (ep_conf p1) (ep_badge p1) 0 = Some (i1, d1)" "length (udp_queue (e_client s1)) < fuel"
    and "echo_ready s2" "send_dest (ep_conf p2) (ep_badge p2) 0 = Some (i2, d2)" "length (udp_queue (e_client s2)) < fuel"
  shows "ok (echo_wakeup fuel p1 p2 badge (s1, s2)) (\<lambda>(t1, t2).
    (if nz (badge AND ep_notification_badge p1) then echo_served i1 d1 s1 t1 else t1 = s1) \<and>
    (if nz (badge AND ep_notification_badge p2) then echo_served i2 d2 s2 t2 else t2 = s2))"
proof -
  have 1: "ok (echo_recv_ready_callback fuel (ep_conf p1) (ep_badge p1) s1) (echo_served i1 d1 s1)"
    by (rule ok_mono [OF echo_returns_every_packet [OF assms(1-3)]]) (simp add: echo_served_def)
  have 2: "ok (echo_recv_ready_callback fuel (ep_conf p2) (ep_badge p2) s2) (echo_served i2 d2 s2)"
    by (rule ok_mono [OF echo_returns_every_packet [OF assms(4-6)]]) (simp add: echo_served_def)
  show ?thesis using 1 2 by (auto simp: echo_wakeup_def echo2_recv_ready_callback_def ok_iff_ex)
qed

lemma echo_start_ready:
  "udp_client_init bufs client ntfn = Inr c \<Longrightarrow> echo_ready \<lparr>e_client = c, e_recv_buf = replicate 4096 0, e_send_buf = replicate 4096 0, e_out = []\<rparr>
    \<and> udp_queue c = []"
  using udp_client_init_ok [of bufs client ntfn]
  by (cases "bufs = 0") (auto simp: echo_ready_def udp_client_init_def)

theorem echo_returns_every_packet_witness:
  "\<exists>c c' es. udp_client_init 2 1 8 = Inr c \<and> udprecv [[1, 2], [3]] 5 7 (c, []) = Inr (c', es) \<and>
     ok (echo_recv_ready_callback 2 [(3, 9)] 3
       \<lparr>e_client = c', e_recv_buf = replicate 4096 0, e_send_buf = replicate 4096 0, e_out = []\<rparr>)
       (\<lambda>s. e_out s = [PbufFree [[1, 2], [3]], UdpSendTo 0 [1, 2, 3] 5 9, PbufFree [[1, 2, 3]]])"
proof -
  obtain c where c: "udp_client_init 2 1 8 = Inr c" by (simp add: udp_client_init_def)
  have c0: "udp_wf c" "udp_queue c = []" "length (message_memory c) = 2"
    using udp_client_init_ok [of 2 1 8] c by auto
  obtain c' es where c': "udprecv [[1, 2], [3]] 5 7 (c, []) = Inr (c', es)" "udp_wf c'" "udp_queue c' = [([[1, 2], [3]], 5, 7)]"
    using udprecv_queue [OF c0(1), of "[[1, 2], [3]]" 5 7 "[]"] c0 by (auto simp: ok_iff_ex)
  let ?s = "\<lparr>e_client = c', e_recv_buf = replicate 4096 0, e_send_buf = replicate 4096 0, e_out = []\<rparr>"
  have "echo_ready ?s" using c' by (simp add: echo_ready_def fits_def)
  then show ?thesis
    using echo_returns_every_packet [of ?s "[(3, 9)]" 3 0 9 2] c c' by (auto simp: echoed_def ok_conj)
qed

end
