(* ===== verification/Irq_Lines.thy ===== *)
theory Irq_Lines
  imports I8254 Serial Mc146818rtc
begin

unbundle bit_operations_syntax

text \<open>
  Which interrupt lines the devices drive.  The PIT sets line 0 and no other, the UART line 4, the
  clock line 8: for every operation of a device, a line other than its own has the level
  afterwards that it had before.  These frame conditions are what lets the invariants of the
  devices be combined, since all of them drive the lines of one interrupt controller.  Each is
  stated for an arbitrary postcondition, so that the collection \<open>frame\<close> decomposes the body of
  an operation into its calls.
\<close>

section \<open>The PIT drives line 0 only\<close>

lemma pit_get_count_frame [frame]:
  "n \<noteq> TIMER_IRQ \<Longrightarrow> keeps n L w \<Longrightarrow> (\<And>x. keeps n L (snd x) \<Longrightarrow> P x) \<Longrightarrow> part (pit_get_count E f s w) P"
  unfolding pit_get_count_def Let_def split_beta
  by (auto intro!: frame intro: part_all)

lemma pit_irq_timer_update_frame [frame]:
  "n \<noteq> TIMER_IRQ \<Longrightarrow> keeps n L w \<Longrightarrow> (\<And>x. keeps n L (snd x) \<Longrightarrow> P x) \<Longrightarrow> part (pit_irq_timer_update E s t w) P"
  unfolding pit_irq_timer_update_def Let_def split_beta
  by (auto intro!: frame intro: part_all)

lemma pit_irq_timer_frame [frame]:
  "n \<noteq> TIMER_IRQ \<Longrightarrow> keeps n L w \<Longrightarrow> (\<And>x. keeps n L (snd x) \<Longrightarrow> P x) \<Longrightarrow> part (pit_irq_timer E s w) P"
  unfolding pit_irq_timer_def Let_def split_beta
  by (auto intro!: frame intro: part_all)

lemma pit_load_count_frame [frame]:
  "n \<noteq> TIMER_IRQ \<Longrightarrow> keeps n L w \<Longrightarrow> (\<And>x. keeps n L (snd x) \<Longrightarrow> P x) \<Longrightarrow> part (pit_load_count E f s v w) P"
  unfolding pit_load_count_def Let_def split_beta
  by (auto intro!: frame intro: part_all)

lemma pit_latch_count_frame [frame]:
  "n \<noteq> TIMER_IRQ \<Longrightarrow> keeps n L w \<Longrightarrow> (\<And>x. keeps n L (snd x) \<Longrightarrow> P x) \<Longrightarrow> part (pit_latch_count E f s w) P"
  unfolding pit_latch_count_def Let_def split_beta
  by (auto intro!: frame intro: part_all)

lemma pit_read_back_frame [frame]:
  "n \<noteq> TIMER_IRQ \<Longrightarrow> keeps n L w \<Longrightarrow> (\<And>x. keeps n L (snd x) \<Longrightarrow> P x) \<Longrightarrow> part (pit_read_back E f v s w) P"
  unfolding pit_read_back_def Let_def split_beta
  by (auto intro!: frame intro: part_all)

lemma pit_read_back_loop_frame [frame]:
  "n \<noteq> TIMER_IRQ \<Longrightarrow> keeps n L w \<Longrightarrow> (\<And>x. keeps n L (snd x) \<Longrightarrow> P x) \<Longrightarrow> part (pit_read_back_loop E f v c pit w) P"
  unfolding pit_read_back_loop_def Let_def split_beta
  by (auto intro!: frame intro: part_all)

lemma pit_ioport_write_frame [frame]:
  "n \<noteq> TIMER_IRQ \<Longrightarrow> keeps n L w \<Longrightarrow> (\<And>x. keeps n L (snd x) \<Longrightarrow> P x) \<Longrightarrow> part (pit_ioport_write E f pit a v w) P"
  unfolding pit_ioport_write_def Let_def split_beta
  by (auto intro!: frame intro: part_all)

lemma pit_channel_read_frame [frame]:
  "n \<noteq> TIMER_IRQ \<Longrightarrow> keeps n L w \<Longrightarrow> (\<And>x. keeps n L (snd (snd x)) \<Longrightarrow> P x) \<Longrightarrow> part (pit_channel_read E f s w) P"
  unfolding pit_channel_read_def Let_def split_beta
  by (auto intro!: frame intro: part_all)

lemma pit_ioport_read_frame [frame]:
  "n \<noteq> TIMER_IRQ \<Longrightarrow> keeps n L w \<Longrightarrow> (\<And>x. keeps n L (snd (snd x)) \<Longrightarrow> P x) \<Longrightarrow> part (pit_ioport_read E f pit a w) P"
  unfolding pit_ioport_read_def Let_def split_beta
  by (auto intro!: frame intro: part_all)

lemma pit_reset_channel_frame [frame]:
  "n \<noteq> TIMER_IRQ \<Longrightarrow> keeps n L w \<Longrightarrow> (\<And>x. keeps n L (snd x) \<Longrightarrow> P x) \<Longrightarrow> part (pit_reset_channel E f i pit w) P"
  unfolding pit_reset_channel_def Let_def split_beta
  by (auto intro!: frame intro: part_all)

lemma pit_reset_common_frame [frame]:
  "n \<noteq> TIMER_IRQ \<Longrightarrow> keeps n L w \<Longrightarrow> (\<And>x. keeps n L (snd x) \<Longrightarrow> P x) \<Longrightarrow> part (pit_reset_common E f pit w) P"
  unfolding pit_reset_common_def Let_def split_beta
  by (auto intro!: frame intro: part_all)

lemma pit_reset_frame [frame]:
  "n \<noteq> TIMER_IRQ \<Longrightarrow> keeps n L w \<Longrightarrow> (\<And>x. keeps n L (snd x) \<Longrightarrow> P x) \<Longrightarrow> part (pit_reset E f pit w) P"
  unfolding pit_reset_def Let_def split_beta
  by (auto intro!: frame intro: part_all)

lemma pit_irq_control_frame [frame]:
  "n \<noteq> TIMER_IRQ \<Longrightarrow> keeps n L w \<Longrightarrow> (\<And>x. keeps n L (snd x) \<Longrightarrow> P x) \<Longrightarrow> part (pit_irq_control E f pit en w) P"
  unfolding pit_irq_control_def Let_def split_beta
  by (auto intro!: frame intro: part_all)

lemma pit_timer_interrupt_frame [frame]:
  "n \<noteq> TIMER_IRQ \<Longrightarrow> keeps n L w \<Longrightarrow> (\<And>x. keeps n L (snd x) \<Longrightarrow> P x) \<Longrightarrow> part (pit_timer_interrupt E pit w) P"
  unfolding pit_timer_interrupt_def Let_def split_beta
  by (auto intro!: frame intro: part_all)

lemma pit_pre_init_frame [frame]:
  "n \<noteq> TIMER_IRQ \<Longrightarrow> keeps n L w \<Longrightarrow> (\<And>x. keeps n L (snd (snd x)) \<Longrightarrow> P x) \<Longrightarrow> part (pit_pre_init E pit w) P"
  unfolding pit_pre_init_def Let_def split_beta
  by (auto intro!: frame intro: part_all)

lemma i8254_port_in_frame [frame]:
  "n \<noteq> TIMER_IRQ \<Longrightarrow> keeps n L w \<Longrightarrow> (\<And>x. keeps n L (snd (snd (snd x))) \<Longrightarrow> P x) \<Longrightarrow> part (i8254_port_in E f p k pit w) P"
  unfolding i8254_port_in_def Let_def split_beta
  by (auto intro!: frame intro: part_all)

lemma i8254_port_out_frame [frame]:
  "n \<noteq> TIMER_IRQ \<Longrightarrow> keeps n L w \<Longrightarrow> (\<And>x. keeps n L (snd (snd x)) \<Longrightarrow> P x) \<Longrightarrow> part (i8254_port_out E f p k v pit w) P"
  unfolding i8254_port_out_def Let_def split_beta
  by (auto intro!: frame intro: part_all)

section \<open>The UART drives line 4 only\<close>

lemma serial_update_irq_frame [simp]: "n \<noteq> TTYS0_IRQ \<Longrightarrow> keeps n L (snd (serial_update_irq s w)) = keeps n L w"
  by (simp add: serial_update_irq_def Let_def split_beta)

lemma serial_update_msl_frame [simp]: "n \<noteq> TTYS0_IRQ \<Longrightarrow> keeps n L (snd (serial_update_msl s w)) = keeps n L w"
  by (simp add: serial_update_msl_def Let_def split_beta)

lemma serial_receive1_frame [frame]:
  "n \<noteq> TTYS0_IRQ \<Longrightarrow> keeps n L w \<Longrightarrow> (\<And>x. keeps n L (snd x) \<Longrightarrow> P x) \<Longrightarrow> part (serial_receive1 E f c s w) P"
  unfolding serial_receive1_def Let_def split_beta
  by (auto intro!: frame intro: part_all)

lemma serial_xmit_end_frame [simp]: "n \<noteq> TTYS0_IRQ \<Longrightarrow> keeps n L (snd (serial_xmit_end E f s w)) = keeps n L w"
  by (simp add: serial_xmit_end_def Let_def split_beta)

lemma serial_xmit_send_frame [frame]:
  assumes "n \<noteq> TTYS0_IRQ" "keeps n L w" "\<And>x. keeps n L (snd x) \<Longrightarrow> P x"
  shows "part (serial_xmit_send E f t s w) P"
proof (rule part_mono [OF _ assms(3)])
  show "part (serial_xmit_send E f t s w) (\<lambda>x. keeps n L (snd x))"
    using assms(1,2) unfolding serial_xmit_send_def Let_def split_beta
    by (auto intro!: frame intro: part_all)
qed

lemma serial_xmit_frame [frame]:
  "n \<noteq> TTYS0_IRQ \<Longrightarrow> keeps n L w \<Longrightarrow> (\<And>x. keeps n L (snd x) \<Longrightarrow> P x) \<Longrightarrow> part (serial_xmit E f s w) P"
  unfolding serial_xmit_def Let_def split_beta
  by (auto intro!: frame intro: part_all)

lemma fifo_timeout_int_frame [simp]: "n \<noteq> TTYS0_IRQ \<Longrightarrow> keeps n L (snd (fifo_timeout_int s w)) = keeps n L w"
  by (simp add: fifo_timeout_int_def Let_def split_beta)

lemma serial_write_fcr_frame [simp]: "n \<noteq> TTYS0_IRQ \<Longrightarrow> keeps n L (snd (serial_write_fcr v s w)) = keeps n L w"
  by (simp add: serial_write_fcr_def Let_def split_beta)

lemma serial_write_data_frame [frame]:
  "n \<noteq> TTYS0_IRQ \<Longrightarrow> keeps n L w \<Longrightarrow> (\<And>x. keeps n L (snd x) \<Longrightarrow> P x) \<Longrightarrow> part (serial_write_data E f v s w) P"
  unfolding serial_write_data_def Let_def split_beta
  by (auto intro!: frame intro: part_all)

lemma serial_write_ier_frame [frame]:
  "n \<noteq> TTYS0_IRQ \<Longrightarrow> keeps n L w \<Longrightarrow> (\<And>x. keeps n L (snd x) \<Longrightarrow> P x) \<Longrightarrow> part (serial_write_ier v s w) P"
  unfolding serial_write_ier_def Let_def split_beta
  by (auto intro!: frame intro: part_all)

lemma serial_ioport_write_frame [frame]:
  "n \<noteq> TTYS0_IRQ \<Longrightarrow> keeps n L w \<Longrightarrow> (\<And>x. keeps n L (snd x) \<Longrightarrow> P x) \<Longrightarrow> part (serial_ioport_write E f a v s w) P"
  unfolding serial_ioport_write_def Let_def split_beta
  by (auto intro!: frame intro: part_all)

lemma serial_read_data_frame [frame]:
  "n \<noteq> TTYS0_IRQ \<Longrightarrow> keeps n L w \<Longrightarrow> (\<And>x. keeps n L (snd (snd x)) \<Longrightarrow> P x) \<Longrightarrow> part (serial_read_data E f s w) P"
  unfolding serial_read_data_def Let_def split_beta
  by (auto intro!: frame intro: part_all)

lemma serial_read_iir_frame [simp]: "n \<noteq> TTYS0_IRQ \<Longrightarrow> keeps n L (snd (snd (serial_read_iir s w))) = keeps n L w"
  by (simp add: serial_read_iir_def Let_def split_beta)

lemma serial_read_lsr_frame [simp]: "n \<noteq> TTYS0_IRQ \<Longrightarrow> keeps n L (snd (snd (serial_read_lsr s w))) = keeps n L w"
  by (simp add: serial_read_lsr_def Let_def split_beta)

lemma serial_read_msr_frame [simp]: "n \<noteq> TTYS0_IRQ \<Longrightarrow> keeps n L (snd (snd (serial_read_msr s w))) = keeps n L w"
  by (simp add: serial_read_msr_def Let_def split_beta)

lemma serial_ioport_read_frame [frame]:
  "n \<noteq> TTYS0_IRQ \<Longrightarrow> keeps n L w \<Longrightarrow> (\<And>x. keeps n L (snd (snd x)) \<Longrightarrow> P x) \<Longrightarrow> part (serial_ioport_read E f a s w) P"
  unfolding serial_ioport_read_def Let_def split_beta
  by (auto intro!: frame intro: part_all)

lemma serial_receive_loop_frame [frame]:
  "n \<noteq> TTYS0_IRQ \<Longrightarrow> keeps n L w \<Longrightarrow> (\<And>x. keeps n L (snd (snd x)) \<Longrightarrow> P x) \<Longrightarrow>
   part (serial_receive_loop E f b s w) P"
proof (induction E f b s w rule: serial_receive_loop.induct)
  case (1 E f b s w)
  show ?case
  proof (cases "serial_buffer_dequeue b")
    case (Inr x)
    then obtain q b' where q: "serial_buffer_dequeue b = Inr (q, b')" by (cases x) simp
    show ?thesis
    proof (cases q)
      case (Some c)
      have "part (serial_receive1 E f c s w) (\<lambda>x. keeps n L (snd x))"
        using 1(2,3) by (rule serial_receive1_frame)
      then show ?thesis
        using 1 q Some by (subst serial_receive_loop.simps) (cases "serial_receive1 E f c s w"; auto)
    qed (use 1 q in \<open>subst serial_receive_loop.simps, auto\<close>)
  qed (use 1 in \<open>subst serial_receive_loop.simps, auto\<close>)
qed

lemma serial_character_interrupt_frame [frame]:
  "n \<noteq> TTYS0_IRQ \<Longrightarrow> keeps n L w \<Longrightarrow> (\<And>x. keeps n L (snd (snd x)) \<Longrightarrow> P x) \<Longrightarrow> part (serial_character_interrupt E f b s w) P"
  unfolding serial_character_interrupt_def Let_def split_beta
  by (auto intro!: frame intro: part_all)

lemma serial_timer_interrupt_frame [frame]:
  assumes "n \<noteq> TTYS0_IRQ" "keeps n L w" "\<And>x. keeps n L (snd (snd x)) \<Longrightarrow> P x"
  shows "part (serial_timer_interrupt E f c b s w) P"
proof (rule part_mono [OF _ assms(3)])
  show "part (serial_timer_interrupt E f c b s w) (\<lambda>x. keeps n L (snd (snd x)))"
    using assms(1,2) unfolding serial_timer_interrupt_def Let_def split_beta
    by (auto intro!: frame intro: part_all)
qed

lemma serial_reset_frame [simp]: "n \<noteq> TTYS0_IRQ \<Longrightarrow> keeps n L (snd (serial_reset E f s w)) = keeps n L w"
  by (simp add: serial_reset_def Let_def split_beta)

lemma serial_init_core_frame [simp]: "n \<noteq> TTYS0_IRQ \<Longrightarrow> keeps n L (snd (serial_init_core E f s w)) = keeps n L w"
  by (simp add: serial_init_core_def Let_def split_beta)

lemma serial_pre_init_frame [simp]: "n \<noteq> TTYS0_IRQ \<Longrightarrow> keeps n L (snd (snd (serial_pre_init E s w))) = keeps n L w"
  by (simp add: serial_pre_init_def Let_def split_beta)

lemma serial_port_in_frame [frame]:
  "n \<noteq> TTYS0_IRQ \<Longrightarrow> keeps n L w \<Longrightarrow> (\<And>x. keeps n L (snd (snd (snd x))) \<Longrightarrow> P x) \<Longrightarrow> part (serial_port_in E f p k s w) P"
  unfolding serial_port_in_def Let_def split_beta
  by (auto intro!: frame intro: part_all)

lemma serial_port_out_frame [frame]:
  "n \<noteq> TTYS0_IRQ \<Longrightarrow> keeps n L w \<Longrightarrow> (\<And>x. keeps n L (snd (snd x)) \<Longrightarrow> P x) \<Longrightarrow> part (serial_port_out E f p k v s w) P"
  unfolding serial_port_out_def Let_def split_beta
  by (auto intro!: frame intro: part_all)

section \<open>The clock drives line 8 only\<close>

lemma rtc_coalesced_timer_update_frame [frame]:
  "n \<noteq> RTC_IRQ \<Longrightarrow> keeps n L w \<Longrightarrow> (\<And>x. keeps n L (snd x) \<Longrightarrow> P x) \<Longrightarrow> part (rtc_coalesced_timer_update E s w) P"
  unfolding rtc_coalesced_timer_update_def Let_def split_beta
  by (auto intro!: frame intro: part_all)

lemma rtc_coalesced_timer_frame [frame]:
  "n \<noteq> RTC_IRQ \<Longrightarrow> keeps n L w \<Longrightarrow> (\<And>x. keeps n L (snd x) \<Longrightarrow> P x) \<Longrightarrow> part (rtc_coalesced_timer E s w) P"
  unfolding rtc_coalesced_timer_def Let_def split_beta
  by (auto intro!: frame intro: part_all)

lemma rtc_timer_update_frame [frame]:
  "n \<noteq> RTC_IRQ \<Longrightarrow> keeps n L w \<Longrightarrow> (\<And>x. keeps n L (snd x) \<Longrightarrow> P x) \<Longrightarrow> part (rtc_timer_update s t w) P"
  unfolding rtc_timer_update_def Let_def split_beta
  by (auto intro!: frame intro: part_all)

lemma rtc_periodic_timer_frame [frame]:
  "n \<noteq> RTC_IRQ \<Longrightarrow> keeps n L w \<Longrightarrow> (\<And>x. keeps n L (snd x) \<Longrightarrow> P x) \<Longrightarrow> part (rtc_periodic_timer s w) P"
  unfolding rtc_periodic_timer_def Let_def split_beta
  by (auto intro!: frame intro: part_all)

lemma rtc_update_second_frame [simp]: "n \<noteq> RTC_IRQ \<Longrightarrow> keeps n L (snd (rtc_update_second E s w)) = keeps n L w"
  by (simp add: rtc_update_second_def Let_def split_beta)

lemma rtc_update_second2_frame [simp]: "n \<noteq> RTC_IRQ \<Longrightarrow> keeps n L (snd (rtc_update_second2 E s w)) = keeps n L w"
  by (simp add: rtc_update_second2_def Let_def split_beta)

lemma cmos_write_reg_b_frame [frame]:
  "n \<noteq> RTC_IRQ \<Longrightarrow> keeps n L w \<Longrightarrow> (\<And>x. keeps n L (snd x) \<Longrightarrow> P x) \<Longrightarrow> part (cmos_write_reg_b E v s w) P"
  unfolding cmos_write_reg_b_def Let_def split_beta
  by (auto intro!: frame intro: part_all)

lemma cmos_write_reg_a_frame [frame]:
  "n \<noteq> RTC_IRQ \<Longrightarrow> keeps n L w \<Longrightarrow> (\<And>x. keeps n L (snd x) \<Longrightarrow> P x) \<Longrightarrow> part (cmos_write_reg_a E v s w) P"
  unfolding cmos_write_reg_a_def Let_def split_beta
  by (auto intro!: frame intro: part_all)

lemma cmos_ioport_write_frame [frame]:
  "n \<noteq> RTC_IRQ \<Longrightarrow> keeps n L w \<Longrightarrow> (\<And>x. keeps n L (snd x) \<Longrightarrow> P x) \<Longrightarrow> part (cmos_ioport_write E a v s w) P"
  unfolding cmos_ioport_write_def Let_def split_beta
  by (auto intro!: frame intro: part_all)

lemma cmos_ioport_read_frame [frame]:
  "n \<noteq> RTC_IRQ \<Longrightarrow> keeps n L w \<Longrightarrow> (\<And>x. keeps n L (snd (snd x)) \<Longrightarrow> P x) \<Longrightarrow> part (cmos_ioport_read a s w) P"
  unfolding cmos_ioport_read_def Let_def split_beta
  by (auto intro!: frame intro: part_all)

lemma rtc_set_date_from_host_frame [simp]: "n \<noteq> RTC_IRQ \<Longrightarrow> keeps n L (snd (rtc_set_date_from_host E s w)) = keeps n L w"
  by (simp add: rtc_set_date_from_host_def Let_def split_beta)

lemma rtc_reset_frame [simp]: "n \<noteq> RTC_IRQ \<Longrightarrow> keeps n L (snd (rtc_reset s w)) = keeps n L w"
  by (simp add: rtc_reset_def Let_def split_beta)

lemma rtc_initfn_frame [simp]: "n \<noteq> RTC_IRQ \<Longrightarrow> keeps n L (snd (rtc_initfn E s w)) = keeps n L w"
  by (simp add: rtc_initfn_def Let_def split_beta)

lemma rtc_pre_init_frame [simp]: "n \<noteq> RTC_IRQ \<Longrightarrow> keeps n L (snd (rtc_pre_init E s w)) = keeps n L w"
  by (simp add: rtc_pre_init_def Let_def split_beta)

lemma rtc_timer_interrupt_frame [frame]:
  assumes "n \<noteq> RTC_IRQ" "keeps n L w" "\<And>x. keeps n L (snd x) \<Longrightarrow> P x"
  shows "part (rtc_timer_interrupt E c s w) P"
proof (rule part_mono [OF _ assms(3)])
  show "part (rtc_timer_interrupt E c s w) (\<lambda>x. keeps n L (snd x))"
    using assms(1,2) unfolding rtc_timer_interrupt_def Let_def split_beta
    by (auto intro!: frame intro: part_all)
qed

lemma cmos_port_in_frame [frame]:
  "n \<noteq> RTC_IRQ \<Longrightarrow> keeps n L w \<Longrightarrow> (\<And>x. keeps n L (snd (snd (snd x))) \<Longrightarrow> P x) \<Longrightarrow> part (cmos_port_in p k s w) P"
  unfolding cmos_port_in_def Let_def split_beta
  by (auto intro!: frame intro: part_all)

lemma cmos_port_out_frame [frame]:
  "n \<noteq> RTC_IRQ \<Longrightarrow> keeps n L w \<Longrightarrow> (\<And>x. keeps n L (snd (snd x)) \<Longrightarrow> P x) \<Longrightarrow> part (cmos_port_out E p k v s w) P"
  unfolding cmos_port_out_def Let_def split_beta
  by (auto intro!: frame intro: part_all)

end
