(* ===== verification/Vmm_Config.thy ===== *)
theory Vmm_Config
  imports Vmm_Prelude
begin

text \<open>
  The configuration accessors of the x86 VMM, \<^verbatim>\<open>components/Init/templates/*.template.c\<close>.
  A template is expanded for one VM: its loops over the CAmkES configuration build lists, and each
  generated C function selects from one of them by a \<^verbatim>\<open>switch\<close>.  The model keeps the
  two stages apart: \<open>build_\<dots>\<close> computes the list a template builds, and the accessor takes the
  list as its first argument.  Capabilities are allocated by the CAmkES build, so the builders take
  the allocation as a function.
\<close>

section \<open>Switches over a list\<close>

type_synonym cptr = u64

definition switch_on :: "'a list \<Rightarrow> int \<Rightarrow> 'a option" where
  "switch_on xs i = (if 0 \<le> i \<and> i < int (length xs) then Some (xs ! nat i) else None)"

lemma switch_on_nat [simp]: "i < length xs \<Longrightarrow> switch_on xs (int i) = Some (xs ! i)"
  by (simp add: switch_on_def)

lemma switch_on_eq_None: "switch_on xs i = None \<longleftrightarrow> i < 0 \<or> int (length xs) \<le> i"
  by (auto simp: switch_on_def)

text \<open>A \<^verbatim>\<open>switch\<close> over addresses returns the capability of the matching case or 0.\<close>

definition switch_addr :: "(nat \<times> cptr) list \<Rightarrow> nat \<Rightarrow> cptr" where
  "switch_addr cs a = (case map_of cs a of None \<Rightarrow> 0 | Some c \<Rightarrow> c)"

text \<open>Python's \<^verbatim>\<open>range(0, size, step)\<close>, and the lookup of a frame's object type.\<close>

definition py_range :: "nat \<Rightarrow> nat \<Rightarrow> nat list" where
  "py_range sz step = map (\<lambda>k. k * step) [0..<(sz + step - 1) div step]"

definition bits_to_frame_type :: "nat \<Rightarrow> bool" where
  "bits_to_frame_type bits \<longleftrightarrow> bits = 12 \<or> bits = 20 \<or> bits = 21"

section \<open>Extra RAM\<close>

type_synonym untyped_conf = "nat \<times> int \<times> cptr"

definition build_uts :: "(nat \<Rightarrow> cptr) \<Rightarrow> (nat \<times> int) list \<Rightarrow> untyped_conf list" where
  "build_uts alloc config_uts = map (\<lambda>(paddr, bits). (paddr, bits, alloc paddr)) config_uts"

definition ram_num_untypeds :: "untyped_conf list \<Rightarrow> int" where
  "ram_num_untypeds uts = int (length uts)"

definition ram_get_untyped :: "untyped_conf list \<Rightarrow> int \<Rightarrow> int \<times> untyped_conf option" where
  "ram_get_untyped uts ut = (case switch_on uts ut of None \<Rightarrow> (-1, None) | Some u \<Rightarrow> (0, Some u))"

section \<open>Device memory mapped to the guest\<close>

record guest_map_conf =
  gm_paddr :: nat
  gm_size :: nat
  gm_page_bits :: nat

record gmap =
  g_paddr :: nat
  g_size :: nat
  g_bits :: nat
  g_frame :: nat
  g_cap :: cptr

text \<open>\<open>None\<close>: a page size without a frame object, which stops the build.\<close>

fun build_gmaps :: "(nat \<Rightarrow> cptr) \<Rightarrow> guest_map_conf list \<Rightarrow> gmap list option" where
  "build_gmaps alloc [] = Some []"
| "build_gmaps alloc (m # ms) =
     (if gm_size m \<noteq> 0 \<and> \<not> bits_to_frame_type (gm_page_bits m) then None
      else case build_gmaps alloc ms of
             None \<Rightarrow> None
           | Some gs \<Rightarrow>
               Some (map (\<lambda>off. \<lparr>g_paddr = gm_paddr m, g_size = 2 ^ gm_page_bits m, g_bits = gm_page_bits m,
                               g_frame = gm_paddr m + off, g_cap = alloc (gm_paddr m + off)\<rparr>)
                       (py_range (gm_size m) (2 ^ gm_page_bits m)) @ gs))"

definition guest_mappings_num_guestmaps :: "gmap list \<Rightarrow> int" where
  "guest_mappings_num_guestmaps gmaps = int (length gmaps)"

definition guest_mappings_get_guest_map :: "gmap list \<Rightarrow> int \<Rightarrow> int \<times> (nat \<times> nat) option" where
  "guest_mappings_get_guest_map gmaps num =
     (case switch_on gmaps num of None \<Rightarrow> (0, None) | Some g \<Rightarrow> (1, Some (g_frame g, g_size g)))"

definition guest_mappings_get_mapping_mem_frame :: "gmap list \<Rightarrow> nat \<Rightarrow> cptr" where
  "guest_mappings_get_mapping_mem_frame gmaps paddr = switch_addr (map (\<lambda>g. (g_frame g, g_cap g)) gmaps) paddr"

section \<open>Init devices\<close>

text \<open>A device has an initialisation function and possibly a badge with a notification function.\<close>

record init_con =
  con_init :: u64
  con_irq :: "(u64 \<times> u64) option"

definition init_cons_num_connections :: "init_con list \<Rightarrow> int" where
  "init_cons_num_connections cons = int (length cons)"

definition init_cons_init_function :: "init_con list \<Rightarrow> int \<Rightarrow> u64" where
  "init_cons_init_function cons con = (case switch_on cons con of None \<Rightarrow> - 1 | Some c \<Rightarrow> con_init c)"

definition init_cons_has_interrupt :: "init_con list \<Rightarrow> int \<Rightarrow> int \<times> (u64 \<times> u64) option" where
  "init_cons_has_interrupt cons con =
     (case switch_on cons con of
        None \<Rightarrow> (-1, None)
      | Some c \<Rightarrow> (case con_irq c of None \<Rightarrow> (0, None) | Some bf \<Rightarrow> (1, Some bf)))"

section \<open>Excluded guest addresses\<close>

definition exclude_regions :: "(nat \<times> nat) list \<Rightarrow> nat list" where
  "exclude_regions regions = concat (map (\<lambda>(paddr, bytes). [paddr, bytes]) regions)"

definition exclude_paddr_num_regions :: "nat list \<Rightarrow> int" where
  "exclude_paddr_num_regions rs = int (length rs div 2)"

text \<open>The assertion has no lower bound, but its callers count from 0.\<close>

definition exclude_paddr_get_region :: "nat list \<Rightarrow> nat \<Rightarrow> (nat \<times> nat) res" where
  "exclude_paddr_get_region rs region_num =
     rbind (rassert (int region_num < exclude_paddr_num_regions rs)) (\<lambda>_.
     rbind (aget rs (region_num * 2)) (\<lambda>paddr.
     rbind (aget rs (region_num * 2 + 1)) (\<lambda>bytes. Inr (paddr, bytes))))"

section \<open>I/O ports\<close>

record ioport_conf =
  io_start :: u16
  io_end :: u16
  io_pci_device :: bool
  io_name :: string

record ioport_cap =
  iop_cap :: cptr
  iop_start :: u16
  iop_end :: u16
  iop_name :: string

definition build_ioports :: "(u16 \<Rightarrow> u16 \<Rightarrow> cptr) \<Rightarrow> ioport_conf list \<Rightarrow> ioport_cap list \<times> ioport_cap list" where
  "build_ioports alloc ps =
     (let entry = (\<lambda>p. \<lparr>iop_cap = alloc (io_start p) (io_end p), iop_start = io_start p,
                         iop_end = io_end p, iop_name = io_name p\<rparr>)
      in (map entry (filter io_pci_device ps), map entry (filter (\<lambda>p. \<not> io_pci_device p) ps)))"

definition ioports_num_pci_ioports :: "ioport_cap list \<Rightarrow> int" where
  "ioports_num_pci_ioports ps = int (length ps)"

definition ioports_num_nonpci_ioports :: "ioport_cap list \<Rightarrow> int" where
  "ioports_num_nonpci_ioports ps = int (length ps)"

definition ioports_get_pci_ioport :: "ioport_cap list \<Rightarrow> int \<Rightarrow> ioport_cap option" where
  "ioports_get_pci_ioport ps num = switch_on ps num"

definition ioports_get_nonpci_ioport :: "ioport_cap list \<Rightarrow> int \<Rightarrow> ioport_cap option" where
  "ioports_get_nonpci_ioport ps num = switch_on ps num"

fun ioports_get_ioport :: "ioport_cap list \<Rightarrow> u16 \<Rightarrow> u16 \<Rightarrow> cptr" where
  "ioports_get_ioport [] start fin = 0"
| "ioports_get_ioport (p # ps) start fin =
     (if iop_start p \<le> start \<and> fin \<le> iop_end p then iop_cap p else ioports_get_ioport ps start fin)"

section \<open>IRQs\<close>

record irq_conf =
  irq_name :: string
  irq_ioapic :: u8
  irq_source :: u8
  irq_level_trig :: int
  irq_active_low :: int
  irq_dest :: u8
  irq_cap :: cptr

definition irqs_num_irqs :: "irq_conf list \<Rightarrow> int" where
  "irqs_num_irqs irqs = int (length irqs)"

definition irqs_get_irq :: "irq_conf list \<Rightarrow> int \<Rightarrow> irq_conf option" where
  "irqs_get_irq irqs irq = switch_on irqs irq"

section \<open>PCI devices\<close>

record pci_mem_conf =
  pm_paddr :: nat
  pm_size :: nat
  pm_page_bits :: nat

record pci_device_conf =
  pd_name :: string
  pd_bus :: u8
  pd_dev :: u8
  pd_fun :: u8
  pd_irq :: string
  pd_memory :: "pci_mem_conf list"

record pci_device =
  dev_name :: string
  dev_bus :: u8
  dev_dev :: u8
  dev_fun :: u8
  dev_iospace :: "cptr list"
  dev_irq :: string
  dev_mem :: "(nat \<times> nat \<times> nat) list"

text \<open>The frames of a list of memory ranges, with their capabilities.\<close>

fun build_device_mem :: "(nat \<Rightarrow> cptr) \<Rightarrow> pci_mem_conf list \<Rightarrow> (nat \<times> cptr) list option" where
  "build_device_mem alloc [] = Some []"
| "build_device_mem alloc (m # ms) =
     (if pm_size m \<noteq> 0 \<and> \<not> bits_to_frame_type (pm_page_bits m) then None
      else case build_device_mem alloc ms of
             None \<Rightarrow> None
           | Some fs \<Rightarrow> Some (map (\<lambda>off. (pm_paddr m + off, alloc (pm_paddr m + off)))
                               (py_range (pm_size m) (2 ^ pm_page_bits m)) @ fs))"

definition build_devices :: "(u8 \<Rightarrow> u8 \<Rightarrow> u8 \<Rightarrow> cptr) \<Rightarrow> bool \<Rightarrow> pci_device_conf list \<Rightarrow> pci_device list" where
  "build_devices iospace has_iospace ds =
     map (\<lambda>d. \<lparr>dev_name = pd_name d, dev_bus = pd_bus d, dev_dev = pd_dev d, dev_fun = pd_fun d,
               dev_iospace = (if has_iospace then [iospace (pd_bus d) (pd_dev d) (pd_fun d)] else []),
               dev_irq = pd_irq d,
               dev_mem = map (\<lambda>m. (pm_paddr m, pm_size m, pm_page_bits m)) (pd_memory d)\<rparr>) ds"

definition pci_devices_num_devices :: "pci_device list \<Rightarrow> int" where
  "pci_devices_num_devices devices = int (length devices)"

text \<open>Bus, device, function, I/O space capability and the name, or \<open>None\<close> for NULL.\<close>

definition pci_devices_get_device :: "pci_device list \<Rightarrow> int \<Rightarrow> (u8 \<times> u8 \<times> u8 \<times> cptr \<times> string) option" where
  "pci_devices_get_device devices pci_dev =
     (case switch_on devices pci_dev of
        None \<Rightarrow> None
      | Some d \<Rightarrow> Some (dev_bus d, dev_dev d, dev_fun d,
                       if dev_iospace d = [] then 0 else dev_iospace d ! 0, dev_name d))"

definition pci_devices_num_device_mem :: "pci_device list \<Rightarrow> int \<Rightarrow> int" where
  "pci_devices_num_device_mem devices pci_dev =
     (case switch_on devices pci_dev of None \<Rightarrow> -1 | Some d \<Rightarrow> int (length (dev_mem d)))"

definition pci_devices_get_device_irq :: "pci_device list \<Rightarrow> int \<Rightarrow> string option" where
  "pci_devices_get_device_irq devices pci_dev =
     (case switch_on devices pci_dev of None \<Rightarrow> None | Some d \<Rightarrow> Some (dev_irq d))"

definition pci_devices_get_device_mem ::
    "pci_device list \<Rightarrow> int \<Rightarrow> int \<Rightarrow> int \<times> (nat \<times> nat \<times> nat) option" where
  "pci_devices_get_device_mem devices pci_dev mem =
     (case switch_on devices pci_dev of
        None \<Rightarrow> (-1, None)
      | Some d \<Rightarrow> (case switch_on (dev_mem d) mem of None \<Rightarrow> (-1, None) | Some r \<Rightarrow> (0, Some r)))"

definition pci_devices_get_device_mem_frame :: "(nat \<times> cptr) list \<Rightarrow> nat \<Rightarrow> cptr" where
  "pci_devices_get_device_mem_frame device_mem paddr = switch_addr device_mem paddr"

section \<open>The frames of a range cover exactly the range\<close>

lemma py_range_set:
  assumes "0 < s"
  shows "set (py_range n s) = {off. off < n \<and> s dvd off}"
proof -
  have "k < (n + s - 1) div s \<longleftrightarrow> k * s < n" for k
  proof -
    have "k < (n + s - 1) div s \<longleftrightarrow> Suc k * s \<le> n + s - 1"
      unfolding Suc_le_eq [symmetric] using assms by (rule less_eq_div_iff_mult_less_eq)
    also have "\<dots> \<longleftrightarrow> k * s < n" using assms by (cases n) (simp_all add: less_Suc_eq_le)
    finally show ?thesis .
  qed
  then have "{0..<(n + s - 1) div s} = {k. k * s < n}" by (simp add: set_eq_iff del: One_nat_def)
  then have "set (py_range n s) = (\<lambda>k. k * s) ` {k. k * s < n}" by (simp add: py_range_def)
  then show ?thesis by (auto simp: dvd_def mult.commute)
qed

definition map_frames :: "guest_map_conf \<Rightarrow> nat set" where
  "map_frames m = {gm_paddr m + off | off. off < gm_size m \<and> 2 ^ gm_page_bits m dvd off}"

lemma build_gmaps_frames:
  "build_gmaps alloc ms = Some gs \<Longrightarrow> g_frame ` set gs = (\<Union>m \<in> set ms. map_frames m)"
proof (induction ms arbitrary: gs)
  case Nil
  then show ?case by simp
next
  case (Cons m ms)
  then obtain hs where hs: "build_gmaps alloc ms = Some hs"
    and gs: "gs = map (\<lambda>off. \<lparr>g_paddr = gm_paddr m, g_size = 2 ^ gm_page_bits m, g_bits = gm_page_bits m,
        g_frame = gm_paddr m + off, g_cap = alloc (gm_paddr m + off)\<rparr>)
      (py_range (gm_size m) (2 ^ gm_page_bits m)) @ hs"
    by (auto split: if_splits option.splits)
  have "g_frame ` set gs = (\<lambda>off. gm_paddr m + off) ` set (py_range (gm_size m) (2 ^ gm_page_bits m)) \<union>
      g_frame ` set hs"
    by (simp add: gs image_Un image_image)
  also have "\<dots> = map_frames m \<union> (\<Union>m \<in> set ms. map_frames m)"
    unfolding Cons.IH [OF hs] by (auto simp: py_range_set map_frames_def)
  finally show ?case by simp
qed

lemma build_gmaps_caps:
  "build_gmaps alloc ms = Some gs \<Longrightarrow> g \<in> set gs \<Longrightarrow> g_cap g = alloc (g_frame g)"
  by (induction ms arbitrary: gs) (auto split: if_splits option.splits)

end
