(* ===== verification/Vmm_Main.thy ===== *)
theory Vmm_Main
  imports Irq_Lines Hpet Vmm_Config
begin

unbundle bit_operations_syntax

text \<open>
  The x86 VMM around its devices: \<^verbatim>\<open>components/Init/src/main.c\<close>.  An asynchronous
  event arrives as a badge, a word in which every source has its bits; \<open>handle_async_event\<close> runs the
  device handlers of the sources that have fired, in the code's order, injects the interrupts of
  passed-through devices and calls the notification functions of the extra devices.  The devices
  share the world, and with it the lines of one interrupt controller.  The badges of the timer
  and of the console are generated by the build and parameters here.
\<close>

section \<open>State\<close>

record vmm =
  v_pit_f :: u64
  v_pit :: PITCommonState
  v_ser_f :: u64
  v_ring :: getchar_buffer
  v_ser :: SerialState
  v_rtc :: RTCState
  v_hpet :: HPETState
  v_notify :: "(u32 \<times> u64) list"
  v_world :: world

record vmm_config =
  use_hpet :: bool
  init_timer_notification_badge :: u64
  serial_getchar_notification_badge :: u64

definition BIT :: "nat \<Rightarrow> 'a::len word" where "BIT n = push_bit n 1"

definition VM_PIC_BADGES :: "u64 list" where
  "VM_PIC_BADGES =
     [134217730, 134217732, 134217736, 134217744, 134217760, 134217792, 134217856, 134217984,
      134218240, 134218752, 134219776, 134221824, 134225920, 134234112, 134250496, 134283264]"

definition irq_badges :: "u64 list" where "irq_badges = VM_PIC_BADGES"

definition CROSS_VM_EVENT_IRQ_NUM :: nat where "CROSS_VM_EVENT_IRQ_NUM = 12"

definition get_crossvm_irq_num :: nat where "get_crossvm_irq_num = CROSS_VM_EVENT_IRQ_NUM"

text \<open>A device's operation on the whole state.\<close>

definition on_pit :: "(PITCommonState \<Rightarrow> world \<Rightarrow> (PITCommonState \<times> world) res) \<Rightarrow> vmm \<Rightarrow> vmm res" where
  "on_pit f v = rbind (f (v_pit v) (v_world v)) (\<lambda>(p, w). Inr (v\<lparr>v_pit := p, v_world := w\<rparr>))"

definition on_rtc :: "(RTCState \<Rightarrow> world \<Rightarrow> (RTCState \<times> world) res) \<Rightarrow> vmm \<Rightarrow> vmm res" where
  "on_rtc f v = rbind (f (v_rtc v) (v_world v)) (\<lambda>(p, w). Inr (v\<lparr>v_rtc := p, v_world := w\<rparr>))"

definition on_hpet :: "(HPETState \<Rightarrow> world \<Rightarrow> (HPETState \<times> world) res) \<Rightarrow> vmm \<Rightarrow> vmm res" where
  "on_hpet f v = rbind (f (v_hpet v) (v_world v)) (\<lambda>(p, w). Inr (v\<lparr>v_hpet := p, v_world := w\<rparr>))"

definition on_serial ::
    "(getchar_buffer \<Rightarrow> SerialState \<Rightarrow> world \<Rightarrow> (getchar_buffer \<times> SerialState \<times> world) res) \<Rightarrow> vmm \<Rightarrow> vmm res" where
  "on_serial f v = rbind (f (v_ring v) (v_ser v) (v_world v)) (\<lambda>(b, s, w).
     Inr (v\<lparr>v_ring := b, v_ser := s, v_world := w\<rparr>))"

section \<open>Asynchronous events\<close>

definition rtc_timers :: u32 where
  "rtc_timers = BIT TIMER_PERIODIC_TIMER OR BIT TIMER_COALESCED_TIMER OR BIT TIMER_SECOND_TIMER OR
     BIT TIMER_SECOND_TIMER2"

definition serial_timers :: u32 where
  "serial_timers = BIT TIMER_FIFO_TIMEOUT OR BIT TIMER_TRANSMIT_TIMER OR BIT TIMER_MODEM_STATUS_TIMER OR
     BIT TIMER_MORE_CHARS"

definition hpet_timers :: u32 where
  "hpet_timers = BIT TIMER_HPET0 OR BIT TIMER_HPET1 OR BIT TIMER_HPET2"

text \<open>\<open>completed\<close> is what \<^verbatim>\<open>init_timer_completed\<close> answers.\<close>

definition timer_event :: "env \<Rightarrow> vmm_config \<Rightarrow> u32 \<Rightarrow> vmm \<Rightarrow> vmm res" where
  "timer_event E C completed v =
     rbind (if nz (completed AND BIT TIMER_PIT) then on_pit (pit_timer_interrupt E) v else Inr v) (\<lambda>v.
     rbind (if nz (completed AND rtc_timers) then on_rtc (rtc_timer_interrupt E completed) v else Inr v) (\<lambda>v.
     rbind (if nz (completed AND serial_timers)
            then on_serial (serial_timer_interrupt E (v_ser_f v) completed) v else Inr v) (\<lambda>v.
     if use_hpet C \<and> nz (completed AND hpet_timers)
     then on_hpet (hpet_timer_interrupt E completed) v else Inr v)))"

definition badge_has :: "u64 \<Rightarrow> u64 \<Rightarrow> bool" where
  "badge_has badge b \<longleftrightarrow> badge AND b = b"

definition inject_irq :: "u64 \<Rightarrow> nat \<Rightarrow> vmm \<Rightarrow> vmm res" where
  "inject_irq badge i v =
     rbind (aget irq_badges i) (\<lambda>b.
       Inr (if badge_has badge b then v\<lparr>v_world := emit (InjectIrq i) (v_world v)\<rparr> else v))"

definition notify_device :: "u64 \<Rightarrow> u32 \<times> u64 \<Rightarrow> vmm \<Rightarrow> vmm res" where
  "notify_device badge d v =
     (let (device_badge, func) = d
      in if badge_has badge (ucast device_badge)
         then if func = 0 then Inl LogFatal
              else Inr (v\<lparr>v_world := emit (DeviceNotify func) (v_world v)\<rparr>)
         else Inr v)"

definition handle_async_event :: "env \<Rightarrow> vmm_config \<Rightarrow> u64 \<Rightarrow> u32 \<Rightarrow> vmm \<Rightarrow> vmm res" where
  "handle_async_event E C badge completed v =
     (if badge AND BIT 27 = 0 then Inr v
      else rbind (if badge_has badge (init_timer_notification_badge C)
                  then timer_event E C completed v else Inr v) (\<lambda>v.
           rbind (if badge_has badge (serial_getchar_notification_badge C)
                  then on_serial (serial_character_interrupt E (v_ser_f v)) v else Inr v) (\<lambda>v.
           rbind (run_ops (inject_irq badge) [0..<16] v) (\<lambda>v.
           run_ops (notify_device badge) (v_notify v) v))))"

text \<open>The cap is 0 for a bad badge or when minting fails; the slot comes from the allocator.\<close>

definition create_async_event_notification_cap :: "cptr \<Rightarrow> int \<Rightarrow> u64 \<Rightarrow> cptr" where
  "create_async_event_notification_cap slot mint_error badge =
     (if badge AND BIT 27 = 0 then 0 else if mint_error \<noteq> 0 then 0 else slot)"

definition irq_ack_hw_irq_handler :: "int \<Rightarrow> unit res" where
  "irq_ack_hw_irq_handler ack_error = rassert (ack_error = 0)"

definition init_con_irq_init :: "bool \<Rightarrow> init_con list \<Rightarrow> (u32 \<times> u64) list res" where
  "init_con_irq_init malloc_ok cons =
     (let has = (\<lambda>i. init_cons_has_interrupt cons (int i));
          hits = filter (\<lambda>i. fst (has i) \<noteq> 0) [0..<nat (init_cons_num_connections cons)];
          irqs = length hits
      in if \<not> malloc_ok then Inl LogFatal
         else let ds = concat (map (\<lambda>i. case snd (has i) of None \<Rightarrow> [] | Some (badge, fun_) \<Rightarrow> [(ucast badge, fun_)]) hits)
              in rbind (rassert (length ds = irqs)) (\<lambda>_. Inr ds))"

section \<open>Port accesses\<close>

text \<open>
  The table of emulated devices with their port ranges, which the platform library defines.  The
  library dispatches an access to the handler registered for its port.
\<close>

datatype io_dev = Com1 | Cmos | Pit

record x86_ports =
  x86_serial_1 :: "u16 \<times> u16"
  x86_rtc :: "u16 \<times> u16"
  x86_pit :: "u16 \<times> u16"

definition ioport_handlers :: "x86_ports \<Rightarrow> ((u16 \<times> u16) \<times> io_dev) list" where
  "ioport_handlers P = [(x86_serial_1 P, Com1), (x86_rtc P, Cmos), (x86_pit P, Pit)]"

fun port_in :: "env \<Rightarrow> io_dev \<Rightarrow> u32 \<Rightarrow> u32 \<Rightarrow> vmm \<Rightarrow> (ioport_fault_result \<times> u32 option \<times> vmm) res" where
  "port_in E Com1 p n v = rbind (serial_port_in E (v_ser_f v) p n (v_ser v) (v_world v)) (\<lambda>(r, x, s, w).
     Inr (r, x, v\<lparr>v_ser := s, v_world := w\<rparr>))"
| "port_in E Cmos p n v = rbind (cmos_port_in p n (v_rtc v) (v_world v)) (\<lambda>(r, x, s, w).
     Inr (r, x, v\<lparr>v_rtc := s, v_world := w\<rparr>))"
| "port_in E Pit p n v = rbind (i8254_port_in E (v_pit_f v) p n (v_pit v) (v_world v)) (\<lambda>(r, x, s, w).
     Inr (r, x, v\<lparr>v_pit := s, v_world := w\<rparr>))"

fun port_out :: "env \<Rightarrow> io_dev \<Rightarrow> u32 \<Rightarrow> u32 \<Rightarrow> u32 \<Rightarrow> vmm \<Rightarrow> (ioport_fault_result \<times> vmm) res" where
  "port_out E Com1 p n x v = rbind (serial_port_out E (v_ser_f v) p n x (v_ser v) (v_world v)) (\<lambda>(r, s, w).
     Inr (r, v\<lparr>v_ser := s, v_world := w\<rparr>))"
| "port_out E Cmos p n x v = rbind (cmos_port_out E p n x (v_rtc v) (v_world v)) (\<lambda>(r, s, w).
     Inr (r, v\<lparr>v_rtc := s, v_world := w\<rparr>))"
| "port_out E Pit p n x v = rbind (i8254_port_out E (v_pit_f v) p n x (v_pit v) (v_world v)) (\<lambda>(r, s, w).
     Inr (r, v\<lparr>v_pit := s, v_world := w\<rparr>))"

text \<open>\<open>res\<close> is what the library's \<^verbatim>\<open>emulate_io_handler\<close> returns for a port without handler.\<close>

definition ioport_callback_handler :: "int \<Rightarrow> ioport_fault_result" where
  "ioport_callback_handler res =
     (if res = 0 then IO_FAULT_HANDLED else if res = 1 then IO_FAULT_UNHANDLED else IO_FAULT_ERROR)"

section \<open>Capability lookups\<close>

definition simple_ioport_wrapper :: "ioport_cap list \<Rightarrow> int \<Rightarrow> (cptr \<Rightarrow> int) \<Rightarrow> u16 \<Rightarrow> u16 \<Rightarrow> int" where
  "simple_ioport_wrapper ports seL4_FailedLookup cnode_copy start_port end_port =
     (let cap = ioports_get_ioport ports start_port end_port
      in if cap = 0 then seL4_FailedLookup else cnode_copy cap)"

definition simple_frame_cap_wrapper :: "(nat \<times> cptr) list \<Rightarrow> gmap list \<Rightarrow> nat \<Rightarrow> int \<times> cptr option" where
  "simple_frame_cap_wrapper device_mem gmaps paddr =
     (let cap = pci_devices_get_device_mem_frame device_mem paddr
      in if cap \<noteq> 0 then (0, Some cap)
         else let cap = guest_mappings_get_mapping_mem_frame gmaps paddr
              in if cap \<noteq> 0 then (0, Some cap) else (-1, None))"

section \<open>PCI configuration ports of the monitor\<close>

text \<open>
  The port numbers belong to the PCI library.  The address register is four bytes of heap, so a
  copy that reaches further is out of bounds.  An access to the configuration space itself goes
  through the component interface.
\<close>

record pci_ports =
  PCI_CONF_PORT_ADDR :: u32
  PCI_CONF_PORT_ADDR_END :: u32
  PCI_CONF_PORT_DATA :: u32
  PCI_CONF_PORT_DATA_END :: u32

datatype pci_access = PciRead nat u8 u8 u8 u8 | PciWrite nat u8 u8 u8 u8 u32

definition conf_bus :: "u32 \<Rightarrow> u8" where "conf_bus a = ucast (drop_bit 16 a AND mask 8)"
definition conf_dev :: "u32 \<Rightarrow> u8" where "conf_dev a = ucast (drop_bit 11 a AND mask 5)"
definition conf_fun :: "u32 \<Rightarrow> u8" where "conf_fun a = ucast (drop_bit 8 a AND mask 3)"
definition conf_reg :: "u32 \<Rightarrow> u8" where "conf_reg a = ucast (a AND mask 8)"

definition copy_from :: "u32 \<Rightarrow> nat \<Rightarrow> int \<Rightarrow> u32 res" where
  "copy_from a offset n =
     (if n < 0 \<or> 4 < int offset + n then Inl OutOfBounds
      else Inr (take_bit (8 * nat n) (drop_bit (8 * offset) a)))"

definition copy_into :: "u32 \<Rightarrow> nat \<Rightarrow> int \<Rightarrow> u32 \<Rightarrow> u32 res" where
  "copy_into a offset n x =
     (if n < 0 \<or> 4 < int offset + n then Inl OutOfBounds
      else Inr ((a AND NOT (push_bit (8 * offset) (mask (8 * nat n)))) OR
                push_bit (8 * offset) (take_bit (8 * nat n) x)))"

definition pci_config_io_in ::
    "pci_ports \<Rightarrow> (pci_access \<Rightarrow> u32) \<Rightarrow> u32 \<Rightarrow> u32 \<Rightarrow> int \<Rightarrow> (int \<times> u32 option) res" where
  "pci_config_io_in P pci conf_port_addr port io_size =
     (if PCI_CONF_PORT_ADDR P \<le> port \<and> port < PCI_CONF_PORT_ADDR_END P
      then let offset = ucast (port - PCI_CONF_PORT_ADDR P) :: u8
           in rbind (copy_from conf_port_addr (unat offset) io_size) (\<lambda>r. Inr (0, Some r))
      else if port < PCI_CONF_PORT_DATA P \<or> PCI_CONF_PORT_DATA_END P < port + word_of_int io_size
      then Inr (-1, None)
      else let offset = ucast (port - PCI_CONF_PORT_DATA P) :: u8;
               reg = conf_reg conf_port_addr + offset
           in if io_size = 1 \<or> io_size = 2 \<or> io_size = 4
              then Inr (0, Some (pci (PciRead (nat io_size) (conf_bus conf_port_addr) (conf_dev conf_port_addr)
                                        (conf_fun conf_port_addr) reg)))
              else Inl LogFatal)"

text \<open>The result, the new address register and the write to the configuration space, if any.\<close>

definition pci_config_io_out ::
    "pci_ports \<Rightarrow> u32 \<Rightarrow> u32 \<Rightarrow> int \<Rightarrow> u32 \<Rightarrow> (int \<times> u32 \<times> pci_access option) res" where
  "pci_config_io_out P conf_port_addr port io_size val =
     (if PCI_CONF_PORT_ADDR P \<le> port \<and> port < PCI_CONF_PORT_ADDR_END P
      then let offset = ucast (port - PCI_CONF_PORT_ADDR P) :: u8;
               val = val AND NOT (mask 2)
           in rbind (copy_into conf_port_addr (unat offset) io_size val) (\<lambda>a. Inr (0, a, None))
      else if port < PCI_CONF_PORT_DATA P \<or> PCI_CONF_PORT_DATA_END P < port + word_of_int io_size
      then Inr (-1, conf_port_addr, None)
      else let offset = ucast (port - PCI_CONF_PORT_DATA P) :: u8;
               reg = conf_reg conf_port_addr + offset;
               data = (if io_size = 1 then val AND 0xff else if io_size = 2 then val AND 0xffff else val)
           in if io_size = 1 \<or> io_size = 2 \<or> io_size = 4
              then Inr (0, conf_port_addr, Some (PciWrite (nat io_size) (conf_bus conf_port_addr)
                          (conf_dev conf_port_addr) (conf_fun conf_port_addr) reg data))
              else Inl LogFatal)"

section \<open>Bringing the devices up\<close>

text \<open>The part of \<^verbatim>\<open>main_continued\<close> that initialises the devices, in its order.\<close>

definition init_devices ::
    "env \<Rightarrow> vmm_config \<Rightarrow> getchar_buffer \<Rightarrow> (u32 \<times> u64) list \<Rightarrow> world \<Rightarrow> vmm res" where
  "init_devices E C ring notify w =
     (let (ser_f, ser, w) = serial_pre_init E serial_bss w
      in rbind (pit_pre_init E pit_bss w) (\<lambda>(pit_f, pit, w).
         let (rtc, w) = rtc_pre_init E rtc_bss w
         in rbind (if use_hpet C then hpet_pre_init (init_timer_tsc_frequency E) TIMER_HPET0 hpet_bss w
                   else Inr (hpet_bss, w)) (\<lambda>(hpet, w).
            Inr \<lparr>v_pit_f = pit_f, v_pit = pit, v_ser_f = ser_f, v_ring = ring, v_ser = ser, v_rtc = rtc,
                 v_hpet = hpet, v_notify = notify, v_world = w\<rparr>)))"

section \<open>Devices on one interrupt controller\<close>

text \<open>
  The contract under which devices can be combined: a safe device whose invariant looks at the
  world only through the level of its own line, and whose operations leave the levels of all
  other lines alone.
\<close>

locale irq_device = safe_device step inv admissible
  for step :: "'o \<Rightarrow> 's \<Rightarrow> 's res"
    and inv :: "'s \<Rightarrow> bool"
    and admissible :: "'o \<Rightarrow> bool" +
  fixes line :: nat
    and wd :: "'s \<Rightarrow> world"
    and setw :: "world \<Rightarrow> 's \<Rightarrow> 's"
  assumes step_frame: "n \<noteq> line \<Longrightarrow> keeps n L (wd s) \<Longrightarrow> part (step op s) (\<lambda>t. keeps n L (wd t))"
    and inv_local: "inv s \<Longrightarrow> irq_level line (out w) = irq_level line (out (wd s)) \<Longrightarrow> inv (setw w s)"
begin

lemma step_with_others:
  assumes "inv s" "admissible op"
  shows "ok (step op s) (\<lambda>t. inv t \<and> (\<forall>n. n \<noteq> line \<longrightarrow> irq_level n (out (wd t)) = irq_level n (out (wd s))))"
proof -
  obtain t where t: "step op s = Inr t" "inv t"
    using step_ok [OF assms] by (auto simp: ok_iff_ex)
  moreover have "irq_level n (out (wd t)) = irq_level n (out (wd s))" if "n \<noteq> line" for n
    using step_frame [OF that, of "irq_level n (out (wd s))" s op] t(1) by (simp add: keeps_def)
  ultimately show ?thesis by simp
qed

end

interpretation pit_irq: irq_device "pit_step E f" "\<lambda>s. pit_inv (fst s)" pit_admissible TIMER_IRQ
  snd "\<lambda>w s. (fst s, w)"
proof unfold_locales
  show "part (pit_step E f op s) (\<lambda>t. keeps n L (snd t))" if "n \<noteq> TIMER_IRQ" "keeps n L (snd s)" for n L s op
    using that by (cases s; cases op) (auto simp: split_beta intro!: frame)
qed simp

interpretation serial_irq: irq_device "serial_step E f" sdev_inv serial_admissible TTYS0_IRQ
  "\<lambda>(b, s, w). w" "\<lambda>w (b, s, _). (b, s, w)"
proof unfold_locales
  show "part (serial_step E f op p) (\<lambda>t. keeps n L ((\<lambda>(b, s, w). w) t))"
    if "n \<noteq> TTYS0_IRQ" "keeps n L ((\<lambda>(b, s, w). w) p)" for n L p op
    using that by (cases p; cases op) (auto simp: split_beta intro!: frame)
  show "sdev_inv ((\<lambda>w (b, s, _). (b, s, w)) w p)"
    if "sdev_inv p" "irq_level TTYS0_IRQ (out w) = irq_level TTYS0_IRQ (out ((\<lambda>(b, s, w). w) p))" for p w
    using that by (cases p) (simp add: iir_line_def)
qed

interpretation rtc_irq: irq_device "rtc_step E" rgood "\<lambda>_. True" RTC_IRQ snd "\<lambda>w s. (fst s, w)"
proof unfold_locales
  show "part (rtc_step E op s) (\<lambda>t. keeps n L (snd t))" if "n \<noteq> RTC_IRQ" "keeps n L (snd s)" for n L s op
    using that by (cases s; cases op) (auto simp: split_beta intro!: frame)
  show "rgood (fst s, w)" if "rgood s" "irq_level RTC_IRQ (out w) = irq_level RTC_IRQ (out (snd s))" for s w
    using that by (cases s) (simp add: rtc_line_def)
qed

section \<open>The composed monitor\<close>

definition vmm_inv :: "vmm \<Rightarrow> bool" where
  "vmm_inv v \<longleftrightarrow> pit_inv (v_pit v) \<and> sdev_inv (v_ring v, v_ser v, v_world v) \<and>
     rgood (v_rtc v, v_world v) \<and> list_all (\<lambda>d. snd d \<noteq> 0) (v_notify v)"

lemma irq_lines_distinct [simp]: "TIMER_IRQ \<noteq> TTYS0_IRQ" "TIMER_IRQ \<noteq> RTC_IRQ" "TTYS0_IRQ \<noteq> RTC_IRQ"
  "TTYS0_IRQ \<noteq> TIMER_IRQ" "RTC_IRQ \<noteq> TIMER_IRQ" "RTC_IRQ \<noteq> TTYS0_IRQ"
  by (simp_all add: irq_numbers)

lemma sdev_inv_line:
  "sdev_inv (b, s, w) \<Longrightarrow> irq_level TTYS0_IRQ (out w') = irq_level TTYS0_IRQ (out w) \<Longrightarrow> sdev_inv (b, s, w')"
  using serial_irq.inv_local [of "(b, s, w)" w'] by simp

lemma rgood_line:
  "rgood (s, w) \<Longrightarrow> irq_level RTC_IRQ (out w') = irq_level RTC_IRQ (out w) \<Longrightarrow> rgood (s, w')"
  using rtc_irq.inv_local [of "(s, w)" w'] by simp

lemma ok_on_pit:
  assumes "vmm_inv v" "pit_admissible op"
  shows "ok (on_pit (\<lambda>p w. pit_step E f op (p, w)) v) vmm_inv"
proof -
  have "ok (pit_step E f op (v_pit v, v_world v)) (\<lambda>t. pit_inv (fst t) \<and>
      (\<forall>n. n \<noteq> TIMER_IRQ \<longrightarrow> irq_level n (out (snd t)) = irq_level n (out (v_world v))))"
    using pit_irq.step_with_others [of "(v_pit v, v_world v)" op E f] assms by (simp add: vmm_inv_def)
  then show ?thesis
    using assms(1) unfolding on_pit_def ok_rbind
    by (elim ok_mono) (auto simp: vmm_inv_def intro: sdev_inv_line rgood_line simp del: sdev_inv_simp rgood_pair)
qed

lemma ok_on_rtc:
  assumes "vmm_inv v"
  shows "ok (on_rtc (\<lambda>p w. rtc_step E op (p, w)) v) vmm_inv"
proof -
  have "ok (rtc_step E op (v_rtc v, v_world v)) (\<lambda>t. rgood t \<and>
      (\<forall>n. n \<noteq> RTC_IRQ \<longrightarrow> irq_level n (out (snd t)) = irq_level n (out (v_world v))))"
    using rtc_irq.step_with_others [where s = "(v_rtc v, v_world v)" and op = op and E = E] assms
    by (simp add: vmm_inv_def)
  then show ?thesis
    using assms(1) unfolding on_rtc_def ok_rbind
    by (elim ok_mono) (auto simp: vmm_inv_def intro: sdev_inv_line simp del: sdev_inv_simp rgood_pair)
qed

lemma ok_on_serial:
  assumes "vmm_inv v" "serial_admissible op"
  shows "ok (on_serial (\<lambda>b s w. serial_step E f op (b, s, w)) v) vmm_inv"
proof -
  have "ok (serial_step E f op (v_ring v, v_ser v, v_world v)) (\<lambda>t. sdev_inv t \<and>
      (\<forall>n. n \<noteq> TTYS0_IRQ \<longrightarrow> irq_level n (out ((\<lambda>(b, s, w). w) t)) = irq_level n (out (v_world v))))"
    using serial_irq.step_with_others [of "(v_ring v, v_ser v, v_world v)" op E f] assms
    by (simp add: vmm_inv_def)
  then show ?thesis
    using assms(1) unfolding on_serial_def ok_rbind
    by (elim ok_mono) (auto simp: vmm_inv_def intro: rgood_line simp del: sdev_inv_simp rgood_pair)
qed

lemma vmm_inv_emit [simp]:
  "vmm_inv (v\<lparr>v_world := emit (InjectIrq i) (v_world v)\<rparr>) = vmm_inv v"
  "vmm_inv (v\<lparr>v_world := emit (DeviceNotify d) (v_world v)\<rparr>) = vmm_inv v"
  by (simp_all add: vmm_inv_def iir_line_def rtc_line_def)

lemma irq_badges_length [simp]: "length irq_badges = 16"
  by (simp add: irq_badges_def VM_PIC_BADGES_def)

lemma ok_inject_irqs: "vmm_inv v \<Longrightarrow> ok (run_ops (inject_irq badge) [0..<16] v) vmm_inv"
  by (rule ok_run_ops) (auto simp: inject_irq_def)

lemma ok_notify_devices:
  "list_all (\<lambda>d. snd d \<noteq> 0) ds \<Longrightarrow> vmm_inv v \<Longrightarrow> ok (run_ops (notify_device badge) ds v) vmm_inv"
  by (rule ok_run_ops) (auto simp: notify_device_def split_beta list_all_iff Let_def)

lemma ok_timer_event:
  assumes "vmm_inv v" "\<not> use_hpet C"
  shows "ok (timer_event E C completed v) vmm_inv"
proof -
  have p: "ok (on_pit (pit_timer_interrupt E) v) vmm_inv" if "vmm_inv v" for v
    using ok_on_pit [OF that, of PitTimerInterrupt E 0] by simp
  have r: "ok (on_rtc (rtc_timer_interrupt E completed) v) vmm_inv" if "vmm_inv v" for v
    using ok_on_rtc [OF that, of E "RtcTimer completed"] by simp
  have s: "ok (on_serial (serial_timer_interrupt E (v_ser_f v) completed) v) vmm_inv" if "vmm_inv v" for v
    using ok_on_serial [OF that, of "SerialTimer completed" E "v_ser_f v"] by simp
  show ?thesis
    unfolding timer_event_def using assms by (auto intro!: ok_mono [OF p] ok_mono [OF r] s)
qed

lemma ok_handle_async_event:
  assumes "vmm_inv v" "\<not> use_hpet C"
  shows "ok (handle_async_event E C badge completed v) vmm_inv"
proof -
  have s: "ok (on_serial (serial_character_interrupt E (v_ser_f v)) v) vmm_inv" if "vmm_inv v" for v
    using ok_on_serial [OF that, of SerialChar E "v_ser_f v"] by simp
  have n: "ok (run_ops (notify_device badge) (v_notify v) v) vmm_inv" if "vmm_inv v" for v
    using that by (intro ok_notify_devices) (simp_all add: vmm_inv_def)
  have i: "ok (run_ops (inject_irq badge) [0..<16] v) (\<lambda>v. ok (run_ops (notify_device badge) (v_notify v) v) vmm_inv)"
    if "vmm_inv v" for v
    using n by (rule ok_mono [OF ok_inject_irqs [OF that]])
  show ?thesis
    unfolding handle_async_event_def using assms i
    by (auto intro!: ok_mono [OF ok_timer_event] ok_mono [OF s])
qed


section \<open>Reachable states\<close>

datatype vmm_event =
    Async u64 u32
  | GuestIn io_dev u32 u32
  | GuestOut io_dev u32 u32 u32
  | ConsoleBytes getchar_buffer

fun vmm_step :: "env \<Rightarrow> vmm_config \<Rightarrow> vmm_event \<Rightarrow> vmm \<Rightarrow> vmm res" where
  "vmm_step E C (Async badge completed) v = handle_async_event E C badge completed v"
| "vmm_step E C (GuestIn d p n) v = rbind (port_in E d p n v) (\<lambda>(_, _, v). Inr v)"
| "vmm_step E C (GuestOut d p n x) v = rbind (port_out E d p n x v) (\<lambda>(_, v). Inr v)"
| "vmm_step E C (ConsoleBytes b) v = Inr (v\<lparr>v_ring := b\<rparr>)"

text \<open>
  The library passes a byte for a byte-wide access.  An access to the clock of another width is
  excluded, since it fails an assertion.
\<close>

fun vmm_admissible :: "vmm_event \<Rightarrow> bool" where
  "vmm_admissible (Async badge completed) = True"
| "vmm_admissible (GuestIn d p n) = (d = Cmos \<longrightarrow> n = 1)"
| "vmm_admissible (GuestOut d p n x) = ((d = Cmos \<longrightarrow> n = 1) \<and> (n = 1 \<longrightarrow> unat x < 256))"
| "vmm_admissible (ConsoleBytes b) = ring_ok b"

inductive vmm_reach :: "env \<Rightarrow> vmm_config \<Rightarrow> vmm \<Rightarrow> bool" for E C where
  vmm_boot: "init_devices E C ring notify w = Inr v \<Longrightarrow> ring_ok ring \<Longrightarrow> list_all (\<lambda>d. snd d \<noteq> 0) notify \<Longrightarrow>
     irq_level TTYS0_IRQ (out w) = 0 \<Longrightarrow> vmm_reach E C v"
| vmm_next: "vmm_reach E C v \<Longrightarrow> vmm_admissible e \<Longrightarrow> vmm_step E C e v = Inr v' \<Longrightarrow> vmm_reach E C v'"

lemma port_in_step:
  "rbind (port_in E Com1 p n v) (\<lambda>(_, _, v). Inr v) =
     on_serial (\<lambda>b s w. serial_step E (v_ser_f v) (SerialIn p n) (b, s, w)) v"
  "rbind (port_in E Pit p n v) (\<lambda>(_, _, v). Inr v) =
     on_pit (\<lambda>s w. pit_step E (v_pit_f v) (PitIn p n) (s, w)) v"
  "rbind (port_in E Cmos p 1 v) (\<lambda>(_, _, v). Inr v) = on_rtc (\<lambda>s w. rtc_step E (CmosIn p) (s, w)) v"
proof -
  show "rbind (port_in E Com1 p n v) (\<lambda>(_, _, v). Inr v) =
     on_serial (\<lambda>b s w. serial_step E (v_ser_f v) (SerialIn p n) (b, s, w)) v"
    by (cases "serial_port_in E (v_ser_f v) p n (v_ser v) (v_world v)") (auto simp: on_serial_def)
  show "rbind (port_in E Pit p n v) (\<lambda>(_, _, v). Inr v) =
     on_pit (\<lambda>s w. pit_step E (v_pit_f v) (PitIn p n) (s, w)) v"
    by (cases "i8254_port_in E (v_pit_f v) p n (v_pit v) (v_world v)") (auto simp: on_pit_def)
  show "rbind (port_in E Cmos p 1 v) (\<lambda>(_, _, v). Inr v) = on_rtc (\<lambda>s w. rtc_step E (CmosIn p) (s, w)) v"
    by (cases "cmos_port_in p 1 (v_rtc v) (v_world v)") (auto simp: on_rtc_def)
qed

lemma port_out_step:
  "rbind (port_out E Com1 p n x v) (\<lambda>(_, v). Inr v) =
     on_serial (\<lambda>b s w. serial_step E (v_ser_f v) (SerialOut p n x) (b, s, w)) v"
  "rbind (port_out E Pit p n x v) (\<lambda>(_, v). Inr v) =
     on_pit (\<lambda>s w. pit_step E (v_pit_f v) (PitOut p n x) (s, w)) v"
  "rbind (port_out E Cmos p 1 x v) (\<lambda>(_, v). Inr v) = on_rtc (\<lambda>s w. rtc_step E (CmosOut p x) (s, w)) v"
proof -
  show "rbind (port_out E Com1 p n x v) (\<lambda>(_, v). Inr v) =
     on_serial (\<lambda>b s w. serial_step E (v_ser_f v) (SerialOut p n x) (b, s, w)) v"
    by (cases "serial_port_out E (v_ser_f v) p n x (v_ser v) (v_world v)") (auto simp: on_serial_def)
  show "rbind (port_out E Pit p n x v) (\<lambda>(_, v). Inr v) =
     on_pit (\<lambda>s w. pit_step E (v_pit_f v) (PitOut p n x) (s, w)) v"
    by (cases "i8254_port_out E (v_pit_f v) p n x (v_pit v) (v_world v)") (auto simp: on_pit_def)
  show "rbind (port_out E Cmos p 1 x v) (\<lambda>(_, v). Inr v) = on_rtc (\<lambda>s w. rtc_step E (CmosOut p x) (s, w)) v"
    by (cases "cmos_port_out E p 1 x (v_rtc v) (v_world v)") (auto simp: on_rtc_def)
qed

lemma vmm_step_ok:
  assumes "vmm_inv v" "\<not> use_hpet C" "vmm_admissible e"
  shows "ok (vmm_step E C e v) vmm_inv"
proof (cases e)
  case (Async badge completed)
  then show ?thesis using ok_handle_async_event [OF assms(1,2)] by simp
next
  case (GuestIn d p n)
  then show ?thesis
    using assms by (cases d) (auto simp: port_in_step simp del: pit_step.simps serial_step.simps rtc_step.simps
      port_in.simps ok_rbind intro!: ok_on_serial ok_on_pit ok_on_rtc)
next
  case (GuestOut d p n x)
  then show ?thesis
    using assms by (cases d) (auto simp: port_out_step simp del: pit_step.simps serial_step.simps rtc_step.simps
      port_out.simps ok_rbind intro!: ok_on_serial ok_on_pit ok_on_rtc)
next
  case (ConsoleBytes b)
  then show ?thesis using assms by (simp add: vmm_inv_def)
qed

lemma init_devices_ok:
  assumes "\<not> use_hpet C" "ring_ok ring" "list_all (\<lambda>d. snd d \<noteq> 0) notify" "irq_level TTYS0_IRQ (out w) = 0"
  shows "ok (init_devices E C ring notify w) vmm_inv"
proof -
  obtain f s w1 where s: "serial_pre_init E serial_bss w = (f, s, w1)" by (metis prod_cases3)
  then have s1: "sgood (s, w1)" using serial_pre_init_good [OF assms(4), of E] by simp
  obtain g p w2 where p: "pit_pre_init E pit_bss w1 = Inr (g, p, w2)" "pit_inv p"
    using pit_pre_init_ok [of E w1] by (auto simp: ok_iff_ex)
  have 2: "irq_level TTYS0_IRQ (out w2) = irq_level TTYS0_IRQ (out w1)"
    using pit_pre_init_frame [of TTYS0_IRQ "irq_level TTYS0_IRQ (out w1)" w1 "\<lambda>x. keeps TTYS0_IRQ (irq_level TTYS0_IRQ (out w1)) (snd (snd x))" E pit_bss] p(1)
    by (simp add: keeps_def)
  obtain r w3 where r: "rtc_pre_init E rtc_bss w2 = (r, w3)" by (metis surj_pair)
  then have r1: "rgood (r, w3)" using rtc_pre_init_good [of E w2] by simp
  have "irq_level TTYS0_IRQ (out w3) = irq_level TTYS0_IRQ (out w2)"
    using rtc_pre_init_frame [of TTYS0_IRQ "irq_level TTYS0_IRQ (out w2)" E rtc_bss w2] r by (simp add: keeps_def)
  then have "sgood (s, w3)" using s1 2 by (simp add: iir_line_def)
  then show ?thesis
    using s p r r1 assms by (simp add: init_devices_def vmm_inv_def)
qed

lemma vmm_reach_inv: "vmm_reach E C v \<Longrightarrow> \<not> use_hpet C \<Longrightarrow> vmm_inv v"
proof (induction rule: vmm_reach.induct)
  case (vmm_boot ring notify w v)
  then show ?case using init_devices_ok [of C ring notify w E] by simp
next
  case (vmm_next v e v')
  then show ?case using vmm_step_ok [of v C e E] by simp
qed

text \<open>
  C1. In the default configuration, without the HPET, the monitor never faults after its devices
  have been initialised: in every state that any interleaving of asynchronous events, guest port
  accesses and console input can reach, every admissible event is handled without a fault by the
  devices that share the interrupt controller.  Lines never go stale: the UART's line is high
  exactly when its identification register reports an interrupt, and the clock's line is high
  whenever its register C asks for one.
\<close>

theorem vmm_safe:
  assumes "\<not> use_hpet C" "vmm_reach E C v" "vmm_admissible e"
  shows "(\<exists>v'. vmm_step E C e v = Inr v') \<and>
    irq_level TTYS0_IRQ (out (v_world v)) = (if iir (v_ser v) AND UART_IIR_NO_INT = 0 then 1 else 0) \<and>
    (irq_level RTC_IRQ (out (v_world v)) = 1 \<or> reg (v_rtc v) RTC_REG_C AND REG_C_IRQF = 0)"
proof -
  have v: "vmm_inv v" by (rule vmm_reach_inv [OF assms(2,1)])
  then show ?thesis
    using vmm_step_ok [OF v assms(1,3), of E]
    by (auto simp: ok_iff_ex vmm_inv_def iir_line_def rtc_line_def)
qed

definition sample_config :: vmm_config where
  "sample_config = \<lparr>use_hpet = False, init_timer_notification_badge = BIT 27 OR BIT 20,
     serial_getchar_notification_badge = BIT 27 OR BIT 21\<rparr>"

lemma vmm_safe_witness:
  "\<exists>v v'. vmm_reach sample_env sample_config v \<and>
     vmm_step sample_env sample_config (GuestOut Com1 0x3f8 1 65) v = Inr v'"
proof -
  have "irq_level TTYS0_IRQ (out boot_world) = 0" by (simp add: boot_world_def)
  then obtain v where v: "init_devices sample_env sample_config sample_ring [] boot_world = Inr v"
    using init_devices_ok [of sample_config sample_ring "[]" boot_world sample_env] sample_ring_ok
    by (auto simp: ok_iff_ex sample_config_def)
  then have r: "vmm_reach sample_env sample_config v"
    using sample_ring_ok by (intro vmm_boot [OF v]) (simp_all add: boot_world_def)
  then show ?thesis
    using vmm_safe [OF _ r, of "GuestOut Com1 0x3f8 1 65"] by (auto simp: sample_config_def)
qed

section \<open>Which interrupts an event injects\<close>

lemma badge_has_bits: "badge_has x b \<longleftrightarrow> (\<forall>n. bit b n \<longrightarrow> bit x n)"
proof
  show "\<forall>n. bit b n \<longrightarrow> bit x n" if "badge_has x b"
    using that unfolding badge_has_def by (metis bit_and_iff)
  show "badge_has x b" if "\<forall>n. bit b n \<longrightarrow> bit x n"
    unfolding badge_has_def using that by (auto simp: bit_and_iff intro: bit_word_eqI)
qed

lemma and_BIT_0_iff: "(x :: u64) AND BIT n = 0 \<longleftrightarrow> \<not> bit x n"
  by (simp add: BIT_def and_exp_eq_0_iff_not_bit)

lemma badge_has_BIT: "n < 64 \<Longrightarrow> badge_has x (BIT n) \<longleftrightarrow> bit x n"
  by (auto simp: badge_has_bits BIT_def bit_exp_iff)

lemma badge_has_or: "badge_has x (a OR b) \<longleftrightarrow> badge_has x a \<and> badge_has x b"
  by (auto simp: badge_has_bits bit_or_iff)

lemma irq_badges_BIT: "i < 16 \<Longrightarrow> irq_badges ! i = BIT 27 OR BIT (i + 1)"
proof -
  have "list_all (\<lambda>i. irq_badges ! i = BIT 27 OR BIT (i + 1)) [0..<16]"
    by (simp add: upt_rec irq_badges_def VM_PIC_BADGES_def BIT_def)
  then show "i < 16 \<Longrightarrow> irq_badges ! i = BIT 27 OR BIT (i + 1)" by (simp add: list_all_iff)
qed

lemma badge_has_irq: "i < 16 \<Longrightarrow> bit badge 27 \<Longrightarrow> badge_has badge (irq_badges ! i) \<longleftrightarrow> bit badge (i + 1)"
  by (simp add: irq_badges_BIT badge_has_or badge_has_BIT)

definition emits :: "effect list \<Rightarrow> vmm \<Rightarrow> vmm" where
  "emits es v = v\<lparr>v_world := (v_world v)\<lparr>out := out (v_world v) @ es\<rparr>\<rparr>"

lemma emits_simps [simp]: "emits [] v = v" "emits es (emits ds v) = emits (ds @ es) v"
  "v\<lparr>v_world := emit e (v_world v)\<rparr> = emits [e] v" "v_notify (emits es v) = v_notify v"
  by (simp_all add: emits_def emit_def)

lemma inject_irq_emits:
  "bit badge 27 \<Longrightarrow> i < 16 \<Longrightarrow>
   inject_irq badge i v = Inr (if bit badge (i + 1) then emits [InjectIrq i] v else v)"
  using badge_has_irq [of i badge] by (simp add: inject_irq_def aget_def)

lemma run_inject_irqs:
  "bit badge 27 \<Longrightarrow> n \<le> 16 \<Longrightarrow>
   run_ops (inject_irq badge) [0..<n] v = Inr (emits (map InjectIrq (filter (\<lambda>i. bit badge (i + 1)) [0..<n])) v)"
proof (induction n)
  case (Suc n)
  have "run_ops (inject_irq badge) ([0..<n] @ [n]) v = rbind (run_ops (inject_irq badge) [0..<n] v) (inject_irq badge n)"
    by (rule run_ops_snoc)
  then show ?case using Suc by (simp add: inject_irq_emits)
qed simp

lemma run_notify_devices:
  "list_all (\<lambda>d. snd d \<noteq> 0) ds \<Longrightarrow>
   run_ops (notify_device badge) ds v =
     Inr (emits (map (DeviceNotify \<circ> snd) (filter (\<lambda>d. badge_has badge (ucast (fst d))) ds)) v)"
  by (induction ds arbitrary: v) (auto simp: notify_device_def Let_def split_beta)

text \<open>
  An event that comes neither from the timer nor from the console injects exactly the
  interrupts whose bits are set in its badge, in ascending order, and then notifies exactly the
  extra devices whose badges are contained in it, in the order of their configuration; nothing
  else changes.
\<close>

theorem async_event_dispatch:
  assumes "bit badge 27" "\<not> badge_has badge (init_timer_notification_badge C)"
    "\<not> badge_has badge (serial_getchar_notification_badge C)" "list_all (\<lambda>d. snd d \<noteq> 0) (v_notify v)"
  shows "handle_async_event E C badge completed v = Inr (v\<lparr>v_world := (v_world v)\<lparr>out := out (v_world v) @
     map InjectIrq (filter (\<lambda>i. bit badge (i + 1)) [0..<16]) @
     map (DeviceNotify \<circ> snd) (filter (\<lambda>d. badge_has badge (ucast (fst d))) (v_notify v))\<rparr>\<rparr>)"
proof -
  have "badge AND BIT 27 \<noteq> 0" using assms(1) by (simp add: and_BIT_0_iff)
  then show ?thesis
    using assms run_inject_irqs [OF assms(1), of 16 v] run_notify_devices [OF assms(4)]
    by (simp add: handle_async_event_def) (simp add: emits_def)
qed

section \<open>Addresses of the PCI configuration space\<close>

definition standard_pci_ports :: pci_ports where
  "standard_pci_ports = \<lparr>PCI_CONF_PORT_ADDR = 0xcf8, PCI_CONF_PORT_ADDR_END = 0xcfc,
     PCI_CONF_PORT_DATA = 0xcfc, PCI_CONF_PORT_DATA_END = 0xd00\<rparr>"

definition pci_conf_address :: "u8 \<Rightarrow> u8 \<Rightarrow> u8 \<Rightarrow> u8 \<Rightarrow> u32" where
  "pci_conf_address bus dev fn r =
     0x80000000 OR push_bit 16 (ucast bus) OR push_bit 11 (ucast dev) OR push_bit 8 (ucast fn) OR ucast r"

lemma byte_small_bits:
  assumes "unat (x :: u8) < 2 ^ k" "k \<le> n"
  shows "\<not> bit x n"
proof -
  have "take_bit k x = x" using assms(1) by (simp add: take_bit_eq_self_iff_unat)
  then have "bit x n = (n < k \<and> bit x n)" by (metis bit_take_bit_iff)
  then show ?thesis using assms(2) by simp
qed

lemma byte_bits: "bit (x :: u8) n \<Longrightarrow> n < 8"
  using bit_imp_le_length [of x n] by simp

lemma bit_pci_conf_address:
  "n < 32 \<Longrightarrow> bit (pci_conf_address bus dev fn r) n \<longleftrightarrow>
     n = 31 \<or> 16 \<le> n \<and> bit bus (n - 16) \<or> 11 \<le> n \<and> bit dev (n - 11) \<or> 8 \<le> n \<and> bit fn (n - 8) \<or> bit r n"
proof -
  assume n: "n < 32"
  have "(0x80000000 :: int) = 2 ^ 31" by simp
  then have b: "bit (0x80000000 :: int) n \<longleftrightarrow> n = 31" by (simp only: bit_exp_iff) auto
  show ?thesis
    using n by (auto simp: pci_conf_address_def bit_or_iff bit_push_bit_iff bit_ucast_iff b)
qed

lemma conf_fields:
  assumes "unat dev < 32" "unat fn < 8"
  shows "conf_bus (pci_conf_address bus dev fn r) = bus" "conf_dev (pci_conf_address bus dev fn r) = dev"
    "conf_fun (pci_conf_address bus dev fn r) = fn" "conf_reg (pci_conf_address bus dev fn r) = r"
proof -
  have d: "\<not> bit dev k" if "5 \<le> k" for k using byte_small_bits [of dev 5 k] assms(1) that by simp
  have f: "\<not> bit fn k" if "3 \<le> k" for k using byte_small_bits [of fn 3 k] assms(2) that by simp
  have b: "\<not> bit x k" if "8 \<le> k" for x :: u8 and k using byte_bits [of x k] that by auto
  have d5: "k < 5" if "bit dev k" for k using d [of k] that by (cases "k < 5") auto
  have f3: "k < 3" if "bit fn k" for k using f [of k] that by (cases "k < 3") auto
  show "conf_bus (pci_conf_address bus dev fn r) = bus"
    by (rule bit_word_eqI)
      (auto simp: conf_bus_def bit_ucast_iff bit_and_iff bit_drop_bit_eq bit_mask_iff bit_pci_conf_address d f b dest: d5 f3)
  show "conf_dev (pci_conf_address bus dev fn r) = dev"
    by (rule bit_word_eqI)
      (auto simp: conf_dev_def bit_ucast_iff bit_and_iff bit_drop_bit_eq bit_mask_iff bit_pci_conf_address d f b dest: d5 f3)
  show "conf_fun (pci_conf_address bus dev fn r) = fn"
    by (rule bit_word_eqI)
      (auto simp: conf_fun_def bit_ucast_iff bit_and_iff bit_drop_bit_eq bit_mask_iff bit_pci_conf_address d f b dest: d5 f3)
  show "conf_reg (pci_conf_address bus dev fn r) = r"
    by (rule bit_word_eqI)
      (auto simp: conf_reg_def bit_ucast_iff bit_and_iff bit_drop_bit_eq bit_mask_iff bit_pci_conf_address d f b dest: d5 f3)
qed

lemma conf_address_aligned:
  "pci_conf_address bus dev fn r AND NOT (mask 2) = pci_conf_address bus dev fn (r AND NOT (mask 2))"
  by (rule bit_word_eqI) (auto simp: bit_pci_conf_address bit_and_iff bit_not_iff bit_mask_iff dest: byte_bits)

lemma copy_into_all: "copy_into a 0 4 x = Inr x"
  unfolding copy_into_def
  by (auto simp: bit_and_iff bit_or_iff bit_not_iff bit_mask_iff bit_take_bit_iff intro: bit_word_eqI)

text \<open>
  An address written to the address port selects that bus, device and function: after a
  32-bit write of the encoded address, an access of one, two or four bytes at an offset of the
  data port reaches exactly that function's configuration space, at the register rounded down to
  a multiple of four plus the offset.
\<close>

theorem pci_config_address_roundtrip:
  assumes ports: "PCI_CONF_PORT_ADDR P = 0xcf8" "0xcf8 < PCI_CONF_PORT_ADDR_END P"
      "PCI_CONF_PORT_ADDR_END P \<le> 0xcfc" "PCI_CONF_PORT_DATA P = 0xcfc" "PCI_CONF_PORT_DATA_END P = 0xd00"
    and "unat dev < 32" "unat fn < 8" "n = 1 \<or> n = 2 \<or> n = 4" "off + n \<le> 4"
  shows "rbind (pci_config_io_out P a 0xcf8 4 (pci_conf_address bus dev fn r)) (\<lambda>(_, a', _).
           pci_config_io_in P pci a' (0xcfc + word_of_nat off) (int n)) =
         Inr (0, Some (pci (PciRead n bus dev fn ((r AND NOT (mask 2)) + word_of_nat off))))"
proof -
  have w: "pci_config_io_out P a 0xcf8 4 (pci_conf_address bus dev fn r) =
      Inr (0, pci_conf_address bus dev fn (r AND NOT (mask 2)), None)"
    using ports by (simp add: pci_config_io_out_def copy_into_all conf_address_aligned)
  have off: "off \<in> {0, 1, 2, 3}" using assms(8,9) by auto
  then have p: "\<not> (0xcfc + word_of_nat off :: u32) < PCI_CONF_PORT_ADDR_END P"
    using ports(3) by (auto simp: word_less_nat_alt word_le_nat_alt)
  have d: "\<not> (0xcfc + word_of_nat off :: u32) < 0xcfc" "\<not> (0xd00 :: u32) < 0xcfc + word_of_nat off + word_of_nat n"
    using off assms(8,9) by (auto simp: word_less_nat_alt)
  have o: "(ucast (word_of_nat off :: u32) :: u8) = word_of_nat off" using off by auto
  have "0 < n" using assms(8) by auto
  have m: "int n = 1 \<or> int n = 2 \<or> int n = 4" using assms(8) by auto
  show ?thesis
    unfolding w rbind_Inr case_prod_conv pci_config_io_in_def ports
    using p d m by (simp add: conf_fields assms(6,7) o del: disj_not1)
qed

definition sample_vmm :: vmm where
  "sample_vmm = \<lparr>v_pit_f = 1, v_pit = pit_bss, v_ser_f = 1, v_ring = sample_ring, v_ser = serial_bss,
     v_rtc = rtc_bss, v_hpet = hpet_bss, v_notify = [(BIT 27 OR BIT 18, 0x400000), (BIT 27 OR BIT 19, 0x400100)],
     v_world = boot_world\<rparr>"

lemma async_event_dispatch_witness:
  "handle_async_event sample_env sample_config 0x8042080 0 sample_vmm =
     Inr (sample_vmm\<lparr>v_world := boot_world\<lparr>out := [InjectIrq 6, InjectIrq 12, DeviceNotify 0x400000]\<rparr>\<rparr>)"
proof -
  have "bit (0x8042080 :: u64) 27" by simp
  from async_event_dispatch [OF this, of sample_config sample_vmm sample_env 0] show ?thesis
    by (simp add: sample_config_def badge_has_def BIT_def sample_vmm_def upt_rec boot_world_def)
qed

lemma pci_config_address_roundtrip_witness:
  "rbind (pci_config_io_out standard_pci_ports 0 0xcf8 4 (pci_conf_address 1 2 3 0x10)) (\<lambda>(_, a', _).
     pci_config_io_in standard_pci_ports (\<lambda>x. 7) a' (0xcfc + word_of_nat 1) (int 2)) = Inr (0, Some 7)"
  using pci_config_address_roundtrip [of standard_pci_ports 2 3 2 1 0 1 "0x10" "\<lambda>x. 7"]
  by (simp add: standard_pci_ports_def)

text \<open>
  A copy that starts inside the address register but is wider than what is left of it leaves its
  four bytes, and a partial write clears the two low bits of the byte it writes, whichever it is.
\<close>

lemma pci_config_io_out_overruns:
  "PCI_CONF_PORT_ADDR P = 0xcf8 \<Longrightarrow> 0xcfa < PCI_CONF_PORT_ADDR_END P \<Longrightarrow>
   pci_config_io_out P a 0xcfa 4 v = Inl OutOfBounds"
  by (simp add: pci_config_io_out_def copy_into_def)

lemma pci_config_partial_write:
  "pci_config_io_out standard_pci_ports 0x80000000 0xcfa 1 3 = Inr (0, 0x80000000, None)"
  by (simp add: pci_config_io_out_def copy_into_def standard_pci_ports_def mask_numeral)

end
