(* ===== verification/Vmm_Boot.thy ===== *)
theory Vmm_Boot
  imports Vmm_Main Calls
begin

unbundle bit_operations_syntax

text \<open>
  How the x86 VMM boots: \<^verbatim>\<open>main_continued\<close> and \<^verbatim>\<open>init_irqs\<close> of
  \<^verbatim>\<open>components/Init/src/main.c\<close>.  The function is a sequence of some forty calls of
  the kernel and of the VM libraries, whose results it checks, between loops over the
  configuration.  The libraries are a parameter, as in \<open>Calls\<close>.
\<close>

section \<open>Calls and their checks\<close>

datatype boot_call =
    LibpciScan | InstallFileserver | MallocOps | VmInit | AddIospace cptr | CreateVcpu
  | RegisterNotificationCallback | RegisterUnhandledIoportCallback | AllocNotifyList
  | AllocPath | Mint u64 | IrqSetNotification cptr | IrqAck cptr | RegisterIrq u8 cptr
  | CreateIrqController | SerialPreInit | PitPreInit | RtcPreInit | HpetPreInit | CreateHpet
  | IoPortInit | RamRegisterAt nat nat | ReserveMemory nat nat | MapFrameAlloc | MakeAnon nat nat
  | RamRegister u64 | PciInit | FindDevice u8 u8 u8 | MapBars u8 u8 u8 | AddPciEntry u8 u8 u8 int u8
  | InitDevice u64 | AddIoHandler "u16 \<times> u16" | EnablePassthrough u16 u16 | AddPciConfigHandler
  | FindFreeRegion | LoadKernel | LoadModule | InitBootStructure | AllocAsyncSlot | MintAsyncCap u64 | CrossVmInit cptr
  | InitThreadState | VcpuStart | VmRun

type_synonym ext = "boot_call library"
type_synonym log = "boot_call calls"

section \<open>Configuration\<close>

record boot_config =
  bc_vmm :: vmm_config
  bc_iommu :: bool
  bc_pci :: "pci_device list"
  bc_irqs :: "irq_conf list"
  bc_cons :: "init_con list"
  bc_gmaps :: "gmap list"
  bc_exclude :: "nat list"
  bc_ioports :: "ioport_cap list"
  bc_x86_ports :: x86_ports
  bc_guest_ram_mb :: int
  bc_initrd_image :: string
  bc_cross_vm :: bool

definition guest_ram_regions :: "(nat \<times> nat) list" where
  "guest_ram_regions = [(0x500, 0x80000 - 0x500), (0x80000, 0x9fc00 - 0x80000)]"

definition guest_fake_devices :: "(nat \<times> nat) list" where
  "guest_fake_devices = [(0xf0000, 0x10000), (0xc0000, 0xc8000 - 0xc0000), (0xc8000, 0xe0000 - 0xc8000)]"

definition free_anonymous_regions :: "(nat \<times> nat) list" where
  "free_anonymous_regions = [(0x10003000, 0xa0000000 - 0x10003000)]"

section \<open>Interrupts of passed-through devices\<close>

definition init_irq :: "ext \<Rightarrow> irq_conf \<Rightarrow> log \<Rightarrow> log res" where
  "init_irq ext q l =
     rbind (checked ext AllocPath l) (\<lambda>l.
     rbind (aget irq_badges (unat (irq_dest q))) (\<lambda>badge.
     seq_steps
       [checked ext (Mint badge),
        checked ext (IrqSetNotification (irq_cap q)),
        checked ext (IrqAck (irq_cap q)),
        checked ext (RegisterIrq (irq_dest q) (irq_cap q))] l))"

definition init_irqs :: "boot_config \<Rightarrow> ext \<Rightarrow> log \<Rightarrow> log res" where
  "init_irqs B ext l =
     run_ops (\<lambda>i l. case irqs_get_irq (bc_irqs B) (int i) of None \<Rightarrow> Inr l | Some q \<Rightarrow> init_irq ext q l)
       [0..<nat (irqs_num_irqs (bc_irqs B))] l"

section \<open>The machine\<close>

definition add_iospaces :: "boot_config \<Rightarrow> ext \<Rightarrow> log \<Rightarrow> log res" where
  "add_iospaces B ext l =
     (if bc_iommu B
      then run_ops (\<lambda>i l. case pci_devices_get_device (bc_pci B) (int i) of
                            None \<Rightarrow> Inr l
                          | Some (_, _, _, iospace_cap, _) \<Rightarrow> checked ext (AddIospace iospace_cap) l)
             [0..<nat (pci_devices_num_devices (bc_pci B))] l
      else Inr l)"

definition boot_machine :: "boot_config \<Rightarrow> ext \<Rightarrow> log \<Rightarrow> log res" where
  "boot_machine B ext =
     seq_steps
       [\<lambda>l. if 0 < pci_devices_num_devices (bc_pci B) then call_void LibpciScan l else Inr l,
        call_void InstallFileserver,
        checked ext MallocOps,
        checked ext VmInit,
        add_iospaces B ext,
        call_nonzero AssertFail ext CreateVcpu,
        asserted ext RegisterNotificationCallback,
        asserted ext RegisterUnhandledIoportCallback,
        \<lambda>l. rbind (init_con_irq_init (answer ext AllocNotifyList l \<noteq> 0) (bc_cons B)) (\<lambda>_. Inr (l @ [AllocNotifyList])),
        init_irqs B ext,
        checked ext CreateIrqController,
        call_void SerialPreInit,
        call_void PitPreInit,
        call_void RtcPreInit,
        \<lambda>l. if use_hpet (bc_vmm B) then seq_steps [call_void HpetPreInit, call_void CreateHpet] l else Inr l,
        checked ext IoPortInit]"

section \<open>Guest memory\<close>

definition reserve_early :: "ext \<Rightarrow> log \<Rightarrow> log res" where
  "reserve_early ext =
     seq_steps
       [run_ops (\<lambda>(base, sz). checked ext (RamRegisterAt base sz)) guest_ram_regions,
        run_ops (\<lambda>(base, sz) l. rbind (call_nonzero LogFatal ext (ReserveMemory base sz) l)
                                  (checked ext MapFrameAlloc)) guest_fake_devices]"

text \<open>The result of the accessor is taken for an error code.\<close>

definition add_guest_maps :: "boot_config \<Rightarrow> log \<Rightarrow> log res" where
  "add_guest_maps B l =
     run_ops (\<lambda>i l. let (error, _) = guest_mappings_get_guest_map (bc_gmaps B) (int i)
                    in if error \<noteq> 0 then Inl LogFatal else Inr l)
       [0..<nat (guest_mappings_num_guestmaps (bc_gmaps B))] l"

definition exclude_paddrs :: "boot_config \<Rightarrow> ext \<Rightarrow> log \<Rightarrow> log res" where
  "exclude_paddrs B ext l =
     run_ops (\<lambda>i l. rbind (exclude_paddr_get_region (bc_exclude B) i) (\<lambda>(base, bytes).
                    call_nonzero LogFatal ext (ReserveMemory base bytes) l))
       [0..<nat (exclude_paddr_num_regions (bc_exclude B))] l"

definition make_anon :: "ext \<Rightarrow> log \<Rightarrow> log res" where
  "make_anon ext = run_ops (\<lambda>(base, sz). checked ext (MakeAnon base sz)) free_anonymous_regions"

definition MiB_TO_BYTES :: "int \<Rightarrow> u64" where
  "MiB_TO_BYTES mb = word_of_int mb * 0x100000"

function allocate_ram :: "ext \<Rightarrow> u64 \<Rightarrow> log \<Rightarrow> log res" where
  "allocate_ram ext remaining l =
     (if remaining = 0 then Inr l
      else let allocate = min remaining (MiB_TO_BYTES 512)
           in rbind (call_nonzero LogFatal ext (RamRegister allocate) l)
                (allocate_ram ext (remaining - allocate)))"
  by pat_completeness auto

lemma ram_chunk:
  "remaining \<noteq> 0 \<Longrightarrow> unat (remaining - min remaining (MiB_TO_BYTES 512)) =
     unat remaining - min (unat remaining) (2 ^ 29)"
  "remaining \<noteq> 0 \<Longrightarrow> unat (min remaining (MiB_TO_BYTES 512)) = min (unat remaining) (2 ^ 29)"
proof -
  have c: "MiB_TO_BYTES 512 = 0x20000000" by (simp add: MiB_TO_BYTES_def)
  have m: "unat (min remaining (MiB_TO_BYTES 512)) = min (unat remaining) (2 ^ 29)"
    by (auto simp: c min_def word_le_nat_alt)
  show "unat (min remaining (MiB_TO_BYTES 512)) = min (unat remaining) (2 ^ 29)" by (rule m)
  have "min remaining (MiB_TO_BYTES 512) \<le> remaining" by simp
  then show "unat (remaining - min remaining (MiB_TO_BYTES 512)) = unat remaining - min (unat remaining) (2 ^ 29)"
    by (simp add: unat_sub m)
qed

termination allocate_ram
  by (relation "measure (\<lambda>(ext, remaining, l). unat remaining)") (auto simp: Let_def ram_chunk unat_gt_0)

declare allocate_ram.simps [simp del]

definition boot_memory :: "boot_config \<Rightarrow> ext \<Rightarrow> log \<Rightarrow> log res" where
  "boot_memory B ext =
     seq_steps
       [reserve_early ext, add_guest_maps B, exclude_paddrs B ext, make_anon ext,
        allocate_ram ext (MiB_TO_BYTES (bc_guest_ram_mb B)),
        checked ext PciInit]"

section \<open>PCI devices\<close>

text \<open>The first IRQ with the name, or -1.\<close>

fun find_irq :: "irq_conf list \<Rightarrow> string \<Rightarrow> int" where
  "find_irq [] n = -1"
| "find_irq (q # qs) n = (if irq_name q = n then int (unat (irq_dest q)) else find_irq qs n)"

text \<open>\<open>None\<close>: the device does not exist, and the function returns.\<close>

definition pass_through :: "boot_config \<Rightarrow> ext \<Rightarrow> nat \<Rightarrow> log \<Rightarrow> log option res" where
  "pass_through B ext i l =
     (case pci_devices_get_device (bc_pci B) (int i) of
        None \<Rightarrow> Inr (Some l)
      | Some (bus, dev, fn, _, _) \<Rightarrow>
          (case pci_devices_get_device_irq (bc_pci B) (int i) of
             None \<Rightarrow> Inl NullDeref
           | Some nm \<Rightarrow>
               let irq = find_irq (bc_irqs B) nm
               in rbind (rassert (irq \<noteq> -1)) (\<lambda>_.
                  if answer ext (FindDevice bus dev fn) l = 0 then Inr None
                  else let l = l @ [FindDevice bus dev fn];
                           num_bars = answer ext (MapBars bus dev fn) l
                       in rbind (rassert (0 \<le> num_bars)) (\<lambda>_.
                          rbind (asserted ext (AddPciEntry bus dev fn num_bars (word_of_int irq))
                                   (l @ [MapBars bus dev fn])) (\<lambda>l. Inr (Some l))))))"

fun pass_through_all :: "boot_config \<Rightarrow> ext \<Rightarrow> nat list \<Rightarrow> log \<Rightarrow> log option res" where
  "pass_through_all B ext [] l = Inr (Some l)"
| "pass_through_all B ext (i # is) l =
     rbind (pass_through B ext i l) (\<lambda>r. case r of None \<Rightarrow> Inr None | Some l \<Rightarrow> pass_through_all B ext is l)"

section \<open>Devices, ports and the kernel image\<close>

definition init_extra_devices :: "boot_config \<Rightarrow> log \<Rightarrow> log res" where
  "init_extra_devices B l =
     run_ops (\<lambda>i. call_void (InitDevice (init_cons_init_function (bc_cons B) (int i))))
       [0..<nat (init_cons_num_connections (bc_cons B))] l"

definition add_io_ports :: "boot_config \<Rightarrow> ext \<Rightarrow> log \<Rightarrow> log res" where
  "add_io_ports B ext =
     seq_steps
       [run_ops (\<lambda>h. asserted ext (AddIoHandler (fst h))) (ioport_handlers (bc_x86_ports B)),
        run_ops (\<lambda>i l. case ioports_get_nonpci_ioport (bc_ioports B) (int i) of
                         None \<Rightarrow> Inr l
                       | Some p \<Rightarrow> asserted ext (EnablePassthrough (iop_start p) (iop_end p)) l)
          [0..<nat (ioports_num_nonpci_ioports (bc_ioports B))],
        asserted ext AddPciConfigHandler]"

definition load_guest :: "boot_config \<Rightarrow> ext \<Rightarrow> log \<Rightarrow> log res" where
  "load_guest B ext =
     seq_steps
       [checked ext FindFreeRegion,
        checked ext LoadKernel,
        \<lambda>l. if bc_initrd_image B \<noteq> '''' then seq_steps [checked ext FindFreeRegion, checked ext LoadModule] l
            else Inr l,
        checked ext InitBootStructure]"

definition connect_cross_vm :: "boot_config \<Rightarrow> ext \<Rightarrow> log \<Rightarrow> log res" where
  "connect_cross_vm B ext l =
     (if \<not> bc_cross_vm B then Inr l
      else rbind (aget irq_badges get_crossvm_irq_num) (\<lambda>badge.
           let slot = word_of_int (answer ext AllocAsyncSlot l);
               l = l @ [AllocAsyncSlot];
               irq_notification = create_async_event_notification_cap slot (answer ext (MintAsyncCap badge) l) badge
           in if irq_notification = 0 then Inl LogFatal
              else asserted ext (CrossVmInit irq_notification) (l @ [MintAsyncCap badge])))"

text \<open>Whether the guest was started, and the calls made.\<close>

definition main_continued :: "boot_config \<Rightarrow> ext \<Rightarrow> (bool \<times> log) res" where
  "main_continued B ext =
     rbind (boot_machine B ext []) (\<lambda>l.
     rbind (boot_memory B ext l) (\<lambda>l.
     rbind (pass_through_all B ext [0..<nat (pci_devices_num_devices (bc_pci B))] l) (\<lambda>r.
     case r of
       None \<Rightarrow> Inr (False, l)
     | Some l \<Rightarrow>
         rbind (seq_steps
           [init_extra_devices B, add_io_ports B ext, load_guest B ext, connect_cross_vm B ext,
            checked ext InitThreadState, call_void VcpuStart, call_void VmRun] l) (\<lambda>l. Inr (True, l)))))"


section \<open>Guest memory is allocated exactly\<close>

lemma chunk_step:
  "0 < (r :: nat) \<Longrightarrow> 0 < k \<Longrightarrow> (r + k - 1) div k = Suc ((r - min r k + k - 1) div k)"
proof (cases "r \<le> k")
  case True
  assume "0 < r" "0 < k"
  then show ?thesis using True by (simp add: min_absorb1 div_nat_eqI)
next
  case False
  assume k: "0 < k"
  have "r + k - 1 = (r - 1) + k" "r - min r k + k - 1 = r - 1" using False by simp_all
  then show ?thesis using k by (simp only: div_add_self2)
qed

lemma allocate_ram_exact:
  assumes "\<And>n a. ext n (RamRegister a) \<noteq> 0"
  shows "ok (allocate_ram ext r l) (\<lambda>l'. \<exists>cs. l' = l @ map RamRegister cs \<and> sum_list (map unat cs) = unat r \<and>
     list_all (\<lambda>c. 0 < unat c \<and> unat c \<le> 2 ^ 29) cs \<and> length cs = (unat r + 2 ^ 29 - 1) div 2 ^ 29)"
  using assms
proof (induction ext r l rule: allocate_ram.induct)
  case (1 ext r l)
  show ?case
  proof (cases "r = 0")
    case True
    then show ?thesis by (subst allocate_ram.simps) simp
  next
    case False
    let ?a = "min r (MiB_TO_BYTES 512)"
    have c: "call_nonzero LogFatal ext (RamRegister ?a) l = Inr (l @ [RamRegister ?a])"
      using 1(2) by (simp add: call_nonzero_def answer_def)
    have IH: "ok (allocate_ram ext (r - ?a) (l @ [RamRegister ?a])) (\<lambda>l'. \<exists>cs.
       l' = (l @ [RamRegister ?a]) @ map RamRegister cs \<and> sum_list (map unat cs) = unat (r - ?a) \<and>
       list_all (\<lambda>c. 0 < unat c \<and> unat c \<le> 2 ^ 29) cs \<and>
       length cs = (unat (r - ?a) + 2 ^ 29 - 1) div 2 ^ 29)"
      by (rule 1(1) [OF False refl c 1(2)])
    have pos: "0 < unat r" using False by (simp add: unat_gt_0)
    show ?thesis
      unfolding allocate_ram.simps [of ext r] Let_def
    proof (simp only: False if_False ok_rbind c ok_Inr, rule ok_mono [OF IH], elim exE conjE)
      fix l' cs
      assume a: "l' = (l @ [RamRegister ?a]) @ map RamRegister cs" "sum_list (map unat cs) = unat (r - ?a)"
        "list_all (\<lambda>c. 0 < unat c \<and> unat c \<le> 2 ^ 29) cs" "length cs = (unat (r - ?a) + 2 ^ 29 - 1) div 2 ^ 29"
      have "sum_list (map unat (?a # cs)) = unat r"
        using a(2) ram_chunk [OF False] by simp
      moreover have "length (?a # cs) = (unat r + 2 ^ 29 - 1) div 2 ^ 29"
        unfolding list.size a(4) ram_chunk(1) [OF False] using chunk_step [OF pos, of "2 ^ 29"] by simp
      moreover have "0 < unat ?a \<and> unat ?a \<le> 2 ^ 29" using ram_chunk(2) [OF False] pos by simp
      moreover have "l' = l @ map RamRegister (?a # cs)" using a(1) by simp
      ultimately show "\<exists>cs. l' = l @ map RamRegister cs \<and> sum_list (map unat cs) = unat r \<and>
          list_all (\<lambda>c. 0 < unat c \<and> unat c \<le> 2 ^ 29) cs \<and> length cs = (unat r + 2 ^ 29 - 1) div 2 ^ 29"
        using a(3) by (intro exI [of _ "?a # cs"]) simp
    qed
  qed
qed

text \<open>
  C34. The loop that allocates the guest's memory ends, and if the library grants every request
  the chunks it registers add up to exactly the configured size, none is empty or larger than
  512 MiB, and there are as few of them as possible.
\<close>

theorem guest_ram_exact:
  assumes "\<And>n a. ext n (RamRegister a) \<noteq> 0"
  shows "ok (allocate_ram ext (MiB_TO_BYTES mb) l) (\<lambda>l'. \<exists>cs. l' = l @ map RamRegister cs \<and>
     sum_list (map unat cs) = unat (MiB_TO_BYTES mb) \<and>
     list_all (\<lambda>c. 0 < unat c \<and> unat c \<le> 2 ^ 29) cs \<and>
     length cs = (unat (MiB_TO_BYTES mb) + 2 ^ 29 - 1) div 2 ^ 29)"
  by (rule allocate_ram_exact) (rule assms)

section \<open>What a successful boot has done\<close>

lemma performs_init_irqs:
  "performs VcpuStart {RegisterIrq (irq_dest q) (irq_cap q) | q. q \<in> set (bc_irqs B)} (init_irqs B ext)"
proof -
  let ?qs = "bc_irqs B"
  let ?R = "\<lambda>i. {RegisterIrq (irq_dest (?qs ! i)) (irq_cap (?qs ! i))}"
  have one: "performs VcpuStart {RegisterIrq (irq_dest q) (irq_cap q)} (init_irq ext q)" for q
  proof -
    have "performs VcpuStart (\<Union>(set [{}, {}, {}, {RegisterIrq (irq_dest q) (irq_cap q)}]))
       (seq_steps [checked ext (Mint b), checked ext (IrqSetNotification (irq_cap q)),
          checked ext (IrqAck (irq_cap q)), checked ext (RegisterIrq (irq_dest q) (irq_cap q))])" for b
      by (rule performs_seq) (simp add: performs_any_call performs_call)
    note steps = this
    have "performs VcpuStart ({AllocPath} \<union> {RegisterIrq (irq_dest q) (irq_cap q)}) (init_irq ext q)"
      unfolding init_irq_def
      using steps by (intro performs_then performs_bind performs_call) (simp_all del: seq_steps.simps)
    then show ?thesis by (rule performs_mono) simp
  qed
  have "performs VcpuStart (\<Union>i \<in> set [0..<nat (irqs_num_irqs ?qs)]. ?R i) (init_irqs B ext)"
    unfolding init_irqs_def
    by (intro performs_run_ops) (simp add: irqs_get_irq_def irqs_num_irqs_def switch_on_def one)
  then show ?thesis
    by (rule performs_mono) (auto simp: irqs_num_irqs_def in_set_conv_nth)
qed

lemma performs_add_iospaces: "performs VcpuStart {} (add_iospaces B ext)"
  unfolding add_iospaces_def by (intro performs_intros) simp

definition machine_calls :: "boot_call set" where
  "machine_calls = {VmInit, CreateVcpu, RegisterNotificationCallback, RegisterUnhandledIoportCallback,
     CreateIrqController, SerialPreInit, PitPreInit, RtcPreInit, IoPortInit}"

lemma performs_boot_machine:
  "performs VcpuStart (machine_calls \<union> {RegisterIrq (irq_dest q) (irq_cap q) | q. q \<in> set (bc_irqs B)}) (boot_machine B ext)"
proof -
  let ?I = "{RegisterIrq (irq_dest q) (irq_cap q) | q. q \<in> set (bc_irqs B)}"
  have "performs VcpuStart (\<Union>(set [{}, {}])) (seq_steps [call_void HpetPreInit, call_void CreateHpet])"
    by (rule performs_seq) (simp add: performs_any_call)
  then have h: "performs VcpuStart {} (\<lambda>l. if b then seq_steps [call_void HpetPreInit, call_void CreateHpet] l else Inr l)" for b
    by (intro performs_if performs_Inr) (simp del: seq_steps.simps)
  have n: "performs VcpuStart {} (\<lambda>l. rbind (init_con_irq_init (answer ext AllocNotifyList l \<noteq> 0) (bc_cons B))
      (\<lambda>_. Inr (l @ [AllocNotifyList])))"
    by (auto simp: performs_def rbind_eq_Inr)
  have "performs VcpuStart (\<Union>(set [{}, {}, {}, {VmInit}, {}, {CreateVcpu}, {RegisterNotificationCallback},
      {RegisterUnhandledIoportCallback}, {}, ?I, {CreateIrqController}, {SerialPreInit}, {PitPreInit},
      {RtcPreInit}, {}, {IoPortInit}])) (boot_machine B ext)"
    unfolding boot_machine_def
    by (rule performs_seq)
      (simp add: performs_any_call performs_call performs_init_irqs performs_add_iospaces performs_if
        performs_Inr h n del: seq_steps.simps)
  then show ?thesis by (rule performs_mono) (auto simp: machine_calls_def)
qed

lemma performs_allocate_ram: "performs VcpuStart {} (allocate_ram ext r)"
proof -
  have "allocate_ram ext r l = Inr l' \<Longrightarrow> \<exists>d. l' = l @ d \<and> VcpuStart \<notin> set d" for l l'
  proof (induction ext r l rule: allocate_ram.induct)
    case (1 ext r l)
    show ?case
    proof (cases "r = 0")
      case True
      then show ?thesis using 1(2) by (subst (asm) allocate_ram.simps) simp
    next
      case False
      let ?a = "min r (MiB_TO_BYTES 512)"
      obtain m where m: "call_nonzero LogFatal ext (RamRegister ?a) l = Inr m"
        "allocate_ram ext (r - ?a) m = Inr l'"
        using 1(2) False by (subst (asm) allocate_ram.simps) (auto simp: Let_def rbind_eq_Inr)
      from 1(1) [OF False refl m] obtain d where "l' = m @ d" "VcpuStart \<notin> set d" by blast
      then show ?thesis using m(1) by (auto simp: call_nonzero_def split: if_splits)
    qed
  qed
  then show ?thesis by (simp add: performs_def)
qed

lemma performs_boot_memory: "performs VcpuStart {PciInit} (boot_memory B ext)"
proof -
  have "performs VcpuStart (\<Union>(set [{}, {}])) (reserve_early ext)"
    unfolding reserve_early_def
    by (rule performs_seq)
      (auto simp: split_beta intro!: performs_run_ops_any performs_any_call
        performs_then [of _ "{}" _ "{}", simplified])
  then have r: "performs VcpuStart {} (reserve_early ext)" by simp
  have g: "performs VcpuStart {} (add_guest_maps B)"
    unfolding add_guest_maps_def
    by (intro performs_run_ops_any) (auto simp: performs_def Let_def split: prod.splits)
  have x: "performs VcpuStart {} (exclude_paddrs B ext)"
    unfolding exclude_paddrs_def by (intro performs_intros) simp
  have a: "performs VcpuStart {} (make_anon ext)"
    unfolding make_anon_def by (intro performs_run_ops_any) (auto simp: split_beta intro: performs_any_call)
  have "performs VcpuStart (\<Union>(set [{}, {}, {}, {}, {}, {PciInit}])) (boot_memory B ext)"
    unfolding boot_memory_def
    by (rule performs_seq) (simp add: r g x a performs_allocate_ram performs_call)
  then show ?thesis by (rule performs_mono) simp
qed

lemma pass_through_extends:
  "pass_through B ext i l = Inr (Some l') \<Longrightarrow> \<exists>d. l' = l @ d \<and> VcpuStart \<notin> set d"
  by (auto simp: pass_through_def Let_def rassert_def call_zero_def rbind_eq_Inr split: option.splits if_splits)

lemma pass_through_all_extends:
  "pass_through_all B ext is l = Inr (Some l') \<Longrightarrow> \<exists>d. l' = l @ d \<and> VcpuStart \<notin> set d"
proof (induction "is" arbitrary: l)
  case Nil
  then show ?case by simp
next
  case (Cons i "is")
  then obtain m where m: "pass_through B ext i l = Inr (Some m)" "pass_through_all B ext is m = Inr (Some l')"
    by (auto simp: rbind_eq_Inr split: option.splits)
  obtain d where "m = l @ d" "VcpuStart \<notin> set d" using pass_through_extends [OF m(1)] by blast
  moreover obtain e where "l' = m @ e" "VcpuStart \<notin> set e" using Cons.IH [OF m(2)] by blast
  ultimately show ?case by simp
qed

definition final_calls :: "boot_config \<Rightarrow> boot_call set" where
  "final_calls B = {AddPciConfigHandler, LoadKernel, InitBootStructure, InitThreadState} \<union>
     (\<lambda>h. AddIoHandler (fst h)) ` set (ioport_handlers (bc_x86_ports B)) \<union>
     (\<lambda>c. InitDevice (con_init c)) ` set (bc_cons B)"

lemma performs_init_extra_devices:
  "performs VcpuStart ((\<lambda>c. InitDevice (con_init c)) ` set (bc_cons B)) (init_extra_devices B)"
proof -
  have "performs VcpuStart (\<Union>i \<in> set [0..<nat (init_cons_num_connections (bc_cons B))].
      {InitDevice (init_cons_init_function (bc_cons B) (int i))}) (init_extra_devices B)"
    unfolding init_extra_devices_def by (intro performs_run_ops performs_call) simp
  then show ?thesis
    by (rule performs_mono)
      (force simp: init_cons_num_connections_def init_cons_init_function_def in_set_conv_nth switch_on_def)
qed

lemma performs_add_io_ports:
  "performs VcpuStart ({AddPciConfigHandler} \<union> (\<lambda>h. AddIoHandler (fst h)) ` set (ioport_handlers (bc_x86_ports B)))
     (add_io_ports B ext)"
proof -
  let ?H = "ioport_handlers (bc_x86_ports B)"
  have h: "performs VcpuStart (\<Union>h \<in> set ?H. {AddIoHandler (fst h)}) (run_ops (\<lambda>h. asserted ext (AddIoHandler (fst h))) ?H)"
    by (intro performs_run_ops performs_call) simp
  have p: "performs VcpuStart {} (run_ops (\<lambda>i l. case ioports_get_nonpci_ioport (bc_ioports B) (int i) of
      None \<Rightarrow> Inr l | Some p \<Rightarrow> asserted ext (EnablePassthrough (iop_start p) (iop_end p)) l) xs)" for xs
    by (intro performs_intros) simp
  have "performs VcpuStart (\<Union>(set [\<Union>h \<in> set ?H. {AddIoHandler (fst h)}, {}, {AddPciConfigHandler}])) (add_io_ports B ext)"
    unfolding add_io_ports_def by (rule performs_seq) (simp add: h [simplified] p performs_call)
  then show ?thesis by (rule performs_mono) auto
qed

lemma performs_load_guest: "performs VcpuStart {LoadKernel, InitBootStructure} (load_guest B ext)"
proof -
  have "performs VcpuStart (\<Union>(set [{}, {}])) (seq_steps [checked ext FindFreeRegion, checked ext LoadModule])"
    by (rule performs_seq) (simp add: performs_any_call)
  then have "performs VcpuStart {} (\<lambda>l. if b then seq_steps [checked ext FindFreeRegion, checked ext LoadModule] l else Inr l)" for b
    by (intro performs_if performs_Inr) (simp del: seq_steps.simps)
  then have "performs VcpuStart (\<Union>(set [{}, {LoadKernel}, {}, {InitBootStructure}])) (load_guest B ext)"
    unfolding load_guest_def
    by (intro performs_seq) (simp add: performs_any_call performs_call del: seq_steps.simps)
  then show ?thesis by (rule performs_mono) simp
qed

lemma performs_connect_cross_vm: "performs VcpuStart {} (connect_cross_vm B ext)"
  by (auto simp: performs_def connect_cross_vm_def Let_def call_zero_def rbind_eq_Inr aget_def
      split: if_splits)

lemma performs_final:
  "performs VcpuStart (final_calls B) (seq_steps [init_extra_devices B, add_io_ports B ext, load_guest B ext,
     connect_cross_vm B ext, checked ext InitThreadState])"
proof -
  have "performs VcpuStart (\<Union>(set [(\<lambda>c. InitDevice (con_init c)) ` set (bc_cons B),
      {AddPciConfigHandler} \<union> (\<lambda>h. AddIoHandler (fst h)) ` set (ioport_handlers (bc_x86_ports B)),
      {LoadKernel, InitBootStructure}, {}, {InitThreadState}]))
     (seq_steps [init_extra_devices B, add_io_ports B ext, load_guest B ext, connect_cross_vm B ext,
        checked ext InitThreadState])"
    using performs_init_extra_devices performs_add_io_ports performs_load_guest performs_connect_cross_vm
    by (intro performs_seq) (simp add: performs_call)
  then show ?thesis by (rule performs_mono) (auto simp: final_calls_def)
qed


section \<open>A configuration that cannot boot\<close>

lemma add_guest_maps_fails: "bc_gmaps B \<noteq> [] \<Longrightarrow> add_guest_maps B l = Inl LogFatal"
proof -
  assume g: "bc_gmaps B \<noteq> []"
  then have "[0..<nat (guest_mappings_num_guestmaps (bc_gmaps B))] =
      0 # [1..<nat (guest_mappings_num_guestmaps (bc_gmaps B))]"
    by (simp add: guest_mappings_num_guestmaps_def upt_conv_Cons)
  then show ?thesis
    using g by (simp add: add_guest_maps_def guest_mappings_get_guest_map_def switch_on_def)
qed

text \<open>
  C24. A configuration that maps device memory into the guest never boots, whatever the libraries
  answer: \<open>guest_mappings_get_guest_map\<close> returns 1 when it has found the mapping, and
  \<open>main_continued\<close> takes every result other than 0 for a fatal error.
\<close>

theorem guest_maps_prevent_boot:
  assumes "build_gmaps alloc ms = Some (bc_gmaps B)" "m \<in> set ms" "0 < gm_size m"
  shows "\<exists>e. main_continued B ext = Inl e"
proof -
  have "gm_paddr m \<in> map_frames m" using assms(3) by (auto simp: map_frames_def)
  then have "gm_paddr m \<in> g_frame ` set (bc_gmaps B)"
    using build_gmaps_frames [OF assms(1)] assms(2) by auto
  then have "bc_gmaps B \<noteq> []" by auto
  then have m: "\<exists>e. boot_memory B ext l = Inl e" for l
    by (cases "reserve_early ext l") (simp_all add: boot_memory_def add_guest_maps_fails)
  show ?thesis
  proof (cases "boot_machine B ext []")
    case (Inr l)
    then show ?thesis using m [of l] by (auto simp: main_continued_def)
  qed (simp add: main_continued_def)
qed


section \<open>A sample configuration\<close>

definition sample_boot :: boot_config where
  "sample_boot = \<lparr>bc_vmm = sample_config, bc_iommu = False, bc_pci = [],
     bc_irqs = [\<lparr>irq_name = ''eth'', irq_ioapic = 0, irq_source = 11, irq_level_trig = 1, irq_active_low = 1,
                 irq_dest = 11, irq_cap = 7\<rparr>],
     bc_cons = [\<lparr>con_init = 0x400000, con_irq = Some (BIT 27 OR BIT 18, 0x400100)\<rparr>],
     bc_gmaps = [], bc_exclude = [0x1000, 0x2000], bc_ioports = [],
     bc_x86_ports = \<lparr>x86_serial_1 = (0x3f8, 0x3ff), x86_rtc = (0x70, 0x71), x86_pit = (0x40, 0x43)\<rparr>,
     bc_guest_ram_mb = 0, bc_initrd_image = ''rootfs'', bc_cross_vm = False\<rparr>"

fun sample_ext :: ext where
  "sample_ext n CreateVcpu = 1"
| "sample_ext n AllocNotifyList = 1"
| "sample_ext n (ReserveMemory a b) = 1"
| "sample_ext n (RamRegister a) = 1"
| "sample_ext n c = 0"

lemma guest_ram_exact_witness:
  "ok (allocate_ram sample_ext (MiB_TO_BYTES 1280) []) (\<lambda>l'. \<exists>cs. l' = [] @ map RamRegister cs \<and>
     sum_list (map unat cs) = unat (MiB_TO_BYTES 1280) \<and>
     list_all (\<lambda>c. 0 < unat c \<and> unat c \<le> 2 ^ 29) cs \<and>
     length cs = (unat (MiB_TO_BYTES 1280) + 2 ^ 29 - 1) div 2 ^ 29)"
  by (rule guest_ram_exact) simp

lemma allocate_ram_none: "allocate_ram ext 0 l = Inr l"
  by (subst allocate_ram.simps) simp


lemma guest_maps_prevent_boot_witness:
  "\<exists>e. main_continued (sample_boot\<lparr>bc_gmaps := [\<lparr>g_paddr = 0xe0000, g_size = 4096, g_bits = 12,
      g_frame = 0xe0000, g_cap = 9\<rparr>]\<rparr>) sample_ext = Inl e"
  by (rule guest_maps_prevent_boot [of "\<lambda>_. 9" "[\<lparr>gm_paddr = 0xe0000, gm_size = 4096, gm_page_bits = 12\<rparr>]"
        _ "\<lparr>gm_paddr = 0xe0000, gm_size = 4096, gm_page_bits = 12\<rparr>"])
     (simp_all add: bits_to_frame_type_def py_range_def)

text \<open>An interrupt whose destination is not one of the sixteen leaves the table of badges.\<close>

lemma init_irq_overruns:
  "answer ext AllocPath l = 0 \<Longrightarrow> 16 \<le> unat (irq_dest q) \<Longrightarrow> init_irq ext q l = Inl OutOfBounds"
  by (simp add: init_irq_def call_zero_def aget_def)

end
