(* ===== verification/Arm_Events.thy ===== *)
theory Arm_Events
  imports Vmm_Prelude
begin

unbundle bit_operations_syntax

text \<open>
  Events of the ARM monitor, \<^verbatim>\<open>components/VM_Arm/src/main.c\<close>: the table of handlers that
  modules register for notifications, the dispatch of an event, and the tokens that carry the
  acknowledgement of a hardware interrupt from its arrival to the end of interrupt in the guest.
\<close>

section \<open>Handlers of asynchronous events\<close>

record async_handler =
  ah_badge :: u64
  ah_callback :: nat
  ah_cookie :: u64

text \<open>The static table: the pointer, null or an array of as many entries as were allocated, and the count.\<close>

record handler_table =
  callback_arr :: "async_handler option list option"
  callback_idx :: nat

definition handler_bss :: handler_table where
  "handler_bss = \<lparr>callback_arr = None, callback_idx = 0\<rparr>"

text \<open>
  \<^verbatim>\<open>calloc\<close> gives one zeroed entry, \<^verbatim>\<open>realloc\<close> keeps the entries and adds
  uninitialised ones; \<open>alloc\<close> says whether memory is left.
\<close>

definition grow_handlers :: "bool \<Rightarrow> handler_table \<Rightarrow> async_handler option list option" where
  "grow_handlers alloc t =
     (if \<not> alloc then None
      else case callback_arr t of
             None \<Rightarrow> Some [Some \<lparr>ah_badge = 0, ah_callback = 0, ah_cookie = 0\<rparr>]
           | Some a \<Rightarrow> Some (take (callback_idx t + 1) a @ replicate (callback_idx t + 1 - length a) None))"

definition register_async_event_handler ::
    "bool \<Rightarrow> u64 \<Rightarrow> nat \<Rightarrow> u64 \<Rightarrow> handler_table \<Rightarrow> (int \<times> handler_table) res" where
  "register_async_event_handler alloc badge callback cookie t =
     (let t = t\<lparr>callback_arr := grow_handlers alloc t\<rparr>
      in case callback_arr t of
           None \<Rightarrow> Inr (-1, t)
         | Some a \<Rightarrow>
             rbind (aset a (callback_idx t) (Some \<lparr>ah_badge = badge, ah_callback = callback, ah_cookie = cookie\<rparr>)) (\<lambda>a.
             Inr (0, t\<lparr>callback_arr := Some a, callback_idx := callback_idx t + 1\<rparr>)))"

datatype event_effect =
    IrqServerIpc u64
  | VusbNotify
  | RunCallback nat u64
  | LogUnknownLabel u64
  | LogUnknownBadge u64

definition IRQ_MESSAGE_LABEL :: u64 where "IRQ_MESSAGE_LABEL = 0xCAFE"

text \<open>One turn of the loop over the table; an uninitialised entry has no callback to call.\<close>

definition try_handler ::
    "handler_table \<Rightarrow> u64 \<Rightarrow> nat \<Rightarrow> event_effect list \<times> bool \<Rightarrow> (event_effect list \<times> bool) res" where
  "try_handler t badge i ef =
     (case callback_arr t of
        None \<Rightarrow> Inl AssertFail
      | Some a \<Rightarrow>
          rbind (aget a i) (\<lambda>h.
          case h of
            None \<Rightarrow> Inl NullDeref
          | Some h \<Rightarrow>
              Inr (if badge AND ah_badge h = ah_badge h then (fst ef @ [RunCallback (ah_callback h) (ah_cookie h)], True)
                   else ef)))"

text \<open>\<open>vusb\<close> is the badge of the virtual USB device, if the feature is built in.\<close>

definition arm_handle_async_event :: "u64 option \<Rightarrow> u64 \<Rightarrow> u64 \<Rightarrow> u64 \<Rightarrow> handler_table \<Rightarrow> event_effect list res" where
  "arm_handle_async_event vusb badge label tag t =
     (if badge = 0 then Inr [if label = IRQ_MESSAGE_LABEL then IrqServerIpc tag else LogUnknownLabel label]
      else if vusb = Some badge then Inr [VusbNotify]
      else rbind (run_ops (try_handler t badge) [0..<callback_idx t] ([], False)) (\<lambda>(es, found_handler).
           Inr (if found_handler then es else es @ [LogUnknownBadge badge])))"

section \<open>Registered handlers are called\<close>

definition register_all :: "(u64 \<times> nat \<times> u64) list \<Rightarrow> handler_table \<Rightarrow> handler_table res" where
  "register_all = run_ops (\<lambda>(b, c, k) t. rbind (register_async_event_handler True b c k t) (\<lambda>(_, t). Inr t))"

definition handler_of :: "u64 \<times> nat \<times> u64 \<Rightarrow> async_handler option" where
  "handler_of r = (let (b, c, k) = r in Some \<lparr>ah_badge = b, ah_callback = c, ah_cookie = k\<rparr>)"

definition table_of :: "(u64 \<times> nat \<times> u64) list \<Rightarrow> handler_table \<Rightarrow> bool" where
  "table_of regs t \<longleftrightarrow> callback_idx t = length regs \<and>
     callback_arr t = (if regs = [] then None else Some (map handler_of regs))"

lemma register_extends:
  "table_of regs t \<Longrightarrow>
   ok (register_async_event_handler True b c k t) (\<lambda>(err, t'). err = 0 \<and> table_of (regs @ [(b, c, k)]) t')"
  by (cases regs)
    (auto simp: table_of_def register_async_event_handler_def grow_handlers_def handler_of_def list_update_append)

lemma register_all_table: "ok (register_all regs handler_bss) (table_of regs)"
proof (induction regs rule: rev_induct)
  case Nil
  then show ?case by (simp add: register_all_def table_of_def handler_bss_def)
next
  case (snoc r regs)
  obtain b c k where r: "r = (b, c, k)" by (cases r)
  show ?case
    unfolding register_all_def run_ops_snoc ok_rbind
    by (rule ok_mono [OF snoc [unfolded register_all_def]])
      (auto simp: r intro!: ok_mono [OF register_extends])
qed

definition called :: "u64 \<Rightarrow> (u64 \<times> nat \<times> u64) list \<Rightarrow> event_effect list" where
  "called badge regs = map (\<lambda>(b, c, k). RunCallback c k) (filter (\<lambda>(b, c, k). badge AND b = b) regs)"

lemma try_handlers:
  "callback_arr t = Some (map handler_of regs) \<Longrightarrow> n \<le> length regs \<Longrightarrow>
   run_ops (try_handler t badge) [0..<n] ([], False) = Inr (called badge (take n regs), called badge (take n regs) \<noteq> [])"
proof (induction n)
  case 0
  then show ?case by (simp add: called_def)
next
  case (Suc n)
  obtain b c k where r: "regs ! n = (b, c, k)" by (cases "regs ! n")
  then have "take (Suc n) regs = take n regs @ [(b, c, k)]" "n < length regs" using Suc.prems by (simp_all add: take_Suc_conv_app_nth)
  then show ?case
    using Suc r
    by (simp add: run_ops_snoc del: run_ops.simps upt.simps(2) add: upt_Suc)
      (simp add: try_handler_def aget_def handler_of_def called_def)
qed

lemma handle_table:
  assumes "table_of regs t" "badge \<noteq> 0" "vusb \<noteq> Some badge"
  shows "arm_handle_async_event vusb badge label tag t =
     Inr (if called badge regs = [] then [LogUnknownBadge badge] else called badge regs)"
proof (cases "regs = []")
  case True
  then show ?thesis using assms by (simp add: arm_handle_async_event_def table_of_def called_def)
next
  case False
  then show ?thesis
    using assms try_handlers [of t regs "length regs" badge] by (simp add: arm_handle_async_event_def table_of_def)
qed

text \<open>
  Every registered handler is called when its badge is signalled.  After any sequence of
  registrations with memory left, an event calls exactly the handlers all of whose badge bits are
  set in its badge, in the order of their registration, each with its cookie, and an event nobody
  registered for is reported; no access leaves the table.
\<close>

theorem async_handlers_called:
  assumes "badge \<noteq> 0" "vusb \<noteq> Some badge"
  shows "ok (register_all regs handler_bss) (\<lambda>t. arm_handle_async_event vusb badge label tag t =
     Inr (let hs = filter (\<lambda>(b, c, k). badge AND b = b) regs
          in if hs = [] then [LogUnknownBadge badge] else map (\<lambda>(b, c, k). RunCallback c k) hs))"
  by (rule ok_mono [OF register_all_table]) (use handle_table assms in \<open>auto simp: called_def Let_def\<close>)

theorem async_handlers_called_witness:
  "ok (register_all [(1, 7, 70), (2, 8, 80), (4, 9, 90)] handler_bss)
     (\<lambda>t. arm_handle_async_event None 5 0 0 t = Inr [RunCallback 7 70, RunCallback 9 90])"
  using async_handlers_called [of 5 None "[(1, 7, 70), (2, 8, 80), (4, 9, 90)]" 0 0] by simp

text \<open>
  Running out of memory once is fatal.  When the table cannot grow, the pointer is
  overwritten with null but the count is kept: the next event fails the assertion, and the next
  registration allocates a single entry and writes beyond it.
\<close>

theorem failed_growth_loses_handlers:
  assumes "regs \<noteq> []" "badge \<noteq> 0" "vusb \<noteq> Some badge"
  shows "ok (register_all regs handler_bss) (\<lambda>t.
     ok (register_async_event_handler False b c k t) (\<lambda>(err, t').
       err = -1 \<and> arm_handle_async_event vusb badge label tag t' = Inl AssertFail \<and>
       register_async_event_handler True b c k t' = Inl OutOfBounds))"
proof (rule ok_mono [OF register_all_table])
  fix t assume t: "table_of regs t"
  then have "0 < callback_idx t" using assms(1) by (simp add: table_of_def)
  moreover from this have "[0..<callback_idx t] = 0 # [1..<callback_idx t]" by (simp add: upt_rec)
  ultimately show "ok (register_async_event_handler False b c k t) (\<lambda>(err, t').
       err = -1 \<and> arm_handle_async_event vusb badge label tag t' = Inl AssertFail \<and>
       register_async_event_handler True b c k t' = Inl OutOfBounds)"
    using assms(2,3)
    by (simp add: register_async_event_handler_def grow_handlers_def arm_handle_async_event_def try_handler_def aset_def)
qed

theorem failed_growth_loses_handlers_witness:
  "ok (register_all [(1, 7, 70)] handler_bss) (\<lambda>t. ok (register_async_event_handler False 2 8 80 t) (\<lambda>(err, t').
     register_async_event_handler True 2 8 80 t' = Inl OutOfBounds))"
  using failed_growth_loses_handlers [of "[(1, 7, 70)]" 1 None 2 8 80 0 0] by (auto elim!: ok_mono)

section \<open>Hardware interrupts\<close>

text \<open>The token of a routed interrupt: function and data of the pending acknowledgement are null or set.\<close>

record irq_token =
  tok_virq :: int
  acknowledge_fn :: "nat option"
  ack_data :: "u64 option"

datatype irq_effect = Acknowledge nat u64 | InjectIrq int | LogDropped int

definition do_irq_server_ack :: "(nat \<Rightarrow> u64 \<Rightarrow> int) \<Rightarrow> irq_token option \<Rightarrow> (irq_token \<times> irq_effect list) res" where
  "do_irq_server_ack result token =
     (case token of
        None \<Rightarrow> Inl AssertFail
      | Some t \<Rightarrow>
          (case (acknowledge_fn t, ack_data t) of
             (Some f, Some d) \<Rightarrow> rbind (rassert (result f d = 0)) (\<lambda>_. Inr (t\<lparr>ack_data := None\<rparr>, [Acknowledge f d]))
           | _ \<Rightarrow> Inr (t, [])))"

definition irq_handler :: "int \<Rightarrow> irq_token option \<Rightarrow> nat \<Rightarrow> u64 \<Rightarrow> (irq_token \<times> irq_effect list) res" where
  "irq_handler inject_err data f d =
     (case data of
        None \<Rightarrow> Inl AssertFail
      | Some t \<Rightarrow>
          let t = t\<lparr>acknowledge_fn := Some f, ack_data := Some d\<rparr>
          in Inr (t, InjectIrq (tok_virq t) # (if inject_err \<noteq> 0 then [LogDropped (tok_virq t)] else [])))"

text \<open>
  An interrupt line.  The kernel keeps a delivered interrupt masked until it is acknowledged; the
  guest ends interrupts at any time, also before one has arrived.  The history records what was
  delivered and what was acknowledged.
\<close>

record irq_line =
  il_masked :: bool
  il_token :: irq_token
  il_delivered :: "(nat \<times> u64) list"
  il_acknowledged :: "(nat \<times> u64) list"

datatype irq_event = Deliver nat u64 int | EndOfInterrupt

definition irq_line_step :: "(nat \<Rightarrow> u64 \<Rightarrow> int) \<Rightarrow> irq_event \<Rightarrow> irq_line \<Rightarrow> irq_line res" where
  "irq_line_step result ev s =
     (case ev of
        Deliver f d err \<Rightarrow>
          if il_masked s then Inr s
          else rbind (irq_handler err (Some (il_token s)) f d) (\<lambda>(t, es).
               Inr (s\<lparr>il_masked := True, il_token := t, il_delivered := il_delivered s @ [(f, d)]\<rparr>))
      | EndOfInterrupt \<Rightarrow>
          rbind (do_irq_server_ack result (Some (il_token s))) (\<lambda>(t, es).
          Inr (s\<lparr>il_masked := il_masked s \<and> es = [], il_token := t,
                 il_acknowledged := il_acknowledged s @ [(f, d). Acknowledge f d \<leftarrow> es]\<rparr>)))"

definition irq_line_start :: "int \<Rightarrow> irq_line" where
  "irq_line_start virq = \<lparr>il_masked = False, il_token = \<lparr>tok_virq = virq, acknowledge_fn = None, ack_data = None\<rparr>,
     il_delivered = [], il_acknowledged = []\<rparr>"

definition irq_line_inv :: "irq_line \<Rightarrow> bool" where
  "irq_line_inv s \<longleftrightarrow> (case ack_data (il_token s) of
       None \<Rightarrow> \<not> il_masked s \<and> il_delivered s = il_acknowledged s
     | Some d \<Rightarrow> il_masked s \<and> (\<exists>f. acknowledge_fn (il_token s) = Some f \<and> il_delivered s = il_acknowledged s @ [(f, d)]))"

lemma irq_line_step_ok:
  "(\<And>f d. result f d = 0) \<Longrightarrow> irq_line_inv s \<Longrightarrow> ok (irq_line_step result ev s) irq_line_inv"
  by (cases ev)
    (auto simp: irq_line_step_def irq_line_inv_def irq_handler_def do_irq_server_ack_def Let_def split: option.splits)

interpretation irq_acks: safe_device "irq_line_step (\<lambda>f d. 0)" irq_line_inv "\<lambda>ev. True"
  by unfold_locales (rule irq_line_step_ok, simp)

text \<open>
  C15. Interrupts are acknowledged exactly once.  Whatever arrives and however often the guest
  ends an interrupt, before or after its arrival, every delivered interrupt is acknowledged at
  most once, in order, with the function and data it came with; only the last one can be
  outstanding, and exactly then the line is masked.
\<close>

theorem irq_acknowledged_once:
  "ok (run_ops (irq_line_step (\<lambda>f d. 0)) evs (irq_line_start virq)) (\<lambda>s.
     (il_masked s \<and> (\<exists>x. il_delivered s = il_acknowledged s @ [x])) \<or>
     (\<not> il_masked s \<and> il_delivered s = il_acknowledged s))"
  by (rule ok_mono [OF irq_acks.run_ok])
    (auto simp: irq_line_start_def irq_line_inv_def list_all_def split: option.splits)

text \<open>The lookup of an interrupt capability: first the component's own, then those of the device tree.\<close>

definition vm_simple_get_irq :: "(int \<Rightarrow> int) \<Rightarrow> (int \<Rightarrow> int) option \<Rightarrow> int \<Rightarrow> int \<Rightarrow> int" where
  "vm_simple_get_irq original dtb seL4_FailedLookup irq =
     (let res = original irq
      in if res = 0 then res
         else case dtb of Some camkes_dtb_get_irq_cap \<Rightarrow> camkes_dtb_get_irq_cap irq | None \<Rightarrow> seL4_FailedLookup)"

end
