(* ===== verification/Arm_Memory.thy ===== *)
theory Arm_Memory
  imports Vmm_Prelude "HOL-Library.Multiset"
begin

unbundle bit_operations_syntax

text \<open>
  Memory of the ARM monitor, \<^verbatim>\<open>components/VM_Arm/src/main.c\<close>: mapping of physical
  pages into the monitor, the frames of CAmkES dataports, the classification of untyped memory,
  memory for DMA and the pages that are installed on demand when the guest faults.  The
  allocators and the kernel are outside the repository: their answers are the record \<open>mem_lib\<close>,
  whose functions are given the number of effects so far, and what is asked of them is logged.
\<close>

section \<open>Allocators\<close>

datatype mem_effect =
    SlotAlloc nat
  | FrameAt u64 nat u64
  | FrameCap u64 nat
  | MapPages "nat list" nat u64
  | CnodeDelete nat
  | UtspaceFree u64
  | SlotFree nat
  | RamFrame nat

record mem_lib =
  cspace_alloc :: "nat \<Rightarrow> nat option"
  utspace_alloc_at :: "nat \<Rightarrow> u64 \<Rightarrow> u64 option"
  simple_frame_cap :: "nat \<Rightarrow> u64 \<Rightarrow> bool"
  map_pages :: "nat \<Rightarrow> nat list \<Rightarrow> nat \<Rightarrow> u64"
  alloc_ram_frame :: "nat \<Rightarrow> nat option"
  round_down :: "u64 \<Rightarrow> u64 \<Rightarrow> u64"
  round_up :: "u64 \<Rightarrow> u64 \<Rightarrow> u64"
  page_align :: "u64 \<Rightarrow> u64 \<Rightarrow> u64"

text \<open>The rounding macros of the utility library, as documented, where the result is representable.\<close>

definition rounding_exact :: "mem_lib \<Rightarrow> bool" where
  "rounding_exact M \<longleftrightarrow>
     (\<forall>n b. b \<noteq> 0 \<longrightarrow> round_down M n b = n div b * b) \<and>
     (\<forall>n b. b \<noteq> 0 \<longrightarrow> (unat n + unat b - 1) div unat b * unat b < 2 ^ 64 \<longrightarrow>
        unat (round_up M n b) = (unat n + unat b - 1) div unat b * unat b)"

definition page_align_exact :: "mem_lib \<Rightarrow> bool" where
  "page_align_exact M \<longleftrightarrow> (\<forall>n b. page_align M n b = n AND NOT (b - 1))"

text \<open>A cookie of the allocator is never -1, which marks frames that did not come from it.\<close>

definition cookies_valid :: "mem_lib \<Rightarrow> bool" where
  "cookies_valid M \<longleftrightarrow> (\<forall>n a. utspace_alloc_at M n a \<noteq> Some (- 1))"

section \<open>Mapping physical pages\<close>

text \<open>The loop over the pages: the frames obtained with their cookies, and whether all were.\<close>

fun get_frames ::
    "mem_lib \<Rightarrow> u64 \<Rightarrow> i32 \<Rightarrow> nat list \<Rightarrow> (nat \<times> u64) list \<Rightarrow> mem_effect list \<Rightarrow>
     ((nat \<times> u64) list \<times> bool \<times> mem_effect list) res" where
  "get_frames M start page_size [] fs l = Inr (fs, True, l)"
| "get_frames M start page_size (i # is) fs l =
     (case cspace_alloc M (length l) of
        None \<Rightarrow> Inl AssertFail
      | Some slot \<Rightarrow>
          let l = l @ [SlotAlloc slot];
              a = start + ucast (word_of_nat i * page_size :: u32)
          in case utspace_alloc_at M (length l) a of
               Some cookie \<Rightarrow> get_frames M start page_size is (fs @ [(slot, cookie)]) (l @ [FrameAt a slot cookie])
             | None \<Rightarrow>
                 if simple_frame_cap M (length l) a
                 then get_frames M start page_size is (fs @ [(slot, - 1)]) (l @ [FrameCap a slot])
                 else Inr (fs, False, l @ [SlotFree slot]))"

definition release_frame :: "nat \<times> u64 \<Rightarrow> mem_effect list" where
  "release_frame f = CnodeDelete (fst f) # (if snd f \<noteq> - 1 then [UtspaceFree (snd f)] else []) @ [SlotFree (fst f)]"

definition vm_map_paddr_with_page_size ::
    "mem_lib \<Rightarrow> u64 \<Rightarrow> u64 \<Rightarrow> nat \<Rightarrow> mem_effect list \<Rightarrow> (u64 option \<times> mem_effect list) res" where
  "vm_map_paddr_with_page_size M paddr sz page_size_bits l =
     (let page_size = push_bit page_size_bits 1 :: i32;
          start = round_down M paddr (scast page_size);
          offset = paddr - start;
          sz = sz + offset;
          num_pages = ucast (drop_bit page_size_bits (round_up M sz (scast page_size))) :: u32
      in rbind (rassert (sz \<le> ucast (push_bit page_size_bits num_pages))) (\<lambda>_.
         rbind (get_frames M start page_size [0..<unat num_pages] [] l) (\<lambda>(fs, complete, l).
         let vaddr = map_pages M (length l) (map fst fs) page_size_bits;
             l' = (if complete then l @ [MapPages (map fst fs) page_size_bits vaddr] else l)
         in if complete \<and> vaddr \<noteq> 0 then Inr (Some (vaddr + offset), l')
            else Inr (None, l' @ concat (map release_frame fs)))))"

record dataport_frame =
  df_paddr :: u64
  df_vaddr :: u64
  df_size :: u64
  df_cap :: nat

fun find_dataport_frame :: "dataport_frame list \<Rightarrow> u64 \<Rightarrow> u64 \<Rightarrow> u64 option res" where
  "find_dataport_frame [] paddr sz = Inr None"
| "find_dataport_frame (f # fs) paddr sz =
     (if df_paddr f = paddr then if df_size f = sz then Inr (Some (df_vaddr f)) else Inl LogFatal
      else find_dataport_frame fs paddr sz)"

text \<open>The index of the largest reasonable frame size; the list is what is left of the sizes after it.\<close>

fun frame_size_from :: "nat \<Rightarrow> nat list \<Rightarrow> u64 \<Rightarrow> nat" where
  "frame_size_from i [] sz = i"
| "frame_size_from i (b # bs) sz = (if drop_bit b sz = 0 then i else frame_size_from (Suc i) bs sz)"

text \<open>The sizes are tried from the largest one down; a null virtual address of a dataport counts as none.\<close>

fun try_sizes ::
    "mem_lib \<Rightarrow> u64 \<Rightarrow> u64 \<Rightarrow> nat list \<Rightarrow> mem_effect list \<Rightarrow> (u64 option \<times> mem_effect list) res" where
  "try_sizes M paddr sz [] l = Inr (None, l)"
| "try_sizes M paddr sz (b # bs) l =
     rbind (vm_map_paddr_with_page_size M paddr sz b l) (\<lambda>(result, l).
       if result = None then try_sizes M paddr sz bs l else Inr (result, l))"

definition vm_map_paddr ::
    "mem_lib \<Rightarrow> nat list \<Rightarrow> dataport_frame list \<Rightarrow> u64 \<Rightarrow> u64 \<Rightarrow> mem_effect list \<Rightarrow> (u64 option \<times> mem_effect list) res" where
  "vm_map_paddr M page_sizes frames paddr sz l =
     rbind (find_dataport_frame frames paddr sz) (\<lambda>vaddr.
       if vaddr \<noteq> None \<and> vaddr \<noteq> Some 0 then Inr (vaddr, l)
       else try_sizes M paddr sz (rev (take (Suc (frame_size_from 0 (tl page_sizes) sz)) page_sizes)) l)"

section \<open>What the allocators are owed\<close>

text \<open>
  The ledger of a log: the capability slots held, the slots that hold a capability, and the
  untyped memory held, by its cookie.  Giving back what is not held, or a slot that is not empty, is
  a fault.
\<close>

record ledger =
  held_slots :: "nat multiset"
  held_caps :: "nat multiset"
  held_uts :: "u64 multiset"

definition ledger_step :: "mem_effect \<Rightarrow> ledger \<Rightarrow> ledger res" where
  "ledger_step e L =
     (case e of
        SlotAlloc s \<Rightarrow> Inr (L\<lparr>held_slots := held_slots L + {#s#}\<rparr>)
      | FrameAt a s c \<Rightarrow> Inr (L\<lparr>held_caps := held_caps L + {#s#}, held_uts := held_uts L + {#c#}\<rparr>)
      | FrameCap a s \<Rightarrow> Inr (L\<lparr>held_caps := held_caps L + {#s#}\<rparr>)
      | RamFrame s \<Rightarrow> Inr (L\<lparr>held_slots := held_slots L + {#s#}, held_caps := held_caps L + {#s#}\<rparr>)
      | MapPages ss b v \<Rightarrow> Inr L
      | CnodeDelete s \<Rightarrow> if s \<in># held_caps L then Inr (L\<lparr>held_caps := held_caps L - {#s#}\<rparr>) else Inl AssertFail
      | UtspaceFree c \<Rightarrow> if c \<in># held_uts L then Inr (L\<lparr>held_uts := held_uts L - {#c#}\<rparr>) else Inl AssertFail
      | SlotFree s \<Rightarrow> if s \<in># held_slots L - held_caps L then Inr (L\<lparr>held_slots := held_slots L - {#s#}\<rparr>)
                     else Inl AssertFail)"

definition ledger_ok :: "ledger \<Rightarrow> bool" where
  "ledger_ok L \<longleftrightarrow> held_caps L \<subseteq># held_slots L"

text \<open>The ledger with some frames on top.\<close>

definition with_frames :: "(nat \<times> u64) list \<Rightarrow> ledger \<Rightarrow> ledger" where
  "with_frames fs L = L\<lparr>held_slots := held_slots L + mset (map fst fs), held_caps := held_caps L + mset (map fst fs),
     held_uts := held_uts L + mset (filter (\<lambda>c. c \<noteq> - 1) (map snd fs))\<rparr>"

definition pages_of :: "mem_effect list \<Rightarrow> u64 list" where
  "pages_of l = concat (map (\<lambda>e. case e of FrameAt a s c \<Rightarrow> [a] | FrameCap a s \<Rightarrow> [a] | _ \<Rightarrow> []) l)"

lemma pages_of_simps [simp]: "pages_of [] = []" "pages_of (a @ b) = pages_of a @ pages_of b"
  by (simp_all add: pages_of_def)

lemma with_frames_Nil [simp]: "with_frames [] L = L"
  by (simp add: with_frames_def)

lemma with_frames_snoc:
  "with_frames (fs @ [(s, c)]) L = (with_frames fs L)\<lparr>held_slots := held_slots (with_frames fs L) + {#s#},
     held_caps := held_caps (with_frames fs L) + {#s#},
     held_uts := held_uts (with_frames fs L) + (if c = - 1 then {#} else {#c#})\<rparr>"
  by (simp add: with_frames_def)

lemma run_ops_append: "run_ops step (xs @ ys) s = rbind (run_ops step xs s) (run_ops step ys)"
proof (induction xs arbitrary: s)
  case (Cons x xs)
  then show ?case by (cases "step x s") simp_all
qed simp

lemma free_slot_ok: "ledger_ok L \<Longrightarrow> s \<in># held_slots L + {#s#} - held_caps L"
  using mset_subset_eq_count [of "held_caps L" "held_slots L" s] by (simp add: ledger_ok_def in_diff_count less_Suc_eq_le)

lemma ledger_ok_frames: "ledger_ok L \<Longrightarrow> ledger_ok (with_frames fs L)"
  by (simp add: ledger_ok_def with_frames_def)

lemma release_frames:
  "ledger_ok L \<Longrightarrow> run_ops ledger_step (concat (map release_frame fs)) (with_frames fs L) = Inr L"
proof (induction fs)
  case (Cons f fs)
  obtain s c where f: "f = (s, c)" by (cases f)
  have "held_caps (with_frames fs L) \<subseteq># held_slots (with_frames fs L)"
    using ledger_ok_frames [OF Cons.prems] by (simp add: ledger_ok_def)
  then have "run_ops ledger_step (release_frame f) (with_frames (f # fs) L) = Inr (with_frames fs L)"
    using free_slot_ok [OF ledger_ok_frames [OF Cons.prems], of s fs]
    by (simp add: release_frame_def f ledger_step_def with_frames_def)
  then show ?case using Cons by (simp add: run_ops_append)
qed simp

text \<open>The loop obtains as many frames as asked for, at consecutive addresses, or gives back the slot it could not fill.\<close>

definition frame_address :: "u64 \<Rightarrow> i32 \<Rightarrow> nat \<Rightarrow> u64" where
  "frame_address start page_size i = start + ucast (word_of_nat i * page_size :: u32)"

lemma get_frames_ok:
  assumes "\<And>n. cspace_alloc M n \<noteq> None" "cookies_valid M" "ledger_ok L"
  shows "ok (get_frames M start page_size is fs l) (\<lambda>(fs', complete, l'). \<exists>d gs. l' = l @ d \<and> fs' = fs @ gs \<and>
     run_ops ledger_step d (with_frames fs L) = Inr (with_frames fs' L) \<and>
     (complete \<longrightarrow> length gs = length is \<and> pages_of d = map (frame_address start page_size) is))"
proof (induction "is" arbitrary: fs l)
  case Nil
  then show ?case by simp
next
  case (Cons i "is")
  obtain slot where slot: "cspace_alloc M (length l) = Some slot" using assms(1) by auto
  let ?l = "l @ [SlotAlloc slot]"
  let ?a = "frame_address start page_size i"
  note a = frame_address_def [of start page_size i, symmetric]
  have free: "slot \<in># add_mset slot (held_slots (with_frames fs L)) - held_caps (with_frames fs L)"
    using free_slot_ok [OF ledger_ok_frames [OF assms(3)], of slot fs] by simp
  have step: ?case
    if e: "get_frames M start page_size (i # is) fs l = get_frames M start page_size is (fs @ [(slot, c)]) (?l @ [e])"
      and L: "run_ops ledger_step [SlotAlloc slot, e] (with_frames fs L) = Inr (with_frames (fs @ [(slot, c)]) L)"
      and p: "pages_of [e] = [?a]" for c e
    unfolding e
  proof (rule ok_mono [OF Cons.IH [of "fs @ [(slot, c)]" "?l @ [e]"]], clarify)
    fix d gs complete
    assume d: "run_ops ledger_step d (with_frames (fs @ [(slot, c)]) L) = Inr (with_frames ((fs @ [(slot, c)]) @ gs) L)"
      "complete \<longrightarrow> length gs = length is \<and> pages_of d = map (frame_address start page_size) is"
    have "run_ops ledger_step ([SlotAlloc slot, e] @ d) (with_frames fs L) = Inr (with_frames (fs @ (slot, c) # gs) L)"
      unfolding run_ops_append L rbind_Inr using d(1) by simp
    moreover have "pages_of ([SlotAlloc slot, e] @ d) = ?a # pages_of d"
      using p by (simp add: pages_of_def)
    ultimately show "\<exists>da gsa. (?l @ [e]) @ d = l @ da \<and> (fs @ [(slot, c)]) @ gs = fs @ gsa \<and>
       run_ops ledger_step da (with_frames fs L) = Inr (with_frames ((fs @ [(slot, c)]) @ gs) L) \<and>
       (complete \<longrightarrow> length gsa = length (i # is) \<and> pages_of da = map (frame_address start page_size) (i # is))"
      using d(2) by (intro exI [of _ "[SlotAlloc slot, e] @ d"] exI [of _ "(slot, c) # gs"]) simp
  qed
  show ?case
  proof (cases "utspace_alloc_at M (length ?l) ?a")
    case (Some cookie)
    then have "cookie \<noteq> - 1" using assms(2) by (auto simp: cookies_valid_def)
    then show ?thesis
      using Some slot by (intro step [of cookie "FrameAt ?a slot cookie"])
        (simp_all add: a Let_def ledger_step_def with_frames_snoc pages_of_def)
  next
    case None
    show ?thesis
    proof (cases "simple_frame_cap M (length ?l) ?a")
      case True
      then show ?thesis
        using None slot by (intro step [of "- 1" "FrameCap ?a slot"])
          (simp_all add: a Let_def ledger_step_def with_frames_snoc pages_of_def)
    next
      case False
      then show ?thesis
        using None slot free by (simp add: a Let_def ledger_step_def)
    qed
  qed
qed

section \<open>A mapping covers what was asked for\<close>

lemma page_size_word:
  assumes "b \<le> 30"
  shows "unat (scast (push_bit b 1 :: i32) :: u64) = 2 ^ b" "unat (push_bit b 1 :: i32) = 2 ^ b"
    "(scast (push_bit b 1 :: i32) :: u64) = 2 ^ b"
proof -
  have p: "(2 :: nat) ^ b \<le> 2 ^ 30" using assms by (intro power_increasing) simp_all
  show u: "unat (push_bit b 1 :: i32) = 2 ^ b" using p unat_push_bit [of b "1 :: i32"] by simp
  then have "sint (push_bit b 1 :: i32) = 2 ^ b" using p by (subst sint_small) simp_all
  then show w: "(scast (push_bit b 1 :: i32) :: u64) = 2 ^ b" by (simp add: scast_eq)
  show "unat (scast (push_bit b 1 :: i32) :: u64) = 2 ^ b"
    unfolding w using p unat_push_bit [of b "1 :: u64"] by simp
qed


definition pages_needed :: "u64 \<Rightarrow> u64 \<Rightarrow> nat \<Rightarrow> nat" where
  "pages_needed paddr sz b = (unat paddr mod 2 ^ b + unat sz + 2 ^ b - 1) div 2 ^ b"

lemma map_arith:
  assumes M: "rounding_exact M" and b: "b \<le> 30" and fits: "unat paddr mod 2 ^ b + unat sz \<le> 2 ^ 32 - 2 ^ b"
  defines "start \<equiv> round_down M paddr (scast (push_bit b 1 :: i32))"
  defines "n \<equiv> ucast (drop_bit b (round_up M (sz + (paddr - start)) (scast (push_bit b 1 :: i32)))) :: u32"
  shows "unat start = unat paddr div 2 ^ b * 2 ^ b" "unat (paddr - start) = unat paddr mod 2 ^ b"
    "unat (sz + (paddr - start)) = unat paddr mod 2 ^ b + unat sz"
    "unat n = pages_needed paddr sz b" "sz + (paddr - start) \<le> ucast (push_bit b n)"
    "pages_needed paddr sz b * 2 ^ b < 2 ^ 32"
proof -
  let ?P = "2 ^ b :: nat"
  define q where "q = (scast (push_bit b 1 :: i32) :: u64)"
  have "?P \<le> 2 ^ 30" using b by (intro power_increasing) simp_all
  then have P: "?P \<le> 2 ^ 30" "0 < ?P" by simp_all
  have "unat q = ?P" unfolding q_def by (rule page_size_word(1) [OF b])
  then have p: "unat q = ?P" "q \<noteq> 0" using P by auto
  have start: "start = paddr div q * q" unfolding start_def q_def [symmetric] using M p(2) by (simp add: rounding_exact_def)
  show s: "unat start = unat paddr div ?P * ?P"
  proof -
    have "unat paddr div ?P * ?P < 2 ^ 64"
      using div_times_less_eq_dividend [of "unat paddr" ?P] unat_u64 [of paddr] by linarith
    then show ?thesis by (simp add: start unat_word_ariths(2) unat_div_distrib p(1))
  qed
  then have le: "start \<le> paddr" by (simp add: word_le_nat_alt)
  show o: "unat (paddr - start) = unat paddr mod ?P"
    using le s by (simp add: unat_sub minus_div_mult_eq_mod)
  show z: "unat (sz + (paddr - start)) = unat paddr mod ?P + unat sz"
    using fits o by (subst unat_plus_64) (simp_all add: add.commute)
  define c where "c = pages_needed paddr sz b"
  have c: "c * ?P \<le> unat paddr mod ?P + unat sz + ?P - 1" "unat paddr mod ?P + unat sz \<le> c * ?P"
    unfolding c_def pages_needed_def using P(2) div_times_less_eq_dividend
    apply blast
    using dividend_less_div_times [OF P(2), of "unat paddr mod 2 ^ b + unat sz + 2 ^ b - 1"] P(2) by linarith
  have c32: "c * ?P < 2 ^ 32" using c(1) fits P by simp
  then show "pages_needed paddr sz b * 2 ^ b < 2 ^ 32" by (simp add: c_def)
  have up: "unat (round_up M (sz + (paddr - start)) q) = c * ?P"
    using M p c32 by (simp add: rounding_exact_def z c_def pages_needed_def)
  have "unat (drop_bit b (round_up M (sz + (paddr - start)) q)) = c"
    by (simp add: unat_drop_bit up)
  moreover have "c < 2 ^ 32" using c32 P(2) by (metis le_less_trans mult.commute mult_le_mono1 nat_mult_1 Suc_leI One_nat_def)
  ultimately show n: "unat n = pages_needed paddr sz b"
    unfolding n_def q_def [symmetric] by (simp add: c_def unsigned_ucast_eq take_bit_eq_mod)
  have "unat (push_bit b n) = c * ?P" using c32 by (simp add: unat_push_bit n c_def)
  then show "sz + (paddr - start) \<le> ucast (push_bit b n)"
    using c(2) by (simp add: word_le_nat_alt z unat_ucast_32_64)
qed


lemma word_of_unat: "unat x = k \<Longrightarrow> x = word_of_nat k"
  by (drule sym) simp

lemma frame_address_eq:
  assumes b: "b \<le> 30" and i: "i < n" and n: "n * 2 ^ b < 2 ^ 32"
  shows "frame_address start (push_bit b 1) i = start + word_of_nat (i * 2 ^ b)"
proof -
  have "i * 2 ^ b < n * 2 ^ b" using i by simp
  then have lt: "i * 2 ^ b < 2 ^ 32" using n by (rule less_trans)
  have e: "unat (word_of_nat i * push_bit b 1 :: u32) = i * 2 ^ b"
  proof -
    have "(word_of_nat i * push_bit b 1 :: u32) = word_of_nat (i * 2 ^ b)" by simp
    then show ?thesis using lt by (simp only: unat_of_nat) simp
  qed
  have "(ucast (word_of_nat i * push_bit b 1 :: u32) :: u64) = word_of_nat (i * 2 ^ b)"
    by (rule word_of_unat) (simp add: e unat_ucast_32_64 del: push_bit_of_1)
  then show ?thesis unfolding frame_address_def by (rule arg_cong)
qed

definition paddr_mapped :: "ledger \<Rightarrow> u64 \<Rightarrow> u64 \<Rightarrow> nat \<Rightarrow> mem_effect list \<Rightarrow> u64 option \<Rightarrow> bool" where
  "paddr_mapped L paddr sz b d r \<longleftrightarrow>
     (case r of
       None \<Rightarrow> run_ops ledger_step d L = Inr L
     | Some v \<Rightarrow> \<exists>fs n. n = pages_needed paddr sz b \<and> length fs = n \<and>
         run_ops ledger_step d L = Inr (with_frames fs L) \<and>
         pages_of d = map (\<lambda>i. word_of_nat (unat paddr div 2 ^ b * 2 ^ b + i * 2 ^ b)) [0..<n] \<and>
         (\<exists>vaddr. vaddr \<noteq> 0 \<and> MapPages (map fst fs) b vaddr = last d \<and> v = vaddr + word_of_nat (unat paddr mod 2 ^ b)))"

text \<open>The pages are mapped when all frames were found, and given back otherwise or when mapping fails.\<close>

lemma map_finish_ok:
  assumes "ledger_ok L" and d: "run_ops ledger_step d L = Inr (with_frames gs L)"
    and pages: "complete \<Longrightarrow> length gs = pages_needed paddr sz b"
      "complete \<Longrightarrow> pages_of d = map (\<lambda>i. word_of_nat (unat paddr div 2 ^ b * 2 ^ b + i * 2 ^ b)) [0..<pages_needed paddr sz b]"
  shows "ok (let vaddr = map_pages M (length (l @ d)) (map fst gs) b;
             l' = (if complete then (l @ d) @ [MapPages (map fst gs) b vaddr] else l @ d)
         in if complete \<and> vaddr \<noteq> 0 then Inr (Some (vaddr + word_of_nat (unat paddr mod 2 ^ b)), l')
            else Inr (None, l' @ concat (map release_frame gs)))
    (\<lambda>(r, l'). \<exists>d. l' = l @ d \<and> paddr_mapped L paddr sz b d r)"
proof -
  let ?v = "map_pages M (length (l @ d)) (map fst gs) b"
  have undo: "run_ops ledger_step (d @ m @ concat (map release_frame gs)) L = Inr L"
    if "m = [] \<or> m = [MapPages (map fst gs) b ?v]" for m
    using that d release_frames [OF assms(1), of gs] by (auto simp: run_ops_append ledger_step_def)
  show ?thesis
  proof (cases "complete \<and> ?v \<noteq> 0")
    case True
    have full: "run_ops ledger_step (d @ [MapPages (map fst gs) b ?v]) L = Inr (with_frames gs L)"
      using d by (simp add: run_ops_append ledger_step_def)
    have "pages_of [MapPages (map fst gs) b ?v] = []" by (simp add: pages_of_def)
    then show ?thesis using True full pages by (auto simp: Let_def paddr_mapped_def)
  next
    case False
    then show ?thesis using undo [of "[]"] undo [of "[MapPages (map fst gs) b ?v]"] by (auto simp: Let_def paddr_mapped_def)
  qed
qed

lemma map_paddr_ok:
  assumes "\<And>n. cspace_alloc M n \<noteq> None" "cookies_valid M" "rounding_exact M" "ledger_ok L" "b \<le> 30"
    "unat paddr mod 2 ^ b + unat sz \<le> 2 ^ 32 - 2 ^ b"
  shows "ok (vm_map_paddr_with_page_size M paddr sz b l) (\<lambda>(r, l'). \<exists>d. l' = l @ d \<and> paddr_mapped L paddr sz b d r)"
proof -
  define ps where "ps = (push_bit b 1 :: i32)"
  define start where "start = round_down M paddr (scast ps)"
  define n where "n = (ucast (drop_bit b (round_up M (sz + (paddr - start)) (scast ps))) :: u32)"
  note ar = map_arith [OF assms(3,5,6), folded ps_def, folded start_def, folded n_def]
  have off: "paddr - start = word_of_nat (unat paddr mod 2 ^ b)" by (rule word_of_unat [OF ar(2)])
  have addr: "map (frame_address start ps) [0..<unat n] =
      map (\<lambda>i. word_of_nat (unat paddr div 2 ^ b * 2 ^ b + i * 2 ^ b)) [0..<unat n]"
  proof (rule map_cong [OF refl])
    fix i assume "i \<in> set [0..<unat n]"
    then have "frame_address start ps i = start + word_of_nat (i * 2 ^ b)"
      unfolding ps_def using ar(4,6) by (intro frame_address_eq [OF assms(5), of i "unat n"]) simp_all
    moreover have "start = word_of_nat (unat paddr div 2 ^ b * 2 ^ b)" by (rule word_of_unat [OF ar(1)])
    ultimately show "frame_address start ps i = word_of_nat (unat paddr div 2 ^ b * 2 ^ b + i * 2 ^ b)" by simp
  qed
  have e: "vm_map_paddr_with_page_size M paddr sz b l =
     rbind (get_frames M start ps [0..<unat n] [] l) (\<lambda>(fs, complete, l).
         let vaddr = map_pages M (length l) (map fst fs) b;
             l' = (if complete then l @ [MapPages (map fst fs) b vaddr] else l)
         in if complete \<and> vaddr \<noteq> 0 then Inr (Some (vaddr + (paddr - start)), l')
            else Inr (None, l' @ concat (map release_frame fs)))"
    using ar(5) unfolding vm_map_paddr_with_page_size_def Let_def ps_def [symmetric] start_def [symmetric]
      n_def [symmetric] by (simp add: rassert_def)
  show ?thesis
    unfolding e off ok_rbind
  proof (rule ok_mono [OF get_frames_ok [OF assms(1,2,4), where fs = "[]"]], clarsimp simp only: append_Nil prod.case)
    fix complete d gs
    assume d: "run_ops ledger_step d (with_frames [] L) = Inr (with_frames gs L)"
      "complete \<longrightarrow> length gs = length [0..<unat n] \<and> pages_of d = map (frame_address start ps) [0..<unat n]"
    from d(2) have "length gs = pages_needed paddr sz b"
      "pages_of d = map (\<lambda>i. word_of_nat (unat paddr div 2 ^ b * 2 ^ b + i * 2 ^ b)) [0..<pages_needed paddr sz b]" if complete
      using that addr ar(4) by simp_all
    with d(1) show "ok (let vaddr = map_pages M (length (l @ d)) (map fst gs) b;
             l' = (if complete then (l @ d) @ [MapPages (map fst gs) b vaddr] else l @ d)
         in if complete \<and> vaddr \<noteq> 0 then Inr (Some (vaddr + word_of_nat (unat paddr mod 2 ^ b)), l')
            else Inr (None, l' @ concat (map release_frame gs)))
      (\<lambda>(r, l'). \<exists>d. l' = l @ d \<and> paddr_mapped L paddr sz b d r)"
      by (intro map_finish_ok [OF assms(4)]) simp_all
  qed
qed

lemma map_paddr_ledger:
  assumes "\<And>n. cspace_alloc M n \<noteq> None" "cookies_valid M" "rounding_exact M" "ledger_ok L" "b \<le> 30"
    "unat paddr mod 2 ^ b + unat sz \<le> 2 ^ 32 - 2 ^ b"
  shows "ok (vm_map_paddr_with_page_size M paddr sz b l) (\<lambda>(r, l'). \<exists>d. l' = l @ d \<and>
    (if r = None then run_ops ledger_step d L = Inr L else \<exists>fs. run_ops ledger_step d L = Inr (with_frames fs L)))"
  by (rule ok_mono [OF map_paddr_ok [OF assms]]) (auto simp: paddr_mapped_def split: option.splits)

text \<open>
  C7. A mapping covers what was asked for and leaks nothing.  If the allocator has slots left and
  the request, rounded to pages, is below 4 GiB, the function returns without a failed assertion.
  When it succeeds it holds one frame for each page between the page of the first byte and the page
  of the last, consecutive and no more, and adds the offset of the first byte to the address of the
  mapping; when it fails, every slot, capability and piece of untyped memory it took has been given
  back, none twice.
\<close>

theorem map_paddr_exact:
  assumes "\<And>n. cspace_alloc M n \<noteq> None" "cookies_valid M" "rounding_exact M" "ledger_ok L" "b \<le> 30"
    "unat paddr mod 2 ^ b + unat sz \<le> 2 ^ 32 - 2 ^ b"
  shows "ok (vm_map_paddr_with_page_size M paddr sz b l) (\<lambda>(r, l'). \<exists>d. l' = l @ d \<and>
    (case r of
       None \<Rightarrow> run_ops ledger_step d L = Inr L
     | Some v \<Rightarrow> \<exists>fs n. n = (unat paddr mod 2 ^ b + unat sz + 2 ^ b - 1) div 2 ^ b \<and> length fs = n \<and>
         run_ops ledger_step d L = Inr (with_frames fs L) \<and>
         pages_of d = map (\<lambda>i. word_of_nat (unat paddr div 2 ^ b * 2 ^ b + i * 2 ^ b)) [0..<n] \<and>
         (\<exists>vaddr. vaddr \<noteq> 0 \<and> MapPages (map fst fs) b vaddr = last d \<and> v = vaddr + word_of_nat (unat paddr mod 2 ^ b))))"
  using map_paddr_ok [OF assms] unfolding paddr_mapped_def pages_needed_def .

definition sample_mem :: mem_lib where
  "sample_mem = \<lparr>cspace_alloc = (\<lambda>n. Some (100 + n)), utspace_alloc_at = (\<lambda>n a. if a = 0x80001000 then None else Some 7),
     simple_frame_cap = (\<lambda>n a. a = 0x80001000), map_pages = (\<lambda>n ss b. 0x500000), alloc_ram_frame = (\<lambda>n. Some (200 + n)),
     round_down = (\<lambda>n b. n div b * b),
     round_up = (\<lambda>n b. word_of_nat ((unat n + unat b - 1) div unat b * unat b)),
     page_align = (\<lambda>n b. n AND NOT (b - 1))\<rparr>"

lemma sample_mem_ok:
  "cspace_alloc sample_mem n \<noteq> None" "cookies_valid sample_mem" "rounding_exact sample_mem"
  by (simp_all add: sample_mem_def cookies_valid_def rounding_exact_def unat_of_nat del: of_nat_mult)

definition no_ledger :: ledger where
  "no_ledger = \<lparr>held_slots = {#}, held_caps = {#}, held_uts = {#}\<rparr>"

theorem map_paddr_exact_witness:
  "\<exists>v d. vm_map_paddr_with_page_size sample_mem 0x80000ff0 0x20 12 [] = Inr (Some v, d) \<and>
     pages_of d = [0x80000000, 0x80001000] \<and> v = 0x500ff0"
proof -
  have e: "[0..<2] = [0, 1 :: nat]" by (simp add: upt_rec)
  have "vm_map_paddr_with_page_size sample_mem 0x80000ff0 0x20 12 [] =
     Inr (Some 0x500ff0, [SlotAlloc 100, FrameAt 0x80000000 100 7, SlotAlloc 102, FrameCap 0x80001000 102,
       MapPages [100, 102] 12 0x500000])"
    by (simp add: vm_map_paddr_with_page_size_def sample_mem_def Let_def rassert_def e push_bit_eq_mult drop_bit_eq_div)
  moreover have "ok (vm_map_paddr_with_page_size sample_mem 0x80000ff0 0x20 12 []) (\<lambda>(r, l'). \<exists>d. l' = [] @ d \<and>
    (case r of
       None \<Rightarrow> run_ops ledger_step d no_ledger = Inr no_ledger
     | Some v \<Rightarrow> \<exists>fs n. n = (unat (0x80000ff0 :: u64) mod 2 ^ 12 + unat (0x20 :: u64) + 2 ^ 12 - 1) div 2 ^ 12 \<and> length fs = n \<and>
         run_ops ledger_step d no_ledger = Inr (with_frames fs no_ledger) \<and>
         pages_of d = map (\<lambda>i. word_of_nat (unat (0x80000ff0 :: u64) div 2 ^ 12 * 2 ^ 12 + i * 2 ^ 12)) [0..<n] \<and>
         (\<exists>vaddr. vaddr \<noteq> 0 \<and> MapPages (map fst fs) 12 vaddr = last d \<and> v = vaddr + word_of_nat (unat (0x80000ff0 :: u64) mod 2 ^ 12))))"
    by (rule map_paddr_exact) (use sample_mem_ok in \<open>simp_all add: ledger_ok_def no_ledger_def\<close>)
  ultimately show ?thesis by (auto simp: e)
qed

section \<open>Trying all frame sizes\<close>

lemma try_sizes_no_leak:
  assumes "\<And>n. cspace_alloc M n \<noteq> None" "cookies_valid M" "rounding_exact M" "ledger_ok L"
    "list_all (\<lambda>b. b \<le> 30 \<and> unat paddr mod 2 ^ b + unat sz \<le> 2 ^ 32 - 2 ^ b) bs"
  shows "ok (try_sizes M paddr sz bs l) (\<lambda>(r, l'). \<exists>d. l' = l @ d \<and>
    (if r = None then run_ops ledger_step d L = Inr L else \<exists>fs. run_ops ledger_step d L = Inr (with_frames fs L)))"
  using assms(5)
proof (induction bs arbitrary: l)
  case (Cons b bs)
  have b: "b \<le> 30" "unat paddr mod 2 ^ b + unat sz \<le> 2 ^ 32 - 2 ^ b" using Cons.prems by simp_all
  show ?case
    unfolding try_sizes.simps ok_rbind
  proof (rule ok_mono [OF map_paddr_ledger [OF assms(1-4) b]], clarify)
    fix r :: "u64 option" and d
    assume d: "if r = None then run_ops ledger_step d L = Inr L else \<exists>fs. run_ops ledger_step d L = Inr (with_frames fs L)"
    show "ok (if r = None then try_sizes M paddr sz bs (l @ d) else Inr (r, l @ d))
      (\<lambda>(r, l'). \<exists>d. l' = l @ d \<and> (if r = None then run_ops ledger_step d L = Inr L
         else \<exists>fs. run_ops ledger_step d L = Inr (with_frames fs L)))"
    proof (cases r)
      case None
      have "list_all (\<lambda>b. b \<le> 30 \<and> unat paddr mod 2 ^ b + unat sz \<le> 2 ^ 32 - 2 ^ b) bs" using Cons.prems by simp
      from Cons.IH [OF this, of "l @ d"] show ?thesis
        unfolding None if_True simp_thms
      proof (rule ok_mono, clarify)
        fix r' :: "u64 option" and d'
        assume "if r' = None then run_ops ledger_step d' L = Inr L else \<exists>fs. run_ops ledger_step d' L = Inr (with_frames fs L)"
        then show "\<exists>da. (l @ d) @ d' = l @ da \<and> (if r' = None then run_ops ledger_step da L = Inr L
           else \<exists>fs. run_ops ledger_step da L = Inr (with_frames fs L))"
          using d None by (intro exI [of _ "d @ d'"]) (simp add: run_ops_append)
      qed
    next
      case (Some v)
      then show ?thesis using d by auto
    qed
  qed
qed simp

lemma frame_size_index:
  "i \<le> frame_size_from i bs sz" "frame_size_from i bs sz \<le> i + length bs"
  "\<forall>j. i \<le> j \<longrightarrow> j < frame_size_from i bs sz \<longrightarrow> drop_bit (bs ! (j - i)) sz \<noteq> 0"
  "frame_size_from i bs sz < i + length bs \<longrightarrow> drop_bit (bs ! (frame_size_from i bs sz - i)) sz = 0"
proof (induction bs arbitrary: i)
  case (Cons b bs)
  {
    case 1
    then show ?case using Cons(1) [of "Suc i"] by auto
  next
    case 2
    then show ?case using Cons(2) [of "Suc i"] by simp
  next
    case 3
    show ?case
      using Cons(3) [of "Suc i"] by (auto simp: nth_Cons' le_Suc_eq)
  next
    case 4
    show ?case using Cons(4) [of "Suc i"] Cons(1) [of "Suc i"] by (auto simp: nth_Cons')
  }
qed simp_all

lemma find_dataport_frame_ok:
  "list_all (\<lambda>f. df_paddr f = paddr \<longrightarrow> df_size f = sz) frames \<Longrightarrow>
   ok (find_dataport_frame frames paddr sz) (\<lambda>v. True)"
  by (induction frames) auto

text \<open>
  A failed mapping of a device leaks nothing.  All frame sizes are tried from the largest that
  is not larger than the request down to the smallest; if none works, null is returned and the
  allocators are owed exactly what they were owed before.  A mapping of a dataport takes nothing.
\<close>

theorem map_paddr_no_leak:
  assumes "\<And>n. cspace_alloc M n \<noteq> None" "cookies_valid M" "rounding_exact M" "ledger_ok L"
    "list_all (\<lambda>b. b \<le> 30 \<and> unat paddr mod 2 ^ b + unat sz \<le> 2 ^ 32 - 2 ^ b) page_sizes"
    "list_all (\<lambda>f. df_paddr f = paddr \<longrightarrow> df_size f = sz) frames"
  shows "ok (vm_map_paddr M page_sizes frames paddr sz l) (\<lambda>(r, l'). \<exists>d. l' = l @ d \<and>
    (if r = None then run_ops ledger_step d L = Inr L else \<exists>fs. run_ops ledger_step d L = Inr (with_frames fs L)))"
proof -
  let ?bs = "rev (take (Suc (frame_size_from 0 (tl page_sizes) sz)) page_sizes)"
  have "list_all (\<lambda>b. b \<le> 30 \<and> unat paddr mod 2 ^ b + unat sz \<le> 2 ^ 32 - 2 ^ b) ?bs"
    using assms(5) by (auto simp: list_all_iff dest: in_set_takeD)
  note sizes = try_sizes_no_leak [OF assms(1-4) this]
  show ?thesis
    unfolding vm_map_paddr_def ok_rbind
  proof (rule ok_mono [OF find_dataport_frame_ok [OF assms(6)]])
    fix v
    show "ok (if v \<noteq> None \<and> v \<noteq> Some 0 then Inr (v, l) else try_sizes M paddr sz ?bs l)
      (\<lambda>(r, l'). \<exists>d. l' = l @ d \<and> (if r = None then run_ops ledger_step d L = Inr L
        else \<exists>fs. run_ops ledger_step d L = Inr (with_frames fs L)))"
      using sizes [of l] by (auto intro: exI [of _ "[]"] simp: with_frames_Nil [symmetric] simp del: with_frames_Nil)
  qed
qed

theorem map_paddr_no_leak_witness:
  "ok (vm_map_paddr sample_mem [12, 21] [\<lparr>df_paddr = 0x1000, df_vaddr = 0x9000, df_size = 0x1000, df_cap = 5\<rparr>] 0x80000ff0 0x20 [])
    (\<lambda>(r, l'). \<exists>d. l' = [] @ d \<and> (if r = None then run_ops ledger_step d no_ledger = Inr no_ledger
       else \<exists>fs. run_ops ledger_step d no_ledger = Inr (with_frames fs no_ledger)))"
  by (rule map_paddr_no_leak) (use sample_mem_ok in \<open>simp_all add: ledger_ok_def no_ledger_def\<close>)

section \<open>Allocation of kernel objects\<close>

text \<open>
  Wrappers of the allocator: thread control blocks come from the static pool of CAmkES, and a
  small page whose address is a dataport's is a copy of its frame.  \<open>Some cap\<close>: a copy of the
  capability; \<open>None\<close>: the request goes to the allocator.
\<close>

definition camkes_vm_utspace_alloc_maybe_device_fn :: "bool \<Rightarrow> nat \<Rightarrow> nat option" where
  "camkes_vm_utspace_alloc_maybe_device_fn is_tcb cap = (if is_tcb \<and> cap \<noteq> 0 then Some cap else None)"

fun camkes_vm_utspace_alloc_at :: "bool \<Rightarrow> dataport_frame list \<Rightarrow> nat \<Rightarrow> u64 \<Rightarrow> nat option res" where
  "camkes_vm_utspace_alloc_at small [] size_bits paddr = Inr None"
| "camkes_vm_utspace_alloc_at small (f # fs) size_bits paddr =
     (if \<not> small then Inr None
      else if df_paddr f = paddr
      then if df_size f = push_bit size_bits 1 then Inr (Some (df_cap f)) else Inl LogFatal
      else camkes_vm_utspace_alloc_at small fs size_bits paddr)"

datatype ut_pool = ALLOCMAN_UT_KERNEL | ALLOCMAN_UT_DEV_MEM | ALLOCMAN_UT_DEV

definition add_uts :: "u64 \<Rightarrow> u64 \<Rightarrow> u64 \<Rightarrow> bool \<Rightarrow> ut_pool" where
  "add_uts phys_base ram_size paddr is_device =
     (let is_guest_ram = phys_base \<le> paddr \<and> paddr - phys_base < ram_size
      in if \<not> is_device then ALLOCMAN_UT_KERNEL
         else if is_guest_ram then ALLOCMAN_UT_DEV_MEM
         else ALLOCMAN_UT_DEV)"

text \<open>
  Untyped memory goes to the right pool.  Device memory can be allocated without naming its
  address exactly when it starts in the guest's RAM, as numbers that do not wrap around; memory
  that starts below the RAM and reaches into it counts as a device.
\<close>

theorem add_uts_pool:
  "add_uts base sz paddr dev =
     (if \<not> dev then ALLOCMAN_UT_KERNEL
      else if unat paddr \<in> {unat base ..< unat base + unat sz} then ALLOCMAN_UT_DEV_MEM else ALLOCMAN_UT_DEV)"
  by (auto simp: add_uts_def Let_def word_le_nat_alt word_less_nat_alt unat_sub)

section \<open>Memory for DMA\<close>

definition DMA_VSTART :: u32 where "DMA_VSTART = 0x40000000"

record dma_mem =
  dma_vaddr :: u32
  dma_paddr :: u64
  dma_size_bits :: nat
  dma_cookie :: nat

text \<open>
  The answers of the kernel: the frame, the result of the first attempt to map it, the page table,
  the result of mapping the table, the result of the second attempt, and error and physical address.
\<close>

definition dma_morecore :: "nat \<Rightarrow> int \<Rightarrow> nat \<Rightarrow> int \<Rightarrow> int \<Rightarrow> int \<times> u64 \<Rightarrow> u32 \<Rightarrow> (dma_mem option \<times> u32) res" where
  "dma_morecore frame first pt map_pt second getaddr vaddr =
     rbind (rassert (frame \<noteq> 0)) (\<lambda>_.
       if first \<noteq> 0 \<and> (pt = 0 \<or> map_pt \<noteq> 0 \<or> second \<noteq> 0) then Inr (None, vaddr)
       else rbind (rassert (fst getaddr = 0)) (\<lambda>_.
            Inr (Some \<lparr>dma_vaddr = vaddr, dma_paddr = snd getaddr, dma_size_bits = 12, dma_cookie = frame\<rparr>,
                 vaddr + 0x1000)))"

section \<open>Pages on demand\<close>

record vm_frame =
  fr_cptr :: nat
  fr_all_rights :: bool
  fr_vaddr :: u64
  fr_size_bits :: nat

definition null_frame :: vm_frame where
  "null_frame = \<lparr>fr_cptr = 0, fr_all_rights = False, fr_vaddr = 0, fr_size_bits = 0\<rparr>"

definition page_frame :: "nat \<Rightarrow> u64 \<Rightarrow> vm_frame" where
  "page_frame cap addr = \<lparr>fr_cptr = cap, fr_all_rights = True, fr_vaddr = addr, fr_size_bits = 12\<rparr>"

definition alloc_vm_device_cap :: "mem_lib \<Rightarrow> u64 \<Rightarrow> mem_effect list \<Rightarrow> vm_frame option \<times> mem_effect list" where
  "alloc_vm_device_cap M addr l =
     (case cspace_alloc M (length l) of
        None \<Rightarrow> (None, l)
      | Some slot \<Rightarrow>
          let l = l @ [SlotAlloc slot]
          in case utspace_alloc_at M (length l) addr of
               Some cookie \<Rightarrow> (Some (page_frame slot addr), l @ [FrameAt addr slot cookie])
             | None \<Rightarrow>
                 if simple_frame_cap M (length l) addr then (Some (page_frame slot addr), l @ [FrameCap addr slot])
                 else (None, l))"

definition alloc_vm_ram_cap :: "mem_lib \<Rightarrow> u64 \<Rightarrow> mem_effect list \<Rightarrow> (vm_frame \<times> mem_effect list) res" where
  "alloc_vm_ram_cap M addr l =
     (case alloc_ram_frame M (length l) of
        None \<Rightarrow> Inl LogFatal
      | Some cap \<Rightarrow> Inr (page_frame cap addr, l @ [RamFrame cap]))"

definition on_demand_iterator :: "mem_lib \<Rightarrow> u64 \<Rightarrow> mem_effect list \<Rightarrow> (vm_frame \<times> mem_effect list) res" where
  "on_demand_iterator M addr l =
     (let paddr = page_align M addr 0x1000
      in case alloc_vm_device_cap M paddr l of
           (Some f, l) \<Rightarrow> Inr (f, l)
         | (None, l) \<Rightarrow> alloc_vm_ram_cap M paddr l)"

datatype memory_fault_result = FAULT_ERROR | FAULT_RESTART

text \<open>
  \<open>ondemand\<close> is the build option; \<open>reserve\<close> and \<open>map_reservation\<close> are the VM library's, the latter is
  given the iterator and returns 0 for success.
\<close>

definition unhandled_mem_fault_callback ::
    "bool \<Rightarrow> mem_lib \<Rightarrow> (u64 \<Rightarrow> u64 \<Rightarrow> 'r option) \<Rightarrow>
     ('r option \<Rightarrow> (u64 \<Rightarrow> mem_effect list \<Rightarrow> (vm_frame \<times> mem_effect list) res) \<Rightarrow> mem_effect list \<Rightarrow> (int \<times> mem_effect list) res) \<Rightarrow>
     u64 \<Rightarrow> mem_effect list \<Rightarrow> (memory_fault_result \<times> mem_effect list) res" where
  "unhandled_mem_fault_callback ondemand M reserve map_reservation paddr l =
     (if ondemand
      then let addr = page_align M paddr 0x1000
           in if addr = 0 then Inr (FAULT_ERROR, l)
              else rbind (map_reservation (reserve addr 0x1000) (on_demand_iterator M) l) (\<lambda>(mapped, l).
                   Inr (if mapped = 0 then FAULT_RESTART else FAULT_ERROR, l))
      else Inr (FAULT_ERROR, l))"

text \<open>The library calls the iterator for the one page of a reservation; \<open>inst\<close> is the result of installing the frame.\<close>

definition maps_one_page ::
    "(u64 \<Rightarrow> u64 \<Rightarrow> 'r option) \<Rightarrow>
     ('r option \<Rightarrow> (u64 \<Rightarrow> mem_effect list \<Rightarrow> (vm_frame \<times> mem_effect list) res) \<Rightarrow> mem_effect list \<Rightarrow> (int \<times> mem_effect list) res) \<Rightarrow>
     (vm_frame \<Rightarrow> int) \<Rightarrow> bool" where
  "maps_one_page reserve map_reservation inst \<longleftrightarrow>
     (\<forall>a it l. map_reservation (reserve a 0x1000) it l = rbind (it a l) (\<lambda>(f, l). Inr (inst f, l)))"

lemma page_bounds:
  "unat (a AND NOT 0xfff :: u64) \<le> unat a" "unat (a :: u64) < unat (a AND NOT 0xfff) + 4096"
  "(a AND NOT 0xfff) AND NOT 0xfff = (a AND NOT 0xfff :: u64)"
proof -
  have m: "unat (a AND 0xfff) < 4096" using unat_and_lt [of "0xfff :: u64" 4096 a] by simp
  have d: "(a AND NOT 0xfff) AND (a AND 0xfff) = 0" by (rule bit_word_eqI) (simp add: bit_simps)
  have "(a AND NOT 0xfff) + (a AND 0xfff) = (a AND NOT 0xfff) OR (a AND 0xfff)"
    using d by (rule disjunctive_add_eq_or)
  also have "\<dots> = a" by (rule bit_word_eqI) (auto simp: bit_simps)
  finally have e: "(a AND NOT 0xfff) + (a AND 0xfff) = a" .
  show le: "unat (a AND NOT 0xfff) \<le> unat a" using word_and_le2 [of a "NOT 0xfff"] by (simp add: word_le_nat_alt)
  have "unat a - unat (a AND NOT 0xfff) = unat (a AND 0xfff)"
    using le e by (metis add_diff_cancel_left' unat_sub word_le_nat_alt)
  then show "unat a < unat (a AND NOT 0xfff) + 4096" using m le by simp
  show "(a AND NOT 0xfff) AND NOT 0xfff = a AND NOT 0xfff" by (simp add: and.assoc)
qed


text \<open>
  A fault outside the first page installs the page of the faulting address.  If the library
  maps what the iterator gives it, the guest is restarted with a page that is aligned, contains the
  address and is backed by the device at that address if there is one and by anonymous memory
  otherwise; in the latter case the slot allocated for the device is never given back, so every
  such fault costs the monitor one slot.
\<close>

theorem on_demand_page:
  assumes "page_align_exact M" "maps_one_page reserve map_reservation inst" "paddr AND NOT 0xfff \<noteq> 0"
    "\<And>n. cspace_alloc M n \<noteq> None" "\<And>n. alloc_ram_frame M n \<noteq> None" "\<And>f. fr_cptr f \<noteq> 0 \<Longrightarrow> inst f = 0"
    "\<And>n. cspace_alloc M n \<noteq> Some 0" "\<And>n. alloc_ram_frame M n \<noteq> Some 0" "cookies_valid M"
  shows "ok (unhandled_mem_fault_callback True M reserve map_reservation paddr l) (\<lambda>(res, l').
    res = FAULT_RESTART \<and> (\<exists>d a slot. l' = l @ d \<and> a AND 0xfff = 0 \<and> unat a \<le> unat paddr \<and> unat paddr < unat a + 4096 \<and>
      (if utspace_alloc_at M (length l + 1) a = None \<and> \<not> simple_frame_cap M (length l + 1) a
       then \<exists>cap. run_ops ledger_step d L = Inr (L\<lparr>held_slots := held_slots L + {#slot, cap#}, held_caps := held_caps L + {#cap#}\<rparr>)
       else \<exists>c. run_ops ledger_step d L = Inr (with_frames [(slot, c)] L) \<and> pages_of d = [a])))"
proof -
  define a where "a = paddr AND NOT 0xfff"
  note b = page_bounds [of paddr, folded a_def]
  have al: "page_align M paddr 0x1000 = a" "page_align M a 0x1000 = a"
    using assms(1) b(3) by (simp_all add: page_align_exact_def a_def)
  have low: "a AND 0xfff = 0" by (rule bit_word_eqI) (simp add: a_def bit_simps)
  have run: "unhandled_mem_fault_callback True M reserve map_reservation paddr l =
      rbind (on_demand_iterator M a l) (\<lambda>(f, l). Inr (if inst f = 0 then FAULT_RESTART else FAULT_ERROR, l))"
    using assms(2,3) al(1) by (cases "on_demand_iterator M a l")
      (auto simp: unhandled_mem_fault_callback_def maps_one_page_def Let_def a_def)
  obtain slot where slot: "cspace_alloc M (length l) = Some slot" "slot \<noteq> 0" using assms(4,7) by (metis option.exhaust)
  obtain cap where cap: "alloc_ram_frame M (Suc (length l)) = Some cap" "cap \<noteq> 0" using assms(5,8) by (metis option.exhaust)
  have ok: "inst (page_frame c x) = 0" if "c \<noteq> 0" for c x using assms(6) [of "page_frame c x"] that by (simp add: page_frame_def)
  note defs = on_demand_iterator_def al alloc_vm_device_cap_def slot Let_def
  show ?thesis
  proof (cases "utspace_alloc_at M (Suc (length l)) a")
    case (Some cookie)
    then have "cookie \<noteq> - 1" using assms(9) by (auto simp: cookies_valid_def)
    then have "run_ops ledger_step [SlotAlloc slot, FrameAt a slot cookie] L = Inr (with_frames [(slot, cookie)] L)"
      by (simp add: ledger_step_def with_frames_def)
    then show ?thesis
      unfolding run using b(1,2) low Some by (simp add: defs ok)
        (rule exI [of _ a], simp add: pages_of_def, intro exI [of _ slot], auto)
  next
    case None
    show ?thesis
    proof (cases "simple_frame_cap M (Suc (length l)) a")
      case True
      have "run_ops ledger_step [SlotAlloc slot, FrameCap a slot] L = Inr (with_frames [(slot, - 1)] L)"
        by (simp add: ledger_step_def with_frames_def)
      then show ?thesis
        unfolding run using b(1,2) low None True by (simp add: defs ok)
          (rule exI [of _ a], simp add: pages_of_def, intro exI [of _ slot], auto)
    next
      case False
      have "run_ops ledger_step [SlotAlloc slot, RamFrame cap] L =
          Inr (L\<lparr>held_slots := held_slots L + {#slot, cap#}, held_caps := held_caps L + {#cap#}\<rparr>)"
        by (simp add: ledger_step_def add_mset_commute)
      then show ?thesis
        unfolding run using b(1,2) low None False by (simp add: defs ok alloc_vm_ram_cap_def cap)
          (rule exI [of _ a], auto)
    qed
  qed
qed


definition sample_reserve :: "u64 \<Rightarrow> u64 \<Rightarrow> u64 option" where
  "sample_reserve a sz = Some a"

definition sample_map :: "u64 option \<Rightarrow> (u64 \<Rightarrow> mem_effect list \<Rightarrow> (vm_frame \<times> mem_effect list) res) \<Rightarrow>
    mem_effect list \<Rightarrow> (int \<times> mem_effect list) res" where
  "sample_map r it l = (case r of None \<Rightarrow> Inr (-1, l) | Some a \<Rightarrow> rbind (it a l) (\<lambda>(f, l). Inr (if fr_cptr f = 0 then -1 else 0, l)))"

theorem on_demand_page_witness:
  "ok (unhandled_mem_fault_callback True (sample_mem\<lparr>utspace_alloc_at := \<lambda>n a. None\<rparr>) sample_reserve sample_map 0x80000ff0 [])
     (\<lambda>(res, l'). res = FAULT_RESTART)"
proof -
  let ?M = "sample_mem\<lparr>utspace_alloc_at := \<lambda>n a. None\<rparr>"
  have "ok (unhandled_mem_fault_callback True ?M sample_reserve sample_map 0x80000ff0 []) (\<lambda>(res, l').
    res = FAULT_RESTART \<and> (\<exists>d a slot. l' = [] @ d \<and> a AND 0xfff = 0 \<and> unat a \<le> unat (0x80000ff0 :: u64) \<and>
      unat (0x80000ff0 :: u64) < unat a + 4096 \<and>
      (if utspace_alloc_at ?M (length ([] :: mem_effect list) + 1) a = None \<and> \<not> simple_frame_cap ?M (length ([] :: mem_effect list) + 1) a
       then \<exists>cap. run_ops ledger_step d no_ledger = Inr (no_ledger\<lparr>held_slots := held_slots no_ledger + {#slot, cap#},
               held_caps := held_caps no_ledger + {#cap#}\<rparr>)
       else \<exists>c. run_ops ledger_step d no_ledger = Inr (with_frames [(slot, c)] no_ledger) \<and> pages_of d = [a])))"
    by (rule on_demand_page [where inst = "\<lambda>f. if fr_cptr f = 0 then -1 else 0"])
      (simp_all add: page_align_exact_def maps_one_page_def sample_map_def sample_reserve_def sample_mem_def cookies_valid_def)
  then show ?thesis by (rule ok_mono) auto
qed

end
