(* ===== verification/Arm_Boot.thy ===== *)
theory Arm_Boot
  imports Calls Arm_Events Arm_Memory
begin

unbundle bit_operations_syntax

text \<open>
  How the ARM monitor boots: \<^verbatim>\<open>components/VM_Arm/src/main.c\<close> with the device tree
  nodes of \<^verbatim>\<open>fdt_manipulation.c\<close>.  The functions call the kernel and libraries in
  sequence, as in \<open>Calls\<close>; a function that returns an error code which its callers return in
  turn is the fault \<open>ErrReturn\<close>.  A value that a library returns through a pointer is the answer of a
  call of its own, after the call that stores it.
\<close>

section \<open>Calls and configuration\<close>

datatype irq_fn = DefaultHandler | CustomHandler nat

datatype fdt_source = FdtNull | FdtCamkes | FdtBaseBuffer

datatype setup_call =
    RestartCallback | ArmInstallFileserver | BindNotification | ArmPciInit | ArmIoPortInit | ArmVmInit
  | RegUnhandledMemFault | RegNotification | IospaceCount | ArmAddIospace int
  | AssignVspace | BindStreamId | ArmCreateIrqController | RegSmcHandler | ArmCreateVcpu
  | AssignVcpuTarget | StartVcpu

datatype alloc_call =
    MakeSimple | BootstrapAllocman | UntypedCount | AddUts nat | DtbUntypedCount | AddDtbUts nat
  | BootstrapVspace | NewIoMapper | DmaManInit | AllocEndpoint | ArmMallocOps | IrqServerNew | IrqServerThread nat
  | RevokeUntyped nat | DeleteSlot nat | ZeroBss | RebootCallbacks

datatype fdt_call =
    IoFdt | FdtGet | OpenFile string | ReadFile | CloseFile | FdtgenNew | KeepNodes "string list"
  | KeepSubtree fdt_source string | KeepSubtreeDisable fdt_source string | KeepNodesDisable "string list"
  | FdtgenGenerate fdt_source | FdtgenFree | FdtVcpuNode
  | FdtPathOffset string | FdtAddSubnode int string | AppendString int string string | AppendUint int string u64 int
  | FdtAddressCells int | FdtSizeCells int
  | AllocBootargs | FdtGicOffset fdt_source | FdtGetPhandle fdt_source int | FdtVpciNode int | FdtPack

datatype arm_call =
    Setup setup_call
  | Alloc alloc_call
  | Fdt fdt_call
  | IrqToken int | VmRegisterIrq int | ServerRegisterIrq int irq_fn
  | InstallVpci | InitModule string
  | LoadGuestKernel string | KernelPaddr | LoadGuestModule string u64 | ModulePaddr | ModuleSize
  | MarkAllocated u64 | TouchRam u64 | SetBootargs u64 u64

type_synonym arm_ext = "arm_call library"
type_synonym arm_log = "arm_call calls"

record arm_config =
  dtb_base :: "string option"
  generate_dtb :: bool
  provide_dtb :: bool
  provide_initrd :: bool
  ram_base :: u64
  ram_size :: u64
  kernel_file :: string
  initrd_file :: string
  initrd_addr :: u64
  dtb_file :: string
  dtb_addr :: u64
  kernel_stdout :: "string option"
  kernel_bootcmdline :: string
  pci_support :: bool
  tk1_smmu :: bool
  arm_smmu :: bool
  smc_calls :: bool
  num_cpus :: nat
  linux_pt_irqs :: "int list"
  dtb_irqs :: "int list option"
  custom_irq_handler :: "(int \<Rightarrow> nat option) option"
  vmm_modules :: "string list"
  keep_devices :: "string list"
  plat_keep_devices :: "string list"
  keep_subtrees :: "string list"
  plat_keep_subtrees :: "string list"
  plat_disable_subtrees :: "string list"
  plat_disable :: "string list"
  dtb_node_paths :: "string list"
  dtb_untyped_count :: bool

text \<open>A call whose error makes the function return -1, and one whose error is returned.\<close>

abbreviation or_fail :: "arm_ext \<Rightarrow> arm_call \<Rightarrow> arm_log \<Rightarrow> arm_log res" where
  "or_fail \<equiv> call_zero (ErrReturn (-1))"

definition or_err :: "arm_ext \<Rightarrow> arm_call \<Rightarrow> arm_log \<Rightarrow> arm_log res" where
  "or_err ext c l = (if answer ext c l = 0 then Inr (l @ [c]) else Inl (ErrReturn (answer ext c l)))"

section \<open>Routing interrupts\<close>

definition route_irq :: "arm_config \<Rightarrow> arm_ext \<Rightarrow> int \<Rightarrow> arm_log \<Rightarrow> arm_log res" where
  "route_irq A ext irq_num l =
     (let custom = (case custom_irq_handler A of None \<Rightarrow> None | Some f \<Rightarrow> f irq_num);
          handler = (case custom of None \<Rightarrow> DefaultHandler | Some h \<Rightarrow> CustomHandler h)
      in rbind (call_nonzero (ErrReturn (-1)) ext (IrqToken irq_num) l) (\<lambda>l.
         if answer ext (VmRegisterIrq irq_num) l = -1 then Inl (ErrReturn (-1))
         else let l = l @ [VmRegisterIrq irq_num]
              in if answer ext (ServerRegisterIrq irq_num handler) l < 0 then Inl (ErrReturn (-1))
                 else Inr (l @ [ServerRegisterIrq irq_num handler])))"

definition route_irqs :: "arm_config \<Rightarrow> arm_ext \<Rightarrow> arm_log \<Rightarrow> arm_log res" where
  "route_irqs A ext l =
     rbind (run_ops (route_irq A ext) (linux_pt_irqs A) l) (\<lambda>l.
       case dtb_irqs A of None \<Rightarrow> Inr l | Some irqs \<Rightarrow> run_ops (route_irq A ext) irqs l)"

text \<open>The platform hook of the Exynos 5410: interrupts of the combiner have a handler of their own.\<close>

definition vcombiner_irq_handler :: nat where "vcombiner_irq_handler = 0"

definition get_custom_irq_handler :: "int \<Rightarrow> nat option" where
  "get_custom_irq_handler number = (if 32 \<le> number \<and> number \<le> 63 then Some vcombiner_irq_handler else None)"

section \<open>Devices\<close>

definition install_vm_devices :: "arm_config \<Rightarrow> arm_ext \<Rightarrow> arm_log \<Rightarrow> arm_log res" where
  "install_vm_devices A ext l =
     rbind (if pci_support A then or_fail ext InstallVpci l else Inr l)
       (run_ops (\<lambda>m. call_void (InitModule m)) (vmm_modules A))"

section \<open>Device tree nodes\<close>

text \<open>\<open>fdt_path_offset\<close> and \<open>fdt_add_subnode\<close> answer with an offset, or a negative error.\<close>

definition fdt_generate_memory_node :: "arm_ext \<Rightarrow> u64 \<Rightarrow> u64 \<Rightarrow> arm_log \<Rightarrow> arm_log res" where
  "fdt_generate_memory_node ext base sz l =
     (let root_offset = answer ext (Fdt (FdtPathOffset ''/'')) l;
          l = l @ [Fdt (FdtPathOffset ''/'')];
          address_cells = answer ext (Fdt (FdtAddressCells root_offset)) l;
          l = l @ [Fdt (FdtAddressCells root_offset)];
          size_cells = answer ext (Fdt (FdtSizeCells root_offset)) l;
          l = l @ [Fdt (FdtSizeCells root_offset)];
          this = answer ext (Fdt (FdtAddSubnode root_offset ''memory'')) l;
          l = l @ [Fdt (FdtAddSubnode root_offset ''memory'')]
      in if this < 0 then Inl (ErrReturn this)
         else seq_steps
           [or_err ext (Fdt (AppendString this ''device_type'' ''memory'')),
            or_err ext (Fdt (AppendUint this ''reg'' base address_cells)),
            or_err ext (Fdt (AppendUint this ''reg'' sz size_cells))] l)"

text \<open>\<^verbatim>\<open>snprintf\<close> with the format \<^verbatim>\<open>%s maxcpus=%u\<close> into a buffer of a size.\<close>

fun decimal :: "nat \<Rightarrow> string" where
  "decimal n = (if n < 10 then [char_of (48 + n)] else decimal (n div 10) @ [char_of (48 + n mod 10)])"

declare decimal.simps [simp del]

definition snprintf :: "nat \<Rightarrow> string \<Rightarrow> string" where
  "snprintf sz s = take (sz - 1) s"

definition updated_bootargs_len :: "string \<Rightarrow> nat" where
  "updated_bootargs_len bootargs = length bootargs + 9 + (3 * 4 + 1)"

definition updated_bootargs :: "string \<Rightarrow> nat \<Rightarrow> string" where
  "updated_bootargs bootargs maxcpus = snprintf (updated_bootargs_len bootargs) (bootargs @ '' maxcpus='' @ decimal maxcpus)"

text \<open>
  The variable \<^verbatim>\<open>err\<close> has no initial value; \<open>err0\<close> is what it happens to hold.  When
  the allocation fails, \<^verbatim>\<open>err\<close> is returned as it is.
\<close>

definition fdt_generate_chosen_node :: "arm_ext \<Rightarrow> int \<Rightarrow> string option \<Rightarrow> string \<Rightarrow> nat \<Rightarrow> arm_log \<Rightarrow> arm_log res" where
  "fdt_generate_chosen_node ext err0 stdout_path bootargs maxcpus l =
     (let root_offset = answer ext (Fdt (FdtPathOffset ''/'')) l;
          l = l @ [Fdt (FdtPathOffset ''/'')];
          this = answer ext (Fdt (FdtAddSubnode root_offset ''chosen'')) l;
          l = l @ [Fdt (FdtAddSubnode root_offset ''chosen'')];
          paths = (case stdout_path of None \<Rightarrow> [] | Some p \<Rightarrow> if p = '''' then [] else [p])
      in rbind (run_ops (\<lambda>p. seq_steps
                  [or_err ext (Fdt (AppendString this ''stdout-path'' p)),
                   or_err ext (Fdt (AppendString this ''linux,stdout-path'' p))]) paths l) (\<lambda>l.
         let err = (if paths = [] then err0 else 0)
         in if answer ext (Fdt AllocBootargs) l = 0
            then if err = 0 then Inr (l @ [Fdt AllocBootargs]) else Inl (ErrReturn err)
            else or_err ext (Fdt (AppendString this ''bootargs'' (updated_bootargs bootargs maxcpus))) (l @ [Fdt AllocBootargs])))"

definition fdt_append_chosen_node_with_initrd_info :: "arm_ext \<Rightarrow> u64 \<Rightarrow> u64 \<Rightarrow> arm_log \<Rightarrow> arm_log res" where
  "fdt_append_chosen_node_with_initrd_info ext base sz l =
     (let root_offset = answer ext (Fdt (FdtPathOffset ''/'')) l;
          l = l @ [Fdt (FdtPathOffset ''/'')];
          address_cells = answer ext (Fdt (FdtAddressCells root_offset)) l;
          l = l @ [Fdt (FdtAddressCells root_offset)];
          this = answer ext (Fdt (FdtPathOffset ''/chosen'')) l;
          l = l @ [Fdt (FdtPathOffset ''/chosen'')]
      in seq_steps
           [or_err ext (Fdt (AppendUint this ''linux,initrd-start'' base address_cells)),
            or_err ext (Fdt (AppendUint this ''linux,initrd-end'' (base + sz) address_cells))] l)"

text \<open>An error of one of these functions makes the caller return -1.\<close>

definition error_is_failure :: "(arm_log \<Rightarrow> arm_log res) \<Rightarrow> arm_log \<Rightarrow> arm_log res" where
  "error_is_failure f l = (case f l of Inl (ErrReturn e) \<Rightarrow> Inl (ErrReturn (-1)) | r \<Rightarrow> r)"

section \<open>The device tree\<close>

text \<open>
  The base: what CAmkES provides, or a file.  The number of bytes read is unsigned, so only 0 counts
  as a failure.
\<close>

definition vm_dtb_base :: "arm_config \<Rightarrow> arm_ext \<Rightarrow> arm_log \<Rightarrow> fdt_source \<times> arm_log" where
  "vm_dtb_base A ext l =
     (let l = l @ [Fdt IoFdt];
          fdt_ori = (if answer ext (Fdt FdtGet) l = 0 then FdtNull else FdtCamkes);
          l = l @ [Fdt FdtGet]
      in case dtb_base A of
           None \<Rightarrow> (fdt_ori, l)
         | Some path \<Rightarrow>
             if path = '''' then (fdt_ori, l)
             else let dtb_fd = answer ext (Fdt (OpenFile path)) l;
                      l = l @ [Fdt (OpenFile path)]
                  in if dtb_fd < 0 then (fdt_ori, l)
                     else let dtb_len = word_of_int (answer ext (Fdt ReadFile) l) :: u64;
                              l = l @ [Fdt ReadFile, Fdt CloseFile]
                          in (if dtb_len \<le> 0 then fdt_ori else FdtBaseBuffer, l))"

definition vm_dtb_generate :: "arm_config \<Rightarrow> arm_ext \<Rightarrow> fdt_source \<Rightarrow> arm_log \<Rightarrow> arm_log res" where
  "vm_dtb_generate A ext fdt_ori =
     seq_steps
       [call_nonzero (ErrReturn (-1)) ext (Fdt FdtgenNew),
        call_void (Fdt (KeepNodes (if keep_devices A \<noteq> [] then keep_devices A else plat_keep_devices A))),
        run_ops (\<lambda>n. call_void (Fdt (KeepSubtree fdt_ori n)))
          (if keep_subtrees A \<noteq> [] then keep_subtrees A else plat_keep_subtrees A),
        run_ops (\<lambda>n. call_void (Fdt (KeepSubtreeDisable fdt_ori n))) (plat_disable_subtrees A),
        call_void (Fdt (KeepNodesDisable (plat_disable A))),
        call_void (Fdt (KeepNodes (dtb_node_paths A))),
        \<lambda>l. let err = answer ext (Fdt (FdtgenGenerate fdt_ori)) l;
                l = l @ [Fdt (FdtgenGenerate fdt_ori), Fdt FdtgenFree]
            in if err \<noteq> 0 then Inl (ErrReturn (-1)) else Inr l,
        error_is_failure (fdt_generate_memory_node ext (ram_base A) (ram_size A))]"

definition vm_dtb_init :: "arm_config \<Rightarrow> arm_ext \<Rightarrow> arm_log \<Rightarrow> (fdt_source \<times> arm_log) res" where
  "vm_dtb_init A ext l =
     (let (fdt_ori, l) = vm_dtb_base A ext l
      in if \<not> generate_dtb A then Inr (fdt_ori, l)
         else rbind (vm_dtb_generate A ext fdt_ori l) (\<lambda>l. Inr (fdt_ori, l)))"

definition vm_dtb_finalize :: "arm_config \<Rightarrow> arm_ext \<Rightarrow> fdt_source \<Rightarrow> arm_log \<Rightarrow> arm_log res" where
  "vm_dtb_finalize A ext fdt_ori l =
     rbind (rassert (generate_dtb A)) (\<lambda>_.
     rbind (if pci_support A
            then let gic_offset = answer ext (Fdt (FdtGicOffset fdt_ori)) l;
                     l = l @ [Fdt (FdtGicOffset fdt_ori)]
                 in if gic_offset < 0 then Inl (ErrReturn (-1))
                    else let gic_phandle = answer ext (Fdt (FdtGetPhandle fdt_ori gic_offset)) l;
                             l = l @ [Fdt (FdtGetPhandle fdt_ori gic_offset)]
                         in if gic_phandle = 0 then Inl (ErrReturn (-1)) else or_fail ext (Fdt (FdtVpciNode gic_phandle)) l
            else Inr l)
       (call_void (Fdt FdtPack)))"

section \<open>Images\<close>

text \<open>
  Addresses that the library stores are read through pseudo-calls.  \<open>dtb0\<close> is what the variable
  \<^verbatim>\<open>dtb\<close>, which has no initial value, happens to hold: without a device tree it is
  passed to the guest.
\<close>

definition load_initrd :: "arm_config \<Rightarrow> arm_ext \<Rightarrow> arm_log \<Rightarrow> arm_log res" where
  "load_initrd A ext l =
     (if \<not> provide_initrd A then Inr l
      else let err = answer ext (LoadGuestModule (initrd_file A) (initrd_addr A)) l;
               l = l @ [LoadGuestModule (initrd_file A) (initrd_addr A)];
               initrd = answer ext ModulePaddr l;
               l = l @ [ModulePaddr]
           in if initrd = 0 \<or> err \<noteq> 0 then Inl (ErrReturn (-1))
              else if generate_dtb A
              then error_is_failure (fdt_append_chosen_node_with_initrd_info ext (initrd_addr A)
                     (word_of_int (answer ext ModuleSize l))) (l @ [ModuleSize])
              else Inr l)"

definition load_dtb :: "arm_config \<Rightarrow> arm_ext \<Rightarrow> fdt_source \<Rightarrow> u64 \<Rightarrow> arm_log \<Rightarrow> (u64 \<times> arm_log) res" where
  "load_dtb A ext fdt_ori dtb0 l =
     (if generate_dtb A
      then rbind (error_is_failure (vm_dtb_finalize A ext fdt_ori) l) (\<lambda>l.
           Inr (dtb_addr A, l @ [MarkAllocated (dtb_addr A), TouchRam (dtb_addr A)]))
      else if provide_dtb A
      then let err = answer ext (LoadGuestModule (dtb_file A) (dtb_addr A)) l;
               l = l @ [LoadGuestModule (dtb_file A) (dtb_addr A)];
               dtb = word_of_int (answer ext ModulePaddr l);
               l = l @ [ModulePaddr]
           in if dtb = 0 \<or> err \<noteq> 0 then Inl (ErrReturn (-1)) else Inr (dtb, l)
      else Inr (dtb0, l))"

definition load_vm_images :: "arm_config \<Rightarrow> arm_ext \<Rightarrow> fdt_source \<Rightarrow> int \<Rightarrow> u64 \<Rightarrow> arm_log \<Rightarrow> arm_log res" where
  "load_vm_images A ext fdt_ori err0 dtb0 l =
     (let err = answer ext (LoadGuestKernel (kernel_file A)) l;
          l = l @ [LoadGuestKernel (kernel_file A)];
          entry = word_of_int (answer ext KernelPaddr l) :: u64;
          l = l @ [KernelPaddr]
      in if entry = 0 \<or> err \<noteq> 0 then Inl (ErrReturn (-1))
         else rbind (if generate_dtb A
                     then error_is_failure (fdt_generate_chosen_node ext err0 (kernel_stdout A)
                            (kernel_bootcmdline A) (num_cpus A)) l
                     else Inr l) (\<lambda>l.
              rbind (load_initrd A ext l) (\<lambda>l.
              rbind (load_dtb A ext fdt_ori dtb0 l) (\<lambda>(dtb, l).
              or_fail ext (SetBootargs entry dtb) l))))"

text \<open>The bytes that are copied to a page of the guest at an offset of the generated device tree.\<close>

definition load_generated_dtb :: "u8 list \<Rightarrow> nat \<Rightarrow> nat \<Rightarrow> u8 list res" where
  "load_generated_dtb cookie offset sz =
     (if offset + sz \<le> length cookie then Inr (take sz (drop offset cookie)) else Inl OutOfBounds)"

section \<open>The monitor itself\<close>

text \<open>
  \<^verbatim>\<open>vmm_init\<close>: the allocator with its untyped memory, the address space, DMA, the
  endpoint and the interrupt server.  \<open>seL4_BadgeBits\<close> is the number of interrupts a thread of
  the server can serve.
\<close>

definition add_untypeds :: "arm_ext \<Rightarrow> alloc_call \<Rightarrow> (nat \<Rightarrow> alloc_call) \<Rightarrow> arm_log \<Rightarrow> arm_log res" where
  "add_untypeds ext query add l =
     (let cnt = answer ext (Alloc query) l;
          l = l @ [Alloc query]
      in if cnt < 0 then Inl (ErrReturn (-1))
         else run_ops (\<lambda>i. asserted ext (Alloc (add i))) [0..<nat cnt] l)"

definition num_irq_threads :: "arm_config \<Rightarrow> nat \<Rightarrow> nat" where
  "num_irq_threads A seL4_BadgeBits =
     (let num_pt_irqs = length (linux_pt_irqs A) + (case dtb_irqs A of None \<Rightarrow> 0 | Some irqs \<Rightarrow> length irqs)
      in (num_pt_irqs + seL4_BadgeBits - 1) div seL4_BadgeBits)"

definition irq_server_thread :: "arm_ext \<Rightarrow> nat \<Rightarrow> arm_log \<Rightarrow> arm_log res" where
  "irq_server_thread ext i l =
     (if 0 \<le> answer ext (Alloc (IrqServerThread i)) l then Inr (l @ [Alloc (IrqServerThread i)]) else Inl AssertFail)"

definition vmm_init :: "arm_config \<Rightarrow> nat \<Rightarrow> arm_ext \<Rightarrow> arm_log \<Rightarrow> arm_log res" where
  "vmm_init A seL4_BadgeBits ext =
     seq_steps
       [call_void (Alloc MakeSimple),
        call_nonzero AssertFail ext (Alloc BootstrapAllocman),
        add_untypeds ext UntypedCount AddUts,
        \<lambda>l. if dtb_untyped_count A then add_untypeds ext DtbUntypedCount AddDtbUts l else Inr l,
        asserted ext (Alloc BootstrapVspace),
        asserted ext (Alloc NewIoMapper),
        asserted ext (Alloc DmaManInit),
        asserted ext (Alloc AllocEndpoint),
        asserted ext (Alloc ArmMallocOps),
        call_nonzero AssertFail ext (Alloc IrqServerNew),
        run_ops (irq_server_thread ext) [0..<num_irq_threads A seL4_BadgeBits]]"

text \<open>
  A restart gives everything back: it revokes the initial untyped memory, deletes what is in slots
  that were empty at the start, and clears the static variables.
\<close>

definition reset_resources :: "arm_ext \<Rightarrow> nat \<Rightarrow> nat \<Rightarrow> nat \<Rightarrow> arm_log \<Rightarrow> arm_log res" where
  "reset_resources ext untyped_count last_valid_cap cnode_size_bits =
     seq_steps
       [call_void (Alloc MakeSimple),
        run_ops (\<lambda>i. asserted ext (Alloc (RevokeUntyped i))) [0..<untyped_count],
        run_ops (\<lambda>i. call_void (Alloc (DeleteSlot i))) [last_valid_cap + 1..<2 ^ cnode_size_bits],
        call_void (Alloc ZeroBss)]"

definition restart_vmm :: "arm_ext \<Rightarrow> nat \<Rightarrow> nat \<Rightarrow> nat \<Rightarrow> arm_log \<Rightarrow> arm_log res" where
  "restart_vmm ext untyped_count last_valid_cap cnode_size_bits l =
     rbind (checked ext (Alloc RebootCallbacks) l) (reset_resources ext untyped_count last_valid_cap cnode_size_bits)"

section \<open>Boot\<close>

text \<open>A call whose error the function returns itself, after which the processor halts in a loop.\<close>

definition halting :: "(arm_log \<Rightarrow> arm_log res) \<Rightarrow> arm_log \<Rightarrow> arm_log res" where
  "halting f l = (case f l of Inl (ErrReturn e) \<Rightarrow> Inl NoReturn | r \<Rightarrow> r)"

definition asserting :: "(arm_log \<Rightarrow> arm_log res) \<Rightarrow> arm_log \<Rightarrow> arm_log res" where
  "asserting f l = (case f l of Inl (ErrReturn e) \<Rightarrow> Inl AssertFail | r \<Rightarrow> r)"

definition install_iospaces :: "arm_config \<Rightarrow> arm_ext \<Rightarrow> arm_log \<Rightarrow> arm_log res" where
  "install_iospaces A ext l =
     (if \<not> tk1_smmu A then Inr l
      else if answer ext (Setup IospaceCount) l < 0 then Inl LogFatal
      else run_ops (\<lambda>i. checked ext (Setup (ArmAddIospace (int i)))) [0..<nat (answer ext (Setup IospaceCount) l)]
             (l @ [Setup IospaceCount]))"

definition configure_smmu :: "arm_config \<Rightarrow> arm_ext \<Rightarrow> arm_log \<Rightarrow> arm_log res" where
  "configure_smmu A ext l =
     (if arm_smmu A then seq_steps [checked ext (Setup AssignVspace), checked ext (Setup BindStreamId)] l else Inr l)"

definition arm_boot_monitor :: "arm_config \<Rightarrow> nat \<Rightarrow> arm_ext \<Rightarrow> arm_log \<Rightarrow> arm_log res" where
  "arm_boot_monitor A seL4_BadgeBits ext =
     seq_steps
       [or_err ext (Setup ArmPciInit),
        or_err ext (Setup ArmIoPortInit),
        asserting (vmm_init A seL4_BadgeBits ext),
        asserted ext (Setup ArmVmInit),
        asserted ext (Setup RegUnhandledMemFault),
        asserted ext (Setup RegNotification),
        install_iospaces A ext,
        configure_smmu A ext,
        asserted ext (Setup ArmCreateIrqController),
        \<lambda>l. if smc_calls A then asserted ext (Setup RegSmcHandler) l else Inr l,
        run_ops (\<lambda>i. call_nonzero AssertFail ext (Setup ArmCreateVcpu)) [0..<num_cpus A],
        \<lambda>l. if generate_dtb A then or_fail ext (Fdt FdtVcpuNode) l else Inr l,
        or_fail ext (Setup AssignVcpuTarget)]"

definition arm_main_continued :: "arm_config \<Rightarrow> nat \<Rightarrow> int \<Rightarrow> u64 \<Rightarrow> arm_ext \<Rightarrow> arm_log res" where
  "arm_main_continued A seL4_BadgeBits err0 dtb0 ext =
     rbind (seq_steps
       [call_void (Setup RestartCallback),
        call_void (Setup ArmInstallFileserver),
        asserted ext (Setup BindNotification)] []) (\<lambda>l.
     rbind (vm_dtb_init A ext l) (\<lambda>(fdt_ori, l).
     seq_steps
       [arm_boot_monitor A seL4_BadgeBits ext,
        route_irqs A ext,
        halting (install_vm_devices A ext),
        halting (load_vm_images A ext fdt_ori err0 dtb0),
        or_fail ext (Setup StartVcpu)] l))"

text \<open>The number of processors of the guest, from the optional attribute.\<close>

definition arm_run_num_vcpus :: "int option \<Rightarrow> int \<Rightarrow> int" where
  "arm_run_num_vcpus num_vcpus max_num_nodes =
     (case num_vcpus of
        None \<Rightarrow> 1
      | Some n \<Rightarrow> if max_num_nodes < n then max_num_nodes else if n \<le> 0 then 1 else n)"

section \<open>What a boot of the ARM monitor has done\<close>

abbreviation starts :: arm_call where "starts \<equiv> Setup StartVcpu"

lemma performs_or_err: "c \<noteq> s \<Longrightarrow> performs s {c} (or_err ext c)"
  by (auto simp: performs_def or_err_def split: if_splits)

lemma performs_recode:
  "performs s R f \<Longrightarrow> performs s R (error_is_failure f)"
  "performs s R f \<Longrightarrow> performs s R (halting f)"
  "performs s R f \<Longrightarrow> performs s R (asserting f)"
  by (auto simp: performs_def error_is_failure_def halting_def asserting_def split: sum.splits fault.splits)

lemma performs_log: "starts \<notin> set d \<Longrightarrow> performs starts R f \<Longrightarrow> performs starts R (\<lambda>l. f (l @ d))"
  unfolding performs_def
proof (intro allI impI)
  fix l l'
  assume d: "starts \<notin> set d" and f: "\<forall>l l'. f l = Inr l' \<longrightarrow> (\<exists>d. l' = l @ d \<and> R \<subseteq> set d \<and> starts \<notin> set d)"
    and l: "f (l @ d) = Inr l'"
  from f l obtain e where "l' = (l @ d) @ e" "R \<subseteq> set e" "starts \<notin> set e" by blast
  then show "\<exists>d. l' = l @ d \<and> R \<subseteq> set d \<and> starts \<notin> set d" using d by (intro exI [of _ "d @ e"]) auto
qed

lemma performs_answer: "(\<And>x. performs s R (f x)) \<Longrightarrow> performs s R (\<lambda>l. f (g l) l)"
  by (auto simp: performs_def)

definition routed :: "arm_config \<Rightarrow> int \<Rightarrow> arm_call set" where
  "routed A n = {VmRegisterIrq n, ServerRegisterIrq n
     (case (case custom_irq_handler A of None \<Rightarrow> None | Some f \<Rightarrow> f n) of None \<Rightarrow> DefaultHandler | Some h \<Rightarrow> CustomHandler h)}"

lemma performs_route_irq: "performs starts (routed A n) (route_irq A ext n)"
  by (auto simp: performs_def route_irq_def routed_def Let_def call_nonzero_def rbind_eq_Inr split: if_splits)

definition all_irqs :: "arm_config \<Rightarrow> int list" where
  "all_irqs A = linux_pt_irqs A @ (case dtb_irqs A of None \<Rightarrow> [] | Some irqs \<Rightarrow> irqs)"

lemma performs_route_irqs: "performs starts (\<Union>n \<in> set (all_irqs A). routed A n) (route_irqs A ext)"
proof -
  have r: "performs starts (\<Union>n \<in> set ns. routed A n) (run_ops (route_irq A ext) ns)" for ns
    by (intro performs_run_ops performs_route_irq)
  have d: "performs starts (\<Union>n \<in> set (case dtb_irqs A of None \<Rightarrow> [] | Some irqs \<Rightarrow> irqs). routed A n)
      (\<lambda>l. case dtb_irqs A of None \<Rightarrow> Inr l | Some irqs \<Rightarrow> run_ops (route_irq A ext) irqs l)"
    using r performs_Inr by (cases "dtb_irqs A") auto
  show ?thesis
    using performs_then [OF r d, of "linux_pt_irqs A"] unfolding route_irqs_def all_irqs_def by (simp add: UN_Un)
qed

lemma performs_install_vm_devices:
  "performs starts (InitModule ` set (vmm_modules A)) (install_vm_devices A ext)"
proof -
  have m: "performs starts (\<Union>m \<in> set (vmm_modules A). {InitModule m}) (run_ops (\<lambda>m. call_void (InitModule m)) (vmm_modules A))"
    by (intro performs_run_ops performs_call) simp
  have v: "performs starts {} (\<lambda>l. if pci_support A then or_fail ext InstallVpci l else Inr l)"
    by (intro performs_intros) simp
  show ?thesis using performs_then [OF v m] unfolding install_vm_devices_def by (simp add: UNION_singleton_eq_range)
qed

lemma performs_memory_node: "performs starts {} (fdt_generate_memory_node ext base sz)"
  by (auto simp: performs_def fdt_generate_memory_node_def Let_def or_err_def rbind_eq_Inr split: if_splits)

lemma performs_chosen_node: "performs starts {} (fdt_generate_chosen_node ext err0 p b n)"
  by (auto simp: performs_def fdt_generate_chosen_node_def Let_def or_err_def rbind_eq_Inr split: if_splits option.splits)

lemma performs_initrd_info: "performs starts {} (fdt_append_chosen_node_with_initrd_info ext base sz)"
  by (auto simp: performs_def fdt_append_chosen_node_with_initrd_info_def Let_def or_err_def rbind_eq_Inr split: if_splits)

lemma performs_finalize: "performs starts {} (vm_dtb_finalize A ext fdt)"
  by (auto simp: performs_def vm_dtb_finalize_def Let_def call_zero_def call_void_def rassert_def rbind_eq_Inr split: if_splits)

lemma vm_dtb_base_extends: "vm_dtb_base A ext l = (f, l') \<Longrightarrow> \<exists>d. l' = l @ d \<and> starts \<notin> set d"
  by (auto simp: vm_dtb_base_def Let_def split: option.splits if_splits)

lemma performs_generate: "performs starts {} (vm_dtb_generate A ext fdt)"
proof -
  have k: "performs starts {} (run_ops (\<lambda>n. call_void (Fdt (f n))) ns)" for f ns
    by (intro performs_intros) simp
  have g: "performs starts {} (\<lambda>l. if answer ext (Fdt (FdtgenGenerate fdt)) l \<noteq> 0 then Inl (ErrReturn (-1))
        else Inr (l @ [Fdt (FdtgenGenerate fdt), Fdt FdtgenFree]))"
    by (auto simp: performs_def Let_def split: if_splits)
  have "performs starts (\<Union>(set [{}, {}, {}, {}, {}, {}, {}, {}])) (vm_dtb_generate A ext fdt)"
    unfolding vm_dtb_generate_def
    by (rule performs_seq) (simp add: Let_def performs_any_call k g performs_recode performs_memory_node)
  then show ?thesis by simp
qed

lemma performs_D: "performs s R f \<Longrightarrow> f l = Inr l' \<Longrightarrow> \<exists>d. l' = l @ d \<and> R \<subseteq> set d \<and> s \<notin> set d"
  unfolding performs_def by blast

lemma performs_load_initrd: "performs starts {} (load_initrd A ext)"
proof -
  have "\<exists>d. l' = l @ d \<and> starts \<notin> set d" if "load_initrd A ext l = Inr l'" for l l'
    using that performs_D [OF performs_recode(1) [OF performs_initrd_info]]
    by (fastforce simp: load_initrd_def Let_def split: if_splits)
  then show ?thesis by (simp add: performs_def)
qed

lemma load_dtb_extends: "load_dtb A ext fdt dtb0 l = Inr (dtb, l') \<Longrightarrow> \<exists>d. l' = l @ d \<and> starts \<notin> set d"
  using performs_D [OF performs_recode(1) [OF performs_finalize]]
  by (fastforce simp: load_dtb_def Let_def rbind_eq_Inr split: if_splits)

definition boots_kernel :: "arm_config \<Rightarrow> arm_log \<Rightarrow> bool" where
  "boots_kernel A d \<longleftrightarrow> (\<exists>pre entry dtb. d = LoadGuestKernel (kernel_file A) # KernelPaddr # pre @ [SetBootargs entry dtb] \<and> entry \<noteq> 0)"

lemma load_vm_images_extends:
  assumes "load_vm_images A ext fdt err0 dtb0 l = Inr l'"
  shows "\<exists>d. l' = l @ d \<and> boots_kernel A d \<and> starts \<notin> set d"
proof -
  define l1 where "l1 = l @ [LoadGuestKernel (kernel_file A), KernelPaddr]"
  define entry where "entry = (word_of_int (answer ext KernelPaddr (l @ [LoadGuestKernel (kernel_file A)])) :: u64)"
  have ch: "performs starts {} (\<lambda>l. if generate_dtb A then error_is_failure (fdt_generate_chosen_node ext err0
      (kernel_stdout A) (kernel_bootcmdline A) (num_cpus A)) l else Inr l)"
    by (intro performs_if performs_Inr performs_recode performs_chosen_node)
  obtain l2 l3 l4 dtb where e: "entry \<noteq> 0" and
    l2: "(if generate_dtb A then error_is_failure (fdt_generate_chosen_node ext err0
      (kernel_stdout A) (kernel_bootcmdline A) (num_cpus A)) l1 else Inr l1) = Inr l2" and
    l3: "load_initrd A ext l2 = Inr l3" and l4: "load_dtb A ext fdt dtb0 l3 = Inr (dtb, l4)" and
    l': "or_fail ext (SetBootargs entry dtb) l4 = Inr l'"
    using assms unfolding load_vm_images_def Let_def
    by (auto simp: rbind_eq_Inr l1_def entry_def split: if_splits)
  obtain a where a: "l2 = l1 @ a" "starts \<notin> set a" using performs_D [OF ch l2] by auto
  obtain b where b: "l3 = l2 @ b" "starts \<notin> set b" using performs_D [OF performs_load_initrd l3] by auto
  obtain c where c: "l4 = l3 @ c" "starts \<notin> set c" using load_dtb_extends [OF l4] by auto
  have "l' = l @ (LoadGuestKernel (kernel_file A) # KernelPaddr # (a @ b @ c) @ [SetBootargs entry dtb])"
    using l' a b c by (simp add: call_zero_def l1_def split: if_splits)
  then show ?thesis
    using a b c e unfolding boots_kernel_def
    by (intro exI [of _ "LoadGuestKernel (kernel_file A) # KernelPaddr # (a @ b @ c) @ [SetBootargs entry dtb]"]) auto
qed

lemma performs_load_vm_images:
  "performs starts {LoadGuestKernel (kernel_file A)} (load_vm_images A ext fdt err0 dtb0)"
  unfolding performs_def using load_vm_images_extends by (fastforce simp: boots_kernel_def)

section \<open>The monitor's own set-up\<close>

lemma performs_irq_threads:
  "performs starts ((\<lambda>i. Alloc (IrqServerThread i)) ` {0..<n}) (run_ops (irq_server_thread ext) [0..<n])"
proof -
  have "performs starts {Alloc (IrqServerThread i)} (irq_server_thread ext i)" for i
    by (auto simp: performs_def irq_server_thread_def split: if_splits)
  then have "performs starts (\<Union>i \<in> set [0..<n]. {Alloc (IrqServerThread i)}) (run_ops (irq_server_thread ext) [0..<n])"
    by (intro performs_run_ops)
  then show ?thesis by (simp add: UNION_singleton_eq_range)
qed

lemma performs_add_untypeds: "performs starts {} (add_untypeds ext query add)"
proof -
  have "performs starts {} (run_ops (\<lambda>i. asserted ext (Alloc (add i))) is)" for "is"
    by (intro performs_intros) simp
  then have "\<exists>d. l' = l @ d \<and> starts \<notin> set d" if "add_untypeds ext query add l = Inr l'" for l l'
    using that unfolding add_untypeds_def Let_def by (fastforce dest: performs_D split: if_splits)
  then show ?thesis by (simp add: performs_def)
qed

lemma performs_vmm_init:
  "performs starts ({Alloc BootstrapAllocman, Alloc IrqServerNew} \<union> (\<lambda>i. Alloc (IrqServerThread i)) ` {0..<num_irq_threads A n}) (vmm_init A n ext)"
proof -
  have d: "performs starts {} (\<lambda>l. if dtb_untyped_count A then add_untypeds ext DtbUntypedCount AddDtbUts l else Inr l)"
    by (intro performs_if performs_Inr performs_add_untypeds)
  have "performs starts (\<Union>(set [{}, {Alloc BootstrapAllocman}, {}, {}, {}, {}, {}, {}, {}, {Alloc IrqServerNew},
      (\<lambda>i. Alloc (IrqServerThread i)) ` {0..<num_irq_threads A n}])) (vmm_init A n ext)"
    unfolding vmm_init_def
    by (rule performs_seq)
      (simp add: performs_any_call performs_call performs_add_untypeds d performs_irq_threads)
  then show ?thesis by (rule performs_mono) auto
qed

definition arm_monitor_calls :: "arm_call set" where
  "arm_monitor_calls = Setup ` {ArmPciInit, ArmIoPortInit, ArmVmInit, RegUnhandledMemFault, RegNotification,
     ArmCreateIrqController, AssignVcpuTarget}"

lemma performs_arm_monitor:
  "performs starts (arm_monitor_calls \<union> (\<lambda>i. Alloc (IrqServerThread i)) ` {0..<num_irq_threads A n}) (arm_boot_monitor A n ext)"
proof -
  let ?T = "(\<lambda>i. Alloc (IrqServerThread i)) ` {0..<num_irq_threads A n}"
  have v: "performs starts ?T (asserting (vmm_init A n ext))"
    by (rule performs_mono [OF performs_recode(3) [OF performs_vmm_init]]) auto
  have io: "performs starts {} (install_iospaces A ext)"
  proof -
    have "performs starts {} (run_ops (\<lambda>i. checked ext (Setup (ArmAddIospace (int i)))) is)" for "is"
      by (intro performs_intros) simp
    then have "\<exists>d. l' = l @ d \<and> starts \<notin> set d" if "install_iospaces A ext l = Inr l'" for l l'
      using that unfolding install_iospaces_def by (fastforce dest: performs_D split: if_splits)
    then show ?thesis by (simp add: performs_def)
  qed
  have sm: "performs starts {} (configure_smmu A ext)"
  proof -
    have "performs starts (\<Union>(set [{}, {}])) (seq_steps [checked ext (Setup AssignVspace), checked ext (Setup BindStreamId)])"
      by (rule performs_seq) (simp add: performs_any_call)
    then show ?thesis unfolding configure_smmu_def by (intro performs_if performs_Inr) (simp del: seq_steps.simps)
  qed
  have sc: "performs starts {} (\<lambda>l. if smc_calls A then asserted ext (Setup RegSmcHandler) l else Inr l)"
    by (intro performs_intros) simp
  have cp: "performs starts {} (run_ops (\<lambda>i. call_nonzero AssertFail ext (Setup ArmCreateVcpu)) [0..<num_cpus A])"
    by (intro performs_intros) simp
  have fd: "performs starts {} (\<lambda>l. if generate_dtb A then or_fail ext (Fdt FdtVcpuNode) l else Inr l)"
    by (intro performs_intros) simp
  have oe: "performs starts {Setup c} (or_err ext (Setup c))" if "c \<noteq> StartVcpu" for c
    using that by (intro performs_or_err) simp
  have "performs starts (\<Union>(set [{Setup ArmPciInit}, {Setup ArmIoPortInit}, ?T, {Setup ArmVmInit}, {Setup RegUnhandledMemFault},
      {Setup RegNotification}, {}, {}, {Setup ArmCreateIrqController}, {}, {}, {}, {Setup AssignVcpuTarget}])) (arm_boot_monitor A n ext)"
    unfolding arm_boot_monitor_def
    by (rule performs_seq) (simp add: oe v performs_call io sm sc cp fd)
  then show ?thesis by (rule performs_mono) (auto simp: arm_monitor_calls_def)
qed

definition arm_required :: "arm_config \<Rightarrow> nat \<Rightarrow> arm_call set" where
  "arm_required A seL4_BadgeBits =
     {Setup RestartCallback, Setup ArmInstallFileserver, Setup BindNotification} \<union> arm_monitor_calls \<union>
     (\<lambda>i. Alloc (IrqServerThread i)) ` {0..<num_irq_threads A seL4_BadgeBits} \<union>
     (\<Union>n \<in> set (all_irqs A). routed A n) \<union> InitModule ` set (vmm_modules A) \<union> {LoadGuestKernel (kernel_file A)}"

lemma vm_dtb_init_extends:
  assumes "vm_dtb_init A ext l = Inr (fdt, l2)"
  shows "\<exists>b. l2 = l @ b \<and> starts \<notin> set b"
proof -
  obtain m where m: "vm_dtb_base A ext l = (fdt, m)" "generate_dtb A \<longrightarrow> vm_dtb_generate A ext fdt m = Inr l2" "\<not> generate_dtb A \<longrightarrow> l2 = m"
    using assms by (cases "vm_dtb_base A ext l") (auto simp: vm_dtb_init_def rbind_eq_Inr split: if_splits)
  obtain d where d: "m = l @ d" "starts \<notin> set d" using vm_dtb_base_extends [OF m(1)] by auto
  show ?thesis
  proof (cases "generate_dtb A")
    case True
    then obtain e where "l2 = m @ e" "starts \<notin> set e" using performs_D [OF performs_generate] m(2) by blast
    then show ?thesis using d by simp
  qed (use d m(3) in simp)
qed

text \<open>
  The guest of the ARM monitor is started once, at the end of a boot that got through.  By
  then the event and fault callbacks are registered, the interrupt controller exists, the interrupt
  server has its threads, every interrupt of the configuration and of the device tree is registered
  with the guest's controller and with the server, every module is initialised and the kernel is
  loaded; the last thing done before the start is to set the boot arguments, with an entry point
  that is not null.
\<close>

theorem arm_boot_order:
  assumes "arm_main_continued A n err0 dtb0 ext = Inr l"
  shows "\<exists>pre entry dtb. l = pre @ [SetBootargs entry dtb, Setup StartVcpu] \<and> Setup StartVcpu \<notin> set pre \<and>
    arm_required A n \<subseteq> set pre \<and> entry \<noteq> 0"
proof -
  have s: "performs starts (\<Union>(set [{Setup RestartCallback}, {Setup ArmInstallFileserver}, {Setup BindNotification}]))
      (seq_steps [call_void (Setup RestartCallback), call_void (Setup ArmInstallFileserver), asserted ext (Setup BindNotification)])"
    by (rule performs_seq) (simp add: performs_call)
  obtain l1 fdt l2 l3 l4 l5 l6 where
    l1: "seq_steps [call_void (Setup RestartCallback), call_void (Setup ArmInstallFileserver), asserted ext (Setup BindNotification)] [] = Inr l1"
    and l2: "vm_dtb_init A ext l1 = Inr (fdt, l2)" and l3: "arm_boot_monitor A n ext l2 = Inr l3"
    and l4: "route_irqs A ext l3 = Inr l4" and l5: "halting (install_vm_devices A ext) l4 = Inr l5"
    and l6: "halting (load_vm_images A ext fdt err0 dtb0) l5 = Inr l6" and l: "or_fail ext (Setup StartVcpu) l6 = Inr l"
    using assms unfolding arm_main_continued_def by (auto simp: rbind_eq_Inr)
  obtain a where a: "l1 = a" "{Setup RestartCallback, Setup ArmInstallFileserver, Setup BindNotification} \<subseteq> set a" "starts \<notin> set a"
    using performs_D [OF s l1] by auto
  obtain b where b: "l2 = l1 @ b" "starts \<notin> set b" using vm_dtb_init_extends [OF l2] by blast
  obtain c where c: "l3 = l2 @ c" "arm_monitor_calls \<union> (\<lambda>i. Alloc (IrqServerThread i)) ` {0..<num_irq_threads A n} \<subseteq> set c" "starts \<notin> set c"
    using performs_D [OF performs_arm_monitor l3] by auto
  obtain d where d: "l4 = l3 @ d" "(\<Union>n \<in> set (all_irqs A). routed A n) \<subseteq> set d" "starts \<notin> set d"
    using performs_D [OF performs_route_irqs l4] by auto
  obtain e where e: "l5 = l4 @ e" "InitModule ` set (vmm_modules A) \<subseteq> set e" "starts \<notin> set e"
    using performs_D [OF performs_recode(2) [OF performs_install_vm_devices] l5] by auto
  have "load_vm_images A ext fdt err0 dtb0 l5 = Inr l6"
    using l6 by (auto simp: halting_def split: sum.splits fault.splits)
  then obtain f where f: "l6 = l5 @ f" "boots_kernel A f" "starts \<notin> set f" using load_vm_images_extends by blast
  then obtain pre entry dtb where k: "f = LoadGuestKernel (kernel_file A) # KernelPaddr # pre @ [SetBootargs entry dtb]" "entry \<noteq> 0"
    by (auto simp: boots_kernel_def)
  let ?pre = "a @ b @ c @ d @ e @ LoadGuestKernel (kernel_file A) # KernelPaddr # pre"
  have "l = ?pre @ [SetBootargs entry dtb, Setup StartVcpu]"
    using l a b c d e f k by (simp add: call_zero_def split: if_splits)
  moreover have "starts \<notin> set ?pre" using a b c d e f k by auto
  moreover have "arm_required A n \<subseteq> set ?pre"
    using a(2) c(2) d(2) e(2) by (auto simp: arm_required_def)
  ultimately show ?thesis using k(2) by blast
qed

definition sample_arm :: arm_config where
  "sample_arm = \<lparr>dtb_base = None, generate_dtb = False, provide_dtb = True, provide_initrd = False,
     ram_base = 0x40000000, ram_size = 0x10000000, kernel_file = ''linux'', initrd_file = '''', initrd_addr = 0,
     dtb_file = ''linux-dtb'', dtb_addr = 0x4f000000, kernel_stdout = None, kernel_bootcmdline = '''',
     pci_support = False, tk1_smmu = False, arm_smmu = False, smc_calls = False, num_cpus = 1,
     linux_pt_irqs = [27], dtb_irqs = Some [33], custom_irq_handler = Some get_custom_irq_handler, vmm_modules = [''init_ram''],
     keep_devices = [], plat_keep_devices = [], keep_subtrees = [], plat_keep_subtrees = [], plat_disable_subtrees = [],
     plat_disable = [], dtb_node_paths = [], dtb_untyped_count = False\<rparr>"

text \<open>Libraries that succeed: the calls that must not answer 0 answer with an address.\<close>

definition sample_arm_ext :: arm_ext where
  "sample_arm_ext n c =
     (case c of
        Alloc BootstrapAllocman \<Rightarrow> 1 | Alloc IrqServerNew \<Rightarrow> 1 | Alloc UntypedCount \<Rightarrow> 2 | Setup ArmCreateVcpu \<Rightarrow> 1
      | IrqToken q \<Rightarrow> 1 | KernelPaddr \<Rightarrow> 0x40008000 | ModulePaddr \<Rightarrow> 0x4f000000 | _ \<Rightarrow> 0)"

lemma sample_arm_boots: "\<exists>l. arm_main_continued sample_arm 64 0 0 sample_arm_ext = Inr l"
  by (simp add: arm_main_continued_def vm_dtb_init_def vm_dtb_base_def Let_def sample_arm_def sample_arm_ext_def
      call_void_def call_zero_def call_nonzero_def answer_def arm_boot_monitor_def or_err_def asserting_def vmm_init_def
      add_untypeds_def upt_rec num_irq_threads_def irq_server_thread_def install_iospaces_def configure_smmu_def
      route_irqs_def route_irq_def get_custom_irq_handler_def halting_def install_vm_devices_def load_vm_images_def
      load_initrd_def load_dtb_def)

theorem arm_boot_order_witness:
  "\<exists>l pre entry dtb. arm_main_continued sample_arm 64 0 0 sample_arm_ext = Inr l \<and>
     l = pre @ [SetBootargs entry dtb, Setup StartVcpu] \<and>
     ServerRegisterIrq 33 (CustomHandler vcombiner_irq_handler) \<in> set pre"
proof -
  obtain l where l: "arm_main_continued sample_arm 64 0 0 sample_arm_ext = Inr l" using sample_arm_boots by blast
  have "ServerRegisterIrq 33 (CustomHandler vcombiner_irq_handler) \<in> arm_required sample_arm 64"
    by (simp add: arm_required_def all_irqs_def routed_def sample_arm_def get_custom_irq_handler_def)
  then show ?thesis using arm_boot_order [OF l] l by blast
qed

text \<open>
  The interrupt server has a thread for every interrupt: the badges of its threads are enough
  for the interrupts of the configuration and of the device tree together, and one thread fewer
  would not be.
\<close>

theorem irq_threads_suffice:
  assumes "0 < seL4_BadgeBits"
  shows "length (all_irqs A) \<le> num_irq_threads A seL4_BadgeBits * seL4_BadgeBits \<and>
    num_irq_threads A seL4_BadgeBits * seL4_BadgeBits < length (all_irqs A) + seL4_BadgeBits"
proof (rule conjI)
  have n: "num_irq_threads A seL4_BadgeBits = (length (all_irqs A) + seL4_BadgeBits - 1) div seL4_BadgeBits"
    by (cases "dtb_irqs A") (simp_all add: num_irq_threads_def all_irqs_def Let_def)
  have "(length (all_irqs A) + seL4_BadgeBits - 1) div seL4_BadgeBits * seL4_BadgeBits \<le> length (all_irqs A) + seL4_BadgeBits - 1"
    by (rule div_times_less_eq_dividend)
  then show "num_irq_threads A seL4_BadgeBits * seL4_BadgeBits < length (all_irqs A) + seL4_BadgeBits"
    unfolding n using assms by linarith
  let ?x = "length (all_irqs A) + seL4_BadgeBits - 1"
  have "?x < ?x div seL4_BadgeBits * seL4_BadgeBits + seL4_BadgeBits"
    using div_mult_mod_eq [of ?x seL4_BadgeBits] mod_less_divisor [OF assms, of ?x] by linarith
  then show "length (all_irqs A) \<le> num_irq_threads A seL4_BadgeBits * seL4_BadgeBits"
    unfolding n using assms by linarith
qed

theorem irq_threads_suffice_witness:
  "length (all_irqs sample_arm) \<le> num_irq_threads sample_arm 64 * 64"
  using irq_threads_suffice [of 64 sample_arm] by simp

section \<open>Boot arguments and restart\<close>

lemma decimal_length: "0 < k \<Longrightarrow> n < 10 ^ k \<Longrightarrow> length (decimal n) \<le> k"
proof (induction n arbitrary: k rule: decimal.induct)
  case (1 n)
  show ?case
  proof (cases "n < 10")
    case True
    then show ?thesis using 1(2) by (simp add: decimal.simps [of n])
  next
    case False
    then obtain j where j: "k = Suc j" "0 < j" using 1(2,3) by (cases k; cases "k - 1") auto
    have "n div 10 < 10 ^ j" using 1(3) j by (simp add: less_mult_imp_div_less mult.commute)
    then show ?thesis using 1(1) [OF False j(2)] False j by (simp add: decimal.simps [of n])
  qed
qed

text \<open>
  The buffer of the boot arguments is large enough: whatever the configured arguments and the
  number of processors, nothing is cut off.
\<close>

theorem bootargs_fit:
  assumes "maxcpus < 2 ^ 32"
  shows "updated_bootargs bootargs maxcpus = bootargs @ '' maxcpus='' @ decimal maxcpus"
proof -
  have "length (decimal maxcpus) \<le> 10" using assms by (intro decimal_length) simp_all
  then show ?thesis by (simp add: updated_bootargs_def snprintf_def updated_bootargs_len_def)
qed

theorem bootargs_fit_witness: "updated_bootargs ''quiet'' 4 = ''quiet maxcpus=4''"
  using bootargs_fit [of 4 "''quiet''"] by (simp add: decimal.simps char_of_def bit_0)

text \<open>
  A restart gives back everything.  If the reboot callbacks and the revocations succeed, every
  initial piece of untyped memory is revoked, then every slot that was empty at the start is
  deleted, and only then the static variables are cleared; nothing else is done.
\<close>

theorem restart_gives_back:
  assumes "\<And>n c. ext n c = 0"
  shows "restart_vmm ext m last_cap bits l = Inr (l @ Alloc RebootCallbacks # Alloc MakeSimple #
     map (\<lambda>i. Alloc (RevokeUntyped i)) [0..<m] @ map (\<lambda>i. Alloc (DeleteSlot i)) [last_cap + 1..<2 ^ bits] @ [Alloc ZeroBss])"
proof -
  have c: "checked ext c l = Inr (l @ [c])" "call_void c l = Inr (l @ [c])" for c :: arm_call and l
    by (simp_all add: call_zero_def call_void_def answer_def assms)
  have r: "run_ops (\<lambda>i. asserted ext (Alloc (f i))) is l = Inr (l @ map (\<lambda>i. Alloc (f i)) is)" for f :: "nat \<Rightarrow> alloc_call" and "is" l
    by (induction "is" arbitrary: l) (simp_all add: call_zero_def answer_def assms)
  have d: "run_ops (\<lambda>i. call_void (Alloc (f i))) is l = Inr (l @ map (\<lambda>i. Alloc (f i)) is)" for f :: "nat \<Rightarrow> alloc_call" and "is" l
    by (induction "is" arbitrary: l) (simp_all add: call_void_def)
  show ?thesis
    by (simp add: restart_vmm_def reset_resources_def r d c del: upt_Suc)
qed

section \<open>Static variables across a restart\<close>

text \<open>
  Memory as bytes at addresses.  A restart clears the static variables, from \<^verbatim>\<open>__bss_start\<close> to
  \<^verbatim>\<open>_bss_end__\<close>, but keeps what lies at four symbols of the C library, and returns the new end
  of the heap.
\<close>

record bss_symbols =
  bss_start :: nat
  bss_end :: nat
  at_sysinfo :: nat
  at_libc :: nat
  at_morecore_area :: nat
  at_morecore_size :: nat

definition save_bytes :: "nat \<Rightarrow> nat \<Rightarrow> (nat \<Rightarrow> u8) \<Rightarrow> u8 list" where
  "save_bytes a n m = map m [a..<a + n]"

definition put_bytes :: "nat \<Rightarrow> u8 list \<Rightarrow> (nat \<Rightarrow> u8) \<Rightarrow> nat \<Rightarrow> u8" where
  "put_bytes a bs m = (\<lambda>x. if a \<le> x \<and> x < a + length bs then bs ! (x - a) else m x)"

definition reset_bss :: "bss_symbols \<Rightarrow> nat \<Rightarrow> (nat \<Rightarrow> u8) \<Rightarrow> (nat \<Rightarrow> u8) \<times> nat" where
  "reset_bss B morecore_bytes m =
     (let save_libc = save_bytes (at_libc B) 34 m;
          save_sysinfo = save_bytes (at_sysinfo B) 4 m;
          save_morecore_area = save_bytes (at_morecore_area B) 4 m;
          save_morecore_size = save_bytes (at_morecore_size B) 4 m;
          m = put_bytes (bss_start B) (replicate (bss_end B - bss_start B) 0) m;
          m = put_bytes (at_libc B) save_libc m;
          m = put_bytes (at_sysinfo B) save_sysinfo m;
          m = put_bytes (at_morecore_area B) save_morecore_area m;
          m = put_bytes (at_morecore_size B) save_morecore_size m
      in (m, at_morecore_area B + morecore_bytes))"

definition kept_bytes :: "bss_symbols \<Rightarrow> nat set" where
  "kept_bytes B = {at_libc B..<at_libc B + 34} \<union> {at_sysinfo B..<at_sysinfo B + 4} \<union>
     {at_morecore_area B..<at_morecore_area B + 4} \<union> {at_morecore_size B..<at_morecore_size B + 4}"

lemma put_saved: "put_bytes a (save_bytes a n m) m' x = (if a \<le> x \<and> x < a + n then m x else m' x)"
  by (cases "a \<le> x \<and> x < a + n") (auto simp: put_bytes_def save_bytes_def)

text \<open>The symbols may lie anywhere, and may overlap: each kept byte has its value from before.\<close>

theorem reset_bss_exact:
  "fst (reset_bss B n m) x = (if x \<in> kept_bytes B then m x else if bss_start B \<le> x \<and> x < bss_end B then 0 else m x)"
  by (auto simp: reset_bss_def Let_def put_saved kept_bytes_def put_bytes_def [of "bss_start B"])

text \<open>
  Four bytes are kept of each variable but one.  Where these variables are eight bytes wide, on 64-bit
  platforms, their upper half is lost.
\<close>

definition word_at :: "(nat \<Rightarrow> u8) \<Rightarrow> nat \<Rightarrow> nat" where
  "word_at m a = (\<Sum>i<8. unat (m (a + i)) * 256 ^ i)"

theorem restart_truncates:
  assumes "bss_start B \<le> at_sysinfo B" "at_sysinfo B + 8 \<le> bss_end B"
    and "kept_bytes B \<inter> {at_sysinfo B + 4..<at_sysinfo B + 8} = {}"
  shows "word_at (fst (reset_bss B n m)) (at_sysinfo B) = word_at m (at_sysinfo B) mod 2 ^ 32"
proof -
  let ?m = "fst (reset_bss B n m)" and ?a = "at_sysinfo B"
  have low: "?m (?a + i) = m (?a + i)" if "i < 4" for i
    using that by (simp add: reset_bss_exact kept_bytes_def)
  have high: "?m (?a + i) = 0" if "4 \<le> i" "i < 8" for i
  proof -
    have "?a + i \<notin> kept_bytes B" using assms(3) that by (auto simp: disjoint_iff)
    then show ?thesis using assms(1,2) that by (simp add: reset_bss_exact)
  qed
  have sum4: "(\<Sum>i<4. g i) = g 0 + g 1 + g 2 + g 3" "(\<Sum>i<8. g i) = (\<Sum>i<4. g i) + (\<Sum>i<4. g (i + 4))" for g :: "nat \<Rightarrow> nat"
    by (simp_all add: eval_nat_numeral)
  have split: "word_at f ?a = (\<Sum>i<4. unat (f (?a + i)) * 256 ^ i) + 2 ^ 32 * (\<Sum>i<4. unat (f (?a + (i + 4))) * 256 ^ i)" for f
    unfolding word_at_def sum4(2) by (simp add: sum4(1))
  have small: "(\<Sum>i<4. unat (m (?a + i)) * 256 ^ i) < 2 ^ 32"
  proof -
    have "unat (m (?a + i)) < 256" for i using unsigned_less [of "m (?a + i)", where 'a = nat] by simp
    from this [of 0] this [of 1] this [of 2] this [of 3] show ?thesis unfolding sum4(1) by simp
  qed
  have "word_at ?m ?a = (\<Sum>i<4. unat (m (?a + i)) * 256 ^ i)"
    unfolding split using low high by simp
  then show ?thesis using small unfolding split [of m] by simp
qed

section \<open>What goes wrong\<close>

text \<open>
  A failed read selects an empty buffer.  The number of bytes read is kept in an unsigned
  variable, so the check for a failure misses the -1 of a failed read and the monitor uses the buffer
  it has not filled as the base of the device tree.
\<close>

theorem failed_read_selects_buffer:
  assumes "dtb_base A = Some path" "path \<noteq> ''''" "\<And>n. 0 \<le> ext n (Fdt (OpenFile path))" "\<And>n. ext n (Fdt ReadFile) = -1"
  shows "fst (vm_dtb_base A ext l) = FdtBaseBuffer"
  using assms by (simp add: vm_dtb_base_def Let_def answer_def not_less)

theorem failed_read_selects_buffer_witness:
  "fst (vm_dtb_base (sample_arm\<lparr>dtb_base := Some ''base.dtb''\<rparr>) (\<lambda>n c. if c = Fdt ReadFile then -1 else 3) []) = FdtBaseBuffer"
  using failed_read_selects_buffer [of "sample_arm\<lparr>dtb_base := Some ''base.dtb''\<rparr>" "''base.dtb''"
      "\<lambda>n c. if c = Fdt ReadFile then -1 else 3"] by simp

text \<open>
  Running out of memory loses the boot arguments without an error: if the buffer for them
  cannot be allocated after the console path was written, the node is reported as complete.
\<close>

theorem bootargs_lost_without_error:
  assumes "\<And>n s t. ext n (Fdt (AppendString s t p)) = 0" "\<And>n. ext n (Fdt AllocBootargs) = 0" "p \<noteq> ''''"
  shows "ok (fdt_generate_chosen_node ext err0 (Some p) bootargs maxcpus l) (\<lambda>l'.
     \<exists>d. l' = l @ d \<and> (\<nexists>node text. Fdt (AppendString node ''bootargs'' text) \<in> set d))"
  using assms by (simp add: fdt_generate_chosen_node_def Let_def or_err_def answer_def)

theorem bootargs_lost_without_error_witness:
  "ok (fdt_generate_chosen_node (\<lambda>n c. 0) 0 (Some ''/uart'') ''quiet'' 4 []) (\<lambda>l'.
     \<exists>d. l' = [] @ d \<and> (\<nexists>node text. Fdt (AppendString node ''bootargs'' text) \<in> set d))"
  by (rule bootargs_lost_without_error) simp_all

end
