(* ===== verification/Platforms.thy ===== *)
theory Platforms
  imports Vmm_Prelude
begin

text \<open>
  The platforms of the ARM monitor, \<^verbatim>\<open>VM_Arm/plat_include/*/plat/vmlinux.h\<close>: the interrupts of
  three of them, and for each the tables that say which interrupts and which nodes of the device
  tree a guest gets.  The monitor's boot, \<open>Arm_Boot\<close>, and its connections between guests,
  \<open>Arm_Modules\<close>, read these tables.
\<close>

section \<open>Interrupts\<close>

text \<open>TX1: an enumeration with explicit values, cut in two.\<close>

definition tx1_irqs_low :: "(string \<times> int) list" where
  "tx1_irqs_low =
    [(''INTERRUPT_VTIMER'', 27), (''INTERRUPT_PPI_15'', 31), (''INTERRUPT_TMR1'', 32),
     (''INTERRUPT_TMR2'', 33), (''INTERRUPT_RTC'', 34), (''INTERRUPT_CEC'', 35),
     (''INTERRUPT_SHR_SEM_INBOX_FULL'', 36), (''INTERRUPT_SHR_SEM_INBOX_EMPTY'', 37),
     (''INTERRUPT_SHR_SEM_OUTBOX_FULL'', 38), (''INTERRUPT_SHR_SEM_OUTBOX_EMPTY'', 39),
     (''INTERRUPT_NVJPEG'', 40), (''INTERRUPT_NVDEC'', 41), (''INTERRUPT_QUAD_SPI'', 42),
     (''INTERRUPT_DPAUX_INT1'', 43), (''INTERRUPT_SATA_RX_STAT'', 45), (''INTERRUPT_SDMMC1'', 46),
     (''INTERRUPT_SDMMC2'', 47), (''INTERRUPT_VGPIO_INT'', 48), (''INTERRUPT_VII12C_INT'', 49),
     (''INTERRUPT_SDMMC3'', 51), (''INTERRUPT_USB'', 52), (''INTERRUPT_USB2'', 53),
     (''INTERRUPT_SATA_CTL'', 55), (''INTERRUPT_PMC_INT'', 56), (''INTERRUPT_FC_INT'', 57),
     (''INTERRUPT_APB_DMA_CPU'', 58), (''INTERRUPT_ARB_SEM_GNT_COP'', 60),
     (''INTERRUPT_ARB_SEM_GNT_CPU'', 61), (''INTERRUPT_SDMMC4'', 63), (''INTERRUPT_GPIO1'', 64),
     (''INTERRUPT_GPIO2'', 65), (''INTERRUPT_GPIO3'', 66), (''INTERRUPT_GPIO4'', 67),
     (''INTERRUPT_UARTA'', 68), (''INTERRUPT_UARTB'', 69), (''INTERRUPT_I2C'', 70),
     (''INTERRUPT_USB3_HOST_INT'', 71), (''INTERRUPT_USB3_HOST_SMI'', 72), (''INTERRUPT_TMR3'', 73),
     (''INTERRUPT_TMR4'', 74), (''INTERRUPT_USB3_HOST_PME'', 75), (''INTERRUPT_USB3_DEV_HOST'', 76),
     (''INTERRUPT_ACTMON'', 77), (''INTERRUPT_UARTC'', 78), (''INTERRUPT_THERMAL'', 80),
     (''INTERRUPT_XUSB_PADCTL'', 81), (''INTERRUPT_TSEC'', 82), (''INTERRUPT_EDP'', 83),
     (''INTERRUPT_I2C5'', 85), (''INTERRUPT_GPIO5'', 87), (''INTERRUPT_USB3_DEV_SMI'', 88),
     (''INTERRUPT_USB3_DEV_PME'', 89), (''INTERRUPT_SE'', 90), (''INTERRUPT_SPI1'', 91),
     (''INTERRUPT_APB_DMA_COP'', 92), (''INTERRUPT_CLDVFS'', 94), (''INTERRUPT_I2C6'', 95),
     (''INTERRUPT_HOST1X_SYNCPT_COP'', 96), (''INTERRUPT_HOST1X_SYNCPT_CPU'', 97),
     (''INTERRUPT_HOST1X_GEN_COP'', 98), (''INTERRUPT_HOST1X_GEN_CPU'', 99), (''INTERRUPT_NVENC'', 100),
     (''INTERRUPT_VI'', 101), (''INTERRUPT_ISPB'', 102), (''INTERRUPT_ISP'', 103), (''INTERRUPT_VIC'', 104),
     (''INTERRUPT_DISPLAY'', 105), (''INTERRUPT_DISPLAYB'', 106), (''INTERRUPT_SOR1'', 107),
     (''INTERRUPT_SOR'', 108), (''INTERRUPT_MC'', 109), (''INTERRUPT_EMC'', 110), (''INTERRUPT_TSECB'', 112),
     (''INTERRUPT_HDA'', 113), (''INTERRUPT_SPI2'', 114), (''INTERRUPT_SPI3'', 115),
     (''INTERRUPT_I2C2'', 116), (''INTERRUPT_PMU_EXT'', 118), (''INTERRUPT_GPIO6'', 119),
     (''INTERRUPT_GPIO7'', 121), (''INTERRUPT_UARTD'', 122), (''INTERRUPT_I2C3'', 124),
     (''INTERRUPT_SPI4'', 125), (''INTERRUPT_DTV'', 128), (''INTERRUPT_PCIE_INT'', 130),
     (''INTERRUPT_PCIE_MSI'', 131), (''INTERRUPT_AVP_CACHE'', 133), (''INTERRUPT_APE_INT1'', 134),
     (''INTERRUPT_APE_INT0'', 135), (''INTERRUPT_APB_DMA_CH0'', 136), (''INTERRUPT_APB_DMA_CH1'', 137)]"

definition tx1_irqs_high :: "(string \<times> int) list" where
  "tx1_irqs_high =
    [(''INTERRUPT_APB_DMA_CH2'', 138), (''INTERRUPT_APB_DMA_CH3'', 139), (''INTERRUPT_APB_DMA_CH4'', 140),
     (''INTERRUPT_APB_DMA_CH5'', 141), (''INTERRUPT_APB_DMA_CH6'', 142), (''INTERRUPT_APB_DMA_CH7'', 143),
     (''INTERRUPT_APB_DMA_CH8'', 144), (''INTERRUPT_APB_DMA_CH9'', 145), (''INTERRUPT_APB_DMA_CH10'', 146),
     (''INTERRUPT_APB_DMA_CH11'', 147), (''INTERRUPT_APB_DMA_CH12'', 148), (''INTERRUPT_APB_DMA_CH13'', 149),
     (''INTERRUPT_APB_DMA_CH14'', 150), (''INTERRUPT_APB_DMA_CH15'', 151), (''INTERRUPT_I2C4'', 152),
     (''INTERRUPT_TMR5'', 153), (''INTERRUPT_WDT_CPU'', 155), (''INTERRUPT_WDT_AVP'', 156),
     (''INTERRUPT_GPIO8'', 157), (''INTERRUPT_CAR'', 158), (''INTERRUPT_APB_DMA_CH16'', 160),
     (''INTERRUPT_APB_DMA_CH17'', 161), (''INTERRUPT_APB_DMA_CH18'', 162), (''INTERRUPT_APB_DMA_CH19'', 163),
     (''INTERRUPT_APB_DMA_CH20'', 164), (''INTERRUPT_APB_DMA_CH21'', 165), (''INTERRUPT_APB_DMA_CH22'', 166),
     (''INTERRUPT_APB_DMA_CH23'', 167), (''INTERRUPT_APB_DMA_CH24'', 168), (''INTERRUPT_APB_DMA_CH25'', 169),
     (''INTERRUPT_APB_DMA_CH26'', 170), (''INTERRUPT_APB_DMA_CH27'', 171), (''INTERRUPT_APB_DMA_CH28'', 172),
     (''INTERRUPT_APB_DMA_CH29'', 173), (''INTERRUPT_APB_DMA_CH30'', 174), (''INTERRUPT_APB_DMA_CH31'', 175),
     (''INTERRUPT_CPU0_PMU_INTR'', 176), (''INTERRUPT_CPU1_PMU_INTR'', 177),
     (''INTERRUPT_CPU2_PMU_INTR'', 178), (''INTERRUPT_CPU3_PMU_INTR'', 179), (''INTERRUPT_SDMMC1_SYS'', 180),
     (''INTERRUPT_SDMMC2_SYS'', 181), (''INTERRUPT_SDMMC3_SYS'', 182), (''INTERRUPT_SDMMC4_SYS'', 183),
     (''INTERRUPT_TMR6'', 184), (''INTERRUPT_TMR7'', 185), (''INTERRUPT_TMR8'', 186),
     (''INTERRUPT_TMR9'', 187), (''INTERRUPT_TMR0'', 188), (''INTERRUPT_GPU'', 189),
     (''INTERRUPT_GPU_NONSTALL'', 190), (''DPAUX'', 191), (''INTERRUPT_MPCORE_AXIERRIRQ'', 192),
     (''INTERRUPT_MPCORE_INTERRIRQ'', 193), (''INTERRUPT_EVENT_GPIO_A'', 194),
     (''INTERRUPT_EVENT_GPIO_B'', 195), (''INTERRUPT_EVENT_GPIO_C'', 196), (''INTERRUPT_FLOW_RSN_CPU'', 200),
     (''INTERRUPT_FLOW_RSM_COP'', 201), (''INTERRUPT_TMR_SHARED'', 202), (''INTERRUPT_MPCORE_CTIIRQ0'', 203),
     (''INTERRUPT_MPCORE_CTIIRQ1'', 204), (''INTERRUPT_MPCORE_CTIIRQ2'', 205),
     (''INTERRUPT_MPCORE_CTIIRQ3'', 206), (''INTERRUPT_MSELECT_ERROR'', 207), (''INTERRUPT_TMR10'', 208),
     (''INTERRUPT_TMR11'', 209), (''INTERRUPT_TMR12'', 210), (''INTERRUPT_TMR13'', 211), (''maxIRQ'', 224)]"

text \<open>TX2: an enumeration whose values count up from the first pin of the controller, without the last one, \<^verbatim>\<open>maxIRQ\<close>.\<close>

definition GIC_LIC_INTID_BASE :: int where "GIC_LIC_INTID_BASE = 32"

definition tx2_irq_names :: "string list" where
  "tx2_irq_names =
    [''TX2_TOP_TKE_SHARED0'', ''TX2_TOP_TKE_SHARED1'', ''TX2_TOP_TKE_SHARED2'', ''TX2_TOP_TKE_SHARED3'',
     ''TX2_TOP_TKE_SHARED4'', ''TX2_TOP_TKE_SHARED5'', ''TX2_TOP_TKE_SHARED6'', ''TX2_TOP_TKE_SHARED7'',
     ''TX2_TOP_TKE_SHARED8'', ''TX2_TOP_TKE_SHARED9'', ''TX2_RTC'', ''TX2_LIC_GTE_0'', ''TX2_LIC_GTE_1'',
     ''TX2_AON_GTE'', ''TX2_BPMP_WDT_REMOTE'', ''TX2_SPE_WDT_REMOTE'', ''TX2_SCE_WDT_REMOTE'',
     ''TX2_TOP_WDT_REMOTE'', ''TX2_AOWDT_REMOTE'', ''TX2_RESERVED_19'', ''TX2_DSIA'', ''TX2_DSIB'',
     ''TX2_DSIC'', ''TX2_DSID'', ''TX2_RESERVED_24'', ''TX2_I2C'', ''TX2_I2C2'', ''TX2_I2C3'', ''TX2_I2C4'',
     ''TX2_I2C5'', ''TX2_I2C6'', ''TX2_I2C7'', ''TX2_I2C8'', ''TX2_I2C9'', ''TX2_I2C10'', ''TX2_QSPI'',
     ''TX2_SPI1'', ''TX2_SPI2'', ''TX2_SPI3'', ''TX2_SPI4'', ''TX2_CAN1_0'', ''TX2_CAN1_1'', ''TX2_CAN2_0'',
     ''TX2_CAN2_1'', ''TX2_UFSHC'', ''TX2_GPIO0_0'', ''TX2_GPIO0_1'', ''TX2_GPIO0_2'', ''TX2_GPIO1_0'',
     ''TX2_GPIO1_1'', ''TX2_GPIO1_2'', ''TX2_GPIO2_0'', ''TX2_GPIO2_1'', ''TX2_GPIO2_2'', ''TX2_GPIO3_0'',
     ''TX2_GPIO3_1'', ''TX2_GPIO3_2'', ''TX2_GPIO4_0'', ''TX2_GPIO4_1'', ''TX2_GPIO4_2'', ''TX2_AON_GPIO_0'',
     ''TX2_AON_GPIO_1'', ''TX2_SDMMC1'', ''TX2_SDMMC2'', ''TX2_SDMMC3'', ''TX2_SDMMC4'', ''TX2_SDMMC1_SYS'',
     ''TX2_SDMMC2_SYS'', ''TX2_SDMMC3_SYS'', ''TX2_SDMMC4_SYS'', ''TX2_GPU_STALL'', ''TX2_GPU_NONSTALL'',
     ''TX2_PCIE_INT'', ''TX2_PCIE_MSI'', ''TX2_PCIE_WAKE'', ''TX2_CENTRAL_DMA_CH0'', ''TX2_CENTRAL_DMA_CH1'',
     ''TX2_CENTRAL_DMA_CH2'', ''TX2_CENTRAL_DMA_CH3'', ''TX2_CENTRAL_DMA_CH4'', ''TX2_CENTRAL_DMA_CH5'',
     ''TX2_CENTRAL_DMA_CH6'', ''TX2_CENTRAL_DMA_CH7'', ''TX2_CENTRAL_DMA_CH8'', ''TX2_CENTRAL_DMA_CH9'',
     ''TX2_CENTRAL_DMA_CH10'', ''TX2_CENTRAL_DMA_CH11'', ''TX2_CENTRAL_DMA_CH12'', ''TX2_CENTRAL_DMA_CH13'',
     ''TX2_CENTRAL_DMA_CH14'', ''TX2_CENTRAL_DMA_CH15'', ''TX2_CENTRAL_DMA_CH16'', ''TX2_CENTRAL_DMA_CH17'',
     ''TX2_CENTRAL_DMA_CH18'', ''TX2_CENTRAL_DMA_CH19'', ''TX2_CENTRAL_DMA_CH20'', ''TX2_CENTRAL_DMA_CH21'',
     ''TX2_CENTRAL_DMA_CH22'', ''TX2_CENTRAL_DMA_CH23'', ''TX2_CENTRAL_DMA_CH24'', ''TX2_CENTRAL_DMA_CH25'',
     ''TX2_CENTRAL_DMA_CH26'', ''TX2_CENTRAL_DMA_CH27'', ''TX2_CENTRAL_DMA_CH28'', ''TX2_CENTRAL_DMA_CH29'',
     ''TX2_CENTRAL_DMA_CH30'', ''TX2_CENTRAL_DMA_CH31'', ''TX2_CENTRAL_DMA_COMMON'', ''TX2_SIMON0'',
     ''TX2_SIMON1'', ''TX2_SIMON2'', ''TX2_SIMON3'', ''TX2_UARTA'', ''TX2_UARTB'', ''TX2_UARTC'',
     ''TX2_UARTD'', ''TX2_UARTE'', ''TX2_UARTF'', ''TX2_UARTG'', ''TX2_NVCSI'']"

definition tx2_irqs :: "(string \<times> int) list" where
  "tx2_irqs = zip tx2_irq_names (map (\<lambda>i. GIC_LIC_INTID_BASE + int i) [0..<length tx2_irq_names])"

text \<open>TK1: macros, cut in two.\<close>

definition tk1_irqs_low :: "(string \<times> int) list" where
  "tk1_irqs_low =
    [(''INTERRUPT_VTIMER'', 27), (''INTERRUPT_TMR1'', 32), (''INTERRUPT_TMR2'', 33), (''INTERRUPT_RTC'', 34),
     (''INTERRUPT_CEC'', 35), (''INTERRUPT_SHR_SEM_INBOX_FULL'', 36),
     (''INTERRUPT_SHR_SEM_INBOX_EMPTY'', 37), (''INTERRUPT_SHR_SEM_OUTBOX_FULL'', 38),
     (''INTERRUPT_SHR_SEM_OUTBOX_EMPTY'', 39), (''INTERRUPT_VDE_UCQ'', 40),
     (''INTERRUPT_VDE_SYNC_TOKEN'', 41), (''INTERRUPT_VDE_BSEV'', 42), (''INTERRUPT_VDE_BSEA'', 43),
     (''INTERRUPT_VDE_SXE'', 44), (''INTERRUPT_SATA_RX_STAT'', 45), (''INTERRUPT_SDMMC1'', 46),
     (''INTERRUPT_SDMMC2'', 47), (''INTERRUPT_VDE'', 49), (''INTERRUPT_AVP_UCQ'', 50),
     (''INTERRUPT_SDMMC3'', 51), (''INTERRUPT_USB'', 52), (''INTERRUPT_USB2'', 53),
     (''INTERRUPT_SATA_CTL'', 55), (''INTERRUPT_VCP'', 57), (''INTERRUPT_APB_DMA_CPU'', 58),
     (''INTERRUPT_AHB_DMA_CPU'', 59), (''INTERRUPT_ARB_SEM_GNT_COP'', 60),
     (''INTERRUPT_ARB_SEM_GNT_CPU'', 61), (''INTERRUPT_OWR'', 62), (''INTERRUPT_SDMMC4'', 63),
     (''INTERRUPT_GPIO1'', 64), (''INTERRUPT_GPIO2'', 65), (''INTERRUPT_GPIO3'', 66),
     (''INTERRUPT_GPIO4'', 67), (''INTERRUPT_UARTA'', 68), (''INTERRUPT_UARTB'', 69),
     (''INTERRUPT_I2C'', 70), (''INTERRUPT_USB3_HOST'', 71), (''INTERRUPT_USB3_HOST_SMI'', 72),
     (''INTERRUPT_TMR3'', 73), (''INTERRUPT_TMR4'', 74), (''INTERRUPT_USB3_HOST_PME'', 75),
     (''INTERRUPT_USB3_DEV_HOST'', 76), (''INTERRUPT_ACTMON'', 77), (''INTERRUPT_UARTC'', 78),
     (''INTERRUPT_HSI'', 79), (''INTERRUPT_THERMAL'', 80), (''INTERRUPT_XUSB_PADCTL'', 81),
     (''INTERRUPT_TSEC'', 82), (''INTERRUPT_EDP'', 83), (''INTERRUPT_VFIR'', 84), (''INTERRUPT_I2C5'', 85),
     (''INTERRUPT_STAT_MON'', 86), (''INTERRUPT_GPIO5'', 87), (''INTERRUPT_USB3_DEV_SMI'', 88),
     (''INTERRUPT_USB3_DEV_PME'', 89), (''INTERRUPT_SE'', 90), (''INTERRUPT_SPI1'', 91),
     (''INTERRUPT_APB_DMA_COP'', 92), (''INTERRUPT_AHB_DMA_COP'', 93), (''INTERRUPT_CLDVFS'', 94),
     (''INTERRUPT_I2C6'', 95), (''INTERRUPT_HOST1X_SYNCPT_COP'', 96), (''INTERRUPT_HOST1X_SYNCPT_CPU'', 97),
     (''INTERRUPT_HOST1X_GEN_COP'', 98), (''INTERRUPT_HOST1X_GEN_CPU'', 99), (''INTERRUPT_MSENC'', 100),
     (''INTERRUPT_VI'', 101), (''INTERRUPT_ISPB'', 102), (''INTERRUPT_ISP'', 103), (''INTERRUPT_VIC'', 104),
     (''INTERRUPT_DISPLAY'', 105), (''INTERRUPT_DISPLAYB'', 106)]"

definition tk1_irqs_high :: "(string \<times> int) list" where
  "tk1_irqs_high =
    [(''INTERRUPT_HDMI'', 107), (''INTERRUPT_SOR'', 108), (''INTERRUPT_EMC'', 110),
     (''INTERRUPT_SPI6'', 111), (''INTERRUPT_HDA'', 113), (''INTERRUPT_SPI2'', 114),
     (''INTERRUPT_SPI3'', 115), (''INTERRUPT_I2C2'', 116), (''INTERRUPT_PMU_EXT'', 118),
     (''INTERRUPT_GPIO6'', 119), (''INTERRUPT_GPIO7'', 121), (''INTERRUPT_UARTD'', 122),
     (''INTERRUPT_I2C3'', 124), (''INTERRUPT_SW'', 127), (''INTERRUPT_SNOR'', 128),
     (''INTERRUPT_USB3'', 129), (''INTERRUPT_PCIE_INT'', 130), (''INTERRUPT_PCIE_MSI'', 131),
     (''INTERRUPT_PCIE_WAKE'', 132), (''INTERRUPT_AVP_CACHE'', 133), (''INTERRUPT_AUDIO_CLUSTER'', 135),
     (''INTERRUPT_APB_DMA_CH0'', 136), (''INTERRUPT_APB_DMA_CH1'', 137), (''INTERRUPT_APB_DMA_CH2'', 138),
     (''INTERRUPT_APB_DMA_CH3'', 139), (''INTERRUPT_APB_DMA_CH4'', 140), (''INTERRUPT_APB_DMA_CH5'', 141),
     (''INTERRUPT_APB_DMA_CH6'', 142), (''INTERRUPT_APB_DMA_CH7'', 143), (''INTERRUPT_APB_DMA_CH8'', 144),
     (''INTERRUPT_APB_DMA_CH9'', 145), (''INTERRUPT_APB_DMA_CH10'', 146), (''INTERRUPT_APB_DMA_CH11'', 147),
     (''INTERRUPT_APB_DMA_CH12'', 148), (''INTERRUPT_APB_DMA_CH13'', 149), (''INTERRUPT_APB_DMA_CH14'', 150),
     (''INTERRUPT_APB_DMA_CH15'', 151), (''INTERRUPT_I2C4'', 152), (''INTERRUPT_TMR5'', 153),
     (''INTERRUPT_HIER_GROUP1_COP'', 154), (''INTERRUPT_WDT_CPU'', 155), (''INTERRUPT_WDT_AVP'', 156),
     (''INTERRUPT_GPIO8'', 157), (''INTERRUPT_CAR'', 158), (''INTERRUPT_HIER_GROUP1_CPU'', 159),
     (''INTERRUPT_APB_DMA_CH16'', 160), (''INTERRUPT_APB_DMA_CH17'', 161), (''INTERRUPT_APB_DMA_CH18'', 162),
     (''INTERRUPT_APB_DMA_CH19'', 163), (''INTERRUPT_APB_DMA_CH20'', 164), (''INTERRUPT_APB_DMA_CH21'', 165),
     (''INTERRUPT_APB_DMA_CH22'', 166), (''INTERRUPT_APB_DMA_CH23'', 167), (''INTERRUPT_APB_DMA_CH24'', 168),
     (''INTERRUPT_APB_DMA_CH25'', 169), (''INTERRUPT_APB_DMA_CH26'', 170), (''INTERRUPT_APB_DMA_CH27'', 171),
     (''INTERRUPT_APB_DMA_CH28'', 172), (''INTERRUPT_APB_DMA_CH29'', 173), (''INTERRUPT_APB_DMA_CH30'', 174),
     (''INTERRUPT_APB_DMA_CH31'', 175), (''INTERRUPT_CPU0_PMU'', 176), (''INTERRUPT_CPU1_PMU'', 177),
     (''INTERRUPT_CPU2_PMU'', 178), (''INTERRUPT_CPU3_PMU'', 179), (''INTERRUPT_SDMMC1_SYS'', 180),
     (''INTERRUPT_SDMMC2_SYS'', 181), (''INTERRUPT_SDMMC3_SYS'', 182), (''INTERRUPT_SDMMC4_SYS'', 183),
     (''INTERRUPT_TMR6'', 184), (''INTERRUPT_TMR7'', 185), (''INTERRUPT_TMR8'', 186),
     (''INTERRUPT_TMR9'', 187), (''INTERRUPT_TMR0'', 188), (''INTERRUPT_GPU'', 189),
     (''INTERRUPT_GPU_NONSTALL'', 190), (''ARDPAUX'', 191)]"

section \<open>Device tables\<close>

text \<open>The tables of a platform: the path of its interrupt controller, interrupts passed through to the guest, interrupts free for emulated devices, and the nodes of the device tree the guest may keep: as they are, disabled, with their subtree, with a disabled subtree.\<close>

record plat_tables =
  gic_node :: string
  linux_pt_irqs :: "int list"
  free_plat_interrupts :: "int list"
  keep_devices :: "string list"
  keep_and_disable :: "string list"
  keep_and_subtree :: "string list"
  keep_and_subtree_and_disable :: "string list"

definition tx1_gic :: string where
  "tx1_gic = ''/interrupt-controller@50041000''"

definition tx1_keep :: "string list" where
  "tx1_keep =
    [tx1_gic, ''/gpu@57000000'', ''/serial@70006300'', ''/timer@60005000'', ''/flow-controller@60007000'',
     ''/dma@60020000'', ''/apbmisc@70000800'', ''/pmu@7000a000'', ''/i2c@7000c700'', ''/fuse@7000f800'',
     ''/usb@70090000'', ''/sdhci@700b0000'', ''/sdhci@700b0600'', ''/mipi@700e3000'', ''/timer'',
     ''/aliases'', ''/psci'']"

definition tx1_keep_disable :: "string list" where
  "tx1_keep_disable =
    [''/serial@70006040'', ''/serial@70006200'', ''/serial@70006300'', ''/i2c@7000c000'', ''/i2c@7000c500'',
     ''/i2c@7000d100'', ''/i2c@7000d400'', ''/i2c@7000d600'', ''/i2c@7000d800'', ''/i2c@7000da00'',
     ''/hda@70030000'', ''/sdhci@700b0200'', ''/sdhci@700b0400'', ''/spi@70410000'', ''/usb@7d000000'',
     ''/usb-phy@7d000000'', ''/usb@7d004000'', ''/usb-phy@7d004000'']"

definition tx1_keep_subtree :: "string list" where
  "tx1_keep_subtree =
    [''/pcie@1003000'', ''/host1x@50000000'', ''/thermal-zones'', ''/pinmux@700008d4'', ''/i2c@7000c400'',
     ''/i2c@7000d000'', ''/pmc@7000e400'', ''/padctl@7009f000'', ''/thermal-sensor@700e2000'',
     ''/thermal-zones'', ''/clocks'', ''/regulators'', ''/gpio-keys'']"

definition tx1_keep_subtree_disable :: "string list" where
  "tx1_keep_subtree_disable =
    [''/aconnect@702c0000'']"

definition tx2_gic :: string where
  "tx2_gic = ''/interrupt-controller@3881000''"

definition tx2_keep :: "string list" where
  "tx2_keep =
    [''/arm-pmu'', ''/denver-pmu'', ''/aliases'', ''/spi@3210000'', ''/spi@3230000'', ''/spi@3240000'',
     ''/pwm@3280000'', ''/pwm@3290000'', ''/pwm@32a0000'', ''/pwm@c340000'', ''/serial@3100000'',
     ''/serial@3110000'', ''/serial@c280000'', ''/serial@3130000'', ''/combined-uart'',
     ''/interrupt-controller'', ''/tegra-rtcpu-trace'', ''/tegra_safety_ivc'', ''/tegra-aon-ivc-echo'',
     ''/aondbg'', ''/timer'', ''/rtc@c2a0000'', ''/tegra-carveouts'', ''/mc_sid@2c00000'', ''/smmu_test'',
     ''/mc'', ''/usb_cd'', ''/mailbox@3538000'', ''/xotg'', ''/xhci@3530000'', ''/xudc@3550000'',
     ''/kfuse@0x3830000'', ''/tachometer@39c0000'', tx2_gic, ''/tegra186-pm-irq'', ''/timer@3020000'',
     ''/clock@5000000'', ''/se_elp@3ad0000'', ''/tegra-hsp@c150000'', ''/tegra-hsp@3c00000'',
     ''/dma@2600000'', ''/adma@2930000'', ''/agic-controller@2a41000'', ''/hda@3510000'', ''/adsp@2993000'',
     ''/tegra_fiq_debugger'', ''/mttcan@c310000'', ''/mttcan@c320000'', ''/cpuidle'', ''/cpufreq@e070000'',
     ''/bwmgr'', ''/hardwood'', ''/cluster_clk_priv@e090000'', ''/axi2apb@2390000'', ''/axi2apb@23a0000'',
     ''/axi2apb@23b0000'', ''/axi2apb@23c0000'', ''/axi2apb@23d0000'', ''/axip2p@2100000'',
     ''/axip2p@2110000'', ''/axip2p@2120000'', ''/axip2p@2130000'', ''/axip2p@2140000'', ''/axip2p@2150000'',
     ''/axip2p@2160000'', ''/axip2p@2170000'', ''/axip2p@2180000'', ''/axip2p@2190000'', ''/tegra-serr'',
     ''/tegra-firmwares'', ''/tegra-mce'', ''/nvdumper'', ''/hsp_top'', ''/pfsd'', ''/pwm-fan'',
     ''/thermal-fan-est'', ''/vi-bypass@15700000'', ''/tegra_cec'', ''/soft_watchdog'', ''/bluedroid_pm'',
     ''/e3326_lens_ov5693@P5V27C'', ''/lens_imx274@A6V26'', ''/bcmdhd_wlan'', ''/sdhci@3420000'',
     ''/ufshci@2450000'', ''/pwm@32c0000'', ''/pwm@32d0000'', ''/pwm@32e0000'', ''/pwm@32f0000'',
     ''/serial@3150000'', ''/serial@c290000'', ''/ether_qos_virt_test@2490000'', ''/trusty'',
     ''/rtcpu@2993000'', ''/sce@b000000'', ''/aon_spi@c260000'', ''/mttcan0-ivc'', ''/mttcan1-ivc'',
     ''/reserved-memory/generic_carveout'', ''/max16984-cdp'', ''/pmc@c370000'', ''/pmc-iopower'',
     ''/interrupt-controller@3000000'', ''/spi@3270000'', ''/tegra-hsp@b150000'', ''/chipid@100000'',
     ''/miscreg@00100000'', ''/sound_ref'', ''/eqos_ape@2990000'', ''/watchdog@30c0000'',
     ''/roc-flush@e080000'', ''/generic-system-config'', ''/dpaux0'', ''/dpaux1'', ''/tegra-pmc-blink-pwm'',
     ''/dummy-cool-dev'', ''/bcmdhd_pcie_wlan'']"

definition tx2_keep_subtree :: "string list" where
  "tx2_keep_subtree =
    [''/sdhci@3460000'', ''/sdhci@3440000'', ''/sdhci@3420000'', ''/sdhci@3400000'', ''/pinmux@2430000'',
     ''/ahci-sata@3507000'', ''/ufshci@2450000'', ''/i2c@3160000'', ''/i2c@c240000'', ''/i2c@3180000'',
     ''/i2c@3190000'', ''/bpmp_i2c'', ''/i2c@31b0000'', ''/i2c@31c0000'', ''/i2c@c250000'', ''/i2c@31e0000'',
     ''/spdif_dit'', ''/spi@c260000'', ''/ether_qos@2490000'', ''/power-domain'', ''/trusty'',
     ''/thermal-zones'', ''/rtcpu@b000000'', ''/sce-ivc-channels'', ''/rtcpu@2993000'',
     ''/ape-ivc-channels'', ''/sce@b000000'', ''/actmon@d230000'', ''/aon@c160000'', ''/reserved-memory'',
     ''/iommu@12000000'', ''/pinctrl@3520000'', ''/host1x'', ''/mipical'', ''/bpmp'', ''/gpio@2200000'',
     ''/gpio@c2f0000'', ''/pcie-controller@10003000'', ''/sound'', ''/ahub'', ''/adsp_audio'', ''/clocks'',
     ''/stm@8070000'', ''/ptm@9840000'', ''/ptm@9940000'', ''/ptm@9a40000'', ''/ptm@9b40000'',
     ''/ptm_bpmp@8a1c000'', ''/funnel_bccplex@9010000'', ''/funnel_major@8010000'',
     ''/replicator@0x8040000'', ''/etf@8030000'', ''/tpiu@8060000'', ''/etr@8050000'',
     ''/funnel_minor@8820000'', ''/efuse@3820000'', ''/i2c@31a0000'', ''/csi_mipical'',
     ''/fixed-regulators'', ''/external-connection'', ''/backlight'', ''/mods-simple-bus'', ''/tfesd'',
     ''/bthrot_cdev'', ''/gpio-keys'', ''/tegra-camera-platform'', ''/plugin-manager'', ''/eeprom-manager'',
     ''/firmware'', ''/psci'']"

definition tk1_gic :: string where
  "tk1_gic = ''/interrupt-controller@50041000''"

definition tk1_keep :: "bool \<Rightarrow> string list" where
  "tk1_keep insecure =
    [tk1_gic, ''/clock@60006000'', ''/gpio@6000d000'', ''/apbmisc@70000800'', ''/pinmux@70000868'',
      ''/serial@70006300'', ''/sdhci@700b0600'', ''/usb-phy@7d004000'', ''/usb-phy@7d008000'', ''/pmu'',
      ''/timer'', ''/aliases''] @
     (if insecure
      then [''/timer@60005000'', ''/actmon@6000c800'', ''/dma@60020000'', ''/rtc@7000e000'', ''/fuse@7000f800'',
      ''/emc@7001b000'', ''/sata@70020000'', ''/hda@70030000'', ''/ahub@70300000'']
      else [])"

definition tk1_keep_disable :: "bool \<Rightarrow> string list" where
  "tk1_keep_disable insecure =
    [''/gpu@0,57000000'', ''/flow-controller@60007000'', ''/serial@70006000'', ''/serial@70006040'',
      ''/serial@70006200'', ''/pwm@7000a000'', ''/i2c@7000c000'', ''/i2c@7000c400'', ''/i2c@7000c500'',
      ''/i2c@7000c700'', ''/i2c@7000d000'', ''/i2c@7000d000/pmic@40'', ''/i2c@7000d100'', ''/spi@7000d400'',
      ''/spi@7000d600'', ''/spi@7000d800'', ''/spi@7000da00'', ''/spi@7000dc00'', ''/spi@7000de00'',
      ''/pmc@7000e400'', ''/memory-controller@70019000'', ''/padctl@7009f000'', ''/sdhci@700b0000'',
      ''/sdhci@700b0200'', ''/sdhci@700b0400'', ''/clock@70110000'', ''/thermal-sensor@700e2000'',
      ''/usb-phy@7d000000'', ''/sound''] @
     (if insecure
      then []
      else [''/timer@60005000'', ''/actmon@6000c800'', ''/dma@60020000'', ''/rtc@7000e000'', ''/fuse@7000f800'',
      ''/emc@7001b000'', ''/sata@70020000'', ''/hda@70030000'', ''/ahub@70300000''])"

definition tk1_keep_subtree :: "bool \<Rightarrow> string list" where
  "tk1_keep_subtree insecure =
    [''/thermal-zones'', ''/clocks'', ''/gpio-keys'', ''/regulators'', ''/spi@7000da00'', ''/pmc@7000e400''] @
     (if insecure
      then [''/host1x@50000000'', ''/i2c@7000c000'', ''/i2c@7000d000'', ''/padctl@7009f000'']
      else [])"

definition tk1_keep_subtree_disable :: "bool \<Rightarrow> string list" where
  "tk1_keep_subtree_disable insecure =
    [''/pcie@1003000''] @
     (if insecure
      then []
      else [''/host1x@50000000'', ''/i2c@7000c000'', ''/i2c@7000d000'', ''/padctl@7009f000''])"

definition tx1 :: plat_tables where
  "tx1 =
     \<lparr>gic_node = tx1_gic, linux_pt_irqs = [], free_plat_interrupts = [-1],
      keep_devices = tx1_keep, keep_and_disable = tx1_keep_disable,
      keep_and_subtree = tx1_keep_subtree, keep_and_subtree_and_disable = tx1_keep_subtree_disable\<rparr>"

definition tx2 :: plat_tables where
  "tx2 =
     \<lparr>gic_node = tx2_gic, linux_pt_irqs = [], free_plat_interrupts = [220 + GIC_LIC_INTID_BASE],
      keep_devices = tx2_keep, keep_and_disable = [],
      keep_and_subtree = tx2_keep_subtree, keep_and_subtree_and_disable = []\<rparr>"

definition tk1 :: "bool \<Rightarrow> plat_tables" where
  "tk1 insecure =
     \<lparr>gic_node = tk1_gic, linux_pt_irqs = [63, 122], free_plat_interrupts = [-1],
      keep_devices = tk1_keep insecure, keep_and_disable = tk1_keep_disable insecure,
      keep_and_subtree = tk1_keep_subtree insecure, keep_and_subtree_and_disable = tk1_keep_subtree_disable insecure\<rparr>"

text \<open>The other platforms.\<close>

definition IRQ_SPI_OFFSET :: int where "IRQ_SPI_OFFSET = 32"

definition exynos5410_gic :: string where
  "exynos5410_gic = ''/soc/interrupt-controller@10481000''"

definition exynos5410_keep :: "string list" where
  "exynos5410_keep =
    [''/soc/chipid@10000000'', exynos5410_gic, ''/soc/interrupt-controller@10440000'', ''/soc/usb@12110000'',
     ''/soc/phy@12130000'', ''/soc/serial@12c00000'', ''/soc/serial@12c10000'', ''/soc/serial@12c20000'',
     ''/xxti'', ''/cpus/cpu@0'', ''/soc/clock-controller@10010000'', ''/soc/syscon@10050000'',
     ''/soc/memory-controller@12250000'']"

definition exynos5410_keep_subtree :: "string list" where
  "exynos5410_keep_subtree =
    [''/soc/mmc@12200000'', ''/soc/mmc@12220000'', ''/soc/system-controller@10040000'',
     ''/soc/sysram@2020000'']"

definition exynos5410 :: plat_tables where
  "exynos5410 =
     \<lparr>gic_node = exynos5410_gic, linux_pt_irqs = [],
      free_plat_interrupts = [92 + IRQ_SPI_OFFSET, 93 + IRQ_SPI_OFFSET, 101 + IRQ_SPI_OFFSET, 102 + IRQ_SPI_OFFSET],
      keep_devices = exynos5410_keep, keep_and_disable = [],
      keep_and_subtree = exynos5410_keep_subtree, keep_and_subtree_and_disable = []\<rparr>"

definition exynos5422 :: plat_tables where
  "exynos5422 =
     \<lparr>gic_node = ''/soc/interrupt-controller@10481000'', linux_pt_irqs = [],
      free_plat_interrupts = [92 + IRQ_SPI_OFFSET, 93 + IRQ_SPI_OFFSET, 101 + IRQ_SPI_OFFSET, 102 + IRQ_SPI_OFFSET],
      keep_devices = [''/fixed-rate-clocks/oscclk'', ''/timer'', ''/soc/chipid@10000000'', ''/soc/interrupt-controller@10481000''],
      keep_and_disable = [],
      keep_and_subtree = [], keep_and_subtree_and_disable = []\<rparr>"

definition qemu_arm_virt :: plat_tables where
  "qemu_arm_virt =
     \<lparr>gic_node = ''/intc@8000000'', linux_pt_irqs = [], free_plat_interrupts = [50 + IRQ_SPI_OFFSET],
      keep_devices = [''/timer'', ''/apb-pclk'', ''/platform@c000000'', ''/pmu'', ''/flash@0'', ''/psci''],
      keep_and_disable = [],
      keep_and_subtree = [''/intc@8000000''], keep_and_subtree_and_disable = []\<rparr>"

definition odroidc2 :: plat_tables where
  "odroidc2 =
     \<lparr>gic_node = ''/soc/interrupt-controller@c4301000'', linux_pt_irqs = [], free_plat_interrupts = [50 + IRQ_SPI_OFFSET],
      keep_devices = [], keep_and_disable = [],
      keep_and_subtree = [''/soc/interrupt-controller@c4301000''], keep_and_subtree_and_disable = []\<rparr>"

definition zynqmp_gic :: "bool \<Rightarrow> string" where
  "zynqmp_gic petalinux_2018_3 =
     (if petalinux_2018_3 then ''/amba_apu@0/interrupt-controller@f9010000'' else ''/axi/interrupt-controller@f9010000'')"

definition zynqmp :: "bool \<Rightarrow> plat_tables" where
  "zynqmp petalinux_2018_3 =
     \<lparr>gic_node = zynqmp_gic petalinux_2018_3, linux_pt_irqs = [], free_plat_interrupts = [-1],
      keep_devices = [''/timer''], keep_and_disable = [],
      keep_and_subtree = [zynqmp_gic petalinux_2018_3], keep_and_subtree_and_disable = []\<rparr>"

definition ultra96v2 :: plat_tables where
  "ultra96v2 =
     \<lparr>gic_node = ''/amba_apu@0/interrupt-controller@f9010000'', linux_pt_irqs = [], free_plat_interrupts = [-1],
      keep_devices = [''/timer''], keep_and_disable = [],
      keep_and_subtree = [''/amba_apu@0/interrupt-controller@f9010000''], keep_and_subtree_and_disable = []\<rparr>"

text \<open>The interrupt of the device that connects guests, in \<^verbatim>\<open>VM_Arm/src/main.c\<close>.\<close>

definition plat_crossvm_irq_num :: "plat_tables \<Rightarrow> int res" where
  "plat_crossvm_irq_num p = aget (free_plat_interrupts p) 0"

text \<open>
  Function identifiers of the calls of a guest on ZynqMP that the monitor may forward, in the
  numbering of the SMC calling convention: the platform management and the mailboxes.
\<close>

definition zynqmp_smc_pm :: "(string \<times> u32) list" where
  "zynqmp_smc_pm =
    [(''SMC_PM_GET_API_VERSION'', 0xc2000001), (''SMC_PM_SET_CONFIGURATION'', 0xc2000002),
     (''SMC_PM_GET_NODE_STATUS'', 0xc2000003), (''SMC_PM_GET_OPERATING_CHARACTERISTIC'', 0xc2000004),
     (''SMC_PM_REGISTER_NOTIFIER'', 0xc2000005), (''SMC_PM_REQUEST_SUSPEND'', 0xc2000006),
     (''SMC_PM_SELF_SUSPEND'', 0xc2000007), (''SMC_PM_FORCE_POWERDOWN'', 0xc2000008),
     (''SMC_PM_ABORT_SUSPEND'', 0xc2000009), (''SMC_PM_REQUEST_WAKEUP'', 0xc200000a),
     (''SMC_PM_SET_WAKEUP_SOURCE'', 0xc200000b), (''SMC_PM_SYSTEM_SHUTDOWN'', 0xc200000c),
     (''SMC_PM_REQUEST_NODE'', 0xc200000d), (''SMC_PM_RELEASE_NODE'', 0xc200000e),
     (''SMC_PM_SET_REQUIREMENT'', 0xc200000f), (''SMC_PM_SET_MAX_LATENCY'', 0xc2000010),
     (''SMC_PM_RESET_ASSERT'', 0xc2000011), (''SMC_PM_RESET_GET_STATUS'', 0xc2000012),
     (''SMC_PM_MMIO_WRITE'', 0xc2000013), (''SMC_PM_MMIO_READ'', 0xc2000014), (''SMC_PM_INIT_FINALIZE'', 0xc2000015),
     (''SMC_PM_FPGA_LOAD'', 0xc2000016), (''SMC_PM_FPGA_GET_STATUS'', 0xc2000017),
     (''SMC_PM_GET_CHIPID'', 0xc2000018), (''SMC_PM_SECURE_SHA'', 0xc200001a), (''SMC_PM_SECURE_RSA'', 0xc200001b),
     (''SMC_PM_PINCTRL_REQUEST'', 0xc200001c), (''SMC_PM_PINCTRL_RELEASE'', 0xc200001d),
     (''SMC_PM_PINCTRL_GET_FUNCTION'', 0xc200001e), (''SMC_PM_PINCTRL_SET_FUNCTION'', 0xc200001f),
     (''SMC_PM_PINCTRL_CONFIG_PARAM_GET'', 0xc2000020), (''SMC_PM_PINCTRL_CONFIG_PARAM_SET'', 0xc2000021),
     (''SMC_PM_IOCTL'', 0xc2000022), (''SMC_PM_QUERY_DATA'', 0xc2000023), (''SMC_PM_CLOCK_ENABLE'', 0xc2000024),
     (''SMC_PM_CLOCK_DISABLE'', 0xc2000025), (''SMC_PM_CLOCK_GETSTATE'', 0xc2000026),
     (''SMC_PM_CLOCK_SETDIVIDER'', 0xc2000027), (''SMC_PM_CLOCK_GETDIVIDER'', 0xc2000028),
     (''SMC_PM_CLOCK_SETRATE'', 0xc2000029), (''SMC_PM_CLOCK_GETRATE'', 0xc200002a),
     (''SMC_PM_CLOCK_SETPARENT'', 0xc200002b), (''SMC_PM_CLOCK_GETPARENT'', 0xc200002c),
     (''SMC_PM_SECURE_IMAGE'', 0xc200002d), (''SMC_PM_FPGA_READ'', 0xc200002e), (''SMC_PM_SECURE_AES'', 0xc200002f),
     (''SMC_PM_CLOCK_PLL_GETPARAM'', 0xc2000030), (''SMC_PM_REGISTER_ACCESS'', 0xc2000034),
     (''SMC_PM_EFUSE_ACCESS'', 0xc2000035), (''SMC_PM_ADD_SUBSYSTEM'', 0xc2000036),
     (''SMC_PM_FEATURE_CHECK'', 0xc200003f), (''SMC_PM_API_MAX'', 0xc2000040)]"

definition zynqmp_smc_ipi :: "(string \<times> u32) list" where
  "zynqmp_smc_ipi =
    [(''SMC_IPI_MAILBOX_OPEN'', 0x82001000), (''SMC_IPI_MAILBOX_RELEASE'', 0x82001001),
     (''SMC_IPI_MAILBOX_STATUS_ENQUIRY'', 0x82001002), (''SMC_IPI_MAILBOX_NOTIFY'', 0x82001003),
     (''SMC_IPI_MAILBOX_ACK'', 0x82001004), (''SMC_IPI_MAILBOX_ENABLE_IRQ'', 0x82001005),
     (''SMC_IPI_MAILBOX_DISABLE_IRQ'', 0x82001006), (''SMC_PM_GET_TRUSTZONE_VERSION'', 0xc2000a03)]"

text \<open>Identifiers are distinct, and all are fast calls to the silicon provider's service.\<close>

lemma zynqmp_smc_wf:
  "distinct (map snd (zynqmp_smc_pm @ zynqmp_smc_ipi))"
  "list_all (\<lambda>c. bit (snd c) 31 \<and> drop_bit 24 (snd c) AND 0x3f = 2) (zynqmp_smc_pm @ zynqmp_smc_ipi)"
  by code_simp+

section \<open>Consistency\<close>

definition tx1_irqs :: "(string \<times> int) list" where
  "tx1_irqs = tx1_irqs_low @ tx1_irqs_high"

definition tk1_irqs :: "(string \<times> int) list" where
  "tk1_irqs = tk1_irqs_low @ tk1_irqs_high"

definition all_platforms :: "plat_tables list" where
  "all_platforms = [tx1, tx2, tk1 False, tk1 True, exynos5410, exynos5422, qemu_arm_virt, odroidc2, zynqmp False, zynqmp True, ultra96v2]"

fun increasing :: "int list \<Rightarrow> bool" where
  "increasing (x # y # xs) = (x < y \<and> increasing (y # xs))"
| "increasing _ = True"

lemma increasing_Cons: "increasing (x # xs) \<Longrightarrow> increasing xs \<and> (\<forall>y \<in> set xs. x < y)"
proof (induction xs arbitrary: x)
  case (Cons y ys)
  then have "x < y" "increasing (y # ys)" by simp_all
  with Cons.IH [of y] show ?case by auto
qed simp

lemma increasing_distinct: "increasing xs \<Longrightarrow> distinct xs"
proof (induction xs)
  case (Cons x xs)
  then show ?case using increasing_Cons [of x xs] by auto
qed simp

text \<open>
  A well-formed platform: paths are absolute, the guest keeps its interrupt controller, and an
  interrupt is either free or passed through.  The list \<open>[-1]\<close> says that none is free.
\<close>

definition absolute :: "string \<Rightarrow> bool" where
  "absolute d = (case d of [] \<Rightarrow> False | c # cs \<Rightarrow> c = CHR ''/'' \<and> cs \<noteq> [])"

definition plat_wf :: "plat_tables \<Rightarrow> bool" where
  "plat_wf p \<longleftrightarrow>
     list_all absolute (keep_devices p @ keep_and_disable p @ keep_and_subtree p @ keep_and_subtree_and_disable p) \<and>
     gic_node p \<in> set (keep_devices p @ keep_and_subtree p) \<and>
     increasing (linux_pt_irqs p) \<and> increasing (free_plat_interrupts p) \<and> free_plat_interrupts p \<noteq> [] \<and>
     (free_plat_interrupts p = [-1] \<or> list_all (\<lambda>i. 32 \<le> i \<and> i \<notin> set (linux_pt_irqs p)) (free_plat_interrupts p))"

text \<open>Nodes that one table keeps and another one disables.\<close>

definition kept_and_disabled :: "plat_tables \<Rightarrow> string list" where
  "kept_and_disabled p = filter (\<lambda>d. d \<in> set (keep_devices p @ keep_and_subtree p)) (keep_and_disable p @ keep_and_subtree_and_disable p)"

lemma platforms_wf: "list_all plat_wf all_platforms"
  by code_simp

lemma irqs_increasing: "increasing (map snd tx1_irqs)" "increasing (map snd tx2_irqs)" "increasing (map snd tk1_irqs)"
  by code_simp+

lemma tx2_pages:
  "map (map_of tx2_irqs) [''TX2_TOP_TKE_SHARED0'', ''TX2_BPMP_WDT_REMOTE'', ''TX2_GPIO0_0'', ''TX2_CENTRAL_DMA_CH0'', ''TX2_UARTA''] =
     map (\<lambda>i. Some (GIC_LIC_INTID_BASE + i)) [0, 14, 45, 75, 112]"
  by code_simp

lemma kept_and_disabled_nodes:
  "map kept_and_disabled all_platforms =
     [[''/serial@70006300''], [],
      [''/spi@7000da00'', ''/pmc@7000e400''],
      [''/i2c@7000c000'', ''/i2c@7000d000'', ''/spi@7000da00'', ''/pmc@7000e400'', ''/padctl@7009f000''],
      [], [], [], [], [], [], []]"
  by code_simp

text \<open>
  The tables of the nine platforms are well-typed: paths are absolute, every guest keeps the node
  of its interrupt controller, no interrupt is both free and passed through, the numbered
  interrupts of the Tegra boards are distinct, and the interrupts the TK1 passes through are
  interrupts of that board.
\<close>

theorem platform_tables_wf:
  "list_all plat_wf all_platforms \<and>
   distinct (map snd tx1_irqs) \<and> distinct (map snd tx2_irqs) \<and> distinct (map snd tk1_irqs) \<and>
   set (linux_pt_irqs (tk1 True)) \<subseteq> set (map snd tk1_irqs) \<and>
   length tx2_irq_names = length tx2_irqs \<and> list_all (\<lambda>i. GIC_LIC_INTID_BASE \<le> snd i) tx2_irqs"
  by (intro conjI platforms_wf irqs_increasing [THEN increasing_distinct]) code_simp+

end
