(* ===== verification/Arm_Modules.thy ===== *)
theory Arm_Modules
  imports Arm_Memory Virtio_Con Platforms Calls
begin

unbundle bit_operations_syntax

text \<open>
  The modules of the ARM monitor, \<^verbatim>\<open>VM_Arm/src/modules\<close>, apart from the virtio back ends:
  what the platforms Exynos 5410 and TK1 install, forwarded devices, RAM, the virtual UART and the
  mapping of extra frames; the connections between guests of both monitors
  (\<^verbatim>\<open>VM_Arm/src/crossvm.c\<close>, \<^verbatim>\<open>Init/src/crossvm.c\<close>); and the monitor's
  handler of secure monitor calls.  The VM library is a parameter, as in \<open>Calls\<close>.
\<close>

section \<open>Platform modules\<close>

datatype module_call =
    InstallVmct
  | InstallVpower
  | UsbHostInit
  | UsbRouteIrq nat
  | InstallVusb u32 nat nat nat
  | GpioSysInit
  | I2cInit
  | PmicInit
  | Usb3503Init
  | Usb3503Connect
  | EthernetPowerOn nat
  | InstallNodmaSdhc
  | InstallAcClock
  | ClockProvide string
  | InstallAcUart
  | ReserveMemory u32 u32
  | InstallPassthrough string
  | InstallTk1Usb
  | InstallRamOnly string
  | ForwardUart
  | ForwardClkCar
  | RamRegister u64 u64
  | RegisterGetchar
  | InstallVconsole

definition VUSB_ADDRESS :: u32 where "VUSB_ADDRESS = 0x33330000"
definition VUSB_IRQ :: nat where "VUSB_IRQ = 198"
definition VUSB_NINDEX :: nat where "VUSB_NINDEX = 5"
definition VUSB_NBADGE :: nat where "VUSB_NBADGE = 0x123"

text \<open>With \<^verbatim>\<open>FEATURE_VUSB\<close>; the result -1 is caught by the caller's assertion.\<close>

definition install_vusb :: "module_call library \<Rightarrow> module_call calls \<Rightarrow> (int \<times> module_call calls) res" where
  "install_vusb ext l =
     rbind (asserted ext UsbHostInit l) (\<lambda>l.
       let irq_id = answer ext (UsbRouteIrq 103) l; l = l @ [UsbRouteIrq 103]
       in if irq_id < 0 then Inr (-1, l)
          else rbind (call_nonzero AssertFail ext (InstallVusb VUSB_ADDRESS VUSB_IRQ VUSB_NINDEX VUSB_NBADGE) l) (\<lambda>l. Inr (0, l)))"

text \<open>Without it, the host controller is prepared for the guest.\<close>

definition install_usb_passthrough :: "module_call library \<Rightarrow> module_call calls \<Rightarrow> (int \<times> module_call calls) res" where
  "install_usb_passthrough ext l =
     rbind (seq_steps
       [asserted ext UsbHostInit,
        asserted ext GpioSysInit,
        asserted ext I2cInit,
        asserted ext PmicInit,
        asserted ext Usb3503Init,
        call_void Usb3503Connect,
        call_void (EthernetPowerOn 3300)] l) (\<lambda>l. Inr (0, l))"

definition configure_clocks :: "module_call library \<Rightarrow> module_call calls \<Rightarrow> module_call calls res" where
  "configure_clocks ext = seq_steps
     (call_nonzero AssertFail ext InstallAcClock #
      map (\<lambda>c. call_void (ClockProvide c)) [''CLK_MMC0'', ''CLK_MMC2'', ''CLK_SCLKVPLL'', ''CLK_SCLKGPLL'', ''CLK_SCLKCPLL''])"

definition exynos_pt_devices :: "bool \<Rightarrow> string list" where
  "exynos_pt_devices mmc_nodma = [''dev_ps_chip_id'', ''dev_msh0''] @ (if mmc_nodma then [] else [''dev_msh2''])"

definition pwmsig_pstart :: u32 where "pwmsig_pstart = 0x30000000"
definition pwmsig_size :: u32 where "pwmsig_size = 0x1000"

text \<open>The results of the last loop are ignored.\<close>

definition exynos_init_module :: "bool \<Rightarrow> bool \<Rightarrow> module_call library \<Rightarrow> module_call calls \<Rightarrow> module_call calls res" where
  "exynos_init_module vusb mmc_nodma ext =
     seq_steps
       ([asserted ext InstallVmct,
         asserted ext InstallVpower,
         \<lambda>l. rbind ((if vusb then install_vusb else install_usb_passthrough) ext l) (\<lambda>(err, l).
               if err \<noteq> 0 then Inl AssertFail else Inr l)] @
        (if mmc_nodma then [asserted ext InstallNodmaSdhc] else []) @
        [configure_clocks ext,
         asserted ext InstallAcUart,
         call_nonzero AssertFail ext (ReserveMemory pwmsig_pstart pwmsig_size)] @
        map (\<lambda>d. call_void (InstallPassthrough d)) (exynos_pt_devices mmc_nodma))"

definition vm_shutdown_cb :: int where "vm_shutdown_cb = -1"

text \<open>A write to the signal device ends its fault and calls the component behind it.\<close>

datatype pwm_effect = AdvanceFault | PwmVmsig u32

definition pwmsig_device_fault_handler :: "u32 \<Rightarrow> pwm_effect list" where
  "pwmsig_device_fault_handler data = [AdvanceFault, PwmVmsig data]"

text \<open>Handlers of physical interrupts: of the USB controller, and of the interrupt combiner.\<close>

datatype irq_effect = UsbHcdHandleIrq | CombinerIrq nat | AcknowledgeIrq u64

definition usb_irq_handler :: "bool \<Rightarrow> (u64 \<Rightarrow> int) \<Rightarrow> u64 \<Rightarrow> irq_effect list res" where
  "usb_irq_handler data ack ack_data =
     rbind (rassert data) (\<lambda>_. rbind (rassert (ack ack_data = 0)) (\<lambda>_. Inr [UsbHcdHandleIrq, AcknowledgeIrq ack_data]))"

definition vcombiner_irq_handler :: "nat option \<Rightarrow> u64 \<Rightarrow> irq_effect list res" where
  "vcombiner_irq_handler irq ack_data =
     (case irq of None \<Rightarrow> Inl AssertFail | Some n \<Rightarrow> Inr [CombinerIrq n, AcknowledgeIrq ack_data])"

definition tk1_pt_devices :: "string list" where
  "tk1_pt_devices = [''dev_usb1'', ''dev_usb3'', ''dev_sdmmc'']"

definition tk1_ram_devices :: "bool \<Rightarrow> string list" where
  "tk1_ram_devices insecure =
     (if insecure then []
      else [''dev_rtc_kbc_pmc'', ''dev_exception_vectors'', ''dev_system_registers'', ''dev_ictlr'', ''dev_apb_misc'',
            ''dev_fuse'', ''dev_gpios'']) @ [''dev_data_memory'']"

definition tk1_init_module :: "bool \<Rightarrow> module_call library \<Rightarrow> module_call calls \<Rightarrow> module_call calls res" where
  "tk1_init_module insecure ext =
     seq_steps
       (asserted ext InstallTk1Usb #
        map (\<lambda>d. asserted ext (InstallPassthrough d)) tk1_pt_devices @
        map (\<lambda>d. asserted ext (InstallRamOnly d)) (tk1_ram_devices insecure))"

definition device_fwd_init_module :: "module_call library \<Rightarrow> module_call calls \<Rightarrow> module_call calls res" where
  "device_fwd_init_module ext = seq_steps [asserted ext ForwardUart, asserted ext ForwardClkCar]"

definition init_ram_module :: "u64 \<Rightarrow> u64 \<Rightarrow> module_call library \<Rightarrow> module_call calls \<Rightarrow> module_call calls res" where
  "init_ram_module base ramsize ext = asserted ext (RamRegister base ramsize)"

definition vconsole_init_module :: "module_call library \<Rightarrow> module_call calls \<Rightarrow> module_call calls res" where
  "vconsole_init_module ext = seq_steps [checked ext RegisterGetchar, call_void InstallVconsole]"

section \<open>The virtual UART\<close>

text \<open>
  The loop hands the bytes of the ring of the serial server to the device.  Its state is the ring,
  the bytes handed over, and whether the ring's array was left.
\<close>

definition vuart_more :: "serial_shmem \<times> u8 list \<times> bool \<Rightarrow> bool" where
  "vuart_more s = (let (buffer, out, bad) = s in \<not> bad \<and> sh_head buffer \<noteq> sh_tail buffer)"

definition vuart_turn :: "serial_shmem \<times> u8 list \<times> bool \<Rightarrow> serial_shmem \<times> u8 list \<times> bool" where
  "vuart_turn s = (let (buffer, out, bad) = s
     in if unat (sh_head buffer) < length (sh_buf buffer)
        then (buffer\<lparr>sh_head := (sh_head buffer + 1) mod BUFSIZE\<rparr>, out @ [sh_buf buffer ! unat (sh_head buffer)], bad)
        else (buffer, out, True))"

definition vuart_handle_console :: "serial_shmem \<Rightarrow> u8 list \<Rightarrow> (serial_shmem \<times> u8 list) res" where
  "vuart_handle_console buffer out =
     rbind (rwhile vuart_more vuart_turn (buffer, out, False)) (\<lambda>(buffer, out, bad).
       if bad then Inl OutOfBounds else Inr (buffer, out))"

section \<open>Extra frames\<close>

text \<open>
  The frame for an address of the region at \<open>extra_frame_map_address\<close>; \<^verbatim>\<open>uintptr_t\<close> is a
  word of the machine, \<^verbatim>\<open>int\<close> has 32 bits.
\<close>

definition hack_cap_idx :: "'a::len word \<Rightarrow> 'a word \<Rightarrow> i32" where
  "hack_cap_idx extra_frame_map_address addr = ucast ((extra_frame_map_address - addr) div 4096)"

definition map_frame_hack_iterator :: "int \<Rightarrow> u64 \<Rightarrow> u64 \<Rightarrow> vm_frame" where
  "map_frame_hack_iterator start_extra_frame_caps extra_frame_map_address addr =
     (let cap_idx = hack_cap_idx extra_frame_map_address addr
      in page_frame (unat (word_of_int (start_extra_frame_caps + sint cap_idx) :: u64)) addr)"

datatype hack_effect = HackReserve u64 nat | HackMap

definition map_frame_hack_init_module :: "nat \<Rightarrow> u64 \<Rightarrow> bool \<Rightarrow> hack_effect list" where
  "map_frame_hack_init_module num_extra_frame_caps extra_frame_map_address reserved =
     (if num_extra_frame_caps = 0 then []
      else HackReserve extra_frame_map_address (num_extra_frame_caps * 4096) # (if reserved then [HackMap] else []))"

section \<open>Connections between guests\<close>

record crossvm_connection =
  cv_frame_size_bits :: nat
  cv_frames :: "nat list"
  cv_emit :: "nat option"
  cv_badge :: u64
  cv_name :: string

record crossvm_handle =
  dp_frame_size_bits :: nat
  dp_frames :: "nat list"
  emit_fn :: "nat option"
  consume_id :: u64
  connection_name :: string

definition crossvm_entry :: "crossvm_connection \<Rightarrow> crossvm_handle" where
  "crossvm_entry c =
     \<lparr>dp_frame_size_bits = cv_frame_size_bits c, dp_frames = cv_frames c, emit_fn = cv_emit c, consume_id = cv_badge c,
      connection_name = cv_name c\<rparr>"

text \<open>An entry of the zeroed array that is not set up is \<open>None\<close>; \<open>alloc\<close>: memory for its dataport.\<close>

definition setup_connection ::
    "bool \<Rightarrow> nat \<Rightarrow> crossvm_connection \<Rightarrow> crossvm_handle option list \<Rightarrow> (int \<times> crossvm_handle option list) res" where
  "setup_connection alloc index c handles =
     (if \<not> alloc then Inr (-1, handles)
      else rbind (aset handles index (Some (crossvm_entry c))) (\<lambda>handles. Inr (0, handles)))"

fun setup_connections ::
    "(nat \<Rightarrow> bool) \<Rightarrow> nat \<Rightarrow> crossvm_connection option list \<Rightarrow> crossvm_handle option list \<Rightarrow>
     (int \<times> crossvm_handle option list) res" where
  "setup_connections alloc i [] handles = Inr (0, handles)"
| "setup_connections alloc i (None # cs) handles = setup_connections alloc (Suc i) cs handles"
| "setup_connections alloc i (Some c # cs) handles =
     rbind (setup_connection (alloc i) i c handles) (\<lambda>(err, handles).
       if err \<noteq> 0 then Inr (-1, handles) else setup_connections alloc (Suc i) cs handles)"

text \<open>
  \<open>sections\<close> are the connections that other modules declare in a linker section, with the gaps the
  linker may leave; the result is what the library is given, if it is called, and its answer.
\<close>

definition arm_cross_vm_connections_init ::
    "bool \<Rightarrow> (nat \<Rightarrow> bool) \<Rightarrow> (crossvm_handle option list \<Rightarrow> int) \<Rightarrow> crossvm_connection list \<Rightarrow>
     crossvm_connection option list \<Rightarrow> (int \<times> crossvm_handle option list option) res" where
  "arm_cross_vm_connections_init mem alloc common conns sections =
     (let sectioned_connections = length (filter (\<lambda>c. c \<noteq> None) sections);
          handles = replicate (length conns + sectioned_connections) None
      in if \<not> mem then Inr (-1, None)
         else rbind (setup_connections alloc 0 (map Some conns) handles) (\<lambda>(err, handles).
              if err \<noteq> 0 then Inr (-1, None)
              else rbind (setup_connections alloc (length conns) sections handles) (\<lambda>(err, handles).
                   if err \<noteq> 0 then Inr (-1, None) else Inr (common handles, Some handles))))"

text \<open>On x86 the events of a connection come through a callback that registers itself again.\<close>

datatype crossvm_effect = ConsumeEvent u64 | SignalIrq nat | RegCallback nat

definition event_camkes_callback :: "(nat \<Rightarrow> int) \<Rightarrow> nat \<Rightarrow> u64 \<Rightarrow> nat \<Rightarrow> crossvm_effect list res" where
  "event_camkes_callback reg_callback conn badge irq_notification =
     rbind (rassert (reg_callback conn = 0)) (\<lambda>_. Inr [ConsumeEvent badge, SignalIrq irq_notification, RegCallback conn])"

fun x86_setup_connections ::
    "(nat \<Rightarrow> bool) \<Rightarrow> nat \<Rightarrow> (crossvm_connection \<times> bool) list \<Rightarrow> crossvm_handle list \<Rightarrow> crossvm_effect list \<Rightarrow>
     crossvm_handle list option \<times> crossvm_effect list" where
  "x86_setup_connections alloc i [] handles es = (Some handles, es)"
| "x86_setup_connections alloc i ((c, has_event) # cs) handles es =
     (if \<not> alloc i then (None, es)
      else x86_setup_connections alloc (Suc i) cs (handles @ [(crossvm_entry c)\<lparr>connection_name := []\<rparr>])
             (es @ (if has_event then [RegCallback i] else [])))"

definition x86_cross_vm_connections_init ::
    "bool \<Rightarrow> (nat \<Rightarrow> bool) \<Rightarrow> (crossvm_handle list \<Rightarrow> int) \<Rightarrow> (crossvm_connection \<times> bool) list \<Rightarrow> int \<times> crossvm_effect list" where
  "x86_cross_vm_connections_init mem alloc common conns =
     (if \<not> mem then (-1, [])
      else case x86_setup_connections alloc 0 conns [] [] of
             (None, es) \<Rightarrow> (-1, es)
           | (Some handles, es) \<Rightarrow> (common handles, es))"

section \<open>Secure monitor calls\<close>

text \<open>A call for which the configuration grants a capability is forwarded; the others get the default.\<close>

definition vm_smc_handler :: "(u64 \<Rightarrow> nat) \<Rightarrow> (nat \<Rightarrow> 'r \<Rightarrow> int \<times> 'r) \<Rightarrow> ('r \<Rightarrow> int \<times> 'r) \<Rightarrow> u64 \<Rightarrow> 'r \<Rightarrow> int \<times> 'r" where
  "vm_smc_handler camkes_get_smc_cap smc_forward vm_smc_handle_default function_id regs =
     (let smc_cap = camkes_get_smc_cap function_id
      in if smc_cap \<noteq> 0 then smc_forward smc_cap regs else vm_smc_handle_default regs)"

section \<open>The virtual UART gets the bytes of the ring\<close>

lemma ring_used_step:
  assumes "unat h < 4088" "unat t < 4088" "h \<noteq> t"
  shows "ring_used h t = Suc (ring_used ((h + 1) mod BUFSIZE) t)"
proof -
  have "unat h \<noteq> unat t" using assms(3) by (simp add: word_unat_eq_iff)
  then show ?thesis using assms(1,2) by (auto simp: ring_used_nat unat_next)
qed

lemma ring_bytes_step:
  assumes "ring_wf r" "sh_head r \<noteq> sh_tail r"
  shows "ring_wf (r\<lparr>sh_head := (sh_head r + 1) mod BUFSIZE\<rparr>)"
    "ring_bytes r = sh_buf r ! unat (sh_head r) # ring_bytes (r\<lparr>sh_head := (sh_head r + 1) mod BUFSIZE\<rparr>)"
proof -
  have b: "unat (sh_head r) < 4088" "unat (sh_tail r) < 4088" "length (sh_buf r) = 4088"
    using assms(1) by (simp_all add: ring_wf_def less_BUFSIZE)
  show "ring_wf (r\<lparr>sh_head := (sh_head r + 1) mod BUFSIZE\<rparr>)"
    using assms(1) b by (auto simp: ring_wf_def less_BUFSIZE unat_next)
  have n: "(unat (sh_head r) + 1) mod 4088 = unat ((sh_head r + 1) mod BUFSIZE)"
    using b(1) by (auto simp: unat_next)
  show "ring_bytes r = sh_buf r ! unat (sh_head r) # ring_bytes (r\<lparr>sh_head := (sh_head r + 1) mod BUFSIZE\<rparr>)"
    using ring_contents_pop [of "ring_used (sh_head r) (sh_tail r)" "unat (sh_head r)" "sh_buf r"]
      ring_used_step [OF b(1,2) assms(2)] b n
    by (simp add: ring_bytes_def bytes_between_def)
qed

lemma vuart_drains:
  fixes r :: serial_shmem
  assumes "ring_wf r"
  shows "ok (vuart_handle_console r out) (\<lambda>(r', out'). out' = out @ ring_bytes r \<and> r' = r\<lparr>sh_head := sh_tail r\<rparr>)"
proof -
  define P where "P = (\<lambda>(b, o', bad). \<not> bad \<and> ring_wf b \<and> o' @ ring_bytes b = out @ ring_bytes r \<and>
    sh_tail b = sh_tail r \<and> sh_buf b = sh_buf r)"
  define f where "f = (\<lambda>(b :: serial_shmem, o' :: u8 list, bad :: bool). length (ring_bytes b))"
  have step: "P (vuart_turn s) \<and> f (vuart_turn s) < f s" if "P s" "vuart_more s" for s
  proof -
    obtain b o' bad where s: "s = (b, o', bad)" by (cases s)
    have b: "ring_wf b" "sh_head b \<noteq> sh_tail b" "\<not> bad" using that by (simp_all add: s P_def vuart_more_def)
    then have "unat (sh_head b) < length (sh_buf b)" by (simp add: ring_wf_def less_BUFSIZE)
    then show ?thesis
      using ring_bytes_step [OF b(1,2)] that(1) by (auto simp: s vuart_turn_def P_def f_def)
  qed
  have "P (r, out, False)" using assms by (simp add: P_def)
  from ok_rwhile [of P vuart_more vuart_turn f, OF step this]
  show ?thesis
    unfolding vuart_handle_console_def
    by (auto simp: P_def vuart_more_def ring_bytes_def bytes_between_def elim!: ok_mono)
qed

text \<open>
  The virtual UART gets exactly the bytes of the ring, in order, and the loop ends with the ring
  empty, as long as the ring is well formed.  The tail belongs to another component and is not
  checked: a tail outside the ring makes the monitor read the ring for ever, and a head outside it
  is read at once.
\<close>

theorem vuart_console:
  fixes r :: serial_shmem
  assumes "length (sh_buf r) = 4088"
  shows "(ring_wf r \<longrightarrow> ok (vuart_handle_console r out) (\<lambda>(r', out'). out' = out @ ring_bytes r \<and> r' = r\<lparr>sh_head := sh_tail r\<rparr>)) \<and>
    (sh_head r < BUFSIZE \<and> BUFSIZE \<le> sh_tail r \<longrightarrow> vuart_handle_console r out = Inl NoReturn) \<and>
    (BUFSIZE \<le> sh_head r \<and> sh_head r \<noteq> sh_tail r \<longrightarrow> vuart_handle_console r out = Inl OutOfBounds)"
proof (intro conjI impI)
  show "ok (vuart_handle_console r out) (\<lambda>(r', out'). out' = out @ ring_bytes r \<and> r' = r\<lparr>sh_head := sh_tail r\<rparr>)" if "ring_wf r"
    using that by (rule vuart_drains)
  show "vuart_handle_console r out = Inl NoReturn" if t: "sh_head r < BUFSIZE \<and> BUFSIZE \<le> sh_tail r"
  proof -
    define P where "P = (\<lambda>(b :: serial_shmem, o' :: u8 list, bad). \<not> bad \<and> unat (sh_head b) < 4088 \<and> 4088 \<le> unat (sh_tail b) \<and> length (sh_buf b) = 4088)"
    have "vuart_more s \<and> P (vuart_turn s)" if "P s" for s
      using that by (cases s) (auto simp: P_def vuart_more_def vuart_turn_def unat_next)
    moreover have "P (r, out, False)" using t assms by (simp add: P_def less_BUFSIZE not_less [symmetric])
    ultimately have "rwhile vuart_more vuart_turn (r, out, False) = Inl NoReturn" using rwhile_diverges [of P] by blast
    then show ?thesis by (simp add: vuart_handle_console_def)
  qed
  show "vuart_handle_console r out = Inl OutOfBounds" if h: "BUFSIZE \<le> sh_head r \<and> sh_head r \<noteq> sh_tail r"
  proof -
    have "\<not> unat (sh_head r) < 4088" using h by (simp add: less_BUFSIZE [symmetric] not_less)
    then show ?thesis
      using h assms unfolding vuart_handle_console_def
      by (subst rwhile_unfold, subst rwhile_unfold) (simp add: vuart_more_def vuart_turn_def)
  qed
qed

theorem vuart_console_witness:
  "vuart_handle_console \<lparr>sh_head = 0, sh_tail = 4088, sh_buf = replicate 4088 0\<rparr> [] = Inl NoReturn"
  using vuart_console [of "\<lparr>sh_head = 0, sh_tail = 4088, sh_buf = replicate 4088 0\<rparr>" "[]"]
  by (simp add: BUFSIZE_def)

section \<open>Extra frames are mapped from the wrong capabilities\<close>

lemma hack_index_64:
  assumes "k < 2 ^ 31"
  shows "sint (hack_cap_idx base (base + 4096 * of_nat k :: u64)) = - int k"
proof -
  have "unat (base - (base + 4096 * of_nat k)) = (if k = 0 then 0 else 2 ^ 64 - 4096 * k)"
  proof (cases "k = 0")
    case False
    have "unat (4096 * of_nat k :: u64) = 4096 * k"
      using assms by (simp add: unat_word_ariths unsigned_of_nat take_bit_nat_eq_self)
    moreover have "base - (base + 4096 * of_nat k) + 4096 * of_nat k = 0" by simp
    ultimately show ?thesis
      using False assms unat_plus_mod [of "base - (base + 4096 * of_nat k)" "4096 * of_nat k"] by (simp split: if_splits)
  qed simp
  moreover have "(2 ^ 64 - 4096 * k) div 4096 = 2 ^ 52 - k"
  proof -
    have "2 ^ 64 - 4096 * k = 4096 * (2 ^ 52 - k)" by (simp add: diff_mult_distrib2)
    then show ?thesis by simp
  qed
  ultimately have "unat ((base - (base + 4096 * of_nat k)) div 4096) = (if k = 0 then 0 else 2 ^ 52 - k)"
    by (simp add: unat_div del: diff_add_cancel)
  then have "of_nat (unat ((base - (base + 4096 * of_nat k)) div 4096)) = (- of_nat k :: i32)"
    using assms by (simp add: of_nat_diff)
  then have "hack_cap_idx base (base + 4096 * of_nat k) = - of_nat k"
    unfolding hack_cap_idx_def by simp
  also have "\<dots> = word_of_int (- int k)" by simp
  finally have "sint (hack_cap_idx base (base + 4096 * of_nat k)) = sint (word_of_int (- int k) :: i32)" by simp
  also have "\<dots> = signed_take_bit 31 (- int k)" unfolding signed_of_int by simp
  also have "\<dots> = - int k" using assms by (intro signed_take_bit_int_eq_self) simp_all
  finally show ?thesis .
qed

lemma hack_index_32:
  assumes "0 < k" "k < 2 ^ 20"
  shows "sint (hack_cap_idx base (base + 4096 * of_nat k :: u32)) = 2 ^ 20 - int k"
proof -
  have "unat (4096 * of_nat k :: u32) = 4096 * k"
    using assms by (simp add: unat_word_ariths unsigned_of_nat take_bit_nat_eq_self)
  moreover have "base - (base + 4096 * of_nat k) + 4096 * of_nat k = 0" by simp
  ultimately have "unat (base - (base + 4096 * of_nat k)) = 2 ^ 32 - 4096 * k"
    using assms unat_plus_mod [of "base - (base + 4096 * of_nat k)" "4096 * of_nat k"] by (simp split: if_splits)
  moreover have "(2 ^ 32 - 4096 * k) div 4096 = 2 ^ 20 - k"
  proof -
    have "2 ^ 32 - 4096 * k = 4096 * (2 ^ 20 - k)" by (simp add: diff_mult_distrib2)
    then show ?thesis by simp
  qed
  ultimately have u: "unat (hack_cap_idx base (base + 4096 * of_nat k)) = 2 ^ 20 - k"
    using assms by (simp add: hack_cap_idx_def unat_div)
  then have "sint (hack_cap_idx base (base + 4096 * of_nat k)) = int (2 ^ 20 - k)"
    using assms by (subst sint_small) simp_all
  then show ?thesis using assms by (simp add: of_nat_diff)
qed

text \<open>
  C0. The extra frames are mapped from the wrong capabilities.  The offset of a page is subtracted
  the wrong way round: for the \<open>k\<close>-th page the capability is taken \<open>k\<close> slots before the first one
  on a 64-bit machine and almost \<open>2\<^sup>20\<close> slots after it on a 32-bit one; only the first page is right.
\<close>

theorem extra_frames_wrong:
  assumes "0 < k" "k < 2 ^ 20" "int k \<le> start" "start < 2 ^ 63"
  shows "fr_cptr (map_frame_hack_iterator start base base) = nat start \<and>
    fr_cptr (map_frame_hack_iterator start base (base + 4096 * of_nat k)) = nat start - k \<and>
    sint (hack_cap_idx base32 (base32 + 4096 * of_nat k :: u32)) = 2 ^ 20 - int k"
proof -
  have u: "unat (word_of_int x :: u64) = nat x" if "0 \<le> x" "x < 2 ^ 63" for x
    using that by (simp add: unsigned_of_int take_bit_int_eq_self)
  have i: "sint (hack_cap_idx base base) = 0" "sint (hack_cap_idx base (base + 4096 * of_nat k)) = - int k"
    using hack_index_64 [of 0 base] hack_index_64 [of k base] assms by simp_all
  have "fr_cptr (map_frame_hack_iterator start base base) = nat start"
    unfolding map_frame_hack_iterator_def Let_def i page_frame_def vm_frame.simps using assms by (subst u) simp_all
  moreover have "fr_cptr (map_frame_hack_iterator start base (base + 4096 * of_nat k)) = nat start - k"
    unfolding map_frame_hack_iterator_def Let_def i page_frame_def vm_frame.simps
    using assms by (subst u) (simp_all add: nat_diff_distrib)
  ultimately show ?thesis using hack_index_32 [OF assms(1,2)] by blast
qed

theorem extra_frames_wrong_witness:
  "fr_cptr (map_frame_hack_iterator 100 0x40000000 0x40003000) = 97"
  using extra_frames_wrong [of 3 100 "0x40000000" 0] by simp

section \<open>Connections are set up completely\<close>

lemma setup_all:
  assumes "\<And>i. alloc i"
  shows "k + length cs \<le> length hs \<Longrightarrow>
    setup_connections alloc k (map Some cs) hs = Inr (0, take k hs @ map (Some \<circ> crossvm_entry) cs @ drop (k + length cs) hs)"
proof (induction cs arbitrary: k hs)
  case (Cons c cs)
  have "setup_connections alloc k (map Some (c # cs)) hs = setup_connections alloc (Suc k) (map Some cs) (hs[k := Some (crossvm_entry c)])"
    using Cons.prems assms by (simp add: setup_connection_def aset_def)
  also have "\<dots> = Inr (0, take (Suc k) (hs[k := Some (crossvm_entry c)]) @ map (Some \<circ> crossvm_entry) cs @
      drop (Suc k + length cs) (hs[k := Some (crossvm_entry c)]))"
    using Cons.prems by (intro Cons.IH) simp
  also have "take (Suc k) (hs[k := Some (crossvm_entry c)]) = take k hs @ [Some (crossvm_entry c)]"
    using Cons.prems by (simp add: take_Suc_conv_app_nth)
  finally show ?case using Cons.prems by simp
qed simp

lemma setup_overrun:
  assumes "\<And>i. alloc i"
  shows "Some c \<in> set (drop (length hs - k) cs) \<Longrightarrow> setup_connections alloc k cs hs = Inl OutOfBounds"
proof (induction cs arbitrary: k hs)
  case (Cons d cs)
  show ?case
  proof (cases "k < length hs")
    case True
    then have "Some c \<in> set (drop (length hs - Suc k) cs)"
      using Cons.prems(1) by (metis Suc_diff_Suc drop_Suc_Cons)
    then show ?thesis
      using Cons.IH [of hs "Suc k"] Cons.IH [of "hs[k := Some (crossvm_entry (the d))]" "Suc k"] True assms
      by (cases d) (simp_all add: setup_connection_def aset_def)
  next
    case False
    show ?thesis
    proof (cases d)
      case None
      then show ?thesis using Cons.IH [of hs "Suc k"] Cons.prems False by simp
    next
      case (Some e)
      then show ?thesis using assms False by (simp add: setup_connection_def aset_def)
    qed
  qed
qed simp

lemma setup_append:
  "setup_connections alloc k (xs @ ys) hs = rbind (setup_connections alloc k xs hs) (\<lambda>(err, hs).
     if err \<noteq> 0 then Inr (-1, hs) else setup_connections alloc (k + length xs) ys hs)"
proof (induction alloc k xs hs rule: setup_connections.induct)
  case (3 alloc i c cs hs)
  then show ?case by (cases "setup_connection (alloc i) i c hs") (auto cong: if_cong)
qed (simp_all cong: if_cong)

lemma setup_gaps: "setup_connections alloc k (replicate n None) hs = Inr (0, hs)"
  by (induction n arbitrary: k) simp_all

text \<open>
  C38. Every connection is set up exactly once, in order, and the library is given all of them, when
  memory suffices and the linker section has no gap.  A gap before another connection is not
  counted when the array is allocated but advances the index: the write of the last connection
  leaves the array.
\<close>

theorem crossvm_connections_exact:
  assumes "\<And>i. alloc i"
  shows "arm_cross_vm_connections_init True alloc common cs (map Some ss @ replicate n None) =
      (let handles = map (Some \<circ> crossvm_entry) (cs @ ss) in Inr (common handles, Some handles)) \<and>
    arm_cross_vm_connections_init True alloc common cs (map Some ss @ None # gaps @ [Some c]) = Inl OutOfBounds"
proof -
  have first: "setup_connections alloc 0 (map Some cs) (replicate (length cs + m) None) =
      Inr (0, map (Some \<circ> crossvm_entry) cs @ replicate m None)" for m
    using setup_all [OF assms, of 0 cs "replicate (length cs + m) None"] by (simp add: replicate_add)
  have "setup_connections alloc (length cs) (map Some ss @ replicate n None)
      (map (Some \<circ> crossvm_entry) cs @ replicate (length ss) None) =
      Inr (0, map (Some \<circ> crossvm_entry) (cs @ ss))"
    using setup_all [OF assms, of "length cs" ss "map (Some \<circ> crossvm_entry) cs @ replicate (length ss) None"]
    by (simp add: setup_append setup_gaps)
  moreover have "length (filter (\<lambda>c. c \<noteq> None) (map Some ss @ replicate n None)) = length ss"
    by (simp add: filter_map o_def)
  ultimately have good: "arm_cross_vm_connections_init True alloc common cs (map Some ss @ replicate n None) =
      (let handles = map (Some \<circ> crossvm_entry) (cs @ ss) in Inr (common handles, Some handles))"
    using first [of "length ss"] by (simp add: arm_cross_vm_connections_init_def Let_def)
  let ?secs = "map Some ss @ None # gaps @ [Some c]"
  define m where "m = length (filter (\<lambda>c. c \<noteq> None) ?secs)"
  have "m \<le> length (map Some ss @ None # gaps)"
    using length_filter_le [of "\<lambda>c. c \<noteq> None" gaps] by (simp add: m_def filter_map o_def)
  then have "drop m ((map Some ss @ None # gaps) @ [Some c]) = drop m (map Some ss @ None # gaps) @ [Some c]"
    by (simp only: drop_append) simp
  then have "Some c \<in> set (drop m ?secs)" by (metis append.assoc append_Cons in_set_conv_decomp)
  then have "setup_connections alloc (length cs) ?secs (map (Some \<circ> crossvm_entry) cs @ replicate m None) = Inl OutOfBounds"
    by (intro setup_overrun [OF assms]) simp
  then have "arm_cross_vm_connections_init True alloc common cs ?secs = Inl OutOfBounds"
    using first [of m] by (simp add: arm_cross_vm_connections_init_def Let_def m_def)
  with good show ?thesis by blast
qed

definition sample_connection :: crossvm_connection where
  "sample_connection = \<lparr>cv_frame_size_bits = 12, cv_frames = [7], cv_emit = None, cv_badge = 1, cv_name = ''a''\<rparr>"

theorem crossvm_connections_exact_witness:
  "arm_cross_vm_connections_init True (\<lambda>i. True) (\<lambda>hs. int (length hs)) [sample_connection] [Some sample_connection, None] =
     Inr (2, Some [Some (crossvm_entry sample_connection), Some (crossvm_entry sample_connection)])"
  using crossvm_connections_exact [of "\<lambda>i. True" "\<lambda>hs. int (length hs)" "[sample_connection]" "[sample_connection]" 1 "[]" sample_connection]
  by simp

end
