(* ===== verification/Arm_Templates.thy ===== *)
theory Arm_Templates
  imports Arm_Boot Vmm_Config
begin

unbundle bit_operations_syntax

text \<open>
  What the templates of the ARM monitor generate:
  \<^verbatim>\<open>templates/seL4VMDTBPassthrough-to.template.c\<close> hands the interrupts and the
  registers of device tree nodes to the monitor, and
  \<^verbatim>\<open>templates/seL4VMParameters.template.c\<close> generates the configuration of the guest.
  The queries of the device tree, the macros of the template language and the allocation of
  capabilities belong to the build system and are the record \<open>dtb_macros\<close>.
\<close>

section \<open>Devices of the device tree\<close>

text \<open>What the queries return for a node: its register blocks, its interrupts with their triggers, its path.\<close>

record dtb_node =
  reg_set :: "(nat \<times> nat) list"
  irq_set :: "(int \<times> int) list"
  this_node_path :: "string option"

record dtb_macros =
  ROUND_DOWN :: "nat \<Rightarrow> nat \<Rightarrow> nat"
  ROUND_UP :: "nat \<Rightarrow> nat \<Rightarrow> nat"
  get_untypeds_from_range :: "nat \<Rightarrow> nat \<Rightarrow> (nat \<times> nat) list"
  alloc_untyped :: "nat \<Rightarrow> nat \<Rightarrow> cptr"
  alloc_irq :: "int \<Rightarrow> int option \<Rightarrow> cptr"

record dtb_template =
  untyped_dtb_mmio :: "(nat \<times> nat \<times> cptr) list"
  dtb_irqs_map :: "int \<rightharpoonup> cptr"
  irq_caps :: "(int \<times> cptr) list"
  node_paths :: "string option list"

definition dtb_empty :: dtb_template where
  "dtb_empty = \<lparr>untyped_dtb_mmio = [], dtb_irqs_map = Map.empty, irq_caps = [], node_paths = []\<rparr>"

definition reg_untypeds :: "dtb_macros \<Rightarrow> nat \<times> nat \<Rightarrow> (nat \<times> nat \<times> cptr) list" where
  "reg_untypeds M r =
     (let paddr = ROUND_DOWN M (fst r) 4096;
          sz = ROUND_UP M (snd r) 4096
      in map (\<lambda>(paddr_alloc, size_bits). (paddr_alloc, size_bits, alloc_untyped M paddr_alloc size_bits))
           (get_untypeds_from_range M paddr sz))"

definition add_reg :: "dtb_macros \<Rightarrow> nat \<times> nat \<Rightarrow> dtb_template \<Rightarrow> dtb_template" where
  "add_reg M r t = t\<lparr>untyped_dtb_mmio := untyped_dtb_mmio t @ reg_untypeds M r\<rparr>"

definition add_irq :: "dtb_macros \<Rightarrow> int \<times> int \<Rightarrow> dtb_template \<Rightarrow> dtb_template" where
  "add_irq M irq t =
     (if dtb_irqs_map t (fst irq) = None
      then let cap = alloc_irq M (fst irq) (if snd irq \<noteq> 0 then Some (snd irq) else None)
           in t\<lparr>irq_caps := irq_caps t @ [(fst irq, cap)], dtb_irqs_map := (dtb_irqs_map t)(fst irq \<mapsto> cap)\<rparr>
      else t)"

definition add_node :: "dtb_macros \<Rightarrow> dtb_node \<Rightarrow> dtb_template \<Rightarrow> dtb_template" where
  "add_node M node t =
     (let t = fold (add_reg M) (reg_set node) t;
          t = fold (add_irq M) (irq_set node) t
      in t\<lparr>node_paths := node_paths t @ [this_node_path node]\<rparr>)"

text \<open>After the nodes the interrupts that the configuration names itself, which have no trigger.\<close>

definition add_conf_irqs :: "dtb_macros \<Rightarrow> int list \<Rightarrow> dtb_template \<Rightarrow> dtb_template" where
  "add_conf_irqs M irqs = fold (\<lambda>irq. add_irq M (irq, 0)) irqs"

definition dtb_expand :: "dtb_macros \<Rightarrow> dtb_node list \<Rightarrow> int list \<Rightarrow> dtb_template" where
  "dtb_expand M dtb conf_irqs = add_conf_irqs M conf_irqs (fold (add_node M) dtb dtb_empty)"

section \<open>The generated functions\<close>

definition camkes_dtb_irqs :: "dtb_template \<Rightarrow> int list" where
  "camkes_dtb_irqs t = map fst (irq_caps t)"

definition camkes_dtb_node_paths :: "dtb_template \<Rightarrow> string list" where
  "camkes_dtb_node_paths t = concat (map (\<lambda>p. case p of None \<Rightarrow> [] | Some d \<Rightarrow> if d = [] then [] else [d]) (node_paths t))"

definition keep_list :: "string list option \<Rightarrow> string list" where
  "keep_list conf = (case conf of None \<Rightarrow> [] | Some ds \<Rightarrow> ds)"

definition camkes_dtb_get_node_paths :: "dtb_template \<Rightarrow> int \<times> string list" where
  "camkes_dtb_get_node_paths t = (int (length (camkes_dtb_node_paths t)), camkes_dtb_node_paths t)"

definition camkes_dtb_get_plat_keep_devices :: "string list option \<Rightarrow> int \<times> string list" where
  "camkes_dtb_get_plat_keep_devices conf = (int (length (keep_list conf)), keep_list conf)"

definition camkes_dtb_get_plat_keep_devices_and_subtree :: "string list option \<Rightarrow> int \<times> string list" where
  "camkes_dtb_get_plat_keep_devices_and_subtree conf = (int (length (keep_list conf)), keep_list conf)"

definition camkes_dtb_get_irqs :: "dtb_template \<Rightarrow> int \<times> int list" where
  "camkes_dtb_get_irqs t = (int (length (camkes_dtb_irqs t)), camkes_dtb_irqs t)"

definition camkes_dtb_get_irq_cap :: "(cptr \<Rightarrow> int) \<Rightarrow> int \<Rightarrow> dtb_template \<Rightarrow> int \<Rightarrow> int" where
  "camkes_dtb_get_irq_cap seL4_CNode_Copy seL4_FailedLookup t irq =
     (if irq_caps t \<noteq> []
      then case map_of (irq_caps t) irq of Some cap \<Rightarrow> seL4_CNode_Copy cap | None \<Rightarrow> seL4_FailedLookup
      else seL4_FailedLookup)"

definition camkes_dtb_untyped_count :: "dtb_template \<Rightarrow> int" where
  "camkes_dtb_untyped_count t = int (length (untyped_dtb_mmio t))"

definition camkes_dtb_get_nth_untyped :: "dtb_template \<Rightarrow> int \<Rightarrow> (nat \<times> nat \<times> cptr) res" where
  "camkes_dtb_get_nth_untyped t n = (case switch_on (untyped_dtb_mmio t) n of Some u \<Rightarrow> Inr u | None \<Rightarrow> Inl AssertFail)"

section \<open>Every interrupt once\<close>

definition dtb_requests :: "dtb_node list \<Rightarrow> int list \<Rightarrow> (int \<times> int) list" where
  "dtb_requests dtb conf_irqs = concat (map irq_set dtb) @ map (\<lambda>irq. (irq, 0)) conf_irqs"

definition requested_cap :: "dtb_macros \<Rightarrow> int \<Rightarrow> int \<Rightarrow> cptr" where
  "requested_cap M irq trigger = alloc_irq M irq (if trigger \<noteq> 0 then Some trigger else None)"

lemma add_irq_simps:
  "untyped_dtb_mmio (add_irq M q t) = untyped_dtb_mmio t" "node_paths (add_irq M q t) = node_paths t"
  by (simp_all add: add_irq_def Let_def)

lemma fold_add_reg:
  "fold (add_reg M) rs t = t\<lparr>untyped_dtb_mmio := untyped_dtb_mmio t @ concat (map (reg_untypeds M) rs)\<rparr>"
  by (induction rs arbitrary: t) (simp_all add: add_reg_def)

lemma fold_add_irq_mmio: "untyped_dtb_mmio (fold (add_irq M) qs t) = untyped_dtb_mmio t"
  by (induction qs arbitrary: t) (simp_all add: add_irq_simps)

definition irqs_wf :: "dtb_macros \<Rightarrow> (int \<times> int) list \<Rightarrow> dtb_template \<Rightarrow> bool" where
  "irqs_wf M rs t \<longleftrightarrow>
     dtb_irqs_map t = map_of (irq_caps t) \<and> distinct (map fst (irq_caps t)) \<and>
     map fst (irq_caps t) = rev (remdups (rev (map fst rs))) \<and>
     (\<forall>irq. map_of (irq_caps t) irq = map_option (requested_cap M irq) (map_of rs irq))"

lemma irqs_wf_add:
  assumes "irqs_wf M rs t"
  shows "irqs_wf M (rs @ [q]) (add_irq M q t)"
proof -
  have new: "dtb_irqs_map t (fst q) = None \<longleftrightarrow> fst q \<notin> fst ` set rs"
    using assms by (simp add: irqs_wf_def map_of_eq_None_iff)
  have dom: "fst ` set (irq_caps t) = fst ` set rs"
    using assms by (metis irqs_wf_def set_map set_remdups set_rev)
  show ?thesis
  proof (cases "fst q \<in> fst ` set rs")
    case True
    then have "add_irq M q t = t" using new by (auto simp: add_irq_def)
    moreover have "map_of (rs @ [q]) irq = map_of rs irq" for irq
    proof (cases "map_of rs irq")
      case None
      then have "irq \<noteq> fst q" using True by (metis map_of_eq_None_iff)
      then show ?thesis using None by (cases q) (simp add: map_add_def)
    qed (simp add: map_add_def)
    ultimately show ?thesis using assms True by (simp add: irqs_wf_def)
  next
    case False
    let ?cap = "requested_cap M (fst q) (snd q)"
    have a: "add_irq M q t = t\<lparr>irq_caps := irq_caps t @ [(fst q, ?cap)], dtb_irqs_map := (dtb_irqs_map t)(fst q \<mapsto> ?cap)\<rparr>"
      using False new by (simp add: add_irq_def requested_cap_def Let_def)
    have n: "map_of (irq_caps t) (fst q) = None" "map_of rs (fst q) = None"
      using False dom by (simp_all add: map_of_eq_None_iff)
    show ?thesis
      unfolding irqs_wf_def a using assms False dom n
      by (cases q) (auto simp: irqs_wf_def map_add_def fun_eq_iff split: option.splits)
  qed
qed

lemma irqs_wf_fold: "irqs_wf M rs t \<Longrightarrow> irqs_wf M (rs @ qs) (fold (add_irq M) qs t)"
proof (induction qs arbitrary: rs t)
  case (Cons q qs)
  then show ?case using Cons.IH [OF irqs_wf_add [OF Cons.prems]] by simp
qed simp

lemma irqs_wf_cong:
  "irq_caps t' = irq_caps t \<Longrightarrow> dtb_irqs_map t' = dtb_irqs_map t \<Longrightarrow> irqs_wf M rs t' = irqs_wf M rs t"
  by (simp add: irqs_wf_def)

lemma irqs_wf_nodes: "irqs_wf M rs t \<Longrightarrow> irqs_wf M (rs @ concat (map irq_set dtb)) (fold (add_node M) dtb t)"
proof (induction dtb arbitrary: rs t)
  case (Cons node dtb)
  let ?t = "t\<lparr>untyped_dtb_mmio := untyped_dtb_mmio t @ concat (map (reg_untypeds M) (reg_set node))\<rparr>"
  have "irqs_wf M rs ?t" using Cons.prems by (simp add: irqs_wf_def)
  then have "irqs_wf M (rs @ irq_set node) (fold (add_irq M) (irq_set node) ?t)" by (rule irqs_wf_fold)
  then have "irqs_wf M (rs @ irq_set node) (add_node M node t)"
    by (simp add: add_node_def Let_def fold_add_reg irqs_wf_def)
  from Cons.IH [OF this] show ?case by simp
qed simp

lemma irqs_wf_expand: "irqs_wf M (dtb_requests dtb conf_irqs) (dtb_expand M dtb conf_irqs)"
proof -
  have "irqs_wf M [] dtb_empty" by (simp add: irqs_wf_def dtb_empty_def)
  from irqs_wf_fold [OF irqs_wf_nodes [OF this], of _ "map (\<lambda>irq. (irq, 0)) conf_irqs"]
  show ?thesis by (simp add: dtb_expand_def add_conf_irqs_def dtb_requests_def fold_map comp_def)
qed

lemma dtb_irq_list: "camkes_dtb_irqs (dtb_expand M dtb conf_irqs) = rev (remdups (rev (map fst (dtb_requests dtb conf_irqs))))"
  using irqs_wf_expand [of M dtb conf_irqs] by (simp add: irqs_wf_def camkes_dtb_irqs_def)

lemma dtb_irq_cap:
  "camkes_dtb_get_irq_cap copy failed (dtb_expand M dtb conf_irqs) irq =
     (case map_of (dtb_requests dtb conf_irqs) irq of None \<Rightarrow> failed | Some trigger \<Rightarrow> copy (requested_cap M irq trigger))"
proof -
  have m: "map_of (irq_caps (dtb_expand M dtb conf_irqs)) irq =
      map_option (requested_cap M irq) (map_of (dtb_requests dtb conf_irqs) irq)"
    using irqs_wf_expand [of M dtb conf_irqs] by (simp add: irqs_wf_def)
  show ?thesis
    unfolding camkes_dtb_get_irq_cap_def m
    using m by (cases "map_of (dtb_requests dtb conf_irqs) irq") auto
qed

text \<open>
  C25. Every interrupt of the device tree nodes and of the configuration is in the generated table
  once, in the order of its first request; its capability is the one that its first request
  describes, and any other interrupt is looked up in vain.  So an interrupt that the monitor routes
  because it is in the table is found by the monitor's lookup, unless the kernel refuses the copy.
\<close>

theorem dtb_irqs_exact:
  assumes "dtb_irqs A = Some (snd (camkes_dtb_get_irqs (dtb_expand M dtb conf_irqs)))"
    "\<And>c. copy c = 0" "irq \<in> set (all_irqs A)" "irq \<notin> set (linux_pt_irqs A)"
  shows "vm_simple_get_irq original (Some (camkes_dtb_get_irq_cap copy failed (dtb_expand M dtb conf_irqs))) failed irq = 0 \<and>
    snd (camkes_dtb_get_irqs (dtb_expand M dtb conf_irqs)) = rev (remdups (rev (map fst (dtb_requests dtb conf_irqs)))) \<and>
    distinct (snd (camkes_dtb_get_irqs (dtb_expand M dtb conf_irqs))) \<and>
    camkes_dtb_get_irq_cap copy' failed (dtb_expand M dtb conf_irqs) n =
      (case map_of (dtb_requests dtb conf_irqs) n of None \<Rightarrow> failed | Some trigger \<Rightarrow> copy' (requested_cap M n trigger))"
proof -
  have "irq \<in> fst ` set (dtb_requests dtb conf_irqs)"
    using assms(1,3,4) by (simp add: all_irqs_def camkes_dtb_get_irqs_def dtb_irq_list)
  then obtain trigger where "map_of (dtb_requests dtb conf_irqs) irq = Some trigger"
    by (metis map_of_eq_None_iff not_None_eq)
  then show ?thesis
    using assms(2) by (simp add: vm_simple_get_irq_def Let_def dtb_irq_cap camkes_dtb_get_irqs_def dtb_irq_list)
qed

section \<open>Which registers are covered\<close>

definition untyped_bytes :: "(nat \<times> nat \<times> cptr) list \<Rightarrow> nat set" where
  "untyped_bytes us = (\<Union>(paddr, size_bits, c) \<in> set us. {paddr..<paddr + 2 ^ size_bits})"

text \<open>What the macros promise: rounding, and untyped memory that covers a range of pages exactly.\<close>

definition macro_laws :: "dtb_macros \<Rightarrow> bool" where
  "macro_laws M \<longleftrightarrow>
     (\<forall>n. ROUND_DOWN M n 4096 = n div 4096 * 4096 \<and> ROUND_UP M n 4096 = (n + 4095) div 4096 * 4096) \<and>
     (\<forall>p n. 4096 dvd p \<longrightarrow> 4096 dvd n \<longrightarrow> (\<Union>(q, b) \<in> set (get_untypeds_from_range M p n). {q..<q + 2 ^ b}) = {p..<p + n})"

definition reg_pages :: "nat \<times> nat \<Rightarrow> nat set" where
  "reg_pages r = {fst r div 4096 * 4096..<fst r div 4096 * 4096 + (snd r + 4095) div 4096 * 4096}"

lemma untyped_bytes_concat: "untyped_bytes (concat uss) = (\<Union>us \<in> set uss. untyped_bytes us)"
  by (auto simp: untyped_bytes_def)

lemma untyped_bytes_map:
  "untyped_bytes (map (\<lambda>(q, b). (q, b, f q b)) xs) = (\<Union>(q, b) \<in> set xs. {q..<q + 2 ^ b})"
  by (simp add: untyped_bytes_def split_def)

lemma reg_untypeds_bytes: "macro_laws M \<Longrightarrow> untyped_bytes (reg_untypeds M r) = reg_pages r"
  by (simp add: reg_untypeds_def Let_def untyped_bytes_map reg_pages_def macro_laws_def)

lemma fold_add_node_mmio:
  "untyped_dtb_mmio (fold (add_node M) dtb t) =
     untyped_dtb_mmio t @ concat (map (\<lambda>n. concat (map (reg_untypeds M) (reg_set n))) dtb)"
  by (induction dtb arbitrary: t) (simp_all add: add_node_def Let_def fold_add_reg fold_add_irq_mmio)

lemma mmio_expand:
  "untyped_dtb_mmio (dtb_expand M dtb conf_irqs) = concat (map (\<lambda>n. concat (map (reg_untypeds M) (reg_set n))) dtb)"
proof -
  have "untyped_dtb_mmio (add_conf_irqs M conf_irqs t) = untyped_dtb_mmio t" for t
    using fold_add_irq_mmio [of M "map (\<lambda>irq. (irq, 0)) conf_irqs" t] by (simp add: add_conf_irqs_def fold_map comp_def)
  then show ?thesis by (simp add: dtb_expand_def fold_add_node_mmio dtb_empty_def)
qed

lemma interval_inside: "0 < n \<Longrightarrow> {p..<p + n} \<subseteq> {a..<a + k} \<longleftrightarrow> a \<le> p \<and> p + n \<le> a + (k :: nat)"
  by (simp add: atLeastLessThan_subset_iff)

text \<open>
  C39. The untyped memory handed to the monitor covers, for every register block of the nodes, as many
  pages as the block's size needs, from the page of its start: the whole block if it does not
  cross a page boundary more than that, and not its end otherwise.  The accessor hands out the
  untypeds one by one and fails an assertion behind the last.
\<close>

theorem dtb_registers:
  assumes "macro_laws M" "0 < n"
  shows "untyped_bytes (untyped_dtb_mmio (dtb_expand M dtb conf_irqs)) = (\<Union>node \<in> set dtb. \<Union>(reg_pages ` set (reg_set node))) \<and>
    map (\<lambda>i. camkes_dtb_get_nth_untyped (dtb_expand M dtb conf_irqs) (int i))
        [0..<nat (camkes_dtb_untyped_count (dtb_expand M dtb conf_irqs))] =
      map Inr (untyped_dtb_mmio (dtb_expand M dtb conf_irqs)) \<and>
    camkes_dtb_get_nth_untyped (dtb_expand M dtb conf_irqs) (camkes_dtb_untyped_count (dtb_expand M dtb conf_irqs)) = Inl AssertFail \<and>
    ({p..<p + n} \<subseteq> untyped_bytes (untyped_dtb_mmio (dtb_expand M [\<lparr>reg_set = [(p, n)], irq_set = [], this_node_path = d\<rparr>] conf_irqs)) \<longleftrightarrow>
     p mod 4096 + n \<le> (n + 4095) div 4096 * 4096)"
proof (intro conjI)
  show "untyped_bytes (untyped_dtb_mmio (dtb_expand M dtb conf_irqs)) = (\<Union>node \<in> set dtb. \<Union>(reg_pages ` set (reg_set node)))"
    using assms(1) by (simp add: mmio_expand untyped_bytes_concat reg_untypeds_bytes)
  show "map (\<lambda>i. camkes_dtb_get_nth_untyped (dtb_expand M dtb conf_irqs) (int i))
      [0..<nat (camkes_dtb_untyped_count (dtb_expand M dtb conf_irqs))] = map Inr (untyped_dtb_mmio (dtb_expand M dtb conf_irqs))"
    by (rule nth_equalityI) (simp_all add: camkes_dtb_get_nth_untyped_def camkes_dtb_untyped_count_def)
  show "camkes_dtb_get_nth_untyped (dtb_expand M dtb conf_irqs) (camkes_dtb_untyped_count (dtb_expand M dtb conf_irqs)) = Inl AssertFail"
    by (simp add: camkes_dtb_get_nth_untyped_def camkes_dtb_untyped_count_def switch_on_def)
  have bytes: "untyped_bytes (untyped_dtb_mmio (dtb_expand M [\<lparr>reg_set = [(p, n)], irq_set = [], this_node_path = d\<rparr>] conf_irqs)) =
      reg_pages (p, n)"
    using assms(1) by (simp add: mmio_expand reg_untypeds_bytes)
  have "p div 4096 * 4096 + p mod 4096 = p" by (rule div_mult_mod_eq)
  then show "({p..<p + n} \<subseteq> untyped_bytes (untyped_dtb_mmio (dtb_expand M [\<lparr>reg_set = [(p, n)], irq_set = [], this_node_path = d\<rparr>] conf_irqs))) =
      (p mod 4096 + n \<le> (n + 4095) div 4096 * 4096)"
    unfolding bytes reg_pages_def fst_conv snd_conv interval_inside [OF assms(2)] by linarith
qed

text \<open>Blocks of two nodes on one page make its untyped memory appear twice.\<close>

lemma dtb_shared_page:
  assumes "macro_laws M" "p div 4096 = q div 4096"
  shows "untyped_dtb_mmio (dtb_expand M [\<lparr>reg_set = [(p, n)], irq_set = is, this_node_path = d\<rparr>, \<lparr>reg_set = [(q, n)], irq_set = js, this_node_path = e\<rparr>] conf_irqs) =
    reg_untypeds M (p, n) @ reg_untypeds M (p, n)"
  using assms by (simp add: mmio_expand reg_untypeds_def macro_laws_def)

definition sample_macros :: dtb_macros where
  "sample_macros =
     \<lparr>ROUND_DOWN = \<lambda>n b. n div b * b, ROUND_UP = \<lambda>n b. (n + b - 1) div b * b,
      get_untypeds_from_range = \<lambda>p n. map (\<lambda>i. (p + i * 4096, 12)) [0..<n div 4096],
      alloc_untyped = \<lambda>p b. word_of_nat p, alloc_irq = \<lambda>irq trigger. word_of_int irq\<rparr>"

lemma pages_cover: "(\<Union>i \<in> {0..<k}. {p + i * 4096..<p + i * 4096 + 4096}) = {p..<p + k * (4096 :: nat)}"
proof (induction k)
  case (Suc k)
  have "{0..<Suc k} = insert k {0..<k}" by auto
  then show ?case using Suc by (auto simp: algebra_simps)
qed simp

lemma sample_macros_laws: "macro_laws sample_macros"
proof -
  have "(\<Union>(q, b) \<in> set (map (\<lambda>i. (p + i * 4096, 12)) [0..<n div 4096]). {q..<q + 2 ^ b}) = {p..<p + n}"
    if "4096 dvd n" for p n :: nat
    using pages_cover [of p "n div 4096"] that by simp
  then show ?thesis by (simp add: macro_laws_def sample_macros_def add.commute)
qed

definition sample_nodes :: "dtb_node list" where
  "sample_nodes =
     [\<lparr>reg_set = [(0x10001000, 0x2000)], irq_set = [(40, 4), (41, 0)], this_node_path = Some ''/uart''\<rparr>,
      \<lparr>reg_set = [(0x20000000, 0x100)], irq_set = [(41, 1), (42, 0)], this_node_path = None\<rparr>]"

definition sample_arm :: arm_config where
  "sample_arm = \<lparr>dtb_base = None, generate_dtb = True, provide_dtb = False, provide_initrd = False, ram_base = 0, ram_size = 0,
     kernel_file = ''linux'', initrd_file = [], initrd_addr = 0, dtb_file = [], dtb_addr = 0, kernel_stdout = None,
     kernel_bootcmdline = [], pci_support = False, tk1_smmu = False, arm_smmu = False, smc_calls = False, num_cpus = 1,
     linux_pt_irqs = [27], dtb_irqs = Some [40, 41, 42, 50], custom_irq_handler = None, vmm_modules = [], keep_devices = [],
     plat_keep_devices = [], keep_subtrees = [], plat_keep_subtrees = [], plat_disable_subtrees = [],
     plat_disable = [], dtb_node_paths = [], dtb_untyped_count = True\<rparr>"

theorem dtb_irqs_exact_witness:
  "camkes_dtb_get_irqs (dtb_expand sample_macros sample_nodes [50, 40]) = (4, [40, 41, 42, 50]) \<and>
   vm_simple_get_irq (\<lambda>irq. 1) (Some (camkes_dtb_get_irq_cap (\<lambda>c. 0) 6 (dtb_expand sample_macros sample_nodes [50, 40]))) 6 50 = 0"
proof -
  have t: "camkes_dtb_get_irqs (dtb_expand sample_macros sample_nodes [50, 40]) = (4, [40, 41, 42, 50])"
    by (simp add: camkes_dtb_get_irqs_def dtb_irq_list dtb_requests_def sample_nodes_def)
  moreover have "dtb_irqs sample_arm = Some (snd (camkes_dtb_get_irqs (dtb_expand sample_macros sample_nodes [50, 40])))"
    by (simp add: t sample_arm_def)
  ultimately show ?thesis
    using dtb_irqs_exact [of sample_arm sample_macros sample_nodes "[50, 40]" "\<lambda>c. 0" 50]
    by (simp add: all_irqs_def sample_arm_def)
qed

theorem dtb_registers_witness:
  "\<not> {0x10001ff0..<0x10001ff0 + 0x20} \<subseteq>
     untyped_bytes (untyped_dtb_mmio (dtb_expand sample_macros [\<lparr>reg_set = [(0x10001ff0, 0x20)], irq_set = [], this_node_path = None\<rparr>] []))"
  using dtb_registers [OF sample_macros_laws, where n = "0x20" and p = "0x10001ff0" and dtb = "[]" and conf_irqs = "[]" and d = None] by simp

section \<open>Memory of the allocator and capabilities of the IOMMU\<close>

definition mempool_size :: "dtb_macros \<Rightarrow> nat option \<Rightarrow> nat" where
  "mempool_size M allocator_mempool_size =
     ROUND_UP M (case allocator_mempool_size of None \<Rightarrow> 80 * 1024 * 1024 | Some n \<Rightarrow> n) 4096"

definition get_allocator_mempool_size :: "dtb_macros \<Rightarrow> nat option \<Rightarrow> nat" where
  "get_allocator_mempool_size M conf = mempool_size M conf"

lemma mempool_large_enough:
  "macro_laws M \<Longrightarrow> n \<le> get_allocator_mempool_size M (Some n) \<and> 4096 dvd get_allocator_mempool_size M (Some n)"
  by (simp add: macro_laws_def get_allocator_mempool_size_def mempool_size_def)

text \<open>The templates allocate one capability of each kind.\<close>

definition camkes_get_smmu_sid_cap :: "(string \<Rightarrow> cptr) \<Rightarrow> cptr" where
  "camkes_get_smmu_sid_cap alloc = alloc ''sid''"

definition camkes_get_smmu_cb_cap :: "(string \<Rightarrow> cptr) \<Rightarrow> cptr" where
  "camkes_get_smmu_cb_cap alloc = alloc ''cb''"

section \<open>The configuration of the guest\<close>

record vm_address_config =
  va_ram_paddr_base :: u64
  va_ram_base :: u64
  va_ram_size :: u64
  va_dtb_addr :: u64
  va_initrd_addr :: u64

record vm_image_config =
  vi_provide_initrd :: bool
  vi_generate_dtb :: bool
  vi_provide_dtb :: bool
  vi_map_one_to_one :: bool
  vi_clean_cache :: bool

record image_names =
  in_kernel :: string
  in_initrd :: string
  in_dtb :: string
  in_dtb_base :: string
  in_bootcmdline :: string
  in_stdout :: string

text \<open>Options of the build that the deprecated structures depend on.\<close>

record vm_build =
  vm_initrd_file :: bool
  vm_dtb_file :: bool
  plat_exynos5 :: bool
  plat_qemu_arm_virt :: bool
  plat_tx1 :: bool
  plat_tx2 :: bool

record vm_config_t =
  vc_ram_phys_base :: u64
  vc_ram_base :: u64
  vc_ram_size :: u64
  vc_provide_initrd :: bool
  vc_generate_dtb :: bool
  vc_provide_dtb :: bool
  vc_map_one_to_one :: bool
  vc_clean_cache :: bool
  vc_dtb_addr :: u64
  vc_initrd_addr :: u64
  vc_entry_addr :: u64
  vc_files :: image_names

definition entry_offset :: "bool \<Rightarrow> u64" where
  "entry_offset is_64_bit = (if is_64_bit then 0x80000 else 0x8000)"

text \<open>The entry point of an address configuration, which is \<open>None\<close> for the text \<^verbatim>\<open>-1\<close>.\<close>

definition vm_entry_addr :: "bool \<Rightarrow> u64 option \<Rightarrow> vm_address_config \<Rightarrow> u64" where
  "vm_entry_addr is_64_bit kernel_entry_addr a =
     (case kernel_entry_addr of Some e \<Rightarrow> e | None \<Rightarrow> va_ram_base a + entry_offset is_64_bit)"

definition deprecated_flags :: "vm_build \<Rightarrow> vm_image_config" where
  "deprecated_flags b =
     \<lparr>vi_provide_initrd = vm_initrd_file b,
      vi_generate_dtb = \<not> vm_dtb_file b,
      vi_provide_dtb = vm_dtb_file b,
      vi_map_one_to_one = plat_exynos5 b \<or> plat_qemu_arm_virt b \<or> plat_tx2 b,
      vi_clean_cache = plat_tx1 b \<or> plat_tx2 b\<rparr>"

text \<open>
  Without the new structures the deprecated ones are used; that neither is there ends the build,
  which is \<open>None\<close>.
\<close>

definition vm_config ::
    "bool \<Rightarrow> vm_build \<Rightarrow> (vm_address_config \<times> u64 option) option \<Rightarrow> vm_address_config option \<Rightarrow>
     (vm_image_config \<times> image_names) option \<Rightarrow> image_names option \<Rightarrow> vm_config_t option" where
  "vm_config is_64_bit b vm_address linux_address vm_image linux_image =
     (case (case vm_address of
              Some (a, e) \<Rightarrow> Some (a, vm_entry_addr is_64_bit e a)
            | None \<Rightarrow> map_option (\<lambda>a. (a, va_ram_base a + entry_offset is_64_bit)) linux_address) of
        None \<Rightarrow> None
      | Some (a, entry) \<Rightarrow>
          (case (case vm_image of
                   Some (i, n) \<Rightarrow> Some (i, n)
                 | None \<Rightarrow> map_option (\<lambda>n. (deprecated_flags b, n)) linux_image) of
             None \<Rightarrow> None
           | Some (i, n) \<Rightarrow>
               Some \<lparr>vc_ram_phys_base = va_ram_paddr_base a, vc_ram_base = va_ram_base a, vc_ram_size = va_ram_size a,
                     vc_provide_initrd = vi_provide_initrd i, vc_generate_dtb = vi_generate_dtb i,
                     vc_provide_dtb = vi_provide_dtb i, vc_map_one_to_one = vi_map_one_to_one i,
                     vc_clean_cache = vi_clean_cache i, vc_dtb_addr = va_dtb_addr a, vc_initrd_addr = va_initrd_addr a,
                     vc_entry_addr = entry, vc_files = n\<rparr>))"

text \<open>The part of the monitor's configuration that it reads from \<^verbatim>\<open>vm_config\<close>.\<close>

definition configured :: "vm_config_t \<Rightarrow> arm_config \<Rightarrow> arm_config" where
  "configured c A = A\<lparr>generate_dtb := vc_generate_dtb c, provide_dtb := vc_provide_dtb c, provide_initrd := vc_provide_initrd c,
     ram_base := vc_ram_base c, ram_size := vc_ram_size c, kernel_file := in_kernel (vc_files c),
     initrd_file := in_initrd (vc_files c), initrd_addr := vc_initrd_addr c, dtb_file := in_dtb (vc_files c),
     dtb_addr := vc_dtb_addr c, kernel_bootcmdline := in_bootcmdline (vc_files c)\<rparr>"

text \<open>
  The deprecated structures mean the same as new ones with the standard entry point and the flags
  that the build implies, and with them the guest never gets the uninitialised address of a
  device tree: exactly one of the two sources of a tree is chosen.
\<close>

theorem legacy_configuration:
  "vm_config w b None (Some a) None (Some n) = vm_config w b (Some (a, None)) la (Some (deprecated_flags b, n)) li \<and>
   load_dtb (configured (the (vm_config w b None (Some a) None (Some n))) A) ext fdt d l =
     load_dtb (configured (the (vm_config w b None (Some a) None (Some n))) A) ext fdt d' l \<and>
   vm_config w b None None vi li' = None"
proof -
  have c: "vm_config w b None (Some a) None (Some n) = Some c \<Longrightarrow> vc_provide_dtb c = (\<not> vc_generate_dtb c)" for c
    by (auto simp: vm_config_def deprecated_flags_def)
  obtain c where "vm_config w b None (Some a) None (Some n) = Some c"
    by (simp add: vm_config_def)
  then have "load_dtb (configured (the (vm_config w b None (Some a) None (Some n))) A) ext fdt d l =
      load_dtb (configured (the (vm_config w b None (Some a) None (Some n))) A) ext fdt d' l"
    using c by (simp add: load_dtb_def configured_def)
  then show ?thesis by (simp add: vm_config_def vm_entry_addr_def)
qed

end
