(* ===== verification/Vmm_Init.thy ===== *)
theory Vmm_Init
  imports Vmm_Boot
begin

unbundle bit_operations_syntax

text \<open>
  What the x86 VMM does before its RPC interfaces are up: \<^verbatim>\<open>pre_init\<close> of
  \<^verbatim>\<open>components/Init/src/main.c\<close> builds the allocator and the address space and
  gives the allocator the untyped memory of the guest's RAM and of devices.  The libraries are a
  parameter, as in \<open>Calls\<close>, and so is what the kernel says about the untyped memory there is.
\<close>

section \<open>Before the interfaces are up\<close>

datatype ut_type = ALLOCMAN_UT_DEV_MEM | ALLOCMAN_UT_DEV

text \<open>The untyped memory of a call: its address, its size in bits and its capability.\<close>

datatype pre_call =
    PreMakeSimple | PreBootstrapAllocman | PreAddSimpleUntypeds | PreMakeVka | PreBootstrapVspace
  | PreAllocReservation | PreReservePool | PreConfigureVirtualPool
  | PreAddUts ut_type untyped_conf
  | PreReserveBrk

text \<open>The accessor leaves what it returns untouched if there is no such untyped.\<close>

definition add_ram_untyped :: "pre_call library \<Rightarrow> untyped_conf list \<Rightarrow> untyped_conf \<Rightarrow> nat \<Rightarrow> pre_call calls \<Rightarrow> pre_call calls res" where
  "add_ram_untyped ext uts garbage i =
     (let ut = (case ram_get_untyped uts (int i) of (_, None) \<Rightarrow> garbage | (_, Some u) \<Rightarrow> u)
      in checked ext (PreAddUts ALLOCMAN_UT_DEV_MEM ut))"

definition add_device_untyped ::
    "pre_call library \<Rightarrow> (nat \<Rightarrow> untyped_conf \<times> bool) \<Rightarrow> nat \<Rightarrow> pre_call calls \<Rightarrow> pre_call calls res" where
  "add_device_untyped ext simple_get_nth_untyped i l =
     (let (ut, device) = simple_get_nth_untyped i
      in if device then checked ext (PreAddUts ALLOCMAN_UT_DEV ut) l else Inr l)"

definition pre_init ::
    "pre_call library \<Rightarrow> untyped_conf list \<Rightarrow> untyped_conf \<Rightarrow> int \<Rightarrow> (nat \<Rightarrow> untyped_conf \<times> bool) \<Rightarrow>
     pre_call calls \<Rightarrow> pre_call calls res" where
  "pre_init ext uts garbage cnt simple_get_nth_untyped =
     seq_steps
       [call_void PreMakeSimple,
        call_nonzero LogFatal ext PreBootstrapAllocman,
        checked ext PreAddSimpleUntypeds,
        call_void PreMakeVka,
        checked ext PreBootstrapVspace,
        call_nonzero LogFatal ext PreAllocReservation,
        checked ext PreReservePool,
        call_void PreConfigureVirtualPool,
        run_ops (add_ram_untyped ext uts garbage) [0..<nat (ram_num_untypeds uts)],
        \<lambda>l. if cnt < 0 then Inl LogFatal
            else run_ops (add_device_untyped ext simple_get_nth_untyped) [0..<nat cnt] l,
        call_void PreReserveBrk]"

text \<open>\<^verbatim>\<open>run\<close> moves to a stack of its own; coming back from there is an error.\<close>

definition vmm_run :: "log res \<Rightarrow> int res" where
  "vmm_run main_continued_result = rbind main_continued_result (\<lambda>_. rbind (rassert False) (\<lambda>_. Inr 0))"

section \<open>All untyped memory is given to the allocator\<close>

definition pre_init_calls :: "untyped_conf list \<Rightarrow> (untyped_conf \<times> bool) list \<Rightarrow> pre_call list" where
  "pre_init_calls uts untypeds =
     [PreMakeSimple, PreBootstrapAllocman, PreAddSimpleUntypeds, PreMakeVka, PreBootstrapVspace, PreAllocReservation,
      PreReservePool, PreConfigureVirtualPool] @
     map (PreAddUts ALLOCMAN_UT_DEV_MEM) uts @
     map (PreAddUts ALLOCMAN_UT_DEV) (map fst (filter snd untypeds)) @
     [PreReserveBrk]"

lemma add_ram_untyped_nth:
  "i < length uts \<Longrightarrow> add_ram_untyped ext uts garbage i = checked ext (PreAddUts ALLOCMAN_UT_DEV_MEM (uts ! i))"
  by (simp add: add_ram_untyped_def ram_get_untyped_def)

lemma makes_ram: "makes (run_ops (add_ram_untyped ext uts garbage) [0..<length uts]) (map (PreAddUts ALLOCMAN_UT_DEV_MEM) uts)"
proof -
  have "makes (run_ops (add_ram_untyped ext uts garbage) [0..<length uts])
      (concat (map (\<lambda>i. [PreAddUts ALLOCMAN_UT_DEV_MEM (uts ! i)]) [0..<length uts]))"
    by (rule makes_run_ops) (auto simp: add_ram_untyped_nth)
  moreover have "map (\<lambda>i. PreAddUts ALLOCMAN_UT_DEV_MEM (uts ! i)) [0..<length uts] = map (PreAddUts ALLOCMAN_UT_DEV_MEM) uts"
    by (rule nth_equalityI) simp_all
  ultimately show ?thesis by (simp add: concat_map_singleton)
qed

lemma makes_devices:
  "makes (run_ops (add_device_untyped ext nth_ut) is) (map (PreAddUts ALLOCMAN_UT_DEV) (map fst (filter snd (map nth_ut is))))"
proof -
  have "makes (add_device_untyped ext nth_ut i) (if snd (nth_ut i) then [PreAddUts ALLOCMAN_UT_DEV (fst (nth_ut i))] else [])" for i
    by (auto simp: add_device_untyped_def makes_def call_zero_def split: prod.splits if_splits)
  then have "makes (run_ops (add_device_untyped ext nth_ut) is)
      (concat (map (\<lambda>i. if snd (nth_ut i) then [PreAddUts ALLOCMAN_UT_DEV (fst (nth_ut i))] else []) is))"
    by (intro makes_run_ops)
  moreover have "concat (map (\<lambda>i. if snd (nth_ut i) then [PreAddUts ALLOCMAN_UT_DEV (fst (nth_ut i))] else []) is) =
      map (PreAddUts ALLOCMAN_UT_DEV) (map fst (filter snd (map nth_ut is)))"
    by (induction "is") simp_all
  ultimately show ?thesis by simp
qed

lemma makes_pre_init:
  assumes "0 \<le> cnt"
  shows "makes (pre_init ext uts garbage cnt nth_ut) (pre_init_calls uts (map nth_ut [0..<nat cnt]))"
proof -
  have "makes (\<lambda>l. if cnt < 0 then Inl LogFatal else run_ops (add_device_untyped ext nth_ut) [0..<nat cnt] l)
      (map (PreAddUts ALLOCMAN_UT_DEV) (map fst (filter snd (map nth_ut [0..<nat cnt]))))"
    using makes_devices [of ext nth_ut "[0..<nat cnt]"] assms by (simp add: makes_def)
  moreover have "makes (run_ops (add_ram_untyped ext uts garbage) [0..<nat (ram_num_untypeds uts)]) (map (PreAddUts ALLOCMAN_UT_DEV_MEM) uts)"
    using makes_ram by (simp add: ram_num_untypeds_def)
  ultimately have "makes (pre_init ext uts garbage cnt nth_ut)
      (concat [[PreMakeSimple], [PreBootstrapAllocman], [PreAddSimpleUntypeds], [PreMakeVka], [PreBootstrapVspace],
        [PreAllocReservation], [PreReservePool], [PreConfigureVirtualPool],
        map (PreAddUts ALLOCMAN_UT_DEV_MEM) uts,
        map (PreAddUts ALLOCMAN_UT_DEV) (map fst (filter snd (map nth_ut [0..<nat cnt]))), [PreReserveBrk]])"
    unfolding pre_init_def by (intro makes_seq) (simp add: makes_call)
  then show ?thesis by (simp add: pre_init_calls_def)
qed

fun adds_untyped :: "pre_call \<Rightarrow> bool" where
  "adds_untyped (PreAddUts t u) = True"
| "adds_untyped _ = False"

text \<open>Libraries whose calls succeed.\<close>

definition pre_works :: "pre_call library" where
  "pre_works n c = (if c = PreBootstrapAllocman \<or> c = PreAllocReservation then 1 else 0)"

lemma pre_init_succeeds:
  assumes "0 \<le> cnt"
  shows "succeeds (pre_init pre_works uts garbage cnt nth_ut)"
proof -
  have u: "succeeds (checked pre_works (PreAddUts t u))" for t u
    by (rule succeeds_call) (simp add: pre_works_def)
  have ram: "succeeds (run_ops (add_ram_untyped pre_works uts garbage) is)" for "is"
    by (intro succeeds_run_ops) (simp add: add_ram_untyped_def u)
  have "succeeds (add_device_untyped pre_works nth_ut i)" for i
    using u by (auto simp: succeeds_def add_device_untyped_def split: prod.split)
  then have "succeeds (run_ops (add_device_untyped pre_works nth_ut) is)" for "is"
    by (intro succeeds_run_ops)
  then have dev: "succeeds (\<lambda>l. if cnt < 0 then Inl LogFatal else run_ops (add_device_untyped pre_works nth_ut) [0..<nat cnt] l)"
    using assms by (simp add: succeeds_def)
  show ?thesis
    unfolding pre_init_def by (intro succeeds_seq) (simp add: succeeds_call ram dev pre_works_def)
qed

lemma run_ops_devices_neg:
  assumes "pre_init ext uts garbage cnt nth_ut l = Inr l'"
  shows "0 \<le> cnt"
  using assms by (auto simp: pre_init_def rbind_eq_Inr call_zero_def call_nonzero_def call_void_def split: if_splits)



end
