(* ===== verification/Virtio_Init.thy ===== *)
theory Virtio_Init
  imports Virtio_Net Platforms Vmm_World
begin

unbundle bit_operations_syntax

text \<open>
  How virtio devices are set up and how their interrupts get to the guest: the library of the ARM
  monitor, \<^verbatim>\<open>libs/libvirtio/src/virtio_net.c\<close> and \<^verbatim>\<open>virtio_console.c\<close>,
  and the corresponding functions of the x86 backends.  The cookies on the heap are modelled with
  their lifetimes, since the emulation keeps pointers to them.
\<close>

section \<open>Interrupt lines\<close>

definition exynos5_virtio_line :: int where "exynos5_virtio_line = 92 + IRQ_SPI_OFFSET"
definition qemu_virtio_line :: int where "qemu_virtio_line = 50 + IRQ_SPI_OFFSET"
definition tx2_virtio_line :: int where "tx2_virtio_line = 220 + IRQ_SPI_OFFSET"
definition zynqmp_virtio_line :: int where "zynqmp_virtio_line = 158 + IRQ_SPI_OFFSET"

text \<open>The network device, the console and the connections between guests share one line.\<close>

lemma virtio_lines_shared:
  "plat_crossvm_irq_num exynos5410 = Inr exynos5_virtio_line"
  "plat_crossvm_irq_num exynos5422 = Inr exynos5_virtio_line"
  "plat_crossvm_irq_num qemu_arm_virt = Inr qemu_virtio_line"
  "plat_crossvm_irq_num tx2 = Inr tx2_virtio_line"
  "plat_crossvm_irq_num (zynqmp b) = Inr (-1)"
  by (simp_all add: plat_crossvm_irq_num_def aget_def exynos5410_def exynos5422_def qemu_arm_virt_def tx2_def zynqmp_def
      exynos5_virtio_line_def qemu_virtio_line_def tx2_virtio_line_def IRQ_SPI_OFFSET_def GIC_LIC_INTID_BASE_def)

section \<open>Cookies\<close>

text \<open>
  A cookie is zeroed when it is allocated: no device, no guest, no callbacks.  The emulation of a
  device has a pointer to the cookie, \<open>dv_cookie\<close>.  Allocation takes the first free address.
\<close>

record 'c cookie =
  ck_device :: "nat option"
  ck_vm :: bool
  ck_callbacks :: "'c option"

record virtio_device =
  dv_id :: nat
  dv_cookie :: "nat option"

record 'c virtio_state =
  vs_heap :: "nat \<rightharpoonup> 'c cookie"
  vs_next :: nat
  vs_devices :: "virtio_device list"

definition blank_cookie :: "'c cookie" where
  "blank_cookie = \<lparr>ck_device = None, ck_vm = False, ck_callbacks = None\<rparr>"

definition calloc_cookie :: "'c virtio_state \<Rightarrow> nat \<times> 'c virtio_state" where
  "calloc_cookie s = (vs_next s, s\<lparr>vs_heap := (vs_heap s)(vs_next s \<mapsto> blank_cookie), vs_next := Suc (vs_next s)\<rparr>)"

definition free_cookie :: "nat \<Rightarrow> 'c virtio_state \<Rightarrow> 'c virtio_state" where
  "free_cookie c s = s\<lparr>vs_heap := (vs_heap s)(c := None)\<rparr>"

text \<open>The library makes a device, or none; the console gives it its cookie right then.\<close>

definition common_make :: "nat option \<Rightarrow> nat option \<Rightarrow> 'c virtio_state \<Rightarrow> 'c virtio_state" where
  "common_make made console_data s =
     (case made of None \<Rightarrow> s | Some d \<Rightarrow> s\<lparr>vs_devices := vs_devices s @ [\<lparr>dv_id = d, dv_cookie = console_data\<rparr>]\<rparr>)"

definition set_eth_data :: "nat \<Rightarrow> nat \<Rightarrow> 'c virtio_state \<Rightarrow> 'c virtio_state" where
  "set_eth_data d c s = s\<lparr>vs_devices := map (\<lambda>v. if dv_id v = d then v\<lparr>dv_cookie := Some c\<rparr> else v) (vs_devices s)\<rparr>"

section \<open>The library of the ARM monitor\<close>

text \<open>
  \<open>mem\<close>: there is memory for the cookie; \<open>made\<close>: the device, if the library could make it.  The
  result of the registration of the interrupt is not looked at.  \<open>callbacks\<close> is read before it is
  compared with null.
\<close>

definition virtio_net_init ::
    "bool \<Rightarrow> nat option \<Rightarrow> int \<Rightarrow> 'c option \<Rightarrow> 'c virtio_state \<Rightarrow> (nat option \<times> 'c virtio_state) res" where
  "virtio_net_init mem made err callbacks s =
     rbind (deref callbacks) (\<lambda>get_mac_addr_callback.
       if \<not> mem then Inr (None, s)
       else let (c, s) = calloc_cookie s;
                s = common_make made None s
            in case made of
                 None \<Rightarrow> Inr (None, free_cookie c s)
               | Some d \<Rightarrow>
                   let s = s\<lparr>vs_heap := (vs_heap s)(c \<mapsto> \<lparr>ck_device = Some d, ck_vm = True, ck_callbacks = callbacks\<rparr>)\<rparr>
                   in Inr (Some d, set_eth_data d c s))"

definition virtio_console_init :: "bool \<Rightarrow> nat option \<Rightarrow> int \<Rightarrow> 'c virtio_state \<Rightarrow> nat option \<times> 'c virtio_state" where
  "virtio_console_init mem made err s =
     (if \<not> mem then (None, s)
      else let (c, s) = calloc_cookie s;
               s = common_make made (Some c) s;
               s = s\<lparr>vs_heap := (vs_heap s)(c \<mapsto> \<lparr>ck_device = made, ck_vm = True, ck_callbacks = None\<rparr>)\<rparr>
           in if err \<noteq> 0 then (None, free_cookie c s) else (made, s))"

text \<open>
  An interrupt for the guest.  A pointer to memory that has been given back is a fault.  The result
  is whether the line was raised, and for the network device which callback was called.
\<close>

definition cookie_at :: "nat \<Rightarrow> 'c virtio_state \<Rightarrow> 'c cookie res" where
  "cookie_at c s = (case vs_heap s c of None \<Rightarrow> Inl OutOfBounds | Some k \<Rightarrow> Inr k)"

definition lib_console_handle_irq :: "int \<Rightarrow> virtio_device \<Rightarrow> 'c virtio_state \<Rightarrow> bool res" where
  "lib_console_handle_irq err v s =
     (case dv_cookie v of
        None \<Rightarrow> Inr False
      | Some c \<Rightarrow> rbind (cookie_at c s) (\<lambda>k. Inr (ck_vm k \<and> err = 0)))"

definition lib_net_handle_irq :: "int \<Rightarrow> virtio_device \<Rightarrow> 'c virtio_state \<Rightarrow> (bool \<times> 'c option) res" where
  "lib_net_handle_irq err v s =
     (case dv_cookie v of
        None \<Rightarrow> Inr (False, None)
      | Some c \<Rightarrow> rbind (cookie_at c s) (\<lambda>k. if err \<noteq> 0 then Inr (False, None) else Inr (True, ck_callbacks k)))"

text \<open>The address and the largest frame that a network device tells the guest.\<close>

definition lib_low_level_init :: "u8 list \<Rightarrow> u8 list \<times> nat" where
  "lib_low_level_init mac = (mac, 1500)"

definition self_mac :: "(string \<Rightarrow> u8 list option) \<Rightarrow> string \<Rightarrow> u8 list res" where
  "self_mac ether_aton_r vswitch_mac_address =
     (case ether_aton_r vswitch_mac_address of None \<Rightarrow> Inl LogFatal | Some mac \<Rightarrow> Inr mac)"

section \<open>The x86 backends\<close>

definition net_raw_handle_irq :: "nat list" where "net_raw_handle_irq = [VIRTIO_NET_IRQ]"
definition vswitch_raw_handle_irq :: "nat list" where "vswitch_raw_handle_irq = [VIRTIO_NET_IRQ]"
definition blk_raw_handle_irq :: "nat list" where "blk_raw_handle_irq = [VIRTIO_BLK_IRQ]"

definition net_low_level_init :: "u8 list \<Rightarrow> u8 list \<times> nat" where
  "net_low_level_init ethdriver_mac = (ethdriver_mac, 1500)"

definition vswitch_low_level_init :: "(string \<Rightarrow> u8 list option) \<Rightarrow> string \<Rightarrow> (u8 list \<times> nat) res" where
  "vswitch_low_level_init ether_aton_r vswitch_mac_address =
     (case ether_aton_r vswitch_mac_address of None \<Rightarrow> Inl LogFatal | Some mac \<Rightarrow> Inr (mac, 1500))"

definition get_self_mac_addr :: "(string \<Rightarrow> u8 list option) \<Rightarrow> string \<Rightarrow> u8 list res" where
  "get_self_mac_addr ether_aton_r vswitch_mac_address =
     (case ether_aton_r vswitch_mac_address of None \<Rightarrow> Inl LogFatal | Some mac \<Rightarrow> Inr mac)"

text \<open>The packets that wait when the device is made are thrown away.\<close>

definition make_virtio_net :: "nat \<Rightarrow> bool \<Rightarrow> 'd eth_rx \<Rightarrow> 'd \<Rightarrow> 'd res" where
  "make_virtio_net fuel made rx d = rbind (rassert made) (\<lambda>_. drain_packets fuel rx d)"

text \<open>The device of the virtual switch: \<open>nodes\<close> is what the set-up of the queues has built.\<close>

definition make_virtio_net_vswitch :: "bool \<Rightarrow> 'g \<Rightarrow> 'g res" where
  "make_virtio_net_vswitch made nodes = rbind (rassert made) (\<lambda>_. Inr nodes)"

text \<open>The socket device: the cookie, the device, then \<open>queues\<close>, the set-up of the connections.\<close>

definition make_virtio_vsock :: "bool \<Rightarrow> nat option \<Rightarrow> 's \<Rightarrow> 'c virtio_state \<Rightarrow> ('s \<times> 'c virtio_state) res" where
  "make_virtio_vsock mem made queues s =
     (if \<not> mem then Inl LogFatal
      else let (c, s) = calloc_cookie s;
               s = s\<lparr>vs_heap := (vs_heap s)(c \<mapsto> blank_cookie\<lparr>ck_vm := True\<rparr>)\<rparr>
           in rbind (rassert (made \<noteq> None)) (\<lambda>_. Inr (queues, common_make made (Some c) s)))"

definition vsock_inject_irq :: "int \<Rightarrow> virtio_device \<Rightarrow> 'c virtio_state \<Rightarrow> nat list res" where
  "vsock_inject_irq err v s =
     (case dv_cookie v of
        None \<Rightarrow> Inr []
      | Some c \<Rightarrow> rbind (cookie_at c s) (\<lambda>k. Inr (if ck_vm k \<and> err = 0 then [VIRTIO_SCK_IRQ] else [])))"

section \<open>No pointer to a cookie that is gone\<close>

definition fresh_id :: "nat option \<Rightarrow> 'c virtio_state \<Rightarrow> bool" where
  "fresh_id made s \<longleftrightarrow> (case made of None \<Rightarrow> True | Some d \<Rightarrow> d \<notin> dv_id ` set (vs_devices s))"

text \<open>Every device has a live cookie that knows it and the guest, and there is no other cookie.\<close>

definition cookies_good :: "'c virtio_state \<Rightarrow> bool" where
  "cookies_good s \<longleftrightarrow>
     (\<forall>v \<in> set (vs_devices s). \<exists>c k. dv_cookie v = Some c \<and> vs_heap s c = Some k \<and> ck_vm k) \<and>
     dom (vs_heap s) = {c. \<exists>v \<in> set (vs_devices s). dv_cookie v = Some c} \<and>
     (\<forall>c \<in> dom (vs_heap s). c < vs_next s)"

lemma cookies_good_next: "cookies_good s \<Longrightarrow> vs_heap s (vs_next s) = None"
  unfolding cookies_good_def by (metis domIff less_irrefl)

lemma cookies_good_new:
  assumes "cookies_good s" "ck_vm k"
  shows "cookies_good (s\<lparr>vs_heap := (vs_heap s)(vs_next s \<mapsto> k), vs_next := Suc (vs_next s),
    vs_devices := vs_devices s @ [\<lparr>dv_id = d, dv_cookie = Some (vs_next s)\<rparr>]\<rparr>)"
proof -
  have n: "vs_heap s (vs_next s) = None" using assms(1) by (rule cookies_good_next)
  have old: "\<exists>c k. dv_cookie v = Some c \<and> vs_heap s c = Some k \<and> ck_vm k \<and> c \<noteq> vs_next s" if "v \<in> set (vs_devices s)" for v
    using assms(1) that n unfolding cookies_good_def by (metis option.distinct(1))
  show ?thesis
    unfolding cookies_good_def
  proof (intro conjI ballI)
    fix v assume "v \<in> set (vs_devices (s\<lparr>vs_heap := (vs_heap s)(vs_next s \<mapsto> k), vs_next := Suc (vs_next s),
      vs_devices := vs_devices s @ [\<lparr>dv_id = d, dv_cookie = Some (vs_next s)\<rparr>]\<rparr>))"
    then show "\<exists>c k'. dv_cookie v = Some c \<and> vs_heap (s\<lparr>vs_heap := (vs_heap s)(vs_next s \<mapsto> k), vs_next := Suc (vs_next s),
      vs_devices := vs_devices s @ [\<lparr>dv_id = d, dv_cookie = Some (vs_next s)\<rparr>]\<rparr>) c = Some k' \<and> ck_vm k'"
      using old [of v] assms(2) by auto
  next
    show "dom (vs_heap (s\<lparr>vs_heap := (vs_heap s)(vs_next s \<mapsto> k), vs_next := Suc (vs_next s),
        vs_devices := vs_devices s @ [\<lparr>dv_id = d, dv_cookie = Some (vs_next s)\<rparr>]\<rparr>)) =
      {c. \<exists>v \<in> set (vs_devices (s\<lparr>vs_heap := (vs_heap s)(vs_next s \<mapsto> k), vs_next := Suc (vs_next s),
        vs_devices := vs_devices s @ [\<lparr>dv_id = d, dv_cookie = Some (vs_next s)\<rparr>]\<rparr>)). dv_cookie v = Some c}"
      using assms(1) by (auto simp: cookies_good_def)
  next
    fix c assume "c \<in> dom (vs_heap (s\<lparr>vs_heap := (vs_heap s)(vs_next s \<mapsto> k), vs_next := Suc (vs_next s),
      vs_devices := vs_devices s @ [\<lparr>dv_id = d, dv_cookie = Some (vs_next s)\<rparr>]\<rparr>))"
    then show "c < vs_next (s\<lparr>vs_heap := (vs_heap s)(vs_next s \<mapsto> k), vs_next := Suc (vs_next s),
      vs_devices := vs_devices s @ [\<lparr>dv_id = d, dv_cookie = Some (vs_next s)\<rparr>]\<rparr>)"
      using assms(1) by (fastforce simp: cookies_good_def)
  qed
qed

lemma cookies_good_none:
  assumes "cookies_good s"
  shows "cookies_good (free_cookie (vs_next s) (snd (calloc_cookie s)))"
proof -
  have "(vs_heap s)(vs_next s := None) = vs_heap s" using cookies_good_next [OF assms] by (simp add: fun_upd_idem)
  then have "free_cookie (vs_next s) (snd (calloc_cookie s)) = s\<lparr>vs_next := Suc (vs_next s)\<rparr>"
    by (simp add: free_cookie_def calloc_cookie_def)
  then show ?thesis using assms by (fastforce simp: cookies_good_def less_Suc_eq)
qed

lemma set_eth_data_fresh:
  "fresh_id (Some d) s \<Longrightarrow> map (\<lambda>v. if dv_id v = d then v\<lparr>dv_cookie := Some c\<rparr> else v) (vs_devices s) = vs_devices s"
  by (rule map_idI) (auto simp: fresh_id_def)

lemma net_init_made:
  assumes "fresh_id (Some d) s"
  shows "virtio_net_init True (Some d) err (Some cb) s =
    Inr (Some d, s\<lparr>vs_heap := (vs_heap s)(vs_next s \<mapsto> \<lparr>ck_device = Some d, ck_vm = True, ck_callbacks = Some cb\<rparr>),
      vs_next := Suc (vs_next s), vs_devices := vs_devices s @ [\<lparr>dv_id = d, dv_cookie = Some (vs_next s)\<rparr>]\<rparr>)"
  by (simp add: virtio_net_init_def deref_def calloc_cookie_def common_make_def set_eth_data_def set_eth_data_fresh [OF assms])

lemma console_init_made:
  "virtio_console_init True (Some d) 0 s =
    (Some d, s\<lparr>vs_heap := (vs_heap s)(vs_next s \<mapsto> \<lparr>ck_device = Some d, ck_vm = True, ck_callbacks = None\<rparr>),
      vs_next := Suc (vs_next s), vs_devices := vs_devices s @ [\<lparr>dv_id = d, dv_cookie = Some (vs_next s)\<rparr>]\<rparr>)"
  by (simp add: virtio_console_init_def calloc_cookie_def common_make_def)


text \<open>
  When the interrupt of a console cannot be registered, the library gives the cookie back while
  the emulated console keeps its pointer to it, so the next interrupt reads freed memory; and when
  the emulation cannot make the console at all, that goes unnoticed and the cookie is never freed.
\<close>

theorem console_init_dangles:
  assumes "cookies_good s"
  shows "(err \<noteq> 0 \<longrightarrow> lib_console_handle_irq e (last (vs_devices (snd (virtio_console_init True (Some d) err s))))
            (snd (virtio_console_init True (Some d) err s)) = Inl OutOfBounds) \<and>
    fst (virtio_console_init True None 0 s) = None \<and> \<not> cookies_good (snd (virtio_console_init True None 0 s))"
proof -
  have "vs_next s \<notin> {c. \<exists>v \<in> set (vs_devices s). dv_cookie v = Some c}"
    using cookies_good_next [OF assms] assms unfolding cookies_good_def by (metis domIff)
  then have "\<not> cookies_good (snd (virtio_console_init True None 0 s))"
    by (auto simp: cookies_good_def virtio_console_init_def calloc_cookie_def common_make_def)
  then show ?thesis
    by (simp add: virtio_console_init_def calloc_cookie_def common_make_def free_cookie_def lib_console_handle_irq_def cookie_at_def)
qed

definition no_devices :: "string virtio_state" where
  "no_devices = \<lparr>vs_heap = Map.empty, vs_next = 0, vs_devices = []\<rparr>"

lemma no_devices_good: "cookies_good no_devices"
  by (simp add: cookies_good_def no_devices_def)


theorem console_init_dangles_witness:
  "lib_console_handle_irq 0 \<lparr>dv_id = 3, dv_cookie = Some 0\<rparr> (snd (virtio_console_init True (Some 3) (-1) no_devices)) = Inl OutOfBounds"
  using console_init_dangles [OF no_devices_good, of "-1" 0 3]
  by (simp add: virtio_console_init_def calloc_cookie_def common_make_def no_devices_def free_cookie_def)

end
