(* ===== verification/String_Reverse.thy ===== *)
theory String_Reverse
  imports Vmm_Prelude
begin

unbundle bit_operations_syntax

text \<open>
  The component of \<^verbatim>\<open>components/StringReverse/src/string_reverse.c\<close>: it waits for a
  client, writes the reverse of the string in one dataport to another, and signals that it is done.
  The client can write to its dataport at any time: \<open>src k\<close> is what it holds at the \<open>k\<close>-th read.
\<close>

definition STRING_REVERSE_BUFSIZE :: nat where "STRING_REVERSE_BUFSIZE = 8192"

section \<open>Reversing\<close>

text \<open>The length of the string at the start of a buffer, at most \<open>maxlen\<close>; reading past the buffer is a fault.\<close>

fun strnlen :: "u8 list \<Rightarrow> nat \<Rightarrow> nat res" where
  "strnlen s 0 = Inr 0"
| "strnlen [] (Suc maxlen) = Inl OutOfBounds"
| "strnlen (c # s) (Suc maxlen) = (if c = 0 then Inr 0 else rbind (strnlen s maxlen) (\<lambda>n. Inr (Suc n)))"

definition reverse_step :: "(nat \<Rightarrow> u8 list) \<Rightarrow> nat \<Rightarrow> nat \<Rightarrow> u8 list \<Rightarrow> u8 list res" where
  "reverse_step src len i dest = rbind (aget (src (Suc i)) (len - i - 1)) (\<lambda>c. aset dest i c)"

definition reverse_dataport_string :: "(nat \<Rightarrow> u8 list) \<Rightarrow> u8 list \<Rightarrow> nat \<Rightarrow> u8 list res" where
  "reverse_dataport_string src dest n =
     rbind (strnlen (src 0) (n - 1)) (\<lambda>len.
     rbind (run_ops (reverse_step src len) [0..<len] dest) (\<lambda>dest.
     aset dest len 0))"

text \<open>One turn of the component, from a signal to the next: the dataport and what was signalled.\<close>

datatype reverse_event = ReadyWait | DoneEmit

definition reverse_turn :: "(nat \<Rightarrow> u8 list) \<Rightarrow> u8 list \<times> reverse_event list \<Rightarrow> (u8 list \<times> reverse_event list) res" where
  "reverse_turn src s =
     (let (dest, events) = s
      in rbind (reverse_dataport_string src dest STRING_REVERSE_BUFSIZE) (\<lambda>dest. Inr (dest, events @ [ReadyWait, DoneEmit])))"

definition string_reverse_run ::
    "(nat \<Rightarrow> u8 list) list \<Rightarrow> u8 list \<times> reverse_event list \<Rightarrow> (u8 list \<times> reverse_event list) res" where
  "string_reverse_run clients = run_ops reverse_turn clients"

section \<open>What the client finds\<close>

text \<open>The string in a buffer.\<close>

definition c_string :: "u8 list \<Rightarrow> u8 list" where
  "c_string s = takeWhile (\<lambda>c. c \<noteq> 0) s"

lemma strnlen_take: "m \<le> length s \<Longrightarrow> strnlen s m = Inr (length (c_string (take m s)))"
  by (induction s m rule: strnlen.induct) (simp_all add: c_string_def)

lemma reverse_steps:
  assumes "\<And>k. length (src k) = n" "len < n" "length dest = n" "m \<le> len"
  shows "run_ops (reverse_step src len) [0..<m] dest =
    Inr (map (\<lambda>i. src (Suc i) ! (len - i - 1)) [0..<m] @ drop m dest)"
  using assms(4)
proof (induction m)
  case 0
  then show ?case by simp
next
  case (Suc m)
  have "drop m dest = dest ! m # drop (Suc m) dest" using Suc.prems assms by (simp add: Cons_nth_drop_Suc)
  then have "aset (map (\<lambda>i. src (Suc i) ! (len - i - 1)) [0..<m] @ drop m dest) m c =
      Inr (map (\<lambda>i. src (Suc i) ! (len - i - 1)) [0..<m] @ c # drop (Suc m) dest)" for c
    using Suc.prems assms by (simp add: aset_def list_update_append)
  then show ?case
    using Suc assms by (simp add: run_ops_snoc reverse_step_def aget_def)
qed

lemma reverse_dataport:
  assumes "\<And>k. length (src k) = n" "0 < n" "length dest = n"
  defines "len \<equiv> length (c_string (take (n - 1) (src 0)))"
  shows "reverse_dataport_string src dest n =
      Inr (map (\<lambda>i. src (Suc i) ! (len - i - 1)) [0..<len] @ 0 # drop (Suc len) dest)" "len < n"
proof -
  have "len \<le> n - 1" unfolding len_def c_string_def
    by (metis assms(1) length_take length_takeWhile_le min.bounded_iff)
  then show l: "len < n" using assms(2) by simp
  have n: "strnlen (src 0) (n - 1) = Inr len" using assms(1) by (simp add: strnlen_take len_def)
  have "drop len dest = dest ! len # drop (Suc len) dest" using l assms(3) by (simp add: Cons_nth_drop_Suc)
  then have "aset (map (\<lambda>i. src (Suc i) ! (len - i - 1)) [0..<len] @ drop len dest) len 0 =
      Inr (map (\<lambda>i. src (Suc i) ! (len - i - 1)) [0..<len] @ 0 # drop (Suc len) dest)"
    using l assms(3) by (simp add: aset_def list_update_append)
  then show "reverse_dataport_string src dest n =
      Inr (map (\<lambda>i. src (Suc i) ! (len - i - 1)) [0..<len] @ 0 # drop (Suc len) dest)"
    using reverse_steps [of src n len dest len] assms(1,3) l n by (simp add: reverse_dataport_string_def)
qed

lemma c_string_whole: "0 \<notin> set s \<Longrightarrow> c_string (s @ 0 # t) = s"
  unfolding c_string_def by (subst takeWhile_append2) auto

lemma reverse_stable:
  assumes "0 \<notin> set s" "length (s @ 0 # t) = n" "length dest = n"
  shows "reverse_dataport_string (\<lambda>k. s @ 0 # t) dest n = Inr (rev s @ 0 # drop (Suc (length s)) dest)"
proof -
  have t: "c_string (take (n - 1) (s @ 0 # t)) = s"
  proof (cases t)
    case Nil
    then have "take (n - 1) (s @ 0 # t) = s" using assms(2) by simp
    moreover have "c_string s = s" using assms(1) unfolding c_string_def takeWhile_eq_all_conv by auto
    ultimately show ?thesis by simp
  next
    case (Cons x xs)
    then have "take (n - 1) (s @ 0 # t) = s @ 0 # take (length xs) t" using assms(2) by auto
    then show ?thesis using assms(1) by (simp add: c_string_whole)
  qed
  have "map (\<lambda>i. (s @ 0 # t) ! (length s - i - 1)) [0..<length s] = rev s"
    by (rule nth_equalityI) (auto simp: nth_append rev_nth)
  moreover have "reverse_dataport_string (\<lambda>k. s @ 0 # t) dest n =
      Inr (map (\<lambda>i. (s @ 0 # t) ! (length s - i - 1)) [0..<length s] @ 0 # drop (Suc (length s)) dest)"
    using reverse_dataport(1) [of "\<lambda>k. s @ 0 # t" n dest] assms(2,3) unfolding t by auto
  ultimately show ?thesis by (simp only:)
qed

text \<open>
  C30. Whatever the client writes to its dataport in the meantime, the component stays inside both
  dataports and leaves a terminated string; if the client leaves its dataport alone, the string is
  the reverse of the client's, and reversing the result gives the client's string back.
\<close>

theorem string_reverse_exact:
  assumes "\<And>k. length (src k) = n" "0 < n" "length dest = n" "length dest' = n" "0 \<notin> set s" "src' = s @ 0 # t" "length src' = n"
  shows "ok (reverse_dataport_string src dest n) (\<lambda>d. length d = n \<and> 0 \<in> set d) \<and>
    ok (reverse_dataport_string (\<lambda>k. src') dest n) (\<lambda>d. c_string d = rev s \<and>
      ok (reverse_dataport_string (\<lambda>k. d) dest' n) (\<lambda>e. c_string e = c_string src'))"
proof -
  have "c_string (rev s @ 0 # u) = rev s" "c_string (s @ 0 # u) = s" for u
    using assms(5) by (simp_all add: c_string_whole)
  then have "ok (reverse_dataport_string (\<lambda>k. src') dest n) (\<lambda>d. c_string d = rev s \<and>
      ok (reverse_dataport_string (\<lambda>k. d) dest' n) (\<lambda>e. c_string e = c_string src'))"
    using reverse_stable [of s t n dest] reverse_stable [of "rev s" "drop (Suc (length s)) dest" n dest'] assms by auto
  moreover have "ok (reverse_dataport_string src dest n) (\<lambda>d. length d = n \<and> 0 \<in> set d)"
    using reverse_dataport [of src n dest] assms(1-3) by simp
  ultimately show ?thesis by simp
qed

theorem string_reverse_exact_witness:
  "ok (reverse_dataport_string (\<lambda>k. [97, 98, 99, 0, 7]) [1, 1, 1, 1, 1] 5) (\<lambda>d. c_string d = [99, 98, 97])"
proof -
  have z: "0 \<notin> set [97, 98, 99 :: u8]" by simp
  have "ok (reverse_dataport_string (\<lambda>k. [97, 98, 99, 0, 7]) [1, 1, 1, 1, 1] 5) (\<lambda>d. c_string d = rev [97, 98, 99] \<and>
      ok (reverse_dataport_string (\<lambda>k. d) [1, 1, 1, 1, 1] 5) (\<lambda>e. c_string e = c_string [97, 98, 99, 0, 7]))"
    by (rule string_reverse_exact [where src = "\<lambda>k. [97, 98, 99, 0, 7]" and t = "[7]", OF _ _ _ _ z, THEN conjunct2]) simp_all
  then show ?thesis by (rule ok_mono) simp
qed

text \<open>The component serves any number of requests: one signal for each, and never a fault.\<close>

lemma string_reverse_serves:
  assumes "\<And>src k. src \<in> set clients \<Longrightarrow> length (src k) = STRING_REVERSE_BUFSIZE" "length (fst s) = STRING_REVERSE_BUFSIZE"
  shows "ok (string_reverse_run clients s) (\<lambda>(dest, events). length dest = STRING_REVERSE_BUFSIZE \<and>
    events = snd s @ concat (replicate (length clients) [ReadyWait, DoneEmit]))"
  using assms
proof (induction clients arbitrary: s)
  case Nil
  then show ?case by (cases s) (simp add: string_reverse_run_def)
next
  case (Cons src clients)
  obtain dest events where s: "s = (dest, events)" by (cases s)
  have "0 < STRING_REVERSE_BUFSIZE" by (simp add: STRING_REVERSE_BUFSIZE_def)
  with Cons.prems have "ok (reverse_dataport_string src dest STRING_REVERSE_BUFSIZE) (\<lambda>d. length d = STRING_REVERSE_BUFSIZE)"
    using reverse_dataport [of src STRING_REVERSE_BUFSIZE dest] s by simp
  then obtain d where "reverse_dataport_string src dest STRING_REVERSE_BUFSIZE = Inr d" "length d = STRING_REVERSE_BUFSIZE" by (auto simp: ok_iff_ex)
  then show ?case
    using Cons.IH [of "(d, events @ [ReadyWait, DoneEmit])"] Cons.prems s
    by (simp add: string_reverse_run_def reverse_turn_def)
qed

end
