(* ===== verification/Udp_Server.thy ===== *)
theory Udp_Server
  imports Virtio_Net Calls
begin

unbundle bit_operations_syntax

text \<open>
  Set-up and main loop of the UDP server, \<^verbatim>\<open>components/UDPServer/src/udpserver.c\<close>.
  The TCP/IP stack and the Ethernet driver are libraries, as in \<open>Calls\<close>; what the server does with
  frames is in \<open>Virtio_Net\<close>.
\<close>

section \<open>Calls\<close>

datatype lwip_call =
    NewLwipDriver | ParseAddresses | LwipLock | LwipInit | NetifAdd | NetifSetUp | NetifSetDefault
  | IgmpJoin | LwipUnlock | WaitDriver | HandleIrq

text \<open>Memory for the driver comes from the heap.\<close>

definition malloc_dma_alloc :: "bool \<Rightarrow> nat option \<Rightarrow> nat option res" where
  "malloc_dma_alloc cached memalign = rbind (rassert cached) (\<lambda>_. Inr memalign)"

definition malloc_dma_pin :: "nat \<Rightarrow> nat" where "malloc_dma_pin addr = addr"

text \<open>The driver of the stack: no memory of its own, aligned to single bytes.\<close>

record eth_driver =
  eth_data :: "nat option"
  dma_alignment :: nat

definition ethdriver_init :: "eth_driver \<times> int" where
  "ethdriver_init = (\<lparr>eth_data = None, dma_alignment = 1\<rparr>, 0)"

definition udp_low_level_init :: "u8 list \<Rightarrow> u8 list \<times> nat" where
  "udp_low_level_init ethdriver_mac = (ethdriver_mac, 1500)"

section \<open>Set-up and main loop\<close>

definition udp_server_pre_init :: "lwip_call library \<Rightarrow> bool \<Rightarrow> lwip_call calls \<Rightarrow> lwip_call calls res" where
  "udp_server_pre_init ext multicast =
     seq_steps
       [call_nonzero AssertFail ext NewLwipDriver,
        call_void ParseAddresses,
        call_void LwipLock,
        call_void LwipInit,
        call_nonzero AssertFail ext NetifAdd,
        call_void NetifSetUp,
        call_void NetifSetDefault,
        \<lambda>l. if multicast then call_void IgmpJoin l else Inr l,
        call_void LwipUnlock]"

text \<open>A turn of the loop: the driver, the packets the stack has got, and the calls.\<close>

definition server_handle_irq ::
    "nat \<Rightarrow> (nat \<Rightarrow> bool) \<Rightarrow> 'd eth_rx \<Rightarrow> 'd \<Rightarrow> u8 list list \<Rightarrow> ('d \<times> u8 list list) res" where
  "server_handle_irq fuel alloc rx d out = raw_poll fuel alloc rx d out"

definition udp_server_turn ::
    "nat \<Rightarrow> (nat \<Rightarrow> bool) \<Rightarrow> 'd eth_rx \<Rightarrow> 'd \<times> u8 list list \<times> lwip_call calls \<Rightarrow> ('d \<times> u8 list list \<times> lwip_call calls) res" where
  "udp_server_turn fuel alloc rx s =
     (let (d, out, l) = s
      in rbind (server_handle_irq fuel alloc rx d out) (\<lambda>(d, out).
         Inr (d, out, l @ [WaitDriver, LwipLock, HandleIrq, LwipUnlock])))"

definition udp_server_run ::
    "nat \<Rightarrow> (nat \<Rightarrow> bool) \<Rightarrow> 'd eth_rx list \<Rightarrow> 'd \<times> u8 list list \<times> lwip_call calls \<Rightarrow> ('d \<times> u8 list list \<times> lwip_call calls) res" where
  "udp_server_run fuel alloc rxs = run_ops (udp_server_turn fuel alloc) rxs"

section \<open>The stack is only used with its lock held\<close>

text \<open>\<open>held\<close>: the server has the lock.  Waiting while holding it would stop the other clients of the stack.\<close>

fun needs_lock :: "lwip_call \<Rightarrow> bool" where
  "needs_lock LwipInit = True"
| "needs_lock NetifAdd = True"
| "needs_lock NetifSetUp = True"
| "needs_lock NetifSetDefault = True"
| "needs_lock IgmpJoin = True"
| "needs_lock HandleIrq = True"
| "needs_lock _ = False"

fun lock_ok :: "bool \<Rightarrow> lwip_call list \<Rightarrow> bool" where
  "lock_ok held [] = (\<not> held)"
| "lock_ok held (c # cs) =
     (if c = LwipLock then \<not> held \<and> lock_ok True cs
      else if c = LwipUnlock then held \<and> lock_ok False cs
      else needs_lock c = held \<and> lock_ok held cs)"

lemma lock_ok_append: "lock_ok False cs \<Longrightarrow> lock_ok held ds \<Longrightarrow> \<not> held \<Longrightarrow> lock_ok False (cs @ ds)"
proof -
  have "lock_ok h cs \<Longrightarrow> lock_ok False ds \<Longrightarrow> lock_ok h (cs @ ds)" for h
    by (induction cs arbitrary: h) (auto split: if_splits)
  then show "lock_ok False cs \<Longrightarrow> lock_ok held ds \<Longrightarrow> \<not> held \<Longrightarrow> lock_ok False (cs @ ds)" by (cases held) auto
qed

lemma pre_init_locks: "udp_server_pre_init ext multicast [] = Inr l \<Longrightarrow> lock_ok False l"
  by (auto simp: udp_server_pre_init_def call_nonzero_def call_void_def split: if_splits)

lemma turns_lock:
  "lock_ok False (snd (snd s)) \<Longrightarrow> udp_server_run fuel alloc rxs s = Inr s' \<Longrightarrow> lock_ok False (snd (snd s'))"
proof (induction rxs arbitrary: s)
  case Nil
  then show ?case by (simp add: udp_server_run_def)
next
  case (Cons rx rxs)
  obtain d out l where s: "s = (d, out, l)" by (cases s)
  from Cons.prems(2) obtain d' out' where t: "udp_server_run fuel alloc rxs (d', out', l @ [WaitDriver, LwipLock, HandleIrq, LwipUnlock]) = Inr s'"
    by (auto simp: udp_server_run_def udp_server_turn_def s rbind_eq_Inr)
  have "lock_ok False (l @ [WaitDriver, LwipLock, HandleIrq, LwipUnlock])"
    using Cons.prems(1) s by (intro lock_ok_append [of _ False]) simp_all
  then show ?case using Cons.IH [OF _ t] by simp
qed

text \<open>
  From its set-up on, whatever the driver delivers, the server enters the stack only while it
  holds the stack's lock, never takes the lock twice, and does not hold it while it waits.
\<close>

theorem udp_server_locks:
  assumes "udp_server_pre_init ext multicast [] = Inr l" "udp_server_run fuel alloc rxs (d, [], l) = Inr (d', out, l')"
  shows "lock_ok False l'"
  using turns_lock [OF _ assms(2)] pre_init_locks [OF assms(1)] by simp

theorem udp_server_locks_witness:
  "lock_ok False [NewLwipDriver, ParseAddresses, LwipLock, LwipInit, NetifAdd, NetifSetUp, NetifSetDefault, IgmpJoin, LwipUnlock,
     WaitDriver, LwipLock, HandleIrq, LwipUnlock]"
  by (rule udp_server_locks [where ext = "\<lambda>n c. 1" and multicast = True and fuel = 1 and rxs = "[\<lambda>d. Inr (-1, 0, [], d)]"
        and d = "()" and alloc = "\<lambda>k. True" and d' = "()" and out = "[]"])
    (simp_all add: udp_server_pre_init_def call_nonzero_def call_void_def answer_def udp_server_run_def udp_server_turn_def
      server_handle_irq_def raw_poll_def)

end
