(* ===== verification/Topology.thy ===== *)
theory Topology
  imports Vswitch "HOL-Library.Multiset"
begin

text \<open>
  Networks of guests: the macros of \<^verbatim>\<open>VM/configurations/connections.h\<close>, which expand a
  topology into the interfaces of the monitors, the connection between them, the identifiers and
  shared memory of their queues, and the layout that \<^verbatim>\<open>virtio_net_vswitch.c\<close> reads.
  Preprocessor tokens are strings, so that pasting tokens is appending strings; what a macro expands
  to is a list of declarations.
\<close>

section \<open>Calling a macro for each argument\<close>

type_synonym token = string

text \<open>
  There are variants of each calling macro for one to four arguments; an empty argument list counts
  as one empty argument.  With more arguments the expansion names a macro that does not exist, and the
  build fails: \<open>None\<close>.
\<close>

definition max_calls :: nat where "max_calls = 4"

definition macro_call :: "(token \<Rightarrow> 'r list) \<Rightarrow> token list \<Rightarrow> 'r list option" where
  "macro_call f args =
     (if args = [] then Some (f []) else if length args \<le> max_calls then Some (concat (map f args)) else None)"

definition macro_call_single :: "(token \<Rightarrow> token \<Rightarrow> 'r list) \<Rightarrow> token \<Rightarrow> token list \<Rightarrow> 'r list option" where
  "macro_call_single f p args =
     (if args = [] then Some (f p [])
      else if length args \<le> max_calls then Some (concat (map (f p) args)) else None)"

definition macro_call_num :: "(token \<Rightarrow> token \<Rightarrow> nat \<Rightarrow> 'r list) \<Rightarrow> token \<Rightarrow> token list \<Rightarrow> 'r list option" where
  "macro_call_num f p args =
     (if args = [] then Some (f p [] 0)
      else if length args \<le> max_calls then Some (concat (map (\<lambda>(i, a). f p a i) (enumerate 0 args))) else None)"

section \<open>Declarations\<close>

datatype vq_interface = VirtQueueDrv string | VirtQueueDev string

datatype attribute =
    IntAttr int | BoolAttr bool | StringAttr string | IntsAttr "int list" | StringsAttr "string list"
  | LayoutAttr "vswitch_mapping list"

text \<open>An entry of a monitor's list of initialisation functions; not every entry has an interrupt.\<close>

record init_entry =
  ie_init :: string
  ie_badge :: "string option"
  ie_irq :: "string option"

definition ether_send :: "token \<Rightarrow> string" where
  "ether_send vm_id = ''ether_'' @ vm_id @ ''_send''"

definition ether_recv :: "token \<Rightarrow> string" where
  "ether_recv vm_id = ''ether_'' @ vm_id @ ''_recv''"

definition of_vm :: "token \<Rightarrow> string \<Rightarrow> string" where
  "of_vm base_id name = ''vm'' @ base_id @ ''.'' @ name"

definition component_decl_add_interface_end :: "token \<Rightarrow> vq_interface list" where
  "component_decl_add_interface_end vm_id = [VirtQueueDrv (ether_send vm_id), VirtQueueDev (ether_recv vm_id)]"

definition component_decl :: "token \<Rightarrow> token list \<Rightarrow> vq_interface list option" where
  "component_decl base_id vm_ids = macro_call component_decl_add_interface_end vm_ids"

definition connection_add_interface_end :: "token \<Rightarrow> token \<Rightarrow> string list" where
  "connection_add_interface_end base_id target_id =
     [of_vm base_id (ether_send target_id), of_vm base_id (ether_recv target_id)]"

definition connection_perVM_add_interfaces :: "token \<Rightarrow> token list \<Rightarrow> string list option" where
  "connection_perVM_add_interfaces base_id vm_ids = macro_call_single connection_add_interface_end base_id vm_ids"

definition config_per_connection :: "token \<Rightarrow> token \<Rightarrow> nat \<Rightarrow> (string \<times> attribute) list" where
  "config_per_connection base_id target_id idx =
     [(of_vm base_id (ether_send target_id @ ''_id''), IntAttr (int idx * 2)),
      (of_vm base_id (ether_send target_id @ ''_attributes''), StringAttr (base_id @ target_id)),
      (of_vm base_id (ether_recv target_id @ ''_id''), IntAttr (int idx * 2 + 1)),
      (of_vm base_id (ether_recv target_id @ ''_attributes''), StringAttr (target_id @ base_id)),
      (of_vm base_id (ether_send target_id @ ''_shmem_size''), IntAttr 32768),
      (of_vm base_id (ether_recv target_id @ ''_shmem_size''), IntAttr 32768)]"

text \<open>\<open>macaddress\<close> stands for the macros \<^verbatim>\<open>VM<id>_MACADDRESS\<close>, which the application defines.\<close>

definition add_macaddr_mapping :: "(token \<Rightarrow> string) \<Rightarrow> token \<Rightarrow> token \<Rightarrow> nat \<Rightarrow> vswitch_mapping list" where
  "add_macaddr_mapping macaddress base_id vm_id idx =
     [\<lparr>mac_addr = macaddress vm_id, send_id = int idx * 2, recv_id = int idx * 2 + 1\<rparr>]"

definition config_expand_perVM :: "(token \<Rightarrow> string) \<Rightarrow> token \<Rightarrow> token list \<Rightarrow> (string \<times> attribute) list option" where
  "config_expand_perVM macaddress base_id vm_ids =
     (case (macro_call_num config_per_connection base_id vm_ids,
            macro_call_num (add_macaddr_mapping macaddress) base_id vm_ids) of
        (Some connections, Some layout) \<Rightarrow>
          Some (connections @
            [(of_vm base_id ''vswitch_mac_address'', StringAttr (macaddress base_id)),
             (of_vm base_id ''vswitch_layout'', LayoutAttr layout)])
      | _ \<Rightarrow> None)"

definition add_topology :: "token \<Rightarrow> token \<Rightarrow> (string \<times> string) list" where
  "add_topology base_id target_id = [(of_vm base_id (ether_send target_id), of_vm target_id (ether_recv base_id))]"

definition config_expand_topology :: "token \<Rightarrow> token list \<Rightarrow> (string \<times> string) list option" where
  "config_expand_topology base_id vm_ids = macro_call_single add_topology base_id vm_ids"

definition init_add_interface_end :: "token \<Rightarrow> token \<Rightarrow> init_entry list" where
  "init_add_interface_end base_id target_id =
     [\<lparr>ie_init = ''make_virtio_net_vswitch_driver_dummy'',
       ie_badge = Some (''ether_'' @ target_id @ ''_send_notification_badge()''), ie_irq = Some ''virtio_net_notify_vswitch''\<rparr>,
      \<lparr>ie_init = ''make_virtio_net_vswitch_driver_dummy'',
       ie_badge = Some (''ether_'' @ target_id @ ''_recv_notification_badge()''), ie_irq = Some ''virtio_net_notify_vswitch''\<rparr>]"

definition connection_perVM_add_init :: "token \<Rightarrow> token list \<Rightarrow> init_entry list option" where
  "connection_perVM_add_init base_id vm_ids = macro_call_single init_add_interface_end base_id vm_ids"

section \<open>Topologies\<close>

text \<open>
  A topology calls a macro once for each VM, with the VM and those it is connected to;
  \<open>vm_topology\<close> is the part for one VM.
\<close>

type_synonym topology = "(token \<times> token list) list"

fun expand :: "(token \<Rightarrow> token list \<Rightarrow> 'r list option) \<Rightarrow> topology \<Rightarrow> 'r list option" where
  "expand f [] = Some []"
| "expand f ((base_id, vm_ids) # T) =
     (case (f base_id vm_ids, expand f T) of (Some xs, Some ys) \<Rightarrow> Some (xs @ ys) | _ \<Rightarrow> None)"

definition vm_topology :: "token \<Rightarrow> topology \<Rightarrow> topology" where
  "vm_topology vm_id T = filter (\<lambda>(base_id, vm_ids). base_id = vm_id) T"

definition VM_CONNECTION_COMPONENT_DEF :: "token \<Rightarrow> topology \<Rightarrow> vq_interface list option" where
  "VM_CONNECTION_COMPONENT_DEF vm_id T = expand component_decl (vm_topology vm_id T)"

definition VM_CONNECTION_CONNECT_VMS :: "topology \<Rightarrow> string list option" where
  "VM_CONNECTION_CONNECT_VMS T = expand connection_perVM_add_interfaces T"

definition VM_CONNECTION_CONFIG ::
    "(token \<Rightarrow> string) \<Rightarrow> topology \<Rightarrow> ((string \<times> attribute) list \<times> (string \<times> string) list) option" where
  "VM_CONNECTION_CONFIG macaddress T =
     (case (expand (config_expand_perVM macaddress) T, expand config_expand_topology T) of
        (Some attributes, Some pairs) \<Rightarrow> Some (attributes, pairs)
      | _ \<Rightarrow> None)"

definition VM_CONNECTION_INIT_HANDLER :: "token \<Rightarrow> topology \<Rightarrow> init_entry list option" where
  "VM_CONNECTION_INIT_HANDLER vm_id T =
     (case expand connection_perVM_add_init (vm_topology vm_id T) of
        None \<Rightarrow> None
      | Some es \<Rightarrow> Some (es @ [\<lparr>ie_init = ''make_virtio_net_vswitch'', ie_badge = None, ie_irq = None\<rparr>]))"

section \<open>Names\<close>

text \<open>The number of a VM, in decimal digits.\<close>

definition is_id :: "token \<Rightarrow> bool" where
  "is_id t \<longleftrightarrow> t \<noteq> [] \<and> list_all (\<lambda>c. c \<in> set ''0123456789'') t"

lemma id_append:
  assumes "is_id a" "is_id b" "c \<notin> set ''0123456789''" "d \<notin> set ''0123456789''"
  shows "a @ c # u = b @ d # v \<longleftrightarrow> a = b \<and> c = d \<and> u = v"
proof
  let ?P = "\<lambda>c. c \<in> set ''0123456789''"
  assume e: "a @ c # u = b @ d # v"
  have t: "takeWhile ?P (xs @ c # ys) = xs" if "is_id xs" "\<not> ?P c" for xs c ys
    using that by (simp add: is_id_def list_all_iff takeWhile_append2)
  have "a = b" using arg_cong [OF e, of "takeWhile ?P"] t [OF assms(1,3)] t [OF assms(2,4)] by simp
  then show "a = b \<and> c = d \<and> u = v" using e by simp
qed simp

lemma of_vm_eq: "is_id a \<Longrightarrow> is_id b \<Longrightarrow> of_vm a x = of_vm b y \<longleftrightarrow> a = b \<and> x = y"
  by (simp add: of_vm_def id_append)

lemma ether_eq:
  assumes "is_id a" "is_id b"
  shows "ether_send a @ x = ether_send b @ y \<longleftrightarrow> a = b \<and> x = y"
    "ether_recv a @ x = ether_recv b @ y \<longleftrightarrow> a = b \<and> x = y"
    "ether_send a @ x \<noteq> ether_recv b @ y" "ether_recv a @ x \<noteq> ether_send b @ y"
  using assms by (auto simp: ether_send_def ether_recv_def id_append)

lemma ether_eq0:
  assumes "is_id a" "is_id b"
  shows "ether_send a = ether_send b \<longleftrightarrow> a = b" "ether_recv a = ether_recv b \<longleftrightarrow> a = b"
    "ether_send a \<noteq> ether_recv b" "ether_recv a \<noteq> ether_send b"
  using ether_eq [OF assms, of "[]" "[]"] by simp_all

lemma ether_vswitch [simp]:
  "ether_send a @ x \<noteq> ''vswitch_mac_address''" "ether_recv a @ x \<noteq> ''vswitch_mac_address''"
  "ether_send a @ x \<noteq> ''vswitch_layout''" "ether_recv a @ x \<noteq> ''vswitch_layout''"
  by (simp_all add: ether_send_def ether_recv_def)

section \<open>Well-formed topologies\<close>

definition edges :: "topology \<Rightarrow> (token \<times> token) list" where
  "edges T = concat (map (\<lambda>(b, ts). map (Pair b) ts) T)"

text \<open>
  Each VM has one row, with one to four others, no two the same; and connections are mutual.
\<close>

definition row_ok :: "token \<times> token list \<Rightarrow> bool" where
  "row_ok r \<longleftrightarrow> (case r of (b, ts) \<Rightarrow> is_id b \<and> list_all is_id ts \<and> ts \<noteq> [] \<and> length ts \<le> max_calls \<and> distinct ts \<and> b \<notin> set ts)"

definition topology_ok :: "topology \<Rightarrow> bool" where
  "topology_ok T \<longleftrightarrow> distinct (map fst T) \<and> list_all row_ok T \<and>
     list_all (\<lambda>(b, t). (t, b) \<in> set (edges T)) (edges T)"

lemma set_edges: "set (edges T) = {(b, t). \<exists>ts. (b, ts) \<in> set T \<and> t \<in> set ts}"
  by (force simp: edges_def)

lemma topology_rowD:
  assumes "topology_ok T" "(b, ts) \<in> set T"
  shows "is_id b" "list_all is_id ts" "ts \<noteq> []" "length ts \<le> max_calls" "distinct ts" "b \<notin> set ts"
  using assms by (auto simp: topology_ok_def list_all_iff row_ok_def)

lemma topology_edgeD:
  assumes "topology_ok T" "(b, t) \<in> set (edges T)"
  shows "is_id b" "is_id t" "b \<noteq> t" "(t, b) \<in> set (edges T)"
  using assms topology_rowD [OF assms(1)] by (auto simp: set_edges list_all_iff topology_ok_def)

lemma distinct_edges: 
  assumes "topology_ok T"
  shows "distinct (edges T)"
proof -
  have "distinct (map fst T) \<Longrightarrow> list_all row_ok T \<Longrightarrow> distinct (edges T)"
    by (induction T) (auto simp: edges_def row_ok_def distinct_map inj_on_def rev_image_eqI)
  then show ?thesis using assms by (simp add: topology_ok_def)
qed

lemma mset_reverse_edges: "topology_ok T \<Longrightarrow> mset (map prod.swap (edges T)) = mset (edges T)"
  using distinct_edges [of T] topology_edgeD(4) [of T]
  by (intro set_eq_iff_mset_eq_distinct [THEN iffD1]) (force simp: distinct_map image_iff)+

section \<open>Expansion\<close>

lemma expand_all:
  "(\<And>b ts. (b, ts) \<in> set T \<Longrightarrow> f b ts = Some (g b ts)) \<Longrightarrow> expand f T = Some (concat (map (\<lambda>(b, ts). g b ts) T))"
  by (induction T) auto

lemma macro_calls_ok:
  assumes "ts \<noteq> []" "length ts \<le> max_calls"
  shows "macro_call f ts = Some (concat (map f ts))"
    "macro_call_single h p ts = Some (concat (map (h p) ts))"
    "macro_call_num k p ts = Some (concat (map (\<lambda>(i, a). k p a i) (enumerate 0 ts)))"
  using assms by (simp_all add: macro_call_def macro_call_single_def macro_call_num_def)

lemma concat_edges: "concat (map (\<lambda>(b, ts). concat (map (f b) ts)) T) = concat (map (\<lambda>(b, t). f b t) (edges T))"
proof (induction T)
  case (Cons r T)
  then show ?case by (cases r) (simp add: edges_def o_def)
qed (simp add: edges_def)

lemma connect_vms_expands:
  assumes "topology_ok T"
  shows "VM_CONNECTION_CONNECT_VMS T = Some (concat (map (\<lambda>(b, t). connection_add_interface_end b t) (edges T)))"
  unfolding VM_CONNECTION_CONNECT_VMS_def concat_edges [symmetric]
  by (rule expand_all) (simp add: connection_perVM_add_interfaces_def macro_calls_ok topology_rowD [OF assms])

lemma topology_expands:
  assumes "topology_ok T"
  shows "expand config_expand_topology T =
    Some (map (\<lambda>(b, t). (of_vm b (ether_send t), of_vm t (ether_recv b))) (edges T))"
proof -
  have "expand config_expand_topology T = Some (concat (map (\<lambda>(b, t). add_topology b t) (edges T)))"
    unfolding concat_edges [symmetric]
    by (rule expand_all) (simp add: config_expand_topology_def macro_calls_ok topology_rowD [OF assms])
  also have "concat (map (\<lambda>(b, t). add_topology b t) es) =
      map (\<lambda>(b, t). (of_vm b (ether_send t), of_vm t (ether_recv b))) es" for es
    by (induction es) (auto simp: add_topology_def)
  finally show ?thesis .
qed

definition row_layout :: "(token \<Rightarrow> string) \<Rightarrow> token list \<Rightarrow> vswitch_mapping list" where
  "row_layout macs ts = map (\<lambda>(i, t). \<lparr>mac_addr = macs t, send_id = int i * 2, recv_id = int i * 2 + 1\<rparr>) (enumerate 0 ts)"

definition row_attributes :: "(token \<Rightarrow> string) \<Rightarrow> token \<Rightarrow> token list \<Rightarrow> (string \<times> attribute) list" where
  "row_attributes macs b ts = concat (map (\<lambda>(i, t). config_per_connection b t i) (enumerate 0 ts)) @
     [(of_vm b ''vswitch_mac_address'', StringAttr (macs b)), (of_vm b ''vswitch_layout'', LayoutAttr (row_layout macs ts))]"

lemma attributes_expand:
  assumes "topology_ok T"
  shows "expand (config_expand_perVM macs) T = Some (concat (map (\<lambda>(b, ts). row_attributes macs b ts) T))"
proof (rule expand_all)
  fix b ts assume "(b, ts) \<in> set T"
  note r = topology_rowD [OF assms this]
  have "concat (map (\<lambda>(i, a). add_macaddr_mapping macs b a i) es) =
      map (\<lambda>(i, t). \<lparr>mac_addr = macs t, send_id = int i * 2, recv_id = int i * 2 + 1\<rparr>) es" for es
    by (induction es) (auto simp: add_macaddr_mapping_def)
  then show "config_expand_perVM macs b ts = Some (row_attributes macs b ts)"
    by (simp add: config_expand_perVM_def macro_calls_ok [OF r(3,4)] row_attributes_def row_layout_def)
qed

lemma component_def_expands:
  assumes "topology_ok T" "(b, ts) \<in> set T"
  shows "VM_CONNECTION_COMPONENT_DEF b T = Some (concat (map component_decl_add_interface_end ts))"
proof -
  have "distinct (map fst T) \<Longrightarrow> (b, ts) \<in> set T \<Longrightarrow> vm_topology b T = [(b, ts)]"
  proof (induction T)
    case (Cons r T)
    have "vm_topology b T = []" if "b \<notin> fst ` set T" for T :: topology
      using that by (force simp: vm_topology_def filter_empty_conv)
    then show ?case using Cons by (cases r) (auto simp: vm_topology_def rev_image_eqI)
  qed simp
  then have "vm_topology b T = [(b, ts)]" using assms by (simp add: topology_ok_def)
  then show ?thesis
    using topology_rowD [OF assms]
    by (simp add: VM_CONNECTION_COMPONENT_DEF_def component_decl_def macro_calls_ok)
qed

section \<open>Every interface is connected once\<close>

definition all_ends :: "(token \<times> token) list \<Rightarrow> string list" where
  "all_ends es = concat (map (\<lambda>(b, t). connection_add_interface_end b t) es)"

definition all_pairs :: "(token \<times> token) list \<Rightarrow> (string \<times> string) list" where
  "all_pairs es = map (\<lambda>(b, t). (of_vm b (ether_send t), of_vm t (ether_recv b))) es"

lemma distinct_ends:
  assumes "distinct es" "list_all (\<lambda>(b, t). is_id b \<and> is_id t) es"
  shows "distinct (all_ends es)"
  using assms
proof (induction es)
  case (Cons e es)
  obtain b t where e: "e = (b, t)" by (cases e)
  have "x \<notin> set (connection_add_interface_end b t)"
    if "(b', t') \<in> set es" "x \<in> set (connection_add_interface_end b' t')" for b' t' x
    using that Cons.prems by (auto simp: e list_all_iff connection_add_interface_end_def of_vm_eq ether_eq0)
  moreover have "distinct (connection_add_interface_end b t)"
    using Cons.prems by (simp add: e connection_add_interface_end_def of_vm_eq ether_eq0)
  ultimately show ?case using Cons by (auto simp: e all_ends_def)
qed (simp add: all_ends_def)

lemma mset_ends:
  assumes "topology_ok T"
  shows "mset (all_ends (edges T)) = mset (map fst (all_pairs (edges T))) + mset (map snd (all_pairs (edges T)))"
proof -
  have "mset (all_ends es) = mset (map fst (all_pairs es)) + mset (map (\<lambda>(b, t). of_vm b (ether_recv t)) es)" for es
    by (induction es) (auto simp: connection_add_interface_end_def all_ends_def all_pairs_def)
  moreover have "map snd (all_pairs es) = map (\<lambda>(b, t). of_vm b (ether_recv t)) (map prod.swap es)" for es
    by (induction es) (auto simp: all_pairs_def)
  ultimately show ?thesis using mset_reverse_edges [OF assms] by (metis mset_map)
qed

lemma edge_declared:
  assumes "topology_ok T" "(b, t) \<in> set (edges T)"
  shows "\<exists>ds. VM_CONNECTION_COMPONENT_DEF b T = Some ds \<and> VirtQueueDrv (ether_send t) \<in> set ds \<and> VirtQueueDev (ether_recv t) \<in> set ds"
proof -
  obtain ts where "(b, ts) \<in> set T" "t \<in> set ts" using assms(2) by (auto simp: set_edges)
  then show ?thesis using component_def_expands [OF assms(1)] by (force simp: component_decl_add_interface_end_def)
qed

text \<open>
  C21. In a well-formed topology the expansion succeeds and wires each interface exactly once.  The
  pairs of the virtqueue topology use every interface that the connection names, once; the driver end
  of a pair is declared as a driver by its monitor, and the device end as a device by the monitor it
  is addressed to.
\<close>

theorem topology_wired:
  assumes "topology_ok T"
  shows "\<exists>ends attributes pairs. VM_CONNECTION_CONNECT_VMS T = Some ends \<and>
    VM_CONNECTION_CONFIG macaddress T = Some (attributes, pairs) \<and>
    distinct ends \<and> mset ends = mset (map fst pairs) + mset (map snd pairs) \<and>
    list_all (\<lambda>(drv, dev). \<exists>b t bs ts. drv = of_vm b (ether_send t) \<and> dev = of_vm t (ether_recv b) \<and>
      VM_CONNECTION_COMPONENT_DEF b T = Some bs \<and> VirtQueueDrv (ether_send t) \<in> set bs \<and>
      VM_CONNECTION_COMPONENT_DEF t T = Some ts \<and> VirtQueueDev (ether_recv b) \<in> set ts) pairs"
proof (intro exI conjI)
  show "VM_CONNECTION_CONNECT_VMS T = Some (all_ends (edges T))"
    unfolding all_ends_def by (rule connect_vms_expands [OF assms])
  show "VM_CONNECTION_CONFIG macaddress T =
      Some (concat (map (\<lambda>(b, ts). row_attributes macaddress b ts) T), all_pairs (edges T))"
    using topology_expands [OF assms] attributes_expand [OF assms] by (simp add: VM_CONNECTION_CONFIG_def all_pairs_def)
  show "distinct (all_ends (edges T))"
    using topology_edgeD(1,2) [OF assms] by (intro distinct_ends distinct_edges [OF assms]) (auto simp: list_all_iff)
  show "mset (all_ends (edges T)) = mset (map fst (all_pairs (edges T))) + mset (map snd (all_pairs (edges T)))"
    by (rule mset_ends [OF assms])
  show "list_all (\<lambda>(drv, dev). \<exists>b t bs ts. drv = of_vm b (ether_send t) \<and> dev = of_vm t (ether_recv b) \<and>
      VM_CONNECTION_COMPONENT_DEF b T = Some bs \<and> VirtQueueDrv (ether_send t) \<in> set bs \<and>
      VM_CONNECTION_COMPONENT_DEF t T = Some ts \<and> VirtQueueDev (ether_recv b) \<in> set ts) (all_pairs (edges T))"
    unfolding list_all_iff all_pairs_def
  proof (clarsimp)
    fix b t assume bt: "(b, t) \<in> set (edges T)"
    obtain ds where "VM_CONNECTION_COMPONENT_DEF b T = Some ds" "VirtQueueDrv (ether_send t) \<in> set ds"
      using edge_declared [OF assms bt] by blast
    moreover obtain ds' where "VM_CONNECTION_COMPONENT_DEF t T = Some ds'" "VirtQueueDev (ether_recv b) \<in> set ds'"
      using edge_declared [OF assms topology_edgeD(4) [OF assms bt]] by blast
    ultimately show "\<exists>c u. of_vm b (ether_send t) = of_vm c (ether_send u) \<and> of_vm t (ether_recv b) = of_vm u (ether_recv c) \<and>
      (\<exists>bs. VM_CONNECTION_COMPONENT_DEF c T = Some bs \<and> VirtQueueDrv (ether_send u) \<in> set bs \<and>
        (\<exists>ts. VM_CONNECTION_COMPONENT_DEF u T = Some ts \<and> VirtQueueDev (ether_recv c) \<in> set ts))" by blast
  qed
qed

definition triangle :: topology where
  "triangle = [(''0'', [''1'', ''2'']), (''1'', [''0'', ''2'']), (''2'', [''0'', ''1''])]"

lemma triangle_ok: "topology_ok triangle"
  by (simp add: triangle_def topology_ok_def row_ok_def edges_def is_id_def max_calls_def)

theorem topology_wired_witness:
  "\<exists>ends attributes pairs. VM_CONNECTION_CONNECT_VMS triangle = Some ends \<and>
    VM_CONNECTION_CONFIG (\<lambda>t. ''02:00:00:00:00:0'' @ t) triangle = Some (attributes, pairs) \<and>
    mset ends = mset (map fst pairs) + mset (map snd pairs)"
  using topology_wired [OF triangle_ok, of "\<lambda>t. ''02:00:00:00:00:0'' @ t"] by blast

section \<open>The keys of the shared memory\<close>

lemma map_of_functional:
  "(k, v) \<in> set kvs \<Longrightarrow> (\<And>v'. (k, v') \<in> set kvs \<Longrightarrow> v' = v) \<Longrightarrow> map_of kvs k = Some v"
  by (metis map_of_SomeD option.exhaust weak_map_of_SomeI not_None_eq)

lemma bex_enumerate: "(\<exists>p \<in> set (enumerate 0 xs). P p) \<longleftrightarrow> (\<exists>i < length xs. P (i, xs ! i))"
  by (auto simp: in_set_enumerate_eq)

lemma set_row_attributes:
  "(k, v) \<in> set (row_attributes macs b ts) \<longleftrightarrow>
     (\<exists>i < length ts. (k, v) \<in> set (config_per_connection b (ts ! i) i)) \<or>
     (k, v) = (of_vm b ''vswitch_mac_address'', StringAttr (macs b)) \<or>
     (k, v) = (of_vm b ''vswitch_layout'', LayoutAttr (row_layout macs ts))"
  unfolding row_attributes_def set_append set_concat set_map Un_iff UN_iff bex_simps(7) bex_enumerate prod.case by simp

lemma set_config_rows:
  "(k, v) \<in> set (concat (map (\<lambda>(b, ts). row_attributes macs b ts) T)) \<longleftrightarrow>
    (\<exists>b ts. (b, ts) \<in> set T \<and> (
      (\<exists>i < length ts. (k, v) \<in> set (config_per_connection b (ts ! i) i)) \<or>
      (k, v) = (of_vm b ''vswitch_mac_address'', StringAttr (macs b)) \<or>
      (k, v) = (of_vm b ''vswitch_layout'', LayoutAttr (row_layout macs ts))))"
  unfolding set_row_attributes [symmetric] by force

lemma config_keys:
  assumes "is_id b" "is_id b'" "is_id t" "is_id t'"
    and "(k, v) \<in> set (config_per_connection b t i)" "(k, v') \<in> set (config_per_connection b' t' j)"
  shows "b' = b \<and> t' = t \<and> (j = i \<longrightarrow> v' = v)"
  using assms by (auto simp: config_per_connection_def of_vm_eq ether_eq ether_eq0)

text \<open>The values of the attributes of an interface and of a monitor.\<close>

lemma connection_attribute:
  assumes "topology_ok T" "(b, ts) \<in> set T" "i < length ts" "(k, v) \<in> set (config_per_connection b (ts ! i) i)"
  shows "map_of (concat (map (\<lambda>(b, ts). row_attributes macs b ts) T)) k = Some v"
proof (rule map_of_functional)
  show "(k, v) \<in> set (concat (map (\<lambda>(b, ts). row_attributes macs b ts) T))"
    unfolding set_config_rows using assms(2-4) by blast
  fix v' assume "(k, v') \<in> set (concat (map (\<lambda>(b, ts). row_attributes macs b ts) T))"
  then obtain b' ts' where r: "(b', ts') \<in> set T"
    "(\<exists>i. i < length ts' \<and> (k, v') \<in> set (config_per_connection b' (ts' ! i) i)) \<or>
      k = of_vm b' ''vswitch_mac_address'' \<or> k = of_vm b' ''vswitch_layout''"
    unfolding set_config_rows by blast
  note r1 = topology_rowD [OF assms(1,2)] and r2 = topology_rowD [OF assms(1) r(1)]
  have id: "is_id (ts ! i)" using r1(2) assms(3) by (simp add: list_all_length)
  obtain x where x: "k = of_vm b x" "x \<noteq> ''vswitch_mac_address''" "x \<noteq> ''vswitch_layout''"
    using assms(4) by (auto simp: config_per_connection_def)
  then have "k \<noteq> of_vm b' ''vswitch_mac_address''" "k \<noteq> of_vm b' ''vswitch_layout''"
    by (simp_all add: of_vm_eq r1(1) r2(1))
  then obtain j where j: "j < length ts'" "(k, v') \<in> set (config_per_connection b' (ts' ! j) j)" using r(2) by blast
  have id': "is_id (ts' ! j)" using r2(2) j(1) by (simp add: list_all_length)
  note same = config_keys [OF r1(1) r2(1) id id' assms(4) j(2)]
  then have bt: "b' = b" "ts' ! j = ts ! i" by simp_all
  have "ts' = ts" using assms(1,2) r(1) bt(1) by (auto simp: topology_ok_def dest: eq_key_imp_eq_value)
  then have "j = i" using bt(2) j(1) assms(3) r1(5) by (simp add: nth_eq_iff_index_eq)
  then show "v' = v" using same by simp
qed

lemma layout_attribute:
  assumes "topology_ok T" "(b, ts) \<in> set T"
  shows "map_of (concat (map (\<lambda>(b, ts). row_attributes macs b ts) T)) (of_vm b ''vswitch_layout'') =
    Some (LayoutAttr (row_layout macs ts))"
proof (rule map_of_functional)
  show "(of_vm b ''vswitch_layout'', LayoutAttr (row_layout macs ts)) \<in> set (concat (map (\<lambda>(b, ts). row_attributes macs b ts) T))"
    unfolding set_config_rows using assms by blast
  fix v' assume "(of_vm b ''vswitch_layout'', v') \<in> set (concat (map (\<lambda>(b, ts). row_attributes macs b ts) T))"
  then obtain b' ts' where r: "(b', ts') \<in> set T"
    "(\<exists>i. i < length ts' \<and> (of_vm b ''vswitch_layout'', v') \<in> set (config_per_connection b' (ts' ! i) i)) \<or>
      (of_vm b ''vswitch_layout'', v') = (of_vm b' ''vswitch_mac_address'', StringAttr (macs b')) \<or>
      (of_vm b ''vswitch_layout'', v') = (of_vm b' ''vswitch_layout'', LayoutAttr (row_layout macs ts'))"
    unfolding set_config_rows by blast
  note r1 = topology_rowD [OF assms] and r2 = topology_rowD [OF assms(1) r(1)]
  have "\<not> (of_vm b ''vswitch_layout'', v') \<in> set (config_per_connection b' (ts' ! i) i)" for i
    using ether_vswitch(3,4) [THEN not_sym] by (auto simp: config_per_connection_def of_vm_eq r1(1) r2(1))
  then have "b' = b" "v' = LayoutAttr (row_layout macs ts')" using r(2) by (auto simp: of_vm_eq r1(1) r2(1))
  moreover have "ts' = ts" using assms r(1) \<open>b' = b\<close> by (auto simp: topology_ok_def dest: eq_key_imp_eq_value)
  ultimately show "v' = LayoutAttr (row_layout macs ts)" by simp
qed

lemma config_succeeds:
  "topology_ok T \<Longrightarrow> VM_CONNECTION_CONFIG macs T =
     Some (concat (map (\<lambda>(b, ts). row_attributes macs b ts) T), all_pairs (edges T))"
  using topology_expands [of T] attributes_expand [of T] by (simp add: VM_CONNECTION_CONFIG_def all_pairs_def)

lemma edge_row:
  assumes "(b, t) \<in> set (edges T)"
  obtains ts i where "(b, ts) \<in> set T" "i < length ts" "ts ! i = t"
  using assms by (auto simp: set_edges in_set_conv_nth)

lemma edge_keys:
  fixes macs :: "token \<Rightarrow> string"
  assumes "topology_ok T" "(b, t) \<in> set (edges T)"
  defines "as \<equiv> concat (map (\<lambda>(b, ts). row_attributes macs b ts) T)"
  shows "map_of as (of_vm b (ether_send t) @ ''_attributes'') = Some (StringAttr (b @ t))"
    "map_of as (of_vm t (ether_recv b) @ ''_attributes'') = Some (StringAttr (b @ t))"
proof -
  obtain ts i where r: "(b, ts) \<in> set T" "i < length ts" "ts ! i = t" by (rule edge_row [OF assms(2)])
  have k: "of_vm x y @ z = of_vm x (y @ z)" for x y z by (simp add: of_vm_def)
  show "map_of as (of_vm b (ether_send t) @ ''_attributes'') = Some (StringAttr (b @ t))"
    unfolding k as_def by (rule connection_attribute [OF assms(1) r(1,2)]) (simp add: config_per_connection_def r(3))
  obtain ts' j where r': "(t, ts') \<in> set T" "j < length ts'" "ts' ! j = b"
    by (rule edge_row [OF topology_edgeD(4) [OF assms(1,2)]])
  show "map_of as (of_vm t (ether_recv b) @ ''_attributes'') = Some (StringAttr (b @ t))"
    unfolding k as_def by (rule connection_attribute [OF assms(1) r'(1,2)]) (simp add: config_per_connection_def r'(3))
qed



text \<open>
  Numbers of different length break this: the region from VM 1 to VM 12 and the one from VM 11 to
  VM 2 have one name.
\<close>

definition ambiguous :: topology where
  "ambiguous = [(''1'', [''12'']), (''12'', [''1'']), (''11'', [''2'']), (''2'', [''11''])]"

theorem channels_share_memory:
  "\<exists>attributes pairs. topology_ok ambiguous \<and> VM_CONNECTION_CONFIG macaddress ambiguous = Some (attributes, pairs) \<and>
    map_of attributes ''vm1.ether_12_send_attributes'' = Some (StringAttr ''112'') \<and>
    map_of attributes ''vm11.ether_2_send_attributes'' = Some (StringAttr ''112'')"
proof -
  have ok: "topology_ok ambiguous"
    by (simp add: ambiguous_def topology_ok_def row_ok_def edges_def is_id_def max_calls_def)
  have "(''1'', ''12'') \<in> set (edges ambiguous)" "(''11'', ''2'') \<in> set (edges ambiguous)"
    by (simp_all add: ambiguous_def edges_def)
  from this [THEN edge_keys(1) [OF ok, where macs = macaddress]] show ?thesis
    using ok config_succeeds [OF ok, of macaddress] by (simp add: of_vm_def ether_send_def)
qed

section \<open>Frames follow the topology\<close>

text \<open>The nodes of a switch: address and identifiers of the two queues.\<close>

definition connect_node :: "u8 list \<Rightarrow> int \<Rightarrow> int \<Rightarrow> (u8 list \<times> int \<times> int) list \<Rightarrow> int \<times> (u8 list \<times> int \<times> int) list" where
  "connect_node mac s r nodes = (0, nodes @ [(mac, s, r)])"

lemma make_vswitch_nodes_table:
  "make_vswitch_nodes (\<lambda>_. True) (\<lambda>_. 0) (\<lambda>_. 0) mac_of connect_node i ms g =
     g @ map (\<lambda>m. (mac_of (mac_addr m), send_id m, recv_id m)) ms"
  by (induction ms arbitrary: i g) (simp_all add: connect_node_def)



text \<open>A VM that is connected to more than four others has no expansion.\<close>

theorem too_many_connections:
  assumes "(b, ts) \<in> set T" "max_calls < length ts"
  shows "VM_CONNECTION_CONNECT_VMS T = None" "VM_CONNECTION_CONFIG macaddress T = None"
proof -
  have n: "expand f T = None" if "f b ts = None" for f :: "token \<Rightarrow> token list \<Rightarrow> 'r list option"
    using assms(1) that by (induction T) (auto split: option.split)
  show "VM_CONNECTION_CONNECT_VMS T = None"
    unfolding VM_CONNECTION_CONNECT_VMS_def
    by (rule n) (use assms(2) in \<open>auto simp: connection_perVM_add_interfaces_def macro_call_single_def\<close>)
  have "expand (config_expand_perVM macaddress) T = None"
    by (rule n) (use assms(2) in \<open>auto simp: config_expand_perVM_def macro_call_num_def\<close>)
  then show "VM_CONNECTION_CONFIG macaddress T = None" by (simp add: VM_CONNECTION_CONFIG_def)
qed

end
