(* ===== verification/Composition.thy ===== *)
theory Composition
  imports Topology Vmm_Main
begin

unbundle bit_operations_syntax

text \<open>
  Architecture descriptions: the macros of \<^verbatim>\<open>VM/configurations/vm.h\<close>,
  \<^verbatim>\<open>VM/configurations/sata.h\<close> and \<^verbatim>\<open>VM_Arm/configurations/vm.h\<close>, from which an application
  puts a system of monitors and servers together.  A macro expands to declarations of a component, to
  instances and connections, or to attributes with their values.  Shown are that the macros wire every
  interface of every monitor, and that the badges they reserve keep the signals of a monitor apart.
\<close>

section \<open>Descriptions\<close>

datatype decl =
    Control
  | Uses string string
  | Provides string string
  | Consumes string string
  | Emits string string
  | Dataport string string
  | Semaphore string
  | Mutex string
  | Attribute string string "attribute option"
  | Struct string bool "(string \<times> string \<times> attribute option) list"   \<comment> \<open>an array when the flag is set\<close>
  | Maybe decl

type_synonym instance_end = "string \<times> string"   \<comment> \<open>instance and interface\<close>

datatype assembly_item =
    Component string string                                  \<comment> \<open>type and instance\<close>
  | Connection string string instance_end instance_end       \<comment> \<open>connector, name, from and to\<close>

definition vm_inst :: "token \<Rightarrow> string" where "vm_inst num = ''vm'' @ num"

section \<open>The x86 monitor\<close>

definition VM_INIT_DEF :: "decl list" where
  "VM_INIT_DEF =
     [Control,
      Uses ''PutChar'' ''putchar'',
      Uses ''PutChar'' ''guest_putchar'',
      Uses ''PCIConfig'' ''pci_config'',
      Uses ''RTC'' ''system_rtc'',
      Consumes ''HaveInterrupt'' ''intready'',
      Emits ''HaveInterrupt'' ''intready_connector'',
      Uses ''Timer'' ''init_timer'',
      Uses ''FileServerInterface'' ''fs'',
      Uses ''GetChar'' ''serial_getchar'',
      Attribute ''string'' ''kernel_cmdline'' None,
      Attribute ''string'' ''kernel_image'' None,
      Attribute ''string'' ''kernel_relocs'' None,
      Attribute ''string'' ''initrd_image'' None,
      Attribute ''int'' ''iospace_domain'' None,
      Attribute ''int'' ''guest_ram_mb'' None,
      Attribute ''int'' ''cnode_size_bits'' (Some (IntAttr 21)),
      Attribute ''vswitch_mapping'' ''vswitch_layout[]'' (Some (LayoutAttr [])),
      Attribute ''string'' ''vswitch_mac_address'' (Some (StringAttr [])),
      Struct ''serial_layout'' True [(''int'', ''send_id'', None), (''int'', ''recv_id'', None)],
      Struct ''socket_layout'' True [(''int'', ''cid'', None), (''int'', ''send_id'', None), (''int'', ''recv_id'', None)],
      Attribute ''int'' ''guest_cid'' (Some (IntAttr 0))]"

definition VM_PER_VM_COMPONENTS :: "token \<Rightarrow> assembly_item list" where
  "VM_PER_VM_COMPONENTS num = [Component (''Init'' @ num) (vm_inst num)]"

definition VM_PER_VM_CONNECTIONS :: "token \<Rightarrow> assembly_item list" where
  "VM_PER_VM_CONNECTIONS num =
     [Connection ''seL4GlobalAsynch'' (''intreadycon'' @ num) (vm_inst num, ''intready_connector'') (vm_inst num, ''intready''),
      Connection ''seL4RPCDataport'' (''fs'' @ num) (vm_inst num, ''fs'') (''fserv'', ''fs_ctrl''),
      Connection ''seL4RPCCall'' (''serial_vm'' @ num) (vm_inst num, ''putchar'') (''serial'', ''processed_putchar''),
      Connection ''seL4RPCCall'' (''serial_guest_vm'' @ num) (vm_inst num, ''guest_putchar'') (''serial'', ''raw_putchar''),
      Connection ''seL4SerialServer'' (''serial_input'' @ num) (vm_inst num, ''serial_getchar'') (''serial'', ''getchar''),
      Connection ''seL4RPCCall'' (''rtctest'' @ num) (vm_inst num, ''system_rtc'') (''rtc'', ''rtc''),
      Connection ''seL4TimeServer'' (''pit'' @ num @ ''_timer'') (vm_inst num, ''init_timer'') (''time_server'', ''the_timer''),
      Connection ''seL4RPCCall'' (''pciconfig'' @ num) (vm_inst num, ''pci_config'') (''pci_config'', ''pci_config'')]"

text \<open>\<open>VM_MAYBE_ZONE_DMA\<close> is empty.\<close>

definition VM_MAYBE_ZONE_DMA :: "token \<Rightarrow> (string \<times> attribute) list" where
  "VM_MAYBE_ZONE_DMA num = []"

definition VM_PER_VM_CONFIG_DEF :: "token \<Rightarrow> (string \<times> attribute) list" where
  "VM_PER_VM_CONFIG_DEF num =
     [(of_vm num ''fs_shmem_size'', IntAttr 0x1000),
      (of_vm num ''serial_getchar_attributes'', StringAttr num),
      (of_vm num ''serial_getchar_shmem_size'', IntAttr 0x1000),
      (of_vm num ''simple'', BoolAttr True),
      (of_vm num ''asid_pool'', BoolAttr True),
      (of_vm num ''global_endpoint_mask'', IntAttr (0x1fffffff AND NOT 0x1fffe)),
      (of_vm num ''global_endpoint_base'', IntAttr (push_bit 27 1))] @ VM_MAYBE_ZONE_DMA num"

definition VM_COMPOSITION_DEF :: "assembly_item list" where
  "VM_COMPOSITION_DEF =
     [Component ''FileServer'' ''fserv'',
      Component ''SerialServer'' ''serial'',
      Component ''PCIConfigIO'' ''pci_config'',
      Component ''TimeServer'' ''time_server'',
      Component ''RTC'' ''rtc'',
      Connection ''seL4RPCCall'' ''serial_pci_config'' (''pci_config'', ''putchar'') (''serial'', ''processed_putchar''),
      Connection ''seL4RPCCall'' ''serial_time_server'' (''time_server'', ''putchar'') (''serial'', ''processed_putchar''),
      Connection ''seL4RPCCall'' ''serial_rtc'' (''rtc'', ''putchar'') (''serial'', ''processed_putchar''),
      Connection ''seL4TimeServer'' ''serialserver_timer'' (''serial'', ''timeout'') (''time_server'', ''the_timer'')]"

definition VM_PER_VM_COMP_DEF :: "token \<Rightarrow> assembly_item list" where
  "VM_PER_VM_COMP_DEF num = VM_PER_VM_COMPONENTS num @ VM_PER_VM_CONNECTIONS num"

definition VM_CONFIGURATION_DEF :: "(string \<times> attribute) list" where
  "VM_CONFIGURATION_DEF =
     [(''fserv.heap_size'', IntAttr 0x30000),
      (''time_server.timers_per_client'', IntAttr 12),
      (''time_server.priority'', IntAttr 255),
      (''time_server.simple_extra_bootinfo'', StringsAttr [''SEL4_BOOTINFO_HEADER_X86_TSC_FREQ'']),
      (''time_server.simple'', BoolAttr True),
      (''serial.serial_irq_priority'', IntAttr 200)]"

section \<open>The SATA server\<close>

definition VM_INIT_SATA :: "decl list" where
  "VM_INIT_SATA = [Mutex ''virtio_blk_mutex'', Uses ''SataserverInterface'' ''sataserver_iface'']"

definition SATA_COMPOSITION_DEF :: "assembly_item list" where
  "SATA_COMPOSITION_DEF =
     [Component ''Sataserver'' ''sataserver'',
      Connection ''seL4RPCCall'' ''sata_serial'' (''sataserver'', ''putchar'') (''serial'', ''processed_putchar'')]"

definition VM_SATA_CONNECTIONS :: "token \<Rightarrow> assembly_item list" where
  "VM_SATA_CONNECTIONS num =
     [Connection ''seL4Sataserver'' (''sataservercon'' @ num) (vm_inst num, ''sataserver_iface'') (''sataserver'', ''client'')]"

definition VM_SATA_CONFIG :: "(string \<times> attribute) list" where
  "VM_SATA_CONFIG =
     [(''sataserver.simple'', BoolAttr True),
      (''sataserver.cnode_size_bits'', IntAttr 16),
      (''sataserver.simple_untyped23_pool'', IntAttr 2),
      (''sataserver.heap_size'', IntAttr 0x30000),
      (''sataserver.dma_pool'', IntAttr 0x20000),
      (''sataserver.putchar_attributes'', IntAttr 0)]"

section \<open>The ARM monitor\<close>

definition DEF_TK1DEVICEFWD :: "bool \<Rightarrow> decl list" where
  "DEF_TK1DEVICEFWD TK1DEVICEFWD =
     (if TK1DEVICEFWD then [Uses ''gen_fwd_inf'' ''uartfwd'', Uses ''gen_fwd_inf'' ''clkcarfwd''] else [])"

definition DEF_KERNELARMPLATFORM_EXYNOS5410 :: "bool \<Rightarrow> decl list" where
  "DEF_KERNELARMPLATFORM_EXYNOS5410 KERNELARMPLATFORM_EXYNOS5410 =
     (if KERNELARMPLATFORM_EXYNOS5410
      then [Uses ''pwm_inf'' ''pwm'', Dataport ''Buf'' ''cmu_cpu'', Dataport ''Buf'' ''cmu_top'',
            Dataport ''Buf'' ''gpio_right'', Dataport ''Buf'' ''cmu_core'']
      else [])"

definition arm_VM_INIT_DEF :: "bool \<Rightarrow> bool \<Rightarrow> decl list" where
  "arm_VM_INIT_DEF tk1 exynos5410 =
     [Control, Uses ''FileServerInterface'' ''fs''] @ DEF_TK1DEVICEFWD tk1 @ DEF_KERNELARMPLATFORM_EXYNOS5410 exynos5410 @
     [Maybe (Consumes ''restart'' ''restart_event''),
      Semaphore ''vm_sem'',
      Maybe (Uses ''Batch'' ''batch''),
      Maybe (Uses ''PutChar'' ''guest_putchar''),
      Maybe (Uses ''GetChar'' ''serial_getchar''),
      Maybe (Uses ''VirtQueueDev'' ''recv''),
      Maybe (Uses ''VirtQueueDrv'' ''send''),
      Consumes ''HaveNotification'' ''notification_ready'',
      Emits ''HaveNotification'' ''notification_ready_connector'',
      Maybe (Uses ''VMDTBPassthrough'' ''dtb_self''),
      Provides ''VMDTBPassthrough'' ''dtb'',
      Attribute ''int'' ''base_prio'' None,
      Attribute ''int'' ''num_vcpus'' (Some (IntAttr 1)),
      Attribute ''int'' ''num_extra_frame_caps'' None,
      Attribute ''int'' ''extra_frame_map_address'' None,
      Struct ''vm_address_config'' False
        [(''string'', ''ram_base'', None), (''string'', ''ram_paddr_base'', None), (''string'', ''ram_size'', None),
         (''string'', ''dtb_addr'', None), (''string'', ''initrd_addr'', None),
         (''string'', ''kernel_entry_addr'', Some (StringAttr ''-1''))],
      Struct ''vm_image_config'' False
        [(''string'', ''kernel_name'', Some (StringAttr ''linux'')), (''string'', ''dtb_name'', Some (StringAttr ''linux-dtb'')),
         (''string'', ''initrd_name'', Some (StringAttr ''linux-initrd'')), (''string'', ''kernel_bootcmdline'', Some (StringAttr [])),
         (''string'', ''kernel_stdout'', Some (StringAttr [])), (''string'', ''dtb_base_name'', Some (StringAttr [])),
         (''int'', ''provide_dtb'', Some (BoolAttr True)), (''int'', ''generate_dtb'', Some (BoolAttr False)),
         (''int'', ''provide_initrd'', Some (BoolAttr True)), (''int'', ''clean_cache'', Some (BoolAttr False)),
         (''int'', ''map_one_to_one'', Some (BoolAttr False))],
      Struct ''linux_address_config'' False
        [(''string'', ''linux_ram_base'', None), (''string'', ''linux_ram_paddr_base'', None), (''string'', ''linux_ram_size'', None),
         (''string'', ''linux_ram_offset'', Some (StringAttr ''0'')), (''string'', ''dtb_addr'', None),
         (''string'', ''initrd_max_size'', Some (StringAttr ''-1'')), (''string'', ''initrd_addr'', None)],
      Struct ''linux_image_config'' False
        [(''string'', ''linux_name'', Some (StringAttr ''linux'')), (''string'', ''dtb_name'', Some (StringAttr ''linux-dtb'')),
         (''string'', ''initrd_name'', Some (StringAttr ''linux-initrd'')), (''string'', ''linux_bootcmdline'', Some (StringAttr [])),
         (''string'', ''linux_stdout'', Some (StringAttr [])), (''string'', ''dtb_base_name'', Some (StringAttr []))],
      Struct ''serial_layout'' True [(''int'', ''send_id'', None), (''int'', ''recv_id'', None)]]"

definition VM_COMPONENT_DEF :: "token \<Rightarrow> assembly_item list" where
  "VM_COMPONENT_DEF num = [Component ''VM'' (vm_inst num)]"

definition VM_COMPONENT_CONNECTIONS_DEF :: "token \<Rightarrow> assembly_item list" where
  "VM_COMPONENT_CONNECTIONS_DEF num =
     [Connection ''seL4RPCDataport'' (''fs'' @ num) (vm_inst num, ''fs'') (''fserv'', ''fs_ctrl''),
      Connection ''seL4GlobalAsynch'' (''notify_ready_vm'' @ num) (vm_inst num, ''notification_ready_connector'')
        (vm_inst num, ''notification_ready'')]"

definition VM_GENERAL_COMPOSITION_DEF :: "assembly_item list" where
  "VM_GENERAL_COMPOSITION_DEF = [Component ''FileServer'' ''fserv'']"

definition arm_VM_COMPOSITION_DEF :: "token \<Rightarrow> assembly_item list" where
  "arm_VM_COMPOSITION_DEF num = VM_COMPONENT_DEF num @ VM_COMPONENT_CONNECTIONS_DEF num"

definition VM_GENERAL_CONFIGURATION_DEF :: "(string \<times> attribute) list" where
  "VM_GENERAL_CONFIGURATION_DEF = [(''fserv.heap_size'', IntAttr 0x30000)]"

definition arm_VM_CONFIGURATION_DEF :: "token \<Rightarrow> (string \<times> attribute) list" where
  "arm_VM_CONFIGURATION_DEF num =
     [(of_vm num ''fs_shmem_size'', IntAttr 0x100000),
      (of_vm num ''global_endpoint_base'', IntAttr (push_bit 27 1)),
      (of_vm num ''asid_pool'', BoolAttr True),
      (of_vm num ''simple'', BoolAttr True),
      (of_vm num ''base_prio'', IntAttr 100),
      (of_vm num ''_priority'', IntAttr 101),
      (of_vm num ''sem_value'', IntAttr 0),
      (of_vm num ''heap_size'', IntAttr 0x300000)]"

definition VM_DOMAIN_CONFIGURATION_DEF :: "token \<Rightarrow> int \<Rightarrow> (string \<times> attribute) list" where
  "VM_DOMAIN_CONFIGURATION_DEF num domain =
     [(of_vm num ''_domain'', IntAttr domain),
      (of_vm num ''tcb_pool'', IntAttr 2),
      (of_vm num ''tcb_pool_domains'', IntsAttr [domain, domain])]"

text \<open>The calling macros of this file have variants for up to eight arguments.\<close>

definition arm_max_calls :: nat where "arm_max_calls = 8"

definition arm_macro_call :: "(token \<Rightarrow> 'r list) \<Rightarrow> token list \<Rightarrow> 'r list option" where
  "arm_macro_call f args =
     (if args = [] then Some (f []) else if length args \<le> arm_max_calls then Some (concat (map f args)) else None)"

definition VM_VIRTUAL_SERIAL_COMPONENTS_DEF :: "assembly_item list" where
  "VM_VIRTUAL_SERIAL_COMPONENTS_DEF =
     [Component ''SerialServer'' ''serial'',
      Component ''TimeServer'' ''time_server'',
      Connection ''seL4TimeServer'' ''serialserver_timer'' (''serial'', ''timeout'') (''time_server'', ''the_timer'')]"

definition PER_VM_VIRTUAL_SERIAL_CONNECTIONS_DEF :: "token \<Rightarrow> assembly_item list" where
  "PER_VM_VIRTUAL_SERIAL_CONNECTIONS_DEF num =
     [Connection ''seL4SerialServer'' (''serial_vm'' @ num) (vm_inst num, ''batch'') (''serial'', ''processed_batch''),
      Connection ''seL4SerialServer'' (''serial_input_vm'' @ num) (vm_inst num, ''serial_getchar'') (''serial'', ''getchar'')]"

definition VM_VIRTUAL_SERIAL_COMPOSITION_DEF :: "token list \<Rightarrow> assembly_item list option" where
  "VM_VIRTUAL_SERIAL_COMPOSITION_DEF vm_ids =
     map_option (append VM_VIRTUAL_SERIAL_COMPONENTS_DEF) (arm_macro_call PER_VM_VIRTUAL_SERIAL_CONNECTIONS_DEF vm_ids)"

definition VM_VIRTUAL_SERIAL_GENERAL_CONFIGURATION_DEF :: "(string \<times> attribute) list" where
  "VM_VIRTUAL_SERIAL_GENERAL_CONFIGURATION_DEF =
     [(''time_server.timers_per_client'', IntAttr 1),
      (''time_server.priority'', IntAttr 255),
      (''time_server.simple'', BoolAttr True)]"

definition PER_VM_VIRTUAL_SERIAL_CONFIGURATION_DEF :: "token \<Rightarrow> (string \<times> attribute) list" where
  "PER_VM_VIRTUAL_SERIAL_CONFIGURATION_DEF num =
     [(of_vm num ''serial_getchar_shmem_size'', IntAttr 0x1000),
      (of_vm num ''batch_shmem_size'', IntAttr 0x1000)]"

definition VM_VIRTUAL_SERIAL_CONFIGURATION_DEF :: "token list \<Rightarrow> (string \<times> attribute) list option" where
  "VM_VIRTUAL_SERIAL_CONFIGURATION_DEF vm_ids =
     map_option (append VM_VIRTUAL_SERIAL_GENERAL_CONFIGURATION_DEF)
       (arm_macro_call PER_VM_VIRTUAL_SERIAL_CONFIGURATION_DEF vm_ids)"

section \<open>Systems\<close>

text \<open>
  An application expands the general macros once and the others for each of its monitors; \<open>disk_ids\<close>
  are those that use the SATA server, \<open>serial_ids\<close> the ARM monitors with a virtual console.
\<close>

definition x86_system :: "token list \<Rightarrow> token list \<Rightarrow> assembly_item list" where
  "x86_system ids disk_ids =
     VM_COMPOSITION_DEF @ concat (map VM_PER_VM_COMP_DEF ids) @ SATA_COMPOSITION_DEF @ concat (map VM_SATA_CONNECTIONS disk_ids)"

definition arm_system :: "token list \<Rightarrow> token list \<Rightarrow> assembly_item list option" where
  "arm_system ids serial_ids =
     map_option (append (VM_GENERAL_COMPOSITION_DEF @ concat (map arm_VM_COMPOSITION_DEF ids)))
       (VM_VIRTUAL_SERIAL_COMPOSITION_DEF serial_ids)"

fun instances :: "assembly_item list \<Rightarrow> string list" where
  "instances [] = []"
| "instances (Component ty i # xs) = i # instances xs"
| "instances (Connection ty n a b # xs) = instances xs"

fun connection_names :: "assembly_item list \<Rightarrow> string list" where
  "connection_names [] = []"
| "connection_names (Component ty i # xs) = connection_names xs"
| "connection_names (Connection ty n a b # xs) = n # connection_names xs"

fun from_ends :: "assembly_item list \<Rightarrow> instance_end list" where
  "from_ends [] = []"
| "from_ends (Component ty i # xs) = from_ends xs"
| "from_ends (Connection ty n a b # xs) = a # from_ends xs"

fun to_ends :: "assembly_item list \<Rightarrow> instance_end list" where
  "to_ends [] = []"
| "to_ends (Component ty i # xs) = to_ends xs"
| "to_ends (Connection ty n a b # xs) = b # to_ends xs"

definition at_instance :: "string \<Rightarrow> instance_end list \<Rightarrow> string list" where
  "at_instance i es = map snd (filter (\<lambda>e. fst e = i) es)"

text \<open>What a component needs at the from and at the to side of connections.\<close>

fun client_ends :: "decl list \<Rightarrow> string list" where
  "client_ends [] = []"
| "client_ends (Uses ty n # ds) = n # client_ends ds"
| "client_ends (Emits ty n # ds) = n # client_ends ds"
| "client_ends (_ # ds) = client_ends ds"

fun optional_client_ends :: "decl list \<Rightarrow> string list" where
  "optional_client_ends [] = []"
| "optional_client_ends (Maybe d # ds) = client_ends [d] @ optional_client_ends ds"
| "optional_client_ends (_ # ds) = optional_client_ends ds"

fun event_ends :: "decl list \<Rightarrow> string list" where
  "event_ends [] = []"
| "event_ends (Consumes ty n # ds) = n # event_ends ds"
| "event_ends (_ # ds) = event_ends ds"

lemma items_append [simp]:
  "instances (xs @ ys) = instances xs @ instances ys" "connection_names (xs @ ys) = connection_names xs @ connection_names ys"
  "from_ends (xs @ ys) = from_ends xs @ from_ends ys" "to_ends (xs @ ys) = to_ends xs @ to_ends ys"
  "at_instance i (es @ fs) = at_instance i es @ at_instance i fs"
proof -
  show "instances (xs @ ys) = instances xs @ instances ys" by (induction xs rule: instances.induct) auto
  show "connection_names (xs @ ys) = connection_names xs @ connection_names ys" by (induction xs rule: connection_names.induct) auto
  show "from_ends (xs @ ys) = from_ends xs @ from_ends ys" by (induction xs rule: from_ends.induct) auto
  show "to_ends (xs @ ys) = to_ends xs @ to_ends ys" by (induction xs rule: to_ends.induct) auto
qed (simp add: at_instance_def)

lemma items_concat [simp]:
  "instances (concat xss) = concat (map instances xss)" "connection_names (concat xss) = concat (map connection_names xss)"
  "from_ends (concat xss) = concat (map from_ends xss)" "to_ends (concat xss) = concat (map to_ends xss)"
  "at_instance i (concat ess) = concat (map (at_instance i) ess)"
proof -
  show "at_instance i (concat ess) = concat (map (at_instance i) ess)"
    by (induction ess) (simp_all add: at_instance_def [of _ "[]"])
qed (induction xss; simp)+

lemma client_ends_append [simp]:
  "client_ends (xs @ ys) = client_ends xs @ client_ends ys"
  by (induction xs rule: client_ends.induct) auto

lemma at_instance_simps [simp]:
  "at_instance i [] = []" "at_instance i ((j, n) # es) = (if j = i then n # at_instance i es else at_instance i es)"
  by (simp_all add: at_instance_def)

lemma concat_if: "distinct ids \<Longrightarrow> concat (map (\<lambda>m. if m = n then xs else []) ids) = (if n \<in> set ids then xs else [])"
  by (induction ids) auto

text \<open>Instances and connections have different names.\<close>

lemma vm_inst_eq [simp]: "vm_inst a = vm_inst b \<longleftrightarrow> a = b"
  by (simp add: vm_inst_def)

lemma vm_inst_server [simp]:
  "vm_inst a \<noteq> ''fserv''" "vm_inst a \<noteq> ''serial''" "vm_inst a \<noteq> ''pci_config''" "vm_inst a \<noteq> ''time_server''"
  "vm_inst a \<noteq> ''rtc''" "vm_inst a \<noteq> ''sataserver''"
  "''fserv'' \<noteq> vm_inst a" "''serial'' \<noteq> vm_inst a" "''pci_config'' \<noteq> vm_inst a" "''time_server'' \<noteq> vm_inst a"
  "''rtc'' \<noteq> vm_inst a" "''sataserver'' \<noteq> vm_inst a"
  by (simp_all add: vm_inst_def)

section \<open>Systems are wired\<close>

text \<open>
  A system is well wired for what its monitors need: names are unique, connections end at instances
  that exist, no client end is connected twice, and at each monitor exactly the needed ends are
  connected, each once.
\<close>

definition well_wired :: "assembly_item list \<Rightarrow> token list \<Rightarrow> (token \<Rightarrow> string list) \<Rightarrow> string list \<Rightarrow> bool" where
  "well_wired S ids clients events \<longleftrightarrow>
     distinct (instances S) \<and> distinct (connection_names S) \<and> distinct (from_ends S) \<and>
     list_all (\<lambda>e. fst e \<in> set (instances S)) (from_ends S @ to_ends S) \<and>
     list_all (\<lambda>n. mset (at_instance (vm_inst n) (from_ends S)) = mset (clients n) \<and>
       mset (at_instance (vm_inst n) (to_ends S)) = mset events) ids"

lemma distinct_concat_map:
  assumes "distinct ids" "\<And>a. distinct (f a)" "\<And>a b x. x \<in> set (f a) \<Longrightarrow> x \<in> set (f b) \<Longrightarrow> a = b"
  shows "distinct (concat (map f ids))"
  using assms(1)
proof (induction ids)
  case (Cons a ids)
  have "x \<notin> set (f b)" if "x \<in> set (f a)" "b \<in> set ids" for x b using assms(3) [OF that(1)] that(2) Cons.prems by auto
  then show ?case using Cons assms(2) by auto
qed simp

lemma x86_items:
  "instances (VM_PER_VM_COMP_DEF n) = [vm_inst n]"
  "connection_names (VM_PER_VM_COMP_DEF n) =
     [''intreadycon'' @ n, ''fs'' @ n, ''serial_vm'' @ n, ''serial_guest_vm'' @ n, ''serial_input'' @ n, ''rtctest'' @ n,
      ''pit'' @ n @ ''_timer'', ''pciconfig'' @ n]"
  "from_ends (VM_PER_VM_COMP_DEF n) = map (Pair (vm_inst n))
     [''intready_connector'', ''fs'', ''putchar'', ''guest_putchar'', ''serial_getchar'', ''system_rtc'', ''init_timer'', ''pci_config'']"
  "to_ends (VM_PER_VM_COMP_DEF n) =
     [(vm_inst n, ''intready''), (''fserv'', ''fs_ctrl''), (''serial'', ''processed_putchar''), (''serial'', ''raw_putchar''),
      (''serial'', ''getchar''), (''rtc'', ''rtc''), (''time_server'', ''the_timer''), (''pci_config'', ''pci_config'')]"
  "instances (VM_SATA_CONNECTIONS n) = []" "connection_names (VM_SATA_CONNECTIONS n) = [''sataservercon'' @ n]"
  "from_ends (VM_SATA_CONNECTIONS n) = [(vm_inst n, ''sataserver_iface'')]"
  "to_ends (VM_SATA_CONNECTIONS n) = [(''sataserver'', ''client'')]"
  by (simp_all add: VM_PER_VM_COMP_DEF_def VM_PER_VM_COMPONENTS_def VM_PER_VM_CONNECTIONS_def VM_SATA_CONNECTIONS_def)

lemma x86_names:
  defines "names \<equiv> \<lambda>n. connection_names (VM_PER_VM_COMP_DEF n)"
  shows "distinct (names n)" "x \<in> set (names n) \<Longrightarrow> x \<in> set (names m) \<Longrightarrow> n = m"
    "x \<in> set (names n) \<Longrightarrow> x \<notin> set (connection_names (VM_COMPOSITION_DEF @ SATA_COMPOSITION_DEF))"
    "''sataservercon'' @ m \<notin> set (names n)"
proof -
  show "distinct (names n)" by (simp add: names_def x86_items)
  show "x \<in> set (names n) \<Longrightarrow> x \<in> set (names m) \<Longrightarrow> n = m"
    by (simp add: names_def x86_items) (elim disjE; simp)
  show "x \<in> set (names n) \<Longrightarrow> x \<notin> set (connection_names (VM_COMPOSITION_DEF @ SATA_COMPOSITION_DEF))"
    by (simp add: names_def x86_items VM_COMPOSITION_DEF_def SATA_COMPOSITION_DEF_def) (elim disjE; simp)
  show "''sataservercon'' @ m \<notin> set (names n)" by (simp add: names_def x86_items)
qed

lemma x86_from_ends:
  "distinct (from_ends (VM_PER_VM_COMP_DEF n))"
  "e \<in> set (from_ends (VM_PER_VM_COMP_DEF n)) \<Longrightarrow> fst e = vm_inst n \<and> snd e \<noteq> ''sataserver_iface''"
  by (auto simp: x86_items)

lemma x86_at_instance:
  "at_instance (vm_inst n) (from_ends (VM_PER_VM_COMP_DEF m)) = (if m = n then [''intready_connector'', ''fs'', ''putchar'', ''guest_putchar'', ''serial_getchar'',
     ''system_rtc'', ''init_timer'', ''pci_config''] else [])"
  "at_instance (vm_inst n) (from_ends (VM_SATA_CONNECTIONS m)) = (if m = n then client_ends VM_INIT_SATA else [])"
  "at_instance (vm_inst n) (to_ends (VM_PER_VM_COMP_DEF m)) = (if m = n then event_ends VM_INIT_DEF else [])"
  "at_instance (vm_inst n) (to_ends (VM_SATA_CONNECTIONS m)) = []"
  by (auto simp: x86_items VM_INIT_DEF_def VM_INIT_SATA_def)

lemma x86_wired:
  assumes "distinct ids" "distinct disk_ids" "set disk_ids \<subseteq> set ids"
  shows "well_wired (x86_system ids disk_ids) ids
    (\<lambda>n. client_ends (VM_INIT_DEF @ (if n \<in> set disk_ids then VM_INIT_SATA else []))) (event_ends VM_INIT_DEF)"
proof -
  let ?S = "x86_system ids disk_ids"
  note e = x86_system_def VM_COMPOSITION_DEF_def SATA_COMPOSITION_DEF_def o_def
  note d = e x86_items
  have i: "instances ?S = [''fserv'', ''serial'', ''pci_config'', ''time_server'', ''rtc''] @ map vm_inst ids @ [''sataserver'']"
    by (simp add: d)
  have "distinct (instances ?S)" unfolding i using assms(1) by (auto simp: distinct_map inj_on_def)
  moreover have "distinct (connection_names ?S)"
    using x86_names(3) x86_names(4)
      distinct_concat_map [OF assms(1), of "\<lambda>n. connection_names (VM_PER_VM_COMP_DEF n)", OF x86_names(1) x86_names(2)]
      distinct_concat_map [OF assms(2), of "\<lambda>n. connection_names (VM_SATA_CONNECTIONS n)"]
    by (fastforce simp: x86_system_def x86_items(6) VM_COMPOSITION_DEF_def SATA_COMPOSITION_DEF_def o_def)
  moreover have "distinct (from_ends ?S)"
  proof -
    have "distinct (concat (map (\<lambda>n. from_ends (VM_PER_VM_COMP_DEF n)) ids))"
      by (rule distinct_concat_map [OF assms(1) x86_from_ends(1)]) (metis x86_from_ends(2) vm_inst_eq)
    then show ?thesis
      using x86_from_ends(2) assms(2)
      by (fastforce simp: x86_system_def x86_items(7) VM_COMPOSITION_DEF_def SATA_COMPOSITION_DEF_def o_def distinct_map inj_on_def)
  qed
  moreover have "list_all (\<lambda>e. fst e \<in> set (instances ?S)) (from_ends ?S @ to_ends ?S)"
    unfolding i list_all_iff using assms(3) by (auto simp: d)
  moreover have "mset (at_instance (vm_inst n) (from_ends ?S)) =
      mset (client_ends (VM_INIT_DEF @ (if n \<in> set disk_ids then VM_INIT_SATA else [])))" if "n \<in> set ids" for n
    using that by (simp add: e concat_if [OF assms(1)] concat_if [OF assms(2)] x86_at_instance VM_INIT_DEF_def VM_INIT_SATA_def)
  moreover have "mset (at_instance (vm_inst n) (to_ends ?S)) = mset (event_ends VM_INIT_DEF)" if "n \<in> set ids" for n
    using that by (simp add: e concat_if [OF assms(1)] x86_at_instance)
  ultimately show ?thesis by (simp add: well_wired_def list_all_iff)
qed

lemma arm_items:
  "instances (arm_VM_COMPOSITION_DEF n) = [vm_inst n]"
  "connection_names (arm_VM_COMPOSITION_DEF n) = [''fs'' @ n, ''notify_ready_vm'' @ n]"
  "from_ends (arm_VM_COMPOSITION_DEF n) = [(vm_inst n, ''fs''), (vm_inst n, ''notification_ready_connector'')]"
  "to_ends (arm_VM_COMPOSITION_DEF n) = [(''fserv'', ''fs_ctrl''), (vm_inst n, ''notification_ready'')]"
  "instances (PER_VM_VIRTUAL_SERIAL_CONNECTIONS_DEF n) = []"
  "connection_names (PER_VM_VIRTUAL_SERIAL_CONNECTIONS_DEF n) = [''serial_vm'' @ n, ''serial_input_vm'' @ n]"
  "from_ends (PER_VM_VIRTUAL_SERIAL_CONNECTIONS_DEF n) = [(vm_inst n, ''batch''), (vm_inst n, ''serial_getchar'')]"
  "to_ends (PER_VM_VIRTUAL_SERIAL_CONNECTIONS_DEF n) = [(''serial'', ''processed_batch''), (''serial'', ''getchar'')]"
  by (simp_all add: arm_VM_COMPOSITION_DEF_def VM_COMPONENT_DEF_def VM_COMPONENT_CONNECTIONS_DEF_def
      PER_VM_VIRTUAL_SERIAL_CONNECTIONS_DEF_def)

lemma arm_at_instance:
  "at_instance (vm_inst n) (from_ends (arm_VM_COMPOSITION_DEF m)) = (if m = n then [''fs'', ''notification_ready_connector''] else [])"
  "at_instance (vm_inst n) (from_ends (PER_VM_VIRTUAL_SERIAL_CONNECTIONS_DEF m)) = (if m = n then [''batch'', ''serial_getchar''] else [])"
  "at_instance (vm_inst n) (to_ends (arm_VM_COMPOSITION_DEF m)) = (if m = n then [''notification_ready''] else [])"
  "at_instance (vm_inst n) (to_ends (PER_VM_VIRTUAL_SERIAL_CONNECTIONS_DEF m)) = []"
  by (auto simp: arm_items)

definition arm_parts :: "token list \<Rightarrow> token list \<Rightarrow> assembly_item list" where
  "arm_parts ids serial_ids = VM_GENERAL_COMPOSITION_DEF @ concat (map arm_VM_COMPOSITION_DEF ids) @
     VM_VIRTUAL_SERIAL_COMPONENTS_DEF @ concat (map PER_VM_VIRTUAL_SERIAL_CONNECTIONS_DEF serial_ids)"

lemma arm_system_parts:
  "serial_ids \<noteq> [] \<Longrightarrow> length serial_ids \<le> arm_max_calls \<Longrightarrow> arm_system ids serial_ids = Some (arm_parts ids serial_ids)"
  by (simp add: arm_system_def arm_parts_def VM_VIRTUAL_SERIAL_COMPOSITION_DEF_def arm_macro_call_def)

lemma arm_names:
  assumes "distinct ids" "distinct serial_ids"
  shows "distinct (connection_names (arm_parts ids serial_ids))" "distinct (from_ends (arm_parts ids serial_ids))"
proof -
  note e = arm_parts_def VM_GENERAL_COMPOSITION_DEF_def VM_VIRTUAL_SERIAL_COMPONENTS_DEF_def o_def arm_items
  have "distinct (concat (map (\<lambda>n. [''fs'' @ n, ''notify_ready_vm'' @ n]) ids))"
    "distinct (concat (map (\<lambda>n. [''serial_vm'' @ n, ''serial_input_vm'' @ n]) serial_ids))"
    by (rule distinct_concat_map [OF assms(1)], simp_all, fastforce)
      (rule distinct_concat_map [OF assms(2)], simp_all, fastforce)
  then show "distinct (connection_names (arm_parts ids serial_ids))" by (auto simp: e)
  have "distinct (concat (map (\<lambda>n. [(vm_inst n, ''fs''), (vm_inst n, ''notification_ready_connector'')]) ids))"
    "distinct (concat (map (\<lambda>n. [(vm_inst n, ''batch''), (vm_inst n, ''serial_getchar'')]) serial_ids))"
    by (rule distinct_concat_map [OF assms(1)], simp_all, fastforce)
      (rule distinct_concat_map [OF assms(2)], simp_all, fastforce)
  then show "distinct (from_ends (arm_parts ids serial_ids))" by (auto simp: e)
qed

text \<open>The board-specific interfaces are left to the application.\<close>

lemma arm_wired:
  assumes "distinct ids" "distinct serial_ids" "set serial_ids \<subseteq> set ids" "serial_ids \<noteq> []" "length serial_ids \<le> arm_max_calls"
  shows "\<exists>S. arm_system ids serial_ids = Some S \<and> well_wired S ids
    (\<lambda>n. client_ends (arm_VM_INIT_DEF False False) @ (if n \<in> set serial_ids then [''batch'', ''serial_getchar''] else []))
    (event_ends (arm_VM_INIT_DEF tk1 exynos5410))"
proof (intro exI conjI)
  let ?S = "arm_parts ids serial_ids"
  show "arm_system ids serial_ids = Some ?S" by (rule arm_system_parts [OF assms(4,5)])
  note e = arm_parts_def VM_GENERAL_COMPOSITION_DEF_def VM_VIRTUAL_SERIAL_COMPONENTS_DEF_def o_def
  have i: "instances ?S = [''fserv''] @ map vm_inst ids @ [''serial'', ''time_server'']"
    by (simp add: e arm_items)
  have "distinct (instances ?S)" unfolding i using assms(1) by (auto simp: distinct_map inj_on_def)
  moreover have "list_all (\<lambda>e. fst e \<in> set (instances ?S)) (from_ends ?S @ to_ends ?S)"
    unfolding i list_all_iff using assms(3) by (auto simp: e arm_items)
  moreover have "mset (at_instance (vm_inst n) (from_ends ?S)) = mset (client_ends (arm_VM_INIT_DEF False False) @
      (if n \<in> set serial_ids then [''batch'', ''serial_getchar''] else []))" if "n \<in> set ids" for n
    using that by (simp add: e concat_if [OF assms(1)] concat_if [OF assms(2)] arm_at_instance arm_VM_INIT_DEF_def
        DEF_TK1DEVICEFWD_def DEF_KERNELARMPLATFORM_EXYNOS5410_def)
  moreover have "mset (at_instance (vm_inst n) (to_ends ?S)) = mset (event_ends (arm_VM_INIT_DEF tk1 exynos5410))"
    if "n \<in> set ids" for n
    using that by (simp add: e concat_if [OF assms(1)] arm_at_instance arm_VM_INIT_DEF_def
        DEF_TK1DEVICEFWD_def DEF_KERNELARMPLATFORM_EXYNOS5410_def)
  ultimately show "well_wired ?S ids
      (\<lambda>n. client_ends (arm_VM_INIT_DEF False False) @ (if n \<in> set serial_ids then [''batch'', ''serial_getchar''] else []))
      (event_ends (arm_VM_INIT_DEF tk1 exynos5410))"
    using arm_names [OF assms(1,2)] by (simp add: well_wired_def list_all_iff)
qed



text \<open>The hardware of the server: its driver maps the registers of the controller, whose place depends on the board.\<close>

definition HARDWARE_SATA_PROVIDES_INTERFACES :: "decl list" where
  "HARDWARE_SATA_PROVIDES_INTERFACES = [Dataport ''Buf'' ''mmio'']"

definition HARDWARE_SATA_INTERFACES :: "decl list" where
  "HARDWARE_SATA_INTERFACES = [Dataport ''Buf'' ''ahcidriver'']"

text \<open>The interface of the component itself has no instance in front of it.\<close>

definition HARDWARE_SATA_COMPOSITION :: "assembly_item list" where
  "HARDWARE_SATA_COMPOSITION =
     [Component ''HWSata'' ''HWsata'',
      Connection ''seL4HardwareMMIO'' ''satadrivermmio'' ([], ''ahcidriver'') (''HWsata'', ''mmio'')]"

definition supermicro_HARDWARE_SATA_CONFIG :: "(string \<times> attribute) list" where
  "supermicro_HARDWARE_SATA_CONFIG = [(''HWsata.mmio_paddr'', IntAttr 0xaa180000), (''HWsata.mmio_size'', IntAttr 0x1000)]"

definition optiplex_HARDWARE_SATA_CONFIG :: "(string \<times> attribute) list" where
  "optiplex_HARDWARE_SATA_CONFIG = [(''HWsata.mmio_paddr'', IntAttr 0xfebd6000), (''HWsata.mmio_size'', IntAttr 0x1000)]"

lemma sata_hardware_wired:
  "from_ends HARDWARE_SATA_COMPOSITION = map (Pair []) (map (\<lambda>d. case d of Dataport ty n \<Rightarrow> n | _ \<Rightarrow> []) HARDWARE_SATA_INTERFACES)"
  "to_ends HARDWARE_SATA_COMPOSITION =
     map (Pair ''HWsata'') (map (\<lambda>d. case d of Dataport ty n \<Rightarrow> n | _ \<Rightarrow> []) HARDWARE_SATA_PROVIDES_INTERFACES)"
  by (simp_all add: HARDWARE_SATA_COMPOSITION_def HARDWARE_SATA_INTERFACES_def HARDWARE_SATA_PROVIDES_INTERFACES_def)

section \<open>Badges\<close>

text \<open>
  The build system gives each connection that can signal a monitor a badge: the base and one more
  bit of the mask, a different one for each.  Interrupts of passed-through hardware have the badges of
  \<open>irq_badges\<close>.  The kernel ors the badges of the signals that a notification has received.
\<close>

definition allocated_badges :: "(string \<times> attribute) list \<Rightarrow> token \<Rightarrow> nat list \<Rightarrow> u64 list option" where
  "allocated_badges settings num ks =
     (case (map_of settings (of_vm num ''global_endpoint_mask''), map_of settings (of_vm num ''global_endpoint_base'')) of
        (Some (IntAttr m), Some (IntAttr b)) \<Rightarrow>
          if distinct ks \<and> list_all (\<lambda>k. k < 64 \<and> bit m k \<and> \<not> bit b k) ks
          then Some (map (\<lambda>k. word_of_int b OR BIT k) ks) else None
      | _ \<Rightarrow> None)"

datatype signal = TimerSignal | ConsoleSignal | IrqSignal nat | DeviceSignal nat

fun signal_badge :: "vmm_config \<Rightarrow> (u32 \<times> u64) list \<Rightarrow> signal \<Rightarrow> u64" where
  "signal_badge C devs TimerSignal = init_timer_notification_badge C"
| "signal_badge C devs ConsoleSignal = serial_getchar_notification_badge C"
| "signal_badge C devs (IrqSignal i) = irq_badges ! i"
| "signal_badge C devs (DeviceSignal k) = ucast (fst (devs ! k))"

fun signal_exists :: "(u32 \<times> u64) list \<Rightarrow> signal \<Rightarrow> bool" where
  "signal_exists devs (IrqSignal i) \<longleftrightarrow> i < 16"
| "signal_exists devs (DeviceSignal k) \<longleftrightarrow> k < length devs"
| "signal_exists devs _ \<longleftrightarrow> True"

definition received_badge :: "vmm_config \<Rightarrow> (u32 \<times> u64) list \<Rightarrow> signal list \<Rightarrow> u64" where
  "received_badge C devs S = foldr (\<lambda>s b. signal_badge C devs s OR b) S 0"

text \<open>The bit that tells a signal from the others.\<close>

fun signal_bit :: "nat list \<Rightarrow> signal \<Rightarrow> nat" where
  "signal_bit ks TimerSignal = ks ! 0"
| "signal_bit ks ConsoleSignal = ks ! 1"
| "signal_bit ks (IrqSignal i) = i + 1"
| "signal_bit ks (DeviceSignal k) = ks ! (k + 2)"

lemma endpoint_attributes:
  "map_of (VM_PER_VM_CONFIG_DEF num) (of_vm num ''global_endpoint_mask'') = Some (IntAttr 0x1ffe0001)"
  "map_of (VM_PER_VM_CONFIG_DEF num) (of_vm num ''global_endpoint_base'') = Some (IntAttr (2 ^ 27))"
  by (simp_all add: VM_PER_VM_CONFIG_DEF_def of_vm_def)

lemma mask_bits: "bit (0x1ffe0001 :: int) k \<longleftrightarrow> k = 0 \<or> 17 \<le> k \<and> k \<le> 28"
proof -
  have "(0x1ffe0001 :: int) = mask 29 AND NOT (push_bit 1 (mask 16))" by (simp add: mask_numeral)
  then have "bit (0x1ffe0001 :: int) k \<longleftrightarrow> k < 29 \<and> \<not> (1 \<le> k \<and> k - 1 < 16)"
    by (simp only: bit_and_iff bit_not_iff bit_push_bit_iff bit_mask_iff) auto
  then show ?thesis by auto
qed

lemma allocated_facts:
  assumes "allocated_badges (VM_PER_VM_CONFIG_DEF num) num ks = Some bs"
  shows "distinct ks" "bs = map (\<lambda>k. BIT 27 OR BIT k) ks" "i < length ks \<Longrightarrow> ks ! i = 0 \<or> 17 \<le> ks ! i \<and> ks ! i \<le> 28 \<and> ks ! i \<noteq> 27"
proof -
  have w: "word_of_int (2 ^ 27) = (BIT 27 :: u64)" by (simp add: BIT_def)
  have a: "distinct ks \<and> list_all (\<lambda>k. k < 64 \<and> bit (0x1ffe0001 :: int) k \<and> \<not> bit (2 ^ 27 :: int) k) ks"
    "bs = map (\<lambda>k. BIT 27 OR BIT k) ks"
    using assms unfolding allocated_badges_def endpoint_attributes prod.case option.case attribute.case w
    by (simp_all split: if_splits)
  then show "distinct ks" "bs = map (\<lambda>k. BIT 27 OR BIT k) ks" by simp_all
  assume "i < length ks"
  then have "bit (0x1ffe0001 :: int) (ks ! i) \<and> \<not> bit (2 ^ 27 :: int) (ks ! i)" using a(1) by (auto simp: list_all_length)
  then show "ks ! i = 0 \<or> 17 \<le> ks ! i \<and> ks ! i \<le> 28 \<and> ks ! i \<noteq> 27" unfolding mask_bits by (auto simp: bit_exp_iff)
qed

definition source_badges :: "vmm_config \<Rightarrow> (u32 \<times> u64) list \<Rightarrow> u64 list" where
  "source_badges C devs =
     init_timer_notification_badge C # serial_getchar_notification_badge C # map (\<lambda>d. ucast (fst d)) devs"

lemma bit_BIT: "bit (BIT m :: u64) n \<longleftrightarrow> n = m \<and> m < 64"
  by (auto simp: BIT_def bit_push_bit_iff bit_1_iff simp del: push_bit_of_1)

lemma signal_badge_bits:
  assumes "allocated_badges (VM_PER_VM_CONFIG_DEF num) num ks = Some (source_badges C devs)" "signal_exists devs s"
  shows "signal_badge C devs s = BIT 27 OR BIT (signal_bit ks s)" "signal_bit ks s < 64" "signal_bit ks s \<noteq> 27"
proof -
  note a = allocated_facts [OF assms(1)]
  have l: "length ks = length devs + 2" using arg_cong [OF a(2), of length] by (simp add: source_badges_def)
  have n: "source_badges C devs ! i = BIT 27 OR BIT (ks ! i)" if "i < length devs + 2" for i using that a(2) l by simp
  show "signal_badge C devs s = BIT 27 OR BIT (signal_bit ks s)"
  proof (cases s)
    case (DeviceSignal k)
    then show ?thesis using assms(2) n [of "k + 2"] by (simp add: source_badges_def)
  qed (use assms(2) n [of 0] n [of 1] irq_badges_BIT in \<open>simp_all add: source_badges_def\<close>)
  have k: "ks ! i < 64 \<and> ks ! i \<noteq> 27" if "i < length ks" for i using a(3) [OF that] by linarith
  show "signal_bit ks s < 64" "signal_bit ks s \<noteq> 27"
    using assms(2) k l by (cases s; simp)+
qed

lemma signal_bit_inject:
  assumes "allocated_badges (VM_PER_VM_CONFIG_DEF num) num ks = Some (source_badges C devs)"
    "signal_exists devs s" "signal_exists devs t"
  shows "signal_bit ks s = signal_bit ks t \<longleftrightarrow> s = t"
proof -
  note a = allocated_facts [OF assms(1)]
  have l: "length ks = length devs + 2" using arg_cong [OF a(2), of length] by (simp add: source_badges_def)
  have d: "ks ! i = ks ! j \<longleftrightarrow> i = j" if "i < length devs + 2" "j < length devs + 2" for i j
    using a(1) l that by (simp add: nth_eq_iff_index_eq)
  have irq: "ks ! i \<noteq> Suc j" "Suc j \<noteq> ks ! i" if "i < length devs + 2" "j < 16" for i j using a(3) [of i] that l by auto
  show ?thesis using assms(2,3) by (cases s; cases t) (auto simp: d irq)
qed

lemma bit_received:
  assumes "allocated_badges (VM_PER_VM_CONFIG_DEF num) num ks = Some (source_badges C devs)" "list_all (signal_exists devs) S"
  shows "bit (received_badge C devs S) n \<longleftrightarrow> S \<noteq> [] \<and> n = 27 \<or> n \<in> signal_bit ks ` set S"
  using assms(2)
proof (induction S)
  case (Cons s S)
  then have "bit (signal_badge C devs s) n \<longleftrightarrow> n = 27 \<or> n = signal_bit ks s"
    using signal_badge_bits [OF assms(1), of s] by (auto simp: bit_or_iff bit_BIT)
  then show ?case using Cons by (auto simp: received_badge_def bit_or_iff)
qed (simp add: received_badge_def)

lemma badge_has_signal:
  assumes "allocated_badges (VM_PER_VM_CONFIG_DEF num) num ks = Some (source_badges C devs)"
    "list_all (signal_exists devs) S" "signal_exists devs s"
  shows "badge_has (received_badge C devs S) (signal_badge C devs s) \<longleftrightarrow> s \<in> set S"
proof -
  note b = signal_badge_bits [OF assms(1,3)]
  have "badge_has (received_badge C devs S) (signal_badge C devs s) \<longleftrightarrow> S \<noteq> [] \<and> signal_bit ks s \<in> signal_bit ks ` set S"
    using b by (simp add: badge_has_or badge_has_BIT bit_received [OF assms(1,2)])
  also have "\<dots> \<longleftrightarrow> s \<in> set S" using signal_bit_inject [OF assms(1,3)] assms(2) by (force simp: list_all_iff)
  finally show ?thesis .
qed

text \<open>Neither the timers nor the console change the list of devices.\<close>

lemma rbind_part_cong: "part m P \<Longrightarrow> (\<And>x. P x \<Longrightarrow> f x = g x) \<Longrightarrow> rbind m f = rbind m g"
  by (cases m) auto

lemma part_bind: "part m P \<Longrightarrow> (\<And>x. P x \<Longrightarrow> part (k x) P) \<Longrightarrow> part (rbind m k) P"
  by (auto intro: part_mono)

lemma devices_kept:
  "v_notify v = devs \<Longrightarrow> part (on_serial f v) (\<lambda>u. v_notify u = devs)"
  "v_notify v = devs \<Longrightarrow> part (timer_event E C completed v) (\<lambda>u. v_notify u = devs)"
proof -
  have d: "part (on_pit f v) (\<lambda>u. v_notify u = devs)" if "v_notify v = devs" for f v
    using that by (auto simp: on_pit_def intro: part_all)
  have r: "part (on_rtc f v) (\<lambda>u. v_notify u = devs)" if "v_notify v = devs" for f v
    using that by (auto simp: on_rtc_def intro: part_all)
  have h: "part (on_hpet f v) (\<lambda>u. v_notify u = devs)" if "v_notify v = devs" for f v
    using that by (auto simp: on_hpet_def intro: part_all)
  have s: "part (on_serial f v) (\<lambda>u. v_notify u = devs)" if "v_notify v = devs" for f v
    using that by (auto simp: on_serial_def intro: part_all)
  show "part (on_serial f v) (\<lambda>u. v_notify u = devs)" if "v_notify v = devs" using s [OF that] .
  assume v: "v_notify v = devs"
  show "part (timer_event E C completed v) (\<lambda>u. v_notify u = devs)"
    unfolding timer_event_def by (intro part_bind [where P = "\<lambda>u. v_notify u = devs"]) (simp_all add: d r s h v)
qed

text \<open>
  C26. Signals of a monitor are told apart.  However many signals a notification has merged, the event
  handler of \<^verbatim>\<open>main.c\<close> runs the timers exactly if the timer server signalled, the
  console exactly if the serial server did, and then injects exactly the interrupts that were signalled
  and notifies exactly the devices that did: the mask and base of the configuration keep allocated
  badges clear of the bits of the interrupts.
\<close>

theorem signals_dispatched:
  assumes "allocated_badges (VM_PER_VM_CONFIG_DEF num) num ks = Some (source_badges C (v_notify v))"
    "list_all (\<lambda>d. snd d \<noteq> 0) (v_notify v)" "list_all (signal_exists (v_notify v)) S"
  shows "handle_async_event E C (received_badge C (v_notify v) S) completed v =
    rbind (if TimerSignal \<in> set S then timer_event E C completed v else Inr v) (\<lambda>v.
    rbind (if ConsoleSignal \<in> set S then on_serial (serial_character_interrupt E (v_ser_f v)) v else Inr v) (\<lambda>v.
      Inr (emits (map InjectIrq (filter (\<lambda>i. IrqSignal i \<in> set S) [0..<16]) @
        map (\<lambda>k. DeviceNotify (snd (v_notify v ! k))) (filter (\<lambda>k. DeviceSignal k \<in> set S) [0..<length (v_notify v)])) v)))"
proof (cases "S = []")
  case True
  then show ?thesis by (simp add: handle_async_event_def received_badge_def)
next
  case False
  let ?b = "received_badge C (v_notify v) S" and ?devs = "v_notify v"
  note has = badge_has_signal [OF assms(1,3)]
  have b27: "bit ?b 27" using False by (simp add: bit_received [OF assms(1,3)])
  have irq: "bit ?b (i + 1) \<longleftrightarrow> IrqSignal i \<in> set S" if "i < 16" for i
    using has [of "IrqSignal i"] badge_has_irq [OF that b27] that by simp
  have dev: "map (DeviceNotify \<circ> snd) (filter (\<lambda>d. badge_has ?b (ucast (fst d))) ?devs) =
      map (\<lambda>k. DeviceNotify (snd (?devs ! k))) (filter (\<lambda>k. DeviceSignal k \<in> set S) [0..<length ?devs])"
  proof -
    have "map (DeviceNotify \<circ> snd) (filter (\<lambda>d. badge_has ?b (ucast (fst d))) (map (nth ?devs) [0..<length ?devs])) =
        map (\<lambda>k. DeviceNotify (snd (?devs ! k))) (filter (\<lambda>k. badge_has ?b (ucast (fst (?devs ! k)))) [0..<length ?devs])"
      by (simp add: filter_map o_def)
    also have "filter (\<lambda>k. badge_has ?b (ucast (fst (?devs ! k)))) [0..<length ?devs] =
        filter (\<lambda>k. DeviceSignal k \<in> set S) [0..<length ?devs]"
      using has [of "DeviceSignal k" for k] by (intro filter_cong) auto
    finally show ?thesis by (simp only: map_nth)
  qed
  have out: "rbind (run_ops (inject_irq ?b) [0..<16] u) (\<lambda>u. run_ops (notify_device ?b) (v_notify u) u) =
      Inr (emits (map InjectIrq (filter (\<lambda>i. IrqSignal i \<in> set S) [0..<16]) @
        map (\<lambda>k. DeviceNotify (snd (v_notify u ! k))) (filter (\<lambda>k. DeviceSignal k \<in> set S) [0..<length (v_notify u)])) u)"
    if "v_notify u = ?devs" for u
  proof -
    have "filter (\<lambda>i. bit ?b (i + 1)) [0..<16] = filter (\<lambda>i. IrqSignal i \<in> set S) [0..<16]"
      using irq by (intro filter_cong) auto
    then show ?thesis
      using run_inject_irqs [OF b27, of 16 u] run_notify_devices [OF assms(2), of ?b "emits es u" for es] dev that by simp
  qed
  have "?b AND BIT 27 \<noteq> 0" "badge_has ?b (init_timer_notification_badge C) \<longleftrightarrow> TimerSignal \<in> set S"
    "badge_has ?b (serial_getchar_notification_badge C) \<longleftrightarrow> ConsoleSignal \<in> set S"
    using has [of TimerSignal] has [of ConsoleSignal] b27 by (simp_all add: and_BIT_0_iff)
  then show ?thesis
    unfolding handle_async_event_def
    by (simp only: if_False) (intro rbind_part_cong [of _ "\<lambda>u. v_notify u = ?devs"] out; simp add: devices_kept)
qed

definition two_devices :: vmm_config where
  "two_devices = \<lparr>use_hpet = False, init_timer_notification_badge = BIT 27 OR BIT 0,
     serial_getchar_notification_badge = BIT 27 OR BIT 17\<rparr>"

theorem signals_dispatched_witness:
  "handle_async_event sample_env two_devices (received_badge two_devices (v_notify sample_vmm) [DeviceSignal 1, IrqSignal 12, IrqSignal 6]) 0 sample_vmm =
     Inr (emits [InjectIrq 6, InjectIrq 12, DeviceNotify 0x400100] sample_vmm)"
proof -
  have d: "v_notify sample_vmm = [(BIT 27 OR BIT 18, 0x400000), (BIT 27 OR BIT 19, 0x400100)]" by (simp add: sample_vmm_def)
  have "list_all (\<lambda>k. k < 64 \<and> bit (0x1ffe0001 :: int) k \<and> \<not> bit (2 ^ 27 :: int) k) [0, 17, 18, 19]"
    by (simp add: mask_bits bit_exp_iff)
  then have "allocated_badges (VM_PER_VM_CONFIG_DEF ''0'') ''0'' [0, 17, 18, 19] = Some (source_badges two_devices (v_notify sample_vmm))"
    unfolding allocated_badges_def endpoint_attributes prod.case option.case attribute.case
    by (simp add: source_badges_def two_devices_def d BIT_def)
  note dispatch = signals_dispatched [OF this, of "[DeviceSignal 1, IrqSignal 12, IrqSignal 6]" sample_env 0]
  have "filter (\<lambda>i. IrqSignal i \<in> set [DeviceSignal 1, IrqSignal 12, IrqSignal 6]) [0..<16] = [6, 12]"
    "filter (\<lambda>k. DeviceSignal k \<in> set [DeviceSignal 1, IrqSignal 12, IrqSignal 6]) [0..<length (v_notify sample_vmm)] = [1]"
    by (simp_all add: d upt_rec)
  then show ?thesis using dispatch by (simp add: d)
qed

section \<open>Timers\<close>

text \<open>
  The timer server gives each client as many timers as the configuration says.  The event handler
  has a device for every one of them, and no device uses one beyond.
\<close>

lemma timers_configured:
  "map_of VM_CONFIGURATION_DEF ''time_server.timers_per_client'' = Some (IntAttr 12)"
  "BIT TIMER_PIT OR rtc_timers OR serial_timers OR hpet_timers = (mask 12 :: u32)"
  by (simp add: VM_CONFIGURATION_DEF_def)
    (simp add: timer_ids rtc_timers_def serial_timers_def hpet_timers_def BIT_def mask_numeral)

end
