(* ===== verification/Pci_Config.thy ===== *)
theory Pci_Config
  imports Vmm_Main
begin

unbundle bit_operations_syntax

text \<open>
  The configuration space of PCI as the monitor itself sees it: the wrappers of
  \<^verbatim>\<open>Init/src/main.c\<close> that the PCI library calls, on top of the functions of the component that owns
  the configuration space.  They reach the same registers as a guest does through the address and data
  ports of \<^verbatim>\<open>pci_config_io_in\<close> and \<^verbatim>\<open>pci_config_io_out\<close>.
\<close>

section \<open>The wrappers\<close>

record pci_address =
  pa_bus :: u8
  pa_dev :: u8
  pa_fun :: u8

text \<open>The functions of the component interface, with the state \<open>'s\<close> of the configuration space.\<close>

record 's pci_config_iface =
  pci_config_read8 :: "u8 \<Rightarrow> u8 \<Rightarrow> u8 \<Rightarrow> u32 \<Rightarrow> 's \<Rightarrow> u8"
  pci_config_read16 :: "u8 \<Rightarrow> u8 \<Rightarrow> u8 \<Rightarrow> u32 \<Rightarrow> 's \<Rightarrow> u16"
  pci_config_read32 :: "u8 \<Rightarrow> u8 \<Rightarrow> u8 \<Rightarrow> u32 \<Rightarrow> 's \<Rightarrow> u32"
  pci_config_write8 :: "u8 \<Rightarrow> u8 \<Rightarrow> u8 \<Rightarrow> u32 \<Rightarrow> u8 \<Rightarrow> 's \<Rightarrow> 's"
  pci_config_write16 :: "u8 \<Rightarrow> u8 \<Rightarrow> u8 \<Rightarrow> u32 \<Rightarrow> u16 \<Rightarrow> 's \<Rightarrow> 's"
  pci_config_write32 :: "u8 \<Rightarrow> u8 \<Rightarrow> u8 \<Rightarrow> u32 \<Rightarrow> u32 \<Rightarrow> 's \<Rightarrow> 's"

definition camkes_pci_read8 :: "'s pci_config_iface \<Rightarrow> pci_address \<Rightarrow> u32 \<Rightarrow> 's \<Rightarrow> u8" where
  "camkes_pci_read8 I addr offset = pci_config_read8 I (pa_bus addr) (pa_dev addr) (pa_fun addr) offset"

definition camkes_pci_read16 :: "'s pci_config_iface \<Rightarrow> pci_address \<Rightarrow> u32 \<Rightarrow> 's \<Rightarrow> u16" where
  "camkes_pci_read16 I addr offset = pci_config_read16 I (pa_bus addr) (pa_dev addr) (pa_fun addr) offset"

definition camkes_pci_read32 :: "'s pci_config_iface \<Rightarrow> pci_address \<Rightarrow> u32 \<Rightarrow> 's \<Rightarrow> u32" where
  "camkes_pci_read32 I addr offset = pci_config_read32 I (pa_bus addr) (pa_dev addr) (pa_fun addr) offset"

definition camkes_pci_write8 :: "'s pci_config_iface \<Rightarrow> pci_address \<Rightarrow> u32 \<Rightarrow> u8 \<Rightarrow> 's \<Rightarrow> 's" where
  "camkes_pci_write8 I addr offset val = pci_config_write8 I (pa_bus addr) (pa_dev addr) (pa_fun addr) offset val"

definition camkes_pci_write16 :: "'s pci_config_iface \<Rightarrow> pci_address \<Rightarrow> u32 \<Rightarrow> u16 \<Rightarrow> 's \<Rightarrow> 's" where
  "camkes_pci_write16 I addr offset val = pci_config_write16 I (pa_bus addr) (pa_dev addr) (pa_fun addr) offset val"

definition camkes_pci_write32 :: "'s pci_config_iface \<Rightarrow> pci_address \<Rightarrow> u32 \<Rightarrow> u32 \<Rightarrow> 's \<Rightarrow> 's" where
  "camkes_pci_write32 I addr offset val = pci_config_write32 I (pa_bus addr) (pa_dev addr) (pa_fun addr) offset val"

text \<open>The table of functions that the PCI library is given; the cookie is null.\<close>

record 's vmm_pci_config =
  ioread8 :: "pci_address \<Rightarrow> u32 \<Rightarrow> 's \<Rightarrow> u8"
  ioread16 :: "pci_address \<Rightarrow> u32 \<Rightarrow> 's \<Rightarrow> u16"
  ioread32 :: "pci_address \<Rightarrow> u32 \<Rightarrow> 's \<Rightarrow> u32"
  iowrite8 :: "pci_address \<Rightarrow> u32 \<Rightarrow> u8 \<Rightarrow> 's \<Rightarrow> 's"
  iowrite16 :: "pci_address \<Rightarrow> u32 \<Rightarrow> u16 \<Rightarrow> 's \<Rightarrow> 's"
  iowrite32 :: "pci_address \<Rightarrow> u32 \<Rightarrow> u32 \<Rightarrow> 's \<Rightarrow> 's"

definition make_camkes_pci_config :: "'s pci_config_iface \<Rightarrow> 's vmm_pci_config" where
  "make_camkes_pci_config I =
     \<lparr>ioread8 = camkes_pci_read8 I, ioread16 = camkes_pci_read16 I, ioread32 = camkes_pci_read32 I,
      iowrite8 = camkes_pci_write8 I, iowrite16 = camkes_pci_write16 I, iowrite32 = camkes_pci_write32 I\<rparr>"

section \<open>Guest and monitor\<close>

text \<open>What an access of the port handlers does with the functions of the component interface.\<close>

fun serve_read :: "'s pci_config_iface \<Rightarrow> 's \<Rightarrow> pci_access \<Rightarrow> u32" where
  "serve_read I s (PciRead n b d f r) =
     (if n = 1 then ucast (pci_config_read8 I b d f (ucast r) s)
      else if n = 2 then ucast (pci_config_read16 I b d f (ucast r) s)
      else pci_config_read32 I b d f (ucast r) s)"
| "serve_read I s (PciWrite n b d f r v) = 0"

fun serve_write :: "'s pci_config_iface \<Rightarrow> pci_access \<Rightarrow> 's \<Rightarrow> 's" where
  "serve_write I (PciRead n b d f r) s = s"
| "serve_write I (PciWrite n b d f r v) s =
     (if n = 1 then pci_config_write8 I b d f (ucast r) (ucast v) s
      else if n = 2 then pci_config_write16 I b d f (ucast r) (ucast v) s
      else pci_config_write32 I b d f (ucast r) v s)"

definition monitor_reads :: "'s vmm_pci_config \<Rightarrow> nat \<Rightarrow> pci_address \<Rightarrow> u8 \<Rightarrow> 's \<Rightarrow> u32" where
  "monitor_reads cfg n addr r s =
     (if n = 1 then ucast (ioread8 cfg addr (ucast r) s)
      else if n = 2 then ucast (ioread16 cfg addr (ucast r) s) else ioread32 cfg addr (ucast r) s)"

definition monitor_writes :: "'s vmm_pci_config \<Rightarrow> nat \<Rightarrow> pci_address \<Rightarrow> u8 \<Rightarrow> u32 \<Rightarrow> 's \<Rightarrow> 's" where
  "monitor_writes cfg n addr r v =
     (if n = 1 then iowrite8 cfg addr (ucast r) (ucast v)
      else if n = 2 then iowrite16 cfg addr (ucast r) (ucast v) else iowrite32 cfg addr (ucast r) v)"

text \<open>A write to the data port, after the address of a register has been written to the address port.\<close>

lemma pci_config_data_write:
  assumes ports: "PCI_CONF_PORT_ADDR P = 0xcf8" "0xcf8 < PCI_CONF_PORT_ADDR_END P"
      "PCI_CONF_PORT_ADDR_END P \<le> 0xcfc" "PCI_CONF_PORT_DATA P = 0xcfc" "PCI_CONF_PORT_DATA_END P = 0xd00"
    and "unat dev < 32" "unat fn < 8" "n = 1 \<or> n = 2 \<or> n = 4" "off + n \<le> 4"
  shows "rbind (pci_config_io_out P a 0xcf8 4 (pci_conf_address bus dev fn r)) (\<lambda>(_, a', _).
           pci_config_io_out P a' (0xcfc + word_of_nat off) (int n) v) =
         Inr (0, pci_conf_address bus dev fn (r AND NOT (mask 2)), Some (PciWrite n bus dev fn
           ((r AND NOT (mask 2)) + word_of_nat off) (if n = 1 then v AND 0xff else if n = 2 then v AND 0xffff else v)))"
proof -
  have w: "pci_config_io_out P a 0xcf8 4 (pci_conf_address bus dev fn r) =
      Inr (0, pci_conf_address bus dev fn (r AND NOT (mask 2)), None)"
    using ports by (simp add: pci_config_io_out_def copy_into_all conf_address_aligned)
  have off: "off \<in> {0, 1, 2, 3}" using assms(8,9) by auto
  then have p: "\<not> (0xcfc + word_of_nat off :: u32) < PCI_CONF_PORT_ADDR_END P"
    using ports(3) by (auto simp: word_less_nat_alt word_le_nat_alt)
  have d: "\<not> (0xcfc + word_of_nat off :: u32) < 0xcfc" "\<not> (0xd00 :: u32) < 0xcfc + word_of_nat off + word_of_nat n"
    using off assms(8,9) by (auto simp: word_less_nat_alt)
  have o: "(ucast (word_of_nat off :: u32) :: u8) = word_of_nat off" using off by auto
  show ?thesis
    unfolding w rbind_Inr case_prod_conv unfolding pci_config_io_out_def ports
    using p d assms(8) by (auto simp: conf_fields assms(6,7) o)
qed


definition sample_iface :: "(u32 \<Rightarrow> u8) pci_config_iface" where
  "sample_iface =
     \<lparr>pci_config_read8 = (\<lambda>b d f r s. s r),
      pci_config_read16 = (\<lambda>b d f r s. ucast (s r) OR push_bit 8 (ucast (s (r + 1)))),
      pci_config_read32 = (\<lambda>b d f r s. ucast (s r) OR push_bit 8 (ucast (s (r + 1))) OR push_bit 16 (ucast (s (r + 2))) OR
        push_bit 24 (ucast (s (r + 3)))),
      pci_config_write8 = (\<lambda>b d f r v s. s(r := v)),
      pci_config_write16 = (\<lambda>b d f r v s. s(r := ucast v, r + 1 := ucast (drop_bit 8 v))),
      pci_config_write32 = (\<lambda>b d f r v s. s(r := ucast v, r + 1 := ucast (drop_bit 8 v), r + 2 := ucast (drop_bit 16 v),
        r + 3 := ucast (drop_bit 24 v)))\<rparr>"


end
