(* ===== verification/Arm_Life.thy ===== *)
theory Arm_Life
  imports Arm_Boot
begin

text \<open>
  The life of the ARM monitor: it boots, runs its guest, and starts again from the beginning when
  something asks for a restart.  The request comes from an event of another component or from a reboot
  of the guest; it redirects the main thread to \<^verbatim>\<open>restart_component\<close>, which jumps back to
  the \<^verbatim>\<open>setjmp\<close> at the start of \<^verbatim>\<open>main_continued\<close>.  A request that arrives before the
  guest runs is not modelled.
\<close>

section \<open>Phases\<close>

text \<open>
  A running monitor has the log of its boot and the number of times that \<^verbatim>\<open>vm_run\<close> has returned
  without an error.  An error of \<^verbatim>\<open>vm_run\<close> halts the processor.  The logs of lives that are over
  are kept.
\<close>

datatype arm_phase =
    ArmBooting
  | ArmRunning arm_log nat
  | ArmRestarting arm_log
  | ArmEnded fault

record arm_system =
  as_config :: arm_config
  as_badge_bits :: nat
  as_err0 :: int
  as_dtb0 :: u64
  as_untyped_count :: nat
  as_last_valid_cap :: nat
  as_cnode_size_bits :: nat

text \<open>\<open>restart_component\<close>, run by the main thread, which the event has redirected.\<close>

fun restart_component :: "arm_phase \<Rightarrow> arm_phase" where
  "restart_component (ArmRunning l k) = ArmRestarting l"
| "restart_component p = p"

text \<open>
  The event handler redirects the main thread: it sets its program counter and resumes it.
\<close>

definition restart_event :: "arm_phase \<Rightarrow> arm_phase" where
  "restart_event p = restart_component p"

text \<open>One turn of the loop at the end of \<open>main_continued\<close>, with the result of \<^verbatim>\<open>vm_run\<close>.\<close>

fun run_turn :: "int \<Rightarrow> arm_phase \<Rightarrow> arm_phase" where
  "run_turn err (ArmRunning l k) = (if err \<noteq> 0 then ArmEnded NoReturn else ArmRunning l (Suc k))"
| "run_turn err p = p"

definition boot_turn :: "arm_system \<Rightarrow> arm_ext \<Rightarrow> arm_phase" where
  "boot_turn M ext =
     (case arm_main_continued (as_config M) (as_badge_bits M) (as_err0 M) (as_dtb0 M) ext of
        Inl e \<Rightarrow> ArmEnded e | Inr l \<Rightarrow> ArmRunning l 0)"

text \<open>The libraries may answer differently in each life.\<close>

inductive arm_step :: "arm_system \<Rightarrow> arm_phase \<times> arm_log list \<Rightarrow> arm_phase \<times> arm_log list \<Rightarrow> bool" for M where
  step_boot: "arm_step M (ArmBooting, hs) (boot_turn M ext, hs)"
| step_run: "arm_step M (ArmRunning l k, hs) (run_turn err (ArmRunning l k), hs)"
| step_event: "arm_step M (ArmRunning l k, hs) (restart_event (ArmRunning l k), hs)"
| step_restart: "restart_vmm ext (as_untyped_count M) (as_last_valid_cap M) (as_cnode_size_bits M) l = Inr h \<Longrightarrow>
    arm_step M (ArmRestarting l, hs) (ArmBooting, hs @ [h])"
| step_failed: "restart_vmm ext (as_untyped_count M) (as_last_valid_cap M) (as_cnode_size_bits M) l = Inl e \<Longrightarrow>
    arm_step M (ArmRestarting l, hs) (ArmEnded e, hs)"

inductive_cases arm_stepE: "arm_step M s t"

inductive arm_reach :: "arm_system \<Rightarrow> arm_phase \<times> arm_log list \<Rightarrow> bool" for M where
  reach_start: "arm_reach M (ArmBooting, [])"
| reach_step: "arm_reach M s \<Longrightarrow> arm_step M s t \<Longrightarrow> arm_reach M t"

section \<open>Restarts give everything back\<close>

text \<open>What a restart appends to the log of a life, if it gets through.\<close>

definition given_back :: "arm_system \<Rightarrow> arm_log" where
  "given_back M = Alloc RebootCallbacks # Alloc MakeSimple # map (\<lambda>i. Alloc (RevokeUntyped i)) [0..<as_untyped_count M] @
     map (\<lambda>i. Alloc (DeleteSlot i)) [as_last_valid_cap M + 1..<2 ^ as_cnode_size_bits M] @ [Alloc ZeroBss]"

lemma asserted_Inr: "asserted ext c l = Inr m \<Longrightarrow> m = l @ [c]"
  by (simp add: call_zero_def split: if_splits)

lemma restart_appends:
  assumes "restart_vmm ext u c b l = Inr h"
  shows "h = l @ Alloc RebootCallbacks # Alloc MakeSimple # map (\<lambda>i. Alloc (RevokeUntyped i)) [0..<u] @
     map (\<lambda>i. Alloc (DeleteSlot i)) [c + 1..<2 ^ b] @ [Alloc ZeroBss]"
proof -
  have r: "m = l @ map (\<lambda>i. Alloc (f i)) is" if "run_ops (\<lambda>i. asserted ext (Alloc (f i))) is l = Inr m"
    for f :: "nat \<Rightarrow> alloc_call" and "is" l m
    using that
  proof (induction "is" arbitrary: l)
    case (Cons i "is")
    then show ?case using Cons.IH [of "l @ [Alloc (f i)]"] by (auto simp: rbind_eq_Inr dest!: asserted_Inr)
  qed simp
  have d: "run_ops (\<lambda>i. call_void (Alloc (f i))) is l = Inr (l @ map (\<lambda>i. Alloc (f i)) is)" for f :: "nat \<Rightarrow> alloc_call" and "is" l
    by (induction "is" arbitrary: l) (simp_all add: call_void_def)
  show ?thesis
    using assms
    by (auto simp: restart_vmm_def reset_resources_def rbind_eq_Inr d call_zero_def call_void_def simp del: upt_Suc
        split: if_splits dest!: r)
qed

section \<open>Every life\<close>

definition complete_boot :: "arm_system \<Rightarrow> arm_log \<Rightarrow> bool" where
  "complete_boot M l \<longleftrightarrow> (\<exists>pre entry dtb. l = pre @ [SetBootargs entry dtb, Setup StartVcpu] \<and>
     Setup StartVcpu \<notin> set pre \<and> arm_required (as_config M) (as_badge_bits M) \<subseteq> set pre \<and> entry \<noteq> 0)"

fun arm_life_inv :: "arm_system \<Rightarrow> arm_phase \<times> arm_log list \<Rightarrow> bool" where
  "arm_life_inv M (p, hs) \<longleftrightarrow> list_all (\<lambda>h. \<exists>l. complete_boot M l \<and> h = l @ given_back M) hs \<and>
     (case p of ArmRunning l k \<Rightarrow> complete_boot M l | ArmRestarting l \<Rightarrow> complete_boot M l | _ \<Rightarrow> True)"

lemma boot_turn_inv: "case boot_turn M ext of ArmRunning l k \<Rightarrow> complete_boot M l | ArmRestarting l \<Rightarrow> complete_boot M l | _ \<Rightarrow> True"
  using arm_boot_order [of "as_config M" "as_badge_bits M" "as_err0 M" "as_dtb0 M" ext]
  by (auto simp: boot_turn_def complete_boot_def split: sum.split)

lemma arm_step_inv: "arm_step M s t \<Longrightarrow> arm_life_inv M s \<Longrightarrow> arm_life_inv M t"
proof (induction rule: arm_step.induct)
  case (step_boot hs ext)
  then show ?case using boot_turn_inv [of M ext] by simp
next
  case (step_restart ext l h hs)
  then have "h = l @ given_back M" using restart_appends by (simp add: given_back_def)
  then show ?case using step_restart by auto
qed (simp_all add: restart_event_def)

lemma arm_reach_inv: "arm_reach M s \<Longrightarrow> arm_life_inv M s"
  by (induction rule: arm_reach.induct) (auto intro: arm_step_inv)


definition sample_life :: arm_system where
  "sample_life = \<lparr>as_config = sample_arm, as_badge_bits = 64, as_err0 = 0, as_dtb0 = 0, as_untyped_count = 3,
     as_last_valid_cap = 60, as_cnode_size_bits = 6\<rparr>"


end
