(* ===== verification/Spec2Isabelle.thy ===== *)
theory Spec2Isabelle
  imports I8254 Serial Serial_Input Serial_Output Mc146818rtc Hpet Sataserver Virtio_Con Virtio_Blk Sata_Init Vswitch Udp Vmm_Boot Arm_Boot
    Arm_Modules Arm_Templates Vmm_Init Virtio_Init String_Reverse Udp_Server Topology Composition Pci_Config Arm_Life
begin

text \<open>
  A verification development for the CAmkES virtual machine monitor (\<^verbatim>\<open>camkes-vm\<close>): the
  C components that emulate a PC for a guest and share devices between guests.

  \<^bold>\<open>The program.\<close>  A VM is a CAmkES component, \<^verbatim>\<open>components/Init\<close> on x86 and
  \<^verbatim>\<open>components/VM_Arm\<close> on ARM.  The x86 monitor boots a guest (\<^verbatim>\<open>main.c\<close>),
  emulates a timer, a serial port, a real-time clock and optionally an HPET for it, and then reacts
  to two things: accesses of the guest to I/O ports, which the VM library dispatches to the
  registered handlers, and asynchronous events, which arrive as a badge and stand for expired
  timers, console input, interrupts of passed-through hardware and notifications of other
  components.  Emulated devices drive the lines of one interrupt controller.  Virtio backends
  connect guests with each other, and server components (\<^verbatim>\<open>Sataserver\<close>) share hardware
  between them.

  \<^bold>\<open>Theories.\<close>
  \<^item> \<open>Vmm_Prelude\<close>: names for the C integer types, faults as values with a total- and a
    partial-correctness calculus (\<open>ok\<close>, \<open>part\<close>), loops, bounds-checked arrays, word lemmas, and the
    interfaces \<open>safe_device\<close> and \<open>bounded_fifo\<close> as locales.
  \<^item> \<open>Vmm_World\<close>: what surrounds the devices of the x86 VMM.  Functions outside the repository are the
    record \<open>env\<close>; calls to the outside are a list of effects; identifiers of timers and interrupts are
    those of \<^verbatim>\<open>timers.h\<close> and \<^verbatim>\<open>virtio_irq.h\<close>.
  \<^item> \<open>I8254\<close>: the programmable interval timer, \<^verbatim>\<open>Init/src/i8254.c\<close>.
  \<^item> \<open>Serial\<close>: the 16550A UART, \<^verbatim>\<open>Init/src/serial.c\<close>.
  \<^item> \<open>Serial_Input\<close>: sessions of console input, from the shared ring through the UART to the guest.
  \<^item> \<open>Serial_Output\<close>: sessions of guest output, from the data register through the transmit timer to the console.
  \<^item> \<open>Mc146818rtc\<close>: the real-time clock, \<^verbatim>\<open>Init/src/mc146818rtc.c\<close>.
  \<^item> \<open>Hpet\<close>: the high precision event timer, \<^verbatim>\<open>Init/src/hpet.c\<close>.
  \<^item> \<open>Irq_Lines\<close>: frame conditions, one for each operation of the timer, the UART and the clock: no
    device changes the level of a line that is not its own.
  \<^item> \<open>Vmm_Config\<close>: the accessors that \<^verbatim>\<open>Init/templates/*.template.c\<close> generate from the
    configuration of a VM.
  \<^item> \<open>Vmm_Main\<close>: the event handler, the port table, capability lookups and PCI configuration ports of
    \<^verbatim>\<open>Init/src/main.c\<close>, and the composition of the devices.
  \<^item> \<open>Pci_Config\<close>: the configuration space as the monitor sees it, \<^verbatim>\<open>make_camkes_pci_config\<close>.
  \<^item> \<open>Vmm_Boot\<close>: \<^verbatim>\<open>main_continued\<close> and \<^verbatim>\<open>init_irqs\<close>.
  \<^item> \<open>Virtio_Con\<close>: the virtio console backends of both monitors, \<^verbatim>\<open>virtio_con.c\<close>.
  \<^item> \<open>Sataserver\<close>: the SATA server, \<^verbatim>\<open>Sataserver/src/sataserver.c\<close>, with the template of its
    connector.
  \<^item> \<open>Calls\<close>: functions that are sequences of calls of libraries, with a calculus of the calls that a
    sequence which got through must have made, or has made exactly.
  \<^item> \<open>Vmm_Init\<close>: \<^verbatim>\<open>pre_init\<close> and \<^verbatim>\<open>run\<close> of \<^verbatim>\<open>Init/src/main.c\<close>.
  \<^item> \<open>Sata_Init\<close>: the set-up of the SATA server, with the parsing of its PCI addresses.
  \<^item> \<open>Virtio_Blk\<close>: the block backend on top of the SATA server, \<^verbatim>\<open>Init/src/virtio_blk.c\<close>.
  \<^item> \<open>Virtio_Net\<close>: frames between driver and guest: \<^verbatim>\<open>Init/src/virtio_net.c\<close>,
    \<^verbatim>\<open>Firewall\<close>, \<^verbatim>\<open>UDPServer\<close>, and on ARM \<^verbatim>\<open>libs/libvirtio\<close> with the ARP module.
  \<^item> \<open>Vswitch\<close>: frames and packets between VMs over shared queues: \<^verbatim>\<open>virtio_net_vswitch.c\<close>,
    \<^verbatim>\<open>virtio_net_virtqueue.c\<close> and \<^verbatim>\<open>virtio_vsock.c\<close>.
  \<^item> \<open>Topology\<close>: networks of guests, the macros of \<^verbatim>\<open>VM/configurations/connections.h\<close>.
  \<^item> \<open>Composition\<close>: architecture descriptions, \<^verbatim>\<open>VM/configurations/vm.h\<close>,
    \<^verbatim>\<open>sata.h\<close> and \<^verbatim>\<open>VM_Arm/configurations/vm.h\<close>, with the badges they reserve.
  \<^item> \<open>Virtio_Init\<close>: set-up and interrupts of virtio devices on both monitors, with the lifetimes of
    their cookies.
  \<^item> \<open>Arm_Events\<close>, \<open>Arm_Memory\<close>, \<open>Arm_Boot\<close>: the ARM monitor, \<^verbatim>\<open>VM_Arm/src/main.c\<close>: events
    and interrupts, memory with a ledger of what the allocators are owed, and boot with the device tree;
    \<open>Arm_Life\<close>: boots and restarts as a step relation.
  \<^item> \<open>Arm_Modules\<close>: the modules of the ARM monitor and the connections between guests,
    \<^verbatim>\<open>crossvm.c\<close> of both monitors.
  \<^item> \<open>Arm_Templates\<close>: what the templates of the ARM monitor generate: devices of the device tree and the
    configuration of the guest.
  \<^item> \<open>Platforms\<close>: the tables of \<^verbatim>\<open>VM_Arm/plat_include\<close>: interrupts, device tree nodes, monitor calls.
  \<^item> \<open>Udp\<close>: the UDP connectors of \<^verbatim>\<open>templates/\<close> and the component \<^verbatim>\<open>Echo\<close>; \<open>Udp_Server\<close>: set-up
    and loop of the UDP server; \<open>String_Reverse\<close>: the component \<^verbatim>\<open>StringReverse\<close>.

  \<^bold>\<open>Correspondence.\<close>  A C struct is a record with the members the code uses, a static variable is a
  member of the component's state, and a function is a definition of the same name that takes and
  returns the state and the world.  Integers keep their width (\<open>u8\<close> to \<open>u64\<close>); a signed one is a word
  read with \<open>sint\<close>.  An operation that can divide by zero, leave an array, dereference a null
  pointer, fail an \<^verbatim>\<open>assert\<close>, reach \<^verbatim>\<open>ZF_LOGF\<close> or loop for ever returns
  \<open>fault + 'a\<close>, so that the absence of such faults is something to prove.  A long function is cut into
  definitions along its branches and phases; the manifest names the lines of each.

  \<^bold>\<open>Interfaces.\<close>  \<open>safe_device\<close> is the contract of an emulated device: operations that keep an invariant
  without a fault.  \<open>irq_device\<close> extends it by what makes devices composable: the invariant sees only
  the device's own line and operations leave other lines alone; it is interpreted for the timer, the
  UART and the clock, and \<open>vmm_safe\<close> rests on the interpretations.  \<open>bounded_fifo\<close> is a queue in a ring,
  interpreted for the FIFOs of the UART; console input is again a \<open>safe_device\<close>, whose operations are
  the events of a session.  \<open>console_backend\<close> is what two monitors that share rings rely
  on, interpreted for the x86 and the ARM backend.  \<open>frame_receiver\<close> is what the handler of a queue of
  frames promises, interpreted for the x86 switch, the ARM switch and the sockets; \<open>vq_laws\<close> and
  \<open>switch_laws\<close> state what the queue and switch libraries promise the handlers.

  \<^bold>\<open>What the lemmas show.\<close>
  \<^item> Safety under arbitrary guests: \<open>pit_guest_safe\<close>, \<open>serial_guest_safe\<close>, \<open>rtc_guest_safe\<close>,
    \<open>hpet_guest_safe\<close>, \<open>sata_requests_safe\<close>, and for the composed monitor \<open>vmm_safe\<close>, by rule induction
    over its reachable states.
  \<^item> Interrupt lines follow the devices' registers: \<open>pit_irq_line_follows_output\<close>, and as part of
    \<open>serial_guest_safe\<close>, \<open>rtc_guest_safe\<close> and \<open>vmm_safe\<close>.
  \<^item> Data arrives complete and in order: the UART's FIFOs, its transmission and reception, console input
    from the shared ring to the guest (\<open>serial_input_in_order\<close>), guest output up to the console with the
    transmit timer (\<open>serial_output_in_order\<close>), the console rings between two monitors
    under any interleaving (\<open>console_link_in_order\<close>, \<open>console_link_delivers\<close>), the isolation of the
    SATA server's clients.
  \<^item> Across components: \<open>guests_disks_isolated\<close>, for the block backend on top of the SATA server, in this theory.
  \<^item> Frames, packets and blocks: \<open>vq_link_in_order\<close>, \<open>vswitch_delivery\<close>, \<open>notification_serves_all\<close>,
    \<open>net_notification_delivers\<close>, \<open>udp_link_in_order\<close>, \<open>blk_write_read\<close>, \<open>string_reverse_exact\<close>.
  \<^item> The ARM monitor: \<open>irq_acknowledged_once\<close>, \<open>map_paddr_exact\<close>, \<open>arm_boot_order\<close>, its restarts
    (\<open>arm_lives_complete\<close>, \<open>reset_bss_exact\<close>), and the tables it is built from, \<open>dtb_irqs_exact\<close>, \<open>dtb_registers\<close>, \<open>platform_tables_wf\<close>.
  \<^item> Arithmetic is exact: the clock's 96-bit multiplication, its calendar and its periodic timer, the
    catch-up of the HPET, the partition tables.
  \<^item> Networks of guests: \<open>topology_wired\<close>, \<open>channel_memory\<close>, \<open>frames_follow_topology\<close> (the macros, the
    set-up of the switch and its forwarding agree), with \<open>channels_share_memory\<close> for what the keys of the
    shared memory get wrong.
  \<^item> Systems: \<open>systems_wired\<close>; \<open>signals_dispatched\<close>, from the badges that the configuration reserves to
    the devices that the event handler serves.
  \<^item> Events and configuration: \<open>async_event_dispatch\<close>, \<open>guest_and_monitor_agree\<close>, \<open>boot_order\<close>,
    \<open>guest_ram_exact\<close>, \<open>pre_init_untypeds\<close>.
  \<^item> What goes wrong, stated as it is: a hanging HPET, a fourth timer, noon, a drifting month, lost
    rings and frames, overrunning requests, a configuration that cannot boot, a list of devices read
    past its end, capabilities in front of a region, a cookie that is used after it was freed, variables
    that a restart cuts in half.  The
    findings of the manifest name these theorems.

  \<^bold>\<open>Loops.\<close>  Loops over arrays run over index lists; the reception loop of the UART and the allocation
  of guest memory are recursive functions with a termination proof (room left in the FIFO, bytes
  left); the catch-up loops of the HPET and the console loop of the virtual UART are \<open>rwhile\<close>, whose
  divergence is the value \<open>NoReturn\<close>, and \<open>hpet_periodic_expiry\<close> and \<open>vuart_console\<close> prove that they end
  where they do.  Loops that poll a driver, a queue or a server have fuel, and running out of it is
  \<open>NoReturn\<close> too; the theorems about them prove that they return when there is more fuel than packets
  in the queue, or frames of one notification, or calls until the server is ready.

  \<^bold>\<open>Assumptions.\<close>  \<open>muldivu64_exact\<close>, \<open>ROUND_DOWN_exact\<close>, \<open>time_units\<close> and \<open>tm_exact\<close> state what the
  platform library documents; \<open>sample_env\<close> satisfies them.  \<open>vq_laws\<close>, \<open>switch_laws\<close>, \<open>sata_works\<close> and
  \<open>macro_laws\<close> do the same for the queues, the switch, the disk driver and the build system, and each
  has an instance that satisfies it.  The composition covers the default build,
  in which the HPET is disabled: with it, devices share lines 0 and 8.  The library is trusted to
  call the handler registered for a port.  Within one handler the shared console ring does not change.
  \<open>allocated_badges\<close> is how the build system chooses badges from mask and base.  The guest's driver in
  \<open>Serial_Output\<close> writes at most sixteen bytes after it has seen the FIFO empty; more would overrun it.
  A topology gives each VM at most four others, for which the macros have variants, and their numbers
  equal length where memory is to be told apart.
\<close>

text \<open>
  \<^bold>\<open>Not modelled.\<close>  Code under \<^verbatim>\<open>#if 0\<close> that was left from QEMU; restart requests that
  arrive before the guest of the ARM monitor runs; weak functions that only say that they should not be called; log messages.  The
  guest, the kernel, the VM and virtio libraries, the TCP/IP stack, the device drivers, the file
  server and the CAmkES runtime are outside the repository and appear as parameters and effects.
\<close>

section \<open>Guests that share a disk\<close>

text \<open>
  C2. Guests that share a disk through the server do not disturb one another.  What a guest writes to
  its virtual disk it reads back after any sequence of transfers of other guests, each inside one of
  its sender's partitions: through the copies between guests, backend and server, the translation
  of sectors and the disk.
\<close>

theorem guests_disks_isolated:
  assumes "sata_works L" "sata_good s" "disk_ok s" "disjoint_tables (phys_partition_tables s)"
    "request_fits s b sector len buf" "unat len \<le> length buf2"
    "list_all (\<lambda>(a, dir, sector', len', buf'). a \<noteq> b \<and> request_fits s a sector' len' buf') ops"
  shows "ok (virtio_blk_emul_transfer L b VIRTIO_BLK_T_OUT sector len buf s) (\<lambda>(r, _, s).
    r = VIRTIO_BLK_XFER_COMPLETE \<and> ok (run_ops (blk_serve L) ops s) (\<lambda>s.
      ok (virtio_blk_emul_transfer L b VIRTIO_BLK_T_IN sector len buf2 s) (\<lambda>(r, g, _).
        r = VIRTIO_BLK_XFER_COMPLETE \<and> g = take (unat len) buf @ drop (unat len) buf2)))"
proof -
  obtain k j where r: "find_client s b = Inr k" "request_inside s k j (unat (ucast sector :: u32)) (unat len)"
    "unat (ucast sector :: u32) = unat sector" "0 < len" "unat len \<le> 4096" "512 dvd unat len"
    "length (dataport (clients s ! k)) = 4096" "unat len \<le> length buf"
    using assms(5) by (rule request_fitsE)
  have k: "k < length (clients s)" using find_client_ok [OF r(1)] by simp
  define s1 where "s1 = blk_written L k j sector len buf s"
  have "blk_same s s" using assms(2) by (simp add: blk_same_def sata_same_refl)
  then have same: "blk_same s s1" unfolding s1_def by (rule blk_same_written [OF _ k r(7,5)])
  note f = blk_same_facts [OF same k]
  have k1: "k < length (clients s1)" "find_client s1 b = Inr k" "request_inside s1 k j (unat (ucast sector :: u32)) (unat len)"
    using f(2,3,5) r(1,2) by simp_all
  have d: "disk_ok s1" using blk_written_disk_ok [OF assms(1) r(5,7) assms(3)] by (simp add: s1_def)
  have phys: "disjoint_tables (phys_partition_tables s1)" using same assms(4) by (simp add: blk_same_def)
  have j: "j < length (assigned_to (clients s1 ! k))" using k1(3) by (simp add: request_inside_def)
  have start: "blk_inv s1 k j s1" using f(1) d by (simp add: blk_inv_def blk_same_def sata_same_refl)
  have "ok (blk_serve L op t) (blk_inv s1 k j)" if "blk_inv s1 k j t" "op \<in> set ops" for op t
  proof -
    obtain a dir sector' len' buf' where op: "op = (a, dir, sector', len', buf')" by (cases op)
    then have "a \<noteq> b" "request_fits s1 a sector' len' buf'"
      using assms(7) that(2) blk_same_fits [OF same] by (auto simp: list_all_iff)
    then show ?thesis unfolding op by (rule blk_serve_other [OF assms(1) that(1) f(1) phys k1(2) j])
  qed
  then have others: "ok (run_ops (blk_serve L) ops s1) (blk_inv s1 k j)" using start by (intro ok_run_ops)
  have "length (dataport (clients s1 ! k)) = 4096" using f(8) r(7) by simp
  note reads = blk_reads [OF assms(1) _ f(1) k1(2,3) r(4,5,6) this assms(6)]
  have "sectors_at s1 k j sector len = take (unat len) buf"
    unfolding s1_def by (rule blk_written_sectors [OF assms(1) r(5,6,8)])
  then show ?thesis
    using blk_out_eq [OF assms(1,2) r(1,2,4,5,7,8)] ok_mono [OF others reads] by (simp add: s1_def)
qed

definition shared_server :: sataserver where
  "shared_server = (set_dataport 1 (replicate 4096 0) blk_server)\<lparr>hard_disk := \<lambda>x. replicate 512 0\<rparr>"

lemma shared_server_facts:
  "sata_good shared_server" "disk_ok shared_server" "disjoint_tables (phys_partition_tables shared_server)"
  "request_fits shared_server 7 200 1024 (replicate 1024 42)" "request_fits shared_server 9 64 512 (replicate 512 1)"
proof -
  have ids: "client_id (clients sample_server ! 0) = 7" "client_id (clients sample_server ! Suc 0) = 9"
    using sample_server_eq(4) sample_clients(1) by (auto simp: map_eq_Cons_conv)
  have c: "clients shared_server =
      [(clients sample_server ! 0)\<lparr>dataport := replicate 4096 0\<rparr>, (clients sample_server ! 1)\<lparr>dataport := replicate 4096 0\<rparr>]"
    using sample_clients(1)
    by (intro nth_equalityI) (auto simp: shared_server_def blk_server_def set_dataport_def less_Suc_eq nth_list_update numeral_2_eq_2)
  have p: "phys_partition_tables shared_server = sample_tables"
    by (simp add: shared_server_def blk_server_def set_dataport_def sample_server_eq(5))
  have f: "find_client blk_server 9 = Inr 1" "find_client shared_server 7 = Inr 0" "find_client shared_server 9 = Inr 1"
    by (simp_all add: find_client_def c ids blk_server_def set_dataport_def sample_clients(1) upt_rec rassert_def nth_list_update)
  show "sata_good shared_server"
    unfolding shared_server_def hard_disk_facts(1) by (rule set_dataport_facts(1) [OF blk_server_facts(1) f(1)])
  show "disk_ok shared_server" by (simp add: shared_server_def disk_ok_def)
  show "disjoint_tables (phys_partition_tables shared_server)" using sample_disjoint p by (simp add: sample_server_eq(5))
  have "request_inside shared_server 0 1 200 1024"
    by (simp add: request_inside_def in_partition_def c p sample_clients sample_vstart)
  then show "request_fits shared_server 7 200 1024 (replicate 1024 42)"
    by (simp add: request_fits_def f c sample_clients upt_rec)
  have "request_inside shared_server 1 0 64 512"
    by (simp add: request_inside_def in_partition_def c p sample_clients vstart_def sectors_of_def vsize_def pidx_def
        sample_tables_def zero_table_def)
  then show "request_fits shared_server 9 64 512 (replicate 512 1)"
    by (simp add: request_fits_def f c sample_clients upt_rec)
qed

theorem guests_disks_isolated_witness:
  "ok (virtio_blk_emul_transfer sample_sata 7 VIRTIO_BLK_T_OUT 200 1024 (replicate 1024 42) shared_server) (\<lambda>(r, _, s).
     ok (run_ops (blk_serve sample_sata) [(9, VIRTIO_BLK_T_OUT, 64, 512, replicate 512 1), (9, VIRTIO_BLK_T_IN, 64, 512, replicate 512 1)] s) (\<lambda>s.
       ok (virtio_blk_emul_transfer sample_sata 7 VIRTIO_BLK_T_IN 200 1024 (replicate 1024 0) s) (\<lambda>(r, g, _). g = replicate 1024 42)))"
  using guests_disks_isolated [OF sample_works shared_server_facts(1-4), of "replicate 1024 0"
      "[(9, VIRTIO_BLK_T_OUT, 64, 512, replicate 512 1), (9, VIRTIO_BLK_T_IN, 64, 512, replicate 512 1)]"] shared_server_facts(5)
  by (auto elim!: ok_mono)

end
